(* ===== verification/Foc_Prelude.thy ===== *)
theory Foc_Prelude
  imports Main "HOL-Library.Char_ord" "HOL-Library.List_Lexorder" "HOL-Library.Product_Lexorder"
begin

text \<open>
  Shared foundations of the development: results that may be errors, the clock, JavaScript
  string trimming and lower-casing, database tables as lists of rows, sums over rows, and reachable states with
  the interface an invariant has to satisfy.
\<close>

named_theorems table_simps \<open>lookups and updates of a table of rows\<close>
named_theorems sum_simps \<open>sums over the rows of a table\<close>

section \<open>Identifiers, clocks and text\<close>

text \<open>
  Identifiers (user ids, order ids, event ids, UUIDs) are strings compared for equality.
  A call that draws random UUIDs takes the values \<open>randomUUID()\<close> returned to it, in call order,
  as a function from the position of the draw; nothing is assumed about them, and a repeated
  value runs into the primary key of the table it is inserted in.
\<close>

type_synonym ident = string
type_synonym uuids = "nat \<Rightarrow> ident"

text \<open>
  Times are microseconds since the epoch, the precision of a \<open>timestamptz\<close> column. A JavaScript
  \<open>Date\<close> holds milliseconds: reading a column through \<open>new Date\<close> drops the last three digits.
\<close>

type_synonym time = int

definition iso :: "time \<Rightarrow> time" where
  "iso t = t - t mod 1000"

definition nullableIso :: "time option \<Rightarrow> time option" where
  "nullableIso t = map_option iso t"

definition later :: "time \<Rightarrow> int \<Rightarrow> time" where
  "later at_time ms = at_time + ms * 1000"

lemma iso_le: "iso t \<le> t"
  by (simp add: iso_def)

lemma iso_iso [simp]: "iso (iso t) = iso t"
  by (simp add: iso_def mod_diff_left_eq [symmetric])

lemma iso_mono: "s \<le> t \<Longrightarrow> iso s \<le> iso t"
proof -
  have *: "iso x = 1000 * (x div 1000)" for x
    by (simp add: iso_def minus_mod_eq_mult_div)
  assume "s \<le> t"
  then have "s div 1000 \<le> t div 1000" by (rule zdiv_mono1) simp
  with * show ?thesis by simp
qed

lemma iso_later [simp]: "iso (later (iso t) ms) = later (iso t) ms"
proof -
  have "iso t mod 1000 = 0" by (simp add: iso_def mod_diff_left_eq [symmetric])
  then have "(iso t + ms * 1000) mod 1000 = 0" by (simp add: mod_add_eq [symmetric])
  then show ?thesis by (simp add: later_def iso_def)
qed

lemma nullableIso_simps [simp]:
  "nullableIso None = None" "nullableIso (Some t) = Some (iso t)"
  "(nullableIso x = None) = (x = None)"
  by (simp_all add: nullableIso_def)

text \<open>
  \<open>String.prototype.trim\<close> on the Latin-1 code units a \<open>char\<close> can hold: tab, line feed, vertical
  tab, form feed, carriage return, space and no-break space.
\<close>

definition js_space :: "char \<Rightarrow> bool" where
  "js_space c \<longleftrightarrow> of_char c \<in> {9, 10, 11, 12, 13, 32, 160 :: nat}"

definition trim :: "string \<Rightarrow> string" where
  "trim s = rev (dropWhile js_space (rev (dropWhile js_space s)))"

lemma trim_length: "length (trim s) \<le> length s"
proof -
  have "length (trim s) \<le> length (dropWhile js_space s)"
    using length_dropWhile_le [of js_space "rev (dropWhile js_space s)"] by (simp add: trim_def)
  then show ?thesis
    using length_dropWhile_le [of js_space s] by simp
qed

text \<open>
  \<open>toLowerCase\<close> on the Latin-1 code units a \<open>char\<close> can hold; the same folding is the database's
  \<open>lower\<close>, and makes the canonical form of a UUID.
\<close>

definition lower_char :: "char \<Rightarrow> char" where
  "lower_char c = (let n = of_char c :: nat in
     if (65 \<le> n \<and> n \<le> 90) \<or> (192 \<le> n \<and> n \<le> 222 \<and> n \<noteq> 215) then char_of (n + 32) else c)"

definition toLowerCase :: "string \<Rightarrow> string" where
  "toLowerCase s = map lower_char s"

lemma lower_char_idem [simp]: "lower_char (lower_char c) = lower_char c"
  by (auto simp: lower_char_def Let_def)

lemma toLowerCase_idem [simp]: "toLowerCase (toLowerCase s) = toLowerCase s"
  by (simp add: toLowerCase_def)

lemma toLowerCase_Nil [simp]: "toLowerCase s = [] \<longleftrightarrow> s = []"
  by (simp add: toLowerCase_def)

section \<open>Results that may be errors\<close>

text \<open>
  A call that throws returns \<open>Inl\<close> of the error, any other \<open>Inr\<close> of its value. Inside a
  transaction the value carries the new database, so an error carries none: what the
  transaction wrote is rolled back.
\<close>

definition bindE :: "'e + 'a \<Rightarrow> ('a \<Rightarrow> 'e + 'b) \<Rightarrow> 'e + 'b" where
  "bindE m f = (case m of Inl e \<Rightarrow> Inl e | Inr x \<Rightarrow> f x)"

definition requireE :: "bool \<Rightarrow> 'e \<Rightarrow> 'e + unit" where
  "requireE b e = (if b then Inr () else Inl e)"

lemma bindE_simps [simp]: "bindE (Inl e) f = Inl e" "bindE (Inr x) f = f x"
  by (simp_all add: bindE_def)

lemma bindE_eq_Inr: "bindE m f = Inr y \<longleftrightarrow> (\<exists>x. m = Inr x \<and> f x = Inr y)"
  by (simp add: bindE_def split: sum.splits)

lemma bindE_eq_Inl: "bindE m f = Inl e \<longleftrightarrow> m = Inl e \<or> (\<exists>x. m = Inr x \<and> f x = Inl e)"
  by (auto simp: bindE_def split: sum.splits)

lemma requireE_eq [simp]:
  "requireE b e = Inr u \<longleftrightarrow> b" "requireE b e = Inl e' \<longleftrightarrow> \<not> b \<and> e' = e"
  by (auto simp: requireE_def)

lemma requireE_True [simp]: "requireE True e = Inr ()"
  by (simp add: requireE_def)

text \<open>
  A transaction commits the database its body returns, or leaves the one it started from when
  the body throws (\<open>PgDb.transaction\<close> in platform/src/db.ts).
\<close>

definition transaction :: "('db \<Rightarrow> 'e + ('r \<times> 'db)) \<Rightarrow> 'db \<Rightarrow> ('e + 'r) \<times> 'db" where
  "transaction fn db = (case fn db of Inl e \<Rightarrow> (Inl e, db) | Inr (r, db') \<Rightarrow> (Inr r, db'))"

lemma transaction_rolls_back: "fn db = Inl e \<Longrightarrow> transaction fn db = (Inl e, db)"
  by (simp add: transaction_def)

lemma transaction_commits: "fn db = Inr (r, db') \<Longrightarrow> transaction fn db = (Inr r, db')"
  by (simp add: transaction_def)

section \<open>Tables as lists of rows\<close>

text \<open>\<open>UPDATE t SET ... WHERE p\<close>: every row that satisfies \<open>p\<close> is rewritten, in place.\<close>

definition update_rows :: "('r \<Rightarrow> bool) \<Rightarrow> ('r \<Rightarrow> 'r) \<Rightarrow> 'r list \<Rightarrow> 'r list" where
  "update_rows p f rs = map (\<lambda>r. if p r then f r else r) rs"

text \<open>The row of a primary key.\<close>

definition row_of :: "('r \<Rightarrow> 'k) \<Rightarrow> 'k \<Rightarrow> 'r list \<Rightarrow> 'r option" where
  "row_of key k rs = find (\<lambda>r. key r = k) rs"

lemma row_of_Some: "row_of key k rs = Some r \<Longrightarrow> r \<in> set rs \<and> key r = k"
  by (auto simp: row_of_def find_Some_iff in_set_conv_nth)

lemma row_of_None: "row_of key k rs = None \<longleftrightarrow> k \<notin> key ` set rs"
  by (auto simp: row_of_def find_None_iff)

lemma row_of_member:
  assumes "distinct (map key rs)" and "r \<in> set rs"
  shows "row_of key (key r) rs = Some r"
proof (cases "row_of key (key r) rs")
  case None
  with assms(2) show ?thesis by (simp add: row_of_None)
next
  case (Some r')
  then have "r' \<in> set rs" and "key r' = key r" by (auto dest: row_of_Some)
  with assms have "r' = r" by (auto simp: distinct_map dest: inj_onD)
  with Some show ?thesis by simp
qed

lemma row_of_iff:
  "distinct (map key rs) \<Longrightarrow> row_of key k rs = Some r \<longleftrightarrow> r \<in> set rs \<and> key r = k"
  by (auto dest: row_of_Some intro: row_of_member)

lemma row_of_append [table_simps]:
  "row_of key k (rs @ [r]) =
     (case row_of key k rs of Some x \<Rightarrow> Some x | None \<Rightarrow> if key r = k then Some r else None)"
  by (induction rs) (auto simp: row_of_def)

lemma row_of_update_rows [table_simps]:
  assumes "\<And>r. key (f r) = key r"
  shows "row_of key k (update_rows p f rs) =
    (case row_of key k rs of None \<Rightarrow> None | Some r \<Rightarrow> Some (if p r then f r else r))"
  by (induction rs) (auto simp: row_of_def update_rows_def assms)

lemma update_rows_Nil [simp]: "update_rows p f [] = []"
  by (simp add: update_rows_def)

lemma update_rows_append [simp]: "update_rows p f (xs @ ys) = update_rows p f xs @ update_rows p f ys"
  by (simp add: update_rows_def)

lemma set_update_rows: "set (update_rows p f rs) = (\<lambda>r. if p r then f r else r) ` set rs"
  by (simp add: update_rows_def)

lemma map_update_rows_key [simp]:
  assumes "\<And>r. key (f r) = key r"
  shows "map key (update_rows p f rs) = map key rs"
  using assms by (simp add: update_rows_def)

lemma image_update_rows_key [simp]:
  assumes "\<And>r. key (f r) = key r"
  shows "key ` set (update_rows p f rs) = key ` set rs"
  using map_update_rows_key [of key f p rs] assms by (metis list.set_map)

lemma update_rows_none: "(\<And>r. r \<in> set rs \<Longrightarrow> \<not> p r) \<Longrightarrow> update_rows p f rs = rs"
  unfolding update_rows_def by (rule map_idI) auto

text \<open>An update by primary key changes the one row of that key.\<close>

lemma set_update_rows_key:
  assumes "distinct (map key rs)" and "r \<in> set rs"
  shows "set (update_rows (\<lambda>x. key x = key r) f rs) = insert (f r) (set rs - {r})"
proof -
  let ?g = "\<lambda>x. if key x = key r then f x else x"
  have "key x \<noteq> key r" if "x \<in> set rs - {r}" for x
    using assms that by (auto simp: distinct_map dest: inj_onD)
  then have rest: "?g ` (set rs - {r}) = set rs - {r}" by simp
  have "?g ` set rs = ?g ` insert r (set rs - {r})" by (simp only: insert_Diff [OF assms(2)])
  also have "\<dots> = insert (?g r) (?g ` (set rs - {r}))" by (rule image_insert)
  also have "\<dots> = insert (f r) (set rs - {r})" by (simp only: rest refl if_True)
  finally show ?thesis unfolding set_update_rows .
qed

section \<open>Sums over rows\<close>

definition sum_where :: "('r \<Rightarrow> bool) \<Rightarrow> ('r \<Rightarrow> int) \<Rightarrow> 'r list \<Rightarrow> int" where
  "sum_where p f rs = sum_list (map f (filter p rs))"

lemma sum_where_Nil [simp, sum_simps]: "sum_where p f [] = 0"
  by (simp add: sum_where_def)

lemma sum_where_append [simp, sum_simps]:
  "sum_where p f (xs @ ys) = sum_where p f xs + sum_where p f ys"
  by (simp add: sum_where_def)

lemma sum_where_Cons [simp, sum_simps]:
  "sum_where p f (x # xs) = (if p x then f x else 0) + sum_where p f xs"
  by (simp add: sum_where_def)

lemma sum_where_cong:
  "(\<And>r. r \<in> set rs \<Longrightarrow> p r = q r) \<Longrightarrow> (\<And>r. r \<in> set rs \<Longrightarrow> q r \<Longrightarrow> f r = g r) \<Longrightarrow>
     sum_where p f rs = sum_where q g rs"
  by (induction rs) auto

lemma sum_where_none: "(\<And>r. r \<in> set rs \<Longrightarrow> \<not> p r) \<Longrightarrow> sum_where p f rs = 0"
  by (induction rs) auto

lemma sum_where_nonneg: "(\<And>r. r \<in> set rs \<Longrightarrow> p r \<Longrightarrow> 0 \<le> f r) \<Longrightarrow> 0 \<le> sum_where p f rs"
  by (induction rs) auto

lemma sum_where_split:
  "sum_where p f rs = sum_where (\<lambda>r. p r \<and> q r) f rs + sum_where (\<lambda>r. p r \<and> \<not> q r) f rs"
  by (induction rs) auto

lemma sum_where_filter: "sum_where p f (filter q rs) = sum_where (\<lambda>r. q r \<and> p r) f rs"
  by (induction rs) auto

text \<open>One of several non-negative terms is at most their sum.\<close>

lemma sum_where_member_le:
  assumes "\<And>r. r \<in> set rs \<Longrightarrow> p r \<Longrightarrow> 0 \<le> f r" and "x \<in> set rs" and "p x"
  shows "f x \<le> sum_where p f rs"
  using assms
proof (induction rs)
  case Nil
  then show ?case by simp
next
  case (Cons a rs)
  have rest: "0 \<le> sum_where p f rs" by (rule sum_where_nonneg) (use Cons.prems in auto)
  show ?case
  proof (cases "x = a")
    case True
    with Cons.prems rest show ?thesis by simp
  next
    case False
    with Cons have "f x \<le> sum_where p f rs" by auto
    with Cons.prems(1) [of a] show ?thesis by auto
  qed
qed

text \<open>A keyed update moves a sum over all rows by the change of its one row.\<close>

lemma sum_list_update_key:
  assumes "distinct (map key rs)" and "r \<in> set rs"
  shows "sum_list (map g (update_rows (\<lambda>x. key x = key r) f rs)) =
         sum_list (map g rs) + (g (f r) - g r :: int)"
  using assms
proof (induction rs)
  case Nil
  then show ?case by simp
next
  case (Cons a rs)
  show ?case
  proof (cases "a = r")
    case True
    with Cons.prems have "\<And>x. x \<in> set rs \<Longrightarrow> key x \<noteq> key r" by (metis distinct.simps(2)
        image_eqI list.set_map list.simps(9))
    then have "update_rows (\<lambda>x. key x = key r) f rs = rs" by (rule update_rows_none)
    with True show ?thesis by (simp add: update_rows_def)
  next
    case False
    with Cons.prems have "r \<in> set rs" "key a \<noteq> key r" "distinct (map key rs)" by auto
    with Cons.IH show ?thesis by (simp add: update_rows_def)
  qed
qed

section \<open>Reachable states\<close>

inductive reachable :: "('s \<Rightarrow> bool) \<Rightarrow> ('s \<Rightarrow> 's \<Rightarrow> bool) \<Rightarrow> 's \<Rightarrow> bool"
  for initial :: "'s \<Rightarrow> bool" and step :: "'s \<Rightarrow> 's \<Rightarrow> bool"
where
  reachable_init: "initial s \<Longrightarrow> reachable initial step s"
| reachable_step: "reachable initial step s \<Longrightarrow> step s t \<Longrightarrow> reachable initial step t"

text \<open>
  The contract of an inductive invariant: it holds in the states a component starts in, and
  every step keeps it. What a client gets is that it holds in every reachable state.
\<close>

locale inductive_invariant =
  fixes initial :: "'s \<Rightarrow> bool" and step :: "'s \<Rightarrow> 's \<Rightarrow> bool" and invariant :: "'s \<Rightarrow> bool"
  assumes starts: "initial s \<Longrightarrow> invariant s"
    and keeps: "invariant s \<Longrightarrow> step s t \<Longrightarrow> invariant t"
begin

lemma holds: "reachable initial step s \<Longrightarrow> invariant s"
  by (induction rule: reachable.induct) (auto intro: starts keeps)

end

end
