(* ===== verification/Event_Catalogue.thy ===== *)
theory Event_Catalogue
  imports Foc_Prelude
begin

text \<open>
  The messages the services exchange (platform/src/events/catalogue.ts, envelope.ts): event
  types and their routing keys, payloads and the conditions their schemas check, the envelope
  and its parser, and the errors the services throw.

  A payload is a value of one datatype with a constructor per schema; \<open>Other_json\<close> stands for
  every JSON value no schema of the catalogue accepts. What the types of a constructor already
  give (a field is present and has its JSON type) is not checked again; the conditions beyond
  the types are.
\<close>

section \<open>Event types\<close>

datatype event_type =
    USER_ACTIVATED | USER_SUSPENDED | USER_REACTIVATED | USER_ROLE_CHANGED
  | CREDIT_RESERVATION_REQUESTED | CREDITS_RESERVED | CREDIT_RESERVATION_REJECTED
  | ORDER_COMPLETION_REQUESTED | CREDITS_TRANSFERRED
  | CREDIT_RELEASE_REQUESTED | CREDITS_RELEASED
  | ORDER_STATUS_CHANGED
  | Uncatalogued string

text \<open>The routing key of an event type.\<close>

fun EVENTS :: "event_type \<Rightarrow> string" where
  "EVENTS USER_ACTIVATED = ''user.activated''"
| "EVENTS USER_SUSPENDED = ''user.suspended''"
| "EVENTS USER_REACTIVATED = ''user.reactivated''"
| "EVENTS USER_ROLE_CHANGED = ''user.role-changed''"
| "EVENTS CREDIT_RESERVATION_REQUESTED = ''order.reservation-requested''"
| "EVENTS CREDITS_RESERVED = ''credit.reserved''"
| "EVENTS CREDIT_RESERVATION_REJECTED = ''credit.reservation-rejected''"
| "EVENTS ORDER_COMPLETION_REQUESTED = ''order.completion-requested''"
| "EVENTS CREDITS_TRANSFERRED = ''credit.transferred''"
| "EVENTS CREDIT_RELEASE_REQUESTED = ''order.release-requested''"
| "EVENTS CREDITS_RELEASED = ''credit.released''"
| "EVENTS ORDER_STATUS_CHANGED = ''order.status-changed''"
| "EVENTS (Uncatalogued s) = s"

definition REQUIRES_CONSUMER :: "event_type set" where
  "REQUIRES_CONSUMER =
     {USER_ACTIVATED, CREDIT_RESERVATION_REQUESTED, CREDITS_RESERVED, CREDIT_RESERVATION_REJECTED,
      ORDER_COMPLETION_REQUESTED, CREDITS_TRANSFERRED, CREDIT_RELEASE_REQUESTED, CREDITS_RELEASED}"

section \<open>Payloads\<close>

datatype order_status =
    PENDING_CREDIT | OPEN | ACCEPTED | PICKED_UP | DELIVERED | DISPUTED
  | COMPLETION_PENDING_CREDIT | RELEASE_PENDING_CREDIT
  | REJECTED | COMPLETED | CANCELLED | EXPIRED

datatype user_status = User_ACTIVE | User_SUSPENDED

datatype user_role = STUDENT | ADMIN

record resulting_balance =
  rb_available :: int
  rb_reserved :: int
  rb_total :: int

text \<open>Why a reservation was refused; only a shortage of credits carries what was available.\<close>

datatype reservation_refusal = INSUFFICIENT_CREDITS int | AMOUNT_OUT_OF_RANGE | CONFLICTING_REQUEST

datatype payload =
    UserActivatedPayload (p_userId: ident) (p_activatedAt: time)
  | UserStatusChangedPayload (p_userId: ident) user_status "ident option" time
  | UserRoleChangedPayload (p_userId: ident) "user_role list" "ident option" time
  | CreditReservationRequestedPayload (p_orderId: ident) (p_requesterId: ident) (p_amount: int)
  | CreditsReservedPayload (p_orderId: ident) (p_requesterId: ident) (p_amount: int)
  | CreditReservationRejectedPayload (p_orderId: ident) (p_requesterId: ident) (p_amount: int)
      (p_refusal: reservation_refusal)
  | OrderCompletionRequestedPayload (p_orderId: ident) (p_requesterId: ident) (p_amount: int)
      (p_courierId: ident)
  | CreditsTransferredPayload (p_orderId: ident) (p_requesterId: ident) (p_amount: int)
      (p_courierId: ident) (p_transactionId: ident) (p_requesterBalance: resulting_balance)
      (p_courierBalance: resulting_balance)
  | CreditReleaseRequestedPayload (p_orderId: ident) (p_requesterId: ident) (p_amount: int)
  | CreditsReleasedPayload (p_orderId: ident) (p_requesterId: ident) (p_amount: int)
      (p_transactionId: ident) (p_requesterBalance: resulting_balance)
  | OrderStatusChangedPayload (p_orderId: ident) (p_previousStatus: "order_status option")
      (p_newStatus: order_status) (p_occurredAt: time) (p_orderVersion: "int option")
  | Other_json string

text \<open>
  \<open>z.number().int()\<close> admits the safe integers; \<open>z.string().min(1)\<close> the non-empty strings. That
  identifiers declared \<open>z.uuid()\<close> have the UUID form is a matter of the \<open>uuid\<close> columns and
  \<open>randomUUID()\<close> they come from and is not modelled.
\<close>

definition safe_int :: "int \<Rightarrow> bool" where
  "safe_int n \<longleftrightarrow> \<bar>n\<bar> \<le> 9007199254740991"

definition positive_int :: "int \<Rightarrow> bool" where
  "positive_int n \<longleftrightarrow> safe_int n \<and> 0 < n"

definition nonnegative_int :: "int \<Rightarrow> bool" where
  "nonnegative_int n \<longleftrightarrow> safe_int n \<and> 0 \<le> n"

text \<open>The fields of a reservation, and of a terminal movement: errand, requester, amount.\<close>

definition reservation :: "ident \<Rightarrow> ident \<Rightarrow> int \<Rightarrow> bool" where
  "reservation orderId requesterId amount \<longleftrightarrow>
     orderId \<noteq> [] \<and> requesterId \<noteq> [] \<and> positive_int amount"

definition terminalMovement :: "ident \<Rightarrow> ident \<Rightarrow> int \<Rightarrow> bool" where
  "terminalMovement orderId requesterId amount \<longleftrightarrow>
     orderId \<noteq> [] \<and> requesterId \<noteq> [] \<and> positive_int amount"

definition resultingBalance :: "resulting_balance \<Rightarrow> bool" where
  "resultingBalance b \<longleftrightarrow>
     nonnegative_int (rb_available b) \<and> nonnegative_int (rb_reserved b) \<and>
     nonnegative_int (rb_total b) \<and> rb_total b = rb_available b + rb_reserved b"

text \<open>
  The schema of each event type, as the test its \<open>safeParse\<close> makes; a type the catalogue does
  not name has none.
\<close>

fun PAYLOAD_SCHEMAS :: "event_type \<Rightarrow> (payload \<Rightarrow> bool) option" where
  "PAYLOAD_SCHEMAS USER_ACTIVATED =
     Some (\<lambda>p. case p of UserActivatedPayload u _ \<Rightarrow> u \<noteq> [] | _ \<Rightarrow> False)"
| "PAYLOAD_SCHEMAS USER_SUSPENDED =
     Some (\<lambda>p. case p of UserStatusChangedPayload u _ _ _ \<Rightarrow> u \<noteq> [] | _ \<Rightarrow> False)"
| "PAYLOAD_SCHEMAS USER_REACTIVATED =
     Some (\<lambda>p. case p of UserStatusChangedPayload u _ _ _ \<Rightarrow> u \<noteq> [] | _ \<Rightarrow> False)"
| "PAYLOAD_SCHEMAS USER_ROLE_CHANGED =
     Some (\<lambda>p. case p of UserRoleChangedPayload u _ _ _ \<Rightarrow> u \<noteq> [] | _ \<Rightarrow> False)"
| "PAYLOAD_SCHEMAS CREDIT_RESERVATION_REQUESTED =
     Some (\<lambda>p. case p of CreditReservationRequestedPayload o_id r a \<Rightarrow> reservation o_id r a
                       | _ \<Rightarrow> False)"
| "PAYLOAD_SCHEMAS CREDITS_RESERVED =
     Some (\<lambda>p. case p of CreditsReservedPayload o_id r a \<Rightarrow> reservation o_id r a | _ \<Rightarrow> False)"
| "PAYLOAD_SCHEMAS CREDIT_RESERVATION_REJECTED =
     Some (\<lambda>p. case p of
         CreditReservationRejectedPayload o_id r a refusal \<Rightarrow>
           reservation o_id r a \<and>
           (case refusal of INSUFFICIENT_CREDITS available \<Rightarrow> nonnegative_int available
                          | _ \<Rightarrow> True)
       | _ \<Rightarrow> False)"
| "PAYLOAD_SCHEMAS ORDER_COMPLETION_REQUESTED =
     Some (\<lambda>p. case p of OrderCompletionRequestedPayload o_id r a c \<Rightarrow>
                           terminalMovement o_id r a \<and> c \<noteq> []
                       | _ \<Rightarrow> False)"
| "PAYLOAD_SCHEMAS CREDITS_TRANSFERRED =
     Some (\<lambda>p. case p of CreditsTransferredPayload o_id r a c _ rb cb \<Rightarrow>
                           terminalMovement o_id r a \<and> c \<noteq> [] \<and>
                           resultingBalance rb \<and> resultingBalance cb
                       | _ \<Rightarrow> False)"
| "PAYLOAD_SCHEMAS CREDIT_RELEASE_REQUESTED =
     Some (\<lambda>p. case p of CreditReleaseRequestedPayload o_id r a \<Rightarrow> terminalMovement o_id r a
                       | _ \<Rightarrow> False)"
| "PAYLOAD_SCHEMAS CREDITS_RELEASED =
     Some (\<lambda>p. case p of CreditsReleasedPayload o_id r a _ rb \<Rightarrow>
                           terminalMovement o_id r a \<and> resultingBalance rb
                       | _ \<Rightarrow> False)"
| "PAYLOAD_SCHEMAS ORDER_STATUS_CHANGED =
     Some (\<lambda>p. case p of OrderStatusChangedPayload _ _ _ _ version \<Rightarrow>
                           (case version of None \<Rightarrow> True | Some v \<Rightarrow> positive_int v)
                       | _ \<Rightarrow> False)"
| "PAYLOAD_SCHEMAS (Uncatalogued _) = None"

section \<open>Errors\<close>

text \<open>
  What a call can throw. \<open>DbViolation\<close> names the constraint, range or trigger of the database
  that refused a statement; \<open>PlainError\<close> is a bare \<open>Error\<close> with its text. The human-readable
  message of the other errors is left out.
\<close>

datatype api_details =
    No_details
  | Order_details order_status int
  | Field_details "(string \<times> string) list"

datatype service_error =
    ApiException nat string api_details
  | EventValidationError
  | UnroutableEventError event_type
  | StaleEventError
  | WalletNotReadyError ident
  | ReservationNotReadyError ident
  | UnparseableMessageError string
  | UntrustedSenderError "ident option"
  | UnsupportedVersionError int
  | IdempotencyKeyReusedError
  | NotDue
  | UserDirectoryUnavailableError
  | CreditUnavailableError
  | DbViolation string
  | PlainError string

text \<open>The subclasses of \<open>PredecessorMissingError\<close> and of \<open>UnparseableMessageError\<close>.\<close>

fun is_PredecessorMissing :: "service_error \<Rightarrow> bool" where
  "is_PredecessorMissing (WalletNotReadyError _) = True"
| "is_PredecessorMissing (ReservationNotReadyError _) = True"
| "is_PredecessorMissing _ = False"

fun is_Unparseable :: "service_error \<Rightarrow> bool" where
  "is_Unparseable (UnparseableMessageError _) = True"
| "is_Unparseable (UntrustedSenderError _) = True"
| "is_Unparseable (UnsupportedVersionError _) = True"
| "is_Unparseable _ = False"

section \<open>The envelope\<close>

record envelope =
  eventId :: ident
  eventType :: event_type
  schemaVersion :: int
  aggregateId :: ident
  occurredAt :: time
  producer :: ident
  correlationId :: ident
  causationId :: ident
  ev_payload :: payload

record new_event_input =
  ni_eventType :: event_type
  ni_schemaVersion :: int
  ni_aggregateId :: ident
  ni_producer :: ident
  ni_correlationId :: ident
  ni_causationId :: "ident option"
  ni_eventId :: "ident option"
  ni_occurredAt :: "time option"
  ni_payload :: payload

text \<open>\<open>u\<close> is what \<open>randomUUID()\<close> would return, \<open>now\<close> the current time.\<close>

definition createEnvelope :: "ident \<Rightarrow> time \<Rightarrow> new_event_input \<Rightarrow> envelope" where
  "createEnvelope u now input =
     \<lparr> eventId = (case ni_eventId input of Some i \<Rightarrow> i | None \<Rightarrow> u),
       eventType = ni_eventType input,
       schemaVersion = ni_schemaVersion input,
       aggregateId = ni_aggregateId input,
       occurredAt = (case ni_occurredAt input of Some t \<Rightarrow> t | None \<Rightarrow> iso now),
       producer = ni_producer input,
       correlationId = ni_correlationId input,
       causationId = (case ni_causationId input of Some c \<Rightarrow> c | None \<Rightarrow> ni_correlationId input),
       ev_payload = ni_payload input \<rparr>"

text \<open>
  A message body: bytes that are not JSON, or a JSON value with the fields of an envelope. A
  field that is absent or not of its JSON type is \<open>None\<close>; the two string formats zod checks (a
  UUID, an ISO date-time) are parameters of the parser, the second giving the instant it denotes.
\<close>

record raw_envelope =
  raw_eventId :: "string option"
  raw_eventType :: "event_type option"
  raw_schemaVersion :: "int option"
  raw_aggregateId :: "string option"
  raw_occurredAt :: "string option"
  raw_producer :: "string option"
  raw_correlationId :: "string option"
  raw_causationId :: "string option"
  raw_payload :: payload

datatype message_body = Not_json | Json raw_envelope

definition min1 :: "string option \<Rightarrow> string option" where
  "min1 s = (case s of Some x \<Rightarrow> if x = [] then None else Some x | None \<Rightarrow> None)"

definition min1max128 :: "string option \<Rightarrow> string option" where
  "min1max128 s = (case min1 s of Some x \<Rightarrow> if 128 < length x then None else Some x | None \<Rightarrow> None)"

definition envelopeSchema ::
  "(string \<Rightarrow> bool) \<Rightarrow> (string \<Rightarrow> time option) \<Rightarrow> raw_envelope \<Rightarrow> envelope option" where
  "envelopeSchema uuid datetime r =
     (case (raw_eventId r, raw_eventType r, raw_schemaVersion r, min1 (raw_aggregateId r),
            Option.bind (raw_occurredAt r) datetime, min1 (raw_producer r),
            min1max128 (raw_correlationId r), min1max128 (raw_causationId r)) of
        (Some i, Some ty, Some v, Some a, Some t, Some p, Some co, Some ca) \<Rightarrow>
          if uuid i \<and> EVENTS ty \<noteq> [] \<and> positive_int v
          then Some \<lparr> eventId = i, eventType = ty, schemaVersion = v, aggregateId = a,
                      occurredAt = t, producer = p, correlationId = co, causationId = ca,
                      ev_payload = raw_payload r \<rparr>
          else None
      | _ \<Rightarrow> None)"

definition DEFAULT_SUPPORTED_VERSIONS :: "int list" where
  "DEFAULT_SUPPORTED_VERSIONS = [1]"

definition parseEnvelope ::
  "(string \<Rightarrow> bool) \<Rightarrow> (string \<Rightarrow> time option) \<Rightarrow> message_body \<Rightarrow> (payload \<Rightarrow> bool) \<Rightarrow> int list
     \<Rightarrow> service_error + envelope" where
  "parseEnvelope uuid datetime raw payloadSchema supportedVersions =
     (case raw of
        Not_json \<Rightarrow> Inl (UnparseableMessageError ''body is not valid JSON'')
      | Json json \<Rightarrow>
          (case envelopeSchema uuid datetime json of
             None \<Rightarrow> Inl (UnparseableMessageError ''envelope invalid'')
           | Some outer \<Rightarrow>
               if schemaVersion outer \<notin> set supportedVersions
               then Inl (UnsupportedVersionError (schemaVersion outer))
               else if \<not> payloadSchema (ev_payload outer)
               then Inl (UnparseableMessageError ''payload invalid'')
               else Inr outer))"

text \<open>What a parsed message satisfies: the version was supported and the payload fits.\<close>

lemma parseEnvelope_Inr:
  "parseEnvelope uuid datetime raw schema versions = Inr env \<Longrightarrow>
     schemaVersion env \<in> set versions \<and> schema (ev_payload env)"
  by (auto simp: parseEnvelope_def split: message_body.splits option.splits if_splits)

lemma parseEnvelope_Inl:
  "parseEnvelope uuid datetime raw schema versions = Inl e \<Longrightarrow> is_Unparseable e"
  by (auto simp: parseEnvelope_def split: message_body.splits option.splits if_splits)

end
