(* ===== verification/Event_Tables.thy ===== *)
theory Event_Tables
  imports Event_Catalogue
begin

text \<open>
  The two tables every event-driven service keeps beside its own: the transactional outbox
  (platform/src/events/outbox.ts) and the inbox of processed events (inbox.ts), with the writes
  and the pruning (retention.ts) they take part in.

  A service's database extends \<open>service_db\<close> with its own tables, so the operations here are
  polymorphic in the rest of the database.
\<close>

section \<open>Database constraints\<close>

text \<open>The first constraint of a list that does not hold is the one reported.\<close>

fun constraints :: "(string \<times> bool) list \<Rightarrow> service_error + unit" where
  "constraints [] = Inr ()"
| "constraints ((name, ok) # cs) = (if ok then constraints cs else Inl (DbViolation name))"

lemma constraints_Inr: "constraints cs = Inr v \<longleftrightarrow> (\<forall>(name, ok) \<in> set cs. ok)"
  by (induction cs) (auto split: if_splits)

lemma constraints_Inl: "constraints cs = Inl e \<Longrightarrow> \<exists>name. e = DbViolation name"
  by (induction cs) (auto split: if_splits)

declare constraints.simps(2) [simp del]

text \<open>The range of an \<open>integer\<close> column.\<close>

definition int4 :: "int \<Rightarrow> bool" where
  "int4 n \<longleftrightarrow> - 2147483648 \<le> n \<and> n \<le> 2147483647"

definition opt_all :: "('a \<Rightarrow> bool) \<Rightarrow> 'a option \<Rightarrow> bool" where
  "opt_all p x = (case x of None \<Rightarrow> True | Some y \<Rightarrow> p y)"

lemma opt_all_simps [simp]: "opt_all p None" "opt_all p (Some x) = p x"
  by (simp_all add: opt_all_def)

section \<open>Tables\<close>

record outbox_row =
  ob_id :: ident
  ob_seq :: nat
  ob_eventType :: event_type
  ob_schemaVersion :: int
  ob_aggregateId :: ident
  ob_payload :: payload
  ob_correlationId :: ident
  ob_causationId :: "ident option"
  ob_occurredAt :: time
  ob_publishedAt :: "time option"
  ob_attempts :: nat
  ob_lastError :: "service_error option"
  ob_nextAttemptAt :: time

record inbox_row =
  in_consumer :: string
  in_eventId :: ident
  in_eventType :: event_type
  in_processedAt :: time

text \<open>\<open>outbox_seq\<close> is the next value of the identity column \<open>seq\<close>.\<close>

record service_db =
  outbox_events :: "outbox_row list"
  outbox_seq :: nat
  processed_events :: "inbox_row list"

section \<open>Writing to the outbox\<close>

record new_outbox_event =
  ne_id :: "ident option"
  ne_eventType :: event_type
  ne_aggregateId :: ident
  ne_payload :: payload
  ne_correlationId :: ident
  ne_causationId :: "ident option"
  ne_schemaVersion :: "int option"

text \<open>
  The row an event is written as: defaults filled in and the payload checked against the
  catalogue. The columns the database fills in are those of \<open>insertOutboxEvent\<close>.
\<close>

record outbox_row_values =
  rv_id :: ident
  rv_eventType :: event_type
  rv_schemaVersion :: int
  rv_aggregateId :: ident
  rv_payload :: payload
  rv_correlationId :: ident
  rv_causationId :: "ident option"

definition toOutboxRow :: "ident \<Rightarrow> new_outbox_event \<Rightarrow> service_error + outbox_row_values" where
  "toOutboxRow u event =
     (case PAYLOAD_SCHEMAS (ne_eventType event) of
        None \<Rightarrow> Inl (PlainError ''no payload schema'')
      | Some schema \<Rightarrow>
          if schema (ne_payload event)
          then Inr \<lparr> rv_id = (case ne_id event of Some i \<Rightarrow> i | None \<Rightarrow> u),
                     rv_eventType = ne_eventType event,
                     rv_schemaVersion = (case ne_schemaVersion event of Some v \<Rightarrow> v | None \<Rightarrow> 1),
                     rv_aggregateId = ne_aggregateId event,
                     rv_payload = ne_payload event,
                     rv_correlationId = ne_correlationId event,
                     rv_causationId = ne_causationId event \<rparr>
          else Inl (PlainError ''ZodError''))"

definition outbox_row_of :: "time \<Rightarrow> nat \<Rightarrow> outbox_row_values \<Rightarrow> outbox_row" where
  "outbox_row_of now sq v =
     \<lparr> ob_id = rv_id v, ob_seq = sq, ob_eventType = rv_eventType v,
       ob_schemaVersion = rv_schemaVersion v, ob_aggregateId = rv_aggregateId v,
       ob_payload = rv_payload v, ob_correlationId = rv_correlationId v,
       ob_causationId = rv_causationId v, ob_occurredAt = now, ob_publishedAt = None,
       ob_attempts = 0, ob_lastError = None, ob_nextAttemptAt = now \<rparr>"

definition insertOutboxEvent ::
  "ident \<Rightarrow> time \<Rightarrow> new_outbox_event \<Rightarrow> 'a service_db_scheme
     \<Rightarrow> service_error + (ident \<times> 'a service_db_scheme)" where
  "insertOutboxEvent u now event db =
     bindE (toOutboxRow u event) (\<lambda>v.
       if rv_id v \<in> ob_id ` set (outbox_events db) then Inl (DbViolation ''outbox_events_pkey'')
       else Inr (rv_id v,
         db\<lparr> outbox_events := outbox_events db @ [outbox_row_of now (outbox_seq db) v],
              outbox_seq := Suc (outbox_seq db) \<rparr>))"

text \<open>
  An insert that succeeds appends one row whose payload fits the schema of its type, and leaves
  every other table alone.
\<close>

text \<open>What a row says, whoever publishes it and whenever: its type, aggregate and payload.\<close>

type_synonym event = "event_type \<times> ident \<times> payload"

definition row_event :: "outbox_row \<Rightarrow> event" where
  "row_event r = (ob_eventType r, ob_aggregateId r, ob_payload r)"

definition envelope_event :: "envelope \<Rightarrow> event" where
  "envelope_event env = (eventType env, aggregateId env, ev_payload env)"

lemma toOutboxRow_Inr:
  assumes "toOutboxRow u event = Inr v"
  obtains schema where "PAYLOAD_SCHEMAS (ne_eventType event) = Some schema"
    and "schema (ne_payload event)"
    and "rv_eventType v = ne_eventType event" and "rv_payload v = ne_payload event"
    and "rv_aggregateId v = ne_aggregateId event"
  using assms by (auto simp: toOutboxRow_def split: option.splits if_splits)

lemma insertOutboxEvent_Inr:
  assumes "insertOutboxEvent u now event db = Inr (i, db')"
  obtains v where "toOutboxRow u event = Inr v" and "i = rv_id v"
    and "i \<notin> ob_id ` set (outbox_events db)"
    and "db' = db\<lparr> outbox_events := outbox_events db @ [outbox_row_of now (outbox_seq db) v],
                    outbox_seq := Suc (outbox_seq db) \<rparr>"
  using assms by (auto simp: insertOutboxEvent_def bindE_eq_Inr split: if_splits)

lemma insertOutboxEvent_row:
  assumes "insertOutboxEvent u now event db = Inr (i, db')"
  obtains r schema where "outbox_events db' = outbox_events db @ [r]"
    and "ob_eventType r = ne_eventType event" and "ob_payload r = ne_payload event"
    and "ob_aggregateId r = ne_aggregateId event" and "ob_id r = i" and "ob_publishedAt r = None"
    and "ob_seq r = outbox_seq db"
    and "PAYLOAD_SCHEMAS (ne_eventType event) = Some schema" and "schema (ne_payload event)"
proof -
  from assms obtain v where v: "toOutboxRow u event = Inr v" "i = rv_id v"
    "db' = db\<lparr> outbox_events := outbox_events db @ [outbox_row_of now (outbox_seq db) v],
                outbox_seq := Suc (outbox_seq db) \<rparr>"
    by (rule insertOutboxEvent_Inr)
  from v(1) obtain schema where "PAYLOAD_SCHEMAS (ne_eventType event) = Some schema"
    "schema (ne_payload event)" "rv_eventType v = ne_eventType event"
    "rv_payload v = ne_payload event" "rv_aggregateId v = ne_aggregateId event"
    by (rule toOutboxRow_Inr)
  with v show thesis by (intro that [of "outbox_row_of now (outbox_seq db) v" schema])
      (simp_all add: outbox_row_of_def)
qed

lemma insertOutboxEvent_frame:
  assumes "insertOutboxEvent u now event db = Inr (i, db')"
  shows "processed_events db' = processed_events db"
    and "service_db.more db' = service_db.more db"
    and "outbox_seq db' = Suc (outbox_seq db)"
  using assms by (auto elim: insertOutboxEvent_Inr)

section \<open>The inbox\<close>

text \<open>
  The statement both wrappers run first: record the event id for this consumer, or find it
  recorded already (\<open>ON CONFLICT DO NOTHING\<close>). The flag is whether a row was inserted.
\<close>

definition claim_event ::
  "time \<Rightarrow> string \<Rightarrow> ident \<Rightarrow> event_type \<Rightarrow> 'a service_db_scheme \<Rightarrow> bool \<times> 'a service_db_scheme" where
  "claim_event now consumer i ty db =
     (if (consumer, i) \<in> (\<lambda>r. (in_consumer r, in_eventId r)) ` set (processed_events db)
      then (False, db)
      else (True, db\<lparr> processed_events := processed_events db @
              [\<lparr> in_consumer = consumer, in_eventId = i, in_eventType = ty, in_processedAt = now \<rparr>] \<rparr>))"

definition processOnce ::
  "time \<Rightarrow> string \<Rightarrow> envelope
     \<Rightarrow> ('a service_db_scheme \<Rightarrow> service_error + (unit \<times> 'a service_db_scheme))
     \<Rightarrow> 'a service_db_scheme \<Rightarrow> (service_error + bool) \<times> 'a service_db_scheme" where
  "processOnce now consumer event eff =
     transaction (\<lambda>db. case claim_event now consumer (eventId event) (eventType event) db of
         (False, tx) \<Rightarrow> Inr (False, tx)
       | (True, tx) \<Rightarrow> bindE (eff tx) (\<lambda>(_, tx'). Inr (True, tx')))"

text \<open>
  The consumer-facing wrapper: the handler runs through the inbox and a duplicate is reported
  to \<open>onDuplicate\<close>, the flag of the result.
\<close>

definition withInbox ::
  "time \<Rightarrow> string \<Rightarrow> (envelope \<Rightarrow> 'a service_db_scheme \<Rightarrow> service_error + (unit \<times> 'a service_db_scheme))
     \<Rightarrow> envelope \<Rightarrow> 'a service_db_scheme \<Rightarrow> (service_error + bool) \<times> 'a service_db_scheme" where
  "withInbox now consumer handler event db =
     (case processOnce now consumer event (handler event) db of
        (Inl e, db') \<Rightarrow> (Inl e, db')
      | (Inr applied, db') \<Rightarrow> (Inr (\<not> applied), db'))"

definition processReplayable ::
  "time \<Rightarrow> string \<Rightarrow> envelope
     \<Rightarrow> ('a service_db_scheme \<Rightarrow> bool \<Rightarrow> service_error + (unit \<times> 'a service_db_scheme))
     \<Rightarrow> 'a service_db_scheme \<Rightarrow> (service_error + bool) \<times> 'a service_db_scheme" where
  "processReplayable now consumer event eff =
     transaction (\<lambda>db. case claim_event now consumer (eventId event) (eventType event) db of
         (firstDelivery, tx) \<Rightarrow> bindE (eff tx firstDelivery) (\<lambda>(_, tx'). Inr (firstDelivery, tx')))"

definition withReplayableInbox ::
  "time \<Rightarrow> string
     \<Rightarrow> (envelope \<Rightarrow> bool \<Rightarrow> 'a service_db_scheme \<Rightarrow> service_error + (unit \<times> 'a service_db_scheme))
     \<Rightarrow> envelope \<Rightarrow> 'a service_db_scheme \<Rightarrow> (service_error + bool) \<times> 'a service_db_scheme" where
  "withReplayableInbox now consumer handler event db =
     (case processReplayable now consumer event (\<lambda>tx first. handler event first tx) db of
        (Inl e, db') \<Rightarrow> (Inl e, db')
      | (Inr firstDelivery, db') \<Rightarrow> (Inr (\<not> firstDelivery), db'))"

lemma claim_event_frame:
  assumes "claim_event now consumer i ty db = (first, tx)"
  shows "outbox_events tx = outbox_events db" and "outbox_seq tx = outbox_seq db"
    and "service_db.more tx = service_db.more db"
  using assms by (auto simp: claim_event_def split: if_splits)

lemma claim_event_recorded:
  "claim_event now consumer i ty db = (first, tx) \<Longrightarrow>
     (consumer, i) \<in> (\<lambda>r. (in_consumer r, in_eventId r)) ` set (processed_events tx)"
  by (auto simp: claim_event_def split: if_splits)

text \<open>
  A delivery through either inbox is one transaction of the handler after the claim, or changes
  nothing: every state change a message causes is a change its handler made on success.
\<close>

lemma withInbox_cases:
  assumes "withInbox now consumer handler event db = (result, db')"
  obtains (unchanged) "db' = db"
  | (applied) tx where "claim_event now consumer (eventId event) (eventType event) db = (True, tx)"
      and "handler event tx = Inr ((), db')" and "result = Inr False"
  using assms
  by (auto simp: withInbox_def processOnce_def transaction_def claim_event_def bindE_def
      split: if_splits sum.splits prod.splits)

lemma withReplayableInbox_cases:
  assumes "withReplayableInbox now consumer handler event db = (result, db')"
  obtains (unchanged) e where "db' = db" and "result = Inl e"
  | (applied) tx first
      where "claim_event now consumer (eventId event) (eventType event) db = (first, tx)"
      and "handler event first tx = Inr ((), db')" and "result = Inr (\<not> first)"
  using assms
  by (auto simp: withReplayableInbox_def processReplayable_def transaction_def bindE_def
      split: if_splits sum.splits prod.splits)

section \<open>Exactly-once application\<close>

text \<open>
  A sequence of deliveries to one consumer, each with the inputs of its own attempt; the result
  of a delivery is an error, or whether it was a duplicate.
\<close>

fun run_deliveries ::
  "('x \<Rightarrow> envelope \<Rightarrow> 'db \<Rightarrow> (service_error + bool) \<times> 'db) \<Rightarrow> ('x \<times> envelope) list \<Rightarrow> 'db
     \<Rightarrow> (service_error + bool) list \<times> 'db" where
  "run_deliveries deliver [] db = ([], db)"
| "run_deliveries deliver ((x, e) # rest) db =
     (let (r, db') = deliver x e db; (rs, db'') = run_deliveries deliver rest db' in (r # rs, db''))"

text \<open>How often event \<open>i\<close> was applied: its deliveries that returned and were not duplicates.\<close>

definition times_applied :: "ident \<Rightarrow> ('x \<times> envelope) list \<Rightarrow> (service_error + bool) list \<Rightarrow> nat" where
  "times_applied i ds rs = length (filter (\<lambda>((x, e), r). eventId e = i \<and> r = Inr False) (zip ds rs))"

text \<open>
  The contract of an inbox: a processed event changes nothing and is reported as a duplicate, a
  failed delivery leaves no trace, one that returns is recorded, and records stay.
\<close>

locale exactly_once =
  fixes deliver :: "'x \<Rightarrow> envelope \<Rightarrow> 'db \<Rightarrow> (service_error + bool) \<times> 'db"
    and processed :: "ident \<Rightarrow> 'db \<Rightarrow> bool"
  assumes repeated: "processed (eventId e) db \<Longrightarrow> deliver x e db = (Inr True, db)"
    and failed: "deliver x e db = (Inl err, db') \<Longrightarrow> db' = db"
    and recorded: "deliver x e db = (Inr dup, db') \<Longrightarrow> processed (eventId e) db'"
    and kept: "processed i db \<Longrightarrow> processed i (snd (deliver x e db))"
begin

lemma processed_never_applied:
  "processed i db \<Longrightarrow> times_applied i ds (fst (run_deliveries deliver ds db)) = 0"
proof (induction ds arbitrary: db)
  case Nil
  then show ?case by (simp add: times_applied_def)
next
  case (Cons d ds)
  obtain x e where d: "d = (x, e)" by (cases d)
  obtain r db' where step: "deliver x e db = (r, db')" by (cases "deliver x e db")
  have "processed i db'" using kept [OF Cons.prems, of x e] step by simp
  then have rest: "times_applied i ds (fst (run_deliveries deliver ds db')) = 0" by (rule Cons.IH)
  have "r \<noteq> Inr False" if "eventId e = i"
    using repeated [of e db x] that Cons.prems step by simp
  with rest step d show ?case
    by (auto simp: times_applied_def split: prod.splits)
qed

theorem applied_at_most_once: "times_applied i ds (fst (run_deliveries deliver ds db)) \<le> 1"
proof (induction ds arbitrary: db)
  case Nil
  then show ?case by (simp add: times_applied_def)
next
  case (Cons d ds)
  obtain x e where d: "d = (x, e)" by (cases d)
  obtain r db' where step: "deliver x e db = (r, db')" by (cases "deliver x e db")
  show ?case
  proof (cases "eventId e = i \<and> r = Inr False")
    case True
    then have "processed i db'" using recorded [of x e db False db'] step by simp
    then have "times_applied i ds (fst (run_deliveries deliver ds db')) = 0"
      by (rule processed_never_applied)
    with step d show ?thesis by (auto simp: times_applied_def split: prod.splits)
  next
    case False
    with Cons [of db'] step d show ?thesis by (auto simp: times_applied_def split: prod.splits)
  qed
qed

text \<open>Once an event is processed, its further copies can be dropped from any sequence.\<close>

lemma copies_change_nothing:
  "processed i db \<Longrightarrow>
     snd (run_deliveries deliver ds db) =
     snd (run_deliveries deliver (filter (\<lambda>(x, e). eventId e \<noteq> i) ds) db)"
proof (induction ds arbitrary: db)
  case Nil
  then show ?case by simp
next
  case (Cons d ds)
  obtain x e where d: "d = (x, e)" by (cases d)
  obtain r db' where step: "deliver x e db = (r, db')" by (cases "deliver x e db")
  have "processed i db'" using kept [OF Cons.prems, of x e] step by simp
  then have "snd (run_deliveries deliver ds db') =
      snd (run_deliveries deliver (filter (\<lambda>(x, e). eventId e \<noteq> i) ds) db')" by (rule Cons.IH)
  moreover have "db' = db" if "eventId e = i" using repeated [of e db x] that Cons.prems step by simp
  ultimately show ?case using step d by (auto split: prod.splits)
qed

end

text \<open>A consumer wrapped in the inbox meets the contract when its handler leaves the inbox alone.\<close>

definition processed_by :: "string \<Rightarrow> ident \<Rightarrow> 'a service_db_scheme \<Rightarrow> bool" where
  "processed_by consumer i db \<longleftrightarrow>
     (consumer, i) \<in> (\<lambda>r. (in_consumer r, in_eventId r)) ` set (processed_events db)"

lemma withInbox_exactly_once:
  fixes handler :: "'x \<Rightarrow> envelope \<Rightarrow> 'a service_db_scheme \<Rightarrow> service_error + (unit \<times> 'a service_db_scheme)"
  assumes "\<And>x e tx db'. handler x e tx = Inr ((), db') \<Longrightarrow> processed_events db' = processed_events tx"
  shows "exactly_once (\<lambda>x. withInbox (clock x) consumer (handler x)) (processed_by consumer)"
proof
  fix e x and db db' :: "'a service_db_scheme" and err dup i
  show "withInbox (clock x) consumer (handler x) e db = (Inr True, db)" if "processed_by consumer (eventId e) db"
    using that by (simp add: withInbox_def processOnce_def transaction_def claim_event_def processed_by_def)
  show "db' = db" if "withInbox (clock x) consumer (handler x) e db = (Inl err, db')"
    using that by (auto elim: withInbox_cases)
  have recorded: "processed_by consumer (eventId e) db'"
    if "claim_event (clock x) consumer (eventId e) (eventType e) db = (first, tx)"
      "handler x e tx = Inr ((), db')" for first tx db'
    using claim_event_recorded [OF that(1)] assms [OF that(2)] by (simp add: processed_by_def)
  show "processed_by consumer (eventId e) db'"
    if run: "withInbox (clock x) consumer (handler x) e db = (Inr dup, db')"
  proof (cases "processed_by consumer (eventId e) db")
    case True
    with run show ?thesis
      by (simp add: withInbox_def processOnce_def transaction_def claim_event_def processed_by_def)
  next
    case False
    then obtain tx where claim: "claim_event (clock x) consumer (eventId e) (eventType e) db = (True, tx)"
      by (simp add: claim_event_def processed_by_def)
    with run have "handler x e tx = Inr ((), db')"
      by (cases "handler x e tx") (auto simp: withInbox_def processOnce_def transaction_def)
    with claim show ?thesis by (rule recorded)
  qed
  show "processed_by consumer i (snd (withInbox (clock x) consumer (handler x) e db))"
    if "processed_by consumer i db"
  proof -
    obtain r db' where run: "withInbox (clock x) consumer (handler x) e db = (r, db')"
      by (cases "withInbox (clock x) consumer (handler x) e db")
    then show ?thesis
    proof (cases rule: withInbox_cases)
      case unchanged
      with run that show ?thesis by simp
    next
      case (applied tx)
      with assms [OF applied(2)] run that show ?thesis
        by (auto simp: processed_by_def claim_event_def split: if_splits)
    qed
  qed
qed

section \<open>Pruning\<close>

record event_retention =
  outboxDays :: int
  inboxDays :: int

text \<open>\<open>interval '1 day'\<close> in microseconds.\<close>

definition day :: int where
  "day = 86400000000"

definition DEFAULT_EVENT_RETENTION :: event_retention where
  "DEFAULT_EVENT_RETENTION = \<lparr> outboxDays = 30, inboxDays = 30 \<rparr>"

text \<open>
  One \<open>DELETE\<close> of at most \<open>batch\<close> of the rows that satisfy \<open>p\<close>, by the one instance that prunes
  (so \<open>SKIP LOCKED\<close> passes over none). Which rows a \<open>LIMIT\<close> without an \<open>ORDER BY\<close> picks is up to
  the database; the model takes the first of the table.
\<close>

fun delete_batch :: "nat \<Rightarrow> ('r \<Rightarrow> bool) \<Rightarrow> 'r list \<Rightarrow> nat \<times> 'r list" where
  "delete_batch batch p [] = (0, [])"
| "delete_batch 0 p (r # rs) = (0, r # rs)"
| "delete_batch (Suc b) p (r # rs) =
     (if p r then (case delete_batch b p rs of (n, rs') \<Rightarrow> (Suc n, rs'))
      else (case delete_batch (Suc b) p rs of (n, rs') \<Rightarrow> (n, r # rs')))"

lemma delete_batch_length: "delete_batch b p rs = (n, rs') \<Longrightarrow> length rs = n + length rs'"
  by (induction b p rs arbitrary: n rs' rule: delete_batch.induct) (auto split: if_splits prod.splits)

text \<open>
  \<open>deleteInBatches\<close> repeats the statement until one deletes nothing. \<open>shouldStop k\<close> is what the
  caller's callback answers before the \<open>k\<close>-th batch; each batch sees the rows as they are, so
  with a clock that stands still the loop ends because a batch that deletes shortens the table.
\<close>

function deleteInBatches ::
  "(nat \<Rightarrow> bool) \<Rightarrow> nat \<Rightarrow> nat \<Rightarrow> ('r \<Rightarrow> bool) \<Rightarrow> 'r list \<Rightarrow> nat \<times> 'r list" where
  "deleteInBatches shouldStop k batch p rs =
     (if shouldStop k then (0, rs)
      else let (n, rs') = delete_batch batch p rs in
        if n = 0 then (0, rs)
        else let (total, rest) = deleteInBatches shouldStop (Suc k) batch p rs' in (n + total, rest))"
  by pat_completeness auto
termination
  by (relation "measure (\<lambda>(_, _, _, _, rs). length rs)") (auto dest: delete_batch_length [OF sym])

declare deleteInBatches.simps [simp del]

text \<open>
  \<open>waiting\<close> are the event ids a dead letter not yet redriven carries. The stop callback is asked
  once more between the two tables; \<open>stop1\<close> and \<open>stop2\<close> are its answers during each.
\<close>

definition pruneEventTables ::
  "time \<Rightarrow> event_retention \<Rightarrow> nat \<Rightarrow> (nat \<Rightarrow> bool) \<Rightarrow> bool \<Rightarrow> (nat \<Rightarrow> bool) \<Rightarrow> ident set
     \<Rightarrow> 'a service_db_scheme \<Rightarrow> (nat \<times> nat) \<times> 'a service_db_scheme" where
  "pruneEventTables now retention batch stop1 stopped stop2 waiting db =
     (let (outbox, obs) = deleteInBatches stop1 0 batch
            (\<lambda>r. case ob_publishedAt r of None \<Rightarrow> False
                 | Some t \<Rightarrow> t < now - outboxDays retention * day) (outbox_events db);
          (inbox, ins) = (if stopped then (0, processed_events db)
            else deleteInBatches stop2 0 batch
              (\<lambda>r. in_processedAt r < now - inboxDays retention * day \<and> in_eventId r \<notin> waiting)
              (processed_events db))
      in ((outbox, inbox), db\<lparr> outbox_events := obs, processed_events := ins \<rparr>))"

end
