(* ===== verification/Credit_Store.thy ===== *)
theory Credit_Store
  imports Event_Tables
begin

text \<open>
  The Credit Service's tables (credit-service/src/db/schema.ts and the triggers of its
  migrations) and the statements its repository runs on them. Every constraint of the database a
  statement could run into is a branch that gives \<open>DbViolation\<close> with the constraint's name, which
  rolls the whole transaction back.
\<close>

section \<open>Tables\<close>

datatype transaction_type = ISSUE | RESERVE | RELEASE | TRANSFER

datatype account = PLATFORM_ISSUANCE | AVAILABLE | RESERVED

datatype direction = DEBIT | CREDIT

datatype operation_outcome = PENDING | SUCCEEDED | Op_REJECTED

datatype reservation_rejection =
  Rej_INSUFFICIENT_CREDITS | Rej_AMOUNT_OUT_OF_RANGE | Rej_CONFLICTING_REQUEST

datatype terminal_rejection =
  Term_CONFLICTING_REQUEST | INVALID_PARTICIPANTS | RESERVATION_NOT_ACTIVE | TERMINAL_OPERATION_CONFLICT

record wallet_row =
  w_userId :: ident
  w_available :: int
  w_reserved :: int
  w_createdAt :: time
  w_updatedAt :: time

record credit_transaction =
  t_id :: ident
  t_orderId :: "ident option"
  t_type :: transaction_type
  t_walletUserId :: "ident option"
  t_amount :: int
  t_occurredAt :: time

record ledger_entry =
  le_id :: ident
  le_transactionId :: ident
  le_entryNo :: nat
  le_walletUserId :: "ident option"
  le_account :: account
  le_direction :: direction
  le_amount :: int
  le_resultingAvailable :: "int option"
  le_resultingReserved :: "int option"
  le_occurredAt :: time

record credit_operation =
  op_orderId :: ident
  op_type :: transaction_type
  op_requesterId :: ident
  op_courierId :: "ident option"
  op_amount :: int
  op_outcome :: operation_outcome
  op_rejectionReason :: "reservation_rejection option"
  op_availableAtDecision :: "int option"
  op_transactionId :: "ident option"
  op_resultPayload :: "payload option"
  op_createdAt :: time

text \<open>The \<open>details\<close> an alert stores: what was recorded before, and what was received.\<close>

datatype alert_details =
    Reservation_outcome operation_outcome
  | Recorded_reservation ident int
  | Same_participants
  | Recorded_operation transaction_type ident "ident option" int

record credit_alert =
  al_id :: ident
  al_orderId :: ident
  al_operationType :: transaction_type
  al_code :: terminal_rejection
  al_details :: alert_details
  al_receivedRequester :: ident
  al_receivedCourier :: "ident option"
  al_receivedAmount :: int
  al_correlationId :: ident
  al_occurredAt :: time

datatype read_resource = WALLET | LEDGER

record admin_wallet_read =
  aw_id :: ident
  aw_adminUserId :: ident
  aw_targetUserId :: ident
  aw_resource :: read_resource
  aw_correlationId :: ident
  aw_occurredAt :: time

record credit_db = service_db +
  wallets :: "wallet_row list"
  credit_transactions :: "credit_transaction list"
  ledger_entries :: "ledger_entry list"
  credit_operations :: "credit_operation list"
  credit_audit_alerts :: "credit_alert list"
  admin_wallet_reads :: "admin_wallet_read list"

section \<open>Constraints\<close>

text \<open>Foreign keys into the wallets and the transactions.\<close>

definition wallet_fk :: "credit_db \<Rightarrow> ident option \<Rightarrow> bool" where
  "wallet_fk db u = opt_all (\<lambda>i. i \<in> w_userId ` set (wallets db)) u"

definition transaction_fk :: "credit_db \<Rightarrow> ident option \<Rightarrow> bool" where
  "transaction_fk db t = opt_all (\<lambda>i. i \<in> t_id ` set (credit_transactions db)) t"

definition wallet_checks :: "wallet_row \<Rightarrow> (string \<times> bool) list" where
  "wallet_checks w =
     [(''integer out of range'', int4 (w_available w) \<and> int4 (w_reserved w)),
      (''wallets_available_nonnegative'', 0 \<le> w_available w),
      (''wallets_reserved_nonnegative'', 0 \<le> w_reserved w)]"

definition terminal_type :: "transaction_type \<Rightarrow> bool" where
  "terminal_type ty \<longleftrightarrow> ty = RELEASE \<or> ty = TRANSFER"

definition transaction_checks :: "credit_db \<Rightarrow> credit_transaction \<Rightarrow> (string \<times> bool) list" where
  "transaction_checks db t =
     [(''integer out of range'', int4 (t_amount t)),
      (''credit_transactions_amount_positive'', 0 < t_amount t),
      (''credit_transactions_pkey'', t_id t \<notin> t_id ` set (credit_transactions db)),
      (''credit_transactions_order_type_key'',
        \<not> (\<exists>x \<in> set (credit_transactions db).
             t_orderId x \<noteq> None \<and> t_orderId x = t_orderId t \<and> t_type x = t_type t)),
      (''credit_transactions_issue_wallet_key'',
        \<not> (\<exists>x \<in> set (credit_transactions db).
             t_type t = ISSUE \<and> t_type x = ISSUE \<and>
             t_walletUserId x \<noteq> None \<and> t_walletUserId x = t_walletUserId t)),
      (''credit_transactions_terminal_order_key'',
        \<not> (\<exists>x \<in> set (credit_transactions db).
             t_orderId x \<noteq> None \<and> t_orderId x = t_orderId t \<and>
             terminal_type (t_type x) \<and> terminal_type (t_type t))),
      (''credit_transactions_wallet_user_id_fk'', wallet_fk db (t_walletUserId t))]"

definition ledger_checks :: "credit_db \<Rightarrow> ledger_entry \<Rightarrow> (string \<times> bool) list" where
  "ledger_checks db e =
     [(''integer out of range'', int4 (le_amount e) \<and> opt_all int4 (le_resultingAvailable e) \<and>
         opt_all int4 (le_resultingReserved e)),
      (''ledger_entries_amount_positive'', 0 < le_amount e),
      (''ledger_entries_result_pair'',
        (le_resultingAvailable e = None) = (le_resultingReserved e = None)),
      (''ledger_entries_wallet_result'',
        (le_walletUserId e = None) = (le_resultingAvailable e = None)),
      (''ledger_entries_result_nonnegative'',
        opt_all (\<lambda>n. 0 \<le> n) (le_resultingAvailable e) \<and> opt_all (\<lambda>n. 0 \<le> n) (le_resultingReserved e)),
      (''ledger_entries_pkey'', le_id e \<notin> le_id ` set (ledger_entries db)),
      (''ledger_entries_transaction_entry_key'',
        (le_transactionId e, le_entryNo e) \<notin>
          (\<lambda>x. (le_transactionId x, le_entryNo x)) ` set (ledger_entries db)),
      (''ledger_entries_transaction_id_fk'', transaction_fk db (Some (le_transactionId e))),
      (''ledger_entries_wallet_user_id_fk'', wallet_fk db (le_walletUserId e))]"

definition operation_row_checks :: "credit_db \<Rightarrow> credit_operation \<Rightarrow> (string \<times> bool) list" where
  "operation_row_checks db x =
     [(''integer out of range'', int4 (op_amount x) \<and> opt_all int4 (op_availableAtDecision x)),
      (''credit_operations_type_enum'', op_type x \<noteq> ISSUE),
      (''credit_operations_amount_positive'', 0 < op_amount x),
      (''credit_operations_rejection_reason_enum'',
        op_rejectionReason x \<noteq> Some Rej_CONFLICTING_REQUEST),
      (''credit_operations_outcome_shape'',
        (case op_outcome x of
           PENDING \<Rightarrow> op_transactionId x = None \<and> op_rejectionReason x = None
         | SUCCEEDED \<Rightarrow> op_transactionId x \<noteq> None \<and> op_rejectionReason x = None
         | Op_REJECTED \<Rightarrow> op_transactionId x = None \<and> op_rejectionReason x \<noteq> None)),
      (''credit_operations_party_shape'', (op_type x = TRANSFER) = (op_courierId x \<noteq> None))]"

definition operation_fk_checks :: "credit_db \<Rightarrow> credit_operation \<Rightarrow> (string \<times> bool) list" where
  "operation_fk_checks db x =
     [(''credit_operations_courier_id_wallets_user_id_fk'', wallet_fk db (op_courierId x)),
      (''credit_operations_transaction_id_fk'', transaction_fk db (op_transactionId x))]"

section \<open>Statements\<close>

text \<open>\<open>UPDATE wallets SET ... WHERE user_id = ... AND guard RETURNING available, reserved\<close>.\<close>

definition updateWallet ::
  "ident \<Rightarrow> (wallet_row \<Rightarrow> bool) \<Rightarrow> (wallet_row \<Rightarrow> wallet_row) \<Rightarrow> credit_db
     \<Rightarrow> service_error + (wallet_row option \<times> credit_db)" where
  "updateWallet userId guard f db =
     (case row_of w_userId userId (wallets db) of
        None \<Rightarrow> Inr (None, db)
      | Some w \<Rightarrow>
          if \<not> guard w then Inr (None, db)
          else bindE (constraints (wallet_checks (f w))) (\<lambda>_.
            Inr (Some (f w), db\<lparr> wallets := update_rows (\<lambda>r. w_userId r = userId) f (wallets db) \<rparr>)))"

definition insertTransaction :: "credit_transaction \<Rightarrow> credit_db \<Rightarrow> service_error + credit_db" where
  "insertTransaction t db =
     bindE (constraints (transaction_checks db t)) (\<lambda>_.
       Inr (db\<lparr> credit_transactions := credit_transactions db @ [t] \<rparr>))"

definition insertEntry :: "ledger_entry \<Rightarrow> credit_db \<Rightarrow> service_error + credit_db" where
  "insertEntry e db =
     bindE (constraints (ledger_checks db e)) (\<lambda>_.
       Inr (db\<lparr> ledger_entries := ledger_entries db @ [e] \<rparr>))"

text \<open>Both entries of a transaction are inserted by one statement.\<close>

definition insertEntries :: "ledger_entry \<Rightarrow> ledger_entry \<Rightarrow> credit_db \<Rightarrow> service_error + credit_db" where
  "insertEntries e1 e2 db = bindE (insertEntry e1 db) (insertEntry e2)"

definition insertOperation :: "credit_operation \<Rightarrow> credit_db \<Rightarrow> service_error + credit_db" where
  "insertOperation x db =
     bindE (constraints (operation_row_checks db x)) (\<lambda>_.
     bindE (constraints
       [(''credit_operations_pkey'',
          (op_orderId x, op_type x) \<notin> (\<lambda>y. (op_orderId y, op_type y)) ` set (credit_operations db)),
        (''credit_operations_terminal_order_key'',
          \<not> (\<exists>y \<in> set (credit_operations db).
               op_orderId y = op_orderId x \<and> terminal_type (op_type y) \<and> terminal_type (op_type x)))])
       (\<lambda>_.
     bindE (constraints (operation_fk_checks db x)) (\<lambda>_.
       Inr (db\<lparr> credit_operations := credit_operations db @ [x] \<rparr>))))"

text \<open>
  \<open>INSERT ... ON CONFLICT DO NOTHING RETURNING\<close>: the row checks come first, a conflict then
  inserts nothing.
\<close>

definition claimOperation :: "credit_operation \<Rightarrow> credit_db \<Rightarrow> service_error + (bool \<times> credit_db)" where
  "claimOperation x db =
     bindE (constraints (operation_row_checks db x)) (\<lambda>_.
       if (op_orderId x, op_type x) \<in> (\<lambda>y. (op_orderId y, op_type y)) ` set (credit_operations db)
       then Inr (False, db)
       else bindE (insertOperation x db) (\<lambda>db'. Inr (True, db')))"

text \<open>
  \<open>UPDATE credit_operations\<close>: the trigger refuses to touch a row that is no longer pending, and
  the new row is checked.
\<close>

definition updateOperation ::
  "(credit_operation \<Rightarrow> bool) \<Rightarrow> (credit_operation \<Rightarrow> credit_operation) \<Rightarrow> credit_db
     \<Rightarrow> service_error + credit_db" where
  "updateOperation p f db =
     (let rows = filter p (credit_operations db) in
      bindE (constraints
        [(''finalized credit operation is immutable'', list_all (\<lambda>x. op_outcome x = PENDING) rows)])
        (\<lambda>_.
      bindE (constraints (concat (map (\<lambda>x. operation_row_checks db (f x) @ operation_fk_checks db (f x)) rows)))
        (\<lambda>_.
      Inr (db\<lparr> credit_operations := update_rows p f (credit_operations db) \<rparr>))))"

definition insertAlert :: "credit_alert \<Rightarrow> credit_db \<Rightarrow> service_error + credit_db" where
  "insertAlert a db =
     (if al_id a \<in> al_id ` set (credit_audit_alerts db)
      then Inl (DbViolation ''credit_audit_alerts_pkey'')
      else Inr (db\<lparr> credit_audit_alerts := credit_audit_alerts db @ [a] \<rparr>))"

definition insertAdminRead :: "admin_wallet_read \<Rightarrow> credit_db \<Rightarrow> service_error + credit_db" where
  "insertAdminRead r db =
     (if aw_id r \<in> aw_id ` set (admin_wallet_reads db)
      then Inl (DbViolation ''admin_wallet_reads_pkey'')
      else Inr (db\<lparr> admin_wallet_reads := admin_wallet_reads db @ [r] \<rparr>))"

end
