(* ===== verification/Credit_Repository.thy ===== *)
theory Credit_Repository
  imports Credit_Store
begin

text \<open>
  The Credit Service's operations (credit-service/src/credits/credit.repository.ts): issuing a
  wallet, reserving, transferring and releasing credits, and reading them back. The writing
  operations run inside the caller's inbox transaction: they take the database and give an error,
  which rolls everything back, or a result with the new database. \<open>u k\<close> is the \<open>k\<close>-th
  \<open>randomUUID()\<close> of the call and \<open>now\<close> the transaction's \<open>now()\<close>. The \<open>fault\<close> callbacks of the
  tests are left out.
\<close>

section \<open>Inputs and outcomes\<close>

definition MAX_RESERVATION_AMOUNT :: int where
  "MAX_RESERVATION_AMOUNT = 5"

record reservation_input =
  ri_orderId :: ident
  ri_requesterId :: ident
  ri_amount :: int
  ri_correlationId :: ident
  ri_causationId :: ident

text \<open>\<open>ReleaseInput\<close> and \<open>TransferInput\<close>: the second also names the courier.\<close>

record terminal_input =
  ti_orderId :: ident
  ti_requesterId :: ident
  ti_amount :: int
  ti_correlationId :: ident
  ti_causationId :: ident

record transfer_input = terminal_input +
  ti_courierId :: ident

datatype reservation_outcome =
    Reserved ident
  | Rejected reservation_rejection "int option"

text \<open>The result of a transfer or release is the payload of its reply.\<close>

datatype terminal_outcome =
    Settled payload
  | Terminal_rejected terminal_rejection

definition balance :: "wallet_row \<Rightarrow> resulting_balance" where
  "balance w = \<lparr> rb_available = w_available w, rb_reserved = w_reserved w,
                 rb_total = w_available w + w_reserved w \<rparr>"

section \<open>Issuing\<close>

definition issueInitial ::
  "int \<Rightarrow> uuids \<Rightarrow> time \<Rightarrow> ident \<Rightarrow> credit_db \<Rightarrow> service_error + (bool \<times> credit_db)" where
  "issueInitial initialAllocation u now user db =
     (let w = \<lparr> w_userId = user, w_available = initialAllocation, w_reserved = 0,
                w_createdAt = now, w_updatedAt = now \<rparr> in
      bindE (constraints (wallet_checks w)) (\<lambda>_.
      if user \<in> w_userId ` set (wallets db) then Inr (False, db)
      else
        bindE (insertTransaction
          \<lparr> t_id = u 0, t_orderId = None, t_type = ISSUE, t_walletUserId = Some user,
            t_amount = initialAllocation, t_occurredAt = now \<rparr>
          (db\<lparr> wallets := wallets db @ [w] \<rparr>)) (\<lambda>db1.
        bindE (insertEntries
          \<lparr> le_id = u 1, le_transactionId = u 0, le_entryNo = 1, le_walletUserId = None,
            le_account = PLATFORM_ISSUANCE, le_direction = DEBIT, le_amount = initialAllocation,
            le_resultingAvailable = None, le_resultingReserved = None, le_occurredAt = now \<rparr>
          \<lparr> le_id = u 2, le_transactionId = u 0, le_entryNo = 2, le_walletUserId = Some user,
            le_account = AVAILABLE, le_direction = CREDIT, le_amount = initialAllocation,
            le_resultingAvailable = Some initialAllocation, le_resultingReserved = Some 0,
            le_occurredAt = now \<rparr> db1) (\<lambda>db2.
        Inr (True, db2)))))"

section \<open>Reserving\<close>

definition reply_event ::
  "event_type \<Rightarrow> ident \<Rightarrow> payload \<Rightarrow> ident \<Rightarrow> ident \<Rightarrow> new_outbox_event" where
  "reply_event ty order p correlation causation =
     \<lparr> ne_id = None, ne_eventType = ty, ne_aggregateId = order, ne_payload = p,
       ne_correlationId = correlation, ne_causationId = Some causation, ne_schemaVersion = None \<rparr>"

text \<open>
  The payload of a refusal carries \<open>available\<close> only for a shortage; \<open>outcome.available!\<close> is then
  what the outcome recorded (an absent value fails the schema).
\<close>

definition refusal_payload ::
  "reservation_input \<Rightarrow> reservation_rejection \<Rightarrow> int option \<Rightarrow> payload" where
  "refusal_payload input reason available =
     (let base = CreditReservationRejectedPayload (ri_orderId input) (ri_requesterId input) (ri_amount input) in
      case reason of
        Rej_INSUFFICIENT_CREDITS \<Rightarrow>
          (case available of Some a \<Rightarrow> base (INSUFFICIENT_CREDITS a)
                           | None \<Rightarrow> Other_json ''available is missing'')
      | Rej_AMOUNT_OUT_OF_RANGE \<Rightarrow> base AMOUNT_OUT_OF_RANGE
      | Rej_CONFLICTING_REQUEST \<Rightarrow> base CONFLICTING_REQUEST)"

definition writeOutcome ::
  "ident \<Rightarrow> time \<Rightarrow> reservation_input \<Rightarrow> reservation_outcome \<Rightarrow> credit_db \<Rightarrow> service_error + credit_db" where
  "writeOutcome v now input out db =
     (let event = (case out of
          Reserved _ \<Rightarrow> reply_event CREDITS_RESERVED (ri_orderId input)
            (CreditsReservedPayload (ri_orderId input) (ri_requesterId input) (ri_amount input))
            (ri_correlationId input) (ri_causationId input)
        | Rejected reason available \<Rightarrow> reply_event CREDIT_RESERVATION_REJECTED (ri_orderId input)
            (refusal_payload input reason available) (ri_correlationId input) (ri_causationId input))
      in bindE (insertOutboxEvent v now event db) (\<lambda>(_, db'). Inr db'))"

definition finishRejection ::
  "reservation_input \<Rightarrow> reservation_rejection \<Rightarrow> int option \<Rightarrow> credit_db \<Rightarrow> service_error + credit_db" where
  "finishRejection input reason available =
     updateOperation
       (\<lambda>x. op_orderId x = ri_orderId input \<and> op_type x = RESERVE \<and>
            op_requesterId x = ri_requesterId input)
       (\<lambda>x. x\<lparr> op_outcome := Op_REJECTED, op_rejectionReason := Some reason,
               op_availableAtDecision := available \<rparr>)"

definition replayOrRejectConflict ::
  "uuids \<Rightarrow> time \<Rightarrow> reservation_input \<Rightarrow> credit_db
     \<Rightarrow> service_error + (reservation_outcome \<times> credit_db)" where
  "replayOrRejectConflict u now input db =
     (case find (\<lambda>x. op_orderId x = ri_orderId input \<and> op_type x = RESERVE) (credit_operations db) of
        None \<Rightarrow> Inl (PlainError ''Reservation operation conflict disappeared.'')
      | Some x \<Rightarrow>
          if op_requesterId x \<noteq> ri_requesterId input \<or> op_amount x \<noteq> ri_amount input
          then bindE (insertAlert
              \<lparr> al_id = u 0, al_orderId = ri_orderId input, al_operationType = RESERVE,
                al_code = Term_CONFLICTING_REQUEST,
                al_details = Recorded_reservation (op_requesterId x) (op_amount x),
                al_receivedRequester = ri_requesterId input, al_receivedCourier = None,
                al_receivedAmount = ri_amount input, al_correlationId = ri_correlationId input,
                al_occurredAt = now \<rparr> db) (\<lambda>db1.
            let conflict = Rejected Rej_CONFLICTING_REQUEST None in
            bindE (writeOutcome (u 1) now input conflict db1) (\<lambda>db2. Inr (conflict, db2)))
          else if op_outcome x = PENDING
          then Inl (PlainError ''Reservation outcome is still pending.'')
          else
            let out = (if op_outcome x = SUCCEEDED then Reserved (the (op_transactionId x))
                       else Rejected (the (op_rejectionReason x)) (op_availableAtDecision x)) in
            bindE (writeOutcome (u 0) now input out db) (\<lambda>db1. Inr (out, db1)))"

definition pending_operation ::
  "time \<Rightarrow> ident \<Rightarrow> transaction_type \<Rightarrow> ident \<Rightarrow> ident option \<Rightarrow> int \<Rightarrow> credit_operation" where
  "pending_operation now order ty requester courier amount =
     \<lparr> op_orderId = order, op_type = ty, op_requesterId = requester, op_courierId = courier,
       op_amount = amount, op_outcome = PENDING, op_rejectionReason = None,
       op_availableAtDecision = None, op_transactionId = None, op_resultPayload = None,
       op_createdAt = now \<rparr>"

definition order_transaction ::
  "ident \<Rightarrow> time \<Rightarrow> transaction_type \<Rightarrow> ident \<Rightarrow> ident \<Rightarrow> int \<Rightarrow> credit_transaction" where
  "order_transaction i now ty order wallet amount =
     \<lparr> t_id = i, t_orderId = Some order, t_type = ty, t_walletUserId = Some wallet,
       t_amount = amount, t_occurredAt = now \<rparr>"

definition wallet_entry ::
  "ident \<Rightarrow> time \<Rightarrow> ident \<Rightarrow> nat \<Rightarrow> ident \<Rightarrow> account \<Rightarrow> direction \<Rightarrow> int \<Rightarrow> wallet_row \<Rightarrow> ledger_entry" where
  "wallet_entry i now tx no user acc dir amount after =
     \<lparr> le_id = i, le_transactionId = tx, le_entryNo = no, le_walletUserId = Some user,
       le_account = acc, le_direction = dir, le_amount = amount,
       le_resultingAvailable = Some (w_available after), le_resultingReserved = Some (w_reserved after),
       le_occurredAt = now \<rparr>"

text \<open>The refusal branches of \<open>reserve\<close>: finalize the claimed operation and reply.\<close>

definition refuse ::
  "uuids \<Rightarrow> time \<Rightarrow> reservation_input \<Rightarrow> reservation_rejection \<Rightarrow> int option \<Rightarrow> credit_db
     \<Rightarrow> service_error + (reservation_outcome \<times> credit_db)" where
  "refuse u now input reason available db =
     bindE (finishRejection input reason available db) (\<lambda>db1.
     bindE (writeOutcome (u 0) now input (Rejected reason available) db1) (\<lambda>db2.
     Inr (Rejected reason available, db2)))"

definition reserve ::
  "uuids \<Rightarrow> time \<Rightarrow> reservation_input \<Rightarrow> credit_db
     \<Rightarrow> service_error + (reservation_outcome \<times> credit_db)" where
  "reserve u now input db =
     bindE (claimOperation (pending_operation now (ri_orderId input) RESERVE (ri_requesterId input)
              None (ri_amount input)) db) (\<lambda>(claimed, db1).
     if \<not> claimed then replayOrRejectConflict u now input db1
     else if MAX_RESERVATION_AMOUNT < ri_amount input
     then refuse u now input Rej_AMOUNT_OUT_OF_RANGE None db1
     else
       bindE (updateWallet (ri_requesterId input) (\<lambda>w. ri_amount input \<le> w_available w)
         (\<lambda>w. w\<lparr> w_available := w_available w - ri_amount input,
                 w_reserved := w_reserved w + ri_amount input, w_updatedAt := now \<rparr>) db1)
         (\<lambda>(changed, db2).
       case changed of
         None \<Rightarrow>
           (case row_of w_userId (ri_requesterId input) (wallets db2) of
              None \<Rightarrow> Inl (WalletNotReadyError (ri_requesterId input))
            | Some w \<Rightarrow> refuse u now input Rej_INSUFFICIENT_CREDITS (Some (w_available w)) db2)
       | Some w \<Rightarrow>
           bindE (insertTransaction (order_transaction (u 0) now RESERVE (ri_orderId input)
                    (ri_requesterId input) (ri_amount input)) db2) (\<lambda>db3.
           bindE (insertEntries
                    (wallet_entry (u 1) now (u 0) 1 (ri_requesterId input) AVAILABLE DEBIT (ri_amount input) w)
                    (wallet_entry (u 2) now (u 0) 2 (ri_requesterId input) RESERVED CREDIT (ri_amount input) w)
                    db3) (\<lambda>db4.
           bindE (updateOperation
                    (\<lambda>x. op_orderId x = ri_orderId input \<and> op_type x = RESERVE \<and>
                         op_requesterId x = ri_requesterId input)
                    (\<lambda>x. x\<lparr> op_outcome := SUCCEEDED, op_transactionId := Some (u 0) \<rparr>) db4) (\<lambda>db5.
           bindE (writeOutcome (u 3) now input (Reserved (u 0)) db5) (\<lambda>db6.
           Inr (Reserved (u 0), db6)))))))"

section \<open>Settling a reservation\<close>

definition lockReservation :: "ident \<Rightarrow> credit_db \<Rightarrow> service_error + credit_operation" where
  "lockReservation order db =
     (case find (\<lambda>x. op_orderId x = order \<and> op_type x = RESERVE) (credit_operations db) of
        None \<Rightarrow> Inl (ReservationNotReadyError order)
      | Some x \<Rightarrow> if op_outcome x = PENDING then Inl (ReservationNotReadyError order) else Inr x)"

definition rejectTerminal ::
  "ident \<Rightarrow> time \<Rightarrow> 'a terminal_input_scheme \<Rightarrow> ident option \<Rightarrow> transaction_type
     \<Rightarrow> terminal_rejection \<Rightarrow> alert_details \<Rightarrow> credit_db
     \<Rightarrow> service_error + (terminal_outcome \<times> credit_db)" where
  "rejectTerminal v now input courier ty reason details db =
     bindE (insertAlert
       \<lparr> al_id = v, al_orderId = ti_orderId input, al_operationType = ty, al_code = reason,
         al_details = details, al_receivedRequester = ti_requesterId input,
         al_receivedCourier = courier, al_receivedAmount = ti_amount input,
         al_correlationId = ti_correlationId input, al_occurredAt = now \<rparr> db) (\<lambda>db1.
     Inr (Terminal_rejected reason, db1))"

text \<open>\<open>validateReservation\<close>: the reason and details of the refusal it records, if any.\<close>

definition validateReservation ::
  "credit_operation \<Rightarrow> 'a terminal_input_scheme \<Rightarrow> (terminal_rejection \<times> alert_details) option" where
  "validateReservation r input =
     (if op_outcome r \<noteq> SUCCEEDED \<or> op_transactionId r = None
      then Some (RESERVATION_NOT_ACTIVE, Reservation_outcome (op_outcome r))
      else if op_requesterId r \<noteq> ti_requesterId input \<or> op_amount r \<noteq> ti_amount input
      then Some (Term_CONFLICTING_REQUEST, Recorded_reservation (op_requesterId r) (op_amount r))
      else None)"

definition findTerminalOperation :: "ident \<Rightarrow> credit_db \<Rightarrow> credit_operation option" where
  "findTerminalOperation order db =
     find (\<lambda>x. op_orderId x = order \<and> terminal_type (op_type x)) (credit_operations db)"

definition finishTerminal ::
  "ident \<Rightarrow> transaction_type \<Rightarrow> ident \<Rightarrow> payload \<Rightarrow> credit_db \<Rightarrow> service_error + credit_db" where
  "finishTerminal order ty tx result =
     updateOperation (\<lambda>x. op_orderId x = order \<and> op_type x = ty)
       (\<lambda>x. x\<lparr> op_outcome := SUCCEEDED, op_transactionId := Some tx, op_resultPayload := Some result \<rparr>)"

definition writeTransferOutcome ::
  "ident \<Rightarrow> time \<Rightarrow> 'a terminal_input_scheme \<Rightarrow> payload \<Rightarrow> credit_db \<Rightarrow> service_error + credit_db" where
  "writeTransferOutcome v now input result db =
     bindE (insertOutboxEvent v now (reply_event CREDITS_TRANSFERRED (ti_orderId input) result
              (ti_correlationId input) (ti_causationId input)) db) (\<lambda>(_, db'). Inr db')"

definition writeReleaseOutcome ::
  "ident \<Rightarrow> time \<Rightarrow> 'a terminal_input_scheme \<Rightarrow> payload \<Rightarrow> credit_db \<Rightarrow> service_error + credit_db" where
  "writeReleaseOutcome v now input result db =
     bindE (insertOutboxEvent v now (reply_event CREDITS_RELEASED (ti_orderId input) result
              (ti_correlationId input) (ti_causationId input)) db) (\<lambda>(_, db'). Inr db')"

text \<open>
  A terminal operation was recorded before: replay its stored result, or refuse. The stored
  result is parsed against its schema again; one that does not fit is an error.
\<close>

definition stored_result :: "event_type \<Rightarrow> payload option \<Rightarrow> service_error + payload" where
  "stored_result ty stored =
     (case stored of
        None \<Rightarrow> Inl (PlainError ''outcome is not replayable'')
      | Some p \<Rightarrow> if the (PAYLOAD_SCHEMAS ty) p then Inr p else Inl (PlainError ''ZodError''))"

definition recorded_details :: "credit_operation \<Rightarrow> alert_details" where
  "recorded_details prior =
     Recorded_operation (op_type prior) (op_requesterId prior) (op_courierId prior) (op_amount prior)"

definition replayTransferOrReject ::
  "uuids \<Rightarrow> time \<Rightarrow> credit_operation \<Rightarrow> transfer_input \<Rightarrow> credit_db
     \<Rightarrow> service_error + (terminal_outcome \<times> credit_db)" where
  "replayTransferOrReject u now prior input db =
     (if op_type prior \<noteq> TRANSFER \<or> op_requesterId prior \<noteq> ti_requesterId input \<or>
         op_courierId prior \<noteq> Some (ti_courierId input) \<or> op_amount prior \<noteq> ti_amount input
      then rejectTerminal (u 0) now input (Some (ti_courierId input)) TRANSFER
             (if op_type prior = TRANSFER then Term_CONFLICTING_REQUEST else TERMINAL_OPERATION_CONFLICT)
             (recorded_details prior) db
      else if op_outcome prior \<noteq> SUCCEEDED
      then Inl (PlainError ''outcome is not replayable'')
      else bindE (stored_result CREDITS_TRANSFERRED (op_resultPayload prior)) (\<lambda>result.
           bindE (writeTransferOutcome (u 0) now input result db) (\<lambda>db1.
           Inr (Settled result, db1))))"

definition replayReleaseOrReject ::
  "uuids \<Rightarrow> time \<Rightarrow> credit_operation \<Rightarrow> terminal_input \<Rightarrow> credit_db
     \<Rightarrow> service_error + (terminal_outcome \<times> credit_db)" where
  "replayReleaseOrReject u now prior input db =
     (if op_type prior \<noteq> RELEASE \<or> op_requesterId prior \<noteq> ti_requesterId input \<or>
         op_amount prior \<noteq> ti_amount input
      then rejectTerminal (u 0) now input None RELEASE
             (if op_type prior = RELEASE then Term_CONFLICTING_REQUEST else TERMINAL_OPERATION_CONFLICT)
             (recorded_details prior) db
      else if op_outcome prior \<noteq> SUCCEEDED
      then Inl (PlainError ''outcome is not replayable'')
      else bindE (stored_result CREDITS_RELEASED (op_resultPayload prior)) (\<lambda>result.
           bindE (writeReleaseOutcome (u 0) now input result db) (\<lambda>db1.
           Inr (Settled result, db1))))"

definition transfer ::
  "uuids \<Rightarrow> time \<Rightarrow> transfer_input \<Rightarrow> credit_db
     \<Rightarrow> service_error + (terminal_outcome \<times> credit_db)" where
  "transfer u now input db =
     (let order = ti_orderId input; requester = ti_requesterId input;
          courier = ti_courierId input; amount = ti_amount input in
      bindE (lockReservation order db) (\<lambda>r.
      case validateReservation r input of
        Some (reason, details) \<Rightarrow>
          rejectTerminal (u 0) now input (Some courier) TRANSFER reason details db
      | None \<Rightarrow>
          if requester = courier
          then rejectTerminal (u 0) now input (Some courier) TRANSFER INVALID_PARTICIPANTS
                 Same_participants db
          else case findTerminalOperation order db of
            Some prior \<Rightarrow> replayTransferOrReject u now prior input db
          | None \<Rightarrow>
              if courier \<notin> w_userId ` set (wallets db) then Inl (WalletNotReadyError courier)
              else if requester \<notin> w_userId ` set (wallets db) then Inl (WalletNotReadyError requester)
              else
                bindE (insertOperation (pending_operation now order TRANSFER requester (Some courier)
                         amount) db) (\<lambda>db1.
                bindE (updateWallet requester (\<lambda>w. amount \<le> w_reserved w)
                         (\<lambda>w. w\<lparr> w_reserved := w_reserved w - amount, w_updatedAt := now \<rparr>) db1)
                  (\<lambda>(requesterRow, db2).
                case requesterRow of
                  None \<Rightarrow> Inl (PlainError ''Recorded reservation is not backed by reserved credit.'')
                | Some rw \<Rightarrow>
                    bindE (updateWallet courier (\<lambda>_. True)
                             (\<lambda>w. w\<lparr> w_available := w_available w + amount, w_updatedAt := now \<rparr>) db2)
                      (\<lambda>(courierRow, db3).
                    case courierRow of
                      None \<Rightarrow> Inl (WalletNotReadyError courier)
                    | Some cw \<Rightarrow>
                        bindE (insertTransaction
                                 (order_transaction (u 0) now TRANSFER order requester amount) db3)
                          (\<lambda>db4.
                        bindE (insertEntries
                                 (wallet_entry (u 1) now (u 0) 1 requester RESERVED DEBIT amount rw)
                                 (wallet_entry (u 2) now (u 0) 2 courier AVAILABLE CREDIT amount cw)
                                 db4) (\<lambda>db5.
                        let result = CreditsTransferredPayload order requester amount courier (u 0)
                                       (balance rw) (balance cw) in
                        bindE (finishTerminal order TRANSFER (u 0) result db5) (\<lambda>db6.
                        bindE (writeTransferOutcome (u 3) now input result db6) (\<lambda>db7.
                        Inr (Settled result, db7))))))))))"

definition release ::
  "uuids \<Rightarrow> time \<Rightarrow> terminal_input \<Rightarrow> credit_db
     \<Rightarrow> service_error + (terminal_outcome \<times> credit_db)" where
  "release u now input db =
     (let order = ti_orderId input; requester = ti_requesterId input; amount = ti_amount input in
      bindE (lockReservation order db) (\<lambda>r.
      case validateReservation r input of
        Some (reason, details) \<Rightarrow> rejectTerminal (u 0) now input None RELEASE reason details db
      | None \<Rightarrow>
          (case findTerminalOperation order db of
             Some prior \<Rightarrow> replayReleaseOrReject u now prior input db
           | None \<Rightarrow>
               bindE (insertOperation (pending_operation now order RELEASE requester None amount) db)
                 (\<lambda>db1.
               bindE (updateWallet requester (\<lambda>w. amount \<le> w_reserved w)
                        (\<lambda>w. w\<lparr> w_available := w_available w + amount,
                                w_reserved := w_reserved w - amount, w_updatedAt := now \<rparr>) db1)
                 (\<lambda>(requesterRow, db2).
               case requesterRow of
                 None \<Rightarrow> Inl (PlainError ''Recorded reservation is not backed by reserved credit.'')
               | Some rw \<Rightarrow>
                   bindE (insertTransaction
                            (order_transaction (u 0) now RELEASE order requester amount) db2) (\<lambda>db3.
                   bindE (insertEntries
                            (wallet_entry (u 1) now (u 0) 1 requester RESERVED DEBIT amount rw)
                            (wallet_entry (u 2) now (u 0) 2 requester AVAILABLE CREDIT amount rw)
                            db3) (\<lambda>db4.
                   let result = CreditsReleasedPayload order requester amount (u 0) (balance rw) in
                   bindE (finishTerminal order RELEASE (u 0) result db4) (\<lambda>db5.
                   bindE (writeReleaseOutcome (u 3) now input result db5) (\<lambda>db6.
                   Inr (Settled result, db6))))))))))"

section \<open>Reads\<close>

record wallet_view =
  wv_userId :: ident
  wv_available :: int
  wv_reserved :: int
  wv_total :: int
  wv_createdAt :: time
  wv_updatedAt :: time

definition walletView :: "wallet_row \<Rightarrow> wallet_view" where
  "walletView w =
     \<lparr> wv_userId = w_userId w, wv_available = w_available w, wv_reserved = w_reserved w,
       wv_total = w_available w + w_reserved w, wv_createdAt = iso (w_createdAt w),
       wv_updatedAt = iso (w_updatedAt w) \<rparr>"

definition findWallet :: "ident \<Rightarrow> credit_db \<Rightarrow> wallet_view option" where
  "findWallet user db = map_option walletView (row_of w_userId user (wallets db))"

datatype credit_status = NONE | St_RESERVED | St_RELEASED | St_TRANSFERRED

datatype credit_status_detail = UNKNOWN | IN_FLIGHT | Detail_REJECTED

record transaction_reference =
  tr_transactionId :: ident
  tr_type :: transaction_type
  tr_occurredAt :: time

record order_credit_status =
  cs_orderId :: ident
  cs_status :: credit_status
  cs_detail :: "credit_status_detail option"
  cs_rejectionReason :: "reservation_rejection option"
  cs_recordedAt :: "time option"
  cs_reservation :: "transaction_reference option"
  cs_terminal :: "transaction_reference option"

text \<open>
  A row of the join: the operation with the time of its transaction, if it has one. The rows of
  the order come with the reservation first.
\<close>

definition operation_time :: "credit_db \<Rightarrow> credit_operation \<Rightarrow> time option" where
  "operation_time db x =
     Option.bind (op_transactionId x)
       (\<lambda>i. map_option t_occurredAt (row_of t_id i (credit_transactions db)))"

definition op_reference :: "credit_db \<Rightarrow> credit_operation option \<Rightarrow> transaction_reference option" where
  "op_reference db row =
     (case row of
        None \<Rightarrow> None
      | Some x \<Rightarrow>
          (case (op_outcome x, op_transactionId x, operation_time db x) of
             (SUCCEEDED, Some i, Some t) \<Rightarrow>
               Some \<lparr> tr_transactionId = i, tr_type = op_type x, tr_occurredAt = iso t \<rparr>
           | _ \<Rightarrow> None))"

definition orderStatus :: "ident \<Rightarrow> credit_db \<Rightarrow> order_credit_status" where
  "orderStatus order db =
     (let rows = sort_key (\<lambda>x. if op_type x = RESERVE then 1 else 2 :: nat)
                   (filter (\<lambda>x. op_orderId x = order) (credit_operations db));
          reservationRow = find (\<lambda>x. op_type x = RESERVE) rows;
          terminalRow = find (\<lambda>x. op_type x \<noteq> RESERVE) rows;
          reservationRef = op_reference db reservationRow;
          terminalRef = op_reference db terminalRow in
      case terminalRef of
        Some t \<Rightarrow>
          \<lparr> cs_orderId = order,
            cs_status = (if tr_type t = TRANSFER then St_TRANSFERRED else St_RELEASED),
            cs_detail = None, cs_rejectionReason = None, cs_recordedAt = Some (tr_occurredAt t),
            cs_reservation = reservationRef, cs_terminal = Some t \<rparr>
      | None \<Rightarrow>
          (case reservationRef of
             Some r \<Rightarrow>
               \<lparr> cs_orderId = order, cs_status = St_RESERVED, cs_detail = None,
                 cs_rejectionReason = None, cs_recordedAt = Some (tr_occurredAt r),
                 cs_reservation = Some r, cs_terminal = None \<rparr>
           | None \<Rightarrow>
               \<lparr> cs_orderId = order, cs_status = NONE,
                 cs_detail = Some (case reservationRow of
                     None \<Rightarrow> UNKNOWN
                   | Some x \<Rightarrow> if op_outcome x = Op_REJECTED then Detail_REJECTED else IN_FLIGHT),
                 cs_rejectionReason = Option.bind reservationRow op_rejectionReason,
                 cs_recordedAt = map_option (\<lambda>x. iso (op_createdAt x)) reservationRow,
                 cs_reservation = None, cs_terminal = None \<rparr>))"

record ledger_item =
  li_transactionId :: ident
  li_type :: transaction_type
  li_amount :: int
  li_orderId :: "ident option"
  li_occurredAt :: time
  li_resultingAvailable :: int
  li_resultingReserved :: int
  li_resultingTotal :: int
  li_totalChange :: int

definition signed_amount :: "ledger_entry \<Rightarrow> int" where
  "signed_amount e = (case le_direction e of CREDIT \<Rightarrow> le_amount e | DEBIT \<Rightarrow> - le_amount e)"

text \<open>
  \<open>listLedger\<close>: one item per transaction that touches the wallet, with the balances of its last
  entry and the sum of its entries, newest first, after the cursor, at most \<open>limit\<close>. The flag is
  whether there are more. The columns of an entry with a wallet are not null, so \<open>Number(null)\<close>
  (which is 0) does not arise.
\<close>

definition ledger_activity :: "ident \<Rightarrow> credit_db \<Rightarrow> (time \<times> ident \<times> ledger_item) list" where
  "ledger_activity user db =
     concat (map (\<lambda>t.
       let es = filter (\<lambda>e. le_transactionId e = t_id t \<and> le_walletUserId e = Some user)
                  (ledger_entries db) in
       if es = [] then []
       else let e = last (sort_key le_entryNo es);
                a = (case le_resultingAvailable e of Some n \<Rightarrow> n | None \<Rightarrow> 0);
                r = (case le_resultingReserved e of Some n \<Rightarrow> n | None \<Rightarrow> 0) in
         [(t_occurredAt t, t_id t,
           \<lparr> li_transactionId = t_id t, li_type = t_type t, li_amount = t_amount t,
             li_orderId = t_orderId t, li_occurredAt = iso (t_occurredAt t),
             li_resultingAvailable = a, li_resultingReserved = r, li_resultingTotal = a + r,
             li_totalChange = sum_list (map signed_amount es) \<rparr>)])
       (credit_transactions db))"

definition listLedger ::
  "ident \<Rightarrow> nat \<Rightarrow> (time \<times> ident) option \<Rightarrow> credit_db \<Rightarrow> ledger_item list \<times> bool" where
  "listLedger user limit cursor db =
     (let key = (\<lambda>(t, i, item). (t, i));
          rows = filter (\<lambda>x. case cursor of None \<Rightarrow> True | Some c \<Rightarrow> key x < c)
                   (ledger_activity user db);
          newest = take (limit + 1) (rev (sort_key key rows))
      in (map (snd \<circ> snd) (take limit newest), limit < length newest))"

definition auditAdminRead ::
  "ident \<Rightarrow> time \<Rightarrow> ident \<Rightarrow> ident \<Rightarrow> read_resource \<Rightarrow> ident \<Rightarrow> credit_db \<Rightarrow> service_error + credit_db" where
  "auditAdminRead v now admin target resource correlation =
     insertAdminRead \<lparr> aw_id = v, aw_adminUserId = admin, aw_targetUserId = target,
       aw_resource = resource, aw_correlationId = correlation, aw_occurredAt = now \<rparr>"

end
