(* ===== verification/Credit_Effects.thy ===== *)
theory Credit_Effects
  imports Credit_Repository
begin

text \<open>
  What the Credit Service's operations do to its tables. The abstract specification is a
  relation on the economy, the four tables that hold credits and outcomes, with one case per
  kind of movement; every operation of the repository is shown to be one of its cases. The
  invariants are proved on the specification (\<open>Credit_Invariants\<close>).
\<close>

section \<open>The economy\<close>

record economy =
  e_wallets :: "wallet_row list"
  e_transactions :: "credit_transaction list"
  e_entries :: "ledger_entry list"
  e_operations :: "credit_operation list"

definition economy :: "credit_db \<Rightarrow> economy" where
  "economy db = \<lparr> e_wallets = wallets db, e_transactions = credit_transactions db,
                  e_entries = ledger_entries db, e_operations = credit_operations db \<rparr>"

lemma economy_simps [simp]:
  "e_wallets (economy db) = wallets db" "e_transactions (economy db) = credit_transactions db"
  "e_entries (economy db) = ledger_entries db" "e_operations (economy db) = credit_operations db"
  by (simp_all add: economy_def)

text \<open>The tables of the service that are not part of the economy do not matter to it.\<close>

lemma economy_more:
  fixes db db' :: credit_db
  assumes "service_db.more db' = service_db.more db"
  shows "economy db' = economy db" and "credit_audit_alerts db' = credit_audit_alerts db"
    and "admin_wallet_reads db' = admin_wallet_reads db"
  using assms by (cases db; cases db'; simp add: economy_def)+

lemma economy_outbox [simp]:
  "economy (db\<lparr> outbox_events := x \<rparr>) = economy db" "economy (db\<lparr> outbox_seq := n \<rparr>) = economy db"
  "economy (db\<lparr> processed_events := y \<rparr>) = economy db"
  "economy (db\<lparr> credit_audit_alerts := z \<rparr>) = economy db"
  "economy (db\<lparr> admin_wallet_reads := v \<rparr>) = economy db"
  by (simp_all add: economy_def)

section \<open>The specification\<close>

definition same_order :: "ident \<Rightarrow> transaction_type \<Rightarrow> credit_operation \<Rightarrow> bool" where
  "same_order order ty x \<longleftrightarrow> op_orderId x = order \<and> op_type x = ty"

definition credited :: "time \<Rightarrow> int \<Rightarrow> int \<Rightarrow> wallet_row \<Rightarrow> wallet_row" where
  "credited now available reserved w =
     w\<lparr> w_available := w_available w + available, w_reserved := w_reserved w + reserved,
        w_updatedAt := now \<rparr>"

definition change_wallet :: "ident \<Rightarrow> time \<Rightarrow> int \<Rightarrow> int \<Rightarrow> wallet_row list \<Rightarrow> wallet_row list" where
  "change_wallet user now available reserved =
     update_rows (\<lambda>r. w_userId r = user) (credited now available reserved)"

lemma credited_userId [simp]: "w_userId (credited now a r w) = w_userId w"
  by (simp add: credited_def)

lemma change_wallet_ids [simp]:
  "map w_userId (change_wallet user now a r ws) = map w_userId ws"
  "w_userId ` set (change_wallet user now a r ws) = w_userId ` set ws"
proof -
  show ids: "map w_userId (change_wallet user now a r ws) = map w_userId ws"
    by (simp add: change_wallet_def)
  then show "w_userId ` set (change_wallet user now a r ws) = w_userId ` set ws"
    by (metis list.set_map)
qed

text \<open>
  A pair of entries of one transaction: the first a debit of one account, the second a credit of
  another, of the same amount.
\<close>

definition entry_of ::
  "ledger_entry \<Rightarrow> ident \<Rightarrow> ident option \<Rightarrow> account \<Rightarrow> direction \<Rightarrow> int \<Rightarrow> bool" where
  "entry_of e tx user acc dir amount \<longleftrightarrow>
     le_transactionId e = tx \<and> le_walletUserId e = user \<and> le_account e = acc \<and>
     le_direction e = dir \<and> le_amount e = amount"

definition recorded_tx ::
  "credit_transaction \<Rightarrow> ident \<Rightarrow> ident option \<Rightarrow> transaction_type \<Rightarrow> ident \<Rightarrow> int \<Rightarrow> bool" where
  "recorded_tx t i order ty user amount \<longleftrightarrow>
     t_id t = i \<and> t_orderId t = order \<and> t_type t = ty \<and> t_walletUserId t = Some user \<and>
     t_amount t = amount"

definition recorded_op ::
  "credit_operation \<Rightarrow> ident \<Rightarrow> transaction_type \<Rightarrow> ident \<Rightarrow> ident option \<Rightarrow> int \<Rightarrow> ident \<Rightarrow> bool" where
  "recorded_op x order ty requester courier amount i \<longleftrightarrow>
     op_orderId x = order \<and> op_type x = ty \<and> op_requesterId x = requester \<and>
     op_courierId x = courier \<and> op_amount x = amount \<and> op_outcome x = SUCCEEDED \<and>
     op_transactionId x = Some i"

text \<open>A live reservation of this requester and amount, not settled by any terminal operation.\<close>

definition reserved_for :: "economy \<Rightarrow> ident \<Rightarrow> ident \<Rightarrow> int \<Rightarrow> bool" where
  "reserved_for e order requester amount \<longleftrightarrow>
     (\<exists>x \<in> set (e_operations e). op_orderId x = order \<and> op_type x = RESERVE \<and>
        op_requesterId x = requester \<and> op_amount x = amount \<and> op_outcome x = SUCCEEDED)"

definition settled_op :: "economy \<Rightarrow> ident \<Rightarrow> bool" where
  "settled_op e order \<longleftrightarrow>
     (\<exists>x \<in> set (e_operations e). op_orderId x = order \<and> terminal_type (op_type x))"

text \<open>What a refused reservation stores: the shortage it found, or that the amount is out of range.\<close>

definition rejection_recorded :: "credit_operation \<Rightarrow> bool" where
  "rejection_recorded x \<longleftrightarrow>
     (op_rejectionReason x = Some Rej_INSUFFICIENT_CREDITS \<and>
        (\<exists>a. op_availableAtDecision x = Some a \<and> nonnegative_int a)) \<or>
     (op_rejectionReason x = Some Rej_AMOUNT_OUT_OF_RANGE \<and> op_availableAtDecision x = None)"

text \<open>\<open>alloc\<close> is the initial allocation the service is configured with.\<close>

inductive credit_effect :: "int \<Rightarrow> economy \<Rightarrow> economy \<Rightarrow> bool" for alloc :: int where
  unmoved: "credit_effect alloc e e"
| refused:
    "\<lbrakk> op_orderId x = order; op_type x = RESERVE; op_outcome x = Op_REJECTED;
       op_courierId x = None; 0 < op_amount x; rejection_recorded x;
       \<forall>y \<in> set (e_operations e). \<not> same_order order RESERVE y \<rbrakk> \<Longrightarrow>
     credit_effect alloc e (e\<lparr> e_operations := e_operations e @ [x] \<rparr>)"
| issued:
    "\<lbrakk> user \<notin> w_userId ` set (e_wallets e); 0 < alloc;
       w_userId w = user; w_available w = alloc; w_reserved w = 0;
       recorded_tx t i None ISSUE user alloc; i \<notin> t_id ` set (e_transactions e);
       entry_of e1 i None PLATFORM_ISSUANCE DEBIT alloc;
       entry_of e2 i (Some user) AVAILABLE CREDIT alloc \<rbrakk> \<Longrightarrow>
     credit_effect alloc e (e\<lparr> e_wallets := e_wallets e @ [w],
                         e_transactions := e_transactions e @ [t],
                         e_entries := e_entries e @ [e1, e2] \<rparr>)"
| reserved:
    "\<lbrakk> w \<in> set (e_wallets e); w_userId w = requester; amount \<le> w_available w; 0 < amount;
       \<forall>y \<in> set (e_operations e). \<not> same_order order RESERVE y;
       recorded_tx t i (Some order) RESERVE requester amount; i \<notin> t_id ` set (e_transactions e);
       \<forall>y \<in> set (e_transactions e). t_orderId y = Some order \<longrightarrow> t_type y \<noteq> RESERVE;
       entry_of e1 i (Some requester) AVAILABLE DEBIT amount;
       entry_of e2 i (Some requester) RESERVED CREDIT amount;
       recorded_op x order RESERVE requester None amount i \<rbrakk> \<Longrightarrow>
     credit_effect alloc e (e\<lparr> e_wallets := change_wallet requester now (- amount) amount (e_wallets e),
                         e_transactions := e_transactions e @ [t],
                         e_entries := e_entries e @ [e1, e2],
                         e_operations := e_operations e @ [x] \<rparr>)"
| transferred:
    "\<lbrakk> rw \<in> set (e_wallets e); w_userId rw = requester; amount \<le> w_reserved rw; 0 < amount;
       courier \<in> w_userId ` set (e_wallets e); courier \<noteq> requester;
       reserved_for e order requester amount; \<not> settled_op e order;
       recorded_tx t i (Some order) TRANSFER requester amount; i \<notin> t_id ` set (e_transactions e);
       entry_of e1 i (Some requester) RESERVED DEBIT amount;
       entry_of e2 i (Some courier) AVAILABLE CREDIT amount;
       recorded_op x order TRANSFER requester (Some courier) amount i;
       op_resultPayload x = Some (CreditsTransferredPayload order requester amount courier i rb cb);
       the (PAYLOAD_SCHEMAS CREDITS_TRANSFERRED) (the (op_resultPayload x)) \<rbrakk> \<Longrightarrow>
     credit_effect alloc e (e\<lparr> e_wallets := change_wallet courier now amount 0
                           (change_wallet requester now 0 (- amount) (e_wallets e)),
                         e_transactions := e_transactions e @ [t],
                         e_entries := e_entries e @ [e1, e2],
                         e_operations := e_operations e @ [x] \<rparr>)"
| released:
    "\<lbrakk> rw \<in> set (e_wallets e); w_userId rw = requester; amount \<le> w_reserved rw; 0 < amount;
       reserved_for e order requester amount; \<not> settled_op e order;
       recorded_tx t i (Some order) RELEASE requester amount; i \<notin> t_id ` set (e_transactions e);
       entry_of e1 i (Some requester) RESERVED DEBIT amount;
       entry_of e2 i (Some requester) AVAILABLE CREDIT amount;
       recorded_op x order RELEASE requester None amount i;
       op_resultPayload x = Some (CreditsReleasedPayload order requester amount i rb);
       the (PAYLOAD_SCHEMAS CREDITS_RELEASED) (the (op_resultPayload x)) \<rbrakk> \<Longrightarrow>
     credit_effect alloc e (e\<lparr> e_wallets := change_wallet requester now amount (- amount) (e_wallets e),
                         e_transactions := e_transactions e @ [t],
                         e_entries := e_entries e @ [e1, e2],
                         e_operations := e_operations e @ [x] \<rparr>)"

section \<open>The statements\<close>

lemma updateWallet_Inr:
  assumes "updateWallet user guard f db = Inr (res, db')"
  obtains (none) "res = None" and "db' = db"
      and "row_of w_userId user (wallets db) = None \<or>
           (\<exists>w. row_of w_userId user (wallets db) = Some w \<and> \<not> guard w)"
  | (changed) w where "row_of w_userId user (wallets db) = Some w" and "guard w" and "res = Some (f w)"
      and "int4 (w_available (f w))" and "int4 (w_reserved (f w))"
      and "0 \<le> w_available (f w)" and "0 \<le> w_reserved (f w)"
      and "db' = db\<lparr> wallets := update_rows (\<lambda>r. w_userId r = user) f (wallets db) \<rparr>"
  using assms
  by (auto simp: updateWallet_def bindE_eq_Inr constraints_Inr wallet_checks_def
      split: option.splits if_splits)

lemma insertTransaction_Inr:
  assumes "insertTransaction t db = Inr db'"
  shows "db' = db\<lparr> credit_transactions := credit_transactions db @ [t] \<rparr>"
    and "t_id t \<notin> t_id ` set (credit_transactions db)" and "0 < t_amount t"
    and "t_orderId t = Some order \<Longrightarrow>
      \<forall>y \<in> set (credit_transactions db). t_orderId y = Some order \<longrightarrow> t_type y \<noteq> t_type t"
  using assms
  by (auto simp: insertTransaction_def bindE_eq_Inr constraints_Inr transaction_checks_def)

lemma insertEntries_Inr:
  assumes "insertEntries e1 e2 db = Inr db'"
  shows "db' = db\<lparr> ledger_entries := ledger_entries db @ [e1, e2] \<rparr>"
  using assms by (auto simp: insertEntries_def insertEntry_def bindE_eq_Inr)

lemma insertOperation_Inr:
  assumes "insertOperation x db = Inr db'"
  shows "db' = db\<lparr> credit_operations := credit_operations db @ [x] \<rparr>"
    and "\<forall>y \<in> set (credit_operations db). \<not> same_order (op_orderId x) (op_type x) y"
    and "0 < op_amount x"
proof -
  from assms have rows: "\<forall>(name, ok) \<in> set (operation_row_checks db x). ok"
    and key: "(op_orderId x, op_type x) \<notin> (\<lambda>y. (op_orderId y, op_type y)) ` set (credit_operations db)"
    and "db' = db\<lparr> credit_operations := credit_operations db @ [x] \<rparr>"
    unfolding insertOperation_def bindE_eq_Inr constraints_Inr by simp_all
  then show "db' = db\<lparr> credit_operations := credit_operations db @ [x] \<rparr>" by simp
  from rows show "0 < op_amount x" by (simp add: operation_row_checks_def)
  from key show "\<forall>y \<in> set (credit_operations db). \<not> same_order (op_orderId x) (op_type x) y"
    by (auto simp: same_order_def image_iff)
qed

lemma claimOperation_Inr:
  assumes "claimOperation x db = Inr (claimed, db')"
  obtains (taken) "\<not> claimed" and "db' = db"
      and "\<exists>y \<in> set (credit_operations db). same_order (op_orderId x) (op_type x) y"
  | (fresh) "claimed" and "db' = db\<lparr> credit_operations := credit_operations db @ [x] \<rparr>"
      and "\<forall>y \<in> set (credit_operations db). \<not> same_order (op_orderId x) (op_type x) y"
      and "0 < op_amount x"
proof (cases claimed)
  case True
  with assms have "insertOperation x db = Inr db'"
    by (auto simp: claimOperation_def bindE_eq_Inr split: if_splits)
  with insertOperation_Inr [OF this] True show ?thesis by (intro fresh) auto
next
  case False
  with assms have "db' = db" and "\<exists>y \<in> set (credit_operations db). same_order (op_orderId x) (op_type x) y"
    by (auto simp: claimOperation_def bindE_eq_Inr same_order_def split: if_splits)
  with False show ?thesis by (intro taken)
qed

text \<open>Finalizing the one pending operation of an order changes that row alone.\<close>

lemma updateOperation_last:
  assumes "updateOperation p f (db\<lparr> credit_operations := ops @ [x] \<rparr>) = Inr db'"
    and "\<And>y. y \<in> set ops \<Longrightarrow> \<not> p y" and "p x"
  shows "db' = db\<lparr> credit_operations := ops @ [f x] \<rparr>"
proof -
  have "update_rows p f ops = ops" by (rule update_rows_none) (rule assms(2))
  then have "update_rows p f (ops @ [x]) = ops @ [f x]"
    using assms(3) by (simp add: update_rows_def)
  moreover from assms(1) have "db' = db\<lparr> credit_operations := update_rows p f (ops @ [x]) \<rparr>"
    by (auto simp: updateOperation_def Let_def bindE_eq_Inr)
  ultimately show ?thesis by simp
qed

lemma insertAlert_Inr:
  "insertAlert a db = Inr db' \<Longrightarrow> db' = db\<lparr> credit_audit_alerts := credit_audit_alerts db @ [a] \<rparr>"
  by (auto simp: insertAlert_def split: if_splits)

lemma insertOutbox_economy:
  fixes db db' :: credit_db
  shows "insertOutboxEvent v now event db = Inr (i, db') \<Longrightarrow> economy db' = economy db"
  by (drule insertOutboxEvent_frame(2)) (rule economy_more(1))

section \<open>The operations implement the specification\<close>

lemma writeOutcome_economy: "writeOutcome v now input out db = Inr db' \<Longrightarrow> economy db' = economy db"
  by (auto simp: writeOutcome_def Let_def bindE_eq_Inr dest: insertOutbox_economy
      split: reservation_outcome.splits)

lemma writeOutcome_refusal:
  "writeOutcome v now input (Rejected Rej_INSUFFICIENT_CREDITS available) db = Inr db' \<Longrightarrow>
     \<exists>a. available = Some a \<and> nonnegative_int a"
  by (auto simp: writeOutcome_def Let_def bindE_eq_Inr reply_event_def refusal_payload_def
      elim!: insertOutboxEvent_row split: option.splits)

lemma writeTerminal_economy:
  "writeTransferOutcome v now input result db = Inr db' \<Longrightarrow> economy db' = economy db"
  "writeReleaseOutcome v now input result db = Inr db' \<Longrightarrow> economy db' = economy db"
  by (auto simp: writeTransferOutcome_def writeReleaseOutcome_def bindE_eq_Inr
      dest: insertOutbox_economy)

lemma writeTerminal_schema:
  "writeTransferOutcome v now input result db = Inr db' \<Longrightarrow>
     the (PAYLOAD_SCHEMAS CREDITS_TRANSFERRED) result"
  "writeReleaseOutcome v now input result db = Inr db' \<Longrightarrow>
     the (PAYLOAD_SCHEMAS CREDITS_RELEASED) result"
  by (auto simp: writeTransferOutcome_def writeReleaseOutcome_def bindE_eq_Inr reply_event_def
      elim!: insertOutboxEvent_row)

lemma issueInitial_effect:
  assumes "issueInitial a u now user db = Inr (new, db')"
  shows "credit_effect a (economy db) (economy db')"
proof (cases "user \<in> w_userId ` set (wallets db)")
  case True
  with assms show ?thesis
    by (auto simp: issueInitial_def Let_def bindE_eq_Inr intro: credit_effect.unmoved)
next
  case False
  let ?w = "\<lparr> w_userId = user, w_available = a, w_reserved = 0, w_createdAt = now, w_updatedAt = now \<rparr>"
  let ?t = "\<lparr> t_id = u 0, t_orderId = None, t_type = ISSUE, t_walletUserId = Some user,
              t_amount = a, t_occurredAt = now \<rparr>"
  from assms False obtain db1 e1 e2 where
    t: "insertTransaction ?t (db\<lparr> wallets := wallets db @ [?w] \<rparr>) = Inr db1"
    and e: "insertEntries e1 e2 db1 = Inr db'"
    and e1: "entry_of e1 (u 0) None PLATFORM_ISSUANCE DEBIT a"
    and e2: "entry_of e2 (u 0) (Some user) AVAILABLE CREDIT a"
    by (auto simp: issueInitial_def Let_def bindE_eq_Inr entry_of_def)
  have "economy db' = (economy db)\<lparr> e_wallets := e_wallets (economy db) @ [?w],
      e_transactions := e_transactions (economy db) @ [?t],
      e_entries := e_entries (economy db) @ [e1, e2] \<rparr>"
    unfolding insertEntries_Inr [OF e] insertTransaction_Inr(1) [OF t] by (simp add: economy_def)
  moreover have "credit_effect a (economy db) \<dots>"
    using False insertTransaction_Inr(2,3) [OF t] e1 e2
    by (intro credit_effect.issued) (auto simp: recorded_tx_def)
  ultimately show ?thesis by simp
qed

lemma replayOrRejectConflict_economy:
  "replayOrRejectConflict u now input db = Inr (out, db') \<Longrightarrow> economy db' = economy db"
  by (auto simp: replayOrRejectConflict_def Let_def bindE_eq_Inr dest!: insertAlert_Inr writeOutcome_economy
      split: option.splits if_splits)

text \<open>The operation \<open>reserve\<close> claims, and the rows it looks for when it finalizes it.\<close>

definition claim_of :: "time \<Rightarrow> reservation_input \<Rightarrow> credit_operation" where
  "claim_of now input =
     pending_operation now (ri_orderId input) RESERVE (ri_requesterId input) None (ri_amount input)"

lemma claim_of_simps [simp]:
  "op_orderId (claim_of now input) = ri_orderId input" "op_type (claim_of now input) = RESERVE"
  "op_requesterId (claim_of now input) = ri_requesterId input"
  "op_courierId (claim_of now input) = None" "op_amount (claim_of now input) = ri_amount input"
  by (simp_all add: claim_of_def pending_operation_def)

lemma refuse_effect:
  assumes "refuse u now input reason available (db\<lparr> credit_operations := credit_operations db @ [claim_of now input] \<rparr>)
      = Inr (out, db')"
    and fresh: "\<forall>y \<in> set (credit_operations db). \<not> same_order (ri_orderId input) RESERVE y"
    and "0 < ri_amount input" and "reason \<noteq> Rej_CONFLICTING_REQUEST"
    and "reason = Rej_AMOUNT_OUT_OF_RANGE \<Longrightarrow> available = None"
  shows "credit_effect alloc (economy db) (economy db')" and "out = Rejected reason available"
proof -
  let ?f = "\<lambda>x. x\<lparr> op_outcome := Op_REJECTED, op_rejectionReason := Some reason,
               op_availableAtDecision := available \<rparr>"
  from assms(1) obtain db1 where
    fin: "finishRejection input reason available
            (db\<lparr> credit_operations := credit_operations db @ [claim_of now input] \<rparr>) = Inr db1"
    and out: "writeOutcome (u 0) now input (Rejected reason available) db1 = Inr db'"
    and "out = Rejected reason available"
    by (auto simp: refuse_def bindE_eq_Inr)
  then show "out = Rejected reason available" by simp
  have "db1 = db\<lparr> credit_operations := credit_operations db @ [?f (claim_of now input)] \<rparr>"
    using fin fresh unfolding finishRejection_def
    by (elim updateOperation_last) (auto simp: same_order_def)
  with writeOutcome_economy [OF out] have "economy db' =
      (economy db)\<lparr> e_operations := e_operations (economy db) @ [?f (claim_of now input)] \<rparr>"
    by (simp add: economy_def)
  moreover have "rejection_recorded (?f (claim_of now input))"
    using writeOutcome_refusal [of "u 0" now input available db1 db'] out assms(4,5) by (cases reason) (auto simp: rejection_recorded_def)
  then have "credit_effect alloc (economy db) ((economy db)\<lparr> e_operations :=
      e_operations (economy db) @ [?f (claim_of now input)] \<rparr>)"
    using fresh assms(3) by (intro credit_effect.refused [of _ "ri_orderId input"]) auto
  ultimately show "credit_effect alloc (economy db) (economy db')" by simp
qed

lemma row_of_change: "row_of w_userId user ws = Some w \<Longrightarrow> w \<in> set ws \<and> w_userId w = user"
  by (rule row_of_Some)

lemma reserve_settles:
  assumes fresh: "\<forall>y \<in> set (credit_operations db). \<not> same_order (ri_orderId input) RESERVE y"
    and pos: "0 < ri_amount input"
    and upd: "updateWallet (ri_requesterId input) (\<lambda>w. ri_amount input \<le> w_available w)
       (\<lambda>w. w\<lparr> w_available := w_available w - ri_amount input,
               w_reserved := w_reserved w + ri_amount input, w_updatedAt := now \<rparr>)
       (db\<lparr> credit_operations := credit_operations db @ [claim_of now input] \<rparr>) = Inr (Some rw, db2)"
    and t: "insertTransaction (order_transaction (u 0) now RESERVE (ri_orderId input) (ri_requesterId input)
       (ri_amount input)) db2 = Inr db3"
    and e: "insertEntries
       (wallet_entry (u 1) now (u 0) 1 (ri_requesterId input) AVAILABLE DEBIT (ri_amount input) rw)
       (wallet_entry (u 2) now (u 0) 2 (ri_requesterId input) RESERVED CREDIT (ri_amount input) rw) db3 = Inr db4"
    and o: "updateOperation
       (\<lambda>x. op_orderId x = ri_orderId input \<and> op_type x = RESERVE \<and> op_requesterId x = ri_requesterId input)
       (\<lambda>x. x\<lparr> op_outcome := SUCCEEDED, op_transactionId := Some (u 0) \<rparr>) db4 = Inr db5"
    and out: "writeOutcome v now input result db5 = Inr db'"
  shows "credit_effect alloc (economy db) (economy db')"
proof -
  let ?order = "ri_orderId input" let ?user = "ri_requesterId input" let ?a = "ri_amount input"
  let ?claim = "claim_of now input"
  let ?g = "\<lambda>x. x\<lparr> op_outcome := SUCCEEDED, op_transactionId := Some (u 0) \<rparr>"
  let ?t = "order_transaction (u 0) now RESERVE ?order ?user ?a"
  let ?e1 = "wallet_entry (u 1) now (u 0) 1 ?user AVAILABLE DEBIT ?a rw"
  let ?e2 = "wallet_entry (u 2) now (u 0) 2 ?user RESERVED CREDIT ?a rw"
  from upd obtain w where w: "row_of w_userId ?user (wallets db) = Some w" "?a \<le> w_available w"
    "db2 = db\<lparr> credit_operations := credit_operations db @ [?claim],
                wallets := change_wallet ?user now (- ?a) ?a (wallets db) \<rparr>"
    by (cases rule: updateWallet_Inr) (auto simp: change_wallet_def credited_def [abs_def])
  let ?db = "db\<lparr> wallets := change_wallet ?user now (- ?a) ?a (wallets db),
      credit_transactions := credit_transactions db @ [?t], ledger_entries := ledger_entries db @ [?e1, ?e2] \<rparr>"
  have db4: "db4 = ?db\<lparr> credit_operations := credit_operations db @ [?claim] \<rparr>"
    unfolding insertEntries_Inr [OF e] insertTransaction_Inr(1) [OF t] w(3) by simp
  from o [unfolded db4] have "db5 = ?db\<lparr> credit_operations := credit_operations db @ [?g ?claim] \<rparr>"
    by (rule updateOperation_last) (use fresh in \<open>auto simp: same_order_def\<close>)
  with writeOutcome_economy [OF out] have "economy db' =
      (economy db)\<lparr> e_wallets := change_wallet ?user now (- ?a) ?a (e_wallets (economy db)),
        e_transactions := e_transactions (economy db) @ [?t],
        e_entries := e_entries (economy db) @ [?e1, ?e2],
        e_operations := e_operations (economy db) @ [?g ?claim] \<rparr>"
    by (simp add: economy_def)
  moreover have "credit_effect alloc (economy db) \<dots>"
  proof (rule credit_effect.reserved [where order = ?order and w = w and i = "u 0"])
    show "w \<in> set (e_wallets (economy db))" "w_userId w = ?user"
      using row_of_Some [OF w(1)] by simp_all
    show "u 0 \<notin> t_id ` set (e_transactions (economy db))"
      and "\<forall>y \<in> set (e_transactions (economy db)). t_orderId y = Some ?order \<longrightarrow> t_type y \<noteq> RESERVE"
      using insertTransaction_Inr(2) [OF t] insertTransaction_Inr(4) [OF t, of ?order] w(3)
      by (simp_all add: order_transaction_def)
  qed (use w(2) fresh pos in
      \<open>simp_all add: recorded_tx_def order_transaction_def entry_of_def wallet_entry_def recorded_op_def\<close>)
  ultimately show ?thesis by simp
qed

lemma reserve_cases:
  assumes "reserve u now input db = Inr (out, db')"
  obtains (replayed) "replayOrRejectConflict u now input db = Inr (out, db')"
  | (refused) reason available where
      "\<forall>y \<in> set (credit_operations db). \<not> same_order (ri_orderId input) RESERVE y"
      "0 < ri_amount input" "reason \<noteq> Rej_CONFLICTING_REQUEST"
      "reason = Rej_AMOUNT_OUT_OF_RANGE \<Longrightarrow> available = None"
      "refuse u now input reason available
         (db\<lparr> credit_operations := credit_operations db @ [claim_of now input] \<rparr>) = Inr (out, db')"
  | (moved) rw db2 db3 db4 db5 where
      "\<forall>y \<in> set (credit_operations db). \<not> same_order (ri_orderId input) RESERVE y"
      "0 < ri_amount input"
      "updateWallet (ri_requesterId input) (\<lambda>w. ri_amount input \<le> w_available w)
         (\<lambda>w. w\<lparr> w_available := w_available w - ri_amount input,
                 w_reserved := w_reserved w + ri_amount input, w_updatedAt := now \<rparr>)
         (db\<lparr> credit_operations := credit_operations db @ [claim_of now input] \<rparr>) = Inr (Some rw, db2)"
      "insertTransaction (order_transaction (u 0) now RESERVE (ri_orderId input) (ri_requesterId input)
         (ri_amount input)) db2 = Inr db3"
      "insertEntries
         (wallet_entry (u 1) now (u 0) 1 (ri_requesterId input) AVAILABLE DEBIT (ri_amount input) rw)
         (wallet_entry (u 2) now (u 0) 2 (ri_requesterId input) RESERVED CREDIT (ri_amount input) rw) db3 = Inr db4"
      "updateOperation
         (\<lambda>x. op_orderId x = ri_orderId input \<and> op_type x = RESERVE \<and> op_requesterId x = ri_requesterId input)
         (\<lambda>x. x\<lparr> op_outcome := SUCCEEDED, op_transactionId := Some (u 0) \<rparr>) db4 = Inr db5"
      "writeOutcome (u 3) now input (Reserved (u 0)) db5 = Inr db'"
proof -
  let ?claim = "claim_of now input"
  from assms obtain claimed db1 where claim: "claimOperation ?claim db = Inr (claimed, db1)"
    by (auto simp: reserve_def claim_of_def bindE_eq_Inr)
  from claim show ?thesis
  proof (cases rule: claimOperation_Inr)
    case taken
    with assms claim have "replayOrRejectConflict u now input db = Inr (out, db')"
      by (simp add: reserve_def claim_of_def)
    then show ?thesis by (rule replayed)
  next
    case fresh
    let ?user = "ri_requesterId input" let ?a = "ri_amount input"
    let ?f = "\<lambda>w. w\<lparr> w_available := w_available w - ?a, w_reserved := w_reserved w + ?a, w_updatedAt := now \<rparr>"
    note refused' = refused [OF fresh(3,4) [simplified]]
    show ?thesis
    proof (cases "MAX_RESERVATION_AMOUNT < ?a")
      case True
      with assms claim fresh(1,2) show ?thesis
        by (intro refused' [of Rej_AMOUNT_OUT_OF_RANGE None]) (simp_all add: reserve_def claim_of_def)
    next
      case False
      with assms claim fresh(1) obtain changed db2 where
        upd: "updateWallet ?user (\<lambda>w. ?a \<le> w_available w) ?f db1 = Inr (changed, db2)"
        by (auto simp: reserve_def claim_of_def bindE_eq_Inr)
      from upd show ?thesis
      proof (cases rule: updateWallet_Inr)
        case none
        with assms claim fresh(1,2) False upd obtain w :: wallet_row where
          "refuse u now input Rej_INSUFFICIENT_CREDITS (Some (w_available w)) db1 = Inr (out, db')"
          by (auto simp: reserve_def claim_of_def split: option.splits)
        with fresh(2) show ?thesis
          by (intro refused' [of Rej_INSUFFICIENT_CREDITS "Some (w_available w)"]) simp_all
      next
        case (changed w)
        note settles = moved [OF fresh(3,4) [simplified] upd [unfolded fresh(2) changed(3)]]
        from assms claim fresh(1) False upd changed(3) show ?thesis
          by (auto simp: reserve_def claim_of_def bindE_eq_Inr simp del: One_nat_def intro: settles)
      qed
    qed
  qed
qed

lemma reserve_effect:
  assumes "reserve u now input db = Inr (out, db')"
  shows "credit_effect alloc (economy db) (economy db')"
  using assms
proof (cases rule: reserve_cases)
  case replayed
  then show ?thesis using replayOrRejectConflict_economy [of u now input db out db'] by (simp add: credit_effect.unmoved)
next
  case (refused reason available)
  from refused(5,1-4) show ?thesis by (rule refuse_effect(1))
next
  case (moved rw db2 db3 db4 db5)
  then show ?thesis by (rule reserve_settles)
qed

lemma rejectTerminal_economy:
  "rejectTerminal v now input courier ty reason details db = Inr (out, db') \<Longrightarrow>
     economy db' = economy db \<and> out = Terminal_rejected reason"
  by (auto simp: rejectTerminal_def bindE_eq_Inr dest!: insertAlert_Inr)

lemma replay_economy:
  "replayTransferOrReject u now prior input db = Inr (out, db') \<Longrightarrow> economy db' = economy db"
  "replayReleaseOrReject u now prior input' db = Inr (out, db') \<Longrightarrow> economy db' = economy db"
  by (auto simp: replayTransferOrReject_def replayReleaseOrReject_def bindE_eq_Inr
      dest!: rejectTerminal_economy writeTerminal_economy split: if_splits)

lemma lockReservation_Inr:
  "lockReservation order db = Inr r \<Longrightarrow>
     r \<in> set (credit_operations db) \<and> same_order order RESERVE r \<and> op_outcome r \<noteq> PENDING"
  by (auto simp: lockReservation_def same_order_def find_Some_iff split: option.splits if_splits)

lemma validateReservation_None:
  "validateReservation r input = None \<longleftrightarrow>
     op_outcome r = SUCCEEDED \<and> op_transactionId r \<noteq> None \<and>
     op_requesterId r = ti_requesterId input \<and> op_amount r = ti_amount input"
  by (auto simp: validateReservation_def split: if_splits)

lemma locked_reserved_for:
  "lockReservation (ti_orderId input) db = Inr r \<Longrightarrow> validateReservation r input = None \<Longrightarrow>
     reserved_for (economy db) (ti_orderId input) (ti_requesterId input) (ti_amount input)"
  using lockReservation_Inr [of "ti_orderId input" db r]
  by (auto simp: validateReservation_None reserved_for_def same_order_def)

lemma findTerminalOperation_None:
  "findTerminalOperation order db = None \<Longrightarrow> \<not> settled_op (economy db) order"
  by (auto simp: findTerminalOperation_def settled_op_def find_None_iff)

lemma findTerminalOperation_Some:
  "findTerminalOperation order db = Some x \<Longrightarrow>
     x \<in> set (credit_operations db) \<and> op_orderId x = order \<and> terminal_type (op_type x)"
  by (auto simp: findTerminalOperation_def find_Some_iff)

text \<open>
  The branches of \<open>release\<close> and \<open>transfer\<close>: refused or replayed, which move nothing, or the
  settlement itself, with the statements it is made of.
\<close>

lemma release_cases:
  assumes "release u now input db = Inr (out, db')"
  obtains (refused) r reason details where
      "lockReservation (ti_orderId input) db = Inr r" "validateReservation r input \<noteq> None"
      "rejectTerminal (u 0) now input None RELEASE reason details db = Inr (out, db')"
  | (replayed) prior where
      "reserved_for (economy db) (ti_orderId input) (ti_requesterId input) (ti_amount input)"
      "findTerminalOperation (ti_orderId input) db = Some prior"
      "replayReleaseOrReject u now prior input db = Inr (out, db')"
  | (moved) db1 rw db2 db3 db4 db5 result where
      "reserved_for (economy db) (ti_orderId input) (ti_requesterId input) (ti_amount input)"
      "\<not> settled_op (economy db) (ti_orderId input)"
      "insertOperation (pending_operation now (ti_orderId input) RELEASE (ti_requesterId input) None
         (ti_amount input)) db = Inr db1"
      "updateWallet (ti_requesterId input) (\<lambda>w. ti_amount input \<le> w_reserved w)
         (\<lambda>w. w\<lparr> w_available := w_available w + ti_amount input,
                 w_reserved := w_reserved w - ti_amount input, w_updatedAt := now \<rparr>) db1 = Inr (Some rw, db2)"
      "insertTransaction (order_transaction (u 0) now RELEASE (ti_orderId input) (ti_requesterId input)
         (ti_amount input)) db2 = Inr db3"
      "insertEntries
         (wallet_entry (u 1) now (u 0) 1 (ti_requesterId input) RESERVED DEBIT (ti_amount input) rw)
         (wallet_entry (u 2) now (u 0) 2 (ti_requesterId input) AVAILABLE CREDIT (ti_amount input) rw)
         db3 = Inr db4"
      "result = CreditsReleasedPayload (ti_orderId input) (ti_requesterId input) (ti_amount input) (u 0)
         (balance rw)"
      "finishTerminal (ti_orderId input) RELEASE (u 0) result db4 = Inr db5"
      "writeReleaseOutcome (u 3) now input result db5 = Inr db'"
      "out = Settled result"
proof -
  from assms obtain r where lock: "lockReservation (ti_orderId input) db = Inr r"
    by (auto simp: release_def Let_def bindE_eq_Inr)
  show ?thesis
  proof (cases "validateReservation r input")
    case (Some bad)
    with assms lock show ?thesis
      by (auto simp: release_def Let_def intro: refused [OF lock] split: prod.splits)
  next
    case None
    note live = locked_reserved_for [OF lock None]
    show ?thesis
    proof (cases "findTerminalOperation (ti_orderId input) db")
      case (Some prior)
      with assms lock None show ?thesis
        by (intro replayed [OF live Some]) (simp add: release_def Let_def)
    next
      case none: None
      note fresh = findTerminalOperation_None [OF none]
      from assms lock None none show ?thesis
        by (auto simp: release_def Let_def bindE_eq_Inr simp del: One_nat_def split: option.splits
            intro: moved [OF live fresh])
    qed
  qed
qed

lemma release_effect:
  assumes "release u now input db = Inr (out, db')"
  shows "credit_effect alloc (economy db) (economy db')"
  using assms
proof (cases rule: release_cases)
  case (refused r reason details)
  then show ?thesis by (auto dest!: rejectTerminal_economy intro: credit_effect.unmoved)
next
  case (replayed prior)
  then show ?thesis by (auto dest!: replay_economy intro: credit_effect.unmoved)
next
  case (moved db1 rw db2 db3 db4 db5 result)
  let ?order = "ti_orderId input" let ?user = "ti_requesterId input" let ?a = "ti_amount input"
  let ?op = "pending_operation now ?order RELEASE ?user None ?a"
  let ?g = "\<lambda>x. x\<lparr> op_outcome := SUCCEEDED, op_transactionId := Some (u 0), op_resultPayload := Some result \<rparr>"
  let ?t = "order_transaction (u 0) now RELEASE ?order ?user ?a"
  let ?e1 = "wallet_entry (u 1) now (u 0) 1 ?user RESERVED DEBIT ?a rw"
  let ?e2 = "wallet_entry (u 2) now (u 0) 2 ?user AVAILABLE CREDIT ?a rw"
  note op = insertOperation_Inr [OF moved(3)]
  from moved(4) obtain w where w: "row_of w_userId ?user (wallets db1) = Some w" "?a \<le> w_reserved w"
    "db2 = db1\<lparr> wallets := change_wallet ?user now ?a (- ?a) (wallets db1) \<rparr>"
    by (cases rule: updateWallet_Inr) (auto simp: change_wallet_def credited_def [abs_def])
  let ?db = "db\<lparr> wallets := change_wallet ?user now ?a (- ?a) (wallets db),
      credit_transactions := credit_transactions db @ [?t], ledger_entries := ledger_entries db @ [?e1, ?e2] \<rparr>"
  have db4: "db4 = ?db\<lparr> credit_operations := credit_operations db @ [?op] \<rparr>"
    unfolding insertEntries_Inr [OF moved(6)] insertTransaction_Inr(1) [OF moved(5)] w(3) op(1) by simp
  from moved(8) [unfolded db4 finishTerminal_def]
  have "db5 = ?db\<lparr> credit_operations := credit_operations db @ [?g ?op] \<rparr>"
    by (rule updateOperation_last) (use op(2) in \<open>auto simp: same_order_def pending_operation_def\<close>)
  with writeTerminal_economy(2) [OF moved(9)] have "economy db' =
      (economy db)\<lparr> e_wallets := change_wallet ?user now ?a (- ?a) (e_wallets (economy db)),
        e_transactions := e_transactions (economy db) @ [?t],
        e_entries := e_entries (economy db) @ [?e1, ?e2],
        e_operations := e_operations (economy db) @ [?g ?op] \<rparr>"
    by (simp add: economy_def)
  moreover have "credit_effect alloc (economy db) \<dots>"
  proof (rule credit_effect.released [where order = ?order and rw = w and i = "u 0" and rb = "balance rw"])
    show "w \<in> set (e_wallets (economy db))" "w_userId w = ?user"
      using row_of_Some [OF w(1)] op(1) by simp_all
    show "u 0 \<notin> t_id ` set (e_transactions (economy db))"
      using insertTransaction_Inr(2) [OF moved(5)] w(3) op(1) by (simp add: order_transaction_def)
    show "the (PAYLOAD_SCHEMAS CREDITS_RELEASED) (the (op_resultPayload (?g ?op)))"
      using writeTerminal_schema(2) [OF moved(9)] by simp
  qed (use w(2) op(3) moved(1,2,7) in
      \<open>simp_all add: recorded_tx_def order_transaction_def entry_of_def wallet_entry_def recorded_op_def
         pending_operation_def\<close>)
  ultimately show ?thesis by simp
qed

lemma transfer_cases:
  assumes "transfer u now input db = Inr (out, db')"
  obtains (refused) r reason details where
      "lockReservation (ti_orderId input) db = Inr r"
      "\<not> (validateReservation r input = None \<and> ti_requesterId input \<noteq> ti_courierId input)"
      "rejectTerminal (u 0) now input (Some (ti_courierId input)) TRANSFER reason details db = Inr (out, db')"
  | (replayed) prior where
      "reserved_for (economy db) (ti_orderId input) (ti_requesterId input) (ti_amount input)"
      "findTerminalOperation (ti_orderId input) db = Some prior"
      "replayTransferOrReject u now prior input db = Inr (out, db')"
  | (moved) db1 rw db2 cw db3 db4 db5 db6 result where
      "reserved_for (economy db) (ti_orderId input) (ti_requesterId input) (ti_amount input)"
      "\<not> settled_op (economy db) (ti_orderId input)"
      "ti_requesterId input \<noteq> ti_courierId input"
      "insertOperation (pending_operation now (ti_orderId input) TRANSFER (ti_requesterId input)
         (Some (ti_courierId input)) (ti_amount input)) db = Inr db1"
      "updateWallet (ti_requesterId input) (\<lambda>w. ti_amount input \<le> w_reserved w)
         (\<lambda>w. w\<lparr> w_reserved := w_reserved w - ti_amount input, w_updatedAt := now \<rparr>) db1 = Inr (Some rw, db2)"
      "updateWallet (ti_courierId input) (\<lambda>_. True)
         (\<lambda>w. w\<lparr> w_available := w_available w + ti_amount input, w_updatedAt := now \<rparr>) db2 = Inr (Some cw, db3)"
      "insertTransaction (order_transaction (u 0) now TRANSFER (ti_orderId input) (ti_requesterId input)
         (ti_amount input)) db3 = Inr db4"
      "insertEntries
         (wallet_entry (u 1) now (u 0) 1 (ti_requesterId input) RESERVED DEBIT (ti_amount input) rw)
         (wallet_entry (u 2) now (u 0) 2 (ti_courierId input) AVAILABLE CREDIT (ti_amount input) cw)
         db4 = Inr db5"
      "result = CreditsTransferredPayload (ti_orderId input) (ti_requesterId input) (ti_amount input)
         (ti_courierId input) (u 0) (balance rw) (balance cw)"
      "finishTerminal (ti_orderId input) TRANSFER (u 0) result db5 = Inr db6"
      "writeTransferOutcome (u 3) now input result db6 = Inr db'"
      "out = Settled result"
proof -
  from assms obtain r where lock: "lockReservation (ti_orderId input) db = Inr r"
    by (auto simp: transfer_def Let_def bindE_eq_Inr)
  show ?thesis
  proof (cases "validateReservation r input = None \<and> ti_requesterId input \<noteq> ti_courierId input")
    case False
    with assms lock show ?thesis
      by (auto simp: transfer_def Let_def intro: refused [OF lock False]
          split: prod.splits option.splits if_splits)
  next
    case True
    then have None: "validateReservation r input = None" and diff: "ti_requesterId input \<noteq> ti_courierId input"
      by simp_all
    note live = locked_reserved_for [OF lock None]
    show ?thesis
    proof (cases "findTerminalOperation (ti_orderId input) db")
      case (Some prior)
      with assms lock None diff show ?thesis
        by (intro replayed [OF live Some]) (simp add: transfer_def Let_def)
    next
      case none: None
      note fresh = findTerminalOperation_None [OF none]
      from assms lock None none diff show ?thesis
        by (auto simp: transfer_def Let_def bindE_eq_Inr simp del: One_nat_def split: option.splits if_splits
            intro: moved [OF live fresh diff])
    qed
  qed
qed

lemma transfer_effect:
  assumes "transfer u now input db = Inr (out, db')"
  shows "credit_effect alloc (economy db) (economy db')"
  using assms
proof (cases rule: transfer_cases)
  case (refused r reason details)
  then show ?thesis by (auto dest!: rejectTerminal_economy intro: credit_effect.unmoved)
next
  case (replayed prior)
  then show ?thesis by (auto dest!: replay_economy intro: credit_effect.unmoved)
next
  case (moved db1 rw db2 cw db3 db4 db5 db6 result)
  let ?order = "ti_orderId input" let ?user = "ti_requesterId input" let ?a = "ti_amount input"
  let ?courier = "ti_courierId input"
  let ?op = "pending_operation now ?order TRANSFER ?user (Some ?courier) ?a"
  let ?g = "\<lambda>x. x\<lparr> op_outcome := SUCCEEDED, op_transactionId := Some (u 0), op_resultPayload := Some result \<rparr>"
  let ?t = "order_transaction (u 0) now TRANSFER ?order ?user ?a"
  let ?e1 = "wallet_entry (u 1) now (u 0) 1 ?user RESERVED DEBIT ?a rw"
  let ?e2 = "wallet_entry (u 2) now (u 0) 2 ?courier AVAILABLE CREDIT ?a cw"
  let ?ws = "change_wallet ?courier now ?a 0 (change_wallet ?user now 0 (- ?a) (wallets db))"
  note op = insertOperation_Inr [OF moved(4)]
  from moved(5) obtain w where w: "row_of w_userId ?user (wallets db1) = Some w" "?a \<le> w_reserved w"
    "db2 = db1\<lparr> wallets := change_wallet ?user now 0 (- ?a) (wallets db1) \<rparr>"
    by (cases rule: updateWallet_Inr) (auto simp: change_wallet_def credited_def [abs_def])
  from moved(6) obtain c where c: "row_of w_userId ?courier (wallets db2) = Some c"
    "db3 = db2\<lparr> wallets := change_wallet ?courier now ?a 0 (wallets db2) \<rparr>"
    by (cases rule: updateWallet_Inr) (auto simp: change_wallet_def credited_def [abs_def])
  let ?db = "db\<lparr> wallets := ?ws, credit_transactions := credit_transactions db @ [?t],
      ledger_entries := ledger_entries db @ [?e1, ?e2] \<rparr>"
  have db5: "db5 = ?db\<lparr> credit_operations := credit_operations db @ [?op] \<rparr>"
    unfolding insertEntries_Inr [OF moved(8)] insertTransaction_Inr(1) [OF moved(7)] c(2) w(3) op(1) by simp
  from moved(10) [unfolded db5 finishTerminal_def]
  have "db6 = ?db\<lparr> credit_operations := credit_operations db @ [?g ?op] \<rparr>"
    by (rule updateOperation_last) (use op(2) in \<open>auto simp: same_order_def pending_operation_def\<close>)
  with writeTerminal_economy(1) [OF moved(11)] have "economy db' =
      (economy db)\<lparr> e_wallets := change_wallet ?courier now ?a 0
          (change_wallet ?user now 0 (- ?a) (e_wallets (economy db))),
        e_transactions := e_transactions (economy db) @ [?t],
        e_entries := e_entries (economy db) @ [?e1, ?e2],
        e_operations := e_operations (economy db) @ [?g ?op] \<rparr>"
    by (simp add: economy_def)
  moreover have "credit_effect alloc (economy db) \<dots>"
  proof (rule credit_effect.transferred [where order = ?order and rw = w and i = "u 0"
        and rb = "balance rw" and cb = "balance cw"])
    show "w \<in> set (e_wallets (economy db))" "w_userId w = ?user"
      using row_of_Some [OF w(1)] op(1) by simp_all
    have "?courier \<in> w_userId ` set (wallets db2)" using row_of_Some [OF c(1)] by force
    then show "?courier \<in> w_userId ` set (e_wallets (economy db))" using w(3) op(1) by simp
    show "u 0 \<notin> t_id ` set (e_transactions (economy db))"
      using insertTransaction_Inr(2) [OF moved(7)] c(2) w(3) op(1) by (simp add: order_transaction_def)
    show "the (PAYLOAD_SCHEMAS CREDITS_TRANSFERRED) (the (op_resultPayload (?g ?op)))"
      using writeTerminal_schema(1) [OF moved(11)] by simp
  qed (use w(2) op(3) moved(1,2,3,9) in
      \<open>simp_all add: recorded_tx_def order_transaction_def entry_of_def wallet_entry_def recorded_op_def
         pending_operation_def\<close>)
  ultimately show ?thesis by simp
qed

end
