(* ===== verification/Credit_Invariants.thy ===== *)
theory Credit_Invariants
  imports Credit_Effects
begin

text \<open>
  The closed-economy checks (credit-service/src/credits/invariants.ts) and why they never report
  anything: an invariant of the economy that every movement of the specification keeps.
\<close>

section \<open>The checks\<close>

text \<open>A violation carries the values its message shows.\<close>

datatype violation =
    Ledger_mismatch ident int int int int
  | Negative_wallet ident
  | Unbalanced ident int int
  | Not_conserved int int
  | Reserved_times ident nat
  | Terminal_outcomes ident nat
  | Terminal_unreserved ident
  | Unbacked ident int int

definition ledger_sum :: "account \<Rightarrow> ident \<Rightarrow> ledger_entry list \<Rightarrow> int" where
  "ledger_sum acc user =
     sum_where (\<lambda>e. le_walletUserId e = Some user \<and> le_account e = acc) signed_amount"

definition walletLedgerViolations :: "credit_db \<Rightarrow> violation list" where
  "walletLedgerViolations db =
     map (\<lambda>w. Ledger_mismatch (w_userId w) (w_available w) (w_reserved w)
                (ledger_sum AVAILABLE (w_userId w) (ledger_entries db))
                (ledger_sum RESERVED (w_userId w) (ledger_entries db)))
       (sort_key w_userId (filter (\<lambda>w.
          w_available w \<noteq> ledger_sum AVAILABLE (w_userId w) (ledger_entries db) \<or>
          w_reserved w \<noteq> ledger_sum RESERVED (w_userId w) (ledger_entries db)) (wallets db)))"

text \<open>An \<open>integer\<close> column holds no fraction, so only the sign can be wrong.\<close>

definition balanceViolations :: "credit_db \<Rightarrow> violation list" where
  "balanceViolations db =
     map (Negative_wallet \<circ> w_userId) (filter (\<lambda>w. w_available w < 0 \<or> w_reserved w < 0) (wallets db))"

definition side_sum :: "direction \<Rightarrow> ident \<Rightarrow> ledger_entry list \<Rightarrow> int" where
  "side_sum dir i = sum_where (\<lambda>e. le_transactionId e = i \<and> le_direction e = dir) le_amount"

definition unbalancedTransactionViolations :: "credit_db \<Rightarrow> violation list" where
  "unbalancedTransactionViolations db =
     map (\<lambda>i. Unbalanced i (side_sum DEBIT i (ledger_entries db)) (side_sum CREDIT i (ledger_entries db)))
       (filter (\<lambda>i. side_sum DEBIT i (ledger_entries db) \<noteq> side_sum CREDIT i (ledger_entries db))
          (remdups (map le_transactionId (ledger_entries db))))"

definition held :: "wallet_row list \<Rightarrow> int" where
  "held ws = sum_list (map (\<lambda>w. w_available w + w_reserved w) ws)"

definition issued_total :: "credit_transaction list \<Rightarrow> int" where
  "issued_total = sum_where (\<lambda>t. t_type t = ISSUE) t_amount"

definition conservationViolations :: "credit_db \<Rightarrow> violation list" where
  "conservationViolations db =
     (let h = held (wallets db); i = issued_total (credit_transactions db)
      in if h = i then [] else [Not_conserved h i])"

definition reserves :: "ident \<Rightarrow> credit_transaction list \<Rightarrow> credit_transaction list" where
  "reserves order = filter (\<lambda>t. t_orderId t = Some order \<and> t_type t = RESERVE)"

definition terminals :: "ident \<Rightarrow> credit_transaction list \<Rightarrow> credit_transaction list" where
  "terminals order = filter (\<lambda>t. t_orderId t = Some order \<and> terminal_type (t_type t))"

definition orderOutcomeViolations :: "credit_db \<Rightarrow> violation list" where
  "orderOutcomeViolations db =
     concat (map (\<lambda>order.
       let r = length (reserves order (credit_transactions db));
           n = length (terminals order (credit_transactions db)) in
       (if 1 < r then [Reserved_times order r] else []) @
       (if 1 < n then [Terminal_outcomes order n] else []) @
       (if 0 < n \<and> r = 0 then [Terminal_unreserved order] else []))
       (remdups (List.map_filter t_orderId (credit_transactions db))))"

definition settled :: "credit_transaction list \<Rightarrow> credit_transaction \<Rightarrow> bool" where
  "settled ts t \<longleftrightarrow>
     (\<exists>s \<in> set ts. t_orderId t \<noteq> None \<and> t_orderId s = t_orderId t \<and> terminal_type (t_type s))"

definition open_reservations :: "ident \<Rightarrow> credit_transaction list \<Rightarrow> int" where
  "open_reservations user ts =
     sum_where (\<lambda>t. t_type t = RESERVE \<and> \<not> settled ts t \<and> t_walletUserId t = Some user) t_amount ts"

definition reservedBackingViolations :: "credit_db \<Rightarrow> violation list" where
  "reservedBackingViolations db =
     map (\<lambda>w. Unbacked (w_userId w) (w_reserved w)
                (open_reservations (w_userId w) (credit_transactions db)))
       (sort_key w_userId (filter (\<lambda>w.
          w_reserved w \<noteq> open_reservations (w_userId w) (credit_transactions db)) (wallets db)))"

definition CREDIT_INVARIANTS :: "(credit_db \<Rightarrow> violation list) list" where
  "CREDIT_INVARIANTS =
     [balanceViolations, unbalancedTransactionViolations, conservationViolations,
      orderOutcomeViolations, reservedBackingViolations]"

definition creditEconomyViolations :: "credit_db \<Rightarrow> violation list" where
  "creditEconomyViolations db = concat (map (\<lambda>check. check db) CREDIT_INVARIANTS)"

section \<open>The invariant\<close>

definition wallets_ok :: "economy \<Rightarrow> bool" where
  "wallets_ok e \<longleftrightarrow>
     distinct (map w_userId (e_wallets e)) \<and>
     (\<forall>w \<in> set (e_wallets e). 0 \<le> w_available w \<and> 0 \<le> w_reserved w)"

definition transactions_ok :: "economy \<Rightarrow> bool" where
  "transactions_ok e \<longleftrightarrow>
     distinct (map t_id (e_transactions e)) \<and>
     (\<forall>t \<in> set (e_transactions e). 0 < t_amount t \<and> (t_type t = ISSUE) = (t_orderId t = None) \<and>
        (\<exists>user. t_walletUserId t = Some user \<and> user \<in> w_userId ` set (e_wallets e))) \<and>
     (\<forall>order. length (reserves order (e_transactions e)) \<le> 1 \<and>
              length (terminals order (e_transactions e)) \<le> 1)"

definition ledger_ok :: "economy \<Rightarrow> bool" where
  "ledger_ok e \<longleftrightarrow>
     (\<forall>x \<in> set (e_entries e). \<forall>user. le_walletUserId x = Some user \<longrightarrow>
        user \<in> w_userId ` set (e_wallets e)) \<and>
     (\<forall>w \<in> set (e_wallets e). w_available w = ledger_sum AVAILABLE (w_userId w) (e_entries e) \<and>
        w_reserved w = ledger_sum RESERVED (w_userId w) (e_entries e)) \<and>
     (\<forall>i. side_sum DEBIT i (e_entries e) = side_sum CREDIT i (e_entries e))"

definition conserved :: "economy \<Rightarrow> bool" where
  "conserved e \<longleftrightarrow> held (e_wallets e) = issued_total (e_transactions e)"

text \<open>
  What an operation records is what a transaction did: the two tables describe the same
  movements.
\<close>

definition records :: "credit_operation \<Rightarrow> credit_transaction \<Rightarrow> bool" where
  "records x t \<longleftrightarrow>
     op_outcome x = SUCCEEDED \<and> op_transactionId x = Some (t_id t) \<and>
     t_orderId t = Some (op_orderId x) \<and> t_type t = op_type x \<and>
     t_walletUserId t = Some (op_requesterId x) \<and> t_amount t = op_amount x"

definition result_recorded :: "credit_operation \<Rightarrow> bool" where
  "result_recorded x \<longleftrightarrow>
     (op_type x = TRANSFER \<longrightarrow>
        (\<exists>courier i rb cb. op_courierId x = Some courier \<and> courier \<noteq> op_requesterId x \<and>
           op_transactionId x = Some i \<and>
           op_resultPayload x = Some (CreditsTransferredPayload (op_orderId x) (op_requesterId x)
             (op_amount x) courier i rb cb) \<and>
           the (PAYLOAD_SCHEMAS CREDITS_TRANSFERRED) (the (op_resultPayload x)))) \<and>
     (op_type x = RELEASE \<longrightarrow>
        (\<exists>i rb. op_transactionId x = Some i \<and>
           op_resultPayload x = Some (CreditsReleasedPayload (op_orderId x) (op_requesterId x)
             (op_amount x) i rb) \<and>
           the (PAYLOAD_SCHEMAS CREDITS_RELEASED) (the (op_resultPayload x))))"

definition operations_ok :: "economy \<Rightarrow> bool" where
  "operations_ok e \<longleftrightarrow>
     (\<forall>x \<in> set (e_operations e).
        op_outcome x \<noteq> PENDING \<and> op_type x \<noteq> ISSUE \<and> 0 < op_amount x \<and>
        (terminal_type (op_type x) \<longrightarrow> op_outcome x = SUCCEEDED) \<and>
        (op_outcome x = SUCCEEDED \<longrightarrow> (\<exists>t \<in> set (e_transactions e). records x t)) \<and>
        (terminal_type (op_type x) \<longrightarrow>
           reserved_for e (op_orderId x) (op_requesterId x) (op_amount x)) \<and>
        (op_outcome x = Op_REJECTED \<longrightarrow> rejection_recorded x) \<and>
        result_recorded x) \<and>
     (\<forall>t \<in> set (e_transactions e). t_type t \<noteq> ISSUE \<longrightarrow> (\<exists>x \<in> set (e_operations e). records x t)) \<and>
     (\<forall>order. length (filter (same_order order RESERVE) (e_operations e)) \<le> 1 \<and>
        length (filter (\<lambda>x. op_orderId x = order \<and> terminal_type (op_type x)) (e_operations e)) \<le> 1)"

definition backed :: "economy \<Rightarrow> bool" where
  "backed e \<longleftrightarrow>
     (\<forall>w \<in> set (e_wallets e). w_reserved w = open_reservations (w_userId w) (e_transactions e))"

definition credit_ok :: "economy \<Rightarrow> bool" where
  "credit_ok e \<longleftrightarrow>
     wallets_ok e \<and> transactions_ok e \<and> ledger_ok e \<and> conserved e \<and> operations_ok e \<and> backed e"

lemma credit_okI:
  "wallets_ok e \<Longrightarrow> transactions_ok e \<Longrightarrow> ledger_ok e \<Longrightarrow> conserved e \<Longrightarrow> operations_ok e \<Longrightarrow> backed e \<Longrightarrow>
     credit_ok e"
  by (simp add: credit_ok_def)

section \<open>The invariant implies the checks\<close>

lemma ledger_ok_check: "ledger_ok (economy db) \<Longrightarrow> walletLedgerViolations db = []"
  by (simp add: ledger_ok_def walletLedgerViolations_def)

lemma wallets_ok_check: "wallets_ok (economy db) \<Longrightarrow> balanceViolations db = []"
  by (auto simp: wallets_ok_def balanceViolations_def filter_empty_conv)

lemma balanced_check: "ledger_ok (economy db) \<Longrightarrow> unbalancedTransactionViolations db = []"
  by (simp add: ledger_ok_def unbalancedTransactionViolations_def)

lemma conserved_check: "conserved (economy db) \<Longrightarrow> conservationViolations db = []"
  by (simp add: conserved_def conservationViolations_def)

lemma backed_check: "backed (economy db) \<Longrightarrow> reservedBackingViolations db = []"
  by (simp add: backed_def reservedBackingViolations_def)

lemma terminal_needs_reserve:
  assumes "operations_ok e" and "terminals order (e_transactions e) \<noteq> []"
  shows "reserves order (e_transactions e) \<noteq> []"
proof -
  from assms(2) obtain t where t: "t \<in> set (e_transactions e)" "t_orderId t = Some order" "terminal_type (t_type t)"
    by (auto simp: terminals_def filter_empty_conv)
  then have "t_type t \<noteq> ISSUE" by (auto simp: terminal_type_def)
  with t(1) assms(1) obtain x where x: "x \<in> set (e_operations e)" "records x t"
    by (auto simp: operations_ok_def)
  with t have "op_orderId x = order" "terminal_type (op_type x)" by (auto simp: records_def)
  with x(1) assms(1) have "reserved_for e order (op_requesterId x) (op_amount x)"
    by (auto simp: operations_ok_def)
  then obtain y where "y \<in> set (e_operations e)" "op_orderId y = order" "op_type y = RESERVE"
    "op_outcome y = SUCCEEDED" by (auto simp: reserved_for_def)
  with assms(1) obtain s where "s \<in> set (e_transactions e)" "records y s"
    by (auto simp: operations_ok_def)
  with \<open>op_orderId y = order\<close> \<open>op_type y = RESERVE\<close> show ?thesis
    by (auto simp: reserves_def filter_empty_conv records_def)
qed

lemma order_outcome_check:
  assumes "transactions_ok (economy db)" and "operations_ok (economy db)"
  shows "orderOutcomeViolations db = []"
proof -
  have "\<not> 1 < length (reserves order (credit_transactions db))"
      and "\<not> 1 < length (terminals order (credit_transactions db))" for order
    using assms(1) by (simp_all add: transactions_ok_def not_less)
  moreover have "terminals order (credit_transactions db) \<noteq> [] \<Longrightarrow>
      reserves order (credit_transactions db) \<noteq> []" for order
    using terminal_needs_reserve [OF assms(2)] by simp
  ultimately show ?thesis by (auto simp: orderOutcomeViolations_def Let_def)
qed

lemma credit_ok_checks:
  "credit_ok (economy db) \<Longrightarrow> creditEconomyViolations db = [] \<and> walletLedgerViolations db = []"
  by (simp add: credit_ok_def creditEconomyViolations_def CREDIT_INVARIANTS_def wallets_ok_check
      balanced_check conserved_check order_outcome_check backed_check ledger_ok_check)

section \<open>Sums and lookups under a movement\<close>

lemma change_wallet_member:
  assumes "w' \<in> set (change_wallet user now a r ws)"
  obtains w where "w \<in> set ws" and "w_userId w' = w_userId w"
    and "w_available w' = w_available w + (if w_userId w = user then a else 0)"
    and "w_reserved w' = w_reserved w + (if w_userId w = user then r else 0)"
  using assms by (auto simp: change_wallet_def set_update_rows credited_def split: if_splits)

lemma held_change:
  assumes "distinct (map w_userId ws)" and "user \<in> w_userId ` set ws"
  shows "held (change_wallet user now a r ws) = held ws + a + r"
proof -
  from assms(2) obtain w where "w \<in> set ws" "user = w_userId w" by auto
  with sum_list_update_key [OF assms(1), of w "\<lambda>w. w_available w + w_reserved w" "credited now a r"]
  show ?thesis by (simp add: held_def change_wallet_def credited_def)
qed

lemma ledger_sum_append:
  "ledger_sum acc user (es @ [e1, e2]) = ledger_sum acc user es +
     (if le_walletUserId e1 = Some user \<and> le_account e1 = acc then signed_amount e1 else 0) +
     (if le_walletUserId e2 = Some user \<and> le_account e2 = acc then signed_amount e2 else 0)"
  by (simp add: ledger_sum_def)

text \<open>A debit and a credit of the same amount under one transaction leave every transaction balanced.\<close>

lemma side_sum_pair:
  assumes "entry_of e1 i u1 a1 DEBIT amount" and "entry_of e2 i u2 a2 CREDIT amount"
    and "\<forall>j. side_sum DEBIT j es = side_sum CREDIT j es"
  shows "\<forall>j. side_sum DEBIT j (es @ [e1, e2]) = side_sum CREDIT j (es @ [e1, e2])"
  using assms by (simp add: side_sum_def entry_of_def)

lemma ledger_ok_move:
  assumes "ledger_ok e" and "entry_of e1 i u1 a1 DEBIT amount" and "entry_of e2 i u2 a2 CREDIT amount"
    and "\<And>user. u1 = Some user \<or> u2 = Some user \<Longrightarrow> user \<in> w_userId ` set ws"
    and "w_userId ` set (e_wallets e) \<subseteq> w_userId ` set ws"
    and "\<And>w'. w' \<in> set ws \<Longrightarrow> \<exists>w. w_userId w' = w_userId w \<and>
       (w \<in> set (e_wallets e) \<or>
        (w_userId w \<notin> w_userId ` set (e_wallets e) \<and> w_available w = 0 \<and> w_reserved w = 0)) \<and>
       w_available w' = w_available w
         - (if u1 = Some (w_userId w) \<and> a1 = AVAILABLE then amount else 0)
         + (if u2 = Some (w_userId w) \<and> a2 = AVAILABLE then amount else 0) \<and>
       w_reserved w' = w_reserved w
         - (if u1 = Some (w_userId w) \<and> a1 = RESERVED then amount else 0)
         + (if u2 = Some (w_userId w) \<and> a2 = RESERVED then amount else 0)"
  shows "ledger_ok (e\<lparr> e_wallets := ws, e_transactions := ts, e_entries := e_entries e @ [e1, e2],
                       e_operations := ops \<rparr>)"
proof -
  have none: "ledger_sum acc user (e_entries e) = 0" if "user \<notin> w_userId ` set (e_wallets e)" for acc user
    unfolding ledger_sum_def using assms(1) that by (intro sum_where_none) (auto simp: ledger_ok_def)
  have "w_available w' = ledger_sum AVAILABLE (w_userId w') (e_entries e @ [e1, e2]) \<and>
      w_reserved w' = ledger_sum RESERVED (w_userId w') (e_entries e @ [e1, e2])" if "w' \<in> set ws" for w'
  proof -
    from assms(6) [OF that] obtain w where w: "w_userId w' = w_userId w"
      "w \<in> set (e_wallets e) \<or> (w_userId w \<notin> w_userId ` set (e_wallets e) \<and> w_available w = 0 \<and> w_reserved w = 0)"
      "w_available w' = w_available w
         - (if u1 = Some (w_userId w) \<and> a1 = AVAILABLE then amount else 0)
         + (if u2 = Some (w_userId w) \<and> a2 = AVAILABLE then amount else 0)"
      "w_reserved w' = w_reserved w
         - (if u1 = Some (w_userId w) \<and> a1 = RESERVED then amount else 0)
         + (if u2 = Some (w_userId w) \<and> a2 = RESERVED then amount else 0)" by auto
    have "w_available w = ledger_sum AVAILABLE (w_userId w) (e_entries e) \<and>
        w_reserved w = ledger_sum RESERVED (w_userId w) (e_entries e)"
      using w(2) assms(1) none [of "w_userId w"] by (auto simp: ledger_ok_def)
    with w(1,3,4) assms(2,3) show ?thesis
      by (simp add: ledger_sum_append entry_of_def signed_amount_def)
  qed
  moreover have "user \<in> w_userId ` set ws"
    if "x \<in> set (e_entries e @ [e1, e2])" "le_walletUserId x = Some user" for x user
    using that assms(1-5) by (auto simp: ledger_ok_def entry_of_def)
  ultimately show ?thesis
    using side_sum_pair [OF assms(2,3)] assms(1) by (simp add: ledger_ok_def)
qed

lemma settled_append: "settled (ts @ [t]) x \<longleftrightarrow> settled ts x \<or>
    (t_orderId x \<noteq> None \<and> t_orderId t = t_orderId x \<and> terminal_type (t_type t))"
  by (auto simp: settled_def)

lemma settled_terminals: "t_orderId x = Some order \<Longrightarrow> settled ts x \<longleftrightarrow> terminals order ts \<noteq> []"
  by (auto simp: settled_def terminals_def filter_empty_conv)

lemma open_reservations_other:
  "\<not> terminal_type (t_type t) \<Longrightarrow>
     open_reservations user (ts @ [t]) = open_reservations user ts +
       (if t_type t = RESERVE \<and> \<not> settled ts t \<and> t_walletUserId t = Some user then t_amount t else 0)"
  by (simp add: open_reservations_def settled_append)

lemma open_reservations_terminal:
  assumes "terminal_type (t_type t)" and "t_orderId t = Some order"
    and "reserves order ts = [r]" and "terminals order ts = []"
  shows "open_reservations user (ts @ [t]) =
    open_reservations user ts - (if t_walletUserId r = Some user then t_amount r else 0)"
proof -
  let ?p = "\<lambda>x. t_type x = RESERVE \<and> \<not> settled ts x \<and> t_walletUserId x = Some user"
  have "r \<in> set (reserves order ts)" using assms(3) by simp
  then have r: "t_orderId r = Some order" "t_type r = RESERVE" by (simp_all add: reserves_def)
  have "sum_where (\<lambda>x. ?p x \<and> t_orderId x = Some order) t_amount ts =
      sum_where (\<lambda>x. \<not> settled ts x \<and> t_walletUserId x = Some user) t_amount (reserves order ts)"
    by (auto simp: reserves_def sum_where_filter intro: sum_where_cong)
  also have "\<dots> = (if t_walletUserId r = Some user then t_amount r else 0)"
    using assms(4) r by (simp add: assms(3) settled_terminals)
  finally have gone: "sum_where (\<lambda>x. ?p x \<and> t_orderId x = Some order) t_amount ts =
      (if t_walletUserId r = Some user then t_amount r else 0)" .
  have "open_reservations user (ts @ [t]) = sum_where (\<lambda>x. ?p x \<and> t_orderId x \<noteq> Some order) t_amount ts"
    using assms(1,2) unfolding open_reservations_def
    by (auto simp: settled_append terminal_type_def intro!: sum_where_cong)
  with gone show ?thesis
    using sum_where_split [of ?p t_amount ts "\<lambda>x. t_orderId x = Some order"]
    by (simp add: open_reservations_def)
qed

section \<open>Every movement keeps the invariant\<close>

text \<open>The reservation of an unsettled order: its one transaction, and the credits behind it.\<close>

lemma unsettled_reservation:
  assumes "transactions_ok e" and "operations_ok e"
    and "reserved_for e order requester amount" and "\<not> settled_op e order"
  obtains r where "reserves order (e_transactions e) = [r]" and "terminals order (e_transactions e) = []"
    and "t_walletUserId r = Some requester" and "t_amount r = amount" and "r \<in> set (e_transactions e)"
proof -
  from assms(3) obtain y where y: "y \<in> set (e_operations e)" "op_orderId y = order" "op_type y = RESERVE"
    "op_requesterId y = requester" "op_amount y = amount" "op_outcome y = SUCCEEDED"
    by (auto simp: reserved_for_def)
  with assms(2) obtain r where r: "r \<in> set (e_transactions e)" "records y r"
    by (auto simp: operations_ok_def)
  with y have "r \<in> set (reserves order (e_transactions e))" by (simp add: reserves_def records_def)
  moreover have "length (reserves order (e_transactions e)) \<le> 1"
    using assms(1) by (simp add: transactions_ok_def)
  ultimately have "reserves order (e_transactions e) = [r]"
    by (cases "reserves order (e_transactions e)") auto
  moreover have "terminals order (e_transactions e) = []"
  proof (rule ccontr)
    assume "terminals order (e_transactions e) \<noteq> []"
    then obtain t where t: "t \<in> set (e_transactions e)" "t_orderId t = Some order" "terminal_type (t_type t)"
      by (auto simp: terminals_def filter_empty_conv)
    then have "t_type t \<noteq> ISSUE" by (auto simp: terminal_type_def)
    with t(1) assms(2) obtain x where "x \<in> set (e_operations e)" "records x t"
      by (auto simp: operations_ok_def)
    with t assms(4) show False by (auto simp: settled_op_def records_def)
  qed
  ultimately show thesis using that r y by (simp add: records_def)
qed

lemma reserves_append:
  "reserves order (ts @ [t]) = reserves order ts @ (if t_orderId t = Some order \<and> t_type t = RESERVE then [t] else [])"
  by (simp add: reserves_def)

lemma terminals_append:
  "terminals order (ts @ [t]) = terminals order ts @
     (if t_orderId t = Some order \<and> terminal_type (t_type t) then [t] else [])"
  by (simp add: terminals_def)

lemma transactions_ok_append:
  assumes "transactions_ok e" and "t_id t \<notin> t_id ` set (e_transactions e)" and "0 < t_amount t"
    and "(t_type t = ISSUE) = (t_orderId t = None)"
    and "t_walletUserId t = Some user" and "user \<in> w_userId ` set ws"
    and "w_userId ` set (e_wallets e) \<subseteq> w_userId ` set ws"
    and "\<And>order. t_orderId t = Some order \<Longrightarrow> t_type t = RESERVE \<Longrightarrow> reserves order (e_transactions e) = []"
    and "\<And>order. t_orderId t = Some order \<Longrightarrow> terminal_type (t_type t) \<Longrightarrow> terminals order (e_transactions e) = []"
  shows "transactions_ok (e\<lparr> e_wallets := ws, e_transactions := e_transactions e @ [t],
                              e_entries := es, e_operations := ops \<rparr>)"
proof -
  have "\<exists>user. t_walletUserId x = Some user \<and> user \<in> w_userId ` set ws" if "x \<in> set (e_transactions e)" for x
    using that assms(1,7) by (fastforce simp: transactions_ok_def)
  moreover have "length (reserves order (e_transactions e @ [t])) \<le> 1 \<and>
      length (terminals order (e_transactions e @ [t])) \<le> 1" for order
    using assms(1) assms(8,9) [of order] by (auto simp: reserves_append terminals_append transactions_ok_def)
  ultimately show ?thesis
    using assms(1-6) by (auto simp: transactions_ok_def)
qed

lemma operations_ok_append:
  assumes "operations_ok e" and "op_outcome x \<noteq> PENDING" and "op_type x \<noteq> ISSUE" and "0 < op_amount x"
    and "terminal_type (op_type x) \<Longrightarrow> op_outcome x = SUCCEEDED \<and>
           reserved_for e (op_orderId x) (op_requesterId x) (op_amount x) \<and> \<not> settled_op e (op_orderId x)"
    and "op_type x = RESERVE \<Longrightarrow> \<forall>y \<in> set (e_operations e). \<not> same_order (op_orderId x) RESERVE y"
    and "result_recorded x"
    and "op_outcome x = SUCCEEDED \<Longrightarrow> \<exists>t \<in> set new. records x t" and "\<forall>t \<in> set new. records x t"
    and "op_outcome x = Op_REJECTED \<Longrightarrow> rejection_recorded x"
  shows "operations_ok (e\<lparr> e_wallets := ws, e_transactions := e_transactions e @ new,
                            e_entries := es, e_operations := e_operations e @ [x] \<rparr>)"
proof -
  let ?e = "e\<lparr> e_wallets := ws, e_transactions := e_transactions e @ new, e_entries := es,
               e_operations := e_operations e @ [x] \<rparr>"
  have mono: "reserved_for e i r a \<Longrightarrow> reserved_for ?e i r a" for i r a
    by (auto simp: reserved_for_def)
  have ops: "\<forall>y \<in> set (e_operations ?e). op_outcome y \<noteq> PENDING \<and> op_type y \<noteq> ISSUE \<and> 0 < op_amount y \<and>
      (terminal_type (op_type y) \<longrightarrow> op_outcome y = SUCCEEDED) \<and>
      (op_outcome y = SUCCEEDED \<longrightarrow> (\<exists>t \<in> set (e_transactions ?e). records y t)) \<and>
      (terminal_type (op_type y) \<longrightarrow> reserved_for ?e (op_orderId y) (op_requesterId y) (op_amount y)) \<and>
      (op_outcome y = Op_REJECTED \<longrightarrow> rejection_recorded y) \<and> result_recorded y"
    using assms(1-5,7,8,10) mono by (auto simp: operations_ok_def)
  have "filter (same_order order RESERVE) (e_operations e) = []" if "same_order order RESERVE x" for order
    using that assms(6) by (auto simp: same_order_def filter_empty_conv)
  moreover have "filter (\<lambda>y. op_orderId y = order \<and> terminal_type (op_type y)) (e_operations e) = []"
    if "op_orderId x = order" "terminal_type (op_type x)" for order
    using that assms(5) by (auto simp: settled_op_def filter_empty_conv)
  ultimately have "length (filter (same_order order RESERVE) (e_operations ?e)) \<le> 1 \<and>
      length (filter (\<lambda>y. op_orderId y = order \<and> terminal_type (op_type y)) (e_operations ?e)) \<le> 1" for order
    using assms(1) by (auto simp: operations_ok_def)
  moreover have "\<forall>t \<in> set (e_transactions ?e). t_type t \<noteq> ISSUE \<longrightarrow> (\<exists>y \<in> set (e_operations ?e). records y t)"
    using assms(1,9) by (auto simp: operations_ok_def)
  ultimately show ?thesis using ops by (simp add: operations_ok_def)
qed

text \<open>
  Appending a reservation, a settlement or an issue changes the open reservations as it changes
  the reserved balances.
\<close>

lemma wallets_ok_change:
  assumes "wallets_ok e" and "w \<in> set (e_wallets e)" and "0 \<le> w_available w + a" and "0 \<le> w_reserved w + r"
  shows "wallets_ok (e\<lparr> e_wallets := change_wallet (w_userId w) now a r (e_wallets e) \<rparr>)"
proof -
  have "0 \<le> w_available w' \<and> 0 \<le> w_reserved w'"
    if "w' \<in> set (change_wallet (w_userId w) now a r (e_wallets e))" for w'
  proof -
    from that obtain x where x: "x \<in> set (e_wallets e)" "w_userId w' = w_userId x"
      "w_available w' = w_available x + (if w_userId x = w_userId w then a else 0)"
      "w_reserved w' = w_reserved x + (if w_userId x = w_userId w then r else 0)"
      by (rule change_wallet_member)
    have "x = w" if "w_userId x = w_userId w"
      using that x(1) assms(1,2) by (auto simp: wallets_ok_def distinct_map dest: inj_onD)
    with x assms show ?thesis by (auto simp: wallets_ok_def)
  qed
  with assms(1) show ?thesis by (simp add: wallets_ok_def)
qed

lemma wallets_ok_cong: "e_wallets e' = e_wallets e \<Longrightarrow> wallets_ok e' = wallets_ok e"
  by (simp add: wallets_ok_def)

lemma ok_update_operations [simp]:
  "wallets_ok (e\<lparr> e_operations := ops \<rparr>) = wallets_ok e"
  "transactions_ok (e\<lparr> e_operations := ops \<rparr>) = transactions_ok e"
  "ledger_ok (e\<lparr> e_operations := ops \<rparr>) = ledger_ok e"
  "conserved (e\<lparr> e_operations := ops \<rparr>) = conserved e"
  "backed (e\<lparr> e_operations := ops \<rparr>) = backed e"
  by (simp_all add: wallets_ok_def transactions_ok_def ledger_ok_def conserved_def backed_def)

lemma refused_keeps:
  assumes "credit_ok e" and "op_type x = RESERVE" and "op_outcome x = Op_REJECTED" and "0 < op_amount x"
    and "rejection_recorded x"
    and "\<forall>y \<in> set (e_operations e). \<not> same_order (op_orderId x) RESERVE y"
  shows "credit_ok (e\<lparr> e_operations := e_operations e @ [x] \<rparr>)"
proof -
  have "operations_ok (e\<lparr> e_wallets := e_wallets e, e_transactions := e_transactions e @ [],
      e_entries := e_entries e, e_operations := e_operations e @ [x] \<rparr>)"
    using assms by (intro operations_ok_append) (auto simp: credit_ok_def terminal_type_def result_recorded_def)
  with assms(1) show ?thesis by (simp add: credit_ok_def)
qed

lemma issued_keeps:
  assumes ok: "credit_ok e" and new: "user \<notin> w_userId ` set (e_wallets e)" and "0 < amount"
    and w: "w_userId w = user" "w_available w = amount" "w_reserved w = 0"
    and t: "recorded_tx t i None ISSUE user amount" and i: "i \<notin> t_id ` set (e_transactions e)"
    and e1: "entry_of e1 i None PLATFORM_ISSUANCE DEBIT amount"
    and e2: "entry_of e2 i (Some user) AVAILABLE CREDIT amount"
  shows "credit_ok (e\<lparr> e_wallets := e_wallets e @ [w], e_transactions := e_transactions e @ [t],
                       e_entries := e_entries e @ [e1, e2] \<rparr>)" (is "credit_ok ?e")
proof (rule credit_okI)
  note t' = t [unfolded recorded_tx_def]
  show "wallets_ok ?e" using ok new w \<open>0 < amount\<close> by (auto simp: credit_ok_def wallets_ok_def)
  have "transactions_ok (e\<lparr> e_wallets := e_wallets e @ [w], e_transactions := e_transactions e @ [t],
      e_entries := e_entries e @ [e1, e2], e_operations := e_operations e \<rparr>)"
    using ok w(1) i t' \<open>0 < amount\<close>
    by (intro transactions_ok_append [where user = user]) (auto simp: credit_ok_def)
  then show "transactions_ok ?e" by simp
  have "ledger_ok (e\<lparr> e_wallets := e_wallets e @ [w], e_transactions := e_transactions e @ [t],
      e_entries := e_entries e @ [e1, e2], e_operations := e_operations e \<rparr>)"
  proof (rule ledger_ok_move [OF _ e1 e2])
    show "ledger_ok e" using ok by (simp add: credit_ok_def)
    fix w' assume "w' \<in> set (e_wallets e @ [w])"
    then consider "w' \<in> set (e_wallets e)" | "w' = w" by auto
    then show "\<exists>x. w_userId w' = w_userId x \<and>
       (x \<in> set (e_wallets e) \<or> (w_userId x \<notin> w_userId ` set (e_wallets e) \<and> w_available x = 0 \<and> w_reserved x = 0)) \<and>
       w_available w' = w_available x - (if None = Some (w_userId x) \<and> PLATFORM_ISSUANCE = AVAILABLE then amount else 0)
         + (if Some user = Some (w_userId x) \<and> AVAILABLE = AVAILABLE then amount else 0) \<and>
       w_reserved w' = w_reserved x - (if None = Some (w_userId x) \<and> PLATFORM_ISSUANCE = RESERVED then amount else 0)
         + (if Some user = Some (w_userId x) \<and> AVAILABLE = RESERVED then amount else 0)"
    proof cases
      case 1
      with new show ?thesis by (intro exI [of _ w']) auto
    next
      case 2
      with w new show ?thesis by (intro exI [of _ "w\<lparr> w_available := 0 \<rparr>"]) simp
    qed
  qed (use w in auto)
  then show "ledger_ok ?e" by simp
  show "conserved ?e" using ok w t' by (simp add: credit_ok_def conserved_def held_def issued_total_def)
  have "operations_ok e" using ok by (simp add: credit_ok_def)
  then show "operations_ok ?e"
    using t' by (fastforce simp: operations_ok_def reserved_for_def)
  have "open_reservations user (e_transactions e) = 0" unfolding open_reservations_def
    using ok new by (intro sum_where_none) (fastforce simp: credit_ok_def transactions_ok_def)
  then show "backed ?e"
    using ok w t' by (auto simp: credit_ok_def backed_def open_reservations_other terminal_type_def)
qed

text \<open>
  A movement for an order: the new transaction and operation record each other, and the wallets
  change by what the two entries say.
\<close>

lemma reserved_keeps:
  assumes ok: "credit_ok e" and w: "w \<in> set (e_wallets e)" "amount \<le> w_available w" "0 < amount"
    and fresh: "\<forall>y \<in> set (e_operations e). \<not> same_order order RESERVE y"
    and t: "recorded_tx t i (Some order) RESERVE (w_userId w) amount" and i: "i \<notin> t_id ` set (e_transactions e)"
    and none: "\<forall>y \<in> set (e_transactions e). t_orderId y = Some order \<longrightarrow> t_type y \<noteq> RESERVE"
    and e1: "entry_of e1 i (Some (w_userId w)) AVAILABLE DEBIT amount"
    and e2: "entry_of e2 i (Some (w_userId w)) RESERVED CREDIT amount"
    and x: "recorded_op x order RESERVE (w_userId w) None amount i"
  shows "credit_ok (e\<lparr> e_wallets := change_wallet (w_userId w) now (- amount) amount (e_wallets e),
                       e_transactions := e_transactions e @ [t], e_entries := e_entries e @ [e1, e2],
                       e_operations := e_operations e @ [x] \<rparr>)" (is "credit_ok ?e")
proof (rule credit_okI)
  let ?ws = "change_wallet (w_userId w) now (- amount) amount (e_wallets e)"
  note t' = t [unfolded recorded_tx_def] and x' = x [unfolded recorded_op_def]
  have oks: "wallets_ok e" "transactions_ok e" "ledger_ok e" "conserved e" "operations_ok e" "backed e"
    using ok by (simp_all add: credit_ok_def)
  have rw: "0 \<le> w_reserved w" using oks(1) w(1) by (auto simp: wallets_ok_def)
  have "wallets_ok (e\<lparr> e_wallets := ?ws \<rparr>)" using oks(1) w rw by (intro wallets_ok_change) auto
  then show "wallets_ok ?e" by (simp add: wallets_ok_def)
  have reserves: "reserves order (e_transactions e) = []" using none by (auto simp: reserves_def filter_empty_conv)
  show "transactions_ok ?e"
    using oks(2) t' i w reserves by (intro transactions_ok_append) (auto simp: terminal_type_def)
  show "ledger_ok ?e"
    by (rule ledger_ok_move [OF oks(3) e1 e2]) (use w(1) in \<open>auto elim!: change_wallet_member\<close>)
  have "held ?ws = held (e_wallets e)"
    using oks(1) w(1) by (subst held_change) (auto simp: wallets_ok_def)
  then show "conserved ?e" using oks(4) t' by (simp add: conserved_def issued_total_def)
  show "operations_ok ?e"
    using fresh x' t' w(3) by (intro operations_ok_append oks(5))
      (auto simp: terminal_type_def result_recorded_def records_def)
  have "terminals order (e_transactions e) = []"
    using terminal_needs_reserve [OF oks(5)] reserves by blast
  then have "open_reservations user (e_transactions e @ [t]) =
      open_reservations user (e_transactions e) + (if user = w_userId w then amount else 0)" for user
    using t' by (auto simp: open_reservations_other terminal_type_def settled_terminals)
  then show "backed ?e"
    using oks(6) by (auto simp: backed_def elim!: change_wallet_member)
qed

lemma released_keeps:
  assumes ok: "credit_ok e" and w: "w \<in> set (e_wallets e)" "amount \<le> w_reserved w" "0 < amount"
    and live: "reserved_for e order (w_userId w) amount" and unsettled: "\<not> settled_op e order"
    and t: "recorded_tx t i (Some order) RELEASE (w_userId w) amount" and i: "i \<notin> t_id ` set (e_transactions e)"
    and e1: "entry_of e1 i (Some (w_userId w)) RESERVED DEBIT amount"
    and e2: "entry_of e2 i (Some (w_userId w)) AVAILABLE CREDIT amount"
    and x: "recorded_op x order RELEASE (w_userId w) None amount i" and result: "result_recorded x"
  shows "credit_ok (e\<lparr> e_wallets := change_wallet (w_userId w) now amount (- amount) (e_wallets e),
                       e_transactions := e_transactions e @ [t], e_entries := e_entries e @ [e1, e2],
                       e_operations := e_operations e @ [x] \<rparr>)" (is "credit_ok ?e")
proof (rule credit_okI)
  let ?ws = "change_wallet (w_userId w) now amount (- amount) (e_wallets e)"
  note t' = t [unfolded recorded_tx_def] and x' = x [unfolded recorded_op_def]
  have oks: "wallets_ok e" "transactions_ok e" "ledger_ok e" "conserved e" "operations_ok e" "backed e"
    using ok by (simp_all add: credit_ok_def)
  from oks(2,5) live unsettled obtain r where r: "reserves order (e_transactions e) = [r]"
    "terminals order (e_transactions e) = []" "t_walletUserId r = Some (w_userId w)" "t_amount r = amount"
    by (rule unsettled_reservation)
  have rw: "0 \<le> w_available w" using oks(1) w(1) by (auto simp: wallets_ok_def)
  have "wallets_ok (e\<lparr> e_wallets := ?ws \<rparr>)" using oks(1) w rw by (intro wallets_ok_change) auto
  then show "wallets_ok ?e" by (simp add: wallets_ok_def)
  show "transactions_ok ?e"
    using oks(2) t' i w r(2) by (intro transactions_ok_append) auto
  show "ledger_ok ?e"
    by (rule ledger_ok_move [OF oks(3) e1 e2]) (use w(1) in \<open>auto elim!: change_wallet_member\<close>)
  have "held ?ws = held (e_wallets e)"
    using oks(1) w(1) by (subst held_change) (auto simp: wallets_ok_def)
  then show "conserved ?e" using oks(4) t' by (simp add: conserved_def issued_total_def)
  show "operations_ok ?e"
    using x' t' w(3) live unsettled result by (intro operations_ok_append oks(5)) (auto simp: records_def)
  have "open_reservations user (e_transactions e @ [t]) =
      open_reservations user (e_transactions e) - (if user = w_userId w then amount else 0)" for user
    using t' r by (subst open_reservations_terminal [of t order]) (auto simp: terminal_type_def)
  then show "backed ?e"
    using oks(6) by (auto simp: backed_def elim!: change_wallet_member)
qed

lemma transferred_keeps:
  assumes ok: "credit_ok e" and w: "w \<in> set (e_wallets e)" "amount \<le> w_reserved w" "0 < amount"
    and c: "courier \<in> w_userId ` set (e_wallets e)" "courier \<noteq> w_userId w"
    and live: "reserved_for e order (w_userId w) amount" and unsettled: "\<not> settled_op e order"
    and t: "recorded_tx t i (Some order) TRANSFER (w_userId w) amount" and i: "i \<notin> t_id ` set (e_transactions e)"
    and e1: "entry_of e1 i (Some (w_userId w)) RESERVED DEBIT amount"
    and e2: "entry_of e2 i (Some courier) AVAILABLE CREDIT amount"
    and x: "recorded_op x order TRANSFER (w_userId w) (Some courier) amount i" and result: "result_recorded x"
  shows "credit_ok (e\<lparr> e_wallets := change_wallet courier now amount 0
                         (change_wallet (w_userId w) now 0 (- amount) (e_wallets e)),
                       e_transactions := e_transactions e @ [t], e_entries := e_entries e @ [e1, e2],
                       e_operations := e_operations e @ [x] \<rparr>)" (is "credit_ok ?e")
proof (rule credit_okI)
  let ?mid = "change_wallet (w_userId w) now 0 (- amount) (e_wallets e)"
  let ?ws = "change_wallet courier now amount 0 ?mid"
  note t' = t [unfolded recorded_tx_def] and x' = x [unfolded recorded_op_def]
  have oks: "wallets_ok e" "transactions_ok e" "ledger_ok e" "conserved e" "operations_ok e" "backed e"
    using ok by (simp_all add: credit_ok_def)
  from oks(2,5) live unsettled obtain r where r: "reserves order (e_transactions e) = [r]"
    "terminals order (e_transactions e) = []" "t_walletUserId r = Some (w_userId w)" "t_amount r = amount"
    by (rule unsettled_reservation)
  have rw: "0 \<le> w_available w" using oks(1) w(1) by (auto simp: wallets_ok_def)
  have mid: "wallets_ok (e\<lparr> e_wallets := ?mid \<rparr>)" using oks(1) w rw by (intro wallets_ok_change) auto
  from c(1) obtain cw where cw: "cw \<in> set ?mid" "w_userId cw = courier"
    using change_wallet_ids(2) [of "w_userId w" now 0 "- amount" "e_wallets e"] by (metis imageE)
  have "wallets_ok ((e\<lparr> e_wallets := ?mid \<rparr>)\<lparr> e_wallets := change_wallet (w_userId cw) now amount 0 ?mid \<rparr>)"
    using wallets_ok_change [OF mid, of cw amount 0 now] cw(1) mid w(3) by (auto simp: wallets_ok_def)
  then show "wallets_ok ?e" using cw(2) by (simp add: wallets_ok_def)
  show "transactions_ok ?e"
    using oks(2) t' i w r(2) by (intro transactions_ok_append) auto
  show "ledger_ok ?e"
  proof (rule ledger_ok_move [OF oks(3) e1 e2])
    fix w' assume "w' \<in> set ?ws"
    then obtain m where m: "m \<in> set ?mid" "w_userId w' = w_userId m"
      "w_available w' = w_available m + (if w_userId m = courier then amount else 0)"
      "w_reserved w' = w_reserved m + (if w_userId m = courier then 0 else 0)"
      by (rule change_wallet_member)
    from m(1) obtain v where v: "v \<in> set (e_wallets e)" "w_userId m = w_userId v"
      "w_available m = w_available v + (if w_userId v = w_userId w then 0 else 0)"
      "w_reserved m = w_reserved v + (if w_userId v = w_userId w then - amount else 0)"
      by (rule change_wallet_member)
    from m v show "\<exists>x. w_userId w' = w_userId x \<and>
       (x \<in> set (e_wallets e) \<or> (w_userId x \<notin> w_userId ` set (e_wallets e) \<and> w_available x = 0 \<and> w_reserved x = 0)) \<and>
       w_available w' = w_available x - (if Some (w_userId w) = Some (w_userId x) \<and> RESERVED = AVAILABLE then amount else 0)
         + (if Some courier = Some (w_userId x) \<and> AVAILABLE = AVAILABLE then amount else 0) \<and>
       w_reserved w' = w_reserved x - (if Some (w_userId w) = Some (w_userId x) \<and> RESERVED = RESERVED then amount else 0)
         + (if Some courier = Some (w_userId x) \<and> AVAILABLE = RESERVED then amount else 0)"
      by (intro exI [of _ v]) auto
  qed (use w(1) c in auto)
  have "held ?ws = held (e_wallets e)"
    using oks(1) w(1) c(1) by (subst held_change; (subst held_change)?) (auto simp: wallets_ok_def)
  then show "conserved ?e" using oks(4) t' by (simp add: conserved_def issued_total_def)
  show "operations_ok ?e"
    using x' t' w(3) live unsettled result by (intro operations_ok_append oks(5)) (auto simp: records_def)
  have "open_reservations user (e_transactions e @ [t]) =
      open_reservations user (e_transactions e) - (if user = w_userId w then amount else 0)" for user
    using t' r by (subst open_reservations_terminal [of t order]) (auto simp: terminal_type_def)
  then show "backed ?e"
    using oks(6) by (auto simp: backed_def elim!: change_wallet_member)
qed

text \<open>The specification keeps the invariant.\<close>

lemma credit_effect_keeps: "credit_effect alloc e e' \<Longrightarrow> credit_ok e \<Longrightarrow> credit_ok e'"
proof (induction rule: credit_effect.induct)
  case (transferred rw e requester amount courier order t i e1 e2 x rb cb now)
  then show ?case
    using transferred_keeps [of e rw amount courier order t i e1 e2 x now]
    by (auto simp: result_recorded_def recorded_op_def)
next
  case (released rw e requester amount order t i e1 e2 x rb now)
  then show ?case
    using released_keeps [of e rw amount order t i e1 e2 x now]
    by (auto simp: result_recorded_def recorded_op_def)
qed (auto intro: refused_keeps issued_keeps reserved_keeps)

end
