(* ===== verification/Outbox_Relay.thy ===== *)
theory Outbox_Relay
  imports Event_Tables
begin

text \<open>
  The relay that publishes committed outbox rows (\<open>OutboxRelay\<close> in platform/src/events/outbox.ts)
  and the publisher it calls (publisher.ts). What the broker answers to a publish, and which
  rows another instance holds locked, are arguments.
\<close>

section \<open>Publishing one event\<close>

text \<open>
  The broker's answer to a publish: confirmed, confirmed after handing a mandatory message back
  because no queue is bound, refused (or the channel closed), or no answer in time.
\<close>

datatype broker_answer = Confirmed | Handed_back | Refused | Timed_out

text \<open>\<open>EventPublisher.publish\<close>: the envelope the broker confirmed, or the error.\<close>

definition publisher_publish ::
  "ident \<Rightarrow> ident \<Rightarrow> time \<Rightarrow> broker_answer \<Rightarrow> new_event_input \<Rightarrow> service_error + envelope" where
  "publisher_publish service u now answer input =
     (case PAYLOAD_SCHEMAS (ni_eventType input) of
        None \<Rightarrow> Inl EventValidationError
      | Some schema \<Rightarrow>
          if \<not> schema (ni_payload input) then Inl EventValidationError
          else let env = createEnvelope u now (input\<lparr> ni_producer := service \<rparr>);
                   mandatory = (eventType env \<in> REQUIRES_CONSUMER)
               in case answer of
                    Confirmed \<Rightarrow> Inr env
                  | Handed_back \<Rightarrow>
                      if mandatory then Inl (UnroutableEventError (eventType env)) else Inr env
                  | Refused \<Rightarrow> Inl (PlainError ''publish failed'')
                  | Timed_out \<Rightarrow> Inl (PlainError ''broker did not confirm''))"

text \<open>
  \<open>OutboxRelay.publish\<close>: the row is checked again and sent under its own id and time. The id
  and the clock \<open>createEnvelope\<close> would draw are not used.
\<close>

definition relay_publish :: "ident \<Rightarrow> broker_answer \<Rightarrow> outbox_row \<Rightarrow> service_error + envelope" where
  "relay_publish service answer row =
     (case PAYLOAD_SCHEMAS (ob_eventType row) of
        None \<Rightarrow> Inl (PlainError ''no payload schema in the event catalogue'')
      | Some schema \<Rightarrow>
          if \<not> schema (ob_payload row) then Inl (PlainError ''payload invalid'')
          else publisher_publish service [] 0 answer
            \<lparr> ni_eventType = ob_eventType row, ni_schemaVersion = ob_schemaVersion row,
              ni_aggregateId = ob_aggregateId row, ni_producer = [],
              ni_correlationId = ob_correlationId row, ni_causationId = ob_causationId row,
              ni_eventId = Some (ob_id row), ni_occurredAt = Some (iso (ob_occurredAt row)),
              ni_payload = ob_payload row \<rparr>)"

section \<open>Claiming and publishing\<close>

record relay_options =
  batchSize :: nat
  backoffMs :: int
  maxBackoffMs :: int

definition relay_defaults :: relay_options where
  "relay_defaults = \<lparr> batchSize = 100, backoffMs = 1000, maxBackoffMs = 60000 \<rparr>"

text \<open>
  \<open>CLAIM_SQL\<close>: unpublished rows that are due and have no earlier unpublished row of their
  aggregate, oldest first, without those another instance holds.
\<close>

definition claimable :: "time \<Rightarrow> outbox_row list \<Rightarrow> outbox_row \<Rightarrow> bool" where
  "claimable now rows r \<longleftrightarrow>
     ob_publishedAt r = None \<and> ob_nextAttemptAt r \<le> now \<and>
     \<not> (\<exists>earlier\<in>set rows. ob_aggregateId earlier = ob_aggregateId r \<and>
          ob_publishedAt earlier = None \<and> ob_seq earlier < ob_seq r)"

definition CLAIM_SQL :: "time \<Rightarrow> nat \<Rightarrow> ident set \<Rightarrow> outbox_row list \<Rightarrow> outbox_row list" where
  "CLAIM_SQL now limit locked rows =
     take limit (sort_key ob_seq (filter (\<lambda>r. claimable now rows r \<and> ob_id r \<notin> locked) rows))"

definition retry_in_ms :: "relay_options \<Rightarrow> nat \<Rightarrow> int" where
  "retry_in_ms opts attempts = min (maxBackoffMs opts) (backoffMs opts * 2 ^ attempts)"

definition recordFailure ::
  "relay_options \<Rightarrow> time \<Rightarrow> outbox_row \<Rightarrow> service_error \<Rightarrow> outbox_row list \<Rightarrow> outbox_row list" where
  "recordFailure opts now row err rows =
     update_rows (\<lambda>r. ob_id r = ob_id row)
       (\<lambda>r. r\<lparr> ob_attempts := ob_attempts r + 1, ob_lastError := Some err,
                ob_nextAttemptAt := later now (retry_in_ms opts (ob_attempts row)) \<rparr>) rows"

definition markPublished :: "time \<Rightarrow> outbox_row \<Rightarrow> outbox_row list \<Rightarrow> outbox_row list" where
  "markPublished now row rows =
     update_rows (\<lambda>r. ob_id r = ob_id row)
       (\<lambda>r. r\<lparr> ob_publishedAt := Some now, ob_attempts := ob_attempts r + 1,
                ob_lastError := None \<rparr>) rows"

text \<open>
  The loop over the claimed rows. \<open>answer\<close> is the broker's answer to each row id; the result
  counts the published and failed rows, says whether the claim was halted, lists the envelopes
  the broker confirmed and the rows that were tried, in order.
\<close>

record claim_result =
  cr_published :: nat
  cr_failed :: nat
  cr_halted :: bool
  cr_sent :: "envelope list"
  cr_tried :: "outbox_row list"

definition counted ::
  "nat \<Rightarrow> nat \<Rightarrow> envelope list \<Rightarrow> outbox_row \<Rightarrow> claim_result \<Rightarrow> claim_result" where
  "counted p f sent row cr =
     cr\<lparr> cr_published := p + cr_published cr, cr_failed := f + cr_failed cr,
         cr_sent := sent @ cr_sent cr, cr_tried := row # cr_tried cr \<rparr>"

definition idle :: "bool \<Rightarrow> claim_result" where
  "idle halted = \<lparr> cr_published = 0, cr_failed = 0, cr_halted = halted, cr_sent = [], cr_tried = [] \<rparr>"

fun publish_rows ::
  "ident \<Rightarrow> relay_options \<Rightarrow> time \<Rightarrow> (ident \<Rightarrow> broker_answer) \<Rightarrow> outbox_row list \<Rightarrow> outbox_row list
     \<Rightarrow> claim_result \<times> outbox_row list" where
  "publish_rows service opts now answer [] rows = (idle False, rows)"
| "publish_rows service opts now answer (row # todo) rows =
     (case relay_publish service (answer (ob_id row)) row of
        Inl err \<Rightarrow>
          let rows' = recordFailure opts now row err rows in
          (case err of
             UnroutableEventError _ \<Rightarrow>
               (let (cr, rows'') = publish_rows service opts now answer todo rows'
                in (counted 0 1 [] row cr, rows''))
           | _ \<Rightarrow> (counted 0 1 [] row (idle True), rows'))
      | Inr env \<Rightarrow>
          (let (cr, rows'') = publish_rows service opts now answer todo (markPublished now row rows)
           in (counted 1 0 [env] row cr, rows'')))"

definition claimAndPublish ::
  "ident \<Rightarrow> relay_options \<Rightarrow> time \<Rightarrow> ident set \<Rightarrow> (ident \<Rightarrow> broker_answer) \<Rightarrow> outbox_row list
     \<Rightarrow> claim_result \<times> outbox_row list" where
  "claimAndPublish service opts now locked answer rows =
     publish_rows service opts now answer (CLAIM_SQL now (batchSize opts) locked rows) rows"

lemma relay_publish_Inr:
  "relay_publish service answer row = Inr env \<Longrightarrow>
     eventId env = ob_id row \<and> aggregateId env = ob_aggregateId row \<and>
     eventType env = ob_eventType row \<and> ev_payload env = ob_payload row \<and> producer env = service"
  by (auto simp: relay_publish_def publisher_publish_def createEnvelope_def Let_def
      split: option.splits if_splits broker_answer.splits)

text \<open>What a claim may change of a row: never its identity, and \<open>published_at\<close> only once set.\<close>

definition same_event :: "outbox_row \<Rightarrow> outbox_row \<Rightarrow> bool" where
  "same_event r r' \<longleftrightarrow>
     ob_id r' = ob_id r \<and> ob_seq r' = ob_seq r \<and> ob_eventType r' = ob_eventType r \<and>
     ob_schemaVersion r' = ob_schemaVersion r \<and> ob_aggregateId r' = ob_aggregateId r \<and>
     ob_payload r' = ob_payload r \<and> ob_correlationId r' = ob_correlationId r \<and>
     ob_causationId r' = ob_causationId r \<and> ob_occurredAt r' = ob_occurredAt r"

lemma same_event_refl [simp]: "same_event r r"
  by (simp add: same_event_def)

lemma same_event_says: "same_event r r' \<Longrightarrow> row_event r' = row_event r"
  by (simp add: same_event_def row_event_def)

lemma same_events_say: "list_all2 same_event rows rows' \<Longrightarrow> row_event ` set rows' = row_event ` set rows"
  by (induction rule: list_all2_induct) (simp_all add: same_event_says)

lemma same_event_trans: "same_event a b \<Longrightarrow> same_event b c \<Longrightarrow> same_event a c"
  by (simp add: same_event_def)

lemma same_event_rows:
  "list_all2 same_event rows (recordFailure opts now row err rows)"
  "list_all2 same_event rows (markPublished now row rows)"
  by (auto simp: recordFailure_def markPublished_def update_rows_def same_event_def
      list_all2_conv_all_nth)

lemma same_events_trans:
  "list_all2 same_event xs ys \<Longrightarrow> list_all2 same_event ys zs \<Longrightarrow> list_all2 same_event xs zs"
  by (rule list_all2_trans) (rule same_event_trans)

text \<open>
  Induction over the claimed rows with the branches of the loop body: a failure that halts the
  claim, a failure that does not, and a publish.
\<close>

lemma publish_rows_cases:
  assumes "publish_rows service opts now answer (row # todo) rows = (cr, rows')"
  obtains (halt) err where "cr = counted 0 1 [] row (idle True)"
      and "rows' = recordFailure opts now row err rows"
  | (skip) err cr' where "cr = counted 0 1 [] row cr'"
      and "publish_rows service opts now answer todo (recordFailure opts now row err rows) = (cr', rows')"
  | (sent) env cr' where "cr = counted 1 0 [env] row cr'"
      and "relay_publish service (answer (ob_id row)) row = Inr env"
      and "publish_rows service opts now answer todo (markPublished now row rows) = (cr', rows')"
proof (cases "relay_publish service (answer (ob_id row)) row")
  case (Inl err)
  show ?thesis
  proof (cases "\<exists>ty. err = UnroutableEventError ty")
    case True
    obtain cr' x where rest:
      "publish_rows service opts now answer todo (recordFailure opts now row err rows) = (cr', x)"
      by (meson surj_pair)
    show ?thesis by (rule skip [of cr' err]) (use Inl True assms rest in auto)
  next
    case False
    with Inl assms show ?thesis
      by (intro halt [of err]) (auto simp: Let_def split: service_error.splits)
  qed
next
  case (Inr env)
  obtain cr' x where rest:
    "publish_rows service opts now answer todo (markPublished now row rows) = (cr', x)"
    by (meson surj_pair)
  show ?thesis by (rule sent [of env cr']) (use Inr assms rest in auto)
qed

lemma publish_rows_same_event:
  "publish_rows service opts now answer todo rows = (cr, rows') \<Longrightarrow> list_all2 same_event rows rows'"
proof (induction todo arbitrary: cr rows)
  case Nil
  then show ?case by (auto simp: list_all2_conv_all_nth)
next
  case (Cons row todo)
  from Cons.prems show ?case
  proof (cases rule: publish_rows_cases)
    case halt
    then show ?thesis by (simp add: same_event_rows)
  next
    case (skip err cr')
    from Cons.IH [OF skip(2)] show ?thesis by (rule same_events_trans [OF same_event_rows(1)])
  next
    case (sent env cr')
    from Cons.IH [OF sent(3)] show ?thesis by (rule same_events_trans [OF same_event_rows(2)])
  qed
qed

lemma publish_rows_tried:
  "publish_rows service opts now answer todo rows = (cr, rows') \<Longrightarrow> set (cr_tried cr) \<subseteq> set todo"
proof (induction todo arbitrary: cr rows)
  case Nil
  then show ?case by (auto simp: idle_def)
next
  case (Cons row todo)
  from Cons.prems show ?case
    by (cases rule: publish_rows_cases) (use Cons.IH in \<open>fastforce simp: counted_def idle_def\<close>)+
qed

section \<open>Draining the outbox\<close>

definition unpublished :: "outbox_row list \<Rightarrow> nat" where
  "unpublished rows = length (filter (\<lambda>r. ob_publishedAt r = None) rows)"

lemma unpublished_recordFailure [simp]:
  "unpublished (recordFailure opts now row err rows) = unpublished rows"
  unfolding unpublished_def recordFailure_def update_rows_def by (induction rows) auto

lemma unpublished_markPublished_le: "unpublished (markPublished now row rows) \<le> unpublished rows"
  unfolding unpublished_def markPublished_def update_rows_def by (induction rows) auto

lemma unpublished_markPublished_less:
  "r \<in> set rows \<Longrightarrow> ob_id r = ob_id row \<Longrightarrow> ob_publishedAt r = None \<Longrightarrow>
     unpublished (markPublished now row rows) < unpublished rows"
proof (induction rows)
  case Nil
  then show ?case by simp
next
  case (Cons a rows)
  have le: "unpublished (markPublished now row rows) \<le> unpublished rows"
    by (rule unpublished_markPublished_le)
  have step: "unpublished (markPublished now row (a # rows)) =
      (if ob_id a = ob_id row \<or> ob_publishedAt a \<noteq> None then 0 else 1) +
      unpublished (markPublished now row rows)"
    by (simp add: unpublished_def markPublished_def update_rows_def)
  have whole: "unpublished (a # rows) = (if ob_publishedAt a \<noteq> None then 0 else 1) + unpublished rows"
    by (simp add: unpublished_def)
  show ?case
  proof (cases "r = a")
    case True
    with Cons.prems le step whole show ?thesis by simp
  next
    case False
    with Cons have "unpublished (markPublished now row rows) < unpublished rows" by simp
    with step whole show ?thesis by simp
  qed
qed

lemma publish_rows_unpublished_le:
  "publish_rows service opts now answer todo rows = (cr, rows') \<Longrightarrow> unpublished rows' \<le> unpublished rows"
proof (induction todo arbitrary: cr rows)
  case (Cons row todo)
  from Cons.prems show ?case
  proof (cases rule: publish_rows_cases)
    case (skip err cr')
    from Cons.IH [OF skip(2)] show ?thesis by simp
  next
    case (sent env cr')
    from Cons.IH [OF sent(3)] show ?thesis
      by (rule order_trans) (rule unpublished_markPublished_le)
  qed simp
qed simp

lemma publish_rows_unpublished_less:
  assumes "publish_rows service opts now answer todo rows = (cr, rows')" and "0 < cr_published cr"
    and "\<And>row. row \<in> set todo \<Longrightarrow> \<exists>r\<in>set rows. ob_id r = ob_id row \<and> ob_publishedAt r = None"
  shows "unpublished rows' < unpublished rows"
  using assms
proof (induction todo arbitrary: cr rows)
  case Nil
  then show ?case by (auto simp: idle_def)
next
  case (Cons row todo)
  from Cons.prems(1) show ?case
  proof (cases rule: publish_rows_cases)
    case halt
    with Cons.prems(2) show ?thesis by (simp add: counted_def idle_def)
  next
    case (skip err cr')
    have "unpublished rows' < unpublished (recordFailure opts now row err rows)"
    proof (rule Cons.IH [OF skip(2)])
      show "0 < cr_published cr'" using skip(1) Cons.prems(2) by (simp add: counted_def)
      fix x assume "x \<in> set todo"
      with Cons.prems(3) [of x] obtain r where "r \<in> set rows" "ob_id r = ob_id x"
        "ob_publishedAt r = None" by auto
      then show "\<exists>r\<in>set (recordFailure opts now row err rows).
          ob_id r = ob_id x \<and> ob_publishedAt r = None"
        unfolding recordFailure_def set_update_rows by (intro bexI [OF _ imageI]) auto
    qed
    then show ?thesis by simp
  next
    case (sent env cr')
    have "unpublished rows' \<le> unpublished (markPublished now row rows)"
      by (rule publish_rows_unpublished_le [OF sent(3)])
    also have "\<dots> < unpublished rows"
      using Cons.prems(3) [of row] by (auto intro: unpublished_markPublished_less)
    finally show ?thesis .
  qed
qed

lemma CLAIM_SQL_member:
  "r \<in> set (CLAIM_SQL now limit locked rows) \<Longrightarrow>
     r \<in> set rows \<and> claimable now rows r \<and> ob_id r \<notin> locked"
  by (auto simp: CLAIM_SQL_def dest!: in_set_takeD)

lemma claimAndPublish_unpublished_less:
  "claimAndPublish service opts now locked answer rows = (cr, rows') \<Longrightarrow> 0 < cr_published cr \<Longrightarrow>
     unpublished rows' < unpublished rows"
  unfolding claimAndPublish_def
  by (erule publish_rows_unpublished_less) (auto dest!: CLAIM_SQL_member simp: claimable_def)

text \<open>
  What the \<open>k\<close>-th claim of a tick meets: whether the relay is stopping, the clock, the rows other
  instances hold, and the broker's answers. A claim that published something made the backlog
  shorter, so the loop ends.
\<close>

record claim_env =
  ce_stopping :: bool
  ce_now :: time
  ce_locked :: "ident set"
  ce_answer :: "ident \<Rightarrow> broker_answer"

function tick ::
  "ident \<Rightarrow> relay_options \<Rightarrow> (nat \<Rightarrow> claim_env) \<Rightarrow> nat \<Rightarrow> outbox_row list
     \<Rightarrow> nat \<times> envelope list \<times> outbox_row list" where
  "tick service opts env k rows =
     (if ce_stopping (env k) then (0, [], rows)
      else let (cr, rows') = claimAndPublish service opts (ce_now (env k)) (ce_locked (env k))
                               (ce_answer (env k)) rows in
        if cr_halted cr \<or> cr_published cr = 0 then (cr_published cr, cr_sent cr, rows')
        else let (total, sent, rest) = tick service opts env (Suc k) rows'
             in (cr_published cr + total, cr_sent cr @ sent, rest))"
  by pat_completeness auto
termination
  by (relation "measure (\<lambda>(_, _, _, _, rows). unpublished rows)")
    (auto dest: claimAndPublish_unpublished_less [OF sym])

declare tick.simps [simp del]

section \<open>Order of delivery\<close>

text \<open>
  The relay as a system. Services append rows in transactions of their own; a relay claims and
  publishes; it may crash inside a claim, so that the rows tried so far reached the broker and
  the transaction did not commit; published rows are pruned. \<open>tried\<close> records every row handed
  to the publisher, in order, whatever the broker answered.
\<close>

definition event_key :: "outbox_row \<Rightarrow> ident \<times> nat \<times> ident" where
  "event_key r = (ob_aggregateId r, ob_seq r, ob_id r)"

record relay_state =
  rs_db :: service_db
  rs_tried :: "(ident \<times> nat \<times> ident) list"

inductive relay_step :: "relay_state \<Rightarrow> relay_state \<Rightarrow> bool" where
  written: "insertOutboxEvent u now event (rs_db s) = Inr (i, db') \<Longrightarrow>
     relay_step s (s\<lparr> rs_db := db' \<rparr>)"
| claimed: "claimAndPublish service opts now locked answer (outbox_events (rs_db s)) = (cr, rows') \<Longrightarrow>
     relay_step s (s\<lparr> rs_db := (rs_db s)\<lparr> outbox_events := rows' \<rparr>,
                      rs_tried := rs_tried s @ map event_key (cr_tried cr) \<rparr>)"
| crashed: "claimAndPublish service opts now locked answer (outbox_events (rs_db s)) = (cr, rows') \<Longrightarrow>
     relay_step s (s\<lparr> rs_tried := rs_tried s @ map event_key (take n (cr_tried cr)) \<rparr>)"
| pruned: "pruneEventTables now retention batch stop1 stopped stop2 waiting (rs_db s) = (counts, db') \<Longrightarrow>
     relay_step s (s\<lparr> rs_db := db' \<rparr>)"

definition relay_start :: "relay_state \<Rightarrow> bool" where
  "relay_start s \<longleftrightarrow> outbox_events (rs_db s) = [] \<and> rs_tried s = []"

text \<open>
  The invariant: ids are unique, sequence numbers are below the next one, every published row
  was tried, and whatever was tried at position \<open>i\<close> was preceded by every earlier event of its
  aggregate.
\<close>

definition in_order :: "(ident \<times> nat \<times> ident) set \<Rightarrow> (ident \<times> nat \<times> ident) list \<Rightarrow> bool" where
  "in_order known tried \<longleftrightarrow>
     (\<forall>i < length tried. \<forall>k \<in> known \<union> set tried.
        fst k = fst (tried ! i) \<and> fst (snd k) < fst (snd (tried ! i)) \<longrightarrow> k \<in> set (take i tried))"

definition relay_ok :: "relay_state \<Rightarrow> bool" where
  "relay_ok s \<longleftrightarrow>
     (let rows = outbox_events (rs_db s) in
        distinct (map ob_id rows) \<and>
        (\<forall>k \<in> event_key ` set rows \<union> set (rs_tried s). fst (snd k) < outbox_seq (rs_db s)) \<and>
        (\<forall>r \<in> set rows. ob_publishedAt r \<noteq> None \<longrightarrow> event_key r \<in> set (rs_tried s)) \<and>
        in_order (event_key ` set rows) (rs_tried s))"

lemma in_order_append:
  assumes "in_order known tried" and "set new \<subseteq> known"
    and "\<And>x k. x \<in> set new \<Longrightarrow> k \<in> known \<Longrightarrow> fst k = fst x \<Longrightarrow> fst (snd k) < fst (snd x) \<Longrightarrow>
           k \<in> set tried"
  shows "in_order known (tried @ new)"
  unfolding in_order_def
proof (intro allI impI ballI)
  fix i k
  assume i: "i < length (tried @ new)" and k: "k \<in> known \<union> set (tried @ new)"
    and less: "fst k = fst ((tried @ new) ! i) \<and> fst (snd k) < fst (snd ((tried @ new) ! i))"
  from k assms(2) have k': "k \<in> known \<union> set tried" by auto
  show "k \<in> set (take i (tried @ new))"
  proof (cases "i < length tried")
    case True
    with assms(1) k' less show ?thesis by (auto simp: in_order_def nth_append)
  next
    case False
    with i have "(tried @ new) ! i \<in> set new" by (auto simp: nth_append)
    with assms(3) [of "(tried @ new) ! i" k] k' less have "k \<in> set tried" by blast
    with False show ?thesis by (auto simp: take_append)
  qed
qed

lemma in_order_subset: "in_order known tried \<Longrightarrow> known' \<subseteq> known \<union> set tried \<Longrightarrow> in_order known' tried"
  unfolding in_order_def by blast

lemma event_key_same_event: "same_event r r' \<Longrightarrow> event_key r' = event_key r"
  by (simp add: same_event_def event_key_def)

lemma same_events_keys:
  "list_all2 same_event rows rows' \<Longrightarrow> map event_key rows' = map event_key rows"
  by (induction rule: list_all2_induct) (auto simp: event_key_same_event)

lemma same_events_ids: "list_all2 same_event rows rows' \<Longrightarrow> map ob_id rows' = map ob_id rows"
  by (induction rule: list_all2_induct) (auto simp: same_event_def)

text \<open>A claim publishes only rows it tried.\<close>

lemma publish_rows_published:
  assumes "publish_rows service opts now answer todo rows = (cr, rows')"
    and "distinct (map ob_id rows)" and "event_key ` set todo \<subseteq> event_key ` set rows"
    and "r \<in> set rows'" and "ob_publishedAt r \<noteq> None"
  shows "event_key r \<in> event_key ` {r \<in> set rows. ob_publishedAt r \<noteq> None} \<union> event_key ` set (cr_tried cr)"
  using assms
proof (induction todo arbitrary: cr rows)
  case Nil
  then show ?case by auto
next
  case (Cons row todo)
  have failure: "event_key ` {r \<in> set (recordFailure opts now row err rows). ob_publishedAt r \<noteq> None}
      \<subseteq> event_key ` {r \<in> set rows. ob_publishedAt r \<noteq> None}" for err
    by (auto simp: recordFailure_def set_update_rows event_key_def image_iff split: if_splits)
  from Cons.prems(1) show ?case
  proof (cases rule: publish_rows_cases)
    case (halt err)
    with failure [of err] Cons.prems(4,5) show ?thesis by (auto simp: counted_def)
  next
    case (skip err cr')
    let ?rows = "recordFailure opts now row err rows"
    have same: "list_all2 same_event rows ?rows" by (rule same_event_rows)
    have "event_key r \<in> event_key ` {r \<in> set ?rows. ob_publishedAt r \<noteq> None} \<union> event_key ` set (cr_tried cr')"
    proof (rule Cons.IH [OF skip(2)])
      show "distinct (map ob_id ?rows)" using Cons.prems(2) same_events_ids [OF same] by simp
      show "event_key ` set todo \<subseteq> event_key ` set ?rows"
        using Cons.prems(3) same_events_keys [OF same] by (metis list.set_map set_subset_Cons
            image_mono order_trans)
    qed (use Cons.prems in auto)
    with failure [of err] skip(1) show ?thesis by (auto simp: counted_def)
  next
    case (sent env cr')
    let ?rows = "markPublished now row rows"
    have same: "list_all2 same_event rows ?rows" by (rule same_event_rows)
    have "event_key r \<in> event_key ` {r \<in> set ?rows. ob_publishedAt r \<noteq> None} \<union> event_key ` set (cr_tried cr')"
    proof (rule Cons.IH [OF sent(3)])
      show "distinct (map ob_id ?rows)" using Cons.prems(2) same_events_ids [OF same] by simp
      show "event_key ` set todo \<subseteq> event_key ` set ?rows"
        using Cons.prems(3) same_events_keys [OF same] by (metis list.set_map set_subset_Cons
            image_mono order_trans)
    qed (use Cons.prems in auto)
    moreover have "event_key ` {r \<in> set ?rows. ob_publishedAt r \<noteq> None}
        \<subseteq> insert (event_key row) (event_key ` {r \<in> set rows. ob_publishedAt r \<noteq> None})"
    proof
      fix k assume "k \<in> event_key ` {r \<in> set ?rows. ob_publishedAt r \<noteq> None}"
      then obtain x where x: "x \<in> set rows" "k = event_key x" "ob_id x = ob_id row \<or> ob_publishedAt x \<noteq> None"
        by (auto simp: markPublished_def set_update_rows event_key_def split: if_splits)
      from Cons.prems(3) obtain y where y: "y \<in> set rows" "event_key row = event_key y" by auto
      have "x = y" if "ob_id x = ob_id row"
        using that x(1) y Cons.prems(2) by (auto simp: event_key_def distinct_map dest: inj_onD)
      with x y show "k \<in> insert (event_key row) (event_key ` {r \<in> set rows. ob_publishedAt r \<noteq> None})"
        by auto
    qed
    ultimately show ?thesis using sent(1) by (auto simp: counted_def)
  qed
qed

lemma delete_batch_subset:
  "delete_batch b p rs = (n, rs') \<Longrightarrow> set rs' \<subseteq> set rs \<and> (\<forall>r\<in>set rs - set rs'. p r) \<and>
     (distinct (map key rs) \<longrightarrow> distinct (map key rs'))"
proof (induction b p rs arbitrary: n rs' rule: delete_batch.induct)
  case (3 b p r rs)
  show ?case
  proof (cases "p r")
    case True
    with 3(3) obtain m where "delete_batch b p rs = (m, rs')" by (auto split: prod.splits)
    with 3(1) [OF True] True show ?thesis by auto
  next
    case False
    with 3(3) obtain m mid where "delete_batch (Suc b) p rs = (m, mid)" and "rs' = r # mid"
      by (auto split: prod.splits)
    with 3(2) [OF False] show ?thesis by auto
  qed
qed auto

lemma deleteInBatches_subset:
  "deleteInBatches stop k b p rs = (n, rs') \<Longrightarrow> set rs' \<subseteq> set rs \<and> (\<forall>r\<in>set rs - set rs'. p r) \<and>
     (distinct (map key rs) \<longrightarrow> distinct (map key rs'))"
proof (induction stop k b p rs arbitrary: n rs' rule: deleteInBatches.induct)
  case (1 stop k b p rs)
  obtain m mid where batch: "delete_batch b p rs = (m, mid)" by (meson surj_pair)
  show ?case
  proof (cases "stop k \<or> m = 0")
    case True
    with 1(2) batch have "rs' = rs"
      by (auto simp: deleteInBatches.simps [of stop k] split: if_splits)
    then show ?thesis by simp
  next
    case False
    obtain t rest where rec: "deleteInBatches stop (Suc k) b p mid = (t, rest)" by (meson surj_pair)
    with 1(2) batch False have "rs' = rest" by (auto simp: deleteInBatches.simps [of stop k])
    moreover have "set rest \<subseteq> set mid \<and> (\<forall>r\<in>set mid - set rest. p r) \<and>
        (distinct (map key mid) \<longrightarrow> distinct (map key rest))"
      using False by (intro 1(1) [OF _ batch [symmetric] _ _ rec]) auto
    ultimately show ?thesis using delete_batch_subset [OF batch, of key] by blast
  qed
qed

lemma pruneEventTables_outbox:
  assumes "pruneEventTables now retention batch stop1 stopped stop2 waiting db = (counts, db')"
  shows "set (outbox_events db') \<subseteq> set (outbox_events db)"
    and "r \<in> set (outbox_events db) - set (outbox_events db') \<Longrightarrow> ob_publishedAt r \<noteq> None"
    and "distinct (map ob_id (outbox_events db)) \<Longrightarrow> distinct (map ob_id (outbox_events db'))"
    and "outbox_seq db' = outbox_seq db"
proof -
  let ?p = "\<lambda>r. case ob_publishedAt r of None \<Rightarrow> False | Some t \<Rightarrow> t < now - outboxDays retention * day"
  obtain n obs where del: "deleteInBatches stop1 0 batch ?p (outbox_events db) = (n, obs)"
    by (meson surj_pair)
  with assms have out: "outbox_events db' = obs" and "outbox_seq db' = outbox_seq db"
    by (auto simp: pruneEventTables_def Let_def split: prod.splits if_splits)
  then show "outbox_seq db' = outbox_seq db" by simp
  note sub = deleteInBatches_subset [OF del, of ob_id]
  from sub out show "set (outbox_events db') \<subseteq> set (outbox_events db)"
    and "distinct (map ob_id (outbox_events db)) \<Longrightarrow> distinct (map ob_id (outbox_events db'))"
    by simp_all
  assume "r \<in> set (outbox_events db) - set (outbox_events db')"
  with sub out have "?p r" by blast
  then show "ob_publishedAt r \<noteq> None" by (auto split: option.splits)
qed

text \<open>Every step keeps the invariant.\<close>

lemma relay_ok_claim:
  assumes ok: "relay_ok s"
    and claim: "claimAndPublish service opts now locked answer (outbox_events (rs_db s)) = (cr, rows')"
  shows "in_order (event_key ` set (outbox_events (rs_db s)))
      (rs_tried s @ map event_key (take n (cr_tried cr)))"
proof (rule in_order_append)
  let ?rows = "outbox_events (rs_db s)"
  show "in_order (event_key ` set ?rows) (rs_tried s)" using ok by (simp add: relay_ok_def Let_def)
  have tried: "set (cr_tried cr) \<subseteq> set (CLAIM_SQL now (batchSize opts) locked ?rows)"
    using claim by (auto simp: claimAndPublish_def dest: publish_rows_tried)
  then show "set (map event_key (take n (cr_tried cr))) \<subseteq> event_key ` set ?rows"
    by (auto dest!: in_set_takeD dest: CLAIM_SQL_member)
  fix x k
  assume "x \<in> set (map event_key (take n (cr_tried cr)))" and "k \<in> event_key ` set ?rows"
    and same: "fst k = fst x" and less: "fst (snd k) < fst (snd x)"
  then obtain r e where r: "r \<in> set (cr_tried cr)" "x = event_key r"
    and e: "e \<in> set ?rows" "k = event_key e" by (auto dest: in_set_takeD)
  with tried have "claimable now ?rows r" by (auto dest: CLAIM_SQL_member)
  with e r same less have "ob_publishedAt e \<noteq> None" by (auto simp: claimable_def event_key_def)
  with e ok show "k \<in> set (rs_tried s)" by (simp add: relay_ok_def Let_def)
qed

lemma relay_ok_tried_subset:
  assumes "claimAndPublish service opts now locked answer rows = (cr, rows')"
  shows "event_key ` set (cr_tried cr) \<subseteq> event_key ` set rows"
  using assms by (auto simp: claimAndPublish_def dest!: publish_rows_tried CLAIM_SQL_member subsetD)

lemma relay_ok_claimed:
  assumes ok: "relay_ok s"
    and claim: "claimAndPublish service opts now locked answer (outbox_events (rs_db s)) = (cr, rows')"
  shows "relay_ok (s\<lparr> rs_db := (rs_db s)\<lparr> outbox_events := rows' \<rparr>,
                      rs_tried := rs_tried s @ map event_key (cr_tried cr) \<rparr>)"
proof -
  let ?rows = "outbox_events (rs_db s)"
  have pub: "publish_rows service opts now answer (CLAIM_SQL now (batchSize opts) locked ?rows) ?rows
      = (cr, rows')"
    using claim by (simp add: claimAndPublish_def)
  have same: "list_all2 same_event ?rows rows'" by (rule publish_rows_same_event [OF pub])
  have keys: "event_key ` set rows' = event_key ` set ?rows"
    using same_events_keys [OF same] by (metis list.set_map)
  have ids: "distinct (map ob_id ?rows)" using ok by (simp add: relay_ok_def Let_def)
  have todo: "event_key ` set (CLAIM_SQL now (batchSize opts) locked ?rows) \<subseteq> event_key ` set ?rows"
    by (auto dest: CLAIM_SQL_member)
  have order: "in_order (event_key ` set ?rows) (rs_tried s @ map event_key (cr_tried cr))"
    using relay_ok_claim [OF ok claim, of "length (cr_tried cr)"] by simp
  have published: "event_key r \<in> set (rs_tried s) \<union> event_key ` set (cr_tried cr)"
    if "r \<in> set rows'" "ob_publishedAt r \<noteq> None" for r
    using publish_rows_published [OF pub ids todo that] ok by (auto simp: relay_ok_def Let_def)
  have seqs: "\<forall>k \<in> event_key ` set ?rows \<union> set (rs_tried s). fst (snd k) < outbox_seq (rs_db s)"
    using ok by (simp add: relay_ok_def Let_def)
  show ?thesis
    using ids same_events_ids [OF same] keys order published seqs relay_ok_tried_subset [OF claim]
    by (auto simp: relay_ok_def Let_def)
qed

lemma relay_ok_crashed:
  assumes ok: "relay_ok s"
    and claim: "claimAndPublish service opts now locked answer (outbox_events (rs_db s)) = (cr, rows')"
  shows "relay_ok (s\<lparr> rs_tried := rs_tried s @ map event_key (take n (cr_tried cr)) \<rparr>)"
proof -
  have "fst (snd (event_key r)) < outbox_seq (rs_db s)" if "r \<in> set (take n (cr_tried cr))" for r
    using that ok relay_ok_tried_subset [OF claim]
    by (auto simp: relay_ok_def Let_def dest!: in_set_takeD)
  then show ?thesis
    using ok relay_ok_claim [OF ok claim] by (auto simp: relay_ok_def Let_def)
qed

lemma relay_ok_written:
  assumes ok: "relay_ok s" and ins: "insertOutboxEvent u now event (rs_db s) = Inr (i, db')"
  shows "relay_ok (s\<lparr> rs_db := db' \<rparr>)"
proof -
  from ins obtain v where v: "i = rv_id v" "i \<notin> ob_id ` set (outbox_events (rs_db s))"
    "db' = (rs_db s)\<lparr> outbox_events := outbox_events (rs_db s) @ [outbox_row_of now (outbox_seq (rs_db s)) v],
                outbox_seq := Suc (outbox_seq (rs_db s)) \<rparr>"
    by (rule insertOutboxEvent_Inr)
  let ?new = "event_key (outbox_row_of now (outbox_seq (rs_db s)) v)"
  have seqs: "fst (snd k) < outbox_seq (rs_db s)" if "k \<in> set (rs_tried s)" for k
    using ok that by (auto simp: relay_ok_def Let_def)
  have "in_order (event_key ` set (outbox_events (rs_db s))) (rs_tried s)"
    using ok by (simp add: relay_ok_def Let_def)
  moreover have "\<not> fst (snd ?new) < fst (snd (rs_tried s ! i))" if "i < length (rs_tried s)" for i
    using seqs [OF nth_mem [OF that]] by (simp add: event_key_def outbox_row_of_def)
  ultimately have "in_order (insert ?new (event_key ` set (outbox_events (rs_db s)))) (rs_tried s)"
    unfolding in_order_def by blast
  then have order: "in_order (event_key ` set (outbox_events db')) (rs_tried s)"
    using v(3) by (simp add: in_order_subset)
  have "distinct (map ob_id (outbox_events db'))"
    using ok v by (auto simp: relay_ok_def Let_def outbox_row_of_def)
  moreover have "\<forall>k \<in> event_key ` set (outbox_events db') \<union> set (rs_tried s). fst (snd k) < outbox_seq db'"
    using ok v(3)
    by (auto simp: relay_ok_def Let_def outbox_row_of_def event_key_def intro: less_SucI)
  moreover have "\<forall>r \<in> set (outbox_events db'). ob_publishedAt r \<noteq> None \<longrightarrow> event_key r \<in> set (rs_tried s)"
    using ok v(3) by (simp add: relay_ok_def Let_def outbox_row_of_def)
  ultimately show ?thesis using order by (simp add: relay_ok_def Let_def)
qed

lemma relay_ok_pruned:
  assumes ok: "relay_ok s"
    and prune: "pruneEventTables now retention batch stop1 stopped stop2 waiting (rs_db s) = (counts, db')"
  shows "relay_ok (s\<lparr> rs_db := db' \<rparr>)"
proof -
  note sub = pruneEventTables_outbox [OF prune]
  let ?rows = "outbox_events (rs_db s)"
  have keys: "event_key ` set (outbox_events db') \<subseteq> event_key ` set ?rows"
    by (rule image_mono [OF sub(1)])
  have old: "distinct (map ob_id ?rows)" "in_order (event_key ` set ?rows) (rs_tried s)"
    "\<forall>k \<in> event_key ` set ?rows \<union> set (rs_tried s). fst (snd k) < outbox_seq (rs_db s)"
    "\<forall>r \<in> set ?rows. ob_publishedAt r \<noteq> None \<longrightarrow> event_key r \<in> set (rs_tried s)"
    using ok by (simp_all add: relay_ok_def Let_def)
  have "in_order (event_key ` set (outbox_events db')) (rs_tried s)"
    using keys by (intro in_order_subset [OF old(2)]) blast
  moreover have "distinct (map ob_id (outbox_events db'))" by (rule sub(3) [OF old(1)])
  moreover have "\<forall>k \<in> event_key ` set (outbox_events db') \<union> set (rs_tried s). fst (snd k) < outbox_seq db'"
    unfolding sub(4) by (rule ballI, rule bspec [OF old(3)]) (use keys in blast)
  moreover have "\<forall>r \<in> set (outbox_events db'). ob_publishedAt r \<noteq> None \<longrightarrow> event_key r \<in> set (rs_tried s)"
    using old(4) sub(1) by blast
  ultimately show ?thesis by (simp add: relay_ok_def Let_def)
qed

interpretation relay: inductive_invariant relay_start relay_step relay_ok
proof unfold_locales
  fix s :: relay_state
  assume "relay_start s"
  then show "relay_ok s" by (simp add: relay_start_def relay_ok_def in_order_def)
next
  fix s t :: relay_state
  assume ok: "relay_ok s" and step: "relay_step s t"
  from step show "relay_ok t"
    by cases (auto intro: relay_ok_written relay_ok_claimed relay_ok_crashed relay_ok_pruned ok)
qed

section \<open>Properties\<close>

lemma sort_key_nonempty: "xs \<noteq> [] \<Longrightarrow> take (Suc n) (sort_key f xs) \<noteq> []"
  by (metis Zero_not_Suc length_0_conv length_sort take_eq_Nil)

text \<open>The oldest unpublished row of a table with no row backing off or locked is claimable.\<close>

lemma CLAIM_SQL_nonempty:
  assumes "\<exists>r\<in>set rows. ob_publishedAt r = None" and "\<forall>r\<in>set rows. ob_nextAttemptAt r \<le> now"
  shows "CLAIM_SQL now (Suc n) {} rows \<noteq> []"
proof -
  define open_rows where "open_rows = filter (\<lambda>r. ob_publishedAt r = None) rows"
  define r where "r = arg_min_list ob_seq open_rows"
  have ne: "open_rows \<noteq> []" using assms(1) by (auto simp: open_rows_def filter_empty_conv)
  then have "r \<in> set open_rows" by (simp add: r_def arg_min_list_in)
  moreover have "\<not> ob_seq e < ob_seq r" if "e \<in> set open_rows" for e
    using that ne by (auto simp: r_def f_arg_min_list_f not_less)
  ultimately have "claimable now rows r" and "r \<in> set rows"
    using assms(2) by (auto simp: claimable_def open_rows_def)
  then have "filter (\<lambda>r. claimable now rows r \<and> ob_id r \<notin> {}) rows \<noteq> []"
    by (auto simp: filter_empty_conv)
  then show ?thesis unfolding CLAIM_SQL_def by (rule sort_key_nonempty)
qed

definition publishable :: "outbox_row \<Rightarrow> bool" where
  "publishable r \<longleftrightarrow> (case PAYLOAD_SCHEMAS (ob_eventType r) of None \<Rightarrow> False
                      | Some schema \<Rightarrow> schema (ob_payload r))"

lemma relay_publish_Confirmed: "publishable r \<Longrightarrow> \<exists>env. relay_publish service Confirmed r = Inr env"
  by (auto simp: publishable_def relay_publish_def publisher_publish_def Let_def split: option.splits)

lemma publish_rows_all_Confirmed:
  assumes "\<forall>r\<in>set todo. publishable r"
  shows "\<exists>cr rows'. publish_rows service opts now (\<lambda>_. Confirmed) todo rows = (cr, rows') \<and>
           \<not> cr_halted cr \<and> cr_published cr = length todo"
  using assms
proof (induction todo arbitrary: rows)
  case Nil
  then show ?case by (simp add: idle_def)
next
  case (Cons row todo)
  then obtain env where env: "relay_publish service Confirmed row = Inr env"
    using relay_publish_Confirmed by fastforce
  from Cons obtain cr rows' where
    "publish_rows service opts now (\<lambda>_. Confirmed) todo (markPublished now row rows) = (cr, rows')"
    "\<not> cr_halted cr" "cr_published cr = length todo" by fastforce
  with env show ?case by (simp add: counted_def)
qed

text \<open>Neither publishing nor failing changes what makes a row publishable; a publish leaves it due.\<close>

lemma same_event_publishable: "same_event r r' \<Longrightarrow> publishable r' = publishable r"
  by (simp add: same_event_def publishable_def split: option.splits)

lemma same_events_publishable:
  "list_all2 same_event rows rows' \<Longrightarrow> \<forall>r\<in>set rows. publishable r \<Longrightarrow> \<forall>r\<in>set rows'. publishable r"
  by (induction rule: list_all2_induct) (auto simp: same_event_publishable)

lemma publish_rows_Confirmed_due:
  assumes "\<forall>r\<in>set todo. publishable r" and "\<forall>r\<in>set rows. ob_nextAttemptAt r \<le> now"
    and "publish_rows service opts now' (\<lambda>_. Confirmed) todo rows = (cr, rows')"
  shows "\<forall>r\<in>set rows'. ob_nextAttemptAt r \<le> now"
  using assms
proof (induction todo arbitrary: rows cr)
  case Nil
  then show ?case by simp
next
  case (Cons row todo)
  then obtain env where env: "relay_publish service Confirmed row = Inr env"
    using relay_publish_Confirmed by fastforce
  have "\<forall>r\<in>set (markPublished now' row rows). ob_nextAttemptAt r \<le> now"
    using Cons.prems(2) by (auto simp: markPublished_def set_update_rows)
  moreover obtain cr' where
    "publish_rows service opts now' (\<lambda>_. Confirmed) todo (markPublished now' row rows) = (cr', rows')"
    using Cons.prems(3) env by (auto split: prod.splits)
  ultimately show ?case using Cons by simp
qed

section \<open>A concrete run\<close>

text \<open>Two activations of one user: the first is written and published, then the second is written.\<close>

definition demo_event :: "ident \<Rightarrow> new_outbox_event" where
  "demo_event i =
     \<lparr> ne_id = Some i, ne_eventType = USER_ACTIVATED, ne_aggregateId = ''alice'',
       ne_payload = UserActivatedPayload ''alice'' 0, ne_correlationId = ''c'',
       ne_causationId = None, ne_schemaVersion = None \<rparr>"

definition demo_row :: "ident \<Rightarrow> nat \<Rightarrow> time \<Rightarrow> outbox_row" where
  "demo_row i sq now =
     \<lparr> ob_id = i, ob_seq = sq, ob_eventType = USER_ACTIVATED, ob_schemaVersion = 1,
       ob_aggregateId = ''alice'', ob_payload = UserActivatedPayload ''alice'' 0,
       ob_correlationId = ''c'', ob_causationId = None, ob_occurredAt = now,
       ob_publishedAt = None, ob_attempts = 0, ob_lastError = None, ob_nextAttemptAt = now \<rparr>"

definition demo_published :: outbox_row where
  "demo_published = (demo_row ''e0'' 0 0)\<lparr> ob_publishedAt := Some 10, ob_attempts := 1 \<rparr>"

definition demo_db :: "outbox_row list \<Rightarrow> nat \<Rightarrow> service_db" where
  "demo_db rows n = \<lparr> outbox_events = rows, outbox_seq = n, processed_events = [] \<rparr>"

definition demo_answer :: "ident \<Rightarrow> broker_answer" where
  "demo_answer i = Confirmed"

lemma demo_insert:
  "i \<notin> ob_id ` set rows \<Longrightarrow>
     insertOutboxEvent [] now (demo_event i) (demo_db rows n) =
       Inr (i, demo_db (rows @ [demo_row i n now]) (Suc n))"
  by (simp add: insertOutboxEvent_def toOutboxRow_def demo_event_def demo_db_def demo_row_def
      outbox_row_of_def)

lemma demo_publish:
  "relay_publish ''user-service'' Confirmed (demo_row i n now) =
     Inr \<lparr> eventId = i, eventType = USER_ACTIVATED, schemaVersion = 1, aggregateId = ''alice'',
           occurredAt = iso now, producer = ''user-service'', correlationId = ''c'',
           causationId = ''c'', ev_payload = UserActivatedPayload ''alice'' 0 \<rparr>"
  by (simp add: relay_publish_def publisher_publish_def createEnvelope_def demo_row_def Let_def)

lemma demo_claim:
  "\<exists>cr. claimAndPublish ''user-service'' relay_defaults 10 {} demo_answer [demo_row ''e0'' 0 0] =
     (cr, [demo_published]) \<and> cr_tried cr = [demo_row ''e0'' 0 0]"
  "\<exists>cr rows'. claimAndPublish ''user-service'' relay_defaults 10 {} demo_answer
       [demo_published, demo_row ''e1'' 1 10] = (cr, rows') \<and> cr_tried cr = [demo_row ''e1'' 1 10]"
proof -
  have "CLAIM_SQL 10 100 {} [demo_row ''e0'' 0 0] = [demo_row ''e0'' 0 0]"
    and "CLAIM_SQL 10 100 {} [demo_published, demo_row ''e1'' 1 10] = [demo_row ''e1'' 1 10]"
    by (simp_all add: CLAIM_SQL_def claimable_def demo_published_def demo_row_def)
  then show "\<exists>cr. claimAndPublish ''user-service'' relay_defaults 10 {} demo_answer [demo_row ''e0'' 0 0] =
     (cr, [demo_published]) \<and> cr_tried cr = [demo_row ''e0'' 0 0]"
    and "\<exists>cr rows'. claimAndPublish ''user-service'' relay_defaults 10 {} demo_answer
       [demo_published, demo_row ''e1'' 1 10] = (cr, rows') \<and> cr_tried cr = [demo_row ''e1'' 1 10]"
    by (simp_all add: claimAndPublish_def relay_defaults_def demo_answer_def demo_publish counted_def
        idle_def markPublished_def update_rows_def demo_published_def)
      (simp_all add: demo_row_def)
qed

definition demo_state :: relay_state where
  "demo_state = \<lparr> rs_db = demo_db [demo_published, demo_row ''e1'' 1 10] 2,
                  rs_tried = [(''alice'', 0, ''e0''), (''alice'', 1, ''e1'')] \<rparr>"

lemma demo_reachable: "reachable relay_start relay_step demo_state"
proof -
  let ?s0 = "\<lparr> rs_db = demo_db [] 0, rs_tried = [] \<rparr>"
  let ?s1 = "\<lparr> rs_db = demo_db [demo_row ''e0'' 0 0] 1, rs_tried = [] \<rparr>"
  let ?s2 = "\<lparr> rs_db = demo_db [demo_published] 1, rs_tried = [(''alice'', 0, ''e0'')] \<rparr>"
  let ?s3 = "\<lparr> rs_db = demo_db [demo_published, demo_row ''e1'' 1 10] 2,
               rs_tried = [(''alice'', 0, ''e0'')] \<rparr>"
  have "reachable relay_start relay_step ?s0"
    by (rule reachable_init) (simp add: relay_start_def demo_db_def)
  moreover have "relay_step ?s0 ?s1"
    using relay_step.written [of "[]" 0 "demo_event ''e0''" ?s0] by (simp add: demo_insert)
  moreover have "relay_step ?s1 ?s2"
    using demo_claim(1) relay_step.claimed [of "''user-service''" relay_defaults 10 "{}" demo_answer ?s1]
    by (auto simp: demo_db_def event_key_def demo_row_def)
  moreover have "relay_step ?s2 ?s3"
    using relay_step.written [of "[]" 10 "demo_event ''e1''" ?s2]
    by (simp add: demo_insert demo_published_def demo_row_def numeral_2_eq_2)
  moreover have "relay_step ?s3 demo_state"
    using demo_claim(2) relay_step.crashed [of "''user-service''" relay_defaults 10 "{}" demo_answer ?s3 _ _ 1]
    by (auto simp: demo_db_def event_key_def demo_row_def demo_state_def)
  ultimately show ?thesis by (meson reachable_step)
qed

section \<open>What the relay guarantees\<close>

text \<open>
  C6. Delivery order. Whenever a row is handed to the broker (first copy or a repeat, whatever the
  broker answers, with relays crashing inside a claim and published rows being pruned), every
  event of the same aggregate written before it has already been handed over earlier.
\<close>

theorem relay_keeps_aggregate_order:
  assumes "reachable relay_start relay_step s"
    and "i < length (rs_tried s)"
    and "k \<in> event_key ` set (outbox_events (rs_db s)) \<union> set (rs_tried s)"
    and "fst k = fst (rs_tried s ! i)" and "fst (snd k) < fst (snd (rs_tried s ! i))"
  shows "k \<in> set (take i (rs_tried s))"
proof -
  have "in_order (event_key ` set (outbox_events (rs_db s))) (rs_tried s)"
    using relay.holds [OF assms(1)] by (simp add: relay_ok_def Let_def)
  then show ?thesis using assms(2-5) unfolding in_order_def by blast
qed

theorem relay_keeps_aggregate_order_witness:
  "(''alice'', 0, ''e0'') \<in> set (take 1 (rs_tried demo_state))"
  by (rule relay_keeps_aggregate_order [OF demo_reachable])
    (simp_all add: demo_state_def demo_db_def event_key_def)

text \<open>
  C7. A tick ends and drains the outbox: when the broker confirms every publish, nothing is backing
  off and every payload fits its schema, no row is left unpublished, whatever the batch size.
\<close>

theorem tick_drains_outbox:
  assumes "\<forall>r\<in>set rows. publishable r" and "\<forall>r\<in>set rows. ob_nextAttemptAt r \<le> now"
    and "0 < batchSize opts"
    and "\<And>j. k \<le> j \<Longrightarrow> env j = \<lparr> ce_stopping = False, ce_now = now, ce_locked = {},
                                       ce_answer = (\<lambda>_. Confirmed) \<rparr>"
  shows "\<forall>r\<in>set (snd (snd (tick service opts env k rows))). ob_publishedAt r \<noteq> None"
  using assms
proof (induction service opts env k rows rule: tick.induct)
  case (1 service opts env k rows)
  let ?todo = "CLAIM_SQL now (batchSize opts) {} rows"
  have envk: "env k = \<lparr> ce_stopping = False, ce_now = now, ce_locked = {}, ce_answer = (\<lambda>_. Confirmed) \<rparr>"
    by (rule 1(5)) simp
  have todo: "\<forall>r\<in>set ?todo. publishable r" using 1(2) by (auto dest: CLAIM_SQL_member)
  obtain cr rows' where pub: "publish_rows service opts now (\<lambda>_. Confirmed) ?todo rows = (cr, rows')"
    and go: "\<not> cr_halted cr" "cr_published cr = length ?todo"
    using publish_rows_all_Confirmed [OF todo] by blast
  then have claim: "claimAndPublish service opts (ce_now (env k)) (ce_locked (env k)) (ce_answer (env k)) rows
      = (cr, rows')"
    by (simp add: envk claimAndPublish_def)
  show ?case
  proof (cases "?todo = []")
    case True
    then have "\<forall>r\<in>set rows. ob_publishedAt r \<noteq> None"
      using CLAIM_SQL_nonempty [of rows now "batchSize opts - 1"] 1(3,4) by fastforce
    moreover have "rows' = rows" using pub True by simp
    ultimately show ?thesis
      using claim go True by (simp add: tick.simps [of service opts env k] envk)
  next
    case False
    have due: "\<forall>r\<in>set rows'. ob_nextAttemptAt r \<le> now"
      by (rule publish_rows_Confirmed_due [OF todo 1(3) pub])
    have fit: "\<forall>r\<in>set rows'. publishable r"
      by (rule same_events_publishable [OF publish_rows_same_event [OF pub] 1(2)])
    have "\<forall>r\<in>set (snd (snd (tick service opts env (Suc k) rows'))). ob_publishedAt r \<noteq> None"
      by (rule 1(1) [OF _ claim [symmetric] refl]) (use envk go False due fit 1(4,5) in auto)
    then show ?thesis
      using claim go False
      by (simp add: tick.simps [of service opts env k] envk split: prod.splits)
  qed
qed

theorem tick_drains_outbox_witness:
  "list_all (\<lambda>r. ob_publishedAt r \<noteq> None) (snd (snd (tick ''user-service'' relay_defaults
       (\<lambda>_. \<lparr> ce_stopping = False, ce_now = 20, ce_locked = {}, ce_answer = (\<lambda>_. Confirmed) \<rparr>) 0
       [demo_row ''e0'' 0 0, demo_row ''e1'' 1 10])))"
  unfolding list_all_iff
  by (rule tick_drains_outbox)
    (simp_all add: publishable_def demo_row_def relay_defaults_def)

end
