(* ===== verification/Event_Consumer.thy ===== *)
theory Event_Consumer
  imports Event_Tables Complex_Main
begin

text \<open>
  Consuming with bounded retry (platform/src/events/consumer.ts), who a message comes from
  (sender.ts), and the retry topology the two use (topology.ts).

  A delivery is what the broker hands over: the body, the account that published it as the broker
  vouches for it, and the headers of this platform. Handling one settles it: acknowledged,
  rejected without requeue, or left unsettled when the broker does not take the republished copy,
  in which case it is delivered again. Other headers and properties of a message are carried over
  unchanged by the code and are not modelled; nor are log lines and counters.
\<close>

section \<open>Numbers\<close>

text \<open>
  What \<open>Number(x)\<close> can be. The values are exact: the rounding of a \<open>double\<close> does not matter to the
  whole numbers an attempt is counted with.
\<close>

datatype js_number = NaN | Num rat | Infinity | Neg_infinity

abbreviation whole :: "nat \<Rightarrow> js_number" where
  "whole n \<equiv> Num (of_nat n)"

definition num_ge :: "js_number \<Rightarrow> nat \<Rightarrow> bool" where
  "num_ge x n = (case x of NaN \<Rightarrow> False | Num r \<Rightarrow> of_nat n \<le> r | Infinity \<Rightarrow> True | Neg_infinity \<Rightarrow> False)"

definition num_succ :: "js_number \<Rightarrow> js_number" where
  "num_succ x = (case x of Num r \<Rightarrow> Num (r + 1) | _ \<Rightarrow> x)"

section \<open>Topology\<close>

definition RETRY_DELAYS_MS :: "int list" where
  "RETRY_DELAYS_MS = [1000, 5000, 15000, 60000]"

definition MAX_ATTEMPTS :: nat where
  "MAX_ATTEMPTS = length RETRY_DELAYS_MS + 1"

record subscription_spec =
  ss_queue :: string
  ss_exclusive :: bool
  ss_autoDelete :: bool

definition isTransient :: "subscription_spec \<Rightarrow> bool" where
  "isTransient spec \<longleftrightarrow> ss_exclusive spec \<or> ss_autoDelete spec"

record retry_level =
  rl_exchange :: "string \<times> js_number"
  rl_queue :: "string \<times> js_number"
  rl_ttlMs :: int

text \<open>
  The names \<open>foc.<namespace>.delay.<attempt>\<close> of a level's exchange and queue are kept as the pair
  they are built from.
\<close>

definition retryExchangeName :: "string \<Rightarrow> js_number \<Rightarrow> string \<times> js_number" where
  "retryExchangeName namespace attempt = (namespace, attempt)"

definition retryLevels :: "string \<Rightarrow> int list \<Rightarrow> retry_level list" where
  "retryLevels namespace delays =
     map (\<lambda>i. \<lparr> rl_exchange = retryExchangeName namespace (whole (i + 1)),
                rl_queue = (namespace, whole (i + 1)), rl_ttlMs = delays ! i \<rparr>) [0..<length delays]"

text \<open>The broker connection of a service: its login, its namespace, its queues, its delays.\<close>

record broker =
  br_account :: "ident option"
  br_namespace :: string
  br_subscriptions :: "subscription_spec list"
  br_retryDelaysMs :: "int list option"

definition verifiesSenders :: "broker \<Rightarrow> bool" where
  "verifiesSenders b \<longleftrightarrow> br_account b = Some (br_namespace b)"

definition retryDelays :: "broker \<Rightarrow> int list" where
  "retryDelays b = (case br_retryDelaysMs b of Some d \<Rightarrow> d | None \<Rightarrow> RETRY_DELAYS_MS)"

definition maxAttempts :: "broker \<Rightarrow> nat" where
  "maxAttempts b = length (retryDelays b) + 1"

definition subscription :: "broker \<Rightarrow> string \<Rightarrow> subscription_spec option" where
  "subscription b queue = find (\<lambda>s. ss_queue s = queue) (br_subscriptions b)"

definition durableQueues :: "broker \<Rightarrow> string list" where
  "durableQueues b = map ss_queue (filter (\<lambda>s. \<not> isTransient s) (br_subscriptions b))"

section \<open>Who published a message\<close>

text \<open>
  \<open>x-death\<close> is the broker's own record of dead-lettering; \<open>h_brokerMarks\<close> its \<open>x-first-death\<close> and
  \<open>x-last-death\<close> headers, by name. The attempt header is kept as the number \<open>Number\<close> makes of it.
\<close>

record broker_death =
  bd_reason :: "string option"
  bd_count :: nat

record message_properties =
  userId_prop :: "string option"
  h_sender :: "string option"
  h_attempt :: "js_number option"
  h_failure :: "service_error option"
  h_originalQueue :: "string option"
  h_redriveOf :: "ident option"
  h_deaths :: "broker_death list option"
  h_brokerMarks :: "(string \<times> string) list"
  messageId_prop :: "string option"
  type_prop :: "string option"
  correlationId_prop :: "string option"
  persistent_prop :: bool

text \<open>\<open>text\<close>: the value, unless it is missing, not a string, or empty.\<close>

definition text_value :: "string option \<Rightarrow> string option" where
  "text_value v = (if v = Some [] then None else v)"

definition senderOf :: "message_properties \<Rightarrow> ident option \<Rightarrow> ident option" where
  "senderOf props ownAccount =
     (let u = text_value (userId_prop props) in
      if u \<noteq> None \<and> u = ownAccount
      then (case text_value (h_sender props) of Some s \<Rightarrow> Some s | None \<Rightarrow> u)
      else u)"

definition resendProperties :: "message_properties \<Rightarrow> ident option \<Rightarrow> message_properties" where
  "resendProperties props ownAccount =
     props\<lparr> userId_prop := ownAccount,
            h_sender := (case senderOf props ownAccount of Some s \<Rightarrow> Some s
                         | None \<Rightarrow> h_sender props) \<rparr>"

section \<open>Handling a delivery\<close>

record delivery =
  d_content :: message_body
  d_properties :: message_properties

record subscribe_options =
  so_queue :: string
  so_eventTypes :: "event_type list"
  so_expectedProducer :: "ident list option"
  so_payloadSchema :: "payload \<Rightarrow> bool"
  so_supportedVersions :: "int list"

text \<open>
  Where a copy is republished: the dead-letter exchange, under the queue's name, or the delay
  exchange of an attempt.
\<close>

datatype republished = To_dead_letter string delivery | To_delay js_number string delivery

datatype settlement = Acked | Nacked | Unsettled

record outcome =
  oc_settled :: settlement
  oc_republished :: "republished list"

definition resent :: "broker \<Rightarrow> message_properties \<Rightarrow> delivery \<Rightarrow> delivery" where
  "resent b headers message =
     message\<lparr> d_properties := (resendProperties headers (br_account b))\<lparr> persistent_prop := True \<rparr> \<rparr>"

definition publishTo ::
  "broker \<Rightarrow> (delivery \<Rightarrow> republished) \<Rightarrow> delivery \<Rightarrow> message_properties \<Rightarrow> bool \<Rightarrow> outcome" where
  "publishTo b exchange message headers confirmed =
     (if confirmed
      then \<lparr> oc_settled = Acked, oc_republished = [exchange (resent b headers message)] \<rparr>
      else \<lparr> oc_settled = Unsettled, oc_republished = [] \<rparr>)"

text \<open>
  The checks before the handler runs: the envelope parses, its type is one of the subscription's,
  its producer is trusted, and the broker says that producer's account published it.
\<close>

definition admit ::
  "(string \<Rightarrow> bool) \<Rightarrow> (string \<Rightarrow> time option) \<Rightarrow> broker \<Rightarrow> subscribe_options \<Rightarrow> delivery
     \<Rightarrow> service_error + envelope" where
  "admit uuid datetime b opts message =
     bindE (parseEnvelope uuid datetime (d_content message) (so_payloadSchema opts)
              (so_supportedVersions opts)) (\<lambda>env.
       if eventType env \<notin> set (so_eventTypes opts)
       then Inl (UnparseableMessageError ''event type does not match subscription'')
       else case so_expectedProducer opts of
              None \<Rightarrow> Inr env
            | Some expected \<Rightarrow>
                if producer env \<notin> set expected
                then Inl (UnparseableMessageError ''producer is not trusted'')
                else if verifiesSenders b
                then (case senderOf (d_properties message) (br_account b) of
                        None \<Rightarrow> Inl (UntrustedSenderError None)
                      | Some sender \<Rightarrow>
                          if sender \<in> set expected then Inr env
                          else Inl (UntrustedSenderError (Some sender)))
                else Inr env)"

definition attempt_of :: "delivery \<Rightarrow> js_number" where
  "attempt_of message = (case h_attempt (d_properties message) of Some a \<Rightarrow> a | None \<Rightarrow> whole 1)"

definition failed_headers ::
  "delivery \<Rightarrow> service_error \<Rightarrow> string \<Rightarrow> js_number \<Rightarrow> message_properties" where
  "failed_headers message reason queue attempt =
     (d_properties message)\<lparr> h_failure := Some reason, h_originalQueue := Some queue,
                              h_attempt := Some attempt \<rparr>"

definition retryOrDeadLetter ::
  "broker \<Rightarrow> subscribe_options \<Rightarrow> delivery \<Rightarrow> js_number \<Rightarrow> service_error \<Rightarrow> bool \<Rightarrow> outcome" where
  "retryOrDeadLetter b opts message attempt reason confirmed =
     (if num_ge attempt (maxAttempts b)
      then publishTo b (To_dead_letter (so_queue opts)) message
             (failed_headers message reason (so_queue opts) attempt) confirmed
      else publishTo b (To_delay attempt (so_queue opts)) message
             (failed_headers message reason (so_queue opts) (num_succ attempt)) confirmed)"

text \<open>
  \<open>handle\<close>. The handler gives its result and the new state, as \<open>withInbox\<close> and
  \<open>withReplayableInbox\<close> do; \<open>confirmed\<close> is whether the broker confirms a republished copy.
\<close>

definition handle ::
  "(string \<Rightarrow> bool) \<Rightarrow> (string \<Rightarrow> time option) \<Rightarrow> broker \<Rightarrow> subscribe_options
     \<Rightarrow> (envelope \<Rightarrow> 'db \<Rightarrow> (service_error + bool) \<times> 'db) \<Rightarrow> bool \<Rightarrow> delivery \<Rightarrow> 'db \<Rightarrow> outcome \<times> 'db" where
  "handle uuid datetime b opts handler confirmed message db =
     (let attempt = attempt_of message;
          transient = (case subscription b (so_queue opts) of None \<Rightarrow> False
                       | Some spec \<Rightarrow> isTransient spec);
          dropped = \<lparr> oc_settled = Nacked, oc_republished = [] \<rparr>;
          set_aside = (\<lambda>reason. if transient then dropped
             else publishTo b (To_dead_letter (so_queue opts)) message
                    (failed_headers message reason (so_queue opts) attempt) confirmed)
      in case admit uuid datetime b opts message of
           Inl err \<Rightarrow> (set_aside err, db)
         | Inr env \<Rightarrow>
             (case handler env db of
                (Inr _, db') \<Rightarrow> (\<lparr> oc_settled = Acked, oc_republished = [] \<rparr>, db')
              | (Inl err, db') \<Rightarrow>
                  (if err = StaleEventError then \<lparr> oc_settled = Acked, oc_republished = [] \<rparr>
                   else if is_Unparseable err then set_aside err
                   else if transient then dropped
                   else retryOrDeadLetter b opts message attempt err confirmed, db')))"

section \<open>Lemmas\<close>

lemma senderOf_resend:
  assumes "own \<noteq> []" and "senderOf props (Some own) = Some s"
  shows "senderOf (resendProperties props (Some own)) (Some own) = Some s"
  using assms
  by (auto simp: senderOf_def resendProperties_def text_value_def Let_def split: option.splits if_splits)

lemma senderOf_failed_headers [simp]:
  "senderOf (failed_headers message reason queue attempt) own = senderOf (d_properties message) own"
  by (auto simp: senderOf_def failed_headers_def Let_def)

lemma admit_Inl: "admit uuid datetime b opts message = Inl e \<Longrightarrow> is_Unparseable e"
  by (cases "parseEnvelope uuid datetime (d_content message) (so_payloadSchema opts)
               (so_supportedVersions opts)")
    (auto simp: admit_def dest: parseEnvelope_Inl split: option.splits if_splits)

lemma admit_Inr:
  assumes "admit uuid datetime b opts message = Inr env"
  shows "so_payloadSchema opts (ev_payload env)" and "eventType env \<in> set (so_eventTypes opts)"
    and "schemaVersion env \<in> set (so_supportedVersions opts)"
    and "so_expectedProducer opts = Some expected \<Longrightarrow> producer env \<in> set expected"
    and "so_expectedProducer opts = Some expected \<Longrightarrow> verifiesSenders b \<Longrightarrow>
           \<exists>s. senderOf (d_properties message) (br_account b) = Some s \<and> s \<in> set expected"
  using assms
  by (auto simp: admit_def bindE_eq_Inr dest: parseEnvelope_Inr split: option.splits if_splits)

lemma durable_not_transient:
  assumes "q \<in> set (durableQueues b)" and one: "distinct (map ss_queue (br_subscriptions b))"
  shows "(case subscription b q of None \<Rightarrow> False | Some spec \<Rightarrow> isTransient spec) = False"
proof -
  from assms obtain spec where spec: "spec \<in> set (br_subscriptions b)" "ss_queue spec = q"
    "\<not> isTransient spec" by (auto simp: durableQueues_def)
  have "subscription b q = Some spec"
    using row_of_member [OF one spec(1)] spec(2) by (simp add: row_of_def subscription_def)
  with spec(3) show ?thesis by simp
qed

lemma senderOf_persistent [simp]: "senderOf (p\<lparr> persistent_prop := x \<rparr>) own = senderOf p own"
  by (auto simp: senderOf_def Let_def)

lemma resent_simps [simp]:
  "d_content (resent b headers message) = d_content message"
  "h_attempt (d_properties (resent b headers message)) = h_attempt headers"
  "senderOf (d_properties (resent b headers message)) own = senderOf (resendProperties headers (br_account b)) own"
  by (simp_all add: resent_def) (simp add: resendProperties_def)

lemma attempt_resent [simp]:
  "attempt_of (resent b (failed_headers message reason q a) message) = a"
  by (simp add: attempt_of_def failed_headers_def)

lemma publishTo_simps [simp]:
  "publishTo b exchange message headers True = \<lparr> oc_settled = Acked, oc_republished = [exchange (resent b headers message)] \<rparr>"
  "publishTo b exchange message headers False = \<lparr> oc_settled = Unsettled, oc_republished = [] \<rparr>"
  by (simp_all add: publishTo_def)

definition consumer_ok :: "broker \<Rightarrow> subscribe_options \<Rightarrow> bool" where
  "consumer_ok b opts \<longleftrightarrow>
     so_queue opts \<in> set (durableQueues b) \<and> distinct (map ss_queue (br_subscriptions b)) \<and>
     br_account b \<noteq> Some []"

text \<open>Whether the handler took a delivery: it was admitted, and its handler succeeded or found it stale.\<close>

definition takes ::
  "(string \<Rightarrow> bool) \<Rightarrow> (string \<Rightarrow> time option) \<Rightarrow> broker \<Rightarrow> subscribe_options
     \<Rightarrow> (envelope \<Rightarrow> 'db \<Rightarrow> (service_error + bool) \<times> 'db) \<Rightarrow> delivery \<Rightarrow> 'db \<Rightarrow> bool" where
  "takes uuid datetime b opts handler message db =
     (case admit uuid datetime b opts message of
        Inl _ \<Rightarrow> False
      | Inr env \<Rightarrow> (case fst (handler env db) of Inr _ \<Rightarrow> True | Inl err \<Rightarrow> err = StaleEventError))"

text \<open>The ways a delivery on a durable queue can go.\<close>

lemma handle_durable_cases:
  assumes "handle uuid datetime b opts handler confirmed message db = (oc, db')" and "consumer_ok b opts"
  obtains (taken) "takes uuid datetime b opts handler message db" and "oc_settled oc = Acked" and "oc_republished oc = []"
  | (lost) "\<not> takes uuid datetime b opts handler message db" and "oc_settled oc = Unsettled" and "oc_republished oc = []"
  | (dead) d where "\<not> takes uuid datetime b opts handler message db" and "oc_settled oc = Acked"
      and "oc_republished oc = [To_dead_letter (so_queue opts) d]" and "d_content d = d_content message"
  | (again) d where "\<not> takes uuid datetime b opts handler message db" and "oc_settled oc = Acked"
      and "oc_republished oc = [To_delay (attempt_of message) (so_queue opts) d]" and "d_content d = d_content message"
      and "attempt_of d = num_succ (attempt_of message)"
proof -
  have durable: "(case subscription b (so_queue opts) of None \<Rightarrow> False | Some spec \<Rightarrow> isTransient spec) = False"
    using assms(2) by (intro durable_not_transient) (simp_all add: consumer_ok_def)
  show thesis
  proof (cases "takes uuid datetime b opts handler message db")
    case True
    with assms(1) show ?thesis
      by (intro taken) (auto simp: takes_def handle_def Let_def split: sum.splits prod.splits if_splits)
  next
    case False
    show ?thesis
    proof (cases confirmed)
      case True
      with assms(1) False durable show ?thesis
        by (auto simp: takes_def handle_def Let_def retryOrDeadLetter_def split: sum.splits prod.splits if_splits
            intro: dead again)
    next
      case unconfirmed: False
      with assms(1) False durable show ?thesis
        by (intro lost) (auto simp: takes_def handle_def Let_def retryOrDeadLetter_def split: sum.splits prod.splits if_splits)
    qed
  qed
qed

lemma handle_delayed:
  assumes "handle uuid datetime b opts handler confirmed message db = (oc, db')"
    and "To_delay a q d \<in> set (oc_republished oc)"
  obtains env headers where "admit uuid datetime b opts message = Inr env" and "d = resent b headers message"
    and "\<And>own. senderOf headers own = senderOf (d_properties message) own"
  using assms
  by (auto simp: handle_def Let_def retryOrDeadLetter_def publishTo_def
      split: sum.splits prod.splits if_splits)

section \<open>A queue at the broker\<close>

text \<open>
  A queue together with its delays and its dead-letter queue, as long as it lives: the copies that
  wait to be delivered (in the queue, or in a delay that ends in it), each with the account that
  first published it as the broker knows it, the copies set aside, and the service's database. The
  last three fields count deliveries the handler took, deliveries that were settled and deliveries
  that were not.

  At a delivery the handler may do anything, the broker may or may not confirm a republished copy
  (one for an exchange that is not declared it does not), and the acknowledgement may be lost with
  the channel even where the copy was confirmed: an unsettled message is delivered again. The
  broker itself may set a waiting message aside (\<open>x-message-ttl\<close>, \<open>x-max-length\<close>).
\<close>

record 'db queue_state =
  qs_waiting :: "(ident \<times> delivery) list"
  qs_dead :: "(ident \<times> delivery) list"
  qs_db :: 'db
  qs_taken :: nat
  qs_settled :: nat
  qs_unsettled :: nat

fun exchange_declared :: "broker \<Rightarrow> republished \<Rightarrow> bool" where
  "exchange_declared b (To_dead_letter q d) = True"
| "exchange_declared b (To_delay attempt q d) =
     (retryExchangeName (br_namespace b) attempt \<in> rl_exchange ` set (retryLevels (br_namespace b) (retryDelays b)))"

fun to_dead :: "republished \<Rightarrow> delivery list" where
  "to_dead (To_dead_letter q d) = [d]"
| "to_dead (To_delay attempt q d) = []"

fun to_waiting :: "republished \<Rightarrow> delivery list" where
  "to_waiting (To_dead_letter q d) = []"
| "to_waiting (To_delay attempt q d) = [d]"

definition after_delivery ::
  "ident \<Rightarrow> delivery \<Rightarrow> outcome \<Rightarrow> bool \<Rightarrow> bool \<Rightarrow> (ident \<times> delivery) list \<Rightarrow> 'db \<Rightarrow> 'db queue_state \<Rightarrow> 'db queue_state" where
  "after_delivery origin d oc took settled others db' s =
     \<lparr> qs_waiting = (if settled then others else (origin, d) # others) @
                      map (Pair origin) (concat (map to_waiting (oc_republished oc))),
       qs_dead = qs_dead s @ map (Pair origin) (concat (map to_dead (oc_republished oc))),
       qs_db = db',
       qs_taken = qs_taken s + (if took then 1 else 0),
       qs_settled = qs_settled s + (if settled then 1 else 0),
       qs_unsettled = qs_unsettled s + (if settled then 0 else 1) \<rparr>"

inductive queue_step ::
  "(string \<Rightarrow> bool) \<Rightarrow> (string \<Rightarrow> time option) \<Rightarrow> broker \<Rightarrow> subscribe_options \<Rightarrow> 'db queue_state \<Rightarrow> 'db queue_state \<Rightarrow> bool"
  for uuid datetime b opts where
  delivered: "\<lbrakk> qs_waiting s = xs @ (origin, d) # ys;
     handle uuid datetime b opts handler confirmed d (qs_db s) = (oc, db');
     list_all (exchange_declared b) (oc_republished oc);
     settled \<longrightarrow> oc_settled oc \<noteq> Unsettled \<rbrakk> \<Longrightarrow>
     queue_step uuid datetime b opts s
       (after_delivery origin d oc (takes uuid datetime b opts handler d (qs_db s)) settled (xs @ ys) db' s)"
| discarded: "qs_waiting s = xs @ m # ys \<Longrightarrow>
     queue_step uuid datetime b opts s (s\<lparr> qs_waiting := xs @ ys, qs_dead := qs_dead s @ [m] \<rparr>)"

text \<open>The queue right after one message was published to it.\<close>

definition one_message :: "ident \<Rightarrow> delivery \<Rightarrow> 'db \<Rightarrow> 'db queue_state \<Rightarrow> bool" where
  "one_message origin message db s \<longleftrightarrow>
     s = \<lparr> qs_waiting = [(origin, message)], qs_dead = [], qs_db = db, qs_taken = 0, qs_settled = 0, qs_unsettled = 0 \<rparr>"

text \<open>
  How often a copy can still be settled: once per attempt that is left for one of the levels that
  have a delay, and once for any other.
\<close>

definition attempts_left :: "broker \<Rightarrow> delivery \<Rightarrow> nat" where
  "attempts_left b d =
     (case find (\<lambda>n. attempt_of d = whole n) [1..<maxAttempts b] of
        Some n \<Rightarrow> maxAttempts b + 1 - n
      | None \<Rightarrow> 1)"

lemma attempts_left_level:
  assumes "attempt_of d = whole n" and "1 \<le> n" and "n \<le> maxAttempts b"
  shows "attempts_left b d = maxAttempts b + 1 - n"
proof (cases "n < maxAttempts b")
  case True
  have "find (\<lambda>m. attempt_of d = whole m) [1..<maxAttempts b] = Some n"
    using assms(1,2) True by (simp add: find_Some_iff nth_upt) (rule exI [of _ "n - 1"], auto simp: nth_upt)
  then show ?thesis by (simp add: attempts_left_def)
next
  case False
  then have "find (\<lambda>m. attempt_of d = whole m) [1..<maxAttempts b] = None"
    using assms by (auto simp: find_None_iff)
  with False assms show ?thesis by (simp add: attempts_left_def)
qed

lemma attempts_left_pos: "1 \<le> attempts_left b d"
  by (auto simp: attempts_left_def find_Some_iff split: option.splits)

lemma declared_level:
  assumes "exchange_declared b (To_delay a q d)"
  obtains n where "a = whole n" and "1 \<le> n" and "n < maxAttempts b"
proof -
  from assms obtain i where "i < length (retryDelays b)" "a = whole (i + 1)"
    by (auto simp: retryLevels_def retryExchangeName_def simp del: of_nat_add of_nat_Suc)
  with that [of "i + 1"] show thesis by (simp add: maxAttempts_def)
qed

text \<open>A copy that waits for its next attempt has one less left than the one it replaces.\<close>

lemma attempts_left_again:
  assumes "exchange_declared b (To_delay (attempt_of message) q d)" and "attempt_of d = num_succ (attempt_of message)"
  shows "Suc (attempts_left b d) = attempts_left b message" and "attempts_left b d \<le> maxAttempts b - 1"
proof -
  from assms(1) obtain n where n: "attempt_of message = whole n" "1 \<le> n" "n < maxAttempts b" by (rule declared_level)
  then have "attempt_of d = whole (n + 1)" using assms(2) by (simp add: num_succ_def add.commute)
  from attempts_left_level [OF this] attempts_left_level [OF n(1,2)] n
  show "Suc (attempts_left b d) = attempts_left b message" and "attempts_left b d \<le> maxAttempts b - 1" by simp_all
qed

definition left_over :: "broker \<Rightarrow> 'db queue_state \<Rightarrow> nat" where
  "left_over b s = sum_list (map (attempts_left b \<circ> snd) (qs_waiting s))"

definition life_ok :: "broker \<Rightarrow> delivery \<Rightarrow> 'db queue_state \<Rightarrow> bool" where
  "life_ok b message s \<longleftrightarrow>
     (\<forall>m \<in> set (qs_waiting s) \<union> set (qs_dead s). d_content (snd m) = d_content message) \<and>
     1 \<le> length (qs_waiting s) + length (qs_dead s) + qs_taken s \<and>
     length (qs_waiting s) + length (qs_dead s) + qs_taken s \<le> 1 + qs_unsettled s \<and>
     qs_settled s + left_over b s \<le> attempts_left b message + (maxAttempts b - 1) * qs_unsettled s"

lemma delivered_ok:
  assumes ok: "life_ok b message s" and "consumer_ok b opts" and waiting: "qs_waiting s = xs @ (origin, d) # ys"
    and run: "handle uuid datetime b opts handler confirmed d (qs_db s) = (oc, db')"
    and declared: "list_all (exchange_declared b) (oc_republished oc)"
    and settled: "settled \<longrightarrow> oc_settled oc \<noteq> Unsettled"
  shows "life_ok b message (after_delivery origin d oc (takes uuid datetime b opts handler d (qs_db s)) settled (xs @ ys) db' s)"
  using run assms(2)
proof (cases rule: handle_durable_cases)
  case taken
  with ok waiting attempts_left_pos [of b d] show ?thesis
    by (auto simp: life_ok_def after_delivery_def left_over_def)
next
  case lost
  with ok waiting settled show ?thesis by (auto simp: life_ok_def after_delivery_def left_over_def)
next
  case (dead d')
  with ok waiting attempts_left_pos [of b d] show ?thesis
    by (auto simp: life_ok_def after_delivery_def left_over_def)
next
  case (again d')
  have "exchange_declared b (To_delay (attempt_of d) (so_queue opts) d')" using declared again(3) by simp
  from attempts_left_again [OF this again(5)] again ok waiting show ?thesis
    by (auto simp: life_ok_def after_delivery_def left_over_def)
qed

interpretation message_life: inductive_invariant "one_message origin message db" "queue_step uuid datetime b opts"
    "\<lambda>s. consumer_ok b opts \<longrightarrow> life_ok b message s"
  for origin message db uuid datetime b opts
proof unfold_locales
  show "consumer_ok b opts \<longrightarrow> life_ok b message s" if "one_message origin message db s" for s
    using that by (simp add: one_message_def life_ok_def left_over_def)
  show "consumer_ok b opts \<longrightarrow> life_ok b message t"
    if "consumer_ok b opts \<longrightarrow> life_ok b message s" and "queue_step uuid datetime b opts s t" for s t
    using that(2)
  proof cases
    case delivered
    then show ?thesis using that(1) by (auto intro: delivered_ok)
  next
    case (discarded xs m ys)
    then show ?thesis using that(1) by (auto simp: life_ok_def left_over_def)
  qed
qed

section \<open>Traffic\<close>

text \<open>
  A queue to which anybody publishes. RabbitMQ refuses a message whose \<open>user-id\<close> is not the login it
  is published under; what the message says otherwise, its headers included, is its publisher's
  choice, except that the service itself publishes no sender header of its own (publisher.ts).
\<close>

definition broker_takes :: "broker \<Rightarrow> ident \<Rightarrow> delivery \<Rightarrow> bool" where
  "broker_takes b login d \<longleftrightarrow>
     opt_all (\<lambda>u. u = login) (userId_prop (d_properties d)) \<and>
     (br_account b = Some login \<longrightarrow> h_sender (d_properties d) = None)"

inductive traffic_step ::
  "(string \<Rightarrow> bool) \<Rightarrow> (string \<Rightarrow> time option) \<Rightarrow> broker \<Rightarrow> subscribe_options \<Rightarrow> 'db queue_state \<Rightarrow> 'db queue_state \<Rightarrow> bool"
  for uuid datetime b opts where
  published: "broker_takes b login d \<Longrightarrow>
     traffic_step uuid datetime b opts s (s\<lparr> qs_waiting := qs_waiting s @ [(login, d)] \<rparr>)"
| moved: "queue_step uuid datetime b opts s t \<Longrightarrow> traffic_step uuid datetime b opts s t"

definition no_message :: "'db queue_state \<Rightarrow> bool" where
  "no_message s \<longleftrightarrow> qs_waiting s = []"

text \<open>What the consumer reads as the sender of a waiting message is who first published it.\<close>

definition senders_true :: "broker \<Rightarrow> 'db queue_state \<Rightarrow> bool" where
  "senders_true b s \<longleftrightarrow>
     (\<forall>(origin, d) \<in> set (qs_waiting s). opt_all (\<lambda>u. u = origin) (senderOf (d_properties d) (br_account b)))"

lemma published_sender: "broker_takes b login d \<Longrightarrow> opt_all (\<lambda>u. u = login) (senderOf (d_properties d) (br_account b))"
  by (auto simp: broker_takes_def senderOf_def text_value_def opt_all_def Let_def split: option.splits)

definition verifying :: "broker \<Rightarrow> subscribe_options \<Rightarrow> bool" where
  "verifying b opts \<longleftrightarrow> verifiesSenders b \<and> br_account b \<noteq> Some [] \<and> so_expectedProducer opts \<noteq> None"

lemma delayed_sender:
  assumes "verifying b opts" and "admit uuid datetime b opts message = Inr env"
    and "opt_all (\<lambda>u. u = origin) (senderOf (d_properties message) (br_account b))"
    and "\<And>own. senderOf headers own = senderOf (d_properties message) own"
  shows "senderOf (d_properties (resent b headers message)) (br_account b) = Some origin"
proof -
  from assms(1) obtain own expected where own: "br_account b = Some own" "own \<noteq> []"
    and "so_expectedProducer opts = Some expected" by (auto simp: verifying_def verifiesSenders_def)
  with admit_Inr(5) [OF assms(2)] assms(1,3) have "senderOf (d_properties message) (Some own) = Some origin"
    by (auto simp: verifying_def opt_all_def)
  then show ?thesis using senderOf_resend [OF own(2)] assms(4) own(1) by simp
qed

lemma moved_senders:
  assumes "queue_step uuid datetime b opts s t" and "senders_true b s" and "verifying b opts"
  shows "senders_true b t"
  using assms(1)
proof cases
  case (discarded xs m ys)
  then show ?thesis using assms(2) by (auto simp: senders_true_def)
next
  case (delivered xs origin d ys handler confirmed oc db' settled)
  have origin: "opt_all (\<lambda>u. u = origin) (senderOf (d_properties d) (br_account b))"
    using assms(2) delivered(2) by (simp add: senders_true_def)
  have "opt_all (\<lambda>u. u = origin) (senderOf (d_properties d') (br_account b))"
    if "To_delay a q d' \<in> set (oc_republished oc)" for a q d'
  proof (rule handle_delayed [OF delivered(3) that])
    fix env headers
    assume "admit uuid datetime b opts d = Inr env" and d': "d' = resent b headers d"
      and "\<And>own. senderOf headers own = senderOf (d_properties d) own"
    from delayed_sender [OF assms(3) this(1) origin this(3)] d' show ?thesis by simp
  qed
  then have "opt_all (\<lambda>u. u = origin) (senderOf (d_properties d') (br_account b))"
    if "r \<in> set (oc_republished oc)" "d' \<in> set (to_waiting r)" for r d'
    using that by (cases r) auto
  with origin assms(2) show ?thesis
    unfolding delivered(1) senders_true_def by (auto simp: after_delivery_def delivered(2))
qed

interpretation traffic: inductive_invariant no_message "traffic_step uuid datetime b opts"
    "\<lambda>s. verifying b opts \<longrightarrow> senders_true b s"
  for uuid datetime b opts
proof unfold_locales
  show "verifying b opts \<longrightarrow> senders_true b s" if "no_message s" for s
    using that by (simp add: no_message_def senders_true_def)
  show "verifying b opts \<longrightarrow> senders_true b t"
    if "verifying b opts \<longrightarrow> senders_true b s" and "traffic_step uuid datetime b opts s t" for s t
    using that(2)
  proof cases
    case (published login d)
    then show ?thesis using that(1) published_sender [of b login d] by (auto simp: senders_true_def)
  next
    case moved
    then show ?thesis using that(1) moved_senders by blast
  qed
qed

section \<open>A concrete consumer\<close>

text \<open>The Credit Service's wallet queue, and an activation the User Service published.\<close>

definition demo_broker :: broker where
  "demo_broker = \<lparr> br_account = Some ''credit-service'', br_namespace = ''credit-service'',
     br_subscriptions = [\<lparr> ss_queue = ''foc.credit.wallet-provisioning'', ss_exclusive = False,
                            ss_autoDelete = False \<rparr>], br_retryDelaysMs = None \<rparr>"

definition demo_opts :: subscribe_options where
  "demo_opts = \<lparr> so_queue = ''foc.credit.wallet-provisioning'', so_eventTypes = [USER_ACTIVATED],
     so_expectedProducer = Some [''user-service''],
     so_payloadSchema = the (PAYLOAD_SCHEMAS USER_ACTIVATED),
     so_supportedVersions = DEFAULT_SUPPORTED_VERSIONS \<rparr>"

definition demo_envelope :: envelope where
  "demo_envelope = \<lparr> eventId = ''e0'', eventType = USER_ACTIVATED, schemaVersion = 1,
     aggregateId = ''alice'', occurredAt = 0, producer = ''user-service'', correlationId = ''c'',
     causationId = ''c'', ev_payload = UserActivatedPayload ''alice'' 0 \<rparr>"

definition demo_delivery :: delivery where
  "demo_delivery = \<lparr> d_content = Json \<lparr> raw_eventId = Some ''e0'', raw_eventType = Some USER_ACTIVATED,
       raw_schemaVersion = Some 1, raw_aggregateId = Some ''alice'', raw_occurredAt = Some ''t'',
       raw_producer = Some ''user-service'', raw_correlationId = Some ''c'',
       raw_causationId = Some ''c'', raw_payload = UserActivatedPayload ''alice'' 0 \<rparr>,
     d_properties = \<lparr> userId_prop = Some ''user-service'', h_sender = None, h_attempt = None,
       h_failure = None, h_originalQueue = None, h_redriveOf = None, h_deaths = None, h_brokerMarks = [],
       messageId_prop = Some ''e0'', type_prop = Some ''user.activated'', correlationId_prop = Some ''c'',
       persistent_prop = True \<rparr> \<rparr>"

definition demo_uuid :: "string \<Rightarrow> bool" where
  "demo_uuid s \<longleftrightarrow> s \<noteq> []"

definition demo_datetime :: "string \<Rightarrow> time option" where
  "demo_datetime s = (if s = ''t'' then Some 0 else None)"

lemma demo_consumer:
  "consumer_ok demo_broker demo_opts" "verifiesSenders demo_broker"
  "so_expectedProducer demo_opts = Some [''user-service'']"
  "maxAttempts demo_broker = 5" "attempt_of demo_delivery = whole 1"
  "so_queue demo_opts = ''foc.credit.wallet-provisioning''"
  by (simp_all add: consumer_ok_def demo_broker_def demo_opts_def durableQueues_def isTransient_def
      verifiesSenders_def maxAttempts_def retryDelays_def RETRY_DELAYS_MS_def attempt_of_def demo_delivery_def)

lemma demo_admit: "admit demo_uuid demo_datetime demo_broker demo_opts demo_delivery = Inr demo_envelope"
  by (simp add: admit_def parseEnvelope_def envelopeSchema_def demo_delivery_def demo_opts_def
      demo_broker_def demo_envelope_def demo_uuid_def demo_datetime_def min1_def min1max128_def
      positive_int_def safe_int_def DEFAULT_SUPPORTED_VERSIONS_def verifiesSenders_def
      senderOf_def text_value_def)

section \<open>What consuming guarantees\<close>

text \<open>
  C8. Bounded retry, nothing lost. Whatever the handler does at each delivery, whichever
  republished copies the broker confirms and whichever acknowledgements are lost, a message
  published to a durable queue is always somewhere: a copy of its body waits for delivery, or is set
  aside in the dead-letter queue, or its handler took it (with success, or as stale); and there is
  more than one of these only as far as deliveries were left unsettled. It is settled at most once
  per attempt it has left, plus one round of the remaining attempts for each delivery that was left
  unsettled, so a message whose deliveries are settled is through with its last attempt.
\<close>

theorem message_settles_within_attempts:
  assumes "consumer_ok b opts"
    and "reachable (one_message origin message db) (queue_step uuid datetime b opts) s"
  shows "1 \<le> length (qs_waiting s) + length (qs_dead s) + qs_taken s \<and>
    length (qs_waiting s) + length (qs_dead s) + qs_taken s \<le> 1 + qs_unsettled s \<and>
    (\<forall>m \<in> set (qs_waiting s) \<union> set (qs_dead s). d_content (snd m) = d_content message) \<and>
    qs_settled s \<le> attempts_left b message + (maxAttempts b - 1) * qs_unsettled s"
  using message_life.holds [OF assms(2)] assms(1) by (simp add: life_ok_def)

text \<open>The first delivery fails, and neither the retry's confirmation nor its acknowledgement gets through.\<close>

definition demo_unsettled :: "unit queue_state" where
  "demo_unsettled = \<lparr> qs_waiting = [(''user-service'', demo_delivery)], qs_dead = [], qs_db = (),
     qs_taken = 0, qs_settled = 0, qs_unsettled = 1 \<rparr>"

lemma demo_unsettled_reachable:
  "reachable (one_message ''user-service'' demo_delivery ()) (queue_step demo_uuid demo_datetime demo_broker demo_opts) demo_unsettled"
proof (rule reachable_step, rule reachable_init)
  let ?s = "\<lparr> qs_waiting = [(''user-service'', demo_delivery)], qs_dead = [], qs_db = (), qs_taken = 0, qs_settled = 0, qs_unsettled = 0 \<rparr>"
  let ?h = "\<lambda>(_ :: envelope) (db :: unit). (Inl NotDue :: service_error + bool, db)"
  show "one_message ''user-service'' demo_delivery () ?s" by (simp add: one_message_def)
  have "handle demo_uuid demo_datetime demo_broker demo_opts ?h False demo_delivery () =
      (\<lparr> oc_settled = Unsettled, oc_republished = [] \<rparr>, ())"
    using durable_not_transient [of "so_queue demo_opts" demo_broker] demo_consumer(1)
    by (simp add: handle_def demo_admit retryOrDeadLetter_def consumer_ok_def Let_def)
  moreover have "takes demo_uuid demo_datetime demo_broker demo_opts ?h demo_delivery () = False"
    by (simp add: takes_def demo_admit)
  ultimately show "queue_step demo_uuid demo_datetime demo_broker demo_opts ?s demo_unsettled"
    using queue_step.delivered [of ?s "[]" "''user-service''" demo_delivery "[]" demo_uuid demo_datetime demo_broker demo_opts
        ?h False _ _ False]
    by (simp add: after_delivery_def demo_unsettled_def)
qed

theorem message_settles_within_attempts_witness:
  "length (qs_waiting demo_unsettled) + length (qs_dead demo_unsettled) + qs_taken demo_unsettled \<le> 2 \<and>
   qs_settled demo_unsettled \<le> 9"
proof -
  have "attempts_left demo_broker demo_delivery = 5"
    using attempts_left_level [OF demo_consumer(5)] demo_consumer(4) by simp
  moreover have "qs_unsettled demo_unsettled = 1" by (simp add: demo_unsettled_def)
  ultimately show ?thesis
    using message_settles_within_attempts [OF demo_consumer(1) demo_unsettled_reachable] demo_consumer(4) by simp
qed

text \<open>
  C9. Only messages of trusted services are acted on. Where a service signs in to the broker as
  itself, and whatever anybody publishes to its queue under any login and with any headers: a
  delivery that changes the service's state, on its first attempt or on a retry, was first published
  under the login of a producer the subscription trusts, names such a producer, and is in a type
  and version the subscription takes, with a payload that fits. (A message redriven from the
  dead-letter queue is not covered; \<open>Dead_Letters\<close> shows why.)
\<close>

theorem only_trusted_messages_reach_handler:
  assumes "verifiesSenders b" and "br_account b \<noteq> Some []" and "so_expectedProducer opts = Some expected"
    and "reachable no_message (traffic_step uuid datetime b opts) s" and "(origin, message) \<in> set (qs_waiting s)"
    and "handle uuid datetime b opts handler confirmed message (qs_db s) = (oc, db')" and "db' \<noteq> qs_db s"
  shows "origin \<in> set expected \<and>
    (\<exists>env. snd (handler env (qs_db s)) = db' \<and> producer env \<in> set expected \<and>
       schemaVersion env \<in> set (so_supportedVersions opts) \<and> eventType env \<in> set (so_eventTypes opts) \<and>
       so_payloadSchema opts (ev_payload env))"
proof (cases "admit uuid datetime b opts message")
  case (Inl err)
  with assms(6,7) show ?thesis by (simp add: handle_def Let_def)
next
  case (Inr env)
  have run: "snd (handler env (qs_db s)) = db'"
    using assms(6) Inr by (auto simp: handle_def Let_def split: prod.splits sum.splits)
  have "opt_all (\<lambda>u. u = origin) (senderOf (d_properties message) (br_account b))"
    using traffic.holds [OF assms(4)] assms(1-3,5) by (auto simp: verifying_def senders_true_def)
  with admit_Inr(5) [OF Inr assms(3,1)] have "origin \<in> set expected" by (auto simp: opt_all_def)
  with run admit_Inr(1-3) [OF Inr] admit_Inr(4) [OF Inr assms(3)] show ?thesis by blast
qed

theorem only_trusted_messages_reach_handler_witness:
  "\<exists>s :: nat queue_state. reachable no_message (traffic_step demo_uuid demo_datetime demo_broker demo_opts) s \<and>
     (''user-service'', demo_delivery) \<in> set (qs_waiting s) \<and> ''user-service'' \<in> set [''user-service'']"
proof -
  let ?none = "\<lparr> qs_waiting = [], qs_dead = [], qs_db = 0 :: nat, qs_taken = 0, qs_settled = 0, qs_unsettled = 0 \<rparr>"
  let ?s = "?none\<lparr> qs_waiting := [(''user-service'', demo_delivery)] \<rparr>"
  have "broker_takes demo_broker ''user-service'' demo_delivery"
    by (simp add: broker_takes_def demo_delivery_def opt_all_def demo_broker_def)
  from traffic_step.published [OF this, of demo_uuid demo_datetime demo_opts ?none]
  have s: "reachable no_message (traffic_step demo_uuid demo_datetime demo_broker demo_opts) ?s"
    by (intro reachable_step [OF reachable_init]) (auto simp: no_message_def)
  have run: "handle demo_uuid demo_datetime demo_broker demo_opts (\<lambda>_ n. (Inr False, Suc n)) True
      demo_delivery (qs_db ?s) = (\<lparr> oc_settled = Acked, oc_republished = [] \<rparr>, Suc 0)"
    by (simp add: handle_def demo_admit Let_def)
  have "br_account demo_broker \<noteq> Some []" by (simp add: demo_broker_def)
  from only_trusted_messages_reach_handler [OF demo_consumer(2) this demo_consumer(3) s _ run] s
  show ?thesis by (intro exI [of _ ?s]) simp
qed

end
