(* ===== verification/Credit_Service.thy ===== *)
theory Credit_Service
  imports Credit_Invariants Outbox_Relay Event_Consumer
begin

text \<open>
  The Credit Service as a whole: its consumers (credit-service/src/wallet-provisioning.ts,
  reservation-consumer.ts, terminal-consumers.ts), each a repository operation inside an inbox
  transaction, and the system they make up with the relay, the pruning and the audited reads.
\<close>

section \<open>The consumers\<close>

definition WALLET_QUEUE :: string where "WALLET_QUEUE = ''foc.credit.wallet-provisioning''"
definition RESERVATION_QUEUE :: string where "RESERVATION_QUEUE = ''foc.credit.reservations''"
definition COMPLETION_QUEUE :: string where "COMPLETION_QUEUE = ''foc.credit.completions''"
definition RELEASE_QUEUE :: string where "RELEASE_QUEUE = ''foc.credit.releases''"

text \<open>
  The payload has its schema's shape when a handler runs (the subscription checks it), so the
  last branch of each handler is not reached.
\<close>

definition handleActivation ::
  "int \<Rightarrow> uuids \<Rightarrow> time \<Rightarrow> envelope \<Rightarrow> credit_db \<Rightarrow> service_error + (unit \<times> credit_db)" where
  "handleActivation alloc u now env db =
     (case ev_payload env of
        UserActivatedPayload user _ \<Rightarrow>
          if aggregateId env \<noteq> user
          then Inl (UnparseableMessageError ''aggregateId does not match activated userId'')
          else bindE (issueInitial alloc u now user db) (\<lambda>(_, db'). Inr ((), db'))
      | _ \<Rightarrow> Inl (UnparseableMessageError ''payload invalid''))"

definition handleReservation ::
  "uuids \<Rightarrow> time \<Rightarrow> envelope \<Rightarrow> credit_db \<Rightarrow> service_error + (unit \<times> credit_db)" where
  "handleReservation u now env db =
     (case ev_payload env of
        CreditReservationRequestedPayload order requester amount \<Rightarrow>
          if aggregateId env \<noteq> order
          then Inl (UnparseableMessageError ''aggregateId does not match reservation orderId'')
          else bindE (reserve u now
                 \<lparr> ri_orderId = order, ri_requesterId = requester, ri_amount = amount,
                   ri_correlationId = correlationId env, ri_causationId = eventId env \<rparr> db)
                 (\<lambda>(_, db'). Inr ((), db'))
      | _ \<Rightarrow> Inl (UnparseableMessageError ''payload invalid''))"

definition handleCompletion ::
  "uuids \<Rightarrow> time \<Rightarrow> envelope \<Rightarrow> credit_db \<Rightarrow> service_error + (unit \<times> credit_db)" where
  "handleCompletion u now env db =
     (case ev_payload env of
        OrderCompletionRequestedPayload order requester amount courier \<Rightarrow>
          if aggregateId env \<noteq> order
          then Inl (UnparseableMessageError ''aggregateId does not match completion orderId'')
          else bindE (transfer u now
                 \<lparr> ti_orderId = order, ti_requesterId = requester, ti_amount = amount,
                   ti_correlationId = correlationId env, ti_causationId = eventId env,
                   ti_courierId = courier \<rparr> db)
                 (\<lambda>(_, db'). Inr ((), db'))
      | _ \<Rightarrow> Inl (UnparseableMessageError ''payload invalid''))"

definition handleRelease ::
  "uuids \<Rightarrow> time \<Rightarrow> envelope \<Rightarrow> credit_db \<Rightarrow> service_error + (unit \<times> credit_db)" where
  "handleRelease u now env db =
     (case ev_payload env of
        CreditReleaseRequestedPayload order requester amount \<Rightarrow>
          if aggregateId env \<noteq> order
          then Inl (UnparseableMessageError ''aggregateId does not match release orderId'')
          else bindE (release u now
                 \<lparr> ti_orderId = order, ti_requesterId = requester, ti_amount = amount,
                   ti_correlationId = correlationId env, ti_causationId = eventId env \<rparr> db)
                 (\<lambda>(_, db'). Inr ((), db'))
      | _ \<Rightarrow> Inl (UnparseableMessageError ''payload invalid''))"

text \<open>What each queue subscribes to: its event type, the producer it trusts, and the schema.\<close>

definition credit_subscription :: "string \<Rightarrow> event_type \<Rightarrow> ident \<Rightarrow> subscribe_options" where
  "credit_subscription queue ty trusted =
     \<lparr> so_queue = queue, so_eventTypes = [ty], so_expectedProducer = Some [trusted],
       so_payloadSchema = the (PAYLOAD_SCHEMAS ty),
       so_supportedVersions = DEFAULT_SUPPORTED_VERSIONS \<rparr>"

definition wallet_subscription :: subscribe_options where
  "wallet_subscription = credit_subscription WALLET_QUEUE USER_ACTIVATED ''user-service''"

definition reservation_subscription :: subscribe_options where
  "reservation_subscription =
     credit_subscription RESERVATION_QUEUE CREDIT_RESERVATION_REQUESTED ''order-service''"

definition completion_subscription :: subscribe_options where
  "completion_subscription =
     credit_subscription COMPLETION_QUEUE ORDER_COMPLETION_REQUESTED ''order-service''"

definition release_subscription :: subscribe_options where
  "release_subscription =
     credit_subscription RELEASE_QUEUE CREDIT_RELEASE_REQUESTED ''order-service''"

text \<open>The handlers the queues are consumed with.\<close>

definition deliverActivation ::
  "int \<Rightarrow> uuids \<Rightarrow> time \<Rightarrow> envelope \<Rightarrow> credit_db \<Rightarrow> (service_error + bool) \<times> credit_db" where
  "deliverActivation alloc u now = withInbox now WALLET_QUEUE (handleActivation alloc u now)"

definition deliverReservation ::
  "uuids \<Rightarrow> time \<Rightarrow> envelope \<Rightarrow> credit_db \<Rightarrow> (service_error + bool) \<times> credit_db" where
  "deliverReservation u now = withReplayableInbox now RESERVATION_QUEUE (\<lambda>env _. handleReservation u now env)"

definition deliverCompletion ::
  "uuids \<Rightarrow> time \<Rightarrow> envelope \<Rightarrow> credit_db \<Rightarrow> (service_error + bool) \<times> credit_db" where
  "deliverCompletion u now = withReplayableInbox now COMPLETION_QUEUE (\<lambda>env _. handleCompletion u now env)"

definition deliverRelease ::
  "uuids \<Rightarrow> time \<Rightarrow> envelope \<Rightarrow> credit_db \<Rightarrow> (service_error + bool) \<times> credit_db" where
  "deliverRelease u now = withReplayableInbox now RELEASE_QUEUE (\<lambda>env _. handleRelease u now env)"

section \<open>The service as a system\<close>

text \<open>
  Any message may arrive at any time, any number of times: deliveries with arbitrary envelopes
  and payloads, in any order, interleaved with the relay's claims, the pruning and the audited
  reads of administrators.
\<close>

inductive credit_local :: "int \<Rightarrow> credit_db \<Rightarrow> credit_db \<Rightarrow> bool" for alloc :: int where
  activation: "deliverActivation alloc u now env db = (r, db') \<Longrightarrow> credit_local alloc db db'"
| pruned: "pruneEventTables now retention batch stop1 stopped stop2 waiting db = (counts, db') \<Longrightarrow>
     credit_local alloc db db'"
| admin_read: "auditAdminRead v now admin target resource correlation db = Inr db' \<Longrightarrow>
     credit_local alloc db db'"

inductive credit_step :: "int \<Rightarrow> credit_db \<Rightarrow> credit_db \<Rightarrow> bool" for alloc :: int where
  own: "credit_local alloc db db' \<Longrightarrow> credit_step alloc db db'"
| reservation: "deliverReservation u now env db = (r, db') \<Longrightarrow> credit_step alloc db db'"
| completion: "deliverCompletion u now env db = (r, db') \<Longrightarrow> credit_step alloc db db'"
| release_request: "deliverRelease u now env db = (r, db') \<Longrightarrow> credit_step alloc db db'"
| relayed: "claimAndPublish ''credit-service'' opts now locked answer (outbox_events db) = (cr, rows) \<Longrightarrow>
     credit_step alloc db (db\<lparr> outbox_events := rows \<rparr>)"

definition credit_start :: "credit_db \<Rightarrow> bool" where
  "credit_start db \<longleftrightarrow>
     economy db = \<lparr> e_wallets = [], e_transactions = [], e_entries = [], e_operations = [] \<rparr> \<and>
     outbox_events db = []"

text \<open>Every step of the service is a movement of the specification.\<close>

lemma handleActivation_effect:
  "handleActivation alloc u now env db = Inr (x, db') \<Longrightarrow> credit_effect alloc (economy db) (economy db')"
  by (auto simp: handleActivation_def bindE_eq_Inr dest: issueInitial_effect split: payload.splits if_splits)

lemma handle_effects:
  "handleReservation u now env db = Inr (x, db') \<Longrightarrow> credit_effect alloc (economy db) (economy db')"
  "handleCompletion u now env db = Inr (x, db') \<Longrightarrow> credit_effect alloc (economy db) (economy db')"
  "handleRelease u now env db = Inr (x, db') \<Longrightarrow> credit_effect alloc (economy db) (economy db')"
  by (auto simp: handleReservation_def handleCompletion_def handleRelease_def bindE_eq_Inr
      dest: reserve_effect transfer_effect release_effect split: payload.splits if_splits)

lemma claim_event_economy:
  fixes db tx :: credit_db
  shows "claim_event now consumer i ty db = (first, tx) \<Longrightarrow> economy tx = economy db"
  by (drule claim_event_frame(3)) (rule economy_more(1))

lemma pruneEventTables_economy:
  fixes db db' :: credit_db
  shows "pruneEventTables now retention batch stop1 stopped stop2 waiting db = (counts, db') \<Longrightarrow>
    economy db' = economy db"
  by (auto simp: pruneEventTables_def Let_def split: prod.splits if_splits)

lemma replayable_effect:
  assumes "withReplayableInbox now queue (\<lambda>env _. handler env) env db = (r, db')"
    and "\<And>tx. handler env tx = Inr ((), db') \<Longrightarrow> credit_effect alloc (economy tx) (economy db')"
  shows "credit_effect alloc (economy db) (economy (db' :: credit_db))"
  using assms(1)
proof (cases rule: withReplayableInbox_cases)
  case (unchanged e)
  then show ?thesis by (simp add: credit_effect.unmoved)
next
  case (applied tx first)
  from assms(2) [OF applied(2)] claim_event_economy [OF applied(1)] show ?thesis by simp
qed

lemma credit_local_effect: "credit_local alloc db db' \<Longrightarrow> credit_effect alloc (economy db) (economy db')"
proof (induction rule: credit_local.induct)
  case (activation u now env db r db')
  from activation [unfolded deliverActivation_def] show ?case
  proof (cases rule: withInbox_cases)
    case unchanged
    then show ?thesis by (simp add: credit_effect.unmoved)
  next
    case (applied tx)
    from handleActivation_effect [OF applied(2)] claim_event_economy [OF applied(1)] show ?thesis by simp
  qed
next
  case (pruned now retention batch stop1 stopped stop2 waiting db counts db')
  then show ?case by (simp add: pruneEventTables_economy credit_effect.unmoved)
next
  case (admin_read v now admin target resource correlation db db')
  then show ?case by (auto simp: auditAdminRead_def insertAdminRead_def intro: credit_effect.unmoved split: if_splits)
qed

lemma credit_step_effect: "credit_step alloc db db' \<Longrightarrow> credit_effect alloc (economy db) (economy db')"
  by (induction rule: credit_step.induct)
    (auto simp: deliverReservation_def deliverCompletion_def deliverRelease_def credit_effect.unmoved
      credit_local_effect elim!: replayable_effect intro: handle_effects)

text \<open>Every wallet was issued the allocation, once.\<close>

definition allocated :: "int \<Rightarrow> economy \<Rightarrow> bool" where
  "allocated alloc e \<longleftrightarrow> issued_total (e_transactions e) = alloc * int (length (e_wallets e))"

lemma allocated_keeps: "credit_effect alloc e e' \<Longrightarrow> allocated alloc e \<Longrightarrow> allocated alloc e'"
  by (induction rule: credit_effect.induct)
    (auto simp: allocated_def issued_total_def recorded_tx_def change_wallet_def update_rows_def
      algebra_simps)

text \<open>
  What an operation that succeeded wrote to the ledger: under its transaction, exactly a debit of
  one account of its requester and a credit of the account the credits went to.
\<close>

definition payee :: "credit_operation \<Rightarrow> ident option" where
  "payee x = (if op_type x = TRANSFER then op_courierId x else Some (op_requesterId x))"

definition posted :: "ledger_entry list \<Rightarrow> credit_operation \<Rightarrow> bool" where
  "posted es x \<longleftrightarrow>
     (\<exists>i e1 e2. op_transactionId x = Some i \<and> filter (\<lambda>e. le_transactionId e = i) es = [e1, e2] \<and>
        entry_of e1 i (Some (op_requesterId x)) (if op_type x = RESERVE then AVAILABLE else RESERVED) DEBIT (op_amount x) \<and>
        entry_of e2 i (payee x) (if op_type x = RESERVE then RESERVED else AVAILABLE) CREDIT (op_amount x))"

definition ledger_posted :: "economy \<Rightarrow> bool" where
  "ledger_posted e \<longleftrightarrow>
     le_transactionId ` set (e_entries e) \<subseteq> t_id ` set (e_transactions e) \<and>
     (\<forall>x \<in> set (e_operations e). op_outcome x = SUCCEEDED \<longrightarrow> posted (e_entries e) x)"

lemma posted_transaction:
  assumes "posted es x"
  obtains i where "op_transactionId x = Some i" and "i \<in> le_transactionId ` set es"
proof -
  from assms obtain i e1 e2 where i: "op_transactionId x = Some i" "filter (\<lambda>e. le_transactionId e = i) es = [e1, e2]"
    unfolding posted_def by blast
  have "e1 \<in> set (filter (\<lambda>e. le_transactionId e = i) es)" using i(2) by simp
  then have "i \<in> le_transactionId ` set es" by auto
  with i(1) show thesis by (rule that)
qed

lemma posted_append:
  assumes "posted es x" and "i \<notin> le_transactionId ` set es"
    and "le_transactionId e1 = i" and "le_transactionId e2 = i"
  shows "posted (es @ [e1, e2]) x"
proof -
  obtain k where "op_transactionId x = Some k" "k \<in> le_transactionId ` set es"
    using posted_transaction [OF assms(1)] .
  with assms(2) have "op_transactionId x \<noteq> Some i" by auto
  then have "filter (\<lambda>e. le_transactionId e = j) (es @ [e1, e2]) = filter (\<lambda>e. le_transactionId e = j) es"
    if "op_transactionId x = Some j" for j using that assms(3,4) by simp
  with assms(1) show ?thesis unfolding posted_def by metis
qed

lemma ledger_posted_move:
  assumes "ledger_posted e" and "i \<notin> t_id ` set (e_transactions e)" and "t_id t = i"
    and "entry_of e1 i u1 a1 DEBIT amount" and "entry_of e2 i u2 a2 CREDIT amount"
    and "\<And>x. x \<in> set xs \<Longrightarrow> op_transactionId x = Some i \<and> op_amount x = amount \<and> u1 = Some (op_requesterId x) \<and>
       u2 = payee x \<and> a1 = (if op_type x = RESERVE then AVAILABLE else RESERVED) \<and>
       a2 = (if op_type x = RESERVE then RESERVED else AVAILABLE)"
  shows "ledger_posted (e\<lparr> e_wallets := ws, e_transactions := e_transactions e @ [t],
           e_entries := e_entries e @ [e1, e2], e_operations := e_operations e @ xs \<rparr>)"
proof -
  have old: "le_transactionId ` set (e_entries e) \<subseteq> t_id ` set (e_transactions e)"
    "\<And>x. x \<in> set (e_operations e) \<Longrightarrow> op_outcome x = SUCCEEDED \<Longrightarrow> posted (e_entries e) x"
    using assms(1) by (simp_all add: ledger_posted_def)
  have ids: "le_transactionId e1 = i" "le_transactionId e2 = i" using assms(4,5) by (simp_all add: entry_of_def)
  have fresh: "i \<notin> le_transactionId ` set (e_entries e)" using old(1) assms(2) by blast
  then have none: "filter (\<lambda>e. le_transactionId e = i) (e_entries e) = []" by (auto simp: filter_empty_conv)
  have new: "posted (e_entries e @ [e1, e2]) x" if "x \<in> set xs" for x
    using assms(6) [OF that] assms(4,5) none ids unfolding posted_def by simp
  have kept: "posted (e_entries e @ [e1, e2]) x" if "x \<in> set (e_operations e)" "op_outcome x = SUCCEEDED" for x
    using posted_append [OF old(2) [OF that] fresh ids] .
  have "le_transactionId ` set (e_entries e @ [e1, e2]) \<subseteq> t_id ` set (e_transactions e @ [t])"
    using old(1) ids assms(3) by auto
  with new kept show ?thesis unfolding ledger_posted_def by auto
qed

lemma ledger_posted_keeps: "credit_effect alloc e e' \<Longrightarrow> ledger_posted e \<Longrightarrow> ledger_posted e'"
proof (induction rule: credit_effect.induct)
  case (refused x order e)
  then show ?case by (simp add: ledger_posted_def)
next
  case (issued user e w t i e1 e2)
  show ?case
    using ledger_posted_move [OF issued(10,7) _ issued(8,9), of t "[]"] issued(6) by (simp add: recorded_tx_def)
next
  case (reserved w e requester amount order t i e1 e2 x now)
  have "t_id t = i" using reserved(6) by (simp add: recorded_tx_def)
  from ledger_posted_move [OF reserved(12,7) this reserved(9,10), of "[x]"] reserved(11) show ?case
    by (simp add: recorded_op_def payee_def)
next
  case (transferred rw e requester amount courier order t i e1 e2 x rb cb now)
  have "t_id t = i" using transferred(9) by (simp add: recorded_tx_def)
  from ledger_posted_move [OF transferred(16,10) this transferred(11,12), of "[x]"] transferred(13) show ?case
    by (simp add: recorded_op_def payee_def)
next
  case (released rw e requester amount order t i e1 e2 x rb now)
  have "t_id t = i" using released(7) by (simp add: recorded_tx_def)
  from ledger_posted_move [OF released(14,8) this released(9,10), of "[x]"] released(11) show ?case
    by (simp add: recorded_op_def payee_def)
qed simp

definition credit_inv :: "int \<Rightarrow> credit_db \<Rightarrow> bool" where
  "credit_inv alloc db \<longleftrightarrow> credit_ok (economy db) \<and> allocated alloc (economy db) \<and> ledger_posted (economy db)"

lemma credit_start_inv: "credit_start db \<Longrightarrow> credit_inv alloc db"
  by (simp add: credit_start_def credit_inv_def allocated_def ledger_posted_def credit_ok_def wallets_ok_def
      transactions_ok_def ledger_ok_def conserved_def operations_ok_def backed_def reserves_def
      terminals_def held_def issued_total_def side_sum_def del: economy_simps)

interpretation credit: inductive_invariant credit_start "credit_step alloc" "credit_inv alloc" for alloc
proof unfold_locales
  show "credit_start db \<Longrightarrow> credit_inv alloc db" for db by (rule credit_start_inv)
  show "credit_inv alloc db \<Longrightarrow> credit_step alloc db db' \<Longrightarrow> credit_inv alloc db'" for db db'
    unfolding credit_inv_def
    using credit_step_effect [of alloc db db'] credit_effect_keeps allocated_keeps ledger_posted_keeps by blast
qed

end
