(* ===== verification/Credit_Replies.thy ===== *)
theory Credit_Replies
  imports Credit_Service
begin

text \<open>
  What the Credit Service tells the other services. Every operation that moves or refuses credits
  appends one reply to the outbox, and the reply states what is on record; so every event the
  service ever writes is true of its economy, and stays true, since operations are only added.
\<close>

section \<open>True replies\<close>

text \<open>The operation on record that a reply of the service states.\<close>

fun refusal_states :: "credit_operation \<Rightarrow> reservation_refusal \<Rightarrow> bool" where
  "refusal_states x (INSUFFICIENT_CREDITS n) \<longleftrightarrow>
     op_rejectionReason x = Some Rej_INSUFFICIENT_CREDITS \<and> op_availableAtDecision x = Some n"
| "refusal_states x AMOUNT_OUT_OF_RANGE \<longleftrightarrow> op_rejectionReason x = Some Rej_AMOUNT_OUT_OF_RANGE"
| "refusal_states x CONFLICTING_REQUEST \<longleftrightarrow> False"

definition reservation_on_record :: "credit_operation \<Rightarrow> ident \<Rightarrow> ident \<Rightarrow> int \<Rightarrow> bool" where
  "reservation_on_record x order requester amount \<longleftrightarrow>
     op_orderId x = order \<and> op_type x = RESERVE \<and> op_requesterId x = requester \<and> op_amount x = amount"

definition reply_states :: "event \<Rightarrow> credit_operation \<Rightarrow> bool" where
  "reply_states v x \<longleftrightarrow>
     (case v of (ty, i, p) \<Rightarrow> i = op_orderId x \<and>
       (case p of
          CreditsReservedPayload order requester amount \<Rightarrow>
            ty = CREDITS_RESERVED \<and> reservation_on_record x order requester amount \<and> op_outcome x = SUCCEEDED
        | CreditReservationRejectedPayload order requester amount why \<Rightarrow>
            ty = CREDIT_RESERVATION_REJECTED \<and> op_orderId x = order \<and> op_type x = RESERVE \<and>
            (if why = CONFLICTING_REQUEST then op_requesterId x \<noteq> requester \<or> op_amount x \<noteq> amount
             else reservation_on_record x order requester amount \<and> op_outcome x = Op_REJECTED \<and> refusal_states x why)
        | CreditsTransferredPayload _ _ _ _ _ _ _ \<Rightarrow>
            ty = CREDITS_TRANSFERRED \<and> op_type x = TRANSFER \<and> op_resultPayload x = Some p
        | CreditsReleasedPayload _ _ _ _ _ \<Rightarrow>
            ty = CREDITS_RELEASED \<and> op_type x = RELEASE \<and> op_resultPayload x = Some p
        | _ \<Rightarrow> False))"

definition reply_true :: "economy \<Rightarrow> event \<Rightarrow> bool" where
  "reply_true ec v \<longleftrightarrow> (\<exists>x \<in> set (e_operations ec). reply_states v x)"

lemma reply_true_mono:
  "reply_true ec v \<Longrightarrow> set (e_operations ec) \<subseteq> set (e_operations ec') \<Longrightarrow> reply_true ec' v"
  by (auto simp: reply_true_def)

lemma credit_effect_records: "credit_effect alloc ec ec' \<Longrightarrow> set (e_operations ec) \<subseteq> set (e_operations ec')"
  by (induction rule: credit_effect.induct) auto

section \<open>The reply of each operation\<close>

text \<open>What an operation tells: nothing, or one more event, which is true afterwards.\<close>

definition tells :: "credit_db \<Rightarrow> credit_db \<Rightarrow> bool" where
  "tells db db' \<longleftrightarrow>
     outbox_events db' = outbox_events db \<or>
     (\<exists>row. outbox_events db' = outbox_events db @ [row] \<and> reply_true (economy db') (row_event row))"

lemma tells_refl: "outbox_events db' = outbox_events db \<Longrightarrow> tells db db'"
  by (simp add: tells_def)

lemma insertOutboxEvent_tells:
  fixes db db' :: credit_db
  assumes "insertOutboxEvent v now (reply_event ty order p co ca) db = Inr (i, db')"
    and "x \<in> set (credit_operations db)" and "reply_states (ty, order, p) x"
  shows "tells db db'"
proof -
  obtain row where row: "outbox_events db' = outbox_events db @ [row]" "row_event row = (ty, order, p)"
    using assms(1) by (rule insertOutboxEvent_row) (simp add: row_event_def reply_event_def)
  have "economy db' = economy db" by (rule insertOutbox_economy [OF assms(1)])
  with assms(2,3) have "reply_true (economy db') (ty, order, p)" by (auto simp: reply_true_def)
  with row show ?thesis by (simp add: tells_def)
qed

lemma writeOutcome_tells:
  assumes "writeOutcome v now input out db = Inr db'" and "x \<in> set (credit_operations db)"
    and "op_orderId x = ri_orderId input" and "op_type x = RESERVE"
    and "case out of
           Reserved _ \<Rightarrow> op_outcome x = SUCCEEDED \<and> op_requesterId x = ri_requesterId input \<and>
             op_amount x = ri_amount input
         | Rejected Rej_CONFLICTING_REQUEST _ \<Rightarrow> op_requesterId x \<noteq> ri_requesterId input \<or> op_amount x \<noteq> ri_amount input
         | Rejected reason available \<Rightarrow> op_outcome x = Op_REJECTED \<and> op_requesterId x = ri_requesterId input \<and>
             op_amount x = ri_amount input \<and> op_rejectionReason x = Some reason \<and> op_availableAtDecision x = available"
  shows "tells db db'"
proof -
  obtain ty p i where ins: "insertOutboxEvent v now (reply_event ty (ri_orderId input) p (ri_correlationId input)
      (ri_causationId input)) db = Inr (i, db')"
    and says: "ty = (case out of Reserved _ \<Rightarrow> CREDITS_RESERVED | _ \<Rightarrow> CREDIT_RESERVATION_REJECTED)"
      "p = (case out of Reserved _ \<Rightarrow> CreditsReservedPayload (ri_orderId input) (ri_requesterId input) (ri_amount input)
            | Rejected reason available \<Rightarrow> refusal_payload input reason available)"
    using assms(1) by (auto simp: writeOutcome_def bindE_eq_Inr split: reservation_outcome.splits)
  have "\<exists>a. available = Some a" if "out = Rejected Rej_INSUFFICIENT_CREDITS available" for available
    using writeOutcome_refusal [of v now input available db db'] assms(1) that by blast
  with says assms(3-5) have "reply_states (ty, ri_orderId input, p) x"
    by (auto simp: reply_states_def reservation_on_record_def refusal_payload_def Let_def
        split: reservation_outcome.splits reservation_rejection.splits option.splits)
  with ins assms(2) show ?thesis by (rule insertOutboxEvent_tells)
qed

lemma replayOrRejectConflict_tells:
  assumes "replayOrRejectConflict u now input db = Inr (out, db')"
    and "operations_ok (economy db)"
  shows "tells db db'"
proof -
  from assms(1) obtain x where found: "find (\<lambda>x. op_orderId x = ri_orderId input \<and> op_type x = RESERVE)
      (credit_operations db) = Some x"
    by (auto simp: replayOrRejectConflict_def split: option.splits)
  then have x: "x \<in> set (credit_operations db)" "op_orderId x = ri_orderId input" "op_type x = RESERVE"
    by (auto simp: find_Some_iff)
  with assms(2) have ok: "op_outcome x = Op_REJECTED \<Longrightarrow> rejection_recorded x" by (simp add: operations_ok_def)
  show ?thesis
  proof (cases "op_requesterId x \<noteq> ri_requesterId input \<or> op_amount x \<noteq> ri_amount input")
    case True
    with assms(1) found obtain a db1 where "insertAlert a db = Inr db1"
      "writeOutcome (u 1) now input (Rejected Rej_CONFLICTING_REQUEST None) db1 = Inr db'"
      by (auto simp: replayOrRejectConflict_def bindE_eq_Inr Let_def)
    with True x show ?thesis
      using writeOutcome_tells [of "u 1" now input "Rejected Rej_CONFLICTING_REQUEST None" db1 db' x]
      by (auto simp: tells_def dest!: insertAlert_Inr)
  next
    case False
    let ?out = "if op_outcome x = SUCCEEDED then Reserved (the (op_transactionId x))
       else Rejected (the (op_rejectionReason x)) (op_availableAtDecision x)"
    from False assms(1) found have "op_outcome x \<noteq> PENDING" "writeOutcome (u 0) now input ?out db = Inr db'"
      by (auto simp: replayOrRejectConflict_def bindE_eq_Inr Let_def split: if_splits)
    with False x ok show ?thesis
      by (intro writeOutcome_tells [of "u 0" now input ?out db db' x])
        (cases "op_outcome x"; auto simp: rejection_recorded_def)+
  qed
qed

lemma refuse_tells:
  assumes "refuse u now input reason available (db\<lparr> credit_operations := credit_operations db @ [claim_of now input] \<rparr>)
      = Inr (out, db')"
    and fresh: "\<forall>y \<in> set (credit_operations db). \<not> same_order (ri_orderId input) RESERVE y"
    and "reason \<noteq> Rej_CONFLICTING_REQUEST"
  shows "tells db db'"
proof -
  let ?x = "(claim_of now input)\<lparr> op_outcome := Op_REJECTED, op_rejectionReason := Some reason,
               op_availableAtDecision := available \<rparr>"
  from assms(1) obtain db1 where
    fin: "finishRejection input reason available
            (db\<lparr> credit_operations := credit_operations db @ [claim_of now input] \<rparr>) = Inr db1"
    and out: "writeOutcome (u 0) now input (Rejected reason available) db1 = Inr db'"
    by (auto simp: refuse_def bindE_eq_Inr)
  have db1: "db1 = db\<lparr> credit_operations := credit_operations db @ [?x] \<rparr>"
    using fin fresh unfolding finishRejection_def
    by (elim updateOperation_last) (auto simp: same_order_def)
  have "tells db1 db'"
    by (rule writeOutcome_tells [OF out, of ?x]) (use db1 assms(3) in \<open>auto split: reservation_rejection.splits\<close>)
  with db1 show ?thesis by (simp add: tells_def)
qed

text \<open>An operation finalized right after it was inserted is the last row of the table.\<close>

lemma finalized_last:
  assumes "updateOperation p f db2 = Inr db3" and "credit_operations db2 = ops @ [x]"
    and "\<And>y. y \<in> set ops \<Longrightarrow> \<not> p y" and "p x"
  shows "credit_operations db3 = ops @ [f x]" and "outbox_events db3 = outbox_events db2"
    and "credit_audit_alerts db3 = credit_audit_alerts db2"
proof -
  have "db2\<lparr> credit_operations := ops @ [x] \<rparr> = db2" using assms(2) by simp
  with assms(1) have "updateOperation p f (db2\<lparr> credit_operations := ops @ [x] \<rparr>) = Inr db3" by simp
  from updateOperation_last [OF this assms(3,4)] have "db3 = db2\<lparr> credit_operations := ops @ [f x] \<rparr>" by blast
  then show "credit_operations db3 = ops @ [f x]" and "outbox_events db3 = outbox_events db2"
    and "credit_audit_alerts db3 = credit_audit_alerts db2" by simp_all
qed

lemma statement_frames:
  "updateWallet user g h db = Inr (res, db') \<Longrightarrow> credit_operations db' = credit_operations db \<and>
     outbox_events db' = outbox_events db \<and> credit_audit_alerts db' = credit_audit_alerts db"
  "insertTransaction t db = Inr db' \<Longrightarrow> credit_operations db' = credit_operations db \<and>
     outbox_events db' = outbox_events db \<and> credit_audit_alerts db' = credit_audit_alerts db"
  "insertEntries e1 e2 db = Inr db' \<Longrightarrow> credit_operations db' = credit_operations db \<and>
     outbox_events db' = outbox_events db \<and> credit_audit_alerts db' = credit_audit_alerts db"
  by (auto elim!: updateWallet_Inr dest!: insertTransaction_Inr(1) insertEntries_Inr)

lemma reserve_tells:
  assumes "reserve u now input db = Inr (out, db')" and "operations_ok (economy db)"
  shows "tells db db'"
  using assms(1)
proof (cases rule: reserve_cases)
  case replayed
  then show ?thesis using assms(2) by (rule replayOrRejectConflict_tells)
next
  case (refused reason available)
  from refused(5,1,3) show ?thesis by (rule refuse_tells)
next
  case (moved rw db2 db3 db4 db5)
  let ?x = "(claim_of now input)\<lparr> op_outcome := SUCCEEDED, op_transactionId := Some (u 0) \<rparr>"
  have db4: "credit_operations db4 = credit_operations db @ [claim_of now input]" "outbox_events db4 = outbox_events db"
    using statement_frames(1) [OF moved(3)] statement_frames(2) [OF moved(4)] statement_frames(3) [OF moved(5)]
    by simp_all
  note last = finalized_last [OF moved(6) db4(1)]
  have db5: "credit_operations db5 = credit_operations db @ [?x]" "outbox_events db5 = outbox_events db"
    using last(1,2) moved(1) db4(2) by (auto simp: same_order_def)
  have "tells db5 db'" by (rule writeOutcome_tells [OF moved(7), of ?x]) (simp_all add: db5)
  with db5(2) show ?thesis by (simp add: tells_def)
qed

lemma writeTerminal_tells:
  "\<lbrakk> writeTransferOutcome v now input p db = Inr db'; x \<in> set (credit_operations db);
     op_orderId x = ti_orderId input; op_type x = TRANSFER; op_resultPayload x = Some p;
     result_recorded x \<rbrakk> \<Longrightarrow> tells db db'"
  "\<lbrakk> writeReleaseOutcome v now input p db = Inr db'; x \<in> set (credit_operations db);
     op_orderId x = ti_orderId input; op_type x = RELEASE; op_resultPayload x = Some p;
     result_recorded x \<rbrakk> \<Longrightarrow> tells db db'"
  by (auto simp: writeTransferOutcome_def writeReleaseOutcome_def bindE_eq_Inr result_recorded_def
      reply_states_def elim!: insertOutboxEvent_tells)

lemma rejectTerminal_tells:
  "rejectTerminal v now input courier ty reason details db = Inr (out, db') \<Longrightarrow> tells db db'"
  by (auto simp: rejectTerminal_def bindE_eq_Inr tells_def dest!: insertAlert_Inr)

lemma replay_tells:
  assumes "x \<in> set (credit_operations db)" and "result_recorded x"
  shows "replayTransferOrReject u now x input db = Inr (out, db') \<Longrightarrow> op_orderId x = ti_orderId input \<Longrightarrow> tells db db'"
    and "replayReleaseOrReject u now x input' db = Inr (out, db') \<Longrightarrow> op_orderId x = ti_orderId input' \<Longrightarrow> tells db db'"
  using assms
  by (auto simp: replayTransferOrReject_def replayReleaseOrReject_def bindE_eq_Inr stored_result_def
      dest: rejectTerminal_tells writeTerminal_tells split: if_splits option.splits)

text \<open>A settlement finalizes the operation it has just inserted and replies with its result.\<close>

lemma settlement_tells:
  assumes ok: "credit_ok (economy db')"
    and op: "insertOperation x db = Inr db1"
    and same: "credit_operations db2 = credit_operations db1" "outbox_events db2 = outbox_events db1"
    and fin: "finishTerminal (op_orderId x) (op_type x) tx result db2 = Inr db3"
    and out: "op_type x = TRANSFER \<and> writeTransferOutcome v now input result db3 = Inr db' \<or>
              op_type x = RELEASE \<and> writeReleaseOutcome v now input result db3 = Inr db'"
    and id: "op_orderId x = ti_orderId input"
  shows "tells db db'"
proof -
  let ?x = "x\<lparr> op_outcome := SUCCEEDED, op_transactionId := Some tx, op_resultPayload := Some result \<rparr>"
  note ins = insertOperation_Inr [OF op]
  have db2: "credit_operations db2 = credit_operations db @ [x]" using same ins(1) by simp
  have db3: "credit_operations db3 = credit_operations db @ [?x]" "outbox_events db3 = outbox_events db"
    using finalized_last(1,2) [OF fin [unfolded finishTerminal_def] db2] ins(1,2) same(2)
    by (auto simp: same_order_def)
  have "economy db' = economy db3" using out writeTerminal_economy by blast
  then have "credit_operations db' = credit_operations db @ [?x]" using db3 by (metis economy_simps(4))
  then have "result_recorded ?x" using ok by (simp add: credit_ok_def operations_ok_def)
  with out id db3 have "tells db3 db'" using writeTerminal_tells [of v now input result db3 db' ?x] by auto
  with db3(2) show ?thesis by (simp add: tells_def)
qed

lemma transfer_tells:
  assumes run: "transfer u now input db = Inr (out, db')" and ok: "credit_ok (economy db)"
  shows "tells db db'"
  using run
proof (cases rule: transfer_cases)
  case (refused r reason details)
  then show ?thesis by (simp add: rejectTerminal_tells)
next
  case (replayed prior)
  have "prior \<in> set (credit_operations db)" "op_orderId prior = ti_orderId input"
    using findTerminalOperation_Some [OF replayed(2)] by auto
  moreover from this ok have "result_recorded prior" by (simp add: credit_ok_def operations_ok_def)
  ultimately show ?thesis using replay_tells(1) replayed(3) by blast
next
  case (moved db1 rw db2 cw db3 db4 db5 db6 result)
  have "credit_ok (economy db')" using credit_effect_keeps [OF transfer_effect [OF run, of 0]] ok by blast
  moreover have "credit_operations db5 = credit_operations db1 \<and> outbox_events db5 = outbox_events db1"
    using statement_frames(1) [OF moved(5)] statement_frames(1) [OF moved(6)] statement_frames(2) [OF moved(7)]
      statement_frames(3) [OF moved(8)] by simp
  ultimately show ?thesis
    using settlement_tells [OF _ moved(4), of db' db5 "u 0" result db6 "u 3" now input] moved(10,11) by (auto simp: pending_operation_def)
qed

lemma release_tells:
  assumes run: "release u now input db = Inr (out, db')" and ok: "credit_ok (economy db)"
  shows "tells db db'"
  using run
proof (cases rule: release_cases)
  case (refused r reason details)
  then show ?thesis by (simp add: rejectTerminal_tells)
next
  case (replayed prior)
  have "prior \<in> set (credit_operations db)" "op_orderId prior = ti_orderId input"
    using findTerminalOperation_Some [OF replayed(2)] by auto
  moreover from this ok have "result_recorded prior" by (simp add: credit_ok_def operations_ok_def)
  ultimately show ?thesis using replay_tells(2) replayed(3) by blast
next
  case (moved db1 rw db2 db3 db4 db5 result)
  have "credit_ok (economy db')" using credit_effect_keeps [OF release_effect [OF run, of 0]] ok by blast
  moreover have "credit_operations db4 = credit_operations db1 \<and> outbox_events db4 = outbox_events db1"
    using statement_frames(1) [OF moved(4)] statement_frames(2) [OF moved(5)] statement_frames(3) [OF moved(6)]
    by simp
  ultimately show ?thesis
    using settlement_tells [OF _ moved(3), of db' db4 "u 0" result db5 "u 3" now input] moved(8,9) by (auto simp: pending_operation_def)
qed

section \<open>What is on record was asked for\<close>

text \<open>The request an operation answers, and what a request may leave on record.\<close>

fun request_of :: "transaction_type \<Rightarrow> ident \<Rightarrow> ident \<Rightarrow> ident option \<Rightarrow> int \<Rightarrow> event" where
  "request_of TRANSFER order requester courier amount =
     (ORDER_COMPLETION_REQUESTED, order, OrderCompletionRequestedPayload order requester amount (the courier))"
| "request_of RELEASE order requester courier amount =
     (CREDIT_RELEASE_REQUESTED, order, CreditReleaseRequestedPayload order requester amount)"
| "request_of _ order requester courier amount =
     (CREDIT_RESERVATION_REQUESTED, order, CreditReservationRequestedPayload order requester amount)"

definition op_request :: "credit_operation \<Rightarrow> event" where
  "op_request x = request_of (op_type x) (op_orderId x) (op_requesterId x) (op_courierId x) (op_amount x)"

definition records_request :: "event \<Rightarrow> credit_db \<Rightarrow> credit_db \<Rightarrow> bool" where
  "records_request req db db' \<longleftrightarrow>
     op_request ` set (credit_operations db') \<subseteq> insert req (op_request ` set (credit_operations db))"

lemma records_request_economy: "economy db' = economy db \<Longrightarrow> records_request req db db'"
  unfolding records_request_def by (metis economy_simps(4) subset_insertI)

lemma records_request_append:
  "credit_operations db' = credit_operations db @ [x] \<Longrightarrow> op_request x = req \<Longrightarrow> records_request req db db'"
  by (auto simp: records_request_def)

lemma economy_operations: "economy db' = economy db \<Longrightarrow> credit_operations db' = credit_operations db"
  by (metis economy_simps(4))

lemma reserve_records:
  assumes "reserve u now input db = Inr (out, db')"
  shows "records_request (request_of RESERVE (ri_orderId input) (ri_requesterId input) None (ri_amount input)) db db'"
  using assms
proof (cases rule: reserve_cases)
  case replayed
  then show ?thesis by (intro records_request_economy) (rule replayOrRejectConflict_economy)
next
  case (refused reason available)
  from refused(5) obtain db1 where fin: "finishRejection input reason available
      (db\<lparr> credit_operations := credit_operations db @ [claim_of now input] \<rparr>) = Inr db1"
    and out: "writeOutcome (u 0) now input (Rejected reason available) db1 = Inr db'"
    by (auto simp: refuse_def bindE_eq_Inr)
  note last = finalized_last(1) [OF fin [unfolded finishRejection_def], of "credit_operations db" "claim_of now input"]
  show ?thesis
    using last refused(1) economy_operations [OF writeOutcome_economy [OF out]]
    by (intro records_request_append) (auto simp: same_order_def op_request_def)
next
  case (moved rw db2 db3 db4 db5)
  have db4: "credit_operations db4 = credit_operations db @ [claim_of now input]"
    using statement_frames(1) [OF moved(3)] statement_frames(2) [OF moved(4)] statement_frames(3) [OF moved(5)]
    by simp
  show ?thesis
    using finalized_last(1) [OF moved(6) db4] moved(1) economy_operations [OF writeOutcome_economy [OF moved(7)]]
    by (intro records_request_append) (auto simp: same_order_def op_request_def)
qed

lemma settlement_records:
  assumes "insertOperation x db = Inr db1" and "credit_operations db2 = credit_operations db1"
    and "finishTerminal (op_orderId x) (op_type x) tx result db2 = Inr db3" and "economy db' = economy db3"
  shows "records_request (op_request x) db db'"
proof -
  note ins = insertOperation_Inr [OF assms(1)]
  have db2: "credit_operations db2 = credit_operations db @ [x]" using assms(2) ins(1) by simp
  show ?thesis
    using finalized_last(1) [OF assms(3) [unfolded finishTerminal_def] db2] ins(2) economy_operations [OF assms(4)]
    by (intro records_request_append [where x = "x\<lparr> op_outcome := SUCCEEDED, op_transactionId := Some tx,
          op_resultPayload := Some result \<rparr>"]) (auto simp: same_order_def op_request_def)
qed

lemma transfer_records:
  assumes "transfer u now input db = Inr (out, db')"
  shows "records_request (request_of TRANSFER (ti_orderId input) (ti_requesterId input) (Some (ti_courierId input))
    (ti_amount input)) db db'"
  using assms
proof (cases rule: transfer_cases)
  case (moved db1 rw db2 cw db3 db4 db5 db6 result)
  have "credit_operations db5 = credit_operations db1"
    using statement_frames(1) [OF moved(5)] statement_frames(1) [OF moved(6)] statement_frames(2) [OF moved(7)]
      statement_frames(3) [OF moved(8)] by simp
  then show ?thesis
    using settlement_records [OF moved(4), of db5 "u 0" result db6 db'] moved(10) writeTerminal_economy(1) [OF moved(11)]
    by (simp add: pending_operation_def op_request_def)
qed (auto intro!: records_request_economy dest: rejectTerminal_economy replay_economy)

lemma release_records:
  assumes "release u now input db = Inr (out, db')"
  shows "records_request (request_of RELEASE (ti_orderId input) (ti_requesterId input) None (ti_amount input)) db db'"
  using assms
proof (cases rule: release_cases)
  case (moved db1 rw db2 db3 db4 db5 result)
  have "credit_operations db4 = credit_operations db1"
    using statement_frames(1) [OF moved(4)] statement_frames(2) [OF moved(5)] statement_frames(3) [OF moved(6)]
    by simp
  then show ?thesis
    using settlement_records [OF moved(3), of db4 "u 0" result db5 db'] moved(8) writeTerminal_economy(2) [OF moved(9)]
    by (simp add: pending_operation_def op_request_def)
qed (auto intro!: records_request_economy dest: rejectTerminal_economy replay_economy)

section \<open>The handlers\<close>

lemma handlers_record:
  "handleReservation u now env db = Inr (x, db') \<Longrightarrow> eventType env = CREDIT_RESERVATION_REQUESTED \<Longrightarrow>
     records_request (envelope_event env) db db'"
  "handleCompletion u now env db = Inr (x, db') \<Longrightarrow> eventType env = ORDER_COMPLETION_REQUESTED \<Longrightarrow>
     records_request (envelope_event env) db db'"
  "handleRelease u now env db = Inr (x, db') \<Longrightarrow> eventType env = CREDIT_RELEASE_REQUESTED \<Longrightarrow>
     records_request (envelope_event env) db db'"
  by (auto simp: handleReservation_def handleCompletion_def handleRelease_def bindE_eq_Inr envelope_event_def
      dest: reserve_records transfer_records release_records split: payload.splits if_splits)

lemma handlers_tell:
  assumes "credit_ok (economy db)"
  shows "handleReservation u now env db = Inr (x, db') \<Longrightarrow> tells db db'"
    and "handleCompletion u now env db = Inr (x, db') \<Longrightarrow> tells db db'"
    and "handleRelease u now env db = Inr (x, db') \<Longrightarrow> tells db db'"
    and "handleActivation alloc u now env db = Inr (x, db') \<Longrightarrow> tells db db'"
proof -
  have "operations_ok (economy db)" using assms by (simp add: credit_ok_def)
  with assms show "handleReservation u now env db = Inr (x, db') \<Longrightarrow> tells db db'"
    "handleCompletion u now env db = Inr (x, db') \<Longrightarrow> tells db db'"
    "handleRelease u now env db = Inr (x, db') \<Longrightarrow> tells db db'"
    by (auto simp: handleReservation_def handleCompletion_def handleRelease_def bindE_eq_Inr
        dest: reserve_tells transfer_tells release_tells split: payload.splits if_splits)
  show "handleActivation alloc u now env db = Inr (x, db') \<Longrightarrow> tells db db'"
    by (auto simp: handleActivation_def issueInitial_def Let_def bindE_eq_Inr tells_def
        dest!: statement_frames split: payload.splits if_splits)
qed

section \<open>Everything the service says is true\<close>

text \<open>\<open>sent\<close> are events that left the outbox: published, and perhaps pruned since.\<close>

definition replies_true :: "event set \<Rightarrow> credit_db \<Rightarrow> bool" where
  "replies_true sent db \<longleftrightarrow> (\<forall>v \<in> row_event ` set (outbox_events db) \<union> sent. reply_true (economy db) v)"

lemma tells_keeps:
  assumes "tells db db'" and "credit_effect alloc (economy db) (economy db')" and "replies_true sent db"
  shows "replies_true sent db'"
proof -
  have "\<forall>v \<in> row_event ` set (outbox_events db) \<union> sent. reply_true (economy db') v"
    using assms(3) credit_effect_records [OF assms(2)] reply_true_mono [of "economy db" _ "economy db'"]
    unfolding replies_true_def by blast
  moreover have "row_event ` set (outbox_events db') \<subseteq>
      row_event ` set (outbox_events db) \<union> {v. reply_true (economy db') v}"
    using assms(1) by (auto simp: tells_def)
  ultimately show ?thesis unfolding replies_true_def by blast
qed

lemma replayable_tells:
  assumes "withReplayableInbox now queue (\<lambda>env _. handler env) env db = (r, db')"
    and "\<And>tx. \<lbrakk> handler env tx = Inr ((), db'); economy tx = economy db \<rbrakk> \<Longrightarrow> tells tx db'"
  shows "tells db (db' :: credit_db)"
  using assms(1)
proof (cases rule: withReplayableInbox_cases)
  case (applied tx first)
  from assms(2) [OF applied(2) claim_event_economy [OF applied(1)]] claim_event_frame(1) [OF applied(1)]
  show ?thesis by (simp add: tells_def)
qed (simp add: tells_refl)

lemma deliveries_tell:
  assumes "credit_ok (economy db)"
  shows "deliverReservation u now env db = (r, db') \<Longrightarrow> tells db db'"
    and "deliverCompletion u now env db = (r, db') \<Longrightarrow> tells db db'"
    and "deliverRelease u now env db = (r, db') \<Longrightarrow> tells db db'"
  unfolding deliverReservation_def deliverCompletion_def deliverRelease_def
  using assms by (auto elim!: replayable_tells intro: handlers_tell)

lemma replayable_records:
  assumes "withReplayableInbox now queue (\<lambda>env _. handler env) env db = (r, db')"
    and "\<And>tx. handler env tx = Inr ((), db') \<Longrightarrow> records_request req tx db'"
  shows "records_request req db (db' :: credit_db)"
  using assms(1)
proof (cases rule: withReplayableInbox_cases)
  case (applied tx first)
  from assms(2) [OF applied(2)] economy_operations [OF claim_event_economy [OF applied(1)]]
  show ?thesis by (simp add: records_request_def)
qed (simp add: records_request_economy)

lemma deliveries_record:
  "deliverReservation u now env db = (r, db') \<Longrightarrow> eventType env = CREDIT_RESERVATION_REQUESTED \<Longrightarrow>
     records_request (envelope_event env) db db'"
  "deliverCompletion u now env db = (r, db') \<Longrightarrow> eventType env = ORDER_COMPLETION_REQUESTED \<Longrightarrow>
     records_request (envelope_event env) db db'"
  "deliverRelease u now env db = (r, db') \<Longrightarrow> eventType env = CREDIT_RELEASE_REQUESTED \<Longrightarrow>
     records_request (envelope_event env) db db'"
  unfolding deliverReservation_def deliverCompletion_def deliverRelease_def
  by (auto elim!: replayable_records intro: handlers_record)

lemma deliveries_effect:
  "deliverReservation u now env db = (r, db') \<Longrightarrow> credit_effect alloc (economy db) (economy db')"
  "deliverCompletion u now env db = (r, db') \<Longrightarrow> credit_effect alloc (economy db) (economy db')"
  "deliverRelease u now env db = (r, db') \<Longrightarrow> credit_effect alloc (economy db) (economy db')"
  by (rule credit_step_effect, erule credit_step.intros)+

lemma credit_local_keeps_replies:
  assumes "credit_local alloc db db'" and "credit_ok (economy db)" and "replies_true sent db"
  shows "replies_true sent db'"
  using assms(1)
proof cases
  case (activation u now env r)
  from activation [unfolded deliverActivation_def] show ?thesis
  proof (cases rule: withInbox_cases)
    case unchanged
    with assms(3) show ?thesis by simp
  next
    case (applied tx)
    have same: "economy tx = economy db" "outbox_events tx = outbox_events db"
      using claim_event_economy [OF applied(1)] claim_event_frame(1) [OF applied(1)] by simp_all
    have "tells tx db'" using handlers_tell(4) [of tx alloc u now env "()" db'] applied(2) assms(2) same by simp
    moreover have "credit_effect alloc (economy tx) (economy db')" using handleActivation_effect [OF applied(2)] .
    moreover have "replies_true sent tx" using assms(3) same by (simp add: replies_true_def)
    ultimately show ?thesis by (rule tells_keeps)
  qed
next
  case (pruned now retention batch stop1 stopped stop2 waiting counts)
  with pruneEventTables_outbox(1) [OF pruned] assms(3) show ?thesis
    by (auto simp: replies_true_def pruneEventTables_economy)
next
  case (admin_read v now admin target resource correlation)
  then have "economy db' = economy db" "outbox_events db' = outbox_events db"
    by (auto simp: auditAdminRead_def insertAdminRead_def split: if_splits)
  with assms(3) show ?thesis by (simp add: replies_true_def)
qed

lemma relayed_says:
  "claimAndPublish service opts now locked answer rows = (cr, rows') \<Longrightarrow> row_event ` set rows' = row_event ` set rows"
  unfolding claimAndPublish_def by (rule same_events_say, rule publish_rows_same_event)

lemma credit_step_keeps_replies:
  assumes "credit_step alloc db db'" and "credit_ok (economy db)" and "replies_true sent db"
  shows "replies_true sent db'"
  using assms(1)
proof cases
  case own
  then show ?thesis using assms(2,3) by (rule credit_local_keeps_replies)
next
  case (relayed opts now locked answer cr rows)
  from relayed_says [OF relayed(2)] assms(3) show ?thesis unfolding relayed(1) by (simp add: replies_true_def)
qed (use tells_keeps [OF _ credit_step_effect [OF assms(1)] assms(3)] deliveries_tell [OF assms(2)] in blast)+

interpretation credit_talk: inductive_invariant credit_start "credit_step alloc"
  "\<lambda>db. credit_inv alloc db \<and> replies_true {} db" for alloc
proof unfold_locales
  show "credit_start db \<Longrightarrow> credit_inv alloc db \<and> replies_true {} db" for db
    using credit.starts by (simp add: credit_start_def replies_true_def)
  show "credit_inv alloc db \<and> replies_true {} db \<Longrightarrow> credit_step alloc db db' \<Longrightarrow>
      credit_inv alloc db' \<and> replies_true {} db'" for db db'
    using credit.keeps credit_step_keeps_replies by (blast intro: credit_inv_def [THEN iffD1, THEN conjunct1])
qed

end
