(* ===== verification/Order_State_Machine.thy ===== *)
theory Order_State_Machine
  imports Event_Catalogue
begin

text \<open>
  The errand lifecycle of the Order Service (order-service/src/orders/order-state-machine.ts and
  the statuses of types.ts): the actions, the actors, the table of transition rules with their
  guards, and the decision every command asks of it. The lemmas lift a fact checked once per rule
  to every decision the table can make.
\<close>

section \<open>Actions, actors, rules\<close>

datatype order_action =
    CREDIT_RESERVED | CREDIT_REJECTED | ACCEPT | CANCEL | REQUESTER_SUSPENDED
  | ACCEPTANCE_DEADLINE_PASSED | RECORD_PICKUP | WITHDRAW | PICKUP_TIMEOUT | COURIER_SUSPENDED
  | RECORD_DELIVERY | REPORT_NON_DELIVERY | DELIVERY_PERIOD_PASSED | CONFIRM_RECEIPT | AUTO_CONFIRM
  | REPORT_NON_RECEIPT | RESOLVE_FOR_COURIER | RESOLVE_FOR_REQUESTER | ADMIN_ASSIGNED
  | ADMIN_UNASSIGNED | TRANSFER_CONFIRMED | RELEASE_CONFIRMED

datatype order_actor =
  REQUESTER | ASSIGNED_COURIER | OTHER_STUDENT | Actor_ADMIN | CREDIT_SERVICE | SYSTEM

definition TERMINAL_ORDER_STATUSES :: "order_status list" where
  "TERMINAL_ORDER_STATUSES = [REJECTED, COMPLETED, CANCELLED, EXPIRED]"

text \<open>
  A suspension's effect by the suspended user's part in the errand: the reason recorded, and the
  action tried from each status it can change, in the order of the source's object keys.
\<close>

datatype participant = Part_REQUESTER | Part_COURIER

record suspension_effect =
  se_reason :: string
  se_actions :: "(order_status \<times> order_action) list"

fun SUSPENSION_EFFECTS :: "participant \<Rightarrow> suspension_effect" where
  "SUSPENSION_EFFECTS Part_REQUESTER =
     \<lparr> se_reason = ''requester suspended'',
       se_actions = [(OPEN, REQUESTER_SUSPENDED), (ACCEPTED, REQUESTER_SUSPENDED),
                     (PICKED_UP, DELIVERY_PERIOD_PASSED)] \<rparr>"
| "SUSPENSION_EFFECTS Part_COURIER =
     \<lparr> se_reason = ''courier suspended'',
       se_actions = [(ACCEPTED, COURIER_SUSPENDED), (PICKED_UP, COURIER_SUSPENDED)] \<rparr>"

text \<open>The action that carries out an administrator's decision for either side.\<close>

fun RESOLVE_ACTIONS :: "participant \<Rightarrow> order_action" where
  "RESOLVE_ACTIONS Part_COURIER = RESOLVE_FOR_COURIER"
| "RESOLVE_ACTIONS Part_REQUESTER = RESOLVE_FOR_REQUESTER"

text \<open>
  The facts a guard may ask about. A flag left out of the context reads as false in every guard
  of the table; the release reason is the status the errand ends in once its credits are back.
\<close>

record transition_context =
  acceptanceDeadlinePassed :: bool
  deliveryPeriodPassed :: bool
  autoConfirmationPeriodPassed :: bool
  requesterSuspended :: bool
  reasonProvided :: bool
  ctx_releaseReason :: "order_status option"

record transition_decision =
  d_to :: order_status
  d_releaseReason :: "order_status option"
  d_emitted :: "event_type list"

record transition_rule =
  r_from :: order_status
  r_action :: order_action
  r_actors :: "order_actor list"
  r_guard :: "(transition_context \<Rightarrow> bool) option"
  r_decide :: "transition_context \<Rightarrow> transition_decision"

definition statusChanged :: "event_type list" where
  "statusChanged = [ORDER_STATUS_CHANGED]"

definition completion :: "event_type list" where
  "completion = [ORDER_COMPLETION_REQUESTED, ORDER_STATUS_CHANGED]"

definition release_events :: "event_type list" where
  "release_events = [CREDIT_RELEASE_REQUESTED, ORDER_STATUS_CHANGED]"

text \<open>One row of the table: where from, by which action, by whom, when, and what follows.\<close>

definition rule ::
  "order_status \<Rightarrow> order_action \<Rightarrow> order_actor \<Rightarrow> (transition_context \<Rightarrow> bool) option
     \<Rightarrow> order_status \<Rightarrow> order_status option \<Rightarrow> event_type list \<Rightarrow> transition_rule" where
  "rule src action actor guard tgt reason emitted =
     \<lparr> r_from = src, r_action = action, r_actors = [actor], r_guard = guard,
       r_decide = (\<lambda>_. \<lparr> d_to = tgt, d_releaseReason = reason, d_emitted = emitted \<rparr>) \<rparr>"

section \<open>The table\<close>

definition ORDER_TRANSITIONS :: "transition_rule list" where
  "ORDER_TRANSITIONS =
   [rule PENDING_CREDIT CREDIT_RESERVED CREDIT_SERVICE (Some (\<lambda>c. \<not> requesterSuspended c))
      OPEN None statusChanged,
    rule PENDING_CREDIT CREDIT_RESERVED CREDIT_SERVICE (Some (\<lambda>c. requesterSuspended c))
      RELEASE_PENDING_CREDIT (Some CANCELLED) release_events,
    rule PENDING_CREDIT CREDIT_REJECTED CREDIT_SERVICE None
      REJECTED None statusChanged,
    rule OPEN ACCEPT OTHER_STUDENT (Some (\<lambda>c. \<not> acceptanceDeadlinePassed c))
      ACCEPTED None statusChanged,
    rule OPEN CANCEL REQUESTER None
      RELEASE_PENDING_CREDIT (Some CANCELLED) release_events,
    rule OPEN REQUESTER_SUSPENDED SYSTEM None
      RELEASE_PENDING_CREDIT (Some CANCELLED) release_events,
    rule OPEN ACCEPTANCE_DEADLINE_PASSED SYSTEM None
      RELEASE_PENDING_CREDIT (Some EXPIRED) release_events,
    rule ACCEPTED RECORD_PICKUP ASSIGNED_COURIER None
      PICKED_UP None statusChanged,
    rule ACCEPTED CANCEL REQUESTER None
      RELEASE_PENDING_CREDIT (Some CANCELLED) release_events,
    rule ACCEPTED REQUESTER_SUSPENDED SYSTEM None
      RELEASE_PENDING_CREDIT (Some CANCELLED) release_events,
    rule ACCEPTED WITHDRAW ASSIGNED_COURIER (Some (\<lambda>c. \<not> acceptanceDeadlinePassed c))
      OPEN None statusChanged,
    rule ACCEPTED WITHDRAW ASSIGNED_COURIER (Some (\<lambda>c. acceptanceDeadlinePassed c))
      RELEASE_PENDING_CREDIT (Some EXPIRED) release_events,
    rule ACCEPTED PICKUP_TIMEOUT SYSTEM (Some (\<lambda>c. \<not> acceptanceDeadlinePassed c))
      OPEN None statusChanged,
    rule ACCEPTED PICKUP_TIMEOUT SYSTEM (Some (\<lambda>c. acceptanceDeadlinePassed c))
      RELEASE_PENDING_CREDIT (Some EXPIRED) release_events,
    rule ACCEPTED COURIER_SUSPENDED SYSTEM None
      OPEN None statusChanged,
    rule PICKED_UP RECORD_DELIVERY ASSIGNED_COURIER None
      DELIVERED None statusChanged,
    rule PICKED_UP REPORT_NON_DELIVERY REQUESTER (Some (\<lambda>c. deliveryPeriodPassed c))
      DISPUTED None statusChanged,
    rule PICKED_UP DELIVERY_PERIOD_PASSED SYSTEM
      (Some (\<lambda>c. requesterSuspended c \<and> deliveryPeriodPassed c))
      DISPUTED None statusChanged,
    rule PICKED_UP COURIER_SUSPENDED SYSTEM None
      DISPUTED None statusChanged,
    rule DELIVERED CONFIRM_RECEIPT REQUESTER None
      COMPLETION_PENDING_CREDIT None completion,
    rule DELIVERED AUTO_CONFIRM SYSTEM None
      COMPLETION_PENDING_CREDIT None completion,
    rule DELIVERED REPORT_NON_RECEIPT REQUESTER (Some (\<lambda>c. \<not> autoConfirmationPeriodPassed c))
      DISPUTED None statusChanged,
    rule DISPUTED RESOLVE_FOR_COURIER Actor_ADMIN (Some (\<lambda>c. reasonProvided c))
      COMPLETION_PENDING_CREDIT None completion,
    rule DISPUTED RESOLVE_FOR_REQUESTER Actor_ADMIN (Some (\<lambda>c. reasonProvided c))
      RELEASE_PENDING_CREDIT (Some CANCELLED) release_events,
    rule DISPUTED ADMIN_ASSIGNED SYSTEM None
      DISPUTED None [],
    rule DISPUTED ADMIN_UNASSIGNED SYSTEM None
      DISPUTED None [],
    rule COMPLETION_PENDING_CREDIT TRANSFER_CONFIRMED CREDIT_SERVICE None
      COMPLETED None statusChanged,
    rule RELEASE_PENDING_CREDIT RELEASE_CONFIRMED CREDIT_SERVICE
      (Some (\<lambda>c. ctx_releaseReason c = Some CANCELLED))
      CANCELLED None statusChanged,
    rule RELEASE_PENDING_CREDIT RELEASE_CONFIRMED CREDIT_SERVICE
      (Some (\<lambda>c. ctx_releaseReason c = Some EXPIRED))
      EXPIRED None statusChanged]"

text \<open>The test of the \<open>find\<close> in \<open>decideTransition\<close>.\<close>

definition rule_applies ::
  "order_status \<Rightarrow> order_action \<Rightarrow> order_actor \<Rightarrow> transition_context \<Rightarrow> transition_rule \<Rightarrow> bool" where
  "rule_applies src action actor context candidate \<longleftrightarrow>
     r_from candidate = src \<and> r_action candidate = action \<and> actor \<in> set (r_actors candidate) \<and>
     (case r_guard candidate of None \<Rightarrow> True | Some guard \<Rightarrow> guard context)"

definition decideTransition ::
  "order_status \<Rightarrow> order_action \<Rightarrow> order_actor \<Rightarrow> transition_context \<Rightarrow> transition_decision option" where
  "decideTransition src action actor context =
     map_option (\<lambda>r. r_decide r context) (find (rule_applies src action actor context) ORDER_TRANSITIONS)"

section \<open>From rules to decisions\<close>

lemma rule_simps [simp]:
  "r_from (rule s a w g t re em) = s" "r_action (rule s a w g t re em) = a"
  "r_actors (rule s a w g t re em) = [w]" "r_guard (rule s a w g t re em) = g"
  "r_decide (rule s a w g t re em) c = \<lparr> d_to = t, d_releaseReason = re, d_emitted = em \<rparr>"
  by (simp_all add: rule_def)

text \<open>
  A fact about source, action, actor and decision that holds of every rule whose guard is met
  holds of every decision.
\<close>

definition rule_fact ::
  "(order_status \<Rightarrow> order_action \<Rightarrow> order_actor \<Rightarrow> transition_context \<Rightarrow> transition_decision \<Rightarrow> bool)
     \<Rightarrow> transition_context \<Rightarrow> transition_rule \<Rightarrow> bool" where
  "rule_fact P context r \<longleftrightarrow>
     (\<forall>actor \<in> set (r_actors r). (case r_guard r of None \<Rightarrow> True | Some guard \<Rightarrow> guard context) \<longrightarrow>
        P (r_from r) (r_action r) actor context (r_decide r context))"

lemma rule_fact_rule:
  "rule_fact P context (rule s a w g t re em) \<longleftrightarrow>
     ((case g of None \<Rightarrow> True | Some guard \<Rightarrow> guard context) \<longrightarrow>
        P s a w context \<lparr> d_to = t, d_releaseReason = re, d_emitted = em \<rparr>)"
  by (simp add: rule_fact_def)

lemma decision_by_rule:
  assumes "decideTransition src action actor context = Some d"
    and "list_all (rule_fact P context) ORDER_TRANSITIONS"
  shows "P src action actor context d"
proof -
  from assms(1) obtain r where "find (rule_applies src action actor context) ORDER_TRANSITIONS = Some r"
    and d: "d = r_decide r context"
    by (auto simp: decideTransition_def)
  then have "r \<in> set ORDER_TRANSITIONS" "rule_applies src action actor context r"
    by (auto simp: find_Some_iff in_set_conv_nth)
  with assms(2) d show ?thesis
    by (auto simp: list_all_iff rule_fact_def rule_applies_def)
qed

lemmas each_rule = ORDER_TRANSITIONS_def statusChanged_def completion_def release_events_def
  rule_fact_rule TERMINAL_ORDER_STATUSES_def

section \<open>What the table guarantees\<close>

lemma rules_exclusive:
  "sorted_wrt (\<lambda>r s. \<forall>src action actor context.
      \<not> (rule_applies src action actor context r \<and> rule_applies src action actor context s))
    ORDER_TRANSITIONS"
  by (simp add: ORDER_TRANSITIONS_def rule_applies_def)

lemma sorted_wrt_exclusive_filter:
  "sorted_wrt (\<lambda>r s. \<not> (p r \<and> p s)) rs \<Longrightarrow> length (filter p rs) \<le> 1"
  by (induction rs) (auto simp: filter_empty_conv)

text \<open>
  At most one rule of the table applies to any status, action, actor and context, so no
  decision depends on the order in which the rules are listed.
\<close>

theorem transition_table_is_deterministic:
  "length (filter (rule_applies src action actor context) ORDER_TRANSITIONS) \<le> 1"
  by (rule sorted_wrt_exclusive_filter, rule sorted_wrt_mono_rel [OF _ rules_exclusive]) blast

text \<open>
  C12. Every decision of the table keeps the errand in step with its credits: the errand had not
  ended; only the Credit Service ends it; the credit request announced is the one the new status
  waits for, a release always with its reason; and a status change is announced exactly when the
  status changes.
\<close>

theorem decisions_follow_the_credits:
  assumes "decideTransition src action actor context = Some d"
  shows "src \<notin> set TERMINAL_ORDER_STATUSES \<and>
         (d_to d \<in> set TERMINAL_ORDER_STATUSES \<longrightarrow> actor = CREDIT_SERVICE) \<and>
         (ORDER_COMPLETION_REQUESTED \<in> set (d_emitted d) \<longleftrightarrow> d_to d = COMPLETION_PENDING_CREDIT) \<and>
         (CREDIT_RELEASE_REQUESTED \<in> set (d_emitted d) \<longleftrightarrow> d_to d = RELEASE_PENDING_CREDIT) \<and>
         (d_releaseReason d \<in> {Some CANCELLED, Some EXPIRED} \<longleftrightarrow> d_to d = RELEASE_PENDING_CREDIT) \<and>
         (ORDER_STATUS_CHANGED \<in> set (d_emitted d) \<longleftrightarrow> d_to d \<noteq> src)"
  using assms by (rule decision_by_rule) (simp add: each_rule)

theorem decisions_follow_the_credits_witness:
  "DELIVERED \<notin> set TERMINAL_ORDER_STATUSES \<and>
   (ORDER_COMPLETION_REQUESTED \<in> set [ORDER_COMPLETION_REQUESTED, ORDER_STATUS_CHANGED])"
proof -
  have "decideTransition DELIVERED CONFIRM_RECEIPT REQUESTER
      \<lparr> acceptanceDeadlinePassed = True, deliveryPeriodPassed = False,
        autoConfirmationPeriodPassed = False, requesterSuspended = False, reasonProvided = False,
        ctx_releaseReason = None \<rparr> =
    Some \<lparr> d_to = COMPLETION_PENDING_CREDIT, d_releaseReason = None,
           d_emitted = [ORDER_COMPLETION_REQUESTED, ORDER_STATUS_CHANGED] \<rparr>" by code_simp
  from decisions_follow_the_credits [OF this] show ?thesis by simp
qed

end
