(* ===== verification/Order_Store.thy ===== *)
theory Order_Store
  imports Event_Tables Order_State_Machine
begin

text \<open>
  The Order Service's tables (order-service/src/db/schema.ts) and the statements its repository
  runs on them. As in the credit store, a constraint that a statement could run into is a branch
  that gives \<open>DbViolation\<close> with the constraint's name. The history, the receipts, the alerts and
  the reconciliation attempts are append-only by trigger; no statement here updates them.
\<close>

section \<open>Tables\<close>

record order_item =
  it_name :: string
  it_quantity :: int
  it_note :: "string option"

record supplier_snapshot =
  ss_supplierId :: ident
  ss_name :: string
  ss_type :: string
  ss_building :: string
  ss_floor :: string
  ss_locationDescription :: string

text \<open>An errand as the service reads it (\<open>OrderRow\<close>).\<close>

record order_row =
  o_orderId :: ident
  o_requesterId :: ident
  o_courierId :: "ident option"
  o_referredAdminId :: "ident option"
  o_supplierSnapshot :: supplier_snapshot
  o_items :: "order_item list"
  o_deliveryZone :: string
  o_deliveryInstructions :: string
  o_reward :: int
  o_status :: order_status
  o_releaseReason :: "order_status option"
  o_rejectionReason :: "string option"
  o_availableAtRejection :: "int option"
  o_version :: int
  o_acceptanceDeadlineAt :: "time option"
  o_acceptedAt :: "time option"
  o_pickedUpAt :: "time option"
  o_deliveredAt :: "time option"
  o_nonDeliveryReportAt :: "time option"
  o_autoConfirmAt :: "time option"
  o_completionRequestedAt :: "time option"
  o_completedAt :: "time option"
  o_releaseRequestedAt :: "time option"
  o_releasedAt :: "time option"
  o_creditTransactionId :: "ident option"
  o_createdAt :: time
  o_updatedAt :: time

text \<open>
  An errand as the table holds it: times to the microsecond, and the one column the service
  only filters on.
\<close>

record stored_order = order_row +
  requester_suspended_at :: "time option"

datatype history_action = CREATE | Did order_action | SYSTEM_OUTCOME

datatype history_actor =
  Hist_REQUESTER | Hist_COURIER | Hist_STUDENT | Hist_ADMIN | Hist_CREDIT_SERVICE | Hist_SYSTEM

record history_row =
  h_historyId :: ident
  h_orderId :: ident
  h_previousStatus :: "order_status option"
  h_newStatus :: order_status
  h_action :: history_action
  h_actorType :: history_actor
  h_actorId :: "ident option"
  h_reason :: "string option"
  h_orderVersion :: int
  h_occurredAt :: time

record receipt_row =
  rc_orderId :: ident
  rc_requesterId :: ident
  rc_courierId :: ident
  rc_supplierSnapshot :: supplier_snapshot
  rc_items :: "order_item list"
  rc_reward :: int
  rc_creditTransactionId :: ident
  rc_createdAt :: time
  rc_acceptedAt :: time
  rc_pickedUpAt :: time
  rc_deliveredAt :: "time option"
  rc_completionRequestedAt :: time
  rc_completedAt :: time

datatype alert_kind = CREDIT_WAIT_EXCEEDED | CREDIT_STATE_CONFLICT | REFERRAL_UNASSIGNED

datatype credit_state = Credit_NONE | Credit_RESERVED | Credit_RELEASED | Credit_TRANSFERRED

datatype credit_detail = Detail_UNKNOWN | Detail_IN_FLIGHT | Detail_REJECTED

datatype order_alert_detail =
    Waiting_since time ident
  | Conflicting_status order_status "credit_state option"
  | Active_admins nat

record operator_alert =
  oa_orderId :: ident
  oa_kind :: alert_kind
  oa_raisedAt :: time
  oa_detail :: order_alert_detail

datatype reconciliation_action = REISSUED | ALERTED | CREDIT_UNAVAILABLE

record reconciliation_attempt =
  ra_attemptId :: ident
  ra_runId :: ident
  ra_orderId :: ident
  ra_orderStatus :: order_status
  ra_orderVersion :: int
  ra_creditStatus :: "credit_state option"
  ra_creditDetail :: "credit_detail option"
  ra_action :: reconciliation_action
  ra_reissuedEventId :: "ident option"
  ra_attemptedAt :: time

text \<open>A used idempotency key, of \<open>POST /orders\<close> or of a command: who sent it, and for what.\<close>

record idempotency_key =
  ik_callerId :: ident
  ik_idempotencyKey :: string
  ik_orderId :: ident
  ik_requestHash :: string
  ik_createdAt :: time

record order_db = service_db +
  orders :: "stored_order list"
  order_status_history :: "history_row list"
  order_receipts :: "receipt_row list"
  order_operator_alerts :: "operator_alert list"
  order_reconciliation_attempts :: "reconciliation_attempt list"
  order_idempotency_keys :: "idempotency_key list"
  order_command_idempotency_keys :: "idempotency_key list"

section \<open>Constraints\<close>

definition order_checks :: "stored_order \<Rightarrow> (string \<times> bool) list" where
  "order_checks x =
     [(''integer out of range'', int4 (o_reward x) \<and> int4 (o_version x) \<and> opt_all int4 (o_availableAtRejection x)),
      (''orders_reward_range'', 1 \<le> o_reward x \<and> o_reward x \<le> 5),
      (''orders_version_positive'', 1 \<le> o_version x),
      (''orders_items_array'', o_items x \<noteq> []),
      (''orders_delivery_zone_len'', 1 \<le> length (o_deliveryZone x) \<and> length (o_deliveryZone x) \<le> 200),
      (''orders_delivery_instructions_len'',
        1 \<le> length (o_deliveryInstructions x) \<and> length (o_deliveryInstructions x) \<le> 1000),
      (''orders_courier_shape'',
        o_status x \<notin> {ACCEPTED, PICKED_UP, DELIVERED, DISPUTED, COMPLETION_PENDING_CREDIT, COMPLETED} \<or>
        o_courierId x \<noteq> None),
      (''orders_release_reason_shape'', o_releaseReason x \<in> {None, Some CANCELLED, Some EXPIRED}),
      (''orders_completed_shape'',
        o_status x \<noteq> COMPLETED \<or> (o_completedAt x \<noteq> None \<and> o_creditTransactionId x \<noteq> None)),
      (''orders_released_shape'',
        o_status x \<notin> {CANCELLED, EXPIRED} \<or>
        (o_releasedAt x \<noteq> None \<and> o_creditTransactionId x \<noteq> None \<and> o_releaseReason x \<noteq> None)),
      (''orders_rejection_shape'', (o_status x = REJECTED) = (o_rejectionReason x \<noteq> None)),
      (''orders_picked_up_shape'', o_status x \<noteq> PICKED_UP \<or> o_nonDeliveryReportAt x \<noteq> None),
      (''orders_delivered_shape'', o_status x \<noteq> DELIVERED \<or> o_autoConfirmAt x \<noteq> None)]"

definition order_fk :: "order_db \<Rightarrow> ident \<Rightarrow> bool" where
  "order_fk db i \<longleftrightarrow> i \<in> o_orderId ` set (orders db)"

definition history_checks :: "order_db \<Rightarrow> history_row \<Rightarrow> (string \<times> bool) list" where
  "history_checks db h =
     [(''integer out of range'', int4 (h_orderVersion h)),
      (''order_status_history_pkey'', h_historyId h \<notin> h_historyId ` set (order_status_history db)),
      (''order_history_order_version_key'',
        (h_orderId h, h_orderVersion h) \<notin>
          (\<lambda>x. (h_orderId x, h_orderVersion x)) ` set (order_status_history db)),
      (''order_status_history_order_id_fk'', order_fk db (h_orderId h))]"

definition receipt_checks :: "order_db \<Rightarrow> receipt_row \<Rightarrow> (string \<times> bool) list" where
  "receipt_checks db r =
     [(''order_receipts_reward_range'', 1 \<le> rc_reward r \<and> rc_reward r \<le> 5),
      (''order_receipts_pkey'', rc_orderId r \<notin> rc_orderId ` set (order_receipts db)),
      (''order_receipts_credit_transaction_id_unique'',
        rc_creditTransactionId r \<notin> rc_creditTransactionId ` set (order_receipts db)),
      (''order_receipts_order_id_fk'', order_fk db (rc_orderId r))]"

definition attempt_checks :: "order_db \<Rightarrow> reconciliation_attempt \<Rightarrow> (string \<times> bool) list" where
  "attempt_checks db a =
     [(''order_reconciliation_reissue_shape'', (ra_action a = REISSUED) = (ra_reissuedEventId a \<noteq> None)),
      (''order_reconciliation_attempts_pkey'',
        ra_attemptId a \<notin> ra_attemptId ` set (order_reconciliation_attempts db)),
      (''order_reconciliation_attempts_order_id_fk'', order_fk db (ra_orderId a))]"

definition key_checks :: "string \<Rightarrow> order_db \<Rightarrow> idempotency_key list \<Rightarrow> idempotency_key \<Rightarrow> (string \<times> bool) list" where
  "key_checks pkey db keys k =
     [(pkey, (ik_callerId k, ik_idempotencyKey k) \<notin>
          (\<lambda>x. (ik_callerId x, ik_idempotencyKey x)) ` set keys),
      (''idempotency_keys_order_id_fk'', order_fk db (ik_orderId k))]"

section \<open>Statements\<close>

definition insertOrder :: "stored_order \<Rightarrow> order_db \<Rightarrow> service_error + order_db" where
  "insertOrder x db =
     bindE (constraints (order_checks x @ [(''orders_pkey'', \<not> order_fk db (o_orderId x))])) (\<lambda>_.
       Inr (db\<lparr> orders := orders db @ [x] \<rparr>))"

text \<open>\<open>UPDATE orders SET ... WHERE order_id = ... AND guard RETURNING ...\<close>.\<close>

definition updateOrder ::
  "ident \<Rightarrow> (stored_order \<Rightarrow> bool) \<Rightarrow> (stored_order \<Rightarrow> stored_order) \<Rightarrow> order_db
     \<Rightarrow> service_error + (stored_order option \<times> order_db)" where
  "updateOrder i guard f db =
     (case row_of o_orderId i (orders db) of
        None \<Rightarrow> Inr (None, db)
      | Some x \<Rightarrow>
          if \<not> guard x then Inr (None, db)
          else bindE (constraints (order_checks (f x))) (\<lambda>_.
            Inr (Some (f x), db\<lparr> orders := update_rows (\<lambda>r. o_orderId r = i) f (orders db) \<rparr>)))"

definition insertHistory :: "history_row \<Rightarrow> order_db \<Rightarrow> service_error + order_db" where
  "insertHistory h db =
     bindE (constraints (history_checks db h)) (\<lambda>_.
       Inr (db\<lparr> order_status_history := order_status_history db @ [h] \<rparr>))"

definition insertReceiptRow :: "receipt_row \<Rightarrow> order_db \<Rightarrow> service_error + order_db" where
  "insertReceiptRow r db =
     bindE (constraints (receipt_checks db r)) (\<lambda>_.
       Inr (db\<lparr> order_receipts := order_receipts db @ [r] \<rparr>))"

definition insertAttempt :: "reconciliation_attempt \<Rightarrow> order_db \<Rightarrow> service_error + order_db" where
  "insertAttempt a db =
     bindE (constraints (attempt_checks db a)) (\<lambda>_.
       Inr (db\<lparr> order_reconciliation_attempts := order_reconciliation_attempts db @ [a] \<rparr>))"

definition insertOrderKey :: "idempotency_key \<Rightarrow> order_db \<Rightarrow> service_error + order_db" where
  "insertOrderKey k db =
     bindE (constraints (key_checks ''order_idempotency_keys_pkey'' db (order_idempotency_keys db) k)) (\<lambda>_.
       Inr (db\<lparr> order_idempotency_keys := order_idempotency_keys db @ [k] \<rparr>))"

definition insertCommandKey :: "idempotency_key \<Rightarrow> order_db \<Rightarrow> service_error + order_db" where
  "insertCommandKey k db =
     bindE (constraints
       (key_checks ''order_command_idempotency_keys_pkey'' db (order_command_idempotency_keys db) k)) (\<lambda>_.
       Inr (db\<lparr> order_command_idempotency_keys := order_command_idempotency_keys db @ [k] \<rparr>))"

text \<open>\<open>INSERT ... ON CONFLICT (order_id, kind) DO NOTHING RETURNING\<close>: whether a row was inserted.\<close>

definition insertAlertOnce :: "operator_alert \<Rightarrow> order_db \<Rightarrow> service_error + (bool \<times> order_db)" where
  "insertAlertOnce a db =
     (if (oa_orderId a, oa_kind a) \<in> (\<lambda>x. (oa_orderId x, oa_kind x)) ` set (order_operator_alerts db)
      then Inr (False, db)
      else if \<not> order_fk db (oa_orderId a) then Inl (DbViolation ''order_operator_alerts_order_id_fk'')
      else Inr (True, db\<lparr> order_operator_alerts := order_operator_alerts db @ [a] \<rparr>))"

section \<open>Rows\<close>

definition mapOrder :: "stored_order \<Rightarrow> order_row" where
  "mapOrder x =
     \<lparr> o_orderId = o_orderId x, o_requesterId = o_requesterId x, o_courierId = o_courierId x,
       o_referredAdminId = o_referredAdminId x, o_supplierSnapshot = o_supplierSnapshot x,
       o_items = o_items x, o_deliveryZone = o_deliveryZone x,
       o_deliveryInstructions = o_deliveryInstructions x, o_reward = o_reward x,
       o_status = o_status x, o_releaseReason = o_releaseReason x,
       o_rejectionReason = o_rejectionReason x, o_availableAtRejection = o_availableAtRejection x,
       o_version = o_version x, o_acceptanceDeadlineAt = nullableIso (o_acceptanceDeadlineAt x),
       o_acceptedAt = nullableIso (o_acceptedAt x), o_pickedUpAt = nullableIso (o_pickedUpAt x),
       o_deliveredAt = nullableIso (o_deliveredAt x),
       o_nonDeliveryReportAt = nullableIso (o_nonDeliveryReportAt x),
       o_autoConfirmAt = nullableIso (o_autoConfirmAt x),
       o_completionRequestedAt = nullableIso (o_completionRequestedAt x),
       o_completedAt = nullableIso (o_completedAt x),
       o_releaseRequestedAt = nullableIso (o_releaseRequestedAt x),
       o_releasedAt = nullableIso (o_releasedAt x),
       o_creditTransactionId = o_creditTransactionId x, o_createdAt = iso (o_createdAt x),
       o_updatedAt = iso (o_updatedAt x) \<rparr>"

lemma mapOrder_simps [simp]:
  "o_orderId (mapOrder x) = o_orderId x" "o_requesterId (mapOrder x) = o_requesterId x"
  "o_courierId (mapOrder x) = o_courierId x" "o_referredAdminId (mapOrder x) = o_referredAdminId x"
  "o_supplierSnapshot (mapOrder x) = o_supplierSnapshot x" "o_items (mapOrder x) = o_items x"
  "o_deliveryInstructions (mapOrder x) = o_deliveryInstructions x"
  "o_reward (mapOrder x) = o_reward x" "o_status (mapOrder x) = o_status x"
  "o_releaseReason (mapOrder x) = o_releaseReason x" "o_rejectionReason (mapOrder x) = o_rejectionReason x"
  "o_availableAtRejection (mapOrder x) = o_availableAtRejection x"
  "o_version (mapOrder x) = o_version x" "o_creditTransactionId (mapOrder x) = o_creditTransactionId x"
  "o_acceptanceDeadlineAt (mapOrder x) = nullableIso (o_acceptanceDeadlineAt x)"
  "o_acceptedAt (mapOrder x) = nullableIso (o_acceptedAt x)"
  "o_pickedUpAt (mapOrder x) = nullableIso (o_pickedUpAt x)"
  "o_deliveredAt (mapOrder x) = nullableIso (o_deliveredAt x)"
  "o_nonDeliveryReportAt (mapOrder x) = nullableIso (o_nonDeliveryReportAt x)"
  "o_autoConfirmAt (mapOrder x) = nullableIso (o_autoConfirmAt x)"
  "o_completionRequestedAt (mapOrder x) = nullableIso (o_completionRequestedAt x)"
  "o_completedAt (mapOrder x) = nullableIso (o_completedAt x)"
  "o_updatedAt (mapOrder x) = iso (o_updatedAt x)"
  by (simp_all add: mapOrder_def)

text \<open>A column assignment of an \<open>UPDATE\<close> built from an object: later entries win.\<close>

datatype column =
    Status order_status | Version int | Updated_at time | Release_reason "order_status option"
  | Courier_id "ident option" | Accepted_at "time option" | Acceptance_deadline_at "time option"
  | Picked_up_at "time option" | Non_delivery_report_at "time option"
  | Delivered_at "time option" | Auto_confirm_at "time option"
  | Completion_requested_at "time option" | Completed_at "time option"
  | Release_requested_at "time option" | Released_at "time option"
  | Rejection_reason "string option" | Available_at_rejection "int option"
  | Credit_transaction_id "ident option" | Referred_admin_id "ident option"

fun set_column :: "column \<Rightarrow> stored_order \<Rightarrow> stored_order" where
  "set_column (Status v) x = x\<lparr> o_status := v \<rparr>"
| "set_column (Version v) x = x\<lparr> o_version := v \<rparr>"
| "set_column (Updated_at v) x = x\<lparr> o_updatedAt := v \<rparr>"
| "set_column (Release_reason v) x = x\<lparr> o_releaseReason := v \<rparr>"
| "set_column (Courier_id v) x = x\<lparr> o_courierId := v \<rparr>"
| "set_column (Accepted_at v) x = x\<lparr> o_acceptedAt := v \<rparr>"
| "set_column (Acceptance_deadline_at v) x = x\<lparr> o_acceptanceDeadlineAt := v \<rparr>"
| "set_column (Picked_up_at v) x = x\<lparr> o_pickedUpAt := v \<rparr>"
| "set_column (Non_delivery_report_at v) x = x\<lparr> o_nonDeliveryReportAt := v \<rparr>"
| "set_column (Delivered_at v) x = x\<lparr> o_deliveredAt := v \<rparr>"
| "set_column (Auto_confirm_at v) x = x\<lparr> o_autoConfirmAt := v \<rparr>"
| "set_column (Completion_requested_at v) x = x\<lparr> o_completionRequestedAt := v \<rparr>"
| "set_column (Completed_at v) x = x\<lparr> o_completedAt := v \<rparr>"
| "set_column (Release_requested_at v) x = x\<lparr> o_releaseRequestedAt := v \<rparr>"
| "set_column (Released_at v) x = x\<lparr> o_releasedAt := v \<rparr>"
| "set_column (Rejection_reason v) x = x\<lparr> o_rejectionReason := v \<rparr>"
| "set_column (Available_at_rejection v) x = x\<lparr> o_availableAtRejection := v \<rparr>"
| "set_column (Credit_transaction_id v) x = x\<lparr> o_creditTransactionId := v \<rparr>"
| "set_column (Referred_admin_id v) x = x\<lparr> o_referredAdminId := v \<rparr>"

definition set_columns :: "column list \<Rightarrow> stored_order \<Rightarrow> stored_order" where
  "set_columns cs = fold set_column cs"

lemma set_columns_simps [simp]:
  "set_columns [] = id" "set_columns (c # cs) x = set_columns cs (set_column c x)"
  "set_columns (cs @ ds) x = set_columns ds (set_columns cs x)"
  by (simp_all add: set_columns_def)

text \<open>What no patch touches.\<close>

lemma set_column_frame:
  "o_orderId (set_column c x) = o_orderId x" "o_requesterId (set_column c x) = o_requesterId x"
  "o_reward (set_column c x) = o_reward x" "o_items (set_column c x) = o_items x"
  "o_deliveryZone (set_column c x) = o_deliveryZone x"
  "o_deliveryInstructions (set_column c x) = o_deliveryInstructions x"
  "o_supplierSnapshot (set_column c x) = o_supplierSnapshot x"
  "o_createdAt (set_column c x) = o_createdAt x"
  by (cases c; simp)+

lemma set_columns_frame [simp]:
  "o_orderId (set_columns cs x) = o_orderId x" "o_requesterId (set_columns cs x) = o_requesterId x"
  "o_reward (set_columns cs x) = o_reward x" "o_items (set_columns cs x) = o_items x"
  "o_deliveryZone (set_columns cs x) = o_deliveryZone x"
  "o_deliveryInstructions (set_columns cs x) = o_deliveryInstructions x"
  "o_supplierSnapshot (set_columns cs x) = o_supplierSnapshot x"
  "o_createdAt (set_columns cs x) = o_createdAt x"
  by (induction cs arbitrary: x; simp add: set_column_frame)+

end
