(* ===== verification/Order_Repository.thy ===== *)
theory Order_Repository
  imports Order_Store
begin

text \<open>
  The Order Service's repository (order-service/src/orders/orders.repository.ts): its reads, the
  creation of an errand, acceptance, the one path every other lifecycle command takes, the
  idempotency keys, the operator alerts and the reconciliation record.

  An operation that writes takes the UUIDs it draws, the database clock \<open>now\<close> of its transaction
  and, where it reads it, the process clock; it returns the new tables or an error.
\<close>

section \<open>Reads\<close>

text \<open>\<open>SELECT ... WHERE p ORDER BY key LIMIT n\<close>.\<close>

definition select_ordered :: "nat \<Rightarrow> ('r \<Rightarrow> 'k::linorder) \<Rightarrow> ('r \<Rightarrow> bool) \<Rightarrow> 'r list \<Rightarrow> 'r list" where
  "select_ordered n key p rows = take n (sort_key key (filter p rows))"

lemma select_ordered_set: "r \<in> set (select_ordered n key p rows) \<Longrightarrow> r \<in> set rows \<and> p r"
  by (auto simp: select_ordered_def dest: in_set_takeD)

text \<open>A comparison with a nullable column is not true when the column is null.\<close>

definition is_true :: "('a \<Rightarrow> bool) \<Rightarrow> 'a option \<Rightarrow> bool" where
  "is_true p x = (case x of None \<Rightarrow> False | Some y \<Rightarrow> p y)"

lemma is_true_simps [simp]: "\<not> is_true p None" "is_true p (Some x) = p x"
  by (simp_all add: is_true_def)

definition findByIdUsing :: "order_db \<Rightarrow> ident \<Rightarrow> order_row option" where
  "findByIdUsing db i = map_option mapOrder (row_of o_orderId i (orders db))"

definition lockById :: "order_db \<Rightarrow> ident \<Rightarrow> order_row option" where
  "lockById db i = map_option mapOrder (row_of o_orderId i (orders db))"

definition reservationAppliedAt :: "order_db \<Rightarrow> ident \<Rightarrow> int option" where
  "reservationAppliedAt db i =
     map_option h_orderVersion
       (find (\<lambda>h. h_orderId h = i \<and> h_action h = Did CREDIT_RESERVED) (order_status_history db))"

record open_cursor =
  oc_deadline :: time
  oc_createdAt :: time
  oc_orderId :: ident

record open_query =
  oq_pickupBuilding :: "string option"
  oq_minReward :: "int option"
  oq_limit :: nat
  oq_after :: "open_cursor option"

record open_summary =
  os_orderId :: ident
  os_supplier :: supplier_snapshot
  os_itemSummary :: "(string \<times> int) list"
  os_deliveryZone :: string
  os_reward :: int
  os_version :: int
  os_acceptanceDeadlineAt :: time
  os_timeRemainingSeconds :: int
  os_createdAt :: time

text \<open>The order of the open list: soonest deadline, then oldest, then lowest id.\<close>

definition open_key :: "stored_order \<Rightarrow> time \<times> time \<times> ident" where
  "open_key x = (the (o_acceptanceDeadlineAt x), o_createdAt x, o_orderId x)"

definition is_open_for ::
  "(string \<Rightarrow> string) \<Rightarrow> ident \<Rightarrow> open_query \<Rightarrow> time \<Rightarrow> stored_order \<Rightarrow> bool" where
  "is_open_for lower callerId q now x \<longleftrightarrow>
     o_status x = OPEN \<and> is_true (\<lambda>d. now < d) (o_acceptanceDeadlineAt x) \<and> o_requesterId x \<noteq> callerId \<and>
     opt_all (\<lambda>b. lower (ss_building (o_supplierSnapshot x)) = lower b) (oq_pickupBuilding q) \<and>
     opt_all (\<lambda>m. m \<le> o_reward x) (oq_minReward q) \<and>
     opt_all (\<lambda>c. (oc_deadline c, oc_createdAt c, oc_orderId c) < open_key x) (oq_after q)"

definition summary_of :: "time \<Rightarrow> order_row \<Rightarrow> open_summary" where
  "summary_of now x =
     \<lparr> os_orderId = o_orderId x, os_supplier = o_supplierSnapshot x,
       os_itemSummary = map (\<lambda>i. (it_name i, it_quantity i)) (o_items x),
       os_deliveryZone = o_deliveryZone x, os_reward = o_reward x, os_version = o_version x,
       os_acceptanceDeadlineAt = the (o_acceptanceDeadlineAt x),
       os_timeRemainingSeconds = max 0 (- ((now - the (o_acceptanceDeadlineAt x)) div 1000000)),
       os_createdAt = o_createdAt x \<rparr>"

text \<open>
  \<open>lower\<close> is the database's case folding. One row more than the page is read; \<open>next\<close> names the
  last row of the page when there was one.
\<close>

definition listOpen ::
  "(string \<Rightarrow> string) \<Rightarrow> time \<Rightarrow> ident \<Rightarrow> open_query \<Rightarrow> order_db \<Rightarrow> open_summary list \<times> open_cursor option" where
  "listOpen lower clock callerId q db =
     (let now = iso clock;
          result = select_ordered (oq_limit q + 1) open_key (is_open_for lower callerId q now) (orders db);
          rows = take (oq_limit q) result
      in (map (\<lambda>x. summary_of now (mapOrder x)) rows,
          if oq_limit q < length result \<and> rows \<noteq> []
          then Some (let z = last rows in
                 \<lparr> oc_deadline = the (o_acceptanceDeadlineAt z), oc_createdAt = o_createdAt z,
                   oc_orderId = o_orderId z \<rparr>)
          else None))"

record mine_query =
  mq_role :: "participant option"
  mq_active :: "bool option"
  mq_limit :: nat
  mq_after :: "(time \<times> ident) option"

definition is_mine :: "ident \<Rightarrow> mine_query \<Rightarrow> stored_order \<Rightarrow> bool" where
  "is_mine userId q x \<longleftrightarrow>
     (case mq_role q of
        Some Part_REQUESTER \<Rightarrow> o_requesterId x = userId
      | Some Part_COURIER \<Rightarrow> o_courierId x = Some userId
      | None \<Rightarrow> o_requesterId x = userId \<or> o_courierId x = Some userId) \<and>
     opt_all (\<lambda>a. (o_status x \<notin> set TERMINAL_ORDER_STATUSES) = a) (mq_active q) \<and>
     opt_all (\<lambda>(t, i). o_updatedAt x < t \<or> (o_updatedAt x = t \<and> i < o_orderId x)) (mq_after q)"

definition listMine :: "ident \<Rightarrow> mine_query \<Rightarrow> order_db \<Rightarrow> order_row list \<times> (time \<times> ident) option" where
  "listMine userId q db =
     (let result = select_ordered (mq_limit q + 1) (\<lambda>x. (- o_updatedAt x, o_orderId x))
                     (is_mine userId q) (orders db);
          rows = take (mq_limit q) result
      in (map mapOrder rows,
          if mq_limit q < length result \<and> rows \<noteq> []
          then Some (o_updatedAt (last rows), o_orderId (last rows)) else None))"

record admin_filter =
  af_requesterId :: "ident option"
  af_courierId :: "ident option"
  af_status :: "order_status list option"
  af_before :: "ident option"

definition is_for_admin :: "order_db \<Rightarrow> admin_filter \<Rightarrow> stored_order \<Rightarrow> bool" where
  "is_for_admin db f x \<longleftrightarrow>
     opt_all (\<lambda>r. o_requesterId x = r) (af_requesterId f) \<and>
     opt_all (\<lambda>c. o_courierId x = Some c) (af_courierId f) \<and>
     opt_all (\<lambda>ss. o_status x \<in> set ss) (af_status f) \<and>
     opt_all (\<lambda>b. is_true (\<lambda>y. (o_createdAt x, o_orderId x) < (o_createdAt y, o_orderId y))
                    (row_of o_orderId b (orders db))) (af_before f)"

definition listForAdmin :: "admin_filter \<Rightarrow> nat \<Rightarrow> nat \<Rightarrow> order_db \<Rightarrow> order_row list \<times> nat" where
  "listForAdmin f page pageSize db =
     (let found = filter (is_for_admin db f) (orders db)
      in (map mapOrder (take pageSize (drop ((page - 1) * pageSize)
            (rev (sort_key (\<lambda>x. (o_createdAt x, o_orderId x)) found)))),
          length found))"

definition findIdempotent :: "order_db \<Rightarrow> ident \<Rightarrow> string \<Rightarrow> (string \<times> order_row) option" where
  "findIdempotent db requesterId key =
     (case find (\<lambda>k. ik_callerId k = requesterId \<and> ik_idempotencyKey k = key) (order_idempotency_keys db) of
        None \<Rightarrow> None
      | Some k \<Rightarrow> map_option (\<lambda>x. (ik_requestHash k, x)) (findByIdUsing db (ik_orderId k)))"

text \<open>The database clock as a JavaScript date.\<close>

definition databaseNow :: "time \<Rightarrow> time" where
  "databaseNow now = iso now"

definition findOverdueOpen :: "time \<Rightarrow> nat \<Rightarrow> order_db \<Rightarrow> ident list" where
  "findOverdueOpen now limit db =
     map o_orderId (select_ordered limit (\<lambda>x. (the (o_acceptanceDeadlineAt x), o_orderId x))
       (\<lambda>x. o_status x = OPEN \<and> is_true (\<lambda>d. d \<le> now) (o_acceptanceDeadlineAt x)) (orders db))"

definition findPickupOverdue :: "time \<Rightarrow> nat \<Rightarrow> order_db \<Rightarrow> ident list" where
  "findPickupOverdue cutoff limit db =
     map o_orderId (select_ordered limit (\<lambda>x. (the (o_acceptedAt x), o_orderId x))
       (\<lambda>x. o_status x = ACCEPTED \<and> is_true (\<lambda>d. d \<le> cutoff) (o_acceptedAt x)) (orders db))"

definition findDeliveryOverdue :: "time \<Rightarrow> nat \<Rightarrow> order_db \<Rightarrow> (ident \<times> ident) list" where
  "findDeliveryOverdue now limit db =
     map (\<lambda>x. (o_orderId x, o_requesterId x))
       (select_ordered limit (\<lambda>x. (the (o_nonDeliveryReportAt x), o_orderId x))
         (\<lambda>x. o_status x = PICKED_UP \<and> requester_suspended_at x \<noteq> None \<and>
              is_true (\<lambda>d. d \<le> now) (o_nonDeliveryReportAt x)) (orders db))"

definition findAutoConfirmDue :: "time \<Rightarrow> nat \<Rightarrow> order_db \<Rightarrow> ident list" where
  "findAutoConfirmDue now limit db =
     map o_orderId (select_ordered limit (\<lambda>x. (the (o_autoConfirmAt x), o_orderId x))
       (\<lambda>x. o_status x = DELIVERED \<and> is_true (\<lambda>d. d \<le> now) (o_autoConfirmAt x)) (orders db))"

text \<open>Marks and clears a suspension noted on a picked-up errand.\<close>

definition noteRequesterSuspended :: "time \<Rightarrow> ident \<Rightarrow> order_db \<Rightarrow> order_db" where
  "noteRequesterSuspended now i db =
     db\<lparr> orders := update_rows (\<lambda>x. o_orderId x = i)
           (\<lambda>x. x\<lparr> requester_suspended_at := Some now \<rparr>) (orders db) \<rparr>"

definition clearRequesterSuspended :: "ident \<Rightarrow> order_db \<Rightarrow> order_db" where
  "clearRequesterSuspended i db =
     db\<lparr> orders := update_rows (\<lambda>x. o_orderId x = i \<and> o_status x = PICKED_UP)
           (\<lambda>x. x\<lparr> requester_suspended_at := None \<rparr>) (orders db) \<rparr>"

definition has_alert :: "order_db \<Rightarrow> ident \<Rightarrow> alert_kind \<Rightarrow> bool" where
  "has_alert db i kind \<longleftrightarrow>
     (i, kind) \<in> (\<lambda>a. (oa_orderId a, oa_kind a)) ` set (order_operator_alerts db)"

text \<open>
  One statement: an alert for each errand that has waited since before the cutoff and has none.
\<close>

definition raiseCreditWaitAlerts ::
  "time \<Rightarrow> time \<Rightarrow> nat \<Rightarrow> order_db \<Rightarrow> (ident \<times> time \<times> time) list \<times> order_db" where
  "raiseCreditWaitAlerts now cutoff limit db =
     (let waiting = select_ordered limit (\<lambda>x. (o_createdAt x, o_orderId x))
            (\<lambda>x. o_status x = PENDING_CREDIT \<and> o_createdAt x \<le> cutoff \<and>
                 \<not> has_alert db (o_orderId x) CREDIT_WAIT_EXCEEDED) (orders db)
      in (map (\<lambda>x. (o_orderId x, iso (o_createdAt x), iso now)) waiting,
          db\<lparr> order_operator_alerts := order_operator_alerts db @
                map (\<lambda>x. \<lparr> oa_orderId = o_orderId x, oa_kind = CREDIT_WAIT_EXCEEDED, oa_raisedAt = now,
                           oa_detail = Waiting_since (o_createdAt x) (o_requesterId x) \<rparr>) waiting \<rparr>))"

definition listCreditWaitExceeded ::
  "time \<Rightarrow> nat \<Rightarrow> order_db \<Rightarrow> (ident \<times> ident \<times> int \<times> time \<times> time option) list" where
  "listCreditWaitExceeded cutoff limit db =
     map (\<lambda>x. (o_orderId x, o_requesterId x, o_reward x, iso (o_createdAt x),
               nullableIso (map_option oa_raisedAt
                 (find (\<lambda>a. oa_orderId a = o_orderId x \<and> oa_kind a = CREDIT_WAIT_EXCEEDED)
                    (order_operator_alerts db)))))
       (select_ordered limit (\<lambda>x. (o_createdAt x, o_orderId x))
         (\<lambda>x. o_status x = PENDING_CREDIT \<and> o_createdAt x \<le> cutoff) (orders db))"

definition history_of :: "order_db \<Rightarrow> ident \<Rightarrow> history_row list" where
  "history_of db i = filter (\<lambda>h. h_orderId h = i) (order_status_history db)"

record chat_view =
  cv_status :: order_status
  cv_version :: int
  cv_requesterId :: ident
  cv_courierId :: "ident option"
  cv_endedAt :: "time option"

definition findForChat :: "order_db \<Rightarrow> ident \<Rightarrow> chat_view option" where
  "findForChat db i =
     map_option (\<lambda>x.
       \<lparr> cv_status = o_status x, cv_version = o_version x, cv_requesterId = o_requesterId x,
         cv_courierId = o_courierId x,
         cv_endedAt = nullableIso (case select_ordered 1 h_orderVersion
             (\<lambda>h. h_newStatus h \<in> set TERMINAL_ORDER_STATUSES) (history_of db i) of
               [] \<Rightarrow> None | h # _ \<Rightarrow> Some (h_occurredAt h)) \<rparr>)
       (row_of o_orderId i (orders db))"

record history_entry =
  he_previousStatus :: "order_status option"
  he_newStatus :: order_status
  he_action :: history_action
  he_actorType :: history_actor
  he_actorId :: "ident option"
  he_reason :: "string option"
  he_version :: int
  he_occurredAt :: time

definition findHistory :: "order_db \<Rightarrow> ident \<Rightarrow> history_entry list" where
  "findHistory db i =
     map (\<lambda>h. \<lparr> he_previousStatus = h_previousStatus h, he_newStatus = h_newStatus h,
                he_action = h_action h, he_actorType = h_actorType h, he_actorId = h_actorId h,
                he_reason = h_reason h, he_version = h_orderVersion h,
                he_occurredAt = iso (h_occurredAt h) \<rparr>)
       (sort_key h_orderVersion (history_of db i))"

section \<open>Commands and their results\<close>

text \<open>The periods of the environment, in milliseconds.\<close>

record order_env =
  ACCEPTANCE_WINDOW_MS :: int
  DELIVERY_PERIOD_MS :: int
  AUTO_CONFIRM_MS :: int

datatype command_actor = USER ident bool | By_SYSTEM "ident option" | By_CREDIT_SERVICE

fun actor_id :: "command_actor \<Rightarrow> ident option" where
  "actor_id (USER i isAdmin) = Some i"
| "actor_id (By_SYSTEM i) = i"
| "actor_id By_CREDIT_SERVICE = Some ''credit-service''"

text \<open>
  \<open>verify\<close> gives the error it throws, if any; \<open>afterApply\<close> writes in the same transaction.
\<close>

record transition_command =
  tc_orderId :: ident
  tc_action :: order_action
  tc_actor :: command_actor
  tc_expectedVersion :: "int option"
  tc_correlationId :: ident
  tc_causationId :: "ident option"
  tc_now :: "time option"
  tc_verify :: "order_row \<Rightarrow> service_error option"
  tc_patch :: "column list"
  tc_reason :: "string option"
  tc_requesterSuspended :: bool
  tc_afterApply :: "order_row \<Rightarrow> order_db \<Rightarrow> service_error + order_db"

text \<open>A command without \<open>verify\<close> and without \<open>afterApply\<close>.\<close>

definition no_check :: "order_row \<Rightarrow> service_error option" where
  "no_check x = None"

definition no_write :: "order_row \<Rightarrow> order_db \<Rightarrow> service_error + order_db" where
  "no_write x db = Inr db"

datatype transition_refusal = NOT_FOUND | FORBIDDEN | INVALID_STATE | VERSION_CONFLICT

datatype transition_result =
    Applied order_row transition_decision
  | Not_applied transition_refusal "order_row option"

fun HISTORY_ACTOR :: "order_actor \<Rightarrow> history_actor" where
  "HISTORY_ACTOR REQUESTER = Hist_REQUESTER"
| "HISTORY_ACTOR ASSIGNED_COURIER = Hist_COURIER"
| "HISTORY_ACTOR OTHER_STUDENT = Hist_STUDENT"
| "HISTORY_ACTOR Actor_ADMIN = Hist_ADMIN"
| "HISTORY_ACTOR CREDIT_SERVICE = Hist_CREDIT_SERVICE"
| "HISTORY_ACTOR SYSTEM = Hist_SYSTEM"

fun resolveActor :: "order_row \<Rightarrow> command_actor \<Rightarrow> order_actor" where
  "resolveActor x (By_SYSTEM _) = SYSTEM"
| "resolveActor x By_CREDIT_SERVICE = CREDIT_SERVICE"
| "resolveActor x (USER i isAdmin) =
     (if i = o_requesterId x then REQUESTER
      else if o_courierId x = Some i then ASSIGNED_COURIER
      else if isAdmin then Actor_ADMIN else OTHER_STUDENT)"

text \<open>
  The columns a transition stamps. A deadline moved on from a missing one is an invalid date,
  which \<open>toISOString\<close> refuses.
\<close>

definition timestampPatch ::
  "order_env \<Rightarrow> order_action \<Rightarrow> transition_decision \<Rightarrow> time \<Rightarrow> order_row \<Rightarrow> service_error + column list" where
  "timestampPatch e action decision t x =
     (let noCourier = [Courier_id None, Accepted_at None];
          courierRemoved = (if action = WITHDRAW \<or> action = PICKUP_TIMEOUT then noCourier else [])
      in if action = COURIER_SUSPENDED \<and> d_to decision = OPEN then
           (case (o_acceptanceDeadlineAt x, o_acceptedAt x) of
              (Some deadline, Some accepted) \<Rightarrow>
                Inr (noCourier @ [Acceptance_deadline_at (Some (deadline + (t - accepted)))])
            | _ \<Rightarrow> Inl (PlainError ''RangeError''))
         else if action = RECORD_PICKUP then
           Inr [Picked_up_at (Some t), Non_delivery_report_at (Some (later t (DELIVERY_PERIOD_MS e)))]
         else if action = CREDIT_RESERVED \<and> d_to decision = OPEN then
           Inr [Acceptance_deadline_at (Some (later t (ACCEPTANCE_WINDOW_MS e)))]
         else if action = RECORD_DELIVERY then
           Inr [Delivered_at (Some t), Auto_confirm_at (Some (later t (AUTO_CONFIRM_MS e)))]
         else if d_to decision = COMPLETION_PENDING_CREDIT then Inr [Completion_requested_at (Some t)]
         else if d_to decision = COMPLETED then Inr [Completed_at (Some t)]
         else if d_to decision = RELEASE_PENDING_CREDIT then
           Inr (courierRemoved @ [Release_requested_at (Some t)])
         else if d_to decision = CANCELLED \<or> d_to decision = EXPIRED then Inr [Released_at (Some t)]
         else Inr courierRemoved)"

definition emittedEvent ::
  "event_type \<Rightarrow> order_row \<Rightarrow> order_row \<Rightarrow> time \<Rightarrow> service_error + (event_type \<times> payload)" where
  "emittedEvent ty before after t =
     (if ty = ORDER_STATUS_CHANGED then
        Inr (ORDER_STATUS_CHANGED,
          OrderStatusChangedPayload (o_orderId after) (Some (o_status before)) (o_status after) t
            (Some (o_version after)))
      else if ty = ORDER_COMPLETION_REQUESTED then
        (case o_courierId after of
           None \<Rightarrow> Inl (PlainError ''completion requested without an assigned courier'')
         | Some c \<Rightarrow>
             if c = [] then Inl (PlainError ''completion requested without an assigned courier'')
             else Inr (ORDER_COMPLETION_REQUESTED,
               OrderCompletionRequestedPayload (o_orderId after) (o_requesterId after) (o_reward after) c))
      else if ty = CREDIT_RELEASE_REQUESTED then
        Inr (CREDIT_RELEASE_REQUESTED,
          CreditReleaseRequestedPayload (o_orderId after) (o_requesterId after) (o_reward after))
      else Inl (PlainError ''transition emits an uncatalogued event''))"

definition creditRequest :: "order_row \<Rightarrow> service_error + (event_type \<times> payload)" where
  "creditRequest x =
     (if o_status x = PENDING_CREDIT then
        Inr (CREDIT_RESERVATION_REQUESTED,
          CreditReservationRequestedPayload (o_orderId x) (o_requesterId x) (o_reward x))
      else if o_status x = COMPLETION_PENDING_CREDIT then
        emittedEvent ORDER_COMPLETION_REQUESTED x x (o_updatedAt x)
      else if o_status x = RELEASE_PENDING_CREDIT then
        emittedEvent CREDIT_RELEASE_REQUESTED x x (o_updatedAt x)
      else Inl (PlainError ''not waiting on a Credit request''))"

text \<open>The event a row of the outbox is written from: defaults for the rest.\<close>

definition order_event :: "event_type \<times> payload \<Rightarrow> ident \<Rightarrow> ident \<Rightarrow> ident option \<Rightarrow> new_outbox_event" where
  "order_event tp aggregate correlation causation =
     \<lparr> ne_id = None, ne_eventType = fst tp, ne_aggregateId = aggregate, ne_payload = snd tp,
       ne_correlationId = correlation, ne_causationId = causation, ne_schemaVersion = None \<rparr>"

section \<open>The transition path\<close>

text \<open>The loop over \<open>decision.emitted\<close>; the \<open>k\<close>-th event draws the \<open>k\<close>-th UUID.\<close>

fun emit_all ::
  "uuids \<Rightarrow> nat \<Rightarrow> time \<Rightarrow> event_type list \<Rightarrow> order_row \<Rightarrow> order_row \<Rightarrow> time \<Rightarrow> transition_command
     \<Rightarrow> order_db \<Rightarrow> service_error + order_db" where
  "emit_all u k now [] before after t command db = Inr db"
| "emit_all u k now (ty # tys) before after t command db =
     bindE (emittedEvent ty before after t) (\<lambda>tp.
     bindE (insertOutboxEvent (u k) now
              (order_event tp (o_orderId before) (tc_correlationId command) (tc_causationId command)) db)
       (\<lambda>(_, db'). emit_all u (Suc k) now tys before after t command db'))"

text \<open>What the guards may ask, from the locked row, the clock and the command.\<close>

definition passed :: "time option \<Rightarrow> time \<Rightarrow> bool" where
  "passed deadline t \<longleftrightarrow> is_true (\<lambda>d. d \<le> t) deadline"

definition context_of :: "order_row \<Rightarrow> time \<Rightarrow> transition_command \<Rightarrow> transition_context" where
  "context_of x t command =
     \<lparr> acceptanceDeadlinePassed = passed (o_acceptanceDeadlineAt x) t,
       deliveryPeriodPassed = passed (o_nonDeliveryReportAt x) t,
       autoConfirmationPeriodPassed = passed (o_autoConfirmAt x) t,
       requesterSuspended = tc_requesterSuspended command,
       reasonProvided = (case tc_reason command of None \<Rightarrow> False | Some r \<Rightarrow> trim r \<noteq> []),
       ctx_releaseReason = o_releaseReason x \<rparr>"

definition allowed_somewhere :: "order_action \<Rightarrow> order_actor \<Rightarrow> bool" where
  "allowed_somewhere action actor \<longleftrightarrow>
     (\<exists>r \<in> set ORDER_TRANSITIONS. r_action r = action \<and> actor \<in> set (r_actors r))"

definition transition_patch :: "transition_decision \<Rightarrow> int \<Rightarrow> time \<Rightarrow> column list \<Rightarrow> column list \<Rightarrow> column list" where
  "transition_patch decision version t stamps extra =
     [Status (d_to decision), Version (version + 1), Updated_at t]
     @ (case d_releaseReason decision of None \<Rightarrow> [] | Some r \<Rightarrow> [Release_reason (Some r)])
     @ stamps @ extra"

definition apply_decision ::
  "order_env \<Rightarrow> uuids \<Rightarrow> time \<Rightarrow> transition_command \<Rightarrow> order_row \<Rightarrow> time \<Rightarrow> order_actor \<Rightarrow> transition_decision
     \<Rightarrow> order_db \<Rightarrow> service_error + (transition_result \<times> order_db)" where
  "apply_decision e u now command x t actor decision db =
     bindE (timestampPatch e (tc_action command) decision t x) (\<lambda>stamps.
     bindE (updateOrder (o_orderId x) (\<lambda>r. o_version r = o_version x)
              (set_columns (transition_patch decision (o_version x) t stamps (tc_patch command))) db)
       (\<lambda>(updated, db1).
     case updated of
       None \<Rightarrow> Inr (Not_applied VERSION_CONFLICT (Some x), db1)
     | Some stored \<Rightarrow>
         let after = mapOrder stored in
         bindE (insertHistory
           \<lparr> h_historyId = u 0, h_orderId = o_orderId x, h_previousStatus = Some (o_status x),
             h_newStatus = o_status after, h_action = Did (tc_action command),
             h_actorType = HISTORY_ACTOR actor, h_actorId = actor_id (tc_actor command),
             h_reason = map_option trim (tc_reason command), h_orderVersion = o_version after,
             h_occurredAt = t \<rparr> db1) (\<lambda>db2.
         bindE (tc_afterApply command after db2) (\<lambda>db3.
         bindE (emit_all u 1 now (d_emitted decision) x after t command db3) (\<lambda>db4.
         Inr (Applied after decision, db4))))))"

definition transitionUsing ::
  "order_env \<Rightarrow> uuids \<Rightarrow> time \<Rightarrow> transition_command \<Rightarrow> order_db
     \<Rightarrow> service_error + (transition_result \<times> order_db)" where
  "transitionUsing e u now command db =
     (case row_of o_orderId (tc_orderId command) (orders db) of
        None \<Rightarrow> Inr (Not_applied NOT_FOUND None, db)
      | Some locked \<Rightarrow>
          let x = mapOrder locked;
              actor = resolveActor x (tc_actor command);
              t = (case tc_now command of Some n \<Rightarrow> iso n | None \<Rightarrow> iso now)
          in case decideTransition (o_status x) (tc_action command) actor (context_of x t command) of
               None \<Rightarrow>
                 Inr (Not_applied (if allowed_somewhere (tc_action command) actor then INVALID_STATE
                               else FORBIDDEN) (Some x), db)
             | Some decision \<Rightarrow>
                 if \<not> opt_all (\<lambda>v. v = o_version x) (tc_expectedVersion command)
                 then Inr (Not_applied VERSION_CONFLICT (Some x), db)
                 else (case tc_verify command x of
                         Some err \<Rightarrow> Inl err
                       | None \<Rightarrow> apply_decision e u now command x t actor decision db))"

text \<open>Without a transaction of its caller, a command runs in its own.\<close>

definition transition ::
  "order_env \<Rightarrow> uuids \<Rightarrow> time \<Rightarrow> transition_command \<Rightarrow> order_db
     \<Rightarrow> (service_error + transition_result) \<times> order_db" where
  "transition e u now command = transaction (transitionUsing e u now command)"

text \<open>The columns of a receipt that are \<open>NOT NULL\<close> but nullable on an errand.\<close>

definition insertReceipt :: "order_row \<Rightarrow> order_db \<Rightarrow> service_error + order_db" where
  "insertReceipt x db =
     (case (o_courierId x, o_creditTransactionId x, o_acceptedAt x, o_pickedUpAt x,
            o_completionRequestedAt x, o_completedAt x) of
        (Some c, Some ct, Some acc, Some pick, Some req, Some finished) \<Rightarrow>
          insertReceiptRow
            \<lparr> rc_orderId = o_orderId x, rc_requesterId = o_requesterId x, rc_courierId = c,
              rc_supplierSnapshot = o_supplierSnapshot x, rc_items = o_items x,
              rc_reward = o_reward x, rc_creditTransactionId = ct, rc_createdAt = o_createdAt x,
              rc_acceptedAt = acc, rc_pickedUpAt = pick, rc_deliveredAt = o_deliveredAt x,
              rc_completionRequestedAt = req, rc_completedAt = finished \<rparr> db
      | _ \<Rightarrow> Inl (DbViolation ''order_receipts not-null''))"

text \<open>Stored times come from a JavaScript date, so reading a receipt changes nothing in it.\<close>

definition findReceipt :: "order_db \<Rightarrow> ident \<Rightarrow> receipt_row option" where
  "findReceipt db i =
     map_option (\<lambda>r. r\<lparr> rc_createdAt := iso (rc_createdAt r), rc_acceptedAt := iso (rc_acceptedAt r),
         rc_pickedUpAt := iso (rc_pickedUpAt r), rc_deliveredAt := nullableIso (rc_deliveredAt r),
         rc_completionRequestedAt := iso (rc_completionRequestedAt r),
         rc_completedAt := iso (rc_completedAt r) \<rparr>)
       (row_of rc_orderId i (order_receipts db))"

section \<open>Creating an errand\<close>

record create_pending_input =
  cp_items :: "order_item list"
  cp_deliveryZone :: string
  cp_deliveryInstructions :: string
  cp_reward :: int
  cp_requesterId :: ident
  cp_supplierSnapshot :: supplier_snapshot
  cp_idempotencyKey :: string
  cp_requestHash :: string
  cp_correlationId :: ident

definition new_order :: "ident \<Rightarrow> time \<Rightarrow> create_pending_input \<Rightarrow> stored_order" where
  "new_order i t input =
     \<lparr> o_orderId = i, o_requesterId = cp_requesterId input, o_courierId = None,
       o_referredAdminId = None, o_supplierSnapshot = cp_supplierSnapshot input,
       o_items = cp_items input, o_deliveryZone = cp_deliveryZone input,
       o_deliveryInstructions = cp_deliveryInstructions input, o_reward = cp_reward input,
       o_status = PENDING_CREDIT, o_releaseReason = None, o_rejectionReason = None,
       o_availableAtRejection = None, o_version = 1, o_acceptanceDeadlineAt = None,
       o_acceptedAt = None, o_pickedUpAt = None, o_deliveredAt = None,
       o_nonDeliveryReportAt = None, o_autoConfirmAt = None, o_completionRequestedAt = None,
       o_completedAt = None, o_releaseRequestedAt = None, o_releasedAt = None,
       o_creditTransactionId = None, o_createdAt = t, o_updatedAt = t,
       requester_suspended_at = None \<rparr>"

text \<open>The row of a caller's key, if it was used.\<close>

definition used_key :: "idempotency_key list \<Rightarrow> ident \<Rightarrow> string \<Rightarrow> idempotency_key option" where
  "used_key keys callerId key = find (\<lambda>k. ik_callerId k = callerId \<and> ik_idempotencyKey k = key) keys"

text \<open>
  The first part answers a key that was used already, the second writes the errand. \<open>clock\<close> is
  the process clock, \<open>now\<close> the database's.
\<close>

definition write_pending ::
  "uuids \<Rightarrow> time \<Rightarrow> time \<Rightarrow> create_pending_input \<Rightarrow> order_db
     \<Rightarrow> service_error + ((order_row \<times> bool) \<times> order_db)" where
  "write_pending u clock now input db =
     (let i = u 0; t = iso clock in
      bindE (insertOrder (new_order i t input) db) (\<lambda>db1.
      bindE (insertHistory
        \<lparr> h_historyId = u 1, h_orderId = i, h_previousStatus = None, h_newStatus = PENDING_CREDIT,
          h_action = CREATE, h_actorType = Hist_REQUESTER, h_actorId = Some (cp_requesterId input),
          h_reason = None, h_orderVersion = 1, h_occurredAt = t \<rparr> db1) (\<lambda>db2.
      bindE (insertOrderKey
        \<lparr> ik_callerId = cp_requesterId input, ik_idempotencyKey = cp_idempotencyKey input,
          ik_orderId = i, ik_requestHash = cp_requestHash input, ik_createdAt = now \<rparr> db2) (\<lambda>db3.
      bindE (insertOutboxEvent (u 2) now
        (order_event (ORDER_STATUS_CHANGED, OrderStatusChangedPayload i None PENDING_CREDIT t (Some 1))
           i (cp_correlationId input) None) db3) (\<lambda>(_, db4).
      bindE (insertOutboxEvent (u 3) now
        (order_event (CREDIT_RESERVATION_REQUESTED,
             CreditReservationRequestedPayload i (cp_requesterId input) (cp_reward input))
           i (cp_correlationId input) None) db4) (\<lambda>(_, db5).
      case findByIdUsing db5 i of
        None \<Rightarrow> Inl (PlainError ''Newly inserted order could not be read.'')
      | Some x \<Rightarrow> Inr ((x, False), db5)))))))"

definition createPending ::
  "uuids \<Rightarrow> time \<Rightarrow> time \<Rightarrow> create_pending_input \<Rightarrow> order_db
     \<Rightarrow> service_error + ((order_row \<times> bool) \<times> order_db)" where
  "createPending u clock now input db =
     (case used_key (order_idempotency_keys db) (cp_requesterId input) (cp_idempotencyKey input) of
        Some k \<Rightarrow>
          if ik_requestHash k \<noteq> cp_requestHash input then Inl IdempotencyKeyReusedError
          else (case findByIdUsing db (ik_orderId k) of
                  None \<Rightarrow> Inl (PlainError ''Idempotency record references a missing order.'')
                | Some x \<Rightarrow> Inr ((x, True), db))
      | None \<Rightarrow> write_pending u clock now input db)"

section \<open>Commands under a key\<close>

datatype 't keyed = Applied_now 't | Replayed order_row

record command_key =
  ck_callerId :: ident
  ck_idempotencyKey :: string
  ck_requestHash :: string
  ck_orderId :: ident

definition withCommandKey ::
  "time \<Rightarrow> command_key \<Rightarrow> (order_db \<Rightarrow> service_error + ('t \<times> order_db)) \<Rightarrow> order_db
     \<Rightarrow> service_error + ('t keyed \<times> order_db)" where
  "withCommandKey now key run db =
     (case used_key (order_command_idempotency_keys db) (ck_callerId key) (ck_idempotencyKey key) of
        Some k \<Rightarrow>
          if ik_requestHash k \<noteq> ck_requestHash key then Inl IdempotencyKeyReusedError
          else (case findByIdUsing db (ik_orderId k) of
                  None \<Rightarrow> Inl (PlainError ''Idempotency record references a missing order.'')
                | Some x \<Rightarrow> Inr (Replayed x, db))
      | None \<Rightarrow>
          bindE (run db) (\<lambda>(applied, db1).
          bindE (insertCommandKey
            \<lparr> ik_callerId = ck_callerId key, ik_idempotencyKey = ck_idempotencyKey key,
              ik_orderId = ck_orderId key, ik_requestHash = ck_requestHash key, ik_createdAt = now \<rparr> db1)
            (\<lambda>db2. Inr (Applied_now applied, db2))))"

section \<open>Acceptance\<close>

datatype acceptance = Accepted order_row | Not_accepted "order_row option"

definition acceptable :: "ident \<Rightarrow> int \<Rightarrow> time \<Rightarrow> stored_order \<Rightarrow> bool" where
  "acceptable courierId expectedVersion now x \<longleftrightarrow>
     o_status x = OPEN \<and> o_version x = expectedVersion \<and> o_requesterId x \<noteq> courierId \<and>
     is_true (\<lambda>d. now < d) (o_acceptanceDeadlineAt x)"

definition taken_by :: "ident \<Rightarrow> time \<Rightarrow> stored_order \<Rightarrow> stored_order" where
  "taken_by courierId now x =
     x\<lparr> o_courierId := Some courierId, o_status := ACCEPTED, o_version := o_version x + 1,
        o_acceptedAt := Some now, o_updatedAt := now \<rparr>"

definition acceptUsing ::
  "uuids \<Rightarrow> time \<Rightarrow> ident \<Rightarrow> ident \<Rightarrow> int \<Rightarrow> ident \<Rightarrow> order_db
     \<Rightarrow> service_error + (acceptance \<times> order_db)" where
  "acceptUsing u now i courierId expectedVersion correlation db =
     bindE (updateOrder i (acceptable courierId expectedVersion now) (taken_by courierId now) db)
       (\<lambda>(updated, db1).
     case updated of
       None \<Rightarrow> Inr (Not_accepted (findByIdUsing db1 i), db1)
     | Some stored \<Rightarrow>
         let x = mapOrder stored in
         bindE (insertHistory
           \<lparr> h_historyId = u 0, h_orderId = i, h_previousStatus = Some OPEN, h_newStatus = ACCEPTED,
             h_action = Did ACCEPT, h_actorType = Hist_STUDENT, h_actorId = Some courierId,
             h_reason = None, h_orderVersion = o_version x, h_occurredAt = o_updatedAt x \<rparr> db1) (\<lambda>db2.
         bindE (insertOutboxEvent (u 1) now
           (order_event (ORDER_STATUS_CHANGED,
               OrderStatusChangedPayload i (Some OPEN) ACCEPTED (o_updatedAt x) (Some (o_version x)))
             i correlation None) db2) (\<lambda>(_, db3).
         Inr (Accepted x, db3))))"

section \<open>Suspensions, disputes and alerts\<close>

definition lockActiveErrandsOf :: "order_db \<Rightarrow> ident \<Rightarrow> order_row list" where
  "lockActiveErrandsOf db userId =
     map mapOrder (sort_key o_orderId (filter (\<lambda>x.
       (o_requesterId x = userId \<and>
          o_status x \<in> set (PENDING_CREDIT # map fst (se_actions (SUSPENSION_EFFECTS Part_REQUESTER)))) \<or>
       (o_courierId x = Some userId \<and>
          o_status x \<in> set (map fst (se_actions (SUSPENSION_EFFECTS Part_COURIER))))) (orders db)))"

definition anyDisputed :: "order_db \<Rightarrow> bool" where
  "anyDisputed db \<longleftrightarrow> (\<exists>x \<in> set (orders db). o_status x = DISPUTED)"

definition listDisputesToRefer :: "ident list \<Rightarrow> nat \<Rightarrow> order_db \<Rightarrow> (ident \<times> ident option) list" where
  "listDisputesToRefer adminIds limit db =
     map (\<lambda>x. (o_orderId x, o_referredAdminId x))
       (select_ordered limit (\<lambda>x. (o_updatedAt x, o_orderId x))
         (\<lambda>x. o_status x = DISPUTED \<and> opt_all (\<lambda>a. a \<notin> set adminIds) (o_referredAdminId x))
         (orders db))"

text \<open>Everyone who was ever part of the errand; the order of a \<open>UNION\<close> is not specified.\<close>

definition participants :: "order_db \<Rightarrow> ident \<Rightarrow> ident set" where
  "participants db i =
     (o_requesterId ` {x \<in> set (orders db). o_orderId x = i}) \<union>
     ((\<lambda>x. the (o_courierId x)) ` {x \<in> set (orders db). o_orderId x = i \<and> o_courierId x \<noteq> None}) \<union>
     ((\<lambda>h. the (h_actorId h)) ` {h \<in> set (order_status_history db).
         h_orderId h = i \<and> h_action h = Did ACCEPT \<and> h_actorId h \<noteq> None})"

text \<open>
  The join pairs each listed administrator with the errands referred to them; the fewest
  undecided, then the fewest referred, then the lowest id.
\<close>

definition referral_load :: "order_db \<Rightarrow> ident list \<Rightarrow> ident \<Rightarrow> nat \<times> nat \<times> ident" where
  "referral_load db adminIds a =
     (count_list adminIds a * length (filter (\<lambda>x. o_referredAdminId x = Some a \<and> o_status x = DISPUTED) (orders db)),
      count_list adminIds a * length (filter (\<lambda>x. o_referredAdminId x = Some a) (orders db)), a)"

definition leastReferred :: "order_db \<Rightarrow> ident list \<Rightarrow> service_error + ident" where
  "leastReferred db adminIds =
     (case sort_key (referral_load db adminIds) (remdups adminIds) of
        [] \<Rightarrow> Inl (PlainError ''TypeError'')
      | a # _ \<Rightarrow> Inr a)"

definition raiseAlert ::
  "time \<Rightarrow> ident \<Rightarrow> alert_kind \<Rightarrow> order_alert_detail \<Rightarrow> order_db \<Rightarrow> service_error + (bool \<times> order_db)" where
  "raiseAlert now i kind detail db =
     insertAlertOnce \<lparr> oa_orderId = i, oa_kind = kind, oa_raisedAt = now, oa_detail = detail \<rparr> db"

text \<open>Disputes referred to the administrator or to no one, with the action that disputed each.\<close>

definition listReferred :: "order_db \<Rightarrow> ident \<Rightarrow> nat \<Rightarrow> (order_row \<times> history_action option) list" where
  "listReferred db adminId limit =
     map (\<lambda>x. (mapOrder x,
         (case select_ordered 1 (\<lambda>h. - h_orderVersion h)
             (\<lambda>h. h_newStatus h = DISPUTED \<and> h_previousStatus h \<noteq> Some DISPUTED) (history_of db (o_orderId x)) of
            [] \<Rightarrow> None | h # _ \<Rightarrow> Some (h_action h))))
       (select_ordered limit (\<lambda>x. (o_updatedAt x, o_orderId x))
         (\<lambda>x. o_status x = DISPUTED \<and> opt_all (\<lambda>a. a = adminId) (o_referredAdminId x)) (orders db))"

record decision_entry =
  de_orderId :: ident
  de_adminId :: "ident option"
  de_outcome :: participant
  de_reason :: "string option"
  de_decidedAt :: time

definition listDecisions :: "order_db \<Rightarrow> nat \<Rightarrow> decision_entry list" where
  "listDecisions db limit =
     map (\<lambda>h. \<lparr> de_orderId = h_orderId h, de_adminId = h_actorId h,
                de_outcome = (if h_action h = Did (RESOLVE_ACTIONS Part_COURIER) then Part_COURIER else Part_REQUESTER),
                de_reason = h_reason h, de_decidedAt = iso (h_occurredAt h) \<rparr>)
       (select_ordered limit (\<lambda>h. (- h_occurredAt h, h_historyId h))
         (\<lambda>h. h_action h \<in> {Did (RESOLVE_ACTIONS Part_COURIER), Did (RESOLVE_ACTIONS Part_REQUESTER)})
         (order_status_history db))"

section \<open>Reconciliation\<close>

definition attempted_since :: "order_db \<Rightarrow> ident \<Rightarrow> time \<Rightarrow> bool" where
  "attempted_since db i t \<longleftrightarrow>
     (\<exists>a \<in> set (order_reconciliation_attempts db). ra_orderId a = i \<and> t < ra_attemptedAt a)"

definition request_unpublished :: "order_db \<Rightarrow> ident \<Rightarrow> bool" where
  "request_unpublished db i \<longleftrightarrow>
     (\<exists>r \<in> set (outbox_events db). ob_aggregateId r = i \<and> ob_publishedAt r = None \<and>
        ob_eventType r \<in> {CREDIT_RESERVATION_REQUESTED, ORDER_COMPLETION_REQUESTED, CREDIT_RELEASE_REQUESTED})"

definition waiting_on_credit_since :: "time \<Rightarrow> stored_order \<Rightarrow> bool" where
  "waiting_on_credit_since t x \<longleftrightarrow>
     (o_status x = PENDING_CREDIT \<and> o_createdAt x \<le> t) \<or>
     (o_status x = COMPLETION_PENDING_CREDIT \<and> is_true (\<lambda>d. d \<le> t) (o_completionRequestedAt x)) \<or>
     (o_status x = RELEASE_PENDING_CREDIT \<and> is_true (\<lambda>d. d \<le> t) (o_releaseRequestedAt x))"

record candidate =
  ca_orderId :: ident
  ca_status :: order_status
  ca_version :: int

definition findReconciliationCandidates ::
  "time \<Rightarrow> int \<Rightarrow> int \<Rightarrow> nat \<Rightarrow> order_db \<Rightarrow> candidate list" where
  "findReconciliationCandidates now staleAfterMs retryAfterMs limit db =
     map (\<lambda>x. \<lparr> ca_orderId = o_orderId x, ca_status = o_status x, ca_version = o_version x \<rparr>)
       (select_ordered limit (\<lambda>x. (o_updatedAt x, o_orderId x))
         (\<lambda>x. waiting_on_credit_since (later now (- staleAfterMs)) x \<and>
              \<not> attempted_since db (o_orderId x) (later now (- retryAfterMs)) \<and>
              \<not> request_unpublished db (o_orderId x)) (orders db))"

record credit_status_read =
  read_status :: credit_state
  read_detail :: "credit_detail option"

datatype repair = REISSUE | ALERT | Unavailable

record reconciliation_input =
  rn_orderId :: ident
  rn_observed :: candidate
  rn_runId :: ident
  rn_retryAfterMs :: int
  rn_credit :: "credit_status_read option"
  rn_action :: repair
  rn_correlationId :: ident

record reconciliation_outcome =
  ro_action :: reconciliation_action
  ro_eventId :: "ident option"
  ro_alertRaised :: bool

text \<open>The repair itself: the event re-issued, if one was, and whether an alert was raised.\<close>

definition repair_order ::
  "uuids \<Rightarrow> time \<Rightarrow> reconciliation_input \<Rightarrow> order_row \<Rightarrow> order_db
     \<Rightarrow> service_error + ((ident option \<times> bool) \<times> order_db)" where
  "repair_order u now input x db =
     (case rn_action input of
        REISSUE \<Rightarrow>
          bindE (creditRequest x) (\<lambda>tp.
          bindE (insertOutboxEvent (u 0) now (order_event tp (o_orderId x) (rn_correlationId input) None) db)
            (\<lambda>(i, db'). Inr ((Some i, False), db')))
      | ALERT \<Rightarrow>
          bindE (raiseAlert now (o_orderId x) CREDIT_STATE_CONFLICT
              (Conflicting_status (o_status x) (map_option read_status (rn_credit input))) db)
            (\<lambda>(raised, db'). Inr ((None, raised), db'))
      | Unavailable \<Rightarrow> Inr ((None, False), db))"

text \<open>\<open>locked\<close> holds the errands whose row another transaction has locked (\<open>SKIP LOCKED\<close>).\<close>

definition recordReconciliation ::
  "uuids \<Rightarrow> time \<Rightarrow> ident set \<Rightarrow> reconciliation_input \<Rightarrow> order_db
     \<Rightarrow> service_error + (reconciliation_outcome option \<times> order_db)" where
  "recordReconciliation u now locked input db =
     (case if rn_orderId input \<in> locked then None else row_of o_orderId (rn_orderId input) (orders db) of
        None \<Rightarrow> Inr (None, db)
      | Some stored \<Rightarrow>
          let x = mapOrder stored in
          if o_status x \<noteq> ca_status (rn_observed input) \<or> o_version x \<noteq> ca_version (rn_observed input)
          then Inr (None, db)
          else if attempted_since db (rn_orderId input) (later now (- rn_retryAfterMs input))
          then Inr (None, db)
          else
            bindE (repair_order u now input x db) (\<lambda>((reissued, raised), db1).
            let action = (case rn_action input of REISSUE \<Rightarrow> REISSUED | ALERT \<Rightarrow> ALERTED
                            | Unavailable \<Rightarrow> CREDIT_UNAVAILABLE) in
            bindE (insertAttempt
              \<lparr> ra_attemptId = (if rn_action input = REISSUE then u 1 else u 0),
                ra_runId = rn_runId input, ra_orderId = o_orderId x, ra_orderStatus = o_status x,
                ra_orderVersion = o_version x,
                ra_creditStatus = map_option read_status (rn_credit input),
                ra_creditDetail = Option.bind (rn_credit input) read_detail, ra_action = action,
                ra_reissuedEventId = reissued, ra_attemptedAt = now \<rparr> db1) (\<lambda>db2.
            Inr (Some \<lparr> ro_action = action, ro_eventId = reissued, ro_alertRaised = raised \<rparr>, db2))))"

definition listReconciliationAttempts :: "order_db \<Rightarrow> nat \<Rightarrow> reconciliation_attempt list" where
  "listReconciliationAttempts db limit =
     map (\<lambda>a. a\<lparr> ra_attemptedAt := iso (ra_attemptedAt a) \<rparr>)
       (select_ordered limit (\<lambda>a. (- ra_attemptedAt a, ra_attemptId a)) (\<lambda>_. True)
         (order_reconciliation_attempts db))"

definition findStalePendingCredit :: "time \<Rightarrow> nat \<Rightarrow> order_db \<Rightarrow> (ident \<times> time) list" where
  "findStalePendingCredit cutoff limit db =
     map (\<lambda>x. (o_orderId x, iso (o_createdAt x)))
       (select_ordered limit (\<lambda>x. (o_createdAt x, o_orderId x))
         (\<lambda>x. o_status x = PENDING_CREDIT \<and> o_createdAt x \<le> cutoff) (orders db))"

end
