(* ===== verification/Order_Effects.thy ===== *)
theory Order_Effects
  imports Order_Repository
begin

text \<open>
  What the Order Service's operations do to an errand. The abstract specification is a relation
  on the errands with their histories, their receipts and the credit requests the service has
  written, with one case per kind of change; the repository's operations are shown to be
  sequences of its cases. The invariants are proved on the specification (\<open>Order_Invariants\<close>).
\<close>

section \<open>The errands\<close>

type_synonym request = "event_type \<times> ident \<times> payload"

record errands =
  er_orders :: "stored_order list"
  er_history :: "history_row list"
  er_receipts :: "receipt_row list"
  er_requests :: "request set"

definition credit_request_types :: "event_type set" where
  "credit_request_types =
     {CREDIT_RESERVATION_REQUESTED, ORDER_COMPLETION_REQUESTED, CREDIT_RELEASE_REQUESTED}"

definition requests_in :: "outbox_row list \<Rightarrow> request set" where
  "requests_in rows =
     (\<lambda>r. (ob_eventType r, ob_aggregateId r, ob_payload r)) `
       {r \<in> set rows. ob_eventType r \<in> credit_request_types}"

definition errands :: "order_db \<Rightarrow> errands" where
  "errands db = \<lparr> er_orders = orders db, er_history = order_status_history db,
                  er_receipts = order_receipts db, er_requests = requests_in (outbox_events db) \<rparr>"

lemma errands_simps [simp]:
  "er_orders (errands db) = orders db" "er_history (errands db) = order_status_history db"
  "er_receipts (errands db) = order_receipts db"
  "er_requests (errands db) = requests_in (outbox_events db)"
  by (simp_all add: errands_def)

lemma errands_other [simp]:
  "errands (db\<lparr> outbox_seq := n \<rparr>) = errands db" "errands (db\<lparr> processed_events := y \<rparr>) = errands db"
  "errands (db\<lparr> order_operator_alerts := a \<rparr>) = errands db"
  "errands (db\<lparr> order_reconciliation_attempts := r \<rparr>) = errands db"
  "errands (db\<lparr> order_idempotency_keys := k \<rparr>) = errands db"
  "errands (db\<lparr> order_command_idempotency_keys := c \<rparr>) = errands db"
  by (simp_all add: errands_def)

lemma requests_in_append [simp]:
  "requests_in (rows @ [r]) = requests_in rows \<union>
     (if ob_eventType r \<in> credit_request_types then {(ob_eventType r, ob_aggregateId r, ob_payload r)} else {})"
  by (auto simp: requests_in_def)

text \<open>The request an errand in this status waits for Credit to answer.\<close>

definition awaited :: "'a order_row_scheme \<Rightarrow> request set" where
  "awaited x =
     (case o_status x of
        PENDING_CREDIT \<Rightarrow>
          {(CREDIT_RESERVATION_REQUESTED, o_orderId x,
            CreditReservationRequestedPayload (o_orderId x) (o_requesterId x) (o_reward x))}
      | COMPLETION_PENDING_CREDIT \<Rightarrow>
          {(ORDER_COMPLETION_REQUESTED, o_orderId x,
            OrderCompletionRequestedPayload (o_orderId x) (o_requesterId x) (o_reward x) (the (o_courierId x)))}
      | RELEASE_PENDING_CREDIT \<Rightarrow>
          {(CREDIT_RELEASE_REQUESTED, o_orderId x,
            CreditReleaseRequestedPayload (o_orderId x) (o_requesterId x) (o_reward x))}
      | _ \<Rightarrow> {})"

lemma awaited_mapOrder [simp]: "awaited (mapOrder x) = awaited x"
  by (simp add: awaited_def split: order_status.splits)

section \<open>The specification\<close>

text \<open>The columns an action may set beyond the ones its decision stamps.\<close>

definition lawful_patch :: "order_action \<Rightarrow> column list \<Rightarrow> bool" where
  "lawful_patch a patch \<longleftrightarrow>
     (case a of
        CREDIT_REJECTED \<Rightarrow> (\<exists>r n. patch = [Rejection_reason r, Available_at_rejection n])
      | TRANSFER_CONFIRMED \<Rightarrow> (\<exists>i. patch = [Credit_transaction_id (Some i)])
      | RELEASE_CONFIRMED \<Rightarrow> (\<exists>i. patch = [Credit_transaction_id (Some i)])
      | ADMIN_ASSIGNED \<Rightarrow> (\<exists>i. patch = [Referred_admin_id (Some i)])
      | ADMIN_UNASSIGNED \<Rightarrow> patch = [Referred_admin_id None]
      | _ \<Rightarrow> patch = [])"

definition receipt_of :: "order_row \<Rightarrow> receipt_row" where
  "receipt_of x =
     \<lparr> rc_orderId = o_orderId x, rc_requesterId = o_requesterId x, rc_courierId = the (o_courierId x),
       rc_supplierSnapshot = o_supplierSnapshot x, rc_items = o_items x, rc_reward = o_reward x,
       rc_creditTransactionId = the (o_creditTransactionId x), rc_createdAt = o_createdAt x,
       rc_acceptedAt = the (o_acceptedAt x), rc_pickedUpAt = the (o_pickedUpAt x),
       rc_deliveredAt = o_deliveredAt x,
       rc_completionRequestedAt = the (o_completionRequestedAt x), rc_completedAt = the (o_completedAt x) \<rparr>"

text \<open>The history row of a change from one version of an errand to the next.\<close>

definition records :: "history_row \<Rightarrow> stored_order \<Rightarrow> stored_order \<Rightarrow> order_action \<Rightarrow> order_actor \<Rightarrow> bool" where
  "records h x x' a w \<longleftrightarrow>
     h_orderId h = o_orderId x \<and> h_previousStatus h = Some (o_status x) \<and> h_newStatus h = o_status x' \<and>
     h_action h = Did a \<and> h_actorType h = HISTORY_ACTOR w \<and> h_orderVersion h = o_version x'"

abbreviation change_order :: "ident \<Rightarrow> (stored_order \<Rightarrow> stored_order) \<Rightarrow> stored_order list \<Rightarrow> stored_order list" where
  "change_order i f \<equiv> update_rows (\<lambda>r. o_orderId r = i) f"

definition checked :: "stored_order \<Rightarrow> bool" where
  "checked x \<longleftrightarrow> constraints (order_checks x) = Inr ()"

text \<open>
  \<open>told x a patch\<close> says that Credit has vouched for the action on this errand: it is asked of every
  move made in Credit's name, so that a system can bind it to the messages Credit sent.
\<close>

type_synonym news = "stored_order \<Rightarrow> order_action \<Rightarrow> column list \<Rightarrow> bool"

inductive errand_effect :: "order_env \<Rightarrow> news \<Rightarrow> errands \<Rightarrow> errands \<Rightarrow> bool"
  for e :: order_env and told :: news where
  unchanged:
    "\<lbrakk> er_orders s' = er_orders s; er_history s' = er_history s; er_receipts s' = er_receipts s;
       er_requests s' \<subseteq> er_requests s \<rbrakk> \<Longrightarrow> errand_effect e told s s'"
| created:
    "\<lbrakk> x = new_order i t input; i \<notin> o_orderId ` set (er_orders s); checked x;
       h_orderId h = i; h_previousStatus h = None; h_newStatus h = PENDING_CREDIT; h_action h = CREATE;
       h_actorType h = Hist_REQUESTER; h_orderVersion h = 1 \<rbrakk> \<Longrightarrow>
     errand_effect e told s (s\<lparr> er_orders := er_orders s @ [x], er_history := er_history s @ [h],
                           er_requests := er_requests s \<union> awaited x \<rparr>)"
| accepted:
    "\<lbrakk> row_of o_orderId i (er_orders s) = Some x; acceptable courier (o_version x) now x;
       x' = taken_by courier now x; checked x'; records h x x' ACCEPT OTHER_STUDENT \<rbrakk> \<Longrightarrow>
     errand_effect e told s (s\<lparr> er_orders := change_order i (taken_by courier now) (er_orders s),
                           er_history := er_history s @ [h] \<rparr>)"
| moved:
    "\<lbrakk> row_of o_orderId i (er_orders s) = Some x; decideTransition (o_status x) a w c = Some d;
       ctx_releaseReason c = o_releaseReason x; timestampPatch e a d t (mapOrder x) = Inr stamps;
       lawful_patch a patch; w = CREDIT_SERVICE \<Longrightarrow> told x a patch; f = set_columns (transition_patch d (o_version x) t stamps patch); x' = f x;
       checked x'; records h x x' a w;
       rs = (if a = TRANSFER_CONFIRMED then [receipt_of (mapOrder x')] else []);
       a = TRANSFER_CONFIRMED \<Longrightarrow> rc_orderId (receipt_of (mapOrder x')) \<notin> rc_orderId ` set (er_receipts s) \<rbrakk> \<Longrightarrow>
     errand_effect e told s (s\<lparr> er_orders := change_order i f (er_orders s), er_history := er_history s @ [h],
                           er_receipts := er_receipts s @ rs, er_requests := er_requests s \<union> awaited x' \<rparr>)"
| marked:
    "errand_effect e told s (s\<lparr> er_orders := update_rows p (\<lambda>x. x\<lparr> requester_suspended_at := v \<rparr>) (er_orders s) \<rparr>)"
| reissued:
    "row_of o_orderId i (er_orders s) = Some x \<Longrightarrow>
     errand_effect e told s (s\<lparr> er_requests := er_requests s \<union> awaited x \<rparr>)"

lemma errand_effect_refl: "errand_effect e told s s"
  by (rule errand_effect.unchanged) simp_all

section \<open>Statements\<close>

lemma insertHistory_Inr:
  "insertHistory h db = Inr db' \<longleftrightarrow>
     constraints (history_checks db h) = Inr () \<and>
     db' = db\<lparr> order_status_history := order_status_history db @ [h] \<rparr>"
  by (auto simp: insertHistory_def bindE_eq_Inr)

lemma insertOrder_Inr:
  "insertOrder x db = Inr db' \<longleftrightarrow>
     checked x \<and> o_orderId x \<notin> o_orderId ` set (orders db) \<and> db' = db\<lparr> orders := orders db @ [x] \<rparr>"
  by (auto simp: insertOrder_def bindE_eq_Inr constraints_Inr checked_def order_fk_def)

lemma updateOrder_Inr:
  "updateOrder i guard f db = Inr (r, db') \<longleftrightarrow>
     (case row_of o_orderId i (orders db) of
        None \<Rightarrow> r = None \<and> db' = db
      | Some x \<Rightarrow>
          if guard x then r = Some (f x) \<and> checked (f x) \<and>
            db' = db\<lparr> orders := update_rows (\<lambda>r. o_orderId r = i) f (orders db) \<rparr>
          else r = None \<and> db' = db)"
  by (auto simp: updateOrder_def checked_def bindE_eq_Inr split: option.splits)

lemma insertOutboxEvent_errands:
  assumes "insertOutboxEvent u now event db = Inr (i, db')"
  shows "errands db' = (errands db)\<lparr> er_requests := er_requests (errands db) \<union>
     (if ne_eventType event \<in> credit_request_types
      then {(ne_eventType event, ne_aggregateId event, ne_payload event)} else {}) \<rparr>"
proof -
  from assms obtain v where v: "toOutboxRow u event = Inr v"
    "db' = db\<lparr> outbox_events := outbox_events db @ [outbox_row_of now (outbox_seq db) v],
                outbox_seq := Suc (outbox_seq db) \<rparr>"
    by (rule insertOutboxEvent_Inr)
  from v(1) have "rv_eventType v = ne_eventType event" "rv_payload v = ne_payload event"
    "rv_aggregateId v = ne_aggregateId event" by (auto elim: toOutboxRow_Inr)
  with v(2) show ?thesis by (simp add: errands_def outbox_row_of_def)
qed

lemma order_event_simps [simp]:
  "ne_eventType (order_event tp a co ca) = fst tp" "ne_aggregateId (order_event tp a co ca) = a"
  "ne_payload (order_event tp a co ca) = snd tp"
  by (simp_all add: order_event_def)

section \<open>The transition path\<close>

lemma decision_emits:
  "decideTransition src a w c = Some d \<Longrightarrow>
     (ORDER_COMPLETION_REQUESTED \<in> set (d_emitted d) \<longleftrightarrow> d_to d = COMPLETION_PENDING_CREDIT) \<and>
     (CREDIT_RELEASE_REQUESTED \<in> set (d_emitted d) \<longleftrightarrow> d_to d = RELEASE_PENDING_CREDIT) \<and>
     set (d_emitted d) \<subseteq> {ORDER_COMPLETION_REQUESTED, CREDIT_RELEASE_REQUESTED, ORDER_STATUS_CHANGED} \<and>
     d_to d \<noteq> PENDING_CREDIT"
  by (rule decision_by_rule, assumption) (simp add: each_rule)

text \<open>Neither the stamps nor a lawful patch touch what the decision itself sets.\<close>

definition stamp :: "column \<Rightarrow> bool" where
  "stamp c \<longleftrightarrow> (case c of Status _ \<Rightarrow> False | Version _ \<Rightarrow> False | Updated_at _ \<Rightarrow> False
                 | Release_reason _ \<Rightarrow> False | _ \<Rightarrow> True)"

lemma stamp_frame:
  "list_all stamp cs \<Longrightarrow>
     o_status (set_columns cs x) = o_status x \<and> o_version (set_columns cs x) = o_version x \<and>
     o_updatedAt (set_columns cs x) = o_updatedAt x \<and> o_releaseReason (set_columns cs x) = o_releaseReason x"
proof (induction cs arbitrary: x)
  case Nil
  then show ?case by simp
next
  case (Cons c cs)
  then have "o_status (set_column c x) = o_status x \<and> o_version (set_column c x) = o_version x \<and>
     o_updatedAt (set_column c x) = o_updatedAt x \<and> o_releaseReason (set_column c x) = o_releaseReason x"
    by (cases c) (simp_all add: stamp_def)
  with Cons show ?case by simp
qed

lemma timestampPatch_stamps: "timestampPatch e a d t x = Inr stamps \<Longrightarrow> list_all stamp stamps"
  by (auto simp: timestampPatch_def Let_def stamp_def split: if_splits option.splits prod.splits)

lemma lawful_patch_stamps: "lawful_patch a patch \<Longrightarrow> list_all stamp patch"
  by (auto simp: lawful_patch_def stamp_def split: order_action.splits)

lemma moved_row:
  fixes v :: int and x :: stored_order
  assumes "timestampPatch e a d t y = Inr stamps" and "lawful_patch a patch"
  defines "f \<equiv> set_columns (transition_patch d v t stamps patch)"
  shows "o_status (f x) = d_to d" and "o_version (f x) = v + 1" and "o_updatedAt (f x) = t"
    and "o_releaseReason (f x) = (case d_releaseReason d of None \<Rightarrow> o_releaseReason x | r \<Rightarrow> r)"
proof -
  have "list_all stamp (stamps @ patch)"
    using assms timestampPatch_stamps lawful_patch_stamps by simp
  from stamp_frame [OF this]
  show "o_status (f x) = d_to d" "o_version (f x) = v + 1" "o_updatedAt (f x) = t"
    "o_releaseReason (f x) = (case d_releaseReason d of None \<Rightarrow> o_releaseReason x | r \<Rightarrow> r)"
    by (simp_all add: f_def transition_patch_def split: option.splits)
qed

text \<open>What an emitted event adds to the credit requests.\<close>

definition emitted_request :: "event_type \<Rightarrow> order_row \<Rightarrow> request set" where
  "emitted_request ty x =
     (if ty = ORDER_COMPLETION_REQUESTED then
        {(ORDER_COMPLETION_REQUESTED, o_orderId x,
          OrderCompletionRequestedPayload (o_orderId x) (o_requesterId x) (o_reward x) (the (o_courierId x)))}
      else if ty = CREDIT_RELEASE_REQUESTED then
        {(CREDIT_RELEASE_REQUESTED, o_orderId x,
          CreditReleaseRequestedPayload (o_orderId x) (o_requesterId x) (o_reward x))}
      else {})"

lemma emittedEvent_request:
  assumes "emittedEvent ty before after t = Inr tp"
  shows "(if fst tp \<in> credit_request_types then {(fst tp, o_orderId after, snd tp)} else {}) =
         emitted_request ty after"
  using assms
  by (auto simp: emittedEvent_def emitted_request_def credit_request_types_def
      split: if_splits option.splits)

lemma emit_all_errands:
  assumes "emit_all u k now tys before after t command db = Inr db'"
    and "o_orderId before = o_orderId after"
  shows "errands db' = (errands db)\<lparr> er_requests := er_requests (errands db) \<union>
           (\<Union>ty \<in> set tys. emitted_request ty after) \<rparr>"
  using assms(1)
proof (induction tys arbitrary: k db)
  case Nil
  then show ?case by (simp add: errands_def)
next
  case (Cons ty tys)
  then obtain tp i db1 where tp: "emittedEvent ty before after t = Inr tp"
    and ins: "insertOutboxEvent (u k) now
      (order_event tp (o_orderId before) (tc_correlationId command) (tc_causationId command)) db = Inr (i, db1)"
    and rest: "emit_all u (Suc k) now tys before after t command db1 = Inr db'"
    by (auto simp: bindE_eq_Inr)
  have "errands db1 = (errands db)\<lparr> er_requests := er_requests (errands db) \<union> emitted_request ty after \<rparr>"
    using insertOutboxEvent_errands [OF ins] assms(2) unfolding emittedEvent_request [OF tp, symmetric] by simp
  with Cons.IH [OF rest] show ?case by (simp add: Un_assoc del: errands_simps)
qed

lemma emitted_is_awaited:
  assumes "decideTransition src a w c = Some d" and "o_status x = d_to d"
  shows "(\<Union>ty \<in> set (d_emitted d). emitted_request ty x) = awaited x"
proof -
  note emits = decision_emits [OF assms(1)]
  have "(\<Union>ty \<in> set (d_emitted d). emitted_request ty x) =
     (if ORDER_COMPLETION_REQUESTED \<in> set (d_emitted d) then emitted_request ORDER_COMPLETION_REQUESTED x else {}) \<union>
     (if CREDIT_RELEASE_REQUESTED \<in> set (d_emitted d) then emitted_request CREDIT_RELEASE_REQUESTED x else {})"
    using emits by (auto simp: emitted_request_def split: if_splits)
  with emits assms(2) show ?thesis
    by (cases "d_to d") (auto simp: emitted_request_def awaited_def)
qed

text \<open>
  The commands the service issues: each action with its own patch, and only the confirmation of
  a transfer with a further write, the receipt.
\<close>

definition lawful :: "transition_command \<Rightarrow> bool" where
  "lawful command \<longleftrightarrow>
     lawful_patch (tc_action command) (tc_patch command) \<and>
     tc_afterApply command = (if tc_action command = TRANSFER_CONFIRMED then insertReceipt else no_write)"

lemma insertReceipt_Inr:
  assumes "insertReceipt x db = Inr db'"
  shows "db' = db\<lparr> order_receipts := order_receipts db @ [receipt_of x] \<rparr>"
    and "rc_orderId (receipt_of x) \<notin> rc_orderId ` set (order_receipts db)"
  using assms
  by (auto simp: insertReceipt_def insertReceiptRow_def receipt_of_def bindE_eq_Inr constraints_Inr
      receipt_checks_def split: option.splits)

lemma afterApply_errands:
  assumes "lawful command" and "tc_afterApply command after db = Inr db'"
  shows "errands db' = (errands db)\<lparr> er_receipts := er_receipts (errands db) @
           (if tc_action command = TRANSFER_CONFIRMED then [receipt_of after] else []) \<rparr>"
    and "tc_action command = TRANSFER_CONFIRMED \<Longrightarrow>
           rc_orderId (receipt_of after) \<notin> rc_orderId ` set (order_receipts db)"
  using assms insertReceipt_Inr [of after db db']
  by (auto simp: lawful_def no_write_def errands_def split: if_splits)

lemma apply_decision_effect:
  assumes row: "row_of o_orderId i (orders db) = Some x"
    and decided: "decideTransition (o_status x) (tc_action command) w c = Some d"
    and reason: "ctx_releaseReason c = o_releaseReason x" and lawful: "lawful command"
    and news: "w = CREDIT_SERVICE \<Longrightarrow> told x (tc_action command) (tc_patch command)"
    and result: "apply_decision e u now command (mapOrder x) t w d db = Inr (r, db')"
  shows "errand_effect e told (errands db) (errands db')"
proof -
  let ?a = "tc_action command"
  have id: "o_orderId x = i" using row_of_Some [OF row] by simp
  from result obtain stamps upd db1 where
    stamps: "timestampPatch e ?a d t (mapOrder x) = Inr stamps" and
    upd: "updateOrder i (\<lambda>r. o_version r = o_version x)
      (set_columns (transition_patch d (o_version x) t stamps (tc_patch command))) db = Inr (upd, db1)"
    unfolding apply_decision_def using id by (auto simp: bindE_eq_Inr)
  define f where "f = set_columns (transition_patch d (o_version x) t stamps (tc_patch command))"
  have upd': "upd = Some (f x)" and chk: "checked (f x)"
    and db1: "db1 = db\<lparr> orders := change_order i f (orders db) \<rparr>"
    using upd row by (simp_all add: updateOrder_Inr f_def)
  obtain h db2 db3 where hist: "insertHistory h db1 = Inr db2"
    and h: "records h x (f x) ?a w"
    and aft: "tc_afterApply command (mapOrder (f x)) db2 = Inr db3"
    and emit: "emit_all u 1 now (d_emitted d) (mapOrder x) (mapOrder (f x)) t command db3 = Inr db'"
    using result stamps upd upd' id
    unfolding apply_decision_def
    by (auto simp: bindE_eq_Inr Let_def records_def f_def)
  have lp: "lawful_patch ?a (tc_patch command)" using lawful by (simp add: lawful_def)
  have status: "o_status (f x) = d_to d" unfolding f_def by (rule moved_row(1) [OF stamps lp])
  have fid: "o_orderId (f x) = o_orderId x" by (simp add: f_def)
  let ?rs = "if ?a = TRANSFER_CONFIRMED then [receipt_of (mapOrder (f x))] else []"
  have e2: "errands db2 = (errands db)\<lparr> er_orders := change_order i f (orders db),
      er_history := order_status_history db @ [h] \<rparr>"
    using hist db1 by (simp add: insertHistory_Inr errands_def)
  have e3: "errands db3 = (errands db2)\<lparr> er_receipts := order_receipts db2 @ ?rs \<rparr>"
    using afterApply_errands(1) [OF lawful aft] by simp
  have e4: "errands db' = (errands db3)\<lparr> er_requests := er_requests (errands db3) \<union> awaited (f x) \<rparr>"
    using emit_all_errands [OF emit] emitted_is_awaited [OF decided, of "mapOrder (f x)"] status fid
    by (simp del: errands_simps)
  have fresh: "rc_orderId (receipt_of (mapOrder (f x))) \<notin> rc_orderId ` set (er_receipts (errands db))"
    if "?a = TRANSFER_CONFIRMED"
    using afterApply_errands(2) [OF lawful aft that] hist db1 by (simp add: insertHistory_Inr)
  have r2: "order_receipts db2 = order_receipts db" and q2: "requests_in (outbox_events db2) = requests_in (outbox_events db)"
    using hist db1 by (simp_all add: insertHistory_Inr)
  have "errands db' = (errands db)\<lparr> er_orders := change_order i f (er_orders (errands db)),
      er_history := er_history (errands db) @ [h], er_receipts := er_receipts (errands db) @ ?rs,
      er_requests := er_requests (errands db) \<union> awaited (f x) \<rparr>"
    unfolding e4 e3 e2 r2 by simp
  moreover have "errand_effect e told (errands db) \<dots>"
    by (rule errand_effect.moved [where told = told, OF _ decided reason stamps lp _ f_def refl chk h refl])
      (use row fresh news in simp_all)
  ultimately show ?thesis by simp
qed

text \<open>A refused command changes nothing; an applied one is a move of the specification.\<close>

lemma transitionUsing_cases:
  assumes "transitionUsing e u now command db = Inr (r, db')"
  obtains (refused) why x where "r = Not_applied why x" and "db' = db"
  | (applied) x w c d t where "row_of o_orderId (tc_orderId command) (orders db) = Some x"
      and "w = resolveActor (mapOrder x) (tc_actor command)"
      and "t = (case tc_now command of Some n \<Rightarrow> iso n | None \<Rightarrow> iso now)"
      and "c = context_of (mapOrder x) t command"
      and "decideTransition (o_status x) (tc_action command) w c = Some d"
      and "opt_all (\<lambda>v. v = o_version x) (tc_expectedVersion command)"
      and "tc_verify command (mapOrder x) = None"
      and "apply_decision e u now command (mapOrder x) t w d db = Inr (r, db')"
  using assms
  by (auto simp: transitionUsing_def Let_def split: option.splits if_splits)

lemma resolveActor_credit: "resolveActor x actor = CREDIT_SERVICE \<longleftrightarrow> actor = By_CREDIT_SERVICE"
  by (cases actor) auto

lemma transitionUsing_effect:
  assumes "transitionUsing e u now command db = Inr (r, db')" and "lawful command"
    and "\<And>x. \<lbrakk> tc_actor command = By_CREDIT_SERVICE; row_of o_orderId (tc_orderId command) (orders db) = Some x;
           tc_verify command (mapOrder x) = None \<rbrakk> \<Longrightarrow> told x (tc_action command) (tc_patch command)"
  shows "errand_effect e told (errands db) (errands db')"
  using assms(1)
proof (cases rule: transitionUsing_cases)
  case refused
  then show ?thesis by (simp add: errand_effect_refl)
next
  case (applied x w c d t)
  show ?thesis
  proof (rule apply_decision_effect [OF applied(1,5) _ assms(2) _ applied(8)])
    show "ctx_releaseReason c = o_releaseReason x" by (simp add: applied(4) context_of_def)
    show "told x (tc_action command) (tc_patch command)" if "w = CREDIT_SERVICE"
      using that assms(3) applied(1,2,7) by (simp add: resolveActor_credit)
  qed
qed

section \<open>The other operations\<close>

lemma insertKey_errands:
  "insertOrderKey k db = Inr db' \<Longrightarrow> errands db' = errands db"
  "insertCommandKey k db = Inr db' \<Longrightarrow> errands db' = errands db"
  by (auto simp: insertOrderKey_def insertCommandKey_def bindE_eq_Inr)

lemma acceptUsing_effect:
  assumes "acceptUsing u now i courier version correlation db = Inr (r, db')"
  shows "errand_effect e told (errands db) (errands db')"
proof -
  from assms obtain upd db1 where
    upd: "updateOrder i (acceptable courier version now) (taken_by courier now) db = Inr (upd, db1)"
    by (auto simp: acceptUsing_def bindE_eq_Inr)
  show ?thesis
  proof (cases upd)
    case None
    with upd have "db1 = db" by (auto simp: updateOrder_Inr split: option.splits if_splits)
    with assms upd None show ?thesis by (simp add: acceptUsing_def errand_effect_refl)
  next
    case (Some stored)
    with upd obtain x where x: "row_of o_orderId i (orders db) = Some x"
      and acc: "acceptable courier version now x" and st: "stored = taken_by courier now x"
      and chk: "checked (taken_by courier now x)"
      and db1: "db1 = db\<lparr> orders := change_order i (taken_by courier now) (orders db) \<rparr>"
      by (auto simp: updateOrder_Inr split: option.splits if_splits)
    have id: "o_orderId x = i" using row_of_Some [OF x] by simp
    from acc have acc': "acceptable courier (o_version x) now x" by (simp add: acceptable_def)
    obtain h db2 j tp where hist: "insertHistory h db1 = Inr db2"
      and h: "records h x (taken_by courier now x) ACCEPT OTHER_STUDENT"
      and out: "insertOutboxEvent (u 1) now (order_event (ORDER_STATUS_CHANGED, tp) i correlation None) db2 =
        Inr (j, db')"
      using assms upd Some st id acc
      by (auto simp: acceptUsing_def bindE_eq_Inr records_def taken_by_def acceptable_def Let_def)
    have "errands db' = (errands db)\<lparr> er_orders := change_order i (taken_by courier now) (er_orders (errands db)),
        er_history := er_history (errands db) @ [h] \<rparr>"
      using insertOutboxEvent_errands [OF out] hist db1
      by (simp add: insertHistory_Inr errands_def credit_request_types_def)
    moreover have "errand_effect e told (errands db) \<dots>"
      by (rule errand_effect.accepted [OF _ acc' refl chk h]) (simp add: x)
    ultimately show ?thesis by simp
  qed
qed

lemma createPending_effect:
  assumes "createPending u clock now input db = Inr (r, db')"
  shows "errand_effect e told (errands db) (errands db')"
proof (cases "used_key (order_idempotency_keys db) (cp_requesterId input) (cp_idempotencyKey input)")
  case (Some k)
  with assms have "db' = db" by (auto simp: createPending_def split: if_splits option.splits)
  then show ?thesis by (simp add: errand_effect_refl)
next
  case None
  let ?i = "u 0" and ?x = "new_order (u 0) (iso clock) input"
  from None assms have w: "write_pending u clock now input db = Inr (r, db')" by (simp add: createPending_def)
  then obtain h db1 db2 k db3 j tp db4 j' db5 where
    ins: "insertOrder ?x db = Inr db1" and hist: "insertHistory h db1 = Inr db2"
    and h: "h_orderId h = ?i" "h_previousStatus h = None" "h_newStatus h = PENDING_CREDIT"
      "h_action h = CREATE" "h_actorType h = Hist_REQUESTER" "h_orderVersion h = 1"
    and key: "insertOrderKey k db2 = Inr db3"
    and o1: "insertOutboxEvent (u 2) now (order_event (ORDER_STATUS_CHANGED, tp) ?i
        (cp_correlationId input) None) db3 = Inr (j, db4)"
    and o2: "insertOutboxEvent (u 3) now (order_event (CREDIT_RESERVATION_REQUESTED,
        CreditReservationRequestedPayload ?i (cp_requesterId input) (cp_reward input)) ?i
        (cp_correlationId input) None) db4 = Inr (j', db')"
    by (auto simp: write_pending_def bindE_eq_Inr Let_def split: option.splits)
  have "awaited ?x = {(CREDIT_RESERVATION_REQUESTED, ?i,
      CreditReservationRequestedPayload ?i (cp_requesterId input) (cp_reward input))}"
    by (simp add: awaited_def new_order_def)
  then have "errands db' = (errands db)\<lparr> er_orders := er_orders (errands db) @ [?x],
      er_history := er_history (errands db) @ [h], er_requests := er_requests (errands db) \<union> awaited ?x \<rparr>"
    using insertOutboxEvent_errands [OF o2] insertOutboxEvent_errands [OF o1]
      insertKey_errands(1) [OF key] hist ins
    by (simp add: insertHistory_Inr insertOrder_Inr errands_def credit_request_types_def)
  moreover have "errand_effect e told (errands db) \<dots>"
    by (rule errand_effect.created [OF refl _ _ h]) (use ins in \<open>simp_all add: insertOrder_Inr new_order_def\<close>)
  ultimately show ?thesis by simp
qed

lemma marks_effect:
  "errand_effect e told (errands db) (errands (noteRequesterSuspended now i db))"
  "errand_effect e told (errands db) (errands (clearRequesterSuspended i db))"
  using errand_effect.marked [of e told "errands db"]
  by (simp_all add: noteRequesterSuspended_def clearRequesterSuspended_def errands_def)

lemma raiseAlert_errands: "raiseAlert now i kind detail db = Inr (raised, db') \<Longrightarrow> errands db' = errands db"
  by (auto simp: raiseAlert_def insertAlertOnce_def split: if_splits)

lemma raiseCreditWaitAlerts_errands:
  "raiseCreditWaitAlerts now cutoff limit db = (alerts, db') \<Longrightarrow> errands db' = errands db"
  by (auto simp: raiseCreditWaitAlerts_def Let_def)

lemma creditRequest_awaited:
  "creditRequest x = Inr tp \<Longrightarrow>
     (if fst tp \<in> credit_request_types then {(fst tp, o_orderId x, snd tp)} else {}) = awaited x"
  by (auto simp: creditRequest_def emittedEvent_def awaited_def credit_request_types_def
      split: if_splits option.splits)

lemma recordReconciliation_effect:
  assumes "recordReconciliation u now locked input db = Inr (r, db')"
  shows "errand_effect e told (errands db) (errands db')"
proof -
  consider "db' = db" | x q db1 a where
      "row_of o_orderId (rn_orderId input) (orders db) = Some x"
      "repair_order u now input (mapOrder x) db = Inr (q, db1)" "insertAttempt a db1 = Inr db'"
    using assms
    by (auto simp: recordReconciliation_def Let_def bindE_eq_Inr split: option.splits if_splits)
  then show ?thesis
  proof cases
    case 1
    then show ?thesis by (simp add: errand_effect_refl)
  next
    case 2
    have last: "errands db' = errands db1" using 2(3) by (auto simp: insertAttempt_def bindE_eq_Inr)
    consider (same) "errands db1 = errands db"
      | (again) tp i where "creditRequest (mapOrder x) = Inr tp"
          "insertOutboxEvent (u 0) now (order_event tp (o_orderId (mapOrder x)) (rn_correlationId input) None) db =
             Inr (i, db1)"
      using 2(2) by (auto simp: repair_order_def bindE_eq_Inr dest: raiseAlert_errands split: repair.splits)
    then show ?thesis
    proof cases
      case same
      with last show ?thesis by (simp add: errand_effect_refl)
    next
      case again
      have "errands db1 = (errands db)\<lparr> er_requests := er_requests (errands db) \<union> awaited x \<rparr>"
        using insertOutboxEvent_errands [OF again(2)]
        unfolding awaited_mapOrder [of x, symmetric] creditRequest_awaited [OF again(1), symmetric] by simp
      with last 2(1) errand_effect.reissued [of "rn_orderId input" "errands db" x e told] show ?thesis by simp
    qed
  qed
qed

end
