(* ===== verification/Order_Invariants.thy ===== *)
theory Order_Invariants
  imports Order_Effects
begin

text \<open>
  What holds of the errands in every state of the Order Service: each row has the shape its
  status calls for, its history replays to its status and version along the transition table,
  completed errands and receipts correspond one to one, and every credit request written is one
  its errand had reason to make. Each part is shown to be kept by every case of
  \<open>errand_effect\<close>.
\<close>

section \<open>The shape of an errand\<close>

definition stage_shape :: "stored_order \<Rightarrow> bool" where
  "stage_shape x \<longleftrightarrow>
     (o_status x \<in> {PENDING_CREDIT, REJECTED, OPEN} \<longrightarrow> o_courierId x = None) \<and>
     (o_status x = OPEN \<longrightarrow> o_acceptanceDeadlineAt x \<noteq> None) \<and>
     (o_status x = ACCEPTED \<longrightarrow> o_acceptanceDeadlineAt x \<noteq> None \<and> o_acceptedAt x \<noteq> None) \<and>
     (o_status x \<in> {PICKED_UP, DELIVERED, DISPUTED, COMPLETION_PENDING_CREDIT, COMPLETED} \<longrightarrow>
        o_acceptedAt x \<noteq> None \<and> o_pickedUpAt x \<noteq> None) \<and>
     (o_status x \<in> {COMPLETION_PENDING_CREDIT, COMPLETED} \<longrightarrow> o_completionRequestedAt x \<noteq> None)"

definition release_shape :: "stored_order \<Rightarrow> bool" where
  "release_shape x \<longleftrightarrow>
     (o_status x = RELEASE_PENDING_CREDIT \<longrightarrow> o_releaseReason x \<noteq> None) \<and>
     (o_status x \<in> {CANCELLED, EXPIRED} \<longrightarrow> o_releaseReason x = Some (o_status x)) \<and>
     (o_status x \<notin> {RELEASE_PENDING_CREDIT, CANCELLED, EXPIRED} \<longrightarrow> o_releaseReason x = None) \<and>
     (o_creditTransactionId x \<noteq> None \<longleftrightarrow> o_status x \<in> {COMPLETED, CANCELLED, EXPIRED})"

definition order_ok :: "stored_order \<Rightarrow> bool" where
  "order_ok x \<longleftrightarrow> checked x \<and> stage_shape x \<and> release_shape x \<and> o_courierId x \<noteq> Some (o_requesterId x)"

lemma checked_status:
  assumes "checked x"
  shows "o_status x \<in> {ACCEPTED, PICKED_UP, DELIVERED, DISPUTED, COMPLETION_PENDING_CREDIT, COMPLETED} \<Longrightarrow>
           o_courierId x \<noteq> None"
    and "o_releaseReason x \<in> {None, Some CANCELLED, Some EXPIRED}"
    and "o_status x = COMPLETED \<Longrightarrow> o_completedAt x \<noteq> None \<and> o_creditTransactionId x \<noteq> None"
    and "o_status x = PICKED_UP \<Longrightarrow> o_nonDeliveryReportAt x \<noteq> None"
    and "o_status x = DELIVERED \<Longrightarrow> o_autoConfirmAt x \<noteq> None"
    and "1 \<le> o_reward x" and "o_reward x \<le> 5" and "1 \<le> o_version x"
  using assms by (auto simp: checked_def constraints_Inr order_checks_def)

definition keeps_shape ::
  "order_env \<Rightarrow> order_status \<Rightarrow> order_action \<Rightarrow> order_actor \<Rightarrow> transition_context \<Rightarrow> transition_decision \<Rightarrow> bool" where
  "keeps_shape e src a w c d \<longleftrightarrow>
     (\<forall>x t stamps patch.
        o_status x = src \<longrightarrow> ctx_releaseReason c = o_releaseReason x \<longrightarrow> stage_shape x \<longrightarrow> release_shape x \<longrightarrow>
        d_to d \<noteq> ACCEPTED \<longrightarrow>
        timestampPatch e a d t (mapOrder x) = Inr stamps \<longrightarrow> lawful_patch a patch \<longrightarrow>
        stage_shape (set_columns (transition_patch d (o_version x) t stamps patch) x) \<and>
        release_shape (set_columns (transition_patch d (o_version x) t stamps patch) x) \<and>
        o_courierId (set_columns (transition_patch d (o_version x) t stamps patch) x) \<in> {o_courierId x, None})"

lemma decisions_keep_shape: "decideTransition src a w c = Some d \<Longrightarrow> keeps_shape e src a w c d"
  apply (rule decision_by_rule, assumption)
  apply (simp only: ORDER_TRANSITIONS_def list.pred_inject rule_fact_rule simp_thms option.case)
  apply (intro conjI impI)
  apply (simp_all only: keeps_shape_def)
  apply (intro allI impI; clarsimp simp: timestampPatch_def lawful_patch_def transition_patch_def
      stage_shape_def release_shape_def Let_def split: option.splits)+
  done

section \<open>Replaying a history\<close>

text \<open>
  An errand's status and version as its history tells them: nothing before it was created, then
  one rule of the transition table after another, each by an actor the rule names.
\<close>

definition no_context :: transition_context where
  "no_context = \<lparr> acceptanceDeadlinePassed = False, deliveryPeriodPassed = False,
     autoConfirmationPeriodPassed = False, requesterSuspended = False, reasonProvided = False,
     ctx_releaseReason = None \<rparr>"

definition rule_records :: "order_status \<Rightarrow> history_row \<Rightarrow> transition_rule \<Rightarrow> bool" where
  "rule_records src h r \<longleftrightarrow>
     r_from r = src \<and> h_action h = Did (r_action r) \<and>
     h_actorType h \<in> HISTORY_ACTOR ` set (r_actors r) \<and> d_to (r_decide r no_context) = h_newStatus h"

fun replay_row :: "(order_status \<times> int) option \<Rightarrow> history_row \<Rightarrow> (order_status \<times> int) option option" where
  "replay_row None h =
     (if h_previousStatus h = None \<and> h_action h = CREATE \<and> h_newStatus h = PENDING_CREDIT \<and> h_orderVersion h = 1
      then Some (Some (PENDING_CREDIT, 1)) else None)"
| "replay_row (Some (src, v)) h =
     (if h_previousStatus h = Some src \<and> h_orderVersion h = v + 1 \<and>
         list_ex (rule_records src h) ORDER_TRANSITIONS
      then Some (Some (h_newStatus h, v + 1)) else None)"

fun replay :: "(order_status \<times> int) option \<Rightarrow> history_row list \<Rightarrow> (order_status \<times> int) option option" where
  "replay st [] = Some st"
| "replay st (h # hs) = (case replay_row st h of None \<Rightarrow> None | Some st' \<Rightarrow> replay st' hs)"

lemma replay_append:
  "replay st (hs @ [h]) = (case replay st hs of None \<Rightarrow> None | Some st' \<Rightarrow> replay_row st' h)"
  by (induction hs arbitrary: st) (simp_all split: option.splits)

lemma decide_ignores_context:
  "r \<in> set ORDER_TRANSITIONS \<Longrightarrow> r_decide r c = r_decide r c'"
  by (auto simp: ORDER_TRANSITIONS_def)

lemma decision_recorded:
  assumes "decideTransition src a w c = Some d" and "records h x x' a w"
    and "o_status x = src" and "o_status x' = d_to d"
  shows "list_ex (rule_records src h) ORDER_TRANSITIONS"
proof -
  from assms(1) obtain r where find: "find (rule_applies src a w c) ORDER_TRANSITIONS = Some r"
    and d: "d = r_decide r c"
    by (auto simp: decideTransition_def)
  then have r: "r \<in> set ORDER_TRANSITIONS" "rule_applies src a w c r"
    by (auto simp: find_Some_iff in_set_conv_nth)
  with decide_ignores_context [of r c no_context] assms(2-4) d have "rule_records src h r"
    by (auto simp: rule_records_def records_def rule_applies_def)
  with r(1) show ?thesis by (auto simp: list_ex_iff)
qed

lemma recorded_replays:
  assumes "decideTransition (o_status x) a w c = Some d" and "records h x x' a w"
    and "o_status x' = d_to d" and "o_version x' = o_version x + 1"
  shows "replay_row (Some (o_status x, o_version x)) h = Some (Some (o_status x', o_version x'))"
  using decision_recorded [OF assms(1,2) refl assms(3)] assms(2,4) by (simp add: records_def)

section \<open>The invariant\<close>

definition life_of :: "errands \<Rightarrow> ident \<Rightarrow> history_row list" where
  "life_of s i = filter (\<lambda>h. h_orderId h = i) (er_history s)"

definition orders_ok :: "errands \<Rightarrow> bool" where
  "orders_ok s \<longleftrightarrow> distinct (map o_orderId (er_orders s)) \<and> (\<forall>x \<in> set (er_orders s). order_ok x)"

definition histories_ok :: "errands \<Rightarrow> bool" where
  "histories_ok s \<longleftrightarrow>
     (\<forall>x \<in> set (er_orders s). replay None (life_of s (o_orderId x)) = Some (Some (o_status x, o_version x))) \<and>
     h_orderId ` set (er_history s) \<subseteq> o_orderId ` set (er_orders s)"

definition receipts_ok :: "errands \<Rightarrow> bool" where
  "receipts_ok s \<longleftrightarrow>
     distinct (map rc_orderId (er_receipts s)) \<and>
     set (er_receipts s) = (\<lambda>x. receipt_of (mapOrder x)) ` {x \<in> set (er_orders s). o_status x = COMPLETED}"

text \<open>Why an errand may have asked Credit for this.\<close>

definition request_ok :: "event_type \<Rightarrow> payload \<Rightarrow> stored_order \<Rightarrow> bool" where
  "request_ok ty p x \<longleftrightarrow>
     (ty = CREDIT_RESERVATION_REQUESTED \<and>
        p = CreditReservationRequestedPayload (o_orderId x) (o_requesterId x) (o_reward x)) \<or>
     (ty = ORDER_COMPLETION_REQUESTED \<and> o_status x \<in> {COMPLETION_PENDING_CREDIT, COMPLETED} \<and>
        p = OrderCompletionRequestedPayload (o_orderId x) (o_requesterId x) (o_reward x) (the (o_courierId x))) \<or>
     (ty = CREDIT_RELEASE_REQUESTED \<and> o_status x \<in> {RELEASE_PENDING_CREDIT, CANCELLED, EXPIRED} \<and>
        p = CreditReleaseRequestedPayload (o_orderId x) (o_requesterId x) (o_reward x))"

definition requests_ok :: "errands \<Rightarrow> bool" where
  "requests_ok s \<longleftrightarrow>
     (\<forall>(ty, i, p) \<in> er_requests s. \<exists>x \<in> set (er_orders s). o_orderId x = i \<and> request_ok ty p x)"

definition errands_ok :: "errands \<Rightarrow> bool" where
  "errands_ok s \<longleftrightarrow> orders_ok s \<and> histories_ok s \<and> receipts_ok s \<and> requests_ok s"

lemma awaited_ok: "(ty, i, p) \<in> awaited x \<Longrightarrow> i = o_orderId x \<and> request_ok ty p x"
  by (auto simp: awaited_def request_ok_def split: order_status.splits)

text \<open>A move keeps the reasons for the requests already made, and never leaves a final status.\<close>

definition keeps_requests ::
  "order_env \<Rightarrow> order_status \<Rightarrow> order_action \<Rightarrow> order_actor \<Rightarrow> transition_context \<Rightarrow> transition_decision \<Rightarrow> bool" where
  "keeps_requests e src a w c d \<longleftrightarrow>
     (\<forall>x t stamps patch ty p.
        o_status x = src \<longrightarrow> timestampPatch e a d t (mapOrder x) = Inr stamps \<longrightarrow> lawful_patch a patch \<longrightarrow>
        request_ok ty p x \<longrightarrow>
        request_ok ty p (set_columns (transition_patch d (o_version x) t stamps patch) x))"

lemma decisions_keep_requests: "decideTransition src a w c = Some d \<Longrightarrow> keeps_requests e src a w c d"
  apply (rule decision_by_rule, assumption)
  apply (simp only: ORDER_TRANSITIONS_def list.pred_inject rule_fact_rule simp_thms option.case)
  apply (intro conjI impI)
  apply (simp_all only: keeps_requests_def)
  apply (intro allI impI; clarsimp simp: timestampPatch_def lawful_patch_def transition_patch_def
      request_ok_def Let_def split: option.splits)+
  done

lemma decision_source:
  "decideTransition src a w c = Some d \<Longrightarrow>
     src \<noteq> COMPLETED \<and> (d_to d = COMPLETED \<longleftrightarrow> a = TRANSFER_CONFIRMED) \<and> (d_to d = ACCEPTED \<longleftrightarrow> a = ACCEPT) \<and>
     (a = ACCEPT \<longrightarrow> src = OPEN)"
  by (rule decision_by_rule, assumption) (simp add: each_rule)

section \<open>Every effect keeps it\<close>

text \<open>
  The next version of one errand: its row replaced, one history row that replays from the old
  status and version to the new, and a receipt exactly when it completes.
\<close>

lemma next_version:
  fixes x :: stored_order
  assumes ok: "errands_ok s" and row: "row_of o_orderId i (er_orders s) = Some x"
    and f_id: "\<And>r. o_orderId (f r) = o_orderId r"
    and good: "order_ok (f x)" and h_id: "h_orderId h = i"
    and replays: "replay_row (Some (o_status x, o_version x)) h = Some (Some (o_status (f x), o_version (f x)))"
    and open_end: "o_status x \<noteq> COMPLETED"
    and receipts: "rs = (if o_status (f x) = COMPLETED then [receipt_of (mapOrder (f x))] else [])"
    and fresh: "o_status (f x) = COMPLETED \<Longrightarrow> i \<notin> rc_orderId ` set (er_receipts s)"
    and requests: "\<And>ty p. request_ok ty p x \<Longrightarrow> request_ok ty p (f x)"
    and asked: "q \<subseteq> er_requests s \<union> awaited (f x)"
  shows "errands_ok (s\<lparr> er_orders := change_order i f (er_orders s), er_history := er_history s @ [h],
                        er_receipts := er_receipts s @ rs, er_requests := q \<rparr>)"
    (is "errands_ok ?s")
proof -
  have dist: "distinct (map o_orderId (er_orders s))" and each: "\<forall>y \<in> set (er_orders s). order_ok y"
    using ok by (auto simp: errands_ok_def orders_ok_def)
  have x: "x \<in> set (er_orders s)" "o_orderId x = i" using row_of_Some [OF row] by auto
  have set': "set (er_orders ?s) = insert (f x) (set (er_orders s) - {x})"
    using set_update_rows_key [OF dist x(1), of f] x(2) by simp
  have other: "o_orderId y \<noteq> i" if "y \<in> set (er_orders s) - {x}" for y
    using that x dist by (auto simp: distinct_map dest: inj_onD)
  have ids: "map o_orderId (er_orders ?s) = map o_orderId (er_orders s)" using f_id by simp
  then have ids': "o_orderId ` set (er_orders ?s) = o_orderId ` set (er_orders s)" by (metis list.set_map)
  have 1: "orders_ok ?s" unfolding orders_ok_def ids set' using dist each good by simp
  have life_x: "replay None (life_of ?s (o_orderId (f x))) = Some (Some (o_status (f x), o_version (f x)))"
  proof -
    have "life_of ?s (o_orderId (f x)) = life_of s (o_orderId x) @ [h]"
      using f_id x(2) h_id by (simp add: life_of_def)
    with ok x(1) replays show ?thesis
      by (simp add: replay_append errands_ok_def histories_ok_def)
  qed
  have 2: "histories_ok ?s"
    unfolding histories_ok_def set'
  proof (intro conjI ballI)
    fix y assume y: "y \<in> insert (f x) (set (er_orders s) - {x})"
    show "replay None (life_of ?s (o_orderId y)) = Some (Some (o_status y, o_version y))"
    proof (cases "y = f x")
      case False
      with y other have "y \<in> set (er_orders s)" "o_orderId y \<noteq> i" by auto
      with ok h_id show ?thesis by (simp add: life_of_def errands_ok_def histories_ok_def)
    qed (simp add: life_x)
  next
    show "h_orderId ` set (er_history ?s) \<subseteq> o_orderId ` insert (f x) (set (er_orders s) - {x})"
      unfolding ids' [unfolded set'] using ok x h_id by (auto simp: errands_ok_def histories_ok_def)
  qed
  have done_x: "{y \<in> set (er_orders ?s). o_status y = COMPLETED} =
      {y \<in> set (er_orders s). o_status y = COMPLETED} \<union> (if o_status (f x) = COMPLETED then {f x} else {})"
    unfolding set' using open_end by auto
  have 3: "receipts_ok ?s"
    unfolding receipts_ok_def done_x
    using ok fresh x f_id by (auto simp: receipts errands_ok_def receipts_ok_def receipt_of_def)
  have 4: "requests_ok ?s"
    unfolding requests_ok_def
  proof (intro ballI, clarify)
    fix ty j p assume "(ty, j, p) \<in> er_requests ?s"
    with asked consider (before) "(ty, j, p) \<in> er_requests s" | (new) "(ty, j, p) \<in> awaited (f x)" by auto
    then show "\<exists>y \<in> set (er_orders ?s). o_orderId y = j \<and> request_ok ty p y"
    proof cases
      case before
      with ok obtain y where "y \<in> set (er_orders s)" "o_orderId y = j" "request_ok ty p y"
        by (auto simp: errands_ok_def requests_ok_def)
      with requests f_id show ?thesis unfolding set' by (cases "y = x") auto
    next
      case new
      with awaited_ok [OF new] show ?thesis unfolding set' by auto
    qed
  qed
  from 1 2 3 4 show ?thesis by (simp add: errands_ok_def)
qed

lemma acceptance_decided:
  "decideTransition OPEN ACCEPT OTHER_STUDENT no_context =
     Some \<lparr> d_to = ACCEPTED, d_releaseReason = None, d_emitted = [ORDER_STATUS_CHANGED] \<rparr>"
  by (simp add: decideTransition_def ORDER_TRANSITIONS_def rule_applies_def no_context_def statusChanged_def)

lemma accepted_keeps:
  assumes ok: "errands_ok s" and row: "row_of o_orderId i (er_orders s) = Some x"
    and acc: "acceptable courier (o_version x) now x" and chk: "checked (taken_by courier now x)"
    and h: "records h x (taken_by courier now x) ACCEPT OTHER_STUDENT"
  shows "errands_ok (s\<lparr> er_orders := change_order i (taken_by courier now) (er_orders s),
                        er_history := er_history s @ [h] \<rparr>)"
proof -
  have x: "x \<in> set (er_orders s)" "o_orderId x = i" using row_of_Some [OF row] by auto
  with ok have okx: "order_ok x" by (auto simp: errands_ok_def orders_ok_def)
  have open_x: "o_status x = OPEN" using acc by (simp add: acceptable_def)
  have good: "order_ok (taken_by courier now x)"
    using okx chk acc open_x
    by (auto simp: order_ok_def stage_shape_def release_shape_def taken_by_def acceptable_def)
  have dec: "decideTransition (o_status x) ACCEPT OTHER_STUDENT no_context =
      Some \<lparr> d_to = ACCEPTED, d_releaseReason = None, d_emitted = [ORDER_STATUS_CHANGED] \<rparr>"
    using acceptance_decided open_x by simp
  have replays: "replay_row (Some (o_status x, o_version x)) h =
      Some (Some (o_status (taken_by courier now x), o_version (taken_by courier now x)))"
    by (rule recorded_replays [OF dec h]) (simp_all add: taken_by_def)
  have "errands_ok (s\<lparr> er_orders := change_order i (taken_by courier now) (er_orders s),
      er_history := er_history s @ [h], er_receipts := er_receipts s @ [], er_requests := er_requests s \<rparr>)"
  proof (rule next_version [where f = "taken_by courier now", OF ok row _ good _ replays])
    show "request_ok ty p (taken_by courier now x)" if "request_ok ty p x" for ty p
      using that open_x by (auto simp: request_ok_def taken_by_def)
  qed (use open_x h x in \<open>auto simp: taken_by_def records_def\<close>)
  then show ?thesis by simp
qed

lemma moved_keeps:
  assumes ok: "errands_ok s" and row: "row_of o_orderId i (er_orders s) = Some x"
    and decided: "decideTransition (o_status x) a w c = Some d"
    and reason: "ctx_releaseReason c = o_releaseReason x"
    and stamps: "timestampPatch e a d t (mapOrder x) = Inr stamps" and lawful: "lawful_patch a patch"
    and f: "f = set_columns (transition_patch d (o_version x) t stamps patch)" and chk: "checked (f x)"
    and h: "records h x (f x) a w"
    and rs: "rs = (if a = TRANSFER_CONFIRMED then [receipt_of (mapOrder (f x))] else [])"
    and fresh: "a = TRANSFER_CONFIRMED \<Longrightarrow>
       rc_orderId (receipt_of (mapOrder (f x))) \<notin> rc_orderId ` set (er_receipts s)"
  shows "errands_ok (s\<lparr> er_orders := change_order i f (er_orders s), er_history := er_history s @ [h],
           er_receipts := er_receipts s @ rs, er_requests := er_requests s \<union> awaited (f x) \<rparr>)"
proof -
  have x: "x \<in> set (er_orders s)" "o_orderId x = i" using row_of_Some [OF row] by auto
  with ok have okx: "order_ok x" by (auto simp: errands_ok_def orders_ok_def)
  note src = decision_source [OF decided]
  have status: "o_status (f x) = d_to d" and version: "o_version (f x) = o_version x + 1"
    unfolding f by (rule moved_row [OF stamps lawful])+
  have not_accept: "d_to d \<noteq> ACCEPTED"
  proof
    assume to: "d_to d = ACCEPTED"
    with src have "a = ACCEPT" "o_status x = OPEN" by auto
    with stamps lawful have "o_courierId (f x) = o_courierId x"
      by (auto simp: f transition_patch_def timestampPatch_def lawful_patch_def Let_def to split: option.splits)
    with okx \<open>o_status x = OPEN\<close> have "o_courierId (f x) = None" by (simp add: order_ok_def stage_shape_def)
    with checked_status(1) [OF chk] status to show False by simp
  qed
  have shape: "stage_shape (f x) \<and> release_shape (f x) \<and> o_courierId (f x) \<in> {o_courierId x, None}"
    using decisions_keep_shape [OF decided, of e] okx reason not_accept stamps lawful
    unfolding keeps_shape_def f order_ok_def by blast
  have good: "order_ok (f x)" using shape chk okx by (auto simp: order_ok_def f)
  show ?thesis
  proof (rule next_version [where f = f, OF ok row _ good _ recorded_replays [OF decided h status version]])
    show "rs = (if o_status (f x) = COMPLETED then [receipt_of (mapOrder (f x))] else [])"
      using rs src status by auto
    show "i \<notin> rc_orderId ` set (er_receipts s)" if "o_status (f x) = COMPLETED"
      using fresh that src status x(2) by (simp add: receipt_of_def f)
    show "request_ok ty p (f x)" if "request_ok ty p x" for ty p
      using decisions_keep_requests [OF decided, of e] stamps lawful that
      unfolding keeps_requests_def f by blast
  qed (use src h x in \<open>auto simp: f records_def\<close>)
qed

lemma created_keeps:
  assumes ok: "errands_ok s" and x: "x = new_order i t input" and new: "i \<notin> o_orderId ` set (er_orders s)"
    and chk: "checked x" and h: "h_orderId h = i" "h_previousStatus h = None"
      "h_newStatus h = PENDING_CREDIT" "h_action h = CREATE" "h_orderVersion h = 1"
  shows "errands_ok (s\<lparr> er_orders := er_orders s @ [x], er_history := er_history s @ [h],
           er_requests := er_requests s \<union> awaited x \<rparr>)" (is "errands_ok ?s")
proof -
  have x_id: "o_orderId x = i" "o_status x = PENDING_CREDIT" "o_version x = 1" by (simp_all add: x new_order_def)
  have 1: "orders_ok ?s"
    using ok new x_id chk
    by (auto simp: errands_ok_def orders_ok_def order_ok_def stage_shape_def release_shape_def x new_order_def)
  have unborn: "life_of s i = []"
    using ok new by (force simp: life_of_def filter_empty_conv errands_ok_def histories_ok_def)
  have 2: "histories_ok ?s"
    using ok new h x_id unborn by (auto simp: errands_ok_def histories_ok_def life_of_def)
  have 3: "receipts_ok ?s"
  proof -
    have "{y \<in> set (er_orders ?s). o_status y = COMPLETED} = {y \<in> set (er_orders s). o_status y = COMPLETED}"
      using x_id by auto
    with ok show ?thesis by (simp add: errands_ok_def receipts_ok_def)
  qed
  have 4: "requests_ok ?s"
    using ok awaited_ok [of _ _ _ x] by (fastforce simp: errands_ok_def requests_ok_def)
  from 1 2 3 4 show ?thesis by (simp add: errands_ok_def)
qed

lemma marked_keeps:
  assumes ok: "errands_ok s"
  shows "errands_ok (s\<lparr> er_orders := update_rows p (\<lambda>x. x\<lparr> requester_suspended_at := v \<rparr>) (er_orders s) \<rparr>)"
    (is "errands_ok ?s")
proof -
  define g where "g = (\<lambda>x. if p x then x\<lparr> requester_suspended_at := v \<rparr> else x)"
  have set': "set (er_orders ?s) = g ` set (er_orders s)" by (simp add: set_update_rows g_def)
  have same: "order_ok (g x) = order_ok x" "o_status (g x) = o_status x" "o_version (g x) = o_version x"
    "o_orderId (g x) = o_orderId x" "mapOrder (g x) = mapOrder x" "request_ok ty q (g x) = request_ok ty q x"
    for x ty q
    by (auto simp: g_def order_ok_def checked_def order_checks_def stage_shape_def release_shape_def
        mapOrder_def request_ok_def)
  have ids: "map o_orderId (er_orders ?s) = map o_orderId (er_orders s)" by simp
  have 1: "orders_ok ?s" using ok unfolding orders_ok_def ids set' by (simp add: errands_ok_def orders_ok_def same)
  have 2: "histories_ok ?s"
    using ok unfolding histories_ok_def set'
    by (simp add: errands_ok_def histories_ok_def same life_of_def image_image)
  have 3: "receipts_ok ?s"
  proof -
    have "{y \<in> set (er_orders ?s). o_status y = COMPLETED} = g ` {y \<in> set (er_orders s). o_status y = COMPLETED}"
      unfolding set' using same(2) by auto
    with ok same(5) show ?thesis by (simp add: errands_ok_def receipts_ok_def image_image)
  qed
  have 4: "requests_ok ?s"
    using ok unfolding requests_ok_def set' by (simp add: errands_ok_def requests_ok_def same)
  from 1 2 3 4 show ?thesis by (simp add: errands_ok_def)
qed

lemma requests_keep:
  assumes "errands_ok s" and "er_orders s' = er_orders s" and "er_history s' = er_history s"
    and "er_receipts s' = er_receipts s"
    and "\<And>ty i p. (ty, i, p) \<in> er_requests s' - er_requests s \<Longrightarrow>
           \<exists>x \<in> set (er_orders s). o_orderId x = i \<and> request_ok ty p x"
  shows "errands_ok s'"
proof -
  have "requests_ok s'"
    unfolding requests_ok_def assms(2)
  proof (intro ballI, clarify)
    fix ty i p assume q: "(ty, i, p) \<in> er_requests s'"
    show "\<exists>x \<in> set (er_orders s). o_orderId x = i \<and> request_ok ty p x"
    proof (cases "(ty, i, p) \<in> er_requests s")
      case True
      with assms(1) show ?thesis by (auto simp: errands_ok_def requests_ok_def)
    next
      case False
      with q assms(5) show ?thesis by blast
    qed
  qed
  with assms(1-4) show ?thesis
    by (simp add: errands_ok_def orders_ok_def histories_ok_def receipts_ok_def life_of_def)
qed

theorem errand_effect_keeps: "errand_effect e told s s' \<Longrightarrow> errands_ok s \<Longrightarrow> errands_ok s'"
proof (induction rule: errand_effect.induct)
  case (unchanged s' s)
  then show ?case using requests_keep [of s s'] by blast
next
  case (created x i t input s h)
  then show ?case using created_keeps [of s x i t input h] by blast
next
  case (accepted i s x courier now x' h)
  then show ?case using accepted_keeps by blast
next
  case (moved i s x a w c d t stamps patch f x' h rs)
  then show ?case using moved_keeps [of s i x a w c d e t stamps patch f h rs] by blast
next
  case (marked s p v)
  then show ?case by (rule marked_keeps)
next
  case (reissued i s x)
  have "x \<in> set (er_orders s)" using row_of_Some [OF reissued(1)] by simp
  then show ?case using awaited_ok [of _ _ _ x] by (intro requests_keep [OF reissued(2)]) auto
qed

end
