(* ===== verification/Order_Service.thy ===== *)
theory Order_Service
  imports Order_Repository
begin

text \<open>
  The Order Service's request handling (order-service/src/orders/orders.service.ts and
  validation.ts): what a caller may see of an errand, the commands with their refusals and their
  idempotency keys, and the checks on what a request may say.

  A handler takes the tables as they are when it runs and returns its answer or error with the
  tables after it. A read that a handler makes before its transaction is of tables \<open>seen\<close> that
  may be older. The request fingerprint is the parameter \<open>hashRequest\<close> (SHA-256 of the
  canonical JSON); the opaque encoding of a page cursor is left out.
\<close>

section \<open>Projections\<close>

record auth_context =
  ac_userId :: ident
  ac_isAdmin :: bool

text \<open>A field the source leaves out of the object is \<open>None\<close>.\<close>

record order_view =
  ov_orderId :: ident
  ov_supplier :: supplier_snapshot
  ov_items :: "order_item list"
  ov_deliveryZone :: string
  ov_reward :: int
  ov_status :: order_status
  ov_version :: int
  ov_acceptanceDeadlineAt :: "time option"
  ov_createdAt :: time
  ov_updatedAt :: time
  ov_serverTime :: time
  ov_requesterId :: "ident option"
  ov_courierId :: "ident option"
  ov_deliveryInstructions :: "string option"
  ov_nonDeliveryReportAt :: "time option"
  ov_autoConfirmAt :: "time option"
  ov_releaseReason :: "order_status option"
  ov_rejection :: "(string \<times> int option) option"

definition without_note :: "order_item \<Rightarrow> order_item" where
  "without_note i = i\<lparr> it_note := None \<rparr>"

text \<open>An empty string is as good as none to a JavaScript condition.\<close>

definition truthy :: "string option \<Rightarrow> string option" where
  "truthy s = (if s = Some [] then None else s)"

definition canReadPrivate :: "order_row \<Rightarrow> auth_context \<Rightarrow> bool" where
  "canReadPrivate x caller \<longleftrightarrow>
     ac_userId caller = o_requesterId x \<or> Some (ac_userId caller) = o_courierId x \<or>
     (ac_isAdmin caller \<and> Some (ac_userId caller) = o_referredAdminId x)"

definition projectOrder :: "time \<Rightarrow> order_row \<Rightarrow> auth_context \<Rightarrow> order_view option" where
  "projectOrder clock x caller =
     (let isRequester = (ac_userId caller = o_requesterId x);
          isReferredAdmin = (ac_isAdmin caller \<and> Some (ac_userId caller) = o_referredAdminId x);
          private = canReadPrivate x caller
      in if (o_status x = PENDING_CREDIT \<or> o_status x = REJECTED) \<and> \<not> isRequester \<and> \<not> isReferredAdmin
         then None
         else Some
           \<lparr> ov_orderId = o_orderId x, ov_supplier = o_supplierSnapshot x,
             ov_items = (if private then o_items x else map without_note (o_items x)),
             ov_deliveryZone = o_deliveryZone x, ov_reward = o_reward x, ov_status = o_status x,
             ov_version = o_version x, ov_acceptanceDeadlineAt = o_acceptanceDeadlineAt x,
             ov_createdAt = o_createdAt x, ov_updatedAt = o_updatedAt x, ov_serverTime = iso clock,
             ov_requesterId = (if private then Some (o_requesterId x) else None),
             ov_courierId = (if private then truthy (o_courierId x) else None),
             ov_deliveryInstructions = (if private then Some (o_deliveryInstructions x) else None),
             ov_nonDeliveryReportAt =
               (if private \<and> o_status x = PICKED_UP then o_nonDeliveryReportAt x else None),
             ov_autoConfirmAt = (if private \<and> o_status x = DELIVERED then o_autoConfirmAt x else None),
             ov_releaseReason =
               (if private \<and> o_status x = RELEASE_PENDING_CREDIT then o_releaseReason x else None),
             ov_rejection =
               (if o_status x = REJECTED \<and> private
                then map_option (\<lambda>r. (r, o_availableAtRejection x)) (truthy (o_rejectionReason x))
                else None) \<rparr>)"

definition publicOrderView :: "time \<Rightarrow> order_row \<Rightarrow> order_view" where
  "publicOrderView clock x =
     \<lparr> ov_orderId = o_orderId x, ov_supplier = o_supplierSnapshot x,
       ov_items = map without_note (o_items x), ov_deliveryZone = o_deliveryZone x,
       ov_reward = o_reward x, ov_status = o_status x, ov_version = o_version x,
       ov_acceptanceDeadlineAt = o_acceptanceDeadlineAt x, ov_createdAt = o_createdAt x,
       ov_updatedAt = o_updatedAt x, ov_serverTime = iso clock, ov_requesterId = None,
       ov_courierId = None, ov_deliveryInstructions = None, ov_nonDeliveryReportAt = None,
       ov_autoConfirmAt = None, ov_releaseReason = None, ov_rejection = None \<rparr>"

definition notFound :: service_error where
  "notFound = ApiException 404 ''NOT_FOUND'' No_details"

definition idempotencyReused :: service_error where
  "idempotencyReused = ApiException 422 ''IDEMPOTENCY_KEY_REUSED'' No_details"

definition details_of :: "order_row \<Rightarrow> api_details" where
  "details_of x = Order_details (o_status x) (o_version x)"

section \<open>History as participants see it\<close>

definition SUSPENSION_REASONS :: "string set" where
  "SUSPENSION_REASONS =
     {se_reason (SUSPENSION_EFFECTS Part_REQUESTER), se_reason (SUSPENSION_EFFECTS Part_COURIER)}"

definition asParticipantSees :: "history_entry \<Rightarrow> history_entry" where
  "asParticipantSees entry =
     (let creditForSuspension =
            (he_actorType entry = Hist_CREDIT_SERVICE \<and> is_true (\<lambda>r. r \<in> SUSPENSION_REASONS) (he_reason entry))
      in if he_actorType entry \<noteq> Hist_SYSTEM \<and> \<not> creditForSuspension then entry
         else entry\<lparr> he_action := SYSTEM_OUTCOME, he_actorType := Hist_SYSTEM, he_actorId := None,
                     he_reason := None \<rparr>)"

section \<open>Reads\<close>

definition listMineViews ::
  "time \<Rightarrow> auth_context \<Rightarrow> mine_query \<Rightarrow> order_db
     \<Rightarrow> (order_view \<times> participant) list \<times> (time \<times> ident) option" where
  "listMineViews clock caller q db =
     (let (rows, nxt) = listMine (ac_userId caller) q db
      in (concat (map (\<lambda>x. case projectOrder clock x caller of
              None \<Rightarrow> []
            | Some view \<Rightarrow>
                [(view, if o_requesterId x = ac_userId caller then Part_REQUESTER else Part_COURIER)]) rows),
          nxt))"

definition listForAdminViews ::
  "time \<Rightarrow> admin_filter \<Rightarrow> nat \<Rightarrow> nat \<Rightarrow> order_db \<Rightarrow> order_view list \<times> nat" where
  "listForAdminViews clock f page pageSize db =
     (let (rows, total) = listForAdmin f page pageSize db in (map (publicOrderView clock) rows, total))"

definition getById ::
  "time \<Rightarrow> ident \<Rightarrow> auth_context \<Rightarrow> bool \<Rightarrow> order_db \<Rightarrow> service_error + order_view" where
  "getById clock i caller privateView db =
     (case findByIdUsing db i of
        None \<Rightarrow> Inl notFound
      | Some x \<Rightarrow>
          (case projectOrder clock x caller of
             None \<Rightarrow> Inl notFound
           | Some view \<Rightarrow>
               if privateView \<and> truthy (ov_deliveryInstructions view) = None
               then Inl (ApiException 403 ''PRIVATE_ORDER_FORBIDDEN'' No_details)
               else Inr view))"

text \<open>The check \<open>history\<close> and \<open>receipt\<close> begin with: the errand, if the caller may read it in private.\<close>

definition privately :: "time \<Rightarrow> ident \<Rightarrow> auth_context \<Rightarrow> order_db \<Rightarrow> service_error + order_row" where
  "privately clock i caller db =
     (case findByIdUsing db i of
        None \<Rightarrow> Inl notFound
      | Some x \<Rightarrow>
          (case projectOrder clock x caller of
             None \<Rightarrow> Inl notFound
           | Some view \<Rightarrow>
               if truthy (ov_deliveryInstructions view) = None
               then Inl (ApiException 403 ''PRIVATE_ORDER_FORBIDDEN'' No_details)
               else Inr x))"

definition history :: "time \<Rightarrow> ident \<Rightarrow> auth_context \<Rightarrow> order_db \<Rightarrow> service_error + history_entry list" where
  "history clock i caller db =
     bindE (privately clock i caller db) (\<lambda>x.
       let entries = findHistory db i;
           isReferredAdmin = (ac_isAdmin caller \<and> Some (ac_userId caller) = o_referredAdminId x)
       in Inr (if isReferredAdmin then entries else map asParticipantSees entries))"

definition receipt :: "time \<Rightarrow> ident \<Rightarrow> auth_context \<Rightarrow> order_db \<Rightarrow> service_error + receipt_row" where
  "receipt clock i caller db =
     bindE (privately clock i caller db) (\<lambda>_.
       case findReceipt db i of
         None \<Rightarrow> Inl (ApiException 404 ''RECEIPT_NOT_FOUND'' No_details)
       | Some r \<Rightarrow> Inr r)"

definition referred ::
  "time \<Rightarrow> auth_context \<Rightarrow> order_db \<Rightarrow> (order_view \<times> history_action option \<times> bool) list" where
  "referred clock caller db =
     concat (map (\<lambda>(x, referredBy). case projectOrder clock x caller of
         None \<Rightarrow> []
       | Some view \<Rightarrow> [(view, referredBy, o_referredAdminId x = Some (ac_userId caller))])
       (listReferred db (ac_userId caller) 100))"

definition creditWaitExceeded ::
  "time \<Rightarrow> int \<Rightarrow> order_db \<Rightarrow> ((ident \<times> ident \<times> int \<times> time \<times> time option) \<times> int) list" where
  "creditWaitExceeded now creditWaitTimeoutMs db =
     (let t = databaseNow now
      in map (\<lambda>item. (item, (t - fst (snd (snd (snd item)))) div 1000))
           (listCreditWaitExceeded (later t (- creditWaitTimeoutMs)) 100 db))"

section \<open>Commands\<close>

text \<open>What a fingerprint is taken of: a creation, or a command (its reason left out if none).\<close>

record create_order_input =
  ci_supplierId :: ident
  ci_items :: "order_item list"
  ci_deliveryZone :: string
  ci_deliveryInstructions :: string
  ci_reward :: int

datatype request_body =
    Create_body create_order_input
  | Command_body (cb_orderId: ident) order_action int "string option"

text \<open>
  Runs a command, at most once per key. Without a key the command runs in its own transaction,
  and its answer is worked out after that; with one, answering is part of the transaction that
  records the key.
\<close>

definition once ::
  "(request_body \<Rightarrow> string) \<Rightarrow> time \<Rightarrow> time \<Rightarrow> auth_context \<Rightarrow> string option \<Rightarrow> ident \<Rightarrow> request_body
     \<Rightarrow> (order_db \<Rightarrow> (service_error + 'r) \<times> order_db) \<Rightarrow> ('r \<Rightarrow> service_error + order_view)
     \<Rightarrow> (order_db \<Rightarrow> service_error + ('r \<times> order_db))
     \<Rightarrow> order_db \<Rightarrow> (service_error + order_view) \<times> order_db" where
  "once hashRequest clock now caller idempotencyKey i request alone answering inside db =
     (case idempotencyKey of
        None \<Rightarrow> (case alone db of (r, db') \<Rightarrow> (bindE r answering, db'))
      | Some key \<Rightarrow>
          (case transaction (withCommandKey now
              \<lparr> ck_callerId = ac_userId caller, ck_idempotencyKey = key,
                ck_requestHash = hashRequest request, ck_orderId = i \<rparr>
              (\<lambda>tx. bindE (inside tx) (\<lambda>(r, tx'). bindE (answering r) (\<lambda>view. Inr (view, tx'))))) db of
             (Inl e, db') \<Rightarrow> (Inl (if e = IdempotencyKeyReusedError then idempotencyReused else e), db')
           | (Inr (Applied_now view), db') \<Rightarrow> (Inr view, db')
           | (Inr (Replayed x), db') \<Rightarrow>
               (case projectOrder clock x caller of None \<Rightarrow> Inl notFound | Some view \<Rightarrow> Inr view, db')))"

text \<open>The courier's view of the errand they accepted, or why they could not.\<close>

definition answer_acceptance :: "time \<Rightarrow> auth_context \<Rightarrow> acceptance \<Rightarrow> service_error + order_view" where
  "answer_acceptance clock caller attempt =
     (case attempt of
        Accepted x \<Rightarrow> (case projectOrder clock x caller of None \<Rightarrow> Inl notFound | Some view \<Rightarrow> Inr view)
      | Not_accepted None \<Rightarrow> Inl notFound
      | Not_accepted (Some x) \<Rightarrow>
          if projectOrder clock x caller = None then Inl notFound
          else if o_requesterId x = ac_userId caller
          then Inl (ApiException 403 ''SELF_ACCEPTANCE_FORBIDDEN'' No_details)
          else if o_status x \<noteq> OPEN then Inl (ApiException 409 ''ORDER_NOT_OPEN'' (details_of x))
          else if \<not> is_true (\<lambda>d. iso clock < d) (o_acceptanceDeadlineAt x)
          then Inl (ApiException 409 ''ACCEPTANCE_DEADLINE_PASSED'' (details_of x))
          else Inl (ApiException 409 ''ORDER_CHANGED'' (details_of x)))"

definition acceptOrder ::
  "(request_body \<Rightarrow> string) \<Rightarrow> uuids \<Rightarrow> time \<Rightarrow> time \<Rightarrow> ident \<Rightarrow> int \<Rightarrow> auth_context \<Rightarrow> ident
     \<Rightarrow> string option \<Rightarrow> order_db \<Rightarrow> (service_error + order_view) \<times> order_db" where
  "acceptOrder hashRequest u clock now i expectedVersion caller correlation idempotencyKey =
     once hashRequest clock now caller idempotencyKey i (Command_body i ACCEPT expectedVersion None)
       (transaction (acceptUsing u now i (ac_userId caller) expectedVersion correlation))
       (answer_acceptance clock caller)
       (acceptUsing u now i (ac_userId caller) expectedVersion correlation)"

fun DEADLINE_REFUSALS :: "order_action \<Rightarrow> (order_status \<times> string) option" where
  "DEADLINE_REFUSALS REPORT_NON_DELIVERY = Some (PICKED_UP, ''DELIVERY_PERIOD_NOT_PASSED'')"
| "DEADLINE_REFUSALS REPORT_NON_RECEIPT = Some (DELIVERED, ''AUTO_CONFIRMATION_PASSED'')"
| "DEADLINE_REFUSALS _ = None"

definition answer :: "time \<Rightarrow> order_action \<Rightarrow> auth_context \<Rightarrow> transition_result \<Rightarrow> service_error + order_view" where
  "answer clock action caller result =
     (case result of
        Applied x _ \<Rightarrow> (case projectOrder clock x caller of None \<Rightarrow> Inl notFound | Some view \<Rightarrow> Inr view)
      | Not_applied why None \<Rightarrow> Inl notFound
      | Not_applied why (Some x) \<Rightarrow>
          if projectOrder clock x caller = None then Inl notFound
          else if why = FORBIDDEN then Inl (ApiException 403 ''ACTION_FORBIDDEN'' (details_of x))
          else if why = VERSION_CONFLICT then Inl (ApiException 409 ''ORDER_CHANGED'' (details_of x))
          else (case DEADLINE_REFUSALS action of
                  Some (status, code) \<Rightarrow>
                    Inl (ApiException 409 (if status = o_status x then code else ''INVALID_ORDER_STATE'') (details_of x))
                | None \<Rightarrow> Inl (ApiException 409 ''INVALID_ORDER_STATE'' (details_of x))))"

text \<open>The command a participant or administrator sends, with nothing to patch or to write beside it.\<close>

definition user_command ::
  "ident \<Rightarrow> order_action \<Rightarrow> int \<Rightarrow> auth_context \<Rightarrow> ident \<Rightarrow> string option
     \<Rightarrow> (order_row \<Rightarrow> service_error option) \<Rightarrow> transition_command" where
  "user_command i action expectedVersion caller correlation reason verify =
     \<lparr> tc_orderId = i, tc_action = action, tc_actor = USER (ac_userId caller) (ac_isAdmin caller),
       tc_expectedVersion = Some expectedVersion, tc_correlationId = correlation,
       tc_causationId = None, tc_now = None, tc_verify = verify, tc_patch = [], tc_reason = reason,
       tc_requesterSuspended = False, tc_afterApply = no_write \<rparr>"

definition command ::
  "order_env \<Rightarrow> (request_body \<Rightarrow> string) \<Rightarrow> uuids \<Rightarrow> time \<Rightarrow> time \<Rightarrow> ident \<Rightarrow> order_action \<Rightarrow> int
     \<Rightarrow> auth_context \<Rightarrow> ident \<Rightarrow> string option \<Rightarrow> (order_row \<Rightarrow> service_error option) \<Rightarrow> string option
     \<Rightarrow> order_db \<Rightarrow> (service_error + order_view) \<times> order_db" where
  "command e hashRequest u clock now i action expectedVersion caller correlation reason verify idempotencyKey =
     (let cmd = user_command i action expectedVersion caller correlation reason verify
      in once hashRequest clock now caller idempotencyKey i (Command_body i action expectedVersion reason)
           (transition e u now cmd) (answer clock action caller) (transitionUsing e u now cmd))"

record resolve_input =
  rs_outcome :: participant
  rs_reason :: string
  rs_expectedVersion :: int

definition verify_referred :: "auth_context \<Rightarrow> order_row \<Rightarrow> service_error option" where
  "verify_referred caller x =
     (if o_referredAdminId x \<noteq> Some (ac_userId caller)
      then Some (ApiException 403 ''NOT_REFERRED_ADMIN'' (details_of x)) else None)"

text \<open>The errand and its participants are read before the command's own transaction.\<close>

definition resolve ::
  "order_env \<Rightarrow> (request_body \<Rightarrow> string) \<Rightarrow> uuids \<Rightarrow> time \<Rightarrow> time \<Rightarrow> ident \<Rightarrow> resolve_input \<Rightarrow> auth_context
     \<Rightarrow> ident \<Rightarrow> string option \<Rightarrow> order_db \<Rightarrow> order_db \<Rightarrow> order_db \<Rightarrow> (service_error + order_view) \<times> order_db" where
  "resolve e hashRequest u clock now i input caller correlation idempotencyKey seen seen' db =
     (case findByIdUsing seen i of
        None \<Rightarrow> (Inl notFound, db)
      | Some x \<Rightarrow>
          if projectOrder clock x caller = None then (Inl notFound, db)
          else if ac_userId caller \<in> participants seen' i
          then (Inl (ApiException 403 ''CONFLICT_OF_INTEREST'' (details_of x)), db)
          else command e hashRequest u clock now i (RESOLVE_ACTIONS (rs_outcome input))
                 (rs_expectedVersion input) caller correlation (Some (rs_reason input))
                 (verify_referred caller) idempotencyKey db)"

section \<open>Creation\<close>

text \<open>
  \<open>getActive\<close> is the Supplier Service's answer: the snapshot of an active supplier, or the error
  the client makes of anything else.
\<close>

definition createOrder ::
  "(request_body \<Rightarrow> string) \<Rightarrow> (ident \<Rightarrow> service_error + supplier_snapshot) \<Rightarrow> uuids \<Rightarrow> time \<Rightarrow> time
     \<Rightarrow> create_order_input \<Rightarrow> string \<Rightarrow> auth_context \<Rightarrow> ident \<Rightarrow> order_db \<Rightarrow> order_db
     \<Rightarrow> (service_error + (order_view \<times> bool)) \<times> order_db" where
  "createOrder hashRequest getActive u clock now input idempotencyKey caller correlation seen db =
     (let requestHash = hashRequest (Create_body input);
          shown = (\<lambda>x replayed. case projectOrder clock x caller of
                     None \<Rightarrow> Inl notFound | Some view \<Rightarrow> Inr (view, replayed))
      in case findIdempotent seen (ac_userId caller) idempotencyKey of
           Some (hash, x) \<Rightarrow>
             (if hash \<noteq> requestHash then Inl idempotencyReused else shown x True, db)
         | None \<Rightarrow>
             (case getActive (ci_supplierId input) of
                Inl e \<Rightarrow> (Inl e, db)
              | Inr snapshot \<Rightarrow>
                  (case transaction (createPending u clock now
                      \<lparr> cp_items = ci_items input, cp_deliveryZone = ci_deliveryZone input,
                        cp_deliveryInstructions = ci_deliveryInstructions input,
                        cp_reward = ci_reward input, cp_requesterId = ac_userId caller,
                        cp_supplierSnapshot = snapshot, cp_idempotencyKey = idempotencyKey,
                        cp_requestHash = requestHash, cp_correlationId = correlation \<rparr>) db of
                     (Inl e, db') \<Rightarrow>
                       (Inl (if e = IdempotencyKeyReusedError then idempotencyReused else e), db')
                   | (Inr (x, replayed), db') \<Rightarrow> (shown x replayed, db'))))"

section \<open>What a request may say\<close>

text \<open>
  The schemas on values of the right JSON types; \<open>z.string().trim()\<close> keeps the trimmed text. Of
  a failed parse only the status and code are kept, not the list of issues.
\<close>

definition invalid :: service_error where
  "invalid = ApiException 422 ''VALIDATION_FAILED'' No_details"

definition within :: "nat \<Rightarrow> string \<Rightarrow> bool" where
  "within n s \<longleftrightarrow> 1 \<le> length s \<and> length s \<le> n"

definition item_schema :: "order_item \<Rightarrow> order_item option" where
  "item_schema i =
     (let i' = i\<lparr> it_name := trim (it_name i), it_note := map_option trim (it_note i) \<rparr>
      in if within 200 (it_name i') \<and> 1 \<le> it_quantity i' \<and> it_quantity i' \<le> 100 \<and>
            opt_all (within 500) (it_note i')
         then Some i' else None)"

definition parseCreateOrder ::
  "(string \<Rightarrow> bool) \<Rightarrow> create_order_input \<Rightarrow> service_error + create_order_input" where
  "parseCreateOrder uuid v =
     (let items = map item_schema (ci_items v);
          v' = v\<lparr> ci_items := map the items, ci_deliveryZone := trim (ci_deliveryZone v),
                  ci_deliveryInstructions := trim (ci_deliveryInstructions v) \<rparr>
      in if uuid (ci_supplierId v) \<and> None \<notin> set items \<and> 1 \<le> length items \<and> length items \<le> 50 \<and>
            within 200 (ci_deliveryZone v') \<and> within 1000 (ci_deliveryInstructions v') \<and>
            1 \<le> ci_reward v \<and> ci_reward v \<le> 5
         then Inr v' else Inl invalid)"

definition parseAcceptOrder :: "int \<Rightarrow> service_error + int" where
  "parseAcceptOrder expectedVersion = (if positive_int expectedVersion then Inr expectedVersion else Inl invalid)"

definition parseResolveOrder :: "resolve_input \<Rightarrow> service_error + resolve_input" where
  "parseResolveOrder v =
     (let v' = v\<lparr> rs_reason := trim (rs_reason v) \<rparr>
      in if within 500 (rs_reason v') \<and> positive_int (rs_expectedVersion v) then Inr v' else Inl invalid)"

definition parseOrderId :: "(string \<Rightarrow> bool) \<Rightarrow> string \<Rightarrow> service_error + ident" where
  "parseOrderId uuid i = (if uuid i then Inr i else Inl (ApiException 400 ''INVALID_ORDER_ID'' No_details))"

definition parseIdempotencyKey :: "string option \<Rightarrow> service_error + string" where
  "parseIdempotencyKey v =
     (case truthy v of
        None \<Rightarrow> Inl (ApiException 400 ''IDEMPOTENCY_KEY_REQUIRED'' No_details)
      | Some key \<Rightarrow>
          if 200 < length key \<or> trim key = []
          then Inl (ApiException 400 ''INVALID_IDEMPOTENCY_KEY'' No_details)
          else Inr key)"

definition parseOptionalIdempotencyKey :: "string option \<Rightarrow> service_error + string option" where
  "parseOptionalIdempotencyKey v =
     (case v of
        None \<Rightarrow> Inr None
      | Some key \<Rightarrow>
          if key = [] then Inl (ApiException 400 ''INVALID_IDEMPOTENCY_KEY'' No_details)
          else bindE (parseIdempotencyKey v) (\<lambda>k. Inr (Some k)))"

end
