(* ===== verification/Order_Consumers.thy ===== *)
theory Order_Consumers
  imports Order_Repository
begin

text \<open>
  The Order Service's three consumers: Credit's reservation replies
  (order-service/src/reservation-results.consumer.ts), its terminal confirmations
  (credit-terminal-results.consumer.ts) and the User Service's suspensions
  (user-suspensions.consumer.ts).

  The User Service is the parameter \<open>isSuspended\<close>: its answer about a user at the time, or the
  error the client makes of no answer. A handler that loops over errands draws the UUIDs of its
  \<open>k\<close>-th transition from \<open>us k\<close>.
\<close>

section \<open>Reservation replies\<close>

definition RESERVATION_RESULTS_QUEUE :: string where
  "RESERVATION_RESULTS_QUEUE = ''foc.order.reservation-results''"

text \<open>The reason of a rejection as text, and the balance only a shortage reports.\<close>

fun refusal_reason :: "reservation_refusal \<Rightarrow> string" where
  "refusal_reason (INSUFFICIENT_CREDITS _) = ''INSUFFICIENT_CREDITS''"
| "refusal_reason AMOUNT_OUT_OF_RANGE = ''AMOUNT_OUT_OF_RANGE''"
| "refusal_reason CONFLICTING_REQUEST = ''CONFLICTING_REQUEST''"

fun refusal_available :: "reservation_refusal \<Rightarrow> int option" where
  "refusal_available (INSUFFICIENT_CREDITS n) = Some n"
| "refusal_available _ = None"

datatype outcome_kind = Outcome_RESERVED | Outcome_REJECTED

record reply_outcome =
  rp_kind :: outcome_kind
  rp_action :: order_action
  rp_requesterSuspended :: bool
  rp_reason :: "string option"
  rp_patch :: "column list"
  rp_repeats :: "order_row \<Rightarrow> bool"

definition reserved ::
  "(ident \<Rightarrow> service_error + bool) \<Rightarrow> order_row \<Rightarrow> service_error + reply_outcome" where
  "reserved isSuspended x =
     bindE (if o_status x = PENDING_CREDIT then isSuspended (o_requesterId x) else Inr False) (\<lambda>suspended.
       Inr \<lparr> rp_kind = Outcome_RESERVED, rp_action = CREDIT_RESERVED, rp_requesterSuspended = suspended,
             rp_reason = (if suspended then Some (se_reason (SUSPENSION_EFFECTS Part_REQUESTER)) else None),
             rp_patch = [], rp_repeats = (\<lambda>current. o_status current \<noteq> REJECTED) \<rparr>)"

text \<open>A payload of the other shape has no reason: it is written as null, which no rejection may have.\<close>

definition rejected :: "payload \<Rightarrow> reply_outcome" where
  "rejected p =
     (let refusal = (case p of CreditReservationRejectedPayload _ _ _ why \<Rightarrow> Some why | _ \<Rightarrow> None);
          reason = map_option refusal_reason refusal;
          available = Option.bind refusal refusal_available
      in \<lparr> rp_kind = Outcome_REJECTED, rp_action = CREDIT_REJECTED, rp_requesterSuspended = False,
           rp_reason = None, rp_patch = [Rejection_reason reason, Available_at_rejection available],
           rp_repeats = (\<lambda>current. o_status current = REJECTED \<and> reason \<noteq> None \<and>
             o_rejectionReason current = reason \<and> o_availableAtRejection current = available) \<rparr>)"

text \<open>The command of the Credit Service's reply.\<close>

definition credit_command ::
  "envelope \<Rightarrow> ident \<Rightarrow> order_action \<Rightarrow> column list \<Rightarrow> (order_row \<Rightarrow> service_error option) \<Rightarrow> transition_command" where
  "credit_command env i action patch verify =
     \<lparr> tc_orderId = i, tc_action = action, tc_actor = By_CREDIT_SERVICE, tc_expectedVersion = None,
       tc_correlationId = correlationId env, tc_causationId = Some (eventId env), tc_now = None,
       tc_verify = verify, tc_patch = patch, tc_reason = None, tc_requesterSuspended = False,
       tc_afterApply = no_write \<rparr>"

definition is_refused :: "transition_result \<Rightarrow> bool" where
  "is_refused r = (case r of Not_applied _ _ \<Rightarrow> True | Applied _ _ \<Rightarrow> False)"

definition handleReservationResult ::
  "order_env \<Rightarrow> uuids \<Rightarrow> time \<Rightarrow> (ident \<Rightarrow> service_error + bool) \<Rightarrow> envelope \<Rightarrow> order_db
     \<Rightarrow> service_error + (unit \<times> order_db)" where
  "handleReservationResult e u now isSuspended env db =
     (let p = ev_payload env in
      if aggregateId env \<noteq> p_orderId p then Inl (UnparseableMessageError ''aggregateId'')
      else case lockById db (p_orderId p) of
        None \<Rightarrow> Inl (UnparseableMessageError ''unknown order'')
      | Some x \<Rightarrow>
          if o_requesterId x \<noteq> p_requesterId p \<or> o_reward x \<noteq> p_amount p
          then Inl (UnparseableMessageError ''does not match the recorded request'')
          else
            bindE (if eventType env = CREDITS_RESERVED then reserved isSuspended x else Inr (rejected p)) (\<lambda>out.
            bindE (transitionUsing e u now
              ((credit_command env (p_orderId p) (rp_action out) (rp_patch out) no_check)
                 \<lparr> tc_reason := rp_reason out, tc_requesterSuspended := rp_requesterSuspended out \<rparr>) db)
              (\<lambda>(result, db').
            if is_refused result \<and> \<not> rp_repeats out x
            then Inl (UnparseableMessageError ''cannot move order'')
            else if is_refused result \<and> rp_kind out = Outcome_RESERVED \<and>
                    is_true (\<lambda>v. v < o_version x) (reservationAppliedAt db' (p_orderId p))
            then Inl StaleEventError
            else Inr ((), db'))))"

definition deliverReservationResult ::
  "order_env \<Rightarrow> uuids \<Rightarrow> time \<Rightarrow> (ident \<Rightarrow> service_error + bool) \<Rightarrow> envelope \<Rightarrow> order_db
     \<Rightarrow> (service_error + bool) \<times> order_db" where
  "deliverReservationResult e u now isSuspended =
     withInbox now RESERVATION_RESULTS_QUEUE (handleReservationResult e u now isSuspended)"

section \<open>Terminal confirmations\<close>

definition TRANSFER_RESULTS_QUEUE :: string where
  "TRANSFER_RESULTS_QUEUE = ''foc.order.transfer-results''"

definition RELEASE_RESULTS_QUEUE :: string where
  "RELEASE_RESULTS_QUEUE = ''foc.order.release-results''"

definition release_matches :: "payload \<Rightarrow> order_row \<Rightarrow> bool" where
  "release_matches p x \<longleftrightarrow> o_requesterId x = p_requesterId p \<and> o_reward x = p_amount p"

definition transfer_matches :: "payload \<Rightarrow> order_row \<Rightarrow> bool" where
  "transfer_matches p x \<longleftrightarrow>
     o_requesterId x = p_requesterId p \<and> o_courierId x = Some (p_courierId p) \<and> o_reward x = p_amount p"

definition handleReleaseResult ::
  "order_env \<Rightarrow> uuids \<Rightarrow> time \<Rightarrow> envelope \<Rightarrow> order_db \<Rightarrow> service_error + (unit \<times> order_db)" where
  "handleReleaseResult e u now env db =
     (let p = ev_payload env in
      if aggregateId env \<noteq> p_orderId p then Inl (UnparseableMessageError ''aggregateId'')
      else
        bindE (transitionUsing e u now
          (credit_command env (p_orderId p) RELEASE_CONFIRMED [Credit_transaction_id (Some (p_transactionId p))]
             (\<lambda>x. if release_matches p x then None
                  else Some (UnparseableMessageError ''release does not match''))) db)
          (\<lambda>(result, db').
        case result of
          Applied _ _ \<Rightarrow> Inr ((), db')
        | Not_applied _ current \<Rightarrow>
            if is_true (\<lambda>x. (o_status x = CANCELLED \<or> o_status x = EXPIRED) \<and>
                 o_creditTransactionId x = Some (p_transactionId p) \<and> release_matches p x) current
            then Inr ((), db') else Inl (UnparseableMessageError ''cannot close order'')))"

definition handleTransferResult ::
  "order_env \<Rightarrow> uuids \<Rightarrow> time \<Rightarrow> envelope \<Rightarrow> order_db \<Rightarrow> service_error + (unit \<times> order_db)" where
  "handleTransferResult e u now env db =
     (let p = ev_payload env in
      if aggregateId env \<noteq> p_orderId p then Inl (UnparseableMessageError ''aggregateId'')
      else
        bindE (transitionUsing e u now
          ((credit_command env (p_orderId p) TRANSFER_CONFIRMED [Credit_transaction_id (Some (p_transactionId p))]
             (\<lambda>x. if transfer_matches p x then None
                  else Some (UnparseableMessageError ''transfer does not match'')))
             \<lparr> tc_afterApply := insertReceipt \<rparr>) db)
          (\<lambda>(result, db').
        case result of
          Applied _ _ \<Rightarrow> Inr ((), db')
        | Not_applied _ current \<Rightarrow>
            if is_true (\<lambda>x. o_status x = COMPLETED \<and>
                 o_creditTransactionId x = Some (p_transactionId p) \<and> transfer_matches p x) current
            then Inr ((), db') else Inl (UnparseableMessageError ''cannot complete order'')))"

definition deliverTransferResult ::
  "order_env \<Rightarrow> uuids \<Rightarrow> time \<Rightarrow> envelope \<Rightarrow> order_db \<Rightarrow> (service_error + bool) \<times> order_db" where
  "deliverTransferResult e u now = withInbox now TRANSFER_RESULTS_QUEUE (handleTransferResult e u now)"

definition deliverReleaseResult ::
  "order_env \<Rightarrow> uuids \<Rightarrow> time \<Rightarrow> envelope \<Rightarrow> order_db \<Rightarrow> (service_error + bool) \<times> order_db" where
  "deliverReleaseResult e u now = withInbox now RELEASE_RESULTS_QUEUE (handleReleaseResult e u now)"

section \<open>Suspensions\<close>

definition USER_SUSPENSIONS_QUEUE :: string where
  "USER_SUSPENSIONS_QUEUE = ''foc.order.user-suspensions''"

definition suspension_command ::
  "envelope \<Rightarrow> order_row \<Rightarrow> order_action \<Rightarrow> suspension_effect \<Rightarrow> bool \<Rightarrow> transition_command" where
  "suspension_command env x action effect asRequester =
     \<lparr> tc_orderId = o_orderId x, tc_action = action, tc_actor = By_SYSTEM (Some ''user-suspensions''),
       tc_expectedVersion = None, tc_correlationId = correlationId env,
       tc_causationId = Some (eventId env), tc_now = None, tc_verify = no_check, tc_patch = [],
       tc_reason = Some (se_reason effect), tc_requesterSuspended = asRequester,
       tc_afterApply = no_write \<rparr>"

text \<open>The body of the loop: what a suspension of the user does to one of their errands.\<close>

definition suspend_errand ::
  "order_env \<Rightarrow> uuids \<Rightarrow> time \<Rightarrow> envelope \<Rightarrow> ident \<Rightarrow> order_row \<Rightarrow> order_db
     \<Rightarrow> service_error + (nat \<times> order_db)" where
  "suspend_errand e u now env userId x db =
     (let asRequester = (o_requesterId x = userId);
          effect = SUSPENSION_EFFECTS (if asRequester then Part_REQUESTER else Part_COURIER)
      in case map_of (se_actions effect) (o_status x) of
           None \<Rightarrow> Inr (0, db)
         | Some action \<Rightarrow>
             bindE (transitionUsing e u now (suspension_command env x action effect asRequester) db)
               (\<lambda>(result, db').
             if \<not> is_refused result then Inr (1, db')
             else if asRequester \<and> o_status x = PICKED_UP
             then Inr (0, noteRequesterSuspended now (o_orderId x) db')
             else Inr (0, db')))"

fun suspend_errands ::
  "order_env \<Rightarrow> (nat \<Rightarrow> uuids) \<Rightarrow> time \<Rightarrow> envelope \<Rightarrow> ident \<Rightarrow> nat \<Rightarrow> order_row list \<Rightarrow> order_db
     \<Rightarrow> service_error + (nat \<times> order_db)" where
  "suspend_errands e us now env userId k [] db = Inr (0, db)"
| "suspend_errands e us now env userId k (x # xs) db =
     bindE (suspend_errand e (us k) now env userId x db) (\<lambda>(n, db1).
     bindE (suspend_errands e us now env userId (Suc k) xs db1) (\<lambda>(m, db2). Inr (n + m, db2)))"

definition handleSuspension ::
  "order_env \<Rightarrow> (nat \<Rightarrow> uuids) \<Rightarrow> time \<Rightarrow> (ident \<Rightarrow> service_error + bool) \<Rightarrow> envelope \<Rightarrow> order_db
     \<Rightarrow> service_error + (unit \<times> order_db)" where
  "handleSuspension e us now isSuspended env db =
     (let userId = p_userId (ev_payload env) in
      bindE (isSuspended userId) (\<lambda>suspended.
        if suspended
        then bindE (suspend_errands e us now env userId 0 (lockActiveErrandsOf db userId) db) (\<lambda>(_, db').
               Inr ((), db'))
        else Inr ((), db)))"

definition deliverSuspension ::
  "order_env \<Rightarrow> (nat \<Rightarrow> uuids) \<Rightarrow> time \<Rightarrow> (ident \<Rightarrow> service_error + bool) \<Rightarrow> envelope \<Rightarrow> order_db
     \<Rightarrow> (service_error + bool) \<times> order_db" where
  "deliverSuspension e us now isSuspended =
     withInbox now USER_SUSPENSIONS_QUEUE (handleSuspension e us now isSuspended)"

end
