(* ===== verification/Order_Scheduler.thy ===== *)
theory Order_Scheduler
  imports Order_Repository
begin

text \<open>
  The Order Service's two background jobs: the lifecycle scheduler that applies every time-based
  rule and refers disputes to administrators (order-service/src/orders/lifecycle.scheduler.ts),
  and the credit reconciler (credit-reconciler.ts, with the decision table of
  credit-status.client.ts).

  Every timer fires in a transaction of its own. A run draws its UUIDs and reads the database
  clock once per transaction: \<open>us\<close> and \<open>nows\<close> give them by position. The User Service and the
  Credit Service are parameters, giving their answer or the error made of no answer.
\<close>

section \<open>Firing a timer\<close>

record timer_command =
  ti_verify :: "order_row \<Rightarrow> service_error option"
  ti_patch :: "column list"
  ti_reason :: "string option"
  ti_requesterSuspended :: bool

definition scheduler_command :: "ident \<Rightarrow> order_action \<Rightarrow> time \<Rightarrow> ident \<Rightarrow> timer_command \<Rightarrow> transition_command" where
  "scheduler_command i action t correlation cmd =
     \<lparr> tc_orderId = i, tc_action = action, tc_actor = By_SYSTEM (Some ''lifecycle-scheduler''),
       tc_expectedVersion = None, tc_correlationId = correlation, tc_causationId = None,
       tc_now = Some t, tc_verify = ti_verify cmd, tc_patch = ti_patch cmd, tc_reason = ti_reason cmd,
       tc_requesterSuspended = ti_requesterSuspended cmd, tc_afterApply = no_write \<rparr>"

text \<open>The first UUID names the run in the correlation id; the transition draws the others.\<close>

definition fire ::
  "order_env \<Rightarrow> uuids \<Rightarrow> time \<Rightarrow> ident \<Rightarrow> order_action \<Rightarrow> time \<Rightarrow> timer_command \<Rightarrow> order_db
     \<Rightarrow> (service_error + bool) \<times> order_db" where
  "fire e u now i action t cmd db =
     (case transition e (\<lambda>k. u (Suc k)) now (scheduler_command i action t (''scheduler-'' @ u 0) cmd) db of
        (Inr (Applied _ _), db') \<Rightarrow> (Inr True, db')
      | (Inr (Not_applied _ _), db') \<Rightarrow> (Inr False, db')
      | (Inl err, db') \<Rightarrow> (if err = NotDue then (Inr False, db') else (Inl err, db')))"

definition not_due_unless :: "(order_row \<Rightarrow> bool) \<Rightarrow> order_row \<Rightarrow> service_error option" where
  "not_due_unless p x = (if p x then None else Some NotDue)"

definition timer :: "(order_row \<Rightarrow> bool) \<Rightarrow> timer_command" where
  "timer p = \<lparr> ti_verify = not_due_unless p, ti_patch = [], ti_reason = None, ti_requesterSuspended = False \<rparr>"

definition expire_one where
  "expire_one e u now t i =
     fire e u now i ACCEPTANCE_DEADLINE_PASSED t (timer (\<lambda>x. is_true (\<lambda>d. d \<le> t) (o_acceptanceDeadlineAt x)))"

definition pickup_timeout_one where
  "pickup_timeout_one e u now t cutoff i =
     fire e u now i PICKUP_TIMEOUT t (timer (\<lambda>x. is_true (\<lambda>d. d \<le> cutoff) (o_acceptedAt x)))"

definition auto_confirm_one where
  "auto_confirm_one e u now t i =
     fire e u now i AUTO_CONFIRM t (timer (\<lambda>x. is_true (\<lambda>d. d \<le> t) (o_autoConfirmAt x)))"

definition refer_undelivered_one where
  "refer_undelivered_one e u now t i =
     fire e u now i DELIVERY_PERIOD_PASSED t
       \<lparr> ti_verify = no_check, ti_patch = [], ti_reason = Some (se_reason (SUSPENSION_EFFECTS Part_REQUESTER)),
         ti_requesterSuspended = True \<rparr>"

definition unassign_one where
  "unassign_one e u now t i heldBy =
     fire e u now i ADMIN_UNASSIGNED t
       \<lparr> ti_verify = not_due_unless (\<lambda>x. o_referredAdminId x = Some heldBy),
         ti_patch = [Referred_admin_id None], ti_reason = Some heldBy, ti_requesterSuspended = False \<rparr>"

definition assign_one where
  "assign_one e u now t i adminId =
     fire e u now i ADMIN_ASSIGNED t
       \<lparr> ti_verify = not_due_unless (\<lambda>x. o_referredAdminId x = None),
         ti_patch = [Referred_admin_id (Some adminId)], ti_reason = Some adminId, ti_requesterSuspended = False \<rparr>"

section \<open>A sweep\<close>

record sweep_result =
  sw_expired :: nat
  sw_pickupTimedOut :: nat
  sw_autoConfirmed :: nat
  sw_undeliveredReferred :: nat
  sw_skipped :: nat
  sw_creditWaitAlerts :: nat
  sw_adminsAssigned :: nat
  sw_adminsUnassigned :: nat
  sw_referralAlerts :: nat

definition no_result :: sweep_result where
  "no_result = \<lparr> sw_expired = 0, sw_pickupTimedOut = 0, sw_autoConfirmed = 0, sw_undeliveredReferred = 0,
     sw_skipped = 0, sw_creditWaitAlerts = 0, sw_adminsAssigned = 0, sw_adminsUnassigned = 0,
     sw_referralAlerts = 0 \<rparr>"

record scheduler_options =
  so_pickupTimeoutMs :: int
  so_creditWaitTimeoutMs :: int
  so_batchSize :: nat

text \<open>What a run of the scheduler depends on besides the tables: UUIDs and clocks by loop and position.\<close>

record run_inputs =
  run_uuids :: "nat \<Rightarrow> nat \<Rightarrow> uuids"
  run_now :: "nat \<Rightarrow> nat \<Rightarrow> time"

text \<open>A loop of timers: how many applied and how many were skipped; an error ends the run.\<close>

fun fire_each ::
  "(nat \<Rightarrow> ident \<Rightarrow> order_db \<Rightarrow> (service_error + bool) \<times> order_db) \<Rightarrow> nat \<Rightarrow> ident list \<Rightarrow> order_db
     \<Rightarrow> (service_error + (nat \<times> nat)) \<times> order_db" where
  "fire_each one k [] db = (Inr (0, 0), db)"
| "fire_each one k (i # is) db =
     (case one k i db of
        (Inl err, db') \<Rightarrow> (Inl err, db')
      | (Inr applied, db') \<Rightarrow>
          (case fire_each one (Suc k) is db' of
             (Inl err, db'') \<Rightarrow> (Inl err, db'')
           | (Inr (n, m), db'') \<Rightarrow>
               (Inr (if applied then (Suc n, m) else (n, Suc m)), db'')))"

text \<open>The loop over picked-up errands whose delivery period ended after a suspension was noted.\<close>

fun refer_undelivered_each ::
  "order_env \<Rightarrow> run_inputs \<Rightarrow> (ident \<Rightarrow> service_error + bool) \<Rightarrow> time \<Rightarrow> nat \<Rightarrow> (ident \<times> ident) list
     \<Rightarrow> order_db \<Rightarrow> (service_error + (nat \<times> nat)) \<times> order_db" where
  "refer_undelivered_each e run isSuspended t k [] db = (Inr (0, 0), db)"
| "refer_undelivered_each e run isSuspended t k ((i, requesterId) # rest) db =
     (case isSuspended requesterId of
        Inl err \<Rightarrow> (Inl err, db)
      | Inr False \<Rightarrow> refer_undelivered_each e run isSuspended t (Suc k) rest (clearRequesterSuspended i db)
      | Inr True \<Rightarrow>
          (case refer_undelivered_one e (run_uuids run 3 k) (run_now run 3 k) t i db of
             (Inl err, db') \<Rightarrow> (Inl err, db')
           | (Inr applied, db') \<Rightarrow>
               (case refer_undelivered_each e run isSuspended t (Suc k) rest db' of
                  (Inl err, db'') \<Rightarrow> (Inl err, db'')
                | (Inr (n, m), db'') \<Rightarrow> (Inr (if applied then (Suc n, m) else (n, Suc m)), db''))))"

definition referUndelivered ::
  "order_env \<Rightarrow> run_inputs \<Rightarrow> (ident \<Rightarrow> service_error + bool) \<Rightarrow> time \<Rightarrow> nat \<Rightarrow> order_db
     \<Rightarrow> (service_error + (nat \<times> nat)) \<times> order_db" where
  "referUndelivered e run isSuspended t limit db =
     refer_undelivered_each e run isSuspended t 0 (findDeliveryOverdue t limit db) db"

text \<open>One dispute that needs a referral: cleared, assigned, alerted (as counts).\<close>

definition refer_dispute ::
  "order_env \<Rightarrow> uuids \<Rightarrow> uuids \<Rightarrow> time \<Rightarrow> ident list \<Rightarrow> time \<Rightarrow> ident \<Rightarrow> ident option \<Rightarrow> order_db
     \<Rightarrow> (service_error + (nat \<times> nat \<times> nat)) \<times> order_db" where
  "refer_dispute e u u' now admins t i heldBy db =
     (let cleared = (case heldBy of None \<Rightarrow> (Inr True, db) | Some a \<Rightarrow> unassign_one e u now t i a db)
      in case cleared of
           (Inl err, db1) \<Rightarrow> (Inl err, db1)
         | (Inr False, db1) \<Rightarrow> (Inr (0, 0, 0), db1)
         | (Inr True, db1) \<Rightarrow>
             let unassigned = (if heldBy = None then 0 else 1);
                 eligible = filter (\<lambda>a. a \<notin> participants db1 i) admins
             in if eligible = [] then
                  (case transaction (raiseAlert now i REFERRAL_UNASSIGNED (Active_admins (length admins))) db1 of
                     (Inl err, db2) \<Rightarrow> (Inl err, db2)
                   | (Inr raised, db2) \<Rightarrow> (Inr (unassigned, 0, if raised then 1 else 0), db2))
                else
                  (case leastReferred db1 eligible of
                     Inl err \<Rightarrow> (Inl err, db1)
                   | Inr adminId \<Rightarrow>
                       (case assign_one e u' now t i adminId db1 of
                          (Inl err, db2) \<Rightarrow> (Inl err, db2)
                        | (Inr assigned, db2) \<Rightarrow> (Inr (unassigned, if assigned then 1 else 0, 0), db2))))"

fun refer_disputes_each ::
  "order_env \<Rightarrow> run_inputs \<Rightarrow> ident list \<Rightarrow> time \<Rightarrow> nat \<Rightarrow> (ident \<times> ident option) list \<Rightarrow> order_db
     \<Rightarrow> (service_error + (nat \<times> nat \<times> nat)) \<times> order_db" where
  "refer_disputes_each e run admins t k [] db = (Inr (0, 0, 0), db)"
| "refer_disputes_each e run admins t k ((i, heldBy) # rest) db =
     (case refer_dispute e (run_uuids run 4 k) (run_uuids run 5 k) (run_now run 4 k) admins t i heldBy db of
        (Inl err, db') \<Rightarrow> (Inl err, db')
      | (Inr (a, b, c), db') \<Rightarrow>
          (case refer_disputes_each e run admins t (Suc k) rest db' of
             (Inl err, db'') \<Rightarrow> (Inl err, db'')
           | (Inr (a', b', c'), db'') \<Rightarrow> (Inr (a + a', b + b', c + c'), db'')))"

definition referDisputes ::
  "order_env \<Rightarrow> run_inputs \<Rightarrow> (service_error + ident list) \<Rightarrow> time \<Rightarrow> nat \<Rightarrow> order_db
     \<Rightarrow> (service_error + (nat \<times> nat \<times> nat)) \<times> order_db" where
  "referDisputes e run listAdmins t limit db =
     (if \<not> anyDisputed db then (Inr (0, 0, 0), db)
      else case listAdmins of
        Inl err \<Rightarrow> (Inl err, db)
      | Inr admins \<Rightarrow>
          if admins = [] then (Inr (0, 0, 0), db)
          else refer_disputes_each e run admins t 0 (listDisputesToRefer admins limit db) db)"

text \<open>
  The three timers and the credit-wait alerts; then each kind of referral on its own, where an
  unanswered User Service ends only that kind.
\<close>

definition sweep_timers ::
  "order_env \<Rightarrow> run_inputs \<Rightarrow> scheduler_options \<Rightarrow> time \<Rightarrow> order_db
     \<Rightarrow> (service_error + sweep_result) \<times> order_db" where
  "sweep_timers e run opts t db =
     (let limit = so_batchSize opts; cutoff = later t (- so_pickupTimeoutMs opts);
          waitCutoff = later t (- so_creditWaitTimeoutMs opts)
      in case fire_each (\<lambda>k. expire_one e (run_uuids run 0 k) (run_now run 0 k) t) 0 (findOverdueOpen t limit db) db of
           (Inl err, db1) \<Rightarrow> (Inl err, db1)
         | (Inr (n1, m1), db1) \<Rightarrow>
       (case fire_each (\<lambda>k. pickup_timeout_one e (run_uuids run 1 k) (run_now run 1 k) t cutoff) 0
               (findPickupOverdue cutoff limit db1) db1 of
           (Inl err, db2) \<Rightarrow> (Inl err, db2)
         | (Inr (n2, m2), db2) \<Rightarrow>
       (case fire_each (\<lambda>k. auto_confirm_one e (run_uuids run 2 k) (run_now run 2 k) t) 0
               (findAutoConfirmDue t limit db2) db2 of
           (Inl err, db3) \<Rightarrow> (Inl err, db3)
         | (Inr (n3, m3), db3) \<Rightarrow>
       (case raiseCreditWaitAlerts (run_now run 6 0) waitCutoff limit db3 of
           (alerts, db4) \<Rightarrow>
             (Inr (no_result\<lparr> sw_expired := n1, sw_pickupTimedOut := n2, sw_autoConfirmed := n3,
                             sw_skipped := m1 + m2 + m3, sw_creditWaitAlerts := length alerts \<rparr>), db4)))))"

definition sweep ::
  "order_env \<Rightarrow> run_inputs \<Rightarrow> scheduler_options \<Rightarrow> (ident \<Rightarrow> service_error + bool)
     \<Rightarrow> (service_error + ident list) \<Rightarrow> time \<Rightarrow> order_db \<Rightarrow> (service_error + sweep_result) \<times> order_db" where
  "sweep e run opts isSuspended listAdmins now db =
     (let t = databaseNow now; limit = so_batchSize opts in
      case sweep_timers e run opts t db of
        (Inl err, db1) \<Rightarrow> (Inl err, db1)
      | (Inr res, db1) \<Rightarrow>
       (case referUndelivered e run isSuspended t limit db1 of
          (Inl err, db2) \<Rightarrow> if err \<noteq> UserDirectoryUnavailableError then (Inl err, db2) else
            (case referDisputes e run listAdmins t limit db2 of
               (Inl err', db3) \<Rightarrow> if err' \<noteq> UserDirectoryUnavailableError then (Inl err', db3) else (Inr res, db3)
             | (Inr (a, b, c), db3) \<Rightarrow>
                 (Inr (res\<lparr> sw_adminsUnassigned := a, sw_adminsAssigned := b, sw_referralAlerts := c \<rparr>), db3))
        | (Inr (n, m), db2) \<Rightarrow>
            let res' = res\<lparr> sw_undeliveredReferred := n, sw_skipped := sw_skipped res + m \<rparr> in
            (case referDisputes e run listAdmins t limit db2 of
               (Inl err', db3) \<Rightarrow> if err' \<noteq> UserDirectoryUnavailableError then (Inl err', db3) else (Inr res', db3)
             | (Inr (a, b, c), db3) \<Rightarrow>
                 (Inr (res'\<lparr> sw_adminsUnassigned := a, sw_adminsAssigned := b, sw_referralAlerts := c \<rparr>), db3))))"

section \<open>Credit reconciliation\<close>

text \<open>Credit's records that re-sending the request of a waiting errand can repair.\<close>

fun repairable :: "order_status \<Rightarrow> credit_state list" where
  "repairable PENDING_CREDIT = [Credit_NONE, Credit_RESERVED]"
| "repairable COMPLETION_PENDING_CREDIT = [Credit_RESERVED, Credit_TRANSFERRED]"
| "repairable RELEASE_PENDING_CREDIT = [Credit_RESERVED, Credit_RELEASED]"
| "repairable _ = []"

definition reconciliationDecision :: "order_status \<Rightarrow> credit_state \<Rightarrow> repair" where
  "reconciliationDecision orderStatus credit = (if credit \<in> set (repairable orderStatus) then REISSUE else ALERT)"

record reconciler_options =
  rr_staleAfterMs :: int
  rr_retryAfterMs :: int
  rr_batchSize :: nat

record reconciliation_run =
  rm_candidates :: nat
  rm_reissued :: nat
  rm_alerted :: nat
  rm_creditUnavailable :: nat
  rm_skipped :: nat

definition reconcile_one ::
  "uuids \<Rightarrow> time \<Rightarrow> ident set \<Rightarrow> reconciler_options \<Rightarrow> ident \<Rightarrow> (ident \<Rightarrow> service_error + credit_status_read)
     \<Rightarrow> candidate \<Rightarrow> order_db \<Rightarrow> (service_error + reconciliation_outcome option) \<times> order_db" where
  "reconcile_one u now locked opts runId status ca db =
     (case status (ca_orderId ca) of
        Inl err \<Rightarrow>
          if err \<noteq> CreditUnavailableError then (Inl err, db)
          else transaction (recordReconciliation u now locked
            \<lparr> rn_orderId = ca_orderId ca, rn_observed = ca, rn_runId = runId,
              rn_retryAfterMs = rr_retryAfterMs opts, rn_credit = None, rn_action = Unavailable,
              rn_correlationId = ''reconcile-'' @ runId \<rparr>) db
      | Inr credit \<Rightarrow>
          transaction (recordReconciliation u now locked
            \<lparr> rn_orderId = ca_orderId ca, rn_observed = ca, rn_runId = runId,
              rn_retryAfterMs = rr_retryAfterMs opts, rn_credit = Some credit,
              rn_action = reconciliationDecision (ca_status ca) (read_status credit),
              rn_correlationId = ''reconcile-'' @ runId \<rparr>) db)"

definition count_outcome :: "reconciliation_outcome option \<Rightarrow> reconciliation_run \<Rightarrow> reconciliation_run" where
  "count_outcome r m =
     (case r of
        None \<Rightarrow> m\<lparr> rm_skipped := Suc (rm_skipped m) \<rparr>
      | Some x \<Rightarrow>
          (case ro_action x of
             REISSUED \<Rightarrow> m\<lparr> rm_reissued := Suc (rm_reissued m) \<rparr>
           | ALERTED \<Rightarrow> m\<lparr> rm_alerted := Suc (rm_alerted m) \<rparr>
           | CREDIT_UNAVAILABLE \<Rightarrow> m\<lparr> rm_creditUnavailable := Suc (rm_creditUnavailable m) \<rparr>))"

fun reconcile_each ::
  "(nat \<Rightarrow> candidate \<Rightarrow> order_db \<Rightarrow> (service_error + reconciliation_outcome option) \<times> order_db) \<Rightarrow> nat
     \<Rightarrow> candidate list \<Rightarrow> reconciliation_run \<Rightarrow> order_db \<Rightarrow> (service_error + reconciliation_run) \<times> order_db" where
  "reconcile_each one k [] m db = (Inr m, db)"
| "reconcile_each one k (ca # cas) m db =
     (case one k ca db of
        (Inl err, db') \<Rightarrow> (Inl err, db')
      | (Inr r, db') \<Rightarrow> reconcile_each one (Suc k) cas (count_outcome r m) db')"

definition run_reconciliation ::
  "run_inputs \<Rightarrow> (nat \<Rightarrow> ident set) \<Rightarrow> reconciler_options \<Rightarrow> ident \<Rightarrow> (ident \<Rightarrow> service_error + credit_status_read)
     \<Rightarrow> time \<Rightarrow> order_db \<Rightarrow> (service_error + reconciliation_run) \<times> order_db" where
  "run_reconciliation run locked opts runId status now db =
     (let candidates = findReconciliationCandidates now (rr_staleAfterMs opts) (rr_retryAfterMs opts) (rr_batchSize opts) db
      in reconcile_each (\<lambda>k. reconcile_one (run_uuids run 0 k) (run_now run 0 k) (locked k) opts runId status) 0
           candidates
           \<lparr> rm_candidates = length candidates, rm_reissued = 0, rm_alerted = 0, rm_creditUnavailable = 0,
             rm_skipped = 0 \<rparr> db)"

end
