(* ===== verification/Order_System.thy ===== *)
theory Order_System
  imports Order_Invariants Order_Service Order_Consumers Order_Scheduler Outbox_Relay
begin

text \<open>
  The Order Service as a system: every request, message, timer, reconciliation, relay claim and
  pruning is a step, each one transaction, in any order and any number of times. Every step is a
  sequence of changes of the specification in \<open>Order_Effects\<close>, so its invariant holds in every
  reachable state. A run of the scheduler and of the reconciler is a sequence of these steps.
\<close>

section \<open>Steps\<close>

abbreviation errand_changes :: "order_env \<Rightarrow> news \<Rightarrow> order_db \<Rightarrow> order_db \<Rightarrow> bool" where
  "errand_changes e told db db' \<equiv> (errand_effect e told)\<^sup>*\<^sup>* (errands db) (errands db')"

text \<open>What the service does of its own, without hearing from Credit.\<close>

inductive order_local :: "order_env \<Rightarrow> order_db \<Rightarrow> order_db \<Rightarrow> bool" for e :: order_env where
  create: "createOrder hash getActive u clock now input key caller correlation seen db = (r, db') \<Longrightarrow>
     order_local e db db'"
| accept: "acceptOrder hash u clock now i version caller correlation key db = (r, db') \<Longrightarrow> order_local e db db'"
| commanded: "command e hash u clock now i action version caller correlation reason no_check key db = (r, db') \<Longrightarrow>
     order_local e db db'"
| resolved: "resolve e hash u clock now i decision caller correlation key seen seen' db = (r, db') \<Longrightarrow>
     order_local e db db'"
| suspension: "deliverSuspension e us now isSuspended env db = (d, db') \<Longrightarrow> order_local e db db'"
| expiry: "expire_one e u now t i db = (f, db') \<Longrightarrow> order_local e db db'"
| pickup_timeout: "pickup_timeout_one e u now t cutoff i db = (f, db') \<Longrightarrow> order_local e db db'"
| auto_confirm: "auto_confirm_one e u now t i db = (f, db') \<Longrightarrow> order_local e db db'"
| refer_undelivered: "refer_undelivered_one e u now t i db = (f, db') \<Longrightarrow> order_local e db db'"
| unassign: "unassign_one e u now t i heldBy db = (f, db') \<Longrightarrow> order_local e db db'"
| assign: "assign_one e u now t i adminId db = (f, db') \<Longrightarrow> order_local e db db'"
| mark_cleared: "order_local e db (clearRequesterSuspended i db)"
| wait_alerts: "raiseCreditWaitAlerts now cutoff limit db = (alerts, db') \<Longrightarrow> order_local e db db'"
| referral_alert: "transaction (raiseAlert now i kind detail) db = (f, db') \<Longrightarrow> order_local e db db'"
| reconciled: "reconcile_one u now locked opts runId status ca db = (o', db') \<Longrightarrow> order_local e db db'"
| pruned: "pruneEventTables now retention batch stop1 stopped stop2 waiting db = (counts, db') \<Longrightarrow>
     order_local e db db'"

text \<open>The service alone: its own steps, the relay, and any message whatever in Credit's name.\<close>

inductive order_step :: "order_env \<Rightarrow> order_db \<Rightarrow> order_db \<Rightarrow> bool" for e :: order_env where
  own: "order_local e db db' \<Longrightarrow> order_step e db db'"
| reservation_result: "deliverReservationResult e u now isSuspended env db = (d, db') \<Longrightarrow> order_step e db db'"
| transfer_result: "deliverTransferResult e u now env db = (d, db') \<Longrightarrow> order_step e db db'"
| release_result: "deliverReleaseResult e u now env db = (d, db') \<Longrightarrow> order_step e db db'"
| relayed: "claimAndPublish ''order-service'' ropts now locked answers (outbox_events db) = (cr, rows) \<Longrightarrow>
     order_step e db (db\<lparr> outbox_events := rows \<rparr>)"

definition order_start :: "order_db \<Rightarrow> bool" where
  "order_start db \<longleftrightarrow> orders db = [] \<and> order_status_history db = [] \<and> order_receipts db = [] \<and>
     outbox_events db = []"

section \<open>Every step is a sequence of changes\<close>

lemma transaction_changes:
  assumes "transaction fn db = (r, db')"
    and "\<And>x. fn db = Inr (x, db') \<Longrightarrow> errand_changes e told db db'"
  shows "errand_changes e told db db'"
  using assms by (auto simp: transaction_def split: sum.splits prod.splits)

lemma user_actor_decides:
  "decideTransition src a w c = Some d \<Longrightarrow> w \<notin> {SYSTEM, CREDIT_SERVICE} \<Longrightarrow> lawful_patch a [] \<and> a \<noteq> TRANSFER_CONFIRMED"
  using decision_by_rule [of src a w c d
      "\<lambda>src a w c d. w \<notin> {SYSTEM, CREDIT_SERVICE} \<longrightarrow> lawful_patch a [] \<and> a \<noteq> TRANSFER_CONFIRMED"]
  by (simp add: each_rule lawful_patch_def)

lemma user_command_effect:
  assumes "transitionUsing e u now (user_command i action version caller correlation reason verify) db = Inr (r, db')"
  shows "errand_changes e told db db'"
  using assms
proof (cases rule: transitionUsing_cases)
  case refused
  then show ?thesis by simp
next
  case (applied x w c d t)
  have "w \<notin> {SYSTEM, CREDIT_SERVICE}" using applied(2) by (simp add: user_command_def)
  with user_actor_decides [OF applied(5)]
  have "lawful (user_command i action version caller correlation reason verify)"
    by (simp add: lawful_def user_command_def)
  then have "errand_effect e told (errands db) (errands db')"
    by (rule transitionUsing_effect [OF assms]) (simp add: user_command_def)
  then show ?thesis by blast
qed

lemma once_changes:
  assumes "once hash clock now caller key i body alone answering inside db = (r, db')"
    and "\<And>x tx. alone db = (x, tx) \<Longrightarrow> errand_changes e told db tx"
    and "\<And>x tx. inside db = Inr (x, tx) \<Longrightarrow> errand_changes e told db tx"
  shows "errand_changes e told db db'"
proof (cases key)
  case None
  with assms(1,2) show ?thesis by (auto simp: once_def split: prod.splits)
next
  case (Some k)
  let ?key = "\<lparr> ck_callerId = ac_userId caller, ck_idempotencyKey = k, ck_requestHash = hash body, ck_orderId = i \<rparr>"
  let ?run = "\<lambda>tx. bindE (inside tx) (\<lambda>(r, tx'). bindE (answering r) (\<lambda>view. Inr (view, tx')))"
  obtain x where t: "transaction (withCommandKey now ?key ?run) db = (x, db')"
    using assms(1) Some
    by (auto simp: once_def split: prod.splits sum.splits keyed.splits)
  show ?thesis
  proof (rule transaction_changes [OF t])
    fix y assume "withCommandKey now ?key ?run db = Inr (y, db')"
    then consider "db' = db" | v tx cu where "inside db = Inr (v, tx)" "insertCommandKey cu tx = Inr db'"
      by (auto simp: withCommandKey_def bindE_eq_Inr split: option.splits if_splits)
    then show "errand_changes e told db db'"
      by cases (use assms(3) in \<open>auto dest: insertKey_errands(2)\<close>)
  qed
qed

lemma command_changes:
  assumes "command e hash u clock now i action version caller correlation reason verify key db = (r, db')"
  shows "errand_changes e told db db'"
  using assms unfolding command_def Let_def
proof (rule once_changes)
  fix x tx
  let ?cmd = "user_command i action version caller correlation reason verify"
  show "errand_changes e told db tx" if "transition e u now ?cmd db = (x, tx)"
    using that unfolding transition_def by (rule transaction_changes) (rule user_command_effect)
  show "errand_changes e told db tx" if "transitionUsing e u now ?cmd db = Inr (x, tx)" for x
    using that by (rule user_command_effect)
qed

lemma resolve_changes:
  "resolve e hash u clock now i decision caller correlation key seen seen' db = (r, db') \<Longrightarrow> errand_changes e told db db'"
  by (auto simp: resolve_def dest: command_changes split: option.splits if_splits)

lemma accept_changes:
  assumes "acceptOrder hash u clock now i version caller correlation key db = (r, db')"
  shows "errand_changes e told db db'"
  using assms unfolding acceptOrder_def
proof (rule once_changes)
  fix x tx
  let ?acc = "acceptUsing u now i (ac_userId caller) version correlation"
  show "errand_changes e told db tx" if "transaction ?acc db = (x, tx)"
    using that by (rule transaction_changes) (blast intro: acceptUsing_effect)
  show "errand_changes e told db tx" if "?acc db = Inr (x, tx)" for x
    using that by (blast intro: acceptUsing_effect)
qed

lemma create_changes:
  assumes "createOrder hash getActive u clock now input key caller correlation seen db = (r, db')"
  shows "errand_changes e told db db'"
proof -
  consider "db' = db" | x cp where "transaction (createPending u clock now cp) db = (x, db')"
    using assms
    by (auto simp: createOrder_def Let_def split: option.splits sum.splits prod.splits)
  then show ?thesis
  proof cases
    case 2
    then show ?thesis by (rule transaction_changes) (blast intro: createPending_effect)
  qed simp
qed

lemma fire_changes:
  assumes "fire e u now i action t cmd db = (r, db')"
    and "lawful_patch action (ti_patch cmd)" and "action \<noteq> TRANSFER_CONFIRMED"
  shows "errand_changes e told db db'"
proof -
  let ?c = "scheduler_command i action t (''scheduler-'' @ u 0) cmd"
  obtain x where "transition e (\<lambda>k. u (Suc k)) now ?c db = (x, db')"
    using assms(1) by (auto simp: fire_def split: prod.splits sum.splits transition_result.splits if_splits)
  moreover have "lawful ?c" using assms(2,3) by (simp add: lawful_def scheduler_command_def)
  ultimately show ?thesis
    unfolding transition_def
    by (elim transaction_changes) (auto intro!: transitionUsing_effect simp: scheduler_command_def)
qed

lemma timers_change:
  "expire_one e u now t i db = (r, db') \<Longrightarrow> errand_changes e told db db'"
  "pickup_timeout_one e u now t cutoff i db = (r, db') \<Longrightarrow> errand_changes e told db db'"
  "auto_confirm_one e u now t i db = (r, db') \<Longrightarrow> errand_changes e told db db'"
  "refer_undelivered_one e u now t i db = (r, db') \<Longrightarrow> errand_changes e told db db'"
  "unassign_one e u now t i a db = (r, db') \<Longrightarrow> errand_changes e told db db'"
  "assign_one e u now t i a db = (r, db') \<Longrightarrow> errand_changes e told db db'"
  by (auto simp: expire_one_def pickup_timeout_one_def auto_confirm_one_def refer_undelivered_one_def
      unassign_one_def assign_one_def timer_def lawful_patch_def elim!: fire_changes)

section \<open>Messages\<close>

lemma withInbox_changes:
  assumes "withInbox now queue handler env db = (r, db')"
    and "\<And>tx. \<lbrakk> handler env tx = Inr ((), db'); orders tx = orders db \<rbrakk> \<Longrightarrow> errand_changes e told tx db'"
  shows "errand_changes e told db (db' :: order_db)"
  using assms(1)
proof (cases rule: withInbox_cases)
  case (applied tx)
  have "errands tx = errands db"
    using claim_event_frame [OF applied(1)] by (cases db; cases tx; simp add: errands_def)
  moreover from this have "orders tx = orders db" by (metis errands_simps(1))
  ultimately show ?thesis using assms(2) [OF applied(2)] by simp
qed simp

lemma reply_lawful:
  "reserved isSuspended x = Inr out \<Longrightarrow> lawful ((credit_command env i (rp_action out) (rp_patch out) no_check)
      \<lparr> tc_reason := why, tc_requesterSuspended := s \<rparr>)"
  "lawful ((credit_command env i (rp_action (rejected p)) (rp_patch (rejected p)) no_check)
      \<lparr> tc_reason := why, tc_requesterSuspended := s \<rparr>)"
  by (auto simp: reserved_def rejected_def lawful_def lawful_patch_def credit_command_def bindE_eq_Inr Let_def)

lemma handleReservationResult_changes:
  assumes "handleReservationResult e u now isSuspended env db = Inr (x, db')"
    and news: "\<And>x patch. \<lbrakk> aggregateId env = p_orderId (ev_payload env); x \<in> set (orders db);
        o_orderId x = aggregateId env; o_requesterId x = p_requesterId (ev_payload env);
        o_reward x = p_amount (ev_payload env) \<rbrakk> \<Longrightarrow>
      told x (if eventType env = CREDITS_RESERVED then CREDIT_RESERVED else CREDIT_REJECTED) patch"
  shows "errand_changes e told db db'"
proof -
  let ?i = "p_orderId (ev_payload env)"
  obtain out y r where agg: "aggregateId env = ?i"
    and y: "lockById db ?i = Some y" "o_requesterId y = p_requesterId (ev_payload env)"
      "o_reward y = p_amount (ev_payload env)"
    and out: "eventType env = CREDITS_RESERVED \<and> reserved isSuspended y = Inr out \<or>
        eventType env \<noteq> CREDITS_RESERVED \<and> out = rejected (ev_payload env)"
    and t: "transitionUsing e u now ((credit_command env ?i (rp_action out) (rp_patch out) no_check)
        \<lparr> tc_reason := rp_reason out, tc_requesterSuspended := rp_requesterSuspended out \<rparr>) db = Inr (r, db')"
    using assms(1)
    by (auto simp: handleReservationResult_def Let_def bindE_eq_Inr split: if_splits option.splits)
  have action: "rp_action out = (if eventType env = CREDITS_RESERVED then CREDIT_RESERVED else CREDIT_REJECTED)"
    using out by (auto simp: reserved_def rejected_def bindE_eq_Inr Let_def)
  have "errand_effect e told (errands db) (errands db')"
  proof (rule transitionUsing_effect [OF t])
    show "lawful ((credit_command env ?i (rp_action out) (rp_patch out) no_check)
        \<lparr> tc_reason := rp_reason out, tc_requesterSuspended := rp_requesterSuspended out \<rparr>)"
      using out reply_lawful by blast
    fix x assume row: "row_of o_orderId (tc_orderId ((credit_command env ?i (rp_action out) (rp_patch out) no_check)
        \<lparr> tc_reason := rp_reason out, tc_requesterSuspended := rp_requesterSuspended out \<rparr>)) (orders db) = Some x"
    then have "row_of o_orderId ?i (orders db) = Some x" by (simp add: credit_command_def)
    moreover from this y have "o_requesterId x = p_requesterId (ev_payload env)"
      "o_reward x = p_amount (ev_payload env)" by (auto simp: lockById_def)
    ultimately show "told x (tc_action ((credit_command env ?i (rp_action out) (rp_patch out) no_check)
        \<lparr> tc_reason := rp_reason out, tc_requesterSuspended := rp_requesterSuspended out \<rparr>))
      (tc_patch ((credit_command env ?i (rp_action out) (rp_patch out) no_check)
        \<lparr> tc_reason := rp_reason out, tc_requesterSuspended := rp_requesterSuspended out \<rparr>))"
      using news [of x "rp_patch out"] agg action by (auto simp: credit_command_def dest: row_of_Some)
  qed
  then show ?thesis by blast
qed

lemma confirmation_tables:
  "(case result of Applied y d \<Rightarrow> Inr ((), tx) | Not_applied why current \<Rightarrow>
      if p current then Inr ((), tx) else Inl err) = Inr (x, db') \<Longrightarrow> tx = db'"
  by (cases result) (auto split: if_splits)

lemma handleReleaseResult_changes:
  assumes "handleReleaseResult e u now env db = Inr (x, db')"
    and news: "\<And>x. \<lbrakk> aggregateId env = p_orderId (ev_payload env); o_orderId x = aggregateId env \<rbrakk> \<Longrightarrow>
      told x RELEASE_CONFIRMED [Credit_transaction_id (Some (p_transactionId (ev_payload env)))]"
  shows "errand_changes e told db db'"
proof -
  obtain verify r where agg: "aggregateId env = p_orderId (ev_payload env)"
    and t: "transitionUsing e u now (credit_command env (p_orderId (ev_payload env))
      RELEASE_CONFIRMED [Credit_transaction_id (Some (p_transactionId (ev_payload env)))] verify) db = Inr (r, db')"
    using assms(1)
    by (fastforce simp: handleReleaseResult_def Let_def bindE_eq_Inr dest: confirmation_tables split: if_split_asm)
  note t
  moreover have "lawful (credit_command env i RELEASE_CONFIRMED [Credit_transaction_id (Some j)] verify)" for i j
    by (simp add: lawful_def lawful_patch_def credit_command_def)
  ultimately have "errand_effect e told (errands db) (errands db')"
    using news agg by (auto intro!: transitionUsing_effect simp: credit_command_def dest: row_of_Some)
  then show ?thesis by blast
qed

lemma handleTransferResult_changes:
  assumes "handleTransferResult e u now env db = Inr (x, db')"
    and news: "\<And>x. \<lbrakk> aggregateId env = p_orderId (ev_payload env); o_orderId x = aggregateId env \<rbrakk> \<Longrightarrow>
      told x TRANSFER_CONFIRMED [Credit_transaction_id (Some (p_transactionId (ev_payload env)))]"
  shows "errand_changes e told db db'"
proof -
  obtain verify r where agg: "aggregateId env = p_orderId (ev_payload env)"
    and t: "transitionUsing e u now ((credit_command env (p_orderId (ev_payload env))
      TRANSFER_CONFIRMED [Credit_transaction_id (Some (p_transactionId (ev_payload env)))] verify)
        \<lparr> tc_afterApply := insertReceipt \<rparr>) db = Inr (r, db')"
    using assms(1)
    by (fastforce simp: handleTransferResult_def Let_def bindE_eq_Inr dest: confirmation_tables split: if_split_asm)
  note t
  moreover have "lawful ((credit_command env i TRANSFER_CONFIRMED [Credit_transaction_id (Some j)] verify)
      \<lparr> tc_afterApply := insertReceipt \<rparr>)" for i j
    by (simp add: lawful_def lawful_patch_def credit_command_def)
  ultimately have "errand_effect e told (errands db) (errands db')"
    using news agg by (auto intro!: transitionUsing_effect simp: credit_command_def dest: row_of_Some)
  then show ?thesis by blast
qed

lemma suspension_lawful:
  "map_of (se_actions (SUSPENSION_EFFECTS part)) status = Some a \<Longrightarrow>
     lawful (suspension_command env x a effect asRequester)"
  by (cases part) (auto simp: lawful_def lawful_patch_def suspension_command_def split: if_splits)

lemma suspend_errand_changes:
  assumes "suspend_errand e u now env user x db = Inr (n, db')"
  shows "errand_changes e told db db'"
proof -
  define as_requester where "as_requester \<longleftrightarrow> o_requesterId x = user"
  define effect where "effect = SUSPENSION_EFFECTS (if as_requester then Part_REQUESTER else Part_COURIER)"
  note defs = as_requester_def [symmetric] effect_def [symmetric]
  show ?thesis
  proof (cases "map_of (se_actions effect) (o_status x)")
    case None
    with assms show ?thesis by (simp add: suspend_errand_def Let_def defs)
  next
    case (Some a)
    with assms obtain r tx
      where t: "transitionUsing e u now (suspension_command env x a effect as_requester) db = Inr (r, tx)"
        and "db' = tx \<or> db' = noteRequesterSuspended now (o_orderId x) tx"
      by (auto simp: suspend_errand_def Let_def defs bindE_eq_Inr split: if_split_asm)
    moreover have "errand_effect e told (errands db) (errands tx)"
      by (rule transitionUsing_effect [OF t suspension_lawful [OF Some [unfolded effect_def]]])
        (simp add: suspension_command_def)
    ultimately show ?thesis using marks_effect(1) [of e told tx now "o_orderId x"]
      by (auto intro: converse_rtranclp_into_rtranclp)
  qed
qed

lemma suspend_errands_changes:
  "suspend_errands e us now env user k xs db = Inr (n, db') \<Longrightarrow> errand_changes e told db db'"
proof (induction xs arbitrary: k n db)
  case (Cons x xs)
  then obtain m m' tx where "suspend_errand e (us k) now env user x db = Inr (m, tx)"
    "suspend_errands e us now env user (Suc k) xs tx = Inr (m', db')"
    by (auto simp: bindE_eq_Inr)
  with Cons.IH suspend_errand_changes show ?case by (meson rtranclp_trans)
qed simp

lemma handleSuspension_changes:
  "handleSuspension e us now isSuspended env db = Inr (x, db') \<Longrightarrow> errand_changes e told db db'"
  by (auto simp: handleSuspension_def Let_def bindE_eq_Inr dest: suspend_errands_changes split: if_splits)

section \<open>The outbox\<close>

lemma requests_in_mono: "set rows \<subseteq> set rows' \<Longrightarrow> requests_in rows \<subseteq> requests_in rows'"
  by (auto simp: requests_in_def)

lemma same_events_requests:
  "list_all2 same_event rows rows' \<Longrightarrow> requests_in rows' = requests_in rows"
proof (induction rule: list_all2_induct)
  case (Cons r rows r' rows')
  have "requests_in (r # rs) = requests_in [r] \<union> requests_in rs" for r rs by (auto simp: requests_in_def)
  with Cons show ?case by (auto simp: requests_in_def same_event_def)
qed simp

lemma relayed_changes:
  "claimAndPublish service opts now locked answers (outbox_events db) = (cr, rows) \<Longrightarrow>
     errands (db\<lparr> outbox_events := rows \<rparr>) = errands db"
  using publish_rows_same_event [of service opts now answers _ "outbox_events db" cr rows]
  by (simp add: claimAndPublish_def errands_def same_events_requests)

lemma pruned_changes:
  fixes db db' :: order_db
  assumes "pruneEventTables now retention batch stop1 stopped stop2 waiting db = (counts, db')"
  shows "errand_effect e told (errands db) (errands db')"
proof (rule errand_effect.unchanged)
  show "er_requests (errands db') \<subseteq> er_requests (errands db)"
    using pruneEventTables_outbox(1) [OF assms] by (simp add: requests_in_mono)
qed (use assms in \<open>auto simp: pruneEventTables_def Let_def split: prod.splits if_splits\<close>)

section \<open>The invariant\<close>

lemma order_local_changes: "order_local e db db' \<Longrightarrow> errand_changes e told db db'"
proof (induction rule: order_local.induct)
  case (create hash getActive u clock now input key caller correlation seen db r db')
  then show ?case by (rule create_changes)
next
  case (accept hash u clock now i version caller correlation key db r db')
  then show ?case by (rule accept_changes)
next
  case (commanded hash u clock now i action version caller correlation reason key db r db')
  then show ?case by (rule command_changes)
next
  case (resolved hash u clock now i decision caller correlation key seen seen' db r db')
  then show ?case by (rule resolve_changes)
next
  case (suspension us now isSuspended env db d db')
  then show ?case unfolding deliverSuspension_def
    by (rule withInbox_changes) (rule handleSuspension_changes)
next
  case (mark_cleared db i)
  show ?case using marks_effect(2) by blast
next
  case (wait_alerts now cutoff limit db alerts db')
  then show ?case by (simp add: raiseCreditWaitAlerts_errands)
next
  case (referral_alert now i kind detail db f db')
  then show ?case by (rule transaction_changes) (simp add: raiseAlert_errands)
next
  case (reconciled u now locked opts runId status ca db r db')
  then consider "db' = db" | x input where "transaction (recordReconciliation u now locked input) db = (x, db')"
    by (auto simp: reconcile_one_def split: sum.splits if_splits)
  then show ?case
  proof cases
    case 2
    then show ?thesis by (rule transaction_changes) (blast intro: recordReconciliation_effect)
  qed simp
next
  case (pruned now retention batch stop1 stopped stop2 waiting db counts db')
  then show ?case using pruned_changes by blast
qed (auto intro: timers_change)

lemma deliveries_change:
  "\<lbrakk> deliverReservationResult e u now isSuspended env db = (d, db');
     \<And>x patch. \<lbrakk> aggregateId env = p_orderId (ev_payload env); x \<in> set (orders db); o_orderId x = aggregateId env;
         o_requesterId x = p_requesterId (ev_payload env); o_reward x = p_amount (ev_payload env) \<rbrakk> \<Longrightarrow>
       told x (if eventType env = CREDITS_RESERVED then CREDIT_RESERVED else CREDIT_REJECTED) patch \<rbrakk> \<Longrightarrow>
   errand_changes e told db db'"
  "\<lbrakk> deliverTransferResult e u now env db = (d, db');
     \<And>x. \<lbrakk> aggregateId env = p_orderId (ev_payload env); o_orderId x = aggregateId env \<rbrakk> \<Longrightarrow>
       told x TRANSFER_CONFIRMED [Credit_transaction_id (Some (p_transactionId (ev_payload env)))] \<rbrakk> \<Longrightarrow>
   errand_changes e told db db'"
  "\<lbrakk> deliverReleaseResult e u now env db = (d, db');
     \<And>x. \<lbrakk> aggregateId env = p_orderId (ev_payload env); o_orderId x = aggregateId env \<rbrakk> \<Longrightarrow>
       told x RELEASE_CONFIRMED [Credit_transaction_id (Some (p_transactionId (ev_payload env)))] \<rbrakk> \<Longrightarrow>
   errand_changes e told db db'"
  unfolding deliverReservationResult_def deliverTransferResult_def deliverReleaseResult_def
  by (erule withInbox_changes, erule handleReservationResult_changes handleTransferResult_changes
      handleReleaseResult_changes, simp)+

text \<open>Alone, the service takes every message in Credit's name at its word.\<close>

lemma order_step_changes: "order_step e db db' \<Longrightarrow> errand_changes e (\<lambda>_ _ _. True) db db'"
  by (induction rule: order_step.induct)
    (auto intro: order_local_changes simp: relayed_changes elim!: deliveries_change)

definition order_inv :: "order_db \<Rightarrow> bool" where
  "order_inv db \<longleftrightarrow> errands_ok (errands db)"

lemma errand_changes_keep: "(errand_effect e told)\<^sup>*\<^sup>* s s' \<Longrightarrow> errands_ok s \<Longrightarrow> errands_ok s'"
  by (induction rule: rtranclp_induct) (auto intro: errand_effect_keeps)

lemma order_start_inv: "order_start db \<Longrightarrow> order_inv db"
  by (simp add: order_start_def order_inv_def errands_ok_def orders_ok_def histories_ok_def
      receipts_ok_def requests_ok_def requests_in_def)

interpretation errand_system: inductive_invariant order_start "order_step e" order_inv for e
proof unfold_locales
  show "order_start db \<Longrightarrow> order_inv db" for db by (rule order_start_inv)
  show "order_inv db \<Longrightarrow> order_step e db db' \<Longrightarrow> order_inv db'" for db db'
    unfolding order_inv_def using order_step_changes errand_changes_keep by blast
qed

end
