(* ===== verification/Saga.thy ===== *)
theory Saga
  imports Credit_Replies Order_System
begin

text \<open>
  The Order Service and the Credit Service together, joined by the broker: an errand's reward is
  reserved, paid or returned by messages the two exchange, each through its outbox and relay. The
  state holds both databases and what either service has handed to the broker; a step is a step of
  one service, a relay's claim, or the delivery of a message the other has published, in any
  order, late, repeated, or never. Deliveries respect the subscriptions: the event type the queue
  is bound to, and the producer it trusts.
\<close>

section \<open>The two services and the broker\<close>

record saga =
  sg_orders :: order_db
  sg_credit :: credit_db
  sg_requests :: "event set"
  sg_replies :: "event set"

text \<open>
  A relay hands every row it tries to the broker. A row whose confirmation never came may have
  arrived all the same, and so may the rows of a claim whose commit failed.
\<close>

inductive saga_step :: "order_env \<Rightarrow> int \<Rightarrow> saga \<Rightarrow> saga \<Rightarrow> bool" for e :: order_env and alloc :: int where
  order_acts: "order_local e (sg_orders s) db' \<Longrightarrow> saga_step e alloc s (s\<lparr> sg_orders := db' \<rparr>)"
| credit_acts: "credit_local alloc (sg_credit s) db' \<Longrightarrow> saga_step e alloc s (s\<lparr> sg_credit := db' \<rparr>)"
| order_relays:
    "claimAndPublish ''order-service'' opts now locked answers (outbox_events (sg_orders s)) = (cr, rows) \<Longrightarrow>
     saga_step e alloc s (s\<lparr> sg_orders := (sg_orders s)\<lparr> outbox_events := rows \<rparr>,
                            sg_requests := sg_requests s \<union> row_event ` set (cr_tried cr) \<rparr>)"
| order_relay_crashes:
    "claimAndPublish ''order-service'' opts now locked answers (outbox_events (sg_orders s)) = (cr, rows) \<Longrightarrow>
     saga_step e alloc s (s\<lparr> sg_requests := sg_requests s \<union> row_event ` set (take n (cr_tried cr)) \<rparr>)"
| credit_relays:
    "claimAndPublish ''credit-service'' opts now locked answers (outbox_events (sg_credit s)) = (cr, rows) \<Longrightarrow>
     saga_step e alloc s (s\<lparr> sg_credit := (sg_credit s)\<lparr> outbox_events := rows \<rparr>,
                            sg_replies := sg_replies s \<union> row_event ` set (cr_tried cr) \<rparr>)"
| credit_relay_crashes:
    "claimAndPublish ''credit-service'' opts now locked answers (outbox_events (sg_credit s)) = (cr, rows) \<Longrightarrow>
     saga_step e alloc s (s\<lparr> sg_replies := sg_replies s \<union> row_event ` set (take n (cr_tried cr)) \<rparr>)"
| reservation_asked:
    "\<lbrakk> envelope_event env \<in> sg_requests s; eventType env = CREDIT_RESERVATION_REQUESTED;
       deliverReservation u now env (sg_credit s) = (r, db') \<rbrakk> \<Longrightarrow>
     saga_step e alloc s (s\<lparr> sg_credit := db' \<rparr>)"
| completion_asked:
    "\<lbrakk> envelope_event env \<in> sg_requests s; eventType env = ORDER_COMPLETION_REQUESTED;
       deliverCompletion u now env (sg_credit s) = (r, db') \<rbrakk> \<Longrightarrow>
     saga_step e alloc s (s\<lparr> sg_credit := db' \<rparr>)"
| release_asked:
    "\<lbrakk> envelope_event env \<in> sg_requests s; eventType env = CREDIT_RELEASE_REQUESTED;
       deliverRelease u now env (sg_credit s) = (r, db') \<rbrakk> \<Longrightarrow>
     saga_step e alloc s (s\<lparr> sg_credit := db' \<rparr>)"
| reservation_answered:
    "\<lbrakk> envelope_event env \<in> sg_replies s; eventType env \<in> {CREDITS_RESERVED, CREDIT_RESERVATION_REJECTED};
       deliverReservationResult e u now isSuspended env (sg_orders s) = (r, db') \<rbrakk> \<Longrightarrow>
     saga_step e alloc s (s\<lparr> sg_orders := db' \<rparr>)"
| transfer_answered:
    "\<lbrakk> envelope_event env \<in> sg_replies s; eventType env = CREDITS_TRANSFERRED;
       deliverTransferResult e u now env (sg_orders s) = (r, db') \<rbrakk> \<Longrightarrow>
     saga_step e alloc s (s\<lparr> sg_orders := db' \<rparr>)"
| release_answered:
    "\<lbrakk> envelope_event env \<in> sg_replies s; eventType env = CREDITS_RELEASED;
       deliverReleaseResult e u now env (sg_orders s) = (r, db') \<rbrakk> \<Longrightarrow>
     saga_step e alloc s (s\<lparr> sg_orders := db' \<rparr>)"

definition saga_start :: "saga \<Rightarrow> bool" where
  "saga_start s \<longleftrightarrow> order_start (sg_orders s) \<and> credit_start (sg_credit s) \<and>
     credit_audit_alerts (sg_credit s) = [] \<and> sg_requests s = {} \<and> sg_replies s = {}"

text \<open>Each service in the saga behaves as it does alone, so what holds of it alone holds here.\<close>

lemma saga_order_step:
  "saga_step e alloc s t \<Longrightarrow> sg_orders t = sg_orders s \<or> order_step e (sg_orders s) (sg_orders t)"
  by (induction rule: saga_step.induct) (auto intro: order_step.intros)

lemma saga_credit_step:
  "saga_step e alloc s t \<Longrightarrow> sg_credit t = sg_credit s \<or> credit_step alloc (sg_credit s) (sg_credit t)"
  by (induction rule: saga_step.induct) (auto intro: credit_step.intros)

lemma saga_services:
  assumes "reachable saga_start (saga_step e alloc) s"
  shows "reachable order_start (order_step e) (sg_orders s)"
    and "reachable credit_start (credit_step alloc) (sg_credit s)"
  using assms
proof (induction rule: reachable.induct)
  case (reachable_init s)
  case 1
  from reachable_init show ?case by (intro reachable.reachable_init) (simp add: saga_start_def)
  case 2
  from reachable_init show ?case by (intro reachable.reachable_init) (simp add: saga_start_def)
next
  case (reachable_step s t)
  case 1
  from reachable_step saga_order_step [of e alloc s t] show ?case by (auto intro: reachable.reachable_step)
  case 2
  from reachable_step saga_credit_step [of e alloc s t] show ?case by (auto intro: reachable.reachable_step)
qed

section \<open>The errands know no more than Credit has on record\<close>

text \<open>Requests beside the ones in the outbox change nothing in what an effect does.\<close>

definition widened :: "request set \<Rightarrow> errands \<Rightarrow> errands" where
  "widened m s = s\<lparr> er_requests := er_requests s \<union> m \<rparr>"

lemma widened_simps [simp]:
  "er_orders (widened m s) = er_orders s" "er_history (widened m s) = er_history s"
  "er_receipts (widened m s) = er_receipts s" "er_requests (widened m s) = er_requests s \<union> m"
  by (simp_all add: widened_def)

lemma errand_effect_widened:
  "errand_effect e told s s' \<Longrightarrow> errand_effect e told (widened m s) (widened m s')"
proof (induction rule: errand_effect.induct)
  case (unchanged s' s)
  then show ?case by (intro errand_effect.unchanged) auto
next
  case (created x i t input s h)
  then show ?case using errand_effect.created [of x i t input "widened m s" h e told]
    by (simp add: widened_def Un_ac)
next
  case (accepted i s x courier now x' h)
  then show ?case using errand_effect.accepted [of i "widened m s" x courier now x' h e told]
    by (cases s) (simp add: widened_def)
next
  case (moved i s x a w c d t stamps patch f x' h rs)
  then show ?case using errand_effect.moved [of i "widened m s" x a w c d e t stamps patch told f x' h rs]
    by (simp add: widened_def Un_ac)
next
  case (marked s p v)
  then show ?case using errand_effect.marked [of e told "widened m s" p v] by (cases s) (simp add: widened_def)
next
  case (reissued i s x)
  then show ?case using errand_effect.reissued [of i "widened m s" x e told] by (simp add: widened_def Un_ac)
qed

text \<open>What Credit has on record of an errand.\<close>

definition on_record :: "economy \<Rightarrow> ident \<Rightarrow> transaction_type \<Rightarrow> operation_outcome \<Rightarrow> ident option \<Rightarrow> bool" where
  "on_record ec order ty out tx \<longleftrightarrow>
     (\<exists>y \<in> set (e_operations ec). same_order order ty y \<and> op_outcome y = out \<and> op_transactionId y = tx)"

definition reserved_on_record :: "economy \<Rightarrow> ident \<Rightarrow> bool" where
  "reserved_on_record ec order \<longleftrightarrow> (\<exists>tx. on_record ec order RESERVE SUCCEEDED tx)"

definition refused_on_record :: "economy \<Rightarrow> ident \<Rightarrow> bool" where
  "refused_on_record ec order \<longleftrightarrow> (\<exists>tx. on_record ec order RESERVE Op_REJECTED tx)"

text \<open>An errand's status says no more than that.\<close>

definition linked :: "economy \<Rightarrow> stored_order \<Rightarrow> bool" where
  "linked ec x \<longleftrightarrow>
     (o_status x = REJECTED \<longrightarrow> refused_on_record ec (o_orderId x)) \<and>
     (o_status x \<notin> {PENDING_CREDIT, REJECTED} \<longrightarrow> reserved_on_record ec (o_orderId x)) \<and>
     (o_status x = COMPLETED \<longrightarrow> on_record ec (o_orderId x) TRANSFER SUCCEEDED (o_creditTransactionId x)) \<and>
     (o_status x \<in> {CANCELLED, EXPIRED} \<longrightarrow>
        on_record ec (o_orderId x) RELEASE SUCCEEDED (o_creditTransactionId x))"

text \<open>What a reply in Credit's name must be able to point to.\<close>

definition vouched :: "economy \<Rightarrow> news" where
  "vouched ec x a patch \<longleftrightarrow>
     (a = CREDIT_RESERVED \<longrightarrow> reserved_on_record ec (o_orderId x)) \<and>
     (a = CREDIT_REJECTED \<longrightarrow> refused_on_record ec (o_orderId x)) \<and>
     (a = TRANSFER_CONFIRMED \<longrightarrow>
        (\<exists>i. patch = [Credit_transaction_id (Some i)] \<and> on_record ec (o_orderId x) TRANSFER SUCCEEDED (Some i))) \<and>
     (a = RELEASE_CONFIRMED \<longrightarrow>
        (\<exists>i. patch = [Credit_transaction_id (Some i)] \<and> on_record ec (o_orderId x) RELEASE SUCCEEDED (Some i)))"

lemma who_may_settle:
  "decideTransition src a w c = Some d \<Longrightarrow>
     (if w = CREDIT_SERVICE
      then a = CREDIT_RESERVED \<and> d_to d \<in> {OPEN, RELEASE_PENDING_CREDIT} \<or>
           a = CREDIT_REJECTED \<and> d_to d = REJECTED \<or>
           a = TRANSFER_CONFIRMED \<and> src = COMPLETION_PENDING_CREDIT \<and> d_to d = COMPLETED \<or>
           a = RELEASE_CONFIRMED \<and> src = RELEASE_PENDING_CREDIT \<and> d_to d \<in> {CANCELLED, EXPIRED}
      else src \<notin> {PENDING_CREDIT, REJECTED} \<and> d_to d \<notin> {PENDING_CREDIT, REJECTED, COMPLETED, CANCELLED, EXPIRED})"
  by (rule decision_by_rule, assumption) (simp add: each_rule)

lemma moved_linked:
  fixes x :: stored_order
  assumes decided: "decideTransition (o_status x) a w c = Some d"
    and stamps: "timestampPatch e a d t (mapOrder x) = Inr stamps" and lawful: "lawful_patch a patch"
    and told: "w = CREDIT_SERVICE \<Longrightarrow> vouched ec x a patch" and link: "linked ec x"
  defines "f \<equiv> set_columns (transition_patch d (o_version x) t stamps patch)"
  shows "linked ec (f x)"
proof -
  have status: "o_status (f x) = d_to d" unfolding f_def by (rule moved_row(1) [OF stamps lawful])
  have id: "o_orderId (f x) = o_orderId x" by (simp add: f_def)
  have tx: "o_creditTransactionId (f x) = Some i" if "patch = [Credit_transaction_id (Some i)]" for i
    using that by (simp add: f_def transition_patch_def)
  show ?thesis
  proof (cases "w = CREDIT_SERVICE")
    case False
    with who_may_settle [OF decided] link show ?thesis by (auto simp: linked_def status id)
  next
    case True
    from who_may_settle [OF decided] True consider
        (reserved) "a = CREDIT_RESERVED" "d_to d \<in> {OPEN, RELEASE_PENDING_CREDIT}"
      | (refused) "a = CREDIT_REJECTED" "d_to d = REJECTED"
      | (paid) "a = TRANSFER_CONFIRMED" "o_status x = COMPLETION_PENDING_CREDIT" "d_to d = COMPLETED"
      | (returned) "a = RELEASE_CONFIRMED" "o_status x = RELEASE_PENDING_CREDIT" "d_to d \<in> {CANCELLED, EXPIRED}"
      by auto
    then show ?thesis
      by cases (use told [OF True] link tx in \<open>auto simp: linked_def vouched_def status id\<close>)
  qed
qed

lemma errand_effect_linked:
  assumes "errand_effect e (vouched ec) s s'" and "orders_ok s" and "\<forall>x \<in> set (er_orders s). linked ec x"
  shows "\<forall>x \<in> set (er_orders s'). linked ec x"
  using assms
proof (induction rule: errand_effect.induct)
  case (created x i t input s h)
  then show ?case by (simp add: linked_def new_order_def)
next
  case (accepted i s x courier now x' h)
  have x: "x \<in> set (er_orders s)" "o_orderId x = i" using row_of_Some [OF accepted(1)] by auto
  have dist: "distinct (map o_orderId (er_orders s))" using accepted by (simp add: orders_ok_def)
  have "linked ec (taken_by courier now x)"
    using accepted x by (auto simp: linked_def taken_by_def acceptable_def)
  then show ?case
    using set_update_rows_key [OF dist x(1), of "taken_by courier now"] x(2) accepted(7) by auto
next
  case (moved i s x a w c d t stamps patch f x' h rs)
  have x: "x \<in> set (er_orders s)" "o_orderId x = i" using row_of_Some [OF moved(1)] by auto
  have dist: "distinct (map o_orderId (er_orders s))" using moved by (simp add: orders_ok_def)
  have "linked ec (f x)"
    unfolding moved(7) using moved_linked [OF moved(2,4,5,6)] moved(14) x by blast
  then show ?case
    using set_update_rows_key [OF dist x(1), of f] x(2) moved(14) by auto
next
  case (marked s p v)
  then show ?case by (auto simp: set_update_rows linked_def)
qed simp_all

section \<open>The invariant\<close>

text \<open>The requests beyond the outbox: handed to the broker, or on record with Credit.\<close>

definition outside :: "saga \<Rightarrow> event set" where
  "outside s = {v \<in> sg_requests s. fst v \<in> credit_request_types} \<union>
     op_request ` set (credit_operations (sg_credit s))"

definition saga_inv :: "int \<Rightarrow> saga \<Rightarrow> bool" where
  "saga_inv alloc s \<longleftrightarrow>
     errands_ok (widened (outside s) (errands (sg_orders s))) \<and>
     credit_inv alloc (sg_credit s) \<and> replies_true (sg_replies s) (sg_credit s) \<and>
     (\<forall>x \<in> set (orders (sg_orders s)). linked (economy (sg_credit s)) x)"

lemma order_changes_keep:
  assumes inv: "saga_inv alloc s" and changes: "errand_changes e (vouched (economy (sg_credit s))) (sg_orders s) db'"
  shows "saga_inv alloc (s\<lparr> sg_orders := db' \<rparr>)"
proof -
  let ?ec = "economy (sg_credit s)"
  have "errands_ok (widened (outside s) t) \<and> (\<forall>x \<in> set (er_orders t). linked ?ec x)"
    if "(errand_effect e (vouched ?ec))\<^sup>*\<^sup>* (errands (sg_orders s)) t" for t
    using that
  proof (induction rule: rtranclp_induct)
    case base
    then show ?case using inv by (simp add: saga_inv_def)
  next
    case (step t t')
    then have "errands_ok (widened (outside s) t')"
      using errand_effect_keeps [OF errand_effect_widened] by blast
    moreover have "orders_ok t" using step(3) by (simp add: errands_ok_def orders_ok_def)
    with step have "\<forall>x \<in> set (er_orders t'). linked ?ec x" using errand_effect_linked by blast
    ultimately show ?case by blast
  qed
  from this [OF changes] inv show ?thesis by (simp add: saga_inv_def outside_def)
qed

lemma tried_rows:
  "claimAndPublish service opts now locked answers rows = (cr, rows') \<Longrightarrow> set (cr_tried cr) \<subseteq> set rows"
  by (auto simp: claimAndPublish_def dest!: publish_rows_tried CLAIM_SQL_member subsetD)

lemma requests_in_events: "requests_in rows = {v \<in> row_event ` set rows. fst v \<in> credit_request_types}"
  by (auto simp: requests_in_def row_event_def)

text \<open>What a relay hands over was in the outbox, so nothing is asked that was not asked before.\<close>

lemma order_publishes_keep:
  assumes inv: "saga_inv alloc s" and sent: "sent \<subseteq> row_event ` set (outbox_events (sg_orders s))"
    and same: "errands db' = errands (sg_orders s)"
  shows "saga_inv alloc (s\<lparr> sg_orders := db', sg_requests := sg_requests s \<union> sent \<rparr>)" (is "saga_inv alloc ?s")
proof -
  have "requests_in (outbox_events (sg_orders s)) \<union> outside ?s = requests_in (outbox_events (sg_orders s)) \<union> outside s"
    using sent by (auto simp: outside_def requests_in_events)
  then have "widened (outside ?s) (errands (sg_orders s)) = widened (outside s) (errands (sg_orders s))"
    by (simp add: widened_def)
  moreover have "orders db' = orders (sg_orders s)" using same by (metis errands_simps(1))
  ultimately show ?thesis using inv same by (simp add: saga_inv_def)
qed

lemma credit_publishes_keep:
  assumes inv: "saga_inv alloc s" and sent: "sent \<subseteq> row_event ` set (outbox_events (sg_credit s))"
    and same: "economy db' = economy (sg_credit s)"
      "row_event ` set (outbox_events db') = row_event ` set (outbox_events (sg_credit s))"
  shows "saga_inv alloc (s\<lparr> sg_credit := db', sg_replies := sg_replies s \<union> sent \<rparr>)"
  using inv sent same economy_operations [OF same(1)]
  unfolding saga_inv_def outside_def replies_true_def credit_inv_def by simp blast

lemma on_record_mono:
  "on_record ec order ty out tx \<Longrightarrow> set (e_operations ec) \<subseteq> set (e_operations ec') \<Longrightarrow> on_record ec' order ty out tx"
  unfolding on_record_def by blast

lemma linked_mono:
  assumes "linked ec x" and "set (e_operations ec) \<subseteq> set (e_operations ec')"
  shows "linked ec' x"
  using assms(1) on_record_mono [OF _ assms(2)]
  unfolding linked_def reserved_on_record_def refused_on_record_def by blast

lemma credit_step_keeps:
  assumes inv: "saga_inv alloc s" and step: "credit_step alloc (sg_credit s) db'"
    and asked: "op_request ` set (credit_operations db') \<subseteq> outside s"
  shows "saga_inv alloc (s\<lparr> sg_credit := db' \<rparr>)" (is "saga_inv alloc ?s")
proof -
  have ops: "set (credit_operations (sg_credit s)) \<subseteq> set (credit_operations db')"
    using credit_effect_records [OF credit_step_effect [OF step]] by simp
  have "outside ?s = outside s" using asked ops by (auto simp: outside_def)
  moreover have "replies_true (sg_replies s) db'" and "credit_inv alloc db'"
    using inv credit_step_keeps_replies [OF step] credit.keeps [OF _ step]
    by (simp_all add: saga_inv_def credit_inv_def)
  moreover have "\<forall>x \<in> set (orders (sg_orders s)). linked (economy db') x"
    using inv linked_mono [of "economy (sg_credit s)" _ "economy db'"] ops by (simp add: saga_inv_def)
  ultimately show ?thesis using inv by (simp add: saga_inv_def)
qed

lemma asked_outside:
  "records_request (envelope_event env) (sg_credit s) db' \<Longrightarrow> envelope_event env \<in> sg_requests s \<Longrightarrow>
     eventType env \<in> credit_request_types \<Longrightarrow> op_request ` set (credit_operations db') \<subseteq> outside s"
  by (auto simp: records_request_def outside_def envelope_event_def)

lemma credit_local_operations: "credit_local alloc db db' \<Longrightarrow> credit_operations db' = credit_operations db"
proof (induction rule: credit_local.induct)
  case (activation u now env db r db')
  from activation [unfolded deliverActivation_def] show ?case
  proof (cases rule: withInbox_cases)
    case (applied tx)
    have "credit_operations db' = credit_operations tx"
      using applied(2) by (auto simp: handleActivation_def issueInitial_def Let_def bindE_eq_Inr
          dest!: statement_frames(2,3) split: payload.splits if_splits)
    with economy_operations [OF claim_event_economy [OF applied(1)]] show ?thesis by simp
  qed simp
next
  case (pruned now retention batch stop1 stopped stop2 waiting db counts db')
  then show ?case by (intro economy_operations) (rule pruneEventTables_economy)
next
  case (admin_read v now admin target resource correlation db db')
  then show ?case by (auto simp: auditAdminRead_def insertAdminRead_def split: if_splits)
qed

section \<open>Replies vouch for what they say\<close>

lemma operation_asked:
  assumes inv: "saga_inv alloc s" and y: "y \<in> set (credit_operations (sg_credit s))"
  obtains x where "x \<in> set (orders (sg_orders s))" and "o_orderId x = op_orderId y"
    and "request_ok (fst (op_request y)) (snd (snd (op_request y))) x"
proof -
  have "op_request y \<in> er_requests (widened (outside s) (errands (sg_orders s)))"
    using y by (simp add: outside_def)
  moreover have "requests_ok (widened (outside s) (errands (sg_orders s)))"
    using inv by (simp add: saga_inv_def errands_ok_def)
  ultimately obtain x where "x \<in> set (orders (sg_orders s))" "o_orderId x = fst (snd (op_request y))"
    "request_ok (fst (op_request y)) (snd (snd (op_request y))) x"
    unfolding requests_ok_def by (cases "op_request y") fastforce
  moreover have "fst (snd (op_request y)) = op_orderId y" by (cases "op_type y") (simp_all add: op_request_def)
  ultimately show thesis using that by simp
qed

lemma same_errand:
  assumes "saga_inv alloc s" and "x \<in> set (orders (sg_orders s))" and "y \<in> set (orders (sg_orders s))"
    and "o_orderId x = o_orderId y"
  shows "x = y"
proof -
  have "inj_on o_orderId (set (orders (sg_orders s)))"
    using assms(1) by (simp add: saga_inv_def errands_ok_def orders_ok_def distinct_map)
  from inj_onD [OF this assms(4,2,3)] show ?thesis .
qed

text \<open>A reservation on record names the errand's own requester and reward, so no reply is a conflict.\<close>

lemma reservation_matches:
  assumes "saga_inv alloc s" and "y \<in> set (credit_operations (sg_credit s))" and "op_type y = RESERVE"
    and "x \<in> set (orders (sg_orders s))" and "op_orderId y = o_orderId x"
  shows "op_requesterId y = o_requesterId x \<and> op_amount y = o_reward x"
proof -
  obtain z where "z \<in> set (orders (sg_orders s))" "o_orderId z = op_orderId y"
    "request_ok (fst (op_request y)) (snd (snd (op_request y))) z"
    using operation_asked [OF assms(1,2)] .
  with same_errand [OF assms(1), of z x] assms(3-5) show ?thesis by (auto simp: op_request_def request_ok_def)
qed

lemma replies_vouch:
  assumes inv: "saga_inv alloc s" and env: "envelope_event env \<in> sg_replies s"
  shows "\<lbrakk> eventType env \<in> {CREDITS_RESERVED, CREDIT_RESERVATION_REJECTED}; x \<in> set (orders (sg_orders s));
      o_orderId x = aggregateId env; o_requesterId x = p_requesterId (ev_payload env);
      o_reward x = p_amount (ev_payload env) \<rbrakk> \<Longrightarrow>
    vouched (economy (sg_credit s)) x
      (if eventType env = CREDITS_RESERVED then CREDIT_RESERVED else CREDIT_REJECTED) patch"
    and "\<lbrakk> eventType env = CREDITS_TRANSFERRED; o_orderId x = aggregateId env \<rbrakk> \<Longrightarrow>
      vouched (economy (sg_credit s)) x TRANSFER_CONFIRMED [Credit_transaction_id (Some (p_transactionId (ev_payload env)))]"
    and "\<lbrakk> eventType env = CREDITS_RELEASED; o_orderId x = aggregateId env \<rbrakk> \<Longrightarrow>
      vouched (economy (sg_credit s)) x RELEASE_CONFIRMED [Credit_transaction_id (Some (p_transactionId (ev_payload env)))]"
proof -
  let ?ec = "economy (sg_credit s)"
  have "reply_true ?ec (envelope_event env)" using inv env by (simp add: saga_inv_def replies_true_def)
  then obtain y where y: "y \<in> set (credit_operations (sg_credit s))" "reply_states (envelope_event env) y"
    by (auto simp: reply_true_def)
  have ops: "operations_ok ?ec" using inv by (simp add: saga_inv_def credit_inv_def credit_ok_def)
  then have rec: "result_recorded y" "terminal_type (op_type y) \<longrightarrow> op_outcome y = SUCCEEDED"
    using y(1) by (simp_all add: operations_ok_def)
  have at: "on_record ?ec (op_orderId y) (op_type y) (op_outcome y) (op_transactionId y)"
    using y(1) by (auto simp: on_record_def same_order_def)
  show "vouched ?ec x (if eventType env = CREDITS_RESERVED then CREDIT_RESERVED else CREDIT_REJECTED) patch"
    if "eventType env \<in> {CREDITS_RESERVED, CREDIT_RESERVATION_REJECTED}" "x \<in> set (orders (sg_orders s))"
      "o_orderId x = aggregateId env" "o_requesterId x = p_requesterId (ev_payload env)"
      "o_reward x = p_amount (ev_payload env)"
    using that y at reservation_matches [OF inv y(1) _ that(2)]
    by (auto simp: vouched_def reply_states_def envelope_event_def reservation_on_record_def
        reserved_on_record_def refused_on_record_def split: payload.splits if_splits)
  show "vouched ?ec x TRANSFER_CONFIRMED [Credit_transaction_id (Some (p_transactionId (ev_payload env)))]"
    if "eventType env = CREDITS_TRANSFERRED" "o_orderId x = aggregateId env"
    using that y at rec
    by (auto simp: vouched_def reply_states_def envelope_event_def result_recorded_def terminal_type_def
        split: payload.splits if_splits)
  show "vouched ?ec x RELEASE_CONFIRMED [Credit_transaction_id (Some (p_transactionId (ev_payload env)))]"
    if "eventType env = CREDITS_RELEASED" "o_orderId x = aggregateId env"
    using that y at rec
    by (auto simp: vouched_def reply_states_def envelope_event_def result_recorded_def terminal_type_def
        split: payload.splits if_splits)
qed

lemma saga_start_inv:
  assumes start: "saga_start s"
  shows "saga_inv alloc s"
proof -
  have "credit_operations (sg_credit s) = []"
    using start by (simp add: saga_start_def credit_start_def economy_def del: economy_simps)
  with start have "outside s = {}" by (simp add: outside_def saga_start_def)
  then have "widened (outside s) (errands (sg_orders s)) = errands (sg_orders s)" by (simp add: widened_def)
  with start show ?thesis
    using order_start_inv [of "sg_orders s"] credit.starts [of "sg_credit s" alloc]
    by (simp add: saga_start_def saga_inv_def order_inv_def credit_start_def order_start_def replies_true_def)
qed

lemma saga_step_inv:
  assumes "saga_step e alloc s t" and inv: "saga_inv alloc s"
  shows "saga_inv alloc t"
  using assms(1)
proof cases
  case (order_acts db')
  then show ?thesis using order_changes_keep [OF inv order_local_changes] by blast
next
  case (credit_acts db')
  have "op_request ` set (credit_operations db') \<subseteq> outside s"
    using credit_local_operations [OF credit_acts(2)] by (auto simp: outside_def)
  then show ?thesis using credit_step_keeps [OF inv credit_step.own] credit_acts by blast
next
  case (order_relays opts now locked answers cr rows)
  have "row_event ` set (cr_tried cr) \<subseteq> row_event ` set (outbox_events (sg_orders s))"
    using tried_rows [OF order_relays(2)] by blast
  then show ?thesis
    unfolding order_relays(1) using relayed_changes [OF order_relays(2)] by (rule order_publishes_keep [OF inv])
next
  case (order_relay_crashes opts now locked answers cr rows n)
  have "row_event ` set (take n (cr_tried cr)) \<subseteq> row_event ` set (outbox_events (sg_orders s))"
    using tried_rows [OF order_relay_crashes(2)] by (auto dest: in_set_takeD)
  from order_publishes_keep [OF inv this refl] show ?thesis unfolding order_relay_crashes(1) by simp
next
  case (credit_relays opts now locked answers cr rows)
  have "row_event ` set (cr_tried cr) \<subseteq> row_event ` set (outbox_events (sg_credit s))"
    using tried_rows [OF credit_relays(2)] by blast
  then show ?thesis
    unfolding credit_relays(1) using relayed_says [OF credit_relays(2)] by (intro credit_publishes_keep [OF inv]) simp_all
next
  case (credit_relay_crashes opts now locked answers cr rows n)
  have "row_event ` set (take n (cr_tried cr)) \<subseteq> row_event ` set (outbox_events (sg_credit s))"
    using tried_rows [OF credit_relay_crashes(2)] by (auto dest: in_set_takeD)
  from credit_publishes_keep [OF inv this refl refl] show ?thesis unfolding credit_relay_crashes(1) by simp
next
  case (reservation_asked env u now r db')
  have "op_request ` set (credit_operations db') \<subseteq> outside s"
    by (rule asked_outside [OF deliveries_record(1) [OF reservation_asked(4,3)] reservation_asked(2)])
      (simp add: reservation_asked(3) credit_request_types_def)
  then show ?thesis
    unfolding reservation_asked(1) by (rule credit_step_keeps [OF inv credit_step.reservation [OF reservation_asked(4)]])
next
  case (completion_asked env u now r db')
  have "op_request ` set (credit_operations db') \<subseteq> outside s"
    by (rule asked_outside [OF deliveries_record(2) [OF completion_asked(4,3)] completion_asked(2)])
      (simp add: completion_asked(3) credit_request_types_def)
  then show ?thesis
    unfolding completion_asked(1) by (rule credit_step_keeps [OF inv credit_step.completion [OF completion_asked(4)]])
next
  case (release_asked env u now r db')
  have "op_request ` set (credit_operations db') \<subseteq> outside s"
    by (rule asked_outside [OF deliveries_record(3) [OF release_asked(4,3)] release_asked(2)])
      (simp add: release_asked(3) credit_request_types_def)
  then show ?thesis
    unfolding release_asked(1) by (rule credit_step_keeps [OF inv credit_step.release_request [OF release_asked(4)]])
next
  case (reservation_answered env u now isSuspended r db')
  show ?thesis
    unfolding reservation_answered(1)
    by (rule order_changes_keep [OF inv], rule deliveries_change(1) [OF reservation_answered(4)])
      (rule replies_vouch(1) [OF inv reservation_answered(2,3)])
next
  case (transfer_answered env u now r db')
  show ?thesis
    unfolding transfer_answered(1)
    by (rule order_changes_keep [OF inv], rule deliveries_change(2) [OF transfer_answered(4)])
      (rule replies_vouch(2) [OF inv transfer_answered(2,3)])
next
  case (release_answered env u now r db')
  show ?thesis
    unfolding release_answered(1)
    by (rule order_changes_keep [OF inv], rule deliveries_change(3) [OF release_answered(4)])
      (rule replies_vouch(3) [OF inv release_answered(2,3)])
qed

interpretation saga_system: inductive_invariant saga_start "saga_step e alloc" "saga_inv alloc" for e alloc
  by unfold_locales (rule saga_start_inv, assumption, rule saga_step_inv)

end
