(* ===== verification/Credit_Alerts.thy ===== *)
theory Credit_Alerts
  imports Credit_Replies
begin

text \<open>
  When the Credit Service raises an audit alert: only for a request that contradicts what is on
  record. A request that agrees with the record is served, replayed or refused for want of
  credits, and leaves the alerts as they were.
\<close>

lemma insertOutbox_alerts:
  fixes db db' :: credit_db
  shows "insertOutboxEvent v now event db = Inr (i, db') \<Longrightarrow> credit_audit_alerts db' = credit_audit_alerts db"
  by (drule insertOutboxEvent_frame(2)) (rule economy_more(2))

lemma write_alerts:
  "writeOutcome v now input out db = Inr db' \<Longrightarrow> credit_audit_alerts db' = credit_audit_alerts db"
  "writeTransferOutcome v now tin p db = Inr db' \<Longrightarrow> credit_audit_alerts db' = credit_audit_alerts db"
  "writeReleaseOutcome v now tin p db = Inr db' \<Longrightarrow> credit_audit_alerts db' = credit_audit_alerts db"
  by (auto simp: writeOutcome_def writeTransferOutcome_def writeReleaseOutcome_def Let_def bindE_eq_Inr
      dest: insertOutbox_alerts)

lemma updateOperation_alerts:
  "updateOperation p f db = Inr db' \<Longrightarrow> credit_audit_alerts db' = credit_audit_alerts db"
  by (auto simp: updateOperation_def Let_def bindE_eq_Inr)

lemma insertOperation_alerts:
  "insertOperation x db = Inr db' \<Longrightarrow> credit_audit_alerts db' = credit_audit_alerts db"
  by (drule insertOperation_Inr(1)) simp

lemmas alerts_frames = write_alerts updateOperation_alerts insertOperation_alerts statement_frames

text \<open>The request agrees with the reservation on record, if there is one.\<close>

definition agrees_reservation :: "credit_db \<Rightarrow> ident \<Rightarrow> ident \<Rightarrow> int \<Rightarrow> bool" where
  "agrees_reservation db order requester amount \<longleftrightarrow>
     (\<forall>y \<in> set (credit_operations db). same_order order RESERVE y \<longrightarrow>
        op_requesterId y = requester \<and> op_amount y = amount)"

lemma reserve_quiet:
  assumes "reserve u now input db = Inr (out, db')"
    and "agrees_reservation db (ri_orderId input) (ri_requesterId input) (ri_amount input)"
  shows "credit_audit_alerts db' = credit_audit_alerts db"
  using assms(1)
proof (cases rule: reserve_cases)
  case replayed
  with assms(2) show ?thesis
    by (auto simp: replayOrRejectConflict_def agrees_reservation_def same_order_def find_Some_iff bindE_eq_Inr Let_def
        dest!: write_alerts split: option.splits if_splits)
next
  case (refused reason available)
  from refused(5) show ?thesis
    by (auto simp: refuse_def finishRejection_def bindE_eq_Inr dest!: alerts_frames)
next
  case (moved rw db2 db3 db4 db5)
  with statement_frames(1) [OF moved(3)] statement_frames(2) [OF moved(4)] statement_frames(3) [OF moved(5)]
  show ?thesis by (simp add: updateOperation_alerts write_alerts)
qed

text \<open>The reservation on record is the requester's own and live, and any settlement is this one.\<close>

definition agrees_settlement ::
  "credit_db \<Rightarrow> transaction_type \<Rightarrow> ident \<Rightarrow> ident \<Rightarrow> ident option \<Rightarrow> int \<Rightarrow> bool" where
  "agrees_settlement db ty order requester courier amount \<longleftrightarrow>
     agrees_reservation db order requester amount \<and>
     (\<forall>y \<in> set (credit_operations db). same_order order RESERVE y \<longrightarrow> op_outcome y = SUCCEEDED) \<and>
     (\<forall>y \<in> set (credit_operations db). op_orderId y = order \<and> terminal_type (op_type y) \<longrightarrow>
        op_type y = ty \<and> op_requesterId y = requester \<and> op_amount y = amount \<and>
        (ty = TRANSFER \<longrightarrow> op_courierId y = courier))"

lemma agreed_reservation_valid:
  fixes input :: "'a terminal_input_scheme"
  assumes "lockReservation (ti_orderId input) db = Inr r" and "operations_ok (economy db)"
    and "agrees_settlement db ty (ti_orderId input) (ti_requesterId input) courier (ti_amount input)"
  shows "validateReservation r input = None"
proof -
  have r: "r \<in> set (credit_operations db)" "same_order (ti_orderId input) RESERVE r"
    using lockReservation_Inr [OF assms(1)] by auto
  with assms(3) have "op_outcome r = SUCCEEDED" "op_requesterId r = ti_requesterId input" "op_amount r = ti_amount input"
    by (auto simp: agrees_settlement_def agrees_reservation_def)
  moreover from this(1) r(1) assms(2) have "op_transactionId r \<noteq> None"
    by (auto simp: operations_ok_def records_def)
  ultimately show ?thesis by (simp add: validateReservation_None)
qed

lemma transfer_quiet:
  assumes "transfer u now input db = Inr (out, db')" and ok: "operations_ok (economy db)"
    and agrees: "agrees_settlement db TRANSFER (ti_orderId input) (ti_requesterId input) (Some (ti_courierId input))
      (ti_amount input)"
    and "ti_requesterId input \<noteq> ti_courierId input"
  shows "credit_audit_alerts db' = credit_audit_alerts db"
  using assms(1)
proof (cases rule: transfer_cases)
  case (refused r reason details)
  with agreed_reservation_valid [OF refused(1) ok agrees] assms(4) show ?thesis by simp
next
  case (replayed prior)
  with findTerminalOperation_Some [OF replayed(2)] agrees show ?thesis
    by (auto simp: replayTransferOrReject_def agrees_settlement_def bindE_eq_Inr dest!: write_alerts split: if_splits)
next
  case (moved db1 rw db2 cw db3 db4 db5 db6 result)
  with statement_frames(1) [OF moved(5)] statement_frames(1) [OF moved(6)] statement_frames(2) [OF moved(7)]
    statement_frames(3) [OF moved(8)]
  show ?thesis by (simp add: finishTerminal_def updateOperation_alerts write_alerts insertOperation_alerts)
qed

lemma release_quiet:
  assumes "release u now input db = Inr (out, db')" and ok: "operations_ok (economy db)"
    and agrees: "agrees_settlement db RELEASE (ti_orderId input) (ti_requesterId input) None (ti_amount input)"
  shows "credit_audit_alerts db' = credit_audit_alerts db"
  using assms(1)
proof (cases rule: release_cases)
  case (refused r reason details)
  with agreed_reservation_valid [OF refused(1) ok agrees] show ?thesis by simp
next
  case (replayed prior)
  with findTerminalOperation_Some [OF replayed(2)] agrees show ?thesis
    by (auto simp: replayReleaseOrReject_def agrees_settlement_def bindE_eq_Inr dest!: write_alerts split: if_splits)
next
  case (moved db1 rw db2 db3 db4 db5 result)
  with statement_frames(1) [OF moved(4)] statement_frames(2) [OF moved(5)] statement_frames(3) [OF moved(6)]
  show ?thesis by (simp add: finishTerminal_def updateOperation_alerts write_alerts insertOperation_alerts)
qed

section \<open>Deliveries\<close>

lemma replayable_quiet:
  assumes "withReplayableInbox now queue (\<lambda>env _. handler env) env db = (r, db')"
    and "\<And>tx. \<lbrakk> handler env tx = Inr ((), db'); economy tx = economy db \<rbrakk> \<Longrightarrow>
           credit_audit_alerts db' = credit_audit_alerts tx"
  shows "credit_audit_alerts db' = credit_audit_alerts (db :: credit_db)"
  using assms(1)
proof (cases rule: withReplayableInbox_cases)
  case (applied tx first)
  from assms(2) [OF applied(2) claim_event_economy [OF applied(1)]] economy_more(2) [OF claim_event_frame(3) [OF applied(1)]]
  show ?thesis by simp
qed simp

lemma agrees_cong:
  assumes "economy db' = economy db"
  shows "agrees_reservation db' = agrees_reservation db" and "agrees_settlement db' = agrees_settlement db"
  using economy_operations [OF assms]
  by (simp_all add: agrees_reservation_def agrees_settlement_def fun_eq_iff)

lemma reservation_quiet:
  assumes "deliverReservation u now env db = (r, db')"
    and "\<And>order requester amount. ev_payload env = CreditReservationRequestedPayload order requester amount \<Longrightarrow>
      aggregateId env = order \<Longrightarrow> agrees_reservation db order requester amount"
  shows "credit_audit_alerts db' = credit_audit_alerts db"
  using assms(1) unfolding deliverReservation_def
proof (rule replayable_quiet)
  fix tx assume "handleReservation u now env tx = Inr ((), db')" and same: "economy tx = economy db"
  then show "credit_audit_alerts db' = credit_audit_alerts tx"
    using assms(2)
    by (auto simp: handleReservation_def bindE_eq_Inr agrees_cong [OF same] dest!: reserve_quiet
        split: payload.splits if_splits)
qed

lemma completion_quiet:
  assumes "deliverCompletion u now env db = (r, db')" and "operations_ok (economy db)"
    and "\<And>order requester amount courier. ev_payload env = OrderCompletionRequestedPayload order requester amount courier \<Longrightarrow>
      aggregateId env = order \<Longrightarrow> agrees_settlement db TRANSFER order requester (Some courier) amount \<and> requester \<noteq> courier"
  shows "credit_audit_alerts db' = credit_audit_alerts db"
  using assms(1) unfolding deliverCompletion_def
proof (rule replayable_quiet)
  fix tx assume "handleCompletion u now env tx = Inr ((), db')" and same: "economy tx = economy db"
  then show "credit_audit_alerts db' = credit_audit_alerts tx"
    using assms(2,3)
    by (auto simp: handleCompletion_def bindE_eq_Inr agrees_cong [OF same] same dest!: transfer_quiet
        split: payload.splits if_splits)
qed

lemma released_quiet:
  assumes "deliverRelease u now env db = (r, db')" and "operations_ok (economy db)"
    and "\<And>order requester amount. ev_payload env = CreditReleaseRequestedPayload order requester amount \<Longrightarrow>
      aggregateId env = order \<Longrightarrow> agrees_settlement db RELEASE order requester None amount"
  shows "credit_audit_alerts db' = credit_audit_alerts db"
  using assms(1) unfolding deliverRelease_def
proof (rule replayable_quiet)
  fix tx assume "handleRelease u now env tx = Inr ((), db')" and same: "economy tx = economy db"
  then show "credit_audit_alerts db' = credit_audit_alerts tx"
    using assms(2,3)
    by (auto simp: handleRelease_def bindE_eq_Inr agrees_cong [OF same] same dest!: release_quiet
        split: payload.splits if_splits)
qed

lemma credit_local_quiet: "credit_local alloc db db' \<Longrightarrow> credit_audit_alerts db' = credit_audit_alerts db"
proof (induction rule: credit_local.induct)
  case (activation u now env db r db')
  from activation [unfolded deliverActivation_def] show ?case
  proof (cases rule: withInbox_cases)
    case (applied tx)
    have "credit_audit_alerts db' = credit_audit_alerts tx"
      using applied(2) by (auto simp: handleActivation_def issueInitial_def Let_def bindE_eq_Inr
          dest!: statement_frames(2,3) split: payload.splits if_splits)
    with economy_more(2) [OF claim_event_frame(3) [OF applied(1)]] show ?thesis by simp
  qed simp
next
  case (pruned now retention batch stop1 stopped stop2 waiting db counts db')
  then show ?case by (auto simp: pruneEventTables_def Let_def split: prod.splits if_splits)
next
  case (admin_read v now admin target resource correlation db db')
  then show ?case by (auto simp: auditAdminRead_def insertAdminRead_def split: if_splits)
qed

end
