(* ===== verification/Credit_Properties.thy ===== *)
theory Credit_Properties
  imports Credit_Replies
begin

text \<open>
  What the Credit Service guarantees in every state it can reach, and what each of its operations
  does there: the closed economy, one wallet per user, one settlement per errand, replies that
  repeat the recorded outcome, and a status that tells the truth.
\<close>

section \<open>A concrete economy\<close>

text \<open>Alice and Bob are activated; Alice reserves three credits for errand \<open>o1\<close>, which Bob earns.\<close>

definition demo_env :: "ident \<Rightarrow> event_type \<Rightarrow> ident \<Rightarrow> payload \<Rightarrow> envelope" where
  "demo_env i ty agg p =
     \<lparr> eventId = i, eventType = ty, schemaVersion = 1, aggregateId = agg, occurredAt = 0,
       producer = ''order-service'', correlationId = ''c'', causationId = ''c'', ev_payload = p \<rparr>"

definition demo_ids :: "char \<Rightarrow> uuids" where
  "demo_ids c k = c # replicate k CHR ''.''"

definition demo_empty :: credit_db where
  "demo_empty = \<lparr> outbox_events = [], outbox_seq = 0, processed_events = [], wallets = [],
     credit_transactions = [], ledger_entries = [], credit_operations = [],
     credit_audit_alerts = [], admin_wallet_reads = [] \<rparr>"

definition demo_activated :: credit_db where
  "demo_activated =
     snd (deliverActivation 10 (demo_ids CHR ''b'') 1
       (demo_env ''e2'' USER_ACTIVATED ''bob'' (UserActivatedPayload ''bob'' 0))
       (snd (deliverActivation 10 (demo_ids CHR ''a'') 1
         (demo_env ''e1'' USER_ACTIVATED ''alice'' (UserActivatedPayload ''alice'' 0)) demo_empty)))"

definition demo_reserved :: credit_db where
  "demo_reserved =
     snd (deliverReservation (demo_ids CHR ''r'') 2
       (demo_env ''e3'' CREDIT_RESERVATION_REQUESTED ''o1'' (CreditReservationRequestedPayload ''o1'' ''alice'' 3))
       demo_activated)"

definition demo_transferred :: credit_db where
  "demo_transferred =
     snd (deliverCompletion (demo_ids CHR ''t'') 3
       (demo_env ''e4'' ORDER_COMPLETION_REQUESTED ''o1'' (OrderCompletionRequestedPayload ''o1'' ''alice'' 3 ''bob''))
       demo_reserved)"

lemma demo_credit_reachable:
  "reachable credit_start (credit_step 10) demo_reserved"
  "reachable credit_start (credit_step 10) demo_transferred"
proof -
  have start: "reachable credit_start (credit_step 10) demo_empty"
    by (rule reachable_init) (simp add: credit_start_def demo_empty_def economy_def)
  have delivered: "reachable credit_start (credit_step 10) (snd (deliverActivation 10 u now env db))"
    if "reachable credit_start (credit_step 10) db" for u now env db
    using reachable_step [OF that] credit_step.own [OF credit_local.activation [of 10 u now env db]]
    by (metis prod.collapse)
  have "reachable credit_start (credit_step 10) demo_activated"
    unfolding demo_activated_def by (intro delivered start)
  then show reserved: "reachable credit_start (credit_step 10) demo_reserved"
    unfolding demo_reserved_def by (rule reachable_step) (rule credit_step.reservation, rule surjective_pairing)
  then show "reachable credit_start (credit_step 10) demo_transferred"
    unfolding demo_transferred_def by (rule reachable_step) (rule credit_step.completion, rule surjective_pairing)
qed

lemma demo_reserved_tables:
  "map (\<lambda>w. (w_userId w, w_available w, w_reserved w)) (wallets demo_reserved) = [(''alice'', 7, 3), (''bob'', 10, 0)]"
  "map (\<lambda>w. (w_userId w, w_available w, w_reserved w)) (wallets demo_transferred) = [(''alice'', 7, 0), (''bob'', 13, 0)]"
  by code_simp+

section \<open>The closed economy\<close>

text \<open>
  C10. In every reachable state, whatever messages arrived in whatever order and number, none of
  the economy's checks reports anything, and neither does the comparison of wallets with the
  ledger.
\<close>

theorem credit_economy_never_violated:
  assumes "reachable credit_start (credit_step alloc) db"
  shows "creditEconomyViolations db = [] \<and> walletLedgerViolations db = []"
  using credit.holds [OF assms] credit_ok_checks by (simp add: credit_inv_def)

theorem credit_economy_never_violated_witness:
  "creditEconomyViolations demo_transferred = [] \<and> walletLedgerViolations demo_transferred = []"
  by (rule credit_economy_never_violated [OF demo_credit_reachable(2)])

text \<open>
  Credits are created only by the first activation of a user: all wallets together hold the
  initial allocation once per wallet, and there is one wallet per user.
\<close>

theorem credit_supply_is_allocation:
  assumes "reachable credit_start (credit_step alloc) db"
  shows "held (wallets db) = alloc * int (length (wallets db)) \<and> distinct (map w_userId (wallets db))"
  using credit.holds [OF assms]
  by (simp add: credit_inv_def allocated_def credit_ok_def conserved_def wallets_ok_def)

theorem credit_supply_is_allocation_witness: "held (wallets demo_transferred) = 20"
proof -
  have "length (wallets demo_transferred) = 2" by code_simp
  then show ?thesis using credit_supply_is_allocation [OF demo_credit_reachable(2)] by simp
qed

section \<open>Settlement never finds a reservation unbacked\<close>

lemma open_reservation_le:
  assumes "transactions_ok e" and "r \<in> set (e_transactions e)" and "t_type r = RESERVE"
    and "\<not> settled (e_transactions e) r" and "t_walletUserId r = Some user"
  shows "t_amount r \<le> open_reservations user (e_transactions e)"
  unfolding open_reservations_def
  using assms by (intro sum_where_member_le) (auto simp: transactions_ok_def intro: less_imp_le)

lemma reservation_backed:
  assumes "credit_ok e" and "reserved_for e order user amount" and "\<not> settled_op e order"
  obtains w where "row_of w_userId user (e_wallets e) = Some w" and "amount \<le> w_reserved w"
proof -
  have oks: "wallets_ok e" "transactions_ok e" "operations_ok e" "backed e"
    using assms(1) by (simp_all add: credit_ok_def)
  from oks(2,3) assms(2,3) obtain r where r: "reserves order (e_transactions e) = [r]"
    "terminals order (e_transactions e) = []" "t_walletUserId r = Some user" "t_amount r = amount"
    "r \<in> set (e_transactions e)"
    by (rule unsettled_reservation)
  from r(1) have "r \<in> set (reserves order (e_transactions e))" by simp
  then have "t_type r = RESERVE" "t_orderId r = Some order" by (simp_all add: reserves_def)
  with r oks(2) have le: "amount \<le> open_reservations user (e_transactions e)"
    using open_reservation_le [of e r user] by (simp add: settled_terminals)
  from r(3,5) oks(2) have "user \<in> w_userId ` set (e_wallets e)" by (fastforce simp: transactions_ok_def)
  then obtain w where w: "w \<in> set (e_wallets e)" "w_userId w = user" by auto
  moreover have "row_of w_userId user (e_wallets e) = Some w"
    using row_of_member [of w_userId "e_wallets e" w] oks(1) w by (simp add: wallets_ok_def)
  ultimately show thesis using that le oks(4) by (simp add: backed_def)
qed

text \<open>What the writes of a settlement can fail with: a constraint of the database, nothing else.\<close>

lemma statement_errors:
  "insertOperation x db = Inl e \<Longrightarrow> \<exists>n. e = DbViolation n"
  "insertTransaction t db = Inl e \<Longrightarrow> \<exists>n. e = DbViolation n"
  "insertEntries e1 e2 db = Inl e \<Longrightarrow> \<exists>n. e = DbViolation n"
  "updateOperation p f db = Inl e \<Longrightarrow> \<exists>n. e = DbViolation n"
  "updateWallet user g h db = Inl e \<Longrightarrow> \<exists>n. e = DbViolation n"
  "insertAlert a db = Inl e \<Longrightarrow> \<exists>n. e = DbViolation n"
  by (auto simp: insertOperation_def insertTransaction_def insertEntries_def insertEntry_def
      updateOperation_def updateWallet_def insertAlert_def bindE_eq_Inl Let_def
      dest: constraints_Inl split: option.splits if_splits)

lemma insertOutboxEvent_error:
  "insertOutboxEvent v now event db = Inl e \<Longrightarrow> PAYLOAD_SCHEMAS (ne_eventType event) = Some schema \<Longrightarrow>
     schema (ne_payload event) \<Longrightarrow> \<exists>n. e = DbViolation n"
  by (auto simp: insertOutboxEvent_def toOutboxRow_def bindE_eq_Inl split: if_splits)

definition retryable :: "service_error \<Rightarrow> bool" where
  "retryable e \<longleftrightarrow> is_PredecessorMissing e \<or> (\<exists>n. e = DbViolation n)"

lemma retryable_db: "\<exists>n. e = DbViolation n \<Longrightarrow> retryable e"
  by (auto simp: retryable_def)

lemma resultingBalance_balance:
  "int4 (w_available w) \<Longrightarrow> int4 (w_reserved w) \<Longrightarrow> 0 \<le> w_available w \<Longrightarrow> 0 \<le> w_reserved w \<Longrightarrow>
     resultingBalance (balance w)"
  by (simp add: resultingBalance_def balance_def nonnegative_int_def safe_int_def int4_def)

lemma updateWallet_Some:
  assumes "updateWallet user g f db = Inr (res, db')" and "row_of w_userId user (wallets db) = Some w" and "g w"
  shows "res = Some (f w)" and "resultingBalance (balance (f w))"
    and "db' = db\<lparr> wallets := update_rows (\<lambda>r. w_userId r = user) f (wallets db) \<rparr>"
proof -
  from assms(1) have "res = Some (f w) \<and> resultingBalance (balance (f w)) \<and>
      db' = db\<lparr> wallets := update_rows (\<lambda>r. w_userId r = user) f (wallets db) \<rparr>"
    by (cases rule: updateWallet_Inr) (use assms(2,3) in \<open>simp_all add: resultingBalance_balance\<close>)
  then show "res = Some (f w)" and "resultingBalance (balance (f w))"
    and "db' = db\<lparr> wallets := update_rows (\<lambda>r. w_userId r = user) f (wallets db) \<rparr>" by simp_all
qed

lemma writeTerminal_error:
  "writeTransferOutcome v now input p db = Inl e \<Longrightarrow> the (PAYLOAD_SCHEMAS CREDITS_TRANSFERRED) p \<Longrightarrow>
     \<exists>n. e = DbViolation n"
  "writeReleaseOutcome v now input p db = Inl e \<Longrightarrow> the (PAYLOAD_SCHEMAS CREDITS_RELEASED) p \<Longrightarrow>
     \<exists>n. e = DbViolation n"
  by (auto simp: writeTransferOutcome_def writeReleaseOutcome_def bindE_eq_Inl reply_event_def
      dest!: insertOutboxEvent_error)

lemmas writeTransferred_error =
  writeTerminal_error(1) [of _ _ _ "CreditsTransferredPayload order requester amount courier i rb cb"
    for order requester amount courier i rb cb, simplified]
lemmas writeReleased_error =
  writeTerminal_error(2) [of _ _ _ "CreditsReleasedPayload order requester amount i rb"
    for order requester amount i rb, simplified]

lemma rejectTerminal_error:
  "rejectTerminal v now input courier ty reason details db = Inl e \<Longrightarrow> \<exists>n. e = DbViolation n"
  by (auto simp: rejectTerminal_def bindE_eq_Inl dest: statement_errors)

lemma replay_errors:
  assumes "result_recorded prior" and "terminal_type (op_type prior) \<longrightarrow> op_outcome prior = SUCCEEDED"
  shows "replayTransferOrReject u now prior input db = Inl e \<Longrightarrow> \<exists>n. e = DbViolation n"
    and "replayReleaseOrReject u now prior input' db = Inl e \<Longrightarrow> \<exists>n. e = DbViolation n"
  using assms
  by (auto simp: replayTransferOrReject_def replayReleaseOrReject_def stored_result_def bindE_eq_Inl
      result_recorded_def terminal_type_def dest: rejectTerminal_error writeTransferred_error writeReleased_error
      split: if_splits)

lemma prior_recorded:
  assumes "credit_ok (economy db)" and "findTerminalOperation order db = Some prior"
  shows "result_recorded prior" and "terminal_type (op_type prior) \<longrightarrow> op_outcome prior = SUCCEEDED"
  using assms findTerminalOperation_Some [OF assms(2)] by (auto simp: credit_ok_def operations_ok_def)

lemma prior_replay_errors:
  assumes "credit_ok (economy db)" and "findTerminalOperation order db = Some prior"
  shows "replayTransferOrReject u now prior input db = Inl e \<Longrightarrow> \<exists>n. e = DbViolation n"
    and "replayReleaseOrReject u now prior input' db = Inl e \<Longrightarrow> \<exists>n. e = DbViolation n"
  by (rule replay_errors [OF prior_recorded [OF assms]]; assumption)+

lemma lockReservation_error: "lockReservation order db = Inl e \<Longrightarrow> retryable e"
  by (auto simp: lockReservation_def retryable_def split: option.splits if_splits)

lemma release_errors:
  assumes ok: "credit_ok (economy db)"
    and valid: "terminalMovement (ti_orderId input) (ti_requesterId input) (ti_amount input)"
    and "release u now input db = Inl e"
  shows "retryable e"
proof (cases "lockReservation (ti_orderId input) db")
  case (Inl err)
  with assms(3) show ?thesis by (simp add: release_def Let_def lockReservation_error)
next
  case lock: (Inr r)
  show ?thesis
  proof (cases "validateReservation r input = None \<and> findTerminalOperation (ti_orderId input) db = None")
    case False
    then have "\<exists>n. e = DbViolation n"
      using assms(3) lock
      by (auto simp: release_def Let_def dest: rejectTerminal_error prior_replay_errors(2) [OF ok]
          split: option.splits prod.splits)
    then show ?thesis by (rule retryable_db)
  next
    case True
    then have None: "validateReservation r input = None" and none: "findTerminalOperation (ti_orderId input) db = None"
      by simp_all
    let ?op = "pending_operation now (ti_orderId input) RELEASE (ti_requesterId input) None (ti_amount input)"
    obtain w where w: "row_of w_userId (ti_requesterId input) (wallets db) = Some w" "ti_amount input \<le> w_reserved w"
      using reservation_backed [OF ok locked_reserved_for [OF lock None] findTerminalOperation_None [OF none]]
      by auto
    have "\<exists>n. e = DbViolation n"
    proof (cases "insertOperation ?op db")
      case (Inl err)
      with assms(3) lock None none show ?thesis
        by (auto simp: release_def Let_def dest: statement_errors)
    next
      case op: (Inr db1)
      let ?upd = "updateWallet (ti_requesterId input) (\<lambda>w. ti_amount input \<le> w_reserved w)
         (\<lambda>w. w\<lparr> w_available := w_available w + ti_amount input,
                 w_reserved := w_reserved w - ti_amount input, w_updatedAt := now \<rparr>) db1"
      show ?thesis
      proof (cases ?upd)
        case (Inl err)
        with assms(3) lock None none op show ?thesis
          by (auto simp: release_def Let_def dest: statement_errors)
      next
        case upd: (Inr p)
        obtain res db2 where p: "p = (res, db2)" by (cases p)
        note some = updateWallet_Some [OF upd [unfolded p], of w]
        have "res = Some (w\<lparr> w_available := w_available w + ti_amount input,
            w_reserved := w_reserved w - ti_amount input, w_updatedAt := now \<rparr>)"
          using some(1) w insertOperation_Inr(1) [OF op] by simp
        with some(2) assms(3) lock None none op upd p valid w insertOperation_Inr(1) [OF op] show ?thesis
          by (auto simp: release_def Let_def bindE_eq_Inl finishTerminal_def
              dest: statement_errors writeReleased_error)
      qed
    qed
    then show ?thesis by (rule retryable_db)
  qed
qed

lemma transfer_errors:
  assumes ok: "credit_ok (economy db)"
    and valid: "terminalMovement (ti_orderId input) (ti_requesterId input) (ti_amount input)"
      "ti_courierId input \<noteq> []"
    and "transfer u now input db = Inl e"
  shows "retryable e"
proof (cases "lockReservation (ti_orderId input) db")
  case (Inl err)
  with assms(4) show ?thesis by (simp add: transfer_def Let_def lockReservation_error)
next
  case lock: (Inr r)
  let ?courier = "ti_courierId input" let ?user = "ti_requesterId input" let ?a = "ti_amount input"
  show ?thesis
  proof (cases "validateReservation r input = None \<and> ?user \<noteq> ?courier \<and>
      findTerminalOperation (ti_orderId input) db = None")
    case False
    then have "\<exists>n. e = DbViolation n"
      using assms(4) lock
      by (auto simp: transfer_def Let_def dest: rejectTerminal_error prior_replay_errors(1) [OF ok]
          split: option.splits prod.splits if_splits)
    then show ?thesis by (rule retryable_db)
  next
    case True
    then have None: "validateReservation r input = None" and none: "findTerminalOperation (ti_orderId input) db = None"
      and diff: "?user \<noteq> ?courier" by simp_all
    let ?op = "pending_operation now (ti_orderId input) TRANSFER ?user (Some ?courier) ?a"
    obtain w where w: "row_of w_userId ?user (wallets db) = Some w" "?a \<le> w_reserved w"
      using reservation_backed [OF ok locked_reserved_for [OF lock None] findTerminalOperation_None [OF none]]
      by auto
    show ?thesis
    proof (cases "?courier \<in> w_userId ` set (wallets db)")
      case False
      with assms(4) lock None none diff show ?thesis by (auto simp: transfer_def Let_def retryable_def)
    next
      case courier: True
      have user: "?user \<in> w_userId ` set (wallets db)" using row_of_Some [OF w(1)] by force
      have "\<exists>n. e = DbViolation n"
      proof (cases "insertOperation ?op db")
        case (Inl err)
        with assms(4) lock None none diff courier user show ?thesis
          by (auto simp: transfer_def Let_def dest: statement_errors)
      next
        case op: (Inr db1)
        show ?thesis
        proof (cases "updateWallet ?user (\<lambda>w. ?a \<le> w_reserved w)
            (\<lambda>w. w\<lparr> w_reserved := w_reserved w - ?a, w_updatedAt := now \<rparr>) db1")
          case (Inl err)
          with assms(4) lock None none diff courier user op show ?thesis
            by (auto simp: transfer_def Let_def dest: statement_errors)
        next
          case upd: (Inr p)
          obtain res db2 where p: "p = (res, db2)" by (cases p)
          let ?rw = "w\<lparr> w_reserved := w_reserved w - ?a, w_updatedAt := now \<rparr>"
          have row: "row_of w_userId ?user (wallets db1) = Some w" using w insertOperation_Inr(1) [OF op] by simp
          note some = updateWallet_Some [OF upd [unfolded p] row w(2)]
          have "?courier \<in> w_userId ` set (wallets db2)"
            using courier some(3) insertOperation_Inr(1) [OF op]
            by simp
          then obtain c where c: "row_of w_userId ?courier (wallets db2) = Some c"
            by (meson not_None_eq row_of_None)
          let ?cf = "\<lambda>w. w\<lparr> w_available := w_available w + ?a, w_updatedAt := now \<rparr>"
          show ?thesis
          proof (cases "updateWallet ?courier (\<lambda>_. True) ?cf db2")
            case (Inl err)
            with assms(4) lock None none diff courier user op upd p some(1) show ?thesis
              by (auto simp: transfer_def Let_def dest: statement_errors)
          next
            case cupd: (Inr q)
            obtain cres db3 where q: "q = (cres, db3)" by (cases q)
            note csome = updateWallet_Some [OF cupd [unfolded q] c TrueI]
            from assms(4) lock None none diff courier user op upd p some(1,2) cupd q csome(1,2) valid show ?thesis
              by (auto simp: transfer_def Let_def bindE_eq_Inl finishTerminal_def
                  dest: statement_errors writeTransferred_error)
          qed
        qed
      qed
      then show ?thesis by (rule retryable_db)
    qed
  qed
qed

text \<open>
  A settlement of a well-formed request never finds the recorded reservation unbacked, the
  recorded outcome unreplayable or its reply malformed: in a reachable state a transfer or a
  release that fails does so because an earlier step is missing, or on a database constraint.
\<close>

theorem settlement_fails_only_retryably:
  assumes "reachable credit_start (credit_step alloc) db"
    and "terminalMovement (ti_orderId tin) (ti_requesterId tin) (ti_amount tin)" and "ti_courierId tin \<noteq> []"
    and "terminalMovement (ti_orderId rin) (ti_requesterId rin) (ti_amount rin)"
  shows "(\<forall>e. transfer u now tin db = Inl e \<longrightarrow> retryable e) \<and>
         (\<forall>e. release u now rin db = Inl e \<longrightarrow> retryable e)"
proof -
  have "credit_ok (economy db)" using credit.holds [OF assms(1)] by (simp add: credit_inv_def)
  with assms(2-4) show ?thesis using transfer_errors release_errors by blast
qed

definition demo_release_input :: terminal_input where
  "demo_release_input = \<lparr> ti_orderId = ''o1'', ti_requesterId = ''alice'', ti_amount = 3,
     ti_correlationId = ''c'', ti_causationId = ''e5'' \<rparr>"

definition demo_transfer_input :: transfer_input where
  "demo_transfer_input = \<lparr> ti_orderId = ''o1'', ti_requesterId = ''alice'', ti_amount = 3,
     ti_correlationId = ''c'', ti_causationId = ''e5'', ti_courierId = ''bob'' \<rparr>"

theorem settlement_fails_only_retryably_witness:
  "(case transfer (demo_ids CHR ''x'') 4 (demo_transfer_input\<lparr> ti_orderId := ''o2'' \<rparr>) demo_reserved of
      Inl e \<Rightarrow> retryable e | Inr _ \<Rightarrow> False) \<and>
   (case release (demo_ids CHR ''x'') 4 (demo_release_input\<lparr> ti_orderId := ''o2'' \<rparr>) demo_reserved of
      Inl e \<Rightarrow> retryable e | Inr _ \<Rightarrow> False)"
proof -
  have "isl (transfer (demo_ids CHR ''x'') 4 (demo_transfer_input\<lparr> ti_orderId := ''o2'' \<rparr>) demo_reserved)"
    "isl (release (demo_ids CHR ''x'') 4 (demo_release_input\<lparr> ti_orderId := ''o2'' \<rparr>) demo_reserved)"
    by code_simp+
  with settlement_fails_only_retryably [OF demo_credit_reachable(1),
      of "demo_transfer_input\<lparr> ti_orderId := ''o2'' \<rparr>" "demo_release_input\<lparr> ti_orderId := ''o2'' \<rparr>"
         "demo_ids CHR ''x''" 4]
  show ?thesis
    by (auto simp: demo_transfer_input_def demo_release_input_def terminalMovement_def
      positive_int_def safe_int_def split: sum.splits)
qed

section \<open>Replies repeat the recorded outcome\<close>

lemma find_member: "find p xs = Some x \<Longrightarrow> x \<in> set xs \<and> p x"
  by (auto simp: find_Some_iff in_set_conv_nth)

lemma find_unique: "length (filter p xs) \<le> 1 \<Longrightarrow> x \<in> set xs \<Longrightarrow> p x \<Longrightarrow> find p xs = Some x"
  by (induction xs) (auto simp: filter_empty_conv)

lemma at_most_one:
  assumes "length (filter p xs) \<le> 1" and "x \<in> set xs" and "p x" and "y \<in> set xs" and "p y"
  shows "x = y"
  using find_unique [OF assms(1-3)] find_unique [OF assms(1,4,5)] by simp

lemma find_unique_iff: "length (filter p xs) \<le> 1 \<Longrightarrow> find p xs = Some x \<longleftrightarrow> x \<in> set xs \<and> p x"
  using find_member find_unique by metis

definition recorded_outcome :: "credit_operation \<Rightarrow> reservation_outcome" where
  "recorded_outcome x =
     (if op_outcome x = SUCCEEDED then Reserved (the (op_transactionId x))
      else Rejected (the (op_rejectionReason x)) (op_availableAtDecision x))"

text \<open>The reply that states an outcome.\<close>

definition reply_payload :: "reservation_input \<Rightarrow> reservation_outcome \<Rightarrow> payload" where
  "reply_payload input out =
     (case out of
        Reserved _ \<Rightarrow> CreditsReservedPayload (ri_orderId input) (ri_requesterId input) (ri_amount input)
      | Rejected reason available \<Rightarrow> refusal_payload input reason available)"

lemma insertOutboxEvent_succeeds:
  fixes db :: "'a service_db_scheme"
  assumes "PAYLOAD_SCHEMAS (ne_eventType event) = Some schema" and "schema (ne_payload event)"
    and "ne_id event = None" and "v \<notin> ob_id ` set (outbox_events db)"
  shows "\<exists>db' row. insertOutboxEvent v now event db = Inr (v, db') \<and>
    outbox_events db' = outbox_events db @ [row] \<and> ob_payload row = ne_payload event \<and>
    ob_eventType row = ne_eventType event \<and> ob_aggregateId row = ne_aggregateId event \<and>
    service_db.more db' = service_db.more db"
  using assms by (simp add: insertOutboxEvent_def toOutboxRow_def outbox_row_of_def)

lemma writeOutcome_succeeds:
  assumes "reservation (ri_orderId input) (ri_requesterId input) (ri_amount input)"
    and "v \<notin> ob_id ` set (outbox_events db)"
    and "\<And>reason av. out = Rejected reason av \<Longrightarrow> reason = Rej_INSUFFICIENT_CREDITS \<Longrightarrow>
           \<exists>a. av = Some a \<and> nonnegative_int a"
  shows "\<exists>db' row. writeOutcome v now input out db = Inr db' \<and>
    outbox_events db' = outbox_events db @ [row] \<and> ob_payload row = reply_payload input out \<and>
    economy db' = economy db"
proof -
  define event where "event = (case out of
          Reserved _ \<Rightarrow> reply_event CREDITS_RESERVED (ri_orderId input)
            (CreditsReservedPayload (ri_orderId input) (ri_requesterId input) (ri_amount input))
            (ri_correlationId input) (ri_causationId input)
        | Rejected reason available \<Rightarrow> reply_event CREDIT_RESERVATION_REJECTED (ri_orderId input)
            (refusal_payload input reason available) (ri_correlationId input) (ri_causationId input))"
  have "\<exists>schema. PAYLOAD_SCHEMAS (ne_eventType event) = Some schema \<and> schema (ne_payload event)"
    using assms(1,3)
    by (auto simp: event_def reply_event_def refusal_payload_def Let_def
        split: reservation_outcome.splits reservation_rejection.splits option.splits)
  moreover have "ne_id event = None" "ne_payload event = reply_payload input out"
    by (auto simp: event_def reply_event_def reply_payload_def split: reservation_outcome.splits)
  ultimately obtain db' row where "insertOutboxEvent v now event db = Inr (v, db')"
    "outbox_events db' = outbox_events db @ [row]" "ob_payload row = reply_payload input out"
    "service_db.more db' = service_db.more db"
    using insertOutboxEvent_succeeds [of event _ v db now] assms(2) by metis
  then show ?thesis
    using economy_more(1) [of db' db] by (auto simp: writeOutcome_def event_def Let_def)
qed

text \<open>
  A repeated reservation request is answered with the recorded outcome. In a reachable state
  in which the errand's reservation is on record with the same requester and amount, asking again
  changes no balance, ledger entry or operation, and appends exactly one reply, which states the
  outcome recorded the first time.
\<close>

theorem reservation_reply_is_repeated:
  assumes "reachable credit_start (credit_step alloc) db"
    and "x \<in> set (credit_operations db)" and "op_type x = RESERVE"
    and "op_orderId x = ri_orderId input" and "op_requesterId x = ri_requesterId input"
    and "op_amount x = ri_amount input"
    and "reservation (ri_orderId input) (ri_requesterId input) (ri_amount input)"
    and "int4 (ri_amount input)" and "u 0 \<notin> ob_id ` set (outbox_events db)"
  shows "\<exists>db' row. reserve u now input db = Inr (recorded_outcome x, db') \<and>
    economy db' = economy db \<and> outbox_events db' = outbox_events db @ [row] \<and>
    ob_payload row = reply_payload input (recorded_outcome x)"
proof -
  have ops: "operations_ok (economy db)"
    using credit.holds [OF assms(1)] by (simp add: credit_inv_def credit_ok_def)
  then have x: "op_outcome x \<noteq> PENDING" "op_outcome x = Op_REJECTED \<longrightarrow> rejection_recorded x"
    using assms(2) by (auto simp: operations_ok_def)
  have "length (filter (same_order (ri_orderId input) RESERVE) (credit_operations db)) \<le> 1"
    using ops by (simp add: operations_ok_def)
  then have found: "find (\<lambda>y. op_orderId y = ri_orderId input \<and> op_type y = RESERVE) (credit_operations db) = Some x"
    using assms(2-4) by (intro find_unique) (simp_all add: same_order_def [abs_def])
  have "(ri_orderId input, RESERVE) \<in> (\<lambda>y. (op_orderId y, op_type y)) ` set (credit_operations db)"
    using assms(2-4) by (intro image_eqI [of _ _ x]) simp_all
  then have claim: "claimOperation (pending_operation now (ri_orderId input) RESERVE (ri_requesterId input)
      None (ri_amount input)) db = Inr (False, db)"
    using assms(7,8) by (simp add: claimOperation_def operation_row_checks_def pending_operation_def
        reservation_def positive_int_def constraints.simps)
  obtain db' row where "writeOutcome (u 0) now input (recorded_outcome x) db = Inr db'"
    "outbox_events db' = outbox_events db @ [row]" "ob_payload row = reply_payload input (recorded_outcome x)"
    "economy db' = economy db"
    using writeOutcome_succeeds [OF assms(7,9), of "recorded_outcome x" now] x
    by (cases "op_outcome x") (auto simp: recorded_outcome_def rejection_recorded_def)
  with claim found x(1) assms(5,6) show ?thesis
    by (auto simp: reserve_def replayOrRejectConflict_def recorded_outcome_def Let_def)
qed

definition demo_reservation_input :: reservation_input where
  "demo_reservation_input = \<lparr> ri_orderId = ''o1'', ri_requesterId = ''alice'', ri_amount = 3,
     ri_correlationId = ''c'', ri_causationId = ''e3'' \<rparr>"

lemma demo_operation:
  "\<exists>x \<in> set (credit_operations demo_transferred). op_type x = RESERVE \<and> op_orderId x = ''o1'' \<and>
     op_requesterId x = ''alice'' \<and> op_amount x = 3 \<and> op_outcome x = SUCCEEDED"
  "\<exists>x \<in> set (credit_operations demo_transferred). op_type x = TRANSFER \<and> op_orderId x = ''o1''"
  "demo_ids CHR ''x'' 0 \<notin> ob_id ` set (outbox_events demo_transferred)"
  by code_simp+

theorem reservation_reply_is_repeated_witness:
  "\<exists>out db' row. reserve (demo_ids CHR ''x'') 4 demo_reservation_input demo_transferred = Inr (out, db') \<and>
     economy db' = economy demo_transferred \<and>
     outbox_events db' = outbox_events demo_transferred @ [row] \<and>
     ob_payload row = CreditsReservedPayload ''o1'' ''alice'' 3"
proof -
  from demo_operation(1) obtain x where x: "x \<in> set (credit_operations demo_transferred)"
    "op_type x = RESERVE" "op_orderId x = ''o1''" "op_requesterId x = ''alice''" "op_amount x = 3"
    "op_outcome x = SUCCEEDED" by blast
  have valid: "reservation ''o1'' ''alice'' 3" "int4 3"
    by (simp_all add: reservation_def positive_int_def safe_int_def int4_def)
  have "reply_payload demo_reservation_input (recorded_outcome x) = CreditsReservedPayload ''o1'' ''alice'' 3"
    using x(6) by (simp add: reply_payload_def recorded_outcome_def demo_reservation_input_def)
  with reservation_reply_is_repeated [OF demo_credit_reachable(2) x(1,2), of demo_reservation_input
      "demo_ids CHR ''x''" 4] x valid demo_operation(3)
  show ?thesis by (auto simp: demo_reservation_input_def)
qed

text \<open>
  C11. Everything the Credit Service tells the others is true: in every reachable state, each event
  in its outbox states an operation on record. A reservation is announced only when it succeeded
  for this requester and amount, a refusal states the recorded reason and balance (a conflict,
  that another request is on record), and a transfer or release restates the recorded result.
\<close>

theorem credit_replies_are_true:
  assumes "reachable credit_start (credit_step alloc) db" and "r \<in> set (outbox_events db)"
  shows "reply_true (economy db) (row_event r)"
  using credit_talk.holds [OF assms(1)] assms(2) by (simp add: replies_true_def)

theorem credit_replies_are_true_witness:
  "list_all (\<lambda>r. reply_true (economy demo_transferred) (row_event r)) (outbox_events demo_transferred) \<and>
   map ob_eventType (outbox_events demo_transferred) = [CREDITS_RESERVED, CREDITS_TRANSFERRED]"
proof
  show "list_all (\<lambda>r. reply_true (economy demo_transferred) (row_event r)) (outbox_events demo_transferred)"
    using credit_replies_are_true [OF demo_credit_reachable(2)] by (simp add: list_all_iff)
  show "map ob_eventType (outbox_events demo_transferred) = [CREDITS_RESERVED, CREDITS_TRANSFERRED]"
    by code_simp
qed

section \<open>One settlement per errand\<close>

lemma settled_find:
  assumes "operations_ok (economy db)" and "x \<in> set (credit_operations db)" and "terminal_type (op_type x)"
  shows "findTerminalOperation (op_orderId x) db = Some x"
  unfolding findTerminalOperation_def
  using assms by (intro find_unique) (simp_all add: operations_ok_def)

text \<open>
  An errand's credits are settled once. In a reachable state in which the errand has a
  terminal operation, no completion or release request for it moves anything: either it is
  refused, or it repeats the recorded operation exactly (the same kind, requester, amount and
  courier) and the reply restates the recorded result.
\<close>

theorem errand_settles_once:
  assumes "reachable credit_start (credit_step alloc) db"
    and "x \<in> set (credit_operations db)" and "terminal_type (op_type x)"
  shows "(ti_orderId tin = op_orderId x \<longrightarrow> transfer u now tin db = Inr (out, db') \<longrightarrow>
            economy db' = economy db \<and>
            (\<forall>p. out = Settled p \<longrightarrow> op_resultPayload x = Some p \<and> op_type x = TRANSFER \<and>
               op_requesterId x = ti_requesterId tin \<and> op_amount x = ti_amount tin \<and>
               op_courierId x = Some (ti_courierId tin))) \<and>
         (ti_orderId rin = op_orderId x \<longrightarrow> release u now rin db = Inr (out, db') \<longrightarrow>
            economy db' = economy db \<and>
            (\<forall>p. out = Settled p \<longrightarrow> op_resultPayload x = Some p \<and> op_type x = RELEASE \<and>
               op_requesterId x = ti_requesterId rin \<and> op_amount x = ti_amount rin))"
proof -
  have ops: "operations_ok (economy db)"
    using credit.holds [OF assms(1)] by (simp add: credit_inv_def credit_ok_def)
  note found = settled_find [OF ops assms(2,3)]
  have settled: "settled_op (economy db) (op_orderId x)" using assms(2,3) by (auto simp: settled_op_def)
  have "economy db' = economy db" if "ti_orderId tin = op_orderId x" "transfer u now tin db = Inr (out, db')"
    using that(2)
    by (cases rule: transfer_cases) (use settled that(1) in \<open>auto dest: rejectTerminal_economy replay_economy\<close>)
  moreover have "economy db' = economy db" if "ti_orderId rin = op_orderId x" "release u now rin db = Inr (out, db')"
    using that(2)
    by (cases rule: release_cases) (use settled that(1) in \<open>auto dest: rejectTerminal_economy replay_economy\<close>)
  moreover have "op_resultPayload x = Some p \<and> op_type x = TRANSFER \<and> op_requesterId x = ti_requesterId tin \<and>
      op_amount x = ti_amount tin \<and> op_courierId x = Some (ti_courierId tin)"
    if "ti_orderId tin = op_orderId x" "transfer u now tin db = Inr (Settled p, db')" for p
    using that found
    by (auto simp: transfer_def Let_def bindE_eq_Inr replayTransferOrReject_def stored_result_def
        dest: rejectTerminal_economy split: option.splits if_splits prod.splits)
  moreover have "op_resultPayload x = Some p \<and> op_type x = RELEASE \<and> op_requesterId x = ti_requesterId rin \<and>
      op_amount x = ti_amount rin"
    if "ti_orderId rin = op_orderId x" "release u now rin db = Inr (Settled p, db')" for p
    using that found
    by (auto simp: release_def Let_def bindE_eq_Inr replayReleaseOrReject_def stored_result_def
        dest: rejectTerminal_economy split: option.splits if_splits prod.splits)
  ultimately show ?thesis by blast
qed

theorem errand_settles_once_witness:
  "\<exists>out db'. release (demo_ids CHR ''x'') 4 demo_release_input demo_transferred = Inr (out, db') \<and>
     economy db' = economy demo_transferred \<and> (\<forall>p. out \<noteq> Settled p)"
proof -
  from demo_operation(2) obtain x where x: "x \<in> set (credit_operations demo_transferred)"
    "op_type x = TRANSFER" "op_orderId x = ''o1''" by blast
  have "\<not> isl (release (demo_ids CHR ''x'') 4 demo_release_input demo_transferred)" by code_simp
  then obtain out db' where run: "release (demo_ids CHR ''x'') 4 demo_release_input demo_transferred = Inr (out, db')"
    by (cases "release (demo_ids CHR ''x'') 4 demo_release_input demo_transferred") auto
  have "ti_orderId demo_release_input = op_orderId x" using x(3) by (simp add: demo_release_input_def)
  moreover have "terminal_type (op_type x)" using x(2) by (simp add: terminal_type_def)
  note errand_settles_once [OF demo_credit_reachable(2) x(1) this, of undefined "demo_ids CHR ''x''"
      4 out db' demo_release_input]
  ultimately have "economy db' = economy demo_transferred \<and> (\<forall>p. out \<noteq> Settled p)"
    using run x(2) by simp
  with run show ?thesis by blast
qed

section \<open>The status of an errand\<close>

text \<open>The recorded operations of an errand, and when its status refers to them.\<close>

lemma find_order:
  assumes "operations_ok (economy db)"
  shows "find (\<lambda>x. op_type x = RESERVE) (sort_key f (filter (\<lambda>x. op_orderId x = order) (credit_operations db)))
      = Some x \<longleftrightarrow> x \<in> set (credit_operations db) \<and> same_order order RESERVE x"
    and "find (\<lambda>x. op_type x \<noteq> RESERVE) (sort_key f (filter (\<lambda>x. op_orderId x = order) (credit_operations db)))
      = Some x \<longleftrightarrow> x \<in> set (credit_operations db) \<and> op_orderId x = order \<and> terminal_type (op_type x)"
proof -
  let ?rows = "sort_key f (filter (\<lambda>x. op_orderId x = order) (credit_operations db))"
  have types: "op_type y \<noteq> RESERVE \<longleftrightarrow> terminal_type (op_type y)" if "y \<in> set (credit_operations db)" for y
    using assms that by (cases "op_type y") (auto simp: operations_ok_def terminal_type_def)
  have "length (filter (\<lambda>x. op_type x = RESERVE) ?rows) =
      length (filter (same_order order RESERVE) (credit_operations db))"
    by (simp add: filter_sort conj_commute same_order_def [abs_def])
  also have "\<dots> \<le> 1" using assms by (simp add: operations_ok_def)
  finally have one: "length (filter (\<lambda>x. op_type x = RESERVE) ?rows) \<le> 1" .
  show "find (\<lambda>x. op_type x = RESERVE) ?rows = Some x \<longleftrightarrow> x \<in> set (credit_operations db) \<and> same_order order RESERVE x"
    by (auto simp: find_unique_iff [OF one] same_order_def)
  have "length (filter (\<lambda>x. op_type x \<noteq> RESERVE) ?rows) =
      length (filter (\<lambda>x. op_orderId x = order \<and> terminal_type (op_type x)) (credit_operations db))"
    using types by (simp add: filter_sort) (metis (mono_tags, lifting) filter_cong)
  also have "\<dots> \<le> 1" using assms by (simp add: operations_ok_def)
  finally have two: "length (filter (\<lambda>x. op_type x \<noteq> RESERVE) ?rows) \<le> 1" .
  show "find (\<lambda>x. op_type x \<noteq> RESERVE) ?rows = Some x \<longleftrightarrow>
      x \<in> set (credit_operations db) \<and> op_orderId x = order \<and> terminal_type (op_type x)"
    using types by (auto simp: find_unique_iff [OF two])
qed

lemma op_reference_None [simp]: "op_reference db None = None"
  by (simp add: op_reference_def)

lemma op_reference_recorded:
  assumes "transactions_ok (economy db)" and "operations_ok (economy db)" and "x \<in> set (credit_operations db)"
  shows "op_reference db (Some x) = None \<longleftrightarrow> op_outcome x \<noteq> SUCCEEDED"
    and "op_reference db (Some x) = Some r \<Longrightarrow> tr_type r = op_type x"
proof -
  have "\<exists>t. operation_time db x = Some t \<and> op_transactionId x \<noteq> None" if succ: "op_outcome x = SUCCEEDED"
  proof -
    from succ assms(2,3) obtain t where t: "t \<in> set (credit_transactions db)" "records x t"
      by (auto simp: operations_ok_def)
    moreover have "row_of t_id (t_id t) (credit_transactions db) = Some t"
      using assms(1) t(1) by (intro row_of_member) (simp_all add: transactions_ok_def)
    ultimately show ?thesis by (simp add: operation_time_def records_def)
  qed
  then show "op_reference db (Some x) = None \<longleftrightarrow> op_outcome x \<noteq> SUCCEEDED"
    by (auto simp: op_reference_def split: operation_outcome.splits option.splits)
  show "op_reference db (Some x) = Some r \<Longrightarrow> tr_type r = op_type x"
    by (auto simp: op_reference_def split: operation_outcome.splits option.splits)
qed

lemma has_transaction:
  assumes "operations_ok (economy db)" and "ty \<noteq> ISSUE"
  shows "(\<exists>t \<in> set (credit_transactions db). t_orderId t = Some order \<and> t_type t = ty) \<longleftrightarrow>
    (\<exists>x \<in> set (credit_operations db). same_order order ty x \<and> op_outcome x = SUCCEEDED)"
  using assms unfolding operations_ok_def same_order_def records_def by (fastforce simp: records_def)

lemma orderStatus_transactions:
  assumes "credit_ok (economy db)"
  shows "cs_status (orderStatus order db) =
    (if \<exists>t \<in> set (credit_transactions db). t_orderId t = Some order \<and> t_type t = TRANSFER then St_TRANSFERRED
     else if \<exists>t \<in> set (credit_transactions db). t_orderId t = Some order \<and> t_type t = RELEASE then St_RELEASED
     else if \<exists>t \<in> set (credit_transactions db). t_orderId t = Some order \<and> t_type t = RESERVE then St_RESERVED
     else NONE)"
proof -
  have oks: "transactions_ok (economy db)" "operations_ok (economy db)"
    using assms by (simp_all add: credit_ok_def)
  let ?rows = "sort_key (\<lambda>x. if op_type x = RESERVE then 1 else 2 :: nat)
                   (filter (\<lambda>x. op_orderId x = order) (credit_operations db))"
  let ?has = "\<lambda>ty. \<exists>t \<in> set (credit_transactions db). t_orderId t = Some order \<and> t_type t = ty"
  note has = has_transaction [OF oks(2)]
  show ?thesis
  proof (cases "find (\<lambda>x. op_type x \<noteq> RESERVE) ?rows")
    case (Some x)
    then have x: "x \<in> set (credit_operations db)" "op_orderId x = order" "terminal_type (op_type x)"
      using find_order(2) [OF oks(2)] by auto
    then have succ: "op_outcome x = SUCCEEDED" using oks(2) by (auto simp: operations_ok_def)
    then obtain r where r: "op_reference db (Some x) = Some r" "tr_type r = op_type x"
      using op_reference_recorded [OF oks x(1)] by auto
    have uniq: "y = x" if "y \<in> set (credit_operations db)" "op_orderId y = order" "terminal_type (op_type y)" for y
      using settled_find [OF oks(2) x(1,3)] settled_find [OF oks(2) that(1,3)] x(2) that(2) by simp
    have only: "?has ty \<longleftrightarrow> op_type x = ty" if ty: "terminal_type ty" for ty
    proof -
      have "ty \<noteq> ISSUE" using ty by (auto simp: terminal_type_def)
      show ?thesis unfolding has [OF \<open>ty \<noteq> ISSUE\<close>] using x succ ty uniq unfolding same_order_def by blast
    qed
    have "?has TRANSFER \<longleftrightarrow> op_type x = TRANSFER" and "?has RELEASE \<longleftrightarrow> op_type x = RELEASE"
      by (rule only, simp add: terminal_type_def)+
    with r Some x(3) show ?thesis by (auto simp: orderStatus_def Let_def terminal_type_def)
  next
    case None
    then have "\<not> terminal_type (op_type y)" if "y \<in> set (credit_operations db)" "op_orderId y = order" for y
      using that find_order(2) [OF oks(2)] by (metis option.distinct(1))
    then have none: "\<not> ?has TRANSFER" "\<not> ?has RELEASE"
      by (subst has; auto simp: same_order_def terminal_type_def)+
    show ?thesis
    proof (cases "find (\<lambda>x. op_type x = RESERVE) ?rows")
      case found: (Some x)
      then have x: "x \<in> set (credit_operations db)" "same_order order RESERVE x"
        using find_order(1) [OF oks(2)] by auto
      have uniq: "y = x" if "y \<in> set (credit_operations db)" "same_order order RESERVE y" for y
        using find_order(1) [OF oks(2), of _ order] x that by (metis option.inject)
      have "?has RESERVE \<longleftrightarrow> op_outcome x = SUCCEEDED"
        unfolding has [of RESERVE, simplified] using x uniq by blast
      moreover have "op_reference db (Some x) = None \<longleftrightarrow> op_outcome x \<noteq> SUCCEEDED"
        by (rule op_reference_recorded(1) [OF oks x(1)])
      ultimately show ?thesis
        using None found none
        by (cases "op_reference db (Some x)") (auto simp: orderStatus_def Let_def)
    next
      case absent: None
      then have "\<not> ?has RESERVE"
        unfolding has [of RESERVE, simplified] using find_order(1) [OF oks(2)]
        by (metis option.distinct(1))
      with none show ?thesis
        unfolding orderStatus_def Let_def None absent op_reference_None option.case by simp
    qed
  qed
qed

text \<open>
  The status the service reports is the status of the economy: transferred or released
  exactly when the errand has that transaction, reserved exactly when its reservation has not
  been settled, and none when nothing was ever reserved for it.
\<close>

theorem order_status_is_truthful:
  assumes "reachable credit_start (credit_step alloc) db"
  shows "cs_status (orderStatus order db) =
    (if \<exists>t \<in> set (credit_transactions db). t_orderId t = Some order \<and> t_type t = TRANSFER then St_TRANSFERRED
     else if \<exists>t \<in> set (credit_transactions db). t_orderId t = Some order \<and> t_type t = RELEASE then St_RELEASED
     else if \<exists>t \<in> set (credit_transactions db). t_orderId t = Some order \<and> t_type t = RESERVE then St_RESERVED
     else NONE)"
  using credit.holds [OF assms] by (intro orderStatus_transactions) (simp add: credit_inv_def)

theorem order_status_is_truthful_witness: "cs_status (orderStatus ''o1'' demo_transferred) = St_TRANSFERRED"
proof -
  have "\<exists>t \<in> set (credit_transactions demo_transferred). t_orderId t = Some ''o1'' \<and> t_type t = TRANSFER"
    by code_simp
  then show ?thesis using order_status_is_truthful [OF demo_credit_reachable(2)] by simp
qed

section \<open>One wallet per activation\<close>

lemma handleActivation_inbox:
  "handleActivation alloc u now env db = Inr (x, db') \<Longrightarrow> processed_events db' = processed_events db"
  by (auto simp: handleActivation_def issueInitial_def Let_def bindE_eq_Inr dest!: insertTransaction_Inr(1)
      insertEntries_Inr split: payload.splits if_splits)

interpretation activations: exactly_once
  "\<lambda>(u, now). deliverActivation alloc u now" "processed_by WALLET_QUEUE" for alloc
  using withInbox_exactly_once [of "\<lambda>(u, now). handleActivation alloc u now" snd WALLET_QUEUE]
  by (simp add: deliverActivation_def [abs_def] split_def handleActivation_inbox)

text \<open>
  However often a message announcing an activation is delivered, in whatever order with
  others and whichever deliveries fail, it is applied at most once; and a second activation of a
  user who has a wallet issues nothing.
\<close>

theorem activation_applied_once:
  "times_applied i ds (fst (run_deliveries (\<lambda>(u, now). deliverActivation alloc u now) ds db)) \<le> 1 \<and>
   (user \<in> w_userId ` set (wallets db) \<and> issueInitial alloc u now user db = Inr (issued, db') \<longrightarrow>
      \<not> issued \<and> db' = db)"
  using activations.applied_at_most_once [of i ds alloc db]
  by (auto simp: issueInitial_def Let_def bindE_eq_Inr)

theorem activation_applied_once_witness:
  "issueInitial 10 (demo_ids CHR ''x'') 4 ''bob'' demo_transferred = Inr (False, demo_transferred)"
proof -
  have "''bob'' \<in> w_userId ` set (wallets demo_transferred)" by code_simp
  moreover have "\<not> isl (issueInitial 10 (demo_ids CHR ''x'') 4 ''bob'' demo_transferred)" by code_simp
  then obtain issued db' where "issueInitial 10 (demo_ids CHR ''x'') 4 ''bob'' demo_transferred = Inr (issued, db')"
    by (cases "issueInitial 10 (demo_ids CHR ''x'') 4 ''bob'' demo_transferred") auto
  ultimately show ?thesis
    using activation_applied_once [of "[]" "[]" 10 demo_transferred "''bob''"] by auto
qed

end
