(* ===== verification/Order_Properties.thy ===== *)
theory Order_Properties
  imports Order_System
begin

text \<open>
  What the Order Service guarantees: its histories, receipts and credit requests in every
  reachable state, that a refused command leaves no trace, that an errand is accepted once, that
  a key repeats nothing, and what a stranger can see. A small run of the service, from a posted
  errand to a completed one, provides the concrete states.
\<close>

section \<open>A run of the service\<close>

definition demo_env :: order_env where
  "demo_env = \<lparr> ACCEPTANCE_WINDOW_MS = 1000, DELIVERY_PERIOD_MS = 1000, AUTO_CONFIRM_MS = 1000 \<rparr>"

definition demo_hash :: "request_body \<Rightarrow> string" where
  "demo_hash body = (case body of Create_body _ \<Rightarrow> ''c'' | Command_body _ a _ _ \<Rightarrow> if a = CANCEL then ''x'' else ''h'')"

definition demo_uuids :: "char \<Rightarrow> uuids" where
  "demo_uuids c n = c # replicate n CHR ''0''"

definition demo_supplier :: supplier_snapshot where
  "demo_supplier = \<lparr> ss_supplierId = ''s'', ss_name = ''Deck'', ss_type = ''canteen'',
     ss_building = ''COM1'', ss_floor = ''1'', ss_locationDescription = ''hall'' \<rparr>"

definition demo_input :: create_order_input where
  "demo_input = \<lparr> ci_supplierId = ''s'',
     ci_items = [\<lparr> it_name = ''tea'', it_quantity = 1, it_note = Some ''hot'' \<rparr>],
     ci_deliveryZone = ''COM3'', ci_deliveryInstructions = ''door'', ci_reward = 3 \<rparr>"

definition alice :: auth_context where
  "alice = \<lparr> ac_userId = ''alice'', ac_isAdmin = False \<rparr>"

definition bob :: auth_context where
  "bob = \<lparr> ac_userId = ''bob'', ac_isAdmin = False \<rparr>"

definition carol :: auth_context where
  "carol = \<lparr> ac_userId = ''carol'', ac_isAdmin = False \<rparr>"

definition empty_db :: order_db where
  "empty_db = \<lparr> outbox_events = [], outbox_seq = 0, processed_events = [], orders = [],
     order_status_history = [], order_receipts = [], order_operator_alerts = [],
     order_reconciliation_attempts = [], order_idempotency_keys = [],
     order_command_idempotency_keys = [] \<rparr>"

definition demo_posted :: order_db where
  "demo_posted = snd (createOrder demo_hash (\<lambda>_. Inr demo_supplier) (demo_uuids CHR ''a'') 1000 1000
     demo_input ''k'' alice ''cor'' empty_db empty_db)"

text \<open>The errand's id is the first UUID drawn.\<close>

definition demo_id :: ident where
  "demo_id = ''a''"

definition demo_envelope :: "ident \<Rightarrow> event_type \<Rightarrow> payload \<Rightarrow> envelope" where
  "demo_envelope i ty p = \<lparr> eventId = i, eventType = ty, schemaVersion = 1, aggregateId = demo_id,
     occurredAt = 0, producer = ''credit-service'', correlationId = ''cor'', causationId = ''cor'',
     ev_payload = p \<rparr>"

definition demo_open :: order_db where
  "demo_open = snd (deliverReservationResult demo_env (demo_uuids CHR ''b'') 2000 (\<lambda>_. Inr False)
     (demo_envelope ''e1'' CREDITS_RESERVED (CreditsReservedPayload demo_id ''alice'' 3)) demo_posted)"

definition demo_accepted :: order_db where
  "demo_accepted = snd (acceptOrder demo_hash (demo_uuids CHR ''d'') 3000 3000 demo_id 2 bob ''cor'' (Some ''k1'') demo_open)"

definition demo_command :: "char \<Rightarrow> time \<Rightarrow> order_action \<Rightarrow> int \<Rightarrow> auth_context \<Rightarrow> order_db \<Rightarrow> order_db" where
  "demo_command c t action version caller db =
     snd (command demo_env demo_hash (demo_uuids c) t t demo_id action version caller ''cor'' None no_check None db)"

definition demo_picked_up :: order_db where
  "demo_picked_up = demo_command CHR ''f'' 4000 RECORD_PICKUP 3 bob demo_accepted"

definition demo_delivered :: order_db where
  "demo_delivered = demo_command CHR ''g'' 5000 RECORD_DELIVERY 4 bob demo_picked_up"

definition demo_confirmed :: order_db where
  "demo_confirmed = demo_command CHR ''h'' 6000 CONFIRM_RECEIPT 5 alice demo_delivered"

definition demo_balance :: resulting_balance where
  "demo_balance = \<lparr> rb_available = 5, rb_reserved = 0, rb_total = 5 \<rparr>"

definition demo_completed :: order_db where
  "demo_completed = snd (deliverTransferResult demo_env (demo_uuids CHR ''i'') 7000
     (demo_envelope ''e2'' CREDITS_TRANSFERRED
        (CreditsTransferredPayload demo_id ''alice'' 3 ''bob'' ''t1'' demo_balance demo_balance)) demo_confirmed)"

abbreviation demo_reachable_order :: "order_db \<Rightarrow> bool" where
  "demo_reachable_order \<equiv> reachable order_start (order_step demo_env)"

lemma demo_command_reachable: "demo_reachable_order db \<Longrightarrow> demo_reachable_order (demo_command c t a v who db)"
  unfolding demo_command_def
  by (erule reachable_step) (rule order_step.own, rule order_local.commanded, rule surjective_pairing)

lemma demo_run_reachable:
  "demo_reachable_order demo_posted" "demo_reachable_order demo_open"
  "demo_reachable_order demo_accepted" "demo_reachable_order demo_picked_up"
  "demo_reachable_order demo_delivered" "demo_reachable_order demo_confirmed"
  "demo_reachable_order demo_completed"
proof -
  have "order_start empty_db" by (simp add: order_start_def empty_db_def)
  then have "demo_reachable_order empty_db" by (rule reachable_init)
  then show posted: "demo_reachable_order demo_posted"
    unfolding demo_posted_def by (rule reachable_step) (rule order_step.own, rule order_local.create, rule surjective_pairing)
  then show opened: "demo_reachable_order demo_open"
    unfolding demo_open_def by (rule reachable_step) (rule order_step.reservation_result, rule surjective_pairing)
  then show accepted: "demo_reachable_order demo_accepted"
    unfolding demo_accepted_def by (rule reachable_step) (rule order_step.own, rule order_local.accept, rule surjective_pairing)
  then show picked: "demo_reachable_order demo_picked_up"
    unfolding demo_picked_up_def by (rule demo_command_reachable)
  then show delivered: "demo_reachable_order demo_delivered"
    unfolding demo_delivered_def by (rule demo_command_reachable)
  then show confirmed: "demo_reachable_order demo_confirmed"
    unfolding demo_confirmed_def by (rule demo_command_reachable)
  then show "demo_reachable_order demo_completed"
    unfolding demo_completed_def by (rule reachable_step) (rule order_step.transfer_result, rule surjective_pairing)
qed

lemma demo_statuses:
  "map o_status (orders demo_posted @ orders demo_open @ orders demo_accepted @ orders demo_picked_up @
     orders demo_delivered @ orders demo_confirmed @ orders demo_completed) =
   [PENDING_CREDIT, OPEN, ACCEPTED, PICKED_UP, DELIVERED, COMPLETION_PENDING_CREDIT, COMPLETED]"
  by code_simp

section \<open>Histories, requests and receipts\<close>

lemma reachable_errands: "reachable order_start (order_step e) db \<Longrightarrow> errands_ok (errands db)"
  using errand_system.holds [of e db] by (simp add: order_inv_def)

lemma order_unique:
  assumes "orders_ok s" and "x \<in> set (er_orders s)" and "y \<in> set (er_orders s)" and "o_orderId x = o_orderId y"
  shows "x = y"
proof -
  have "inj_on o_orderId (set (er_orders s))" using assms(1) by (simp add: orders_ok_def distinct_map)
  from this assms(4,2,3) show ?thesis by (rule inj_onD)
qed

lemma request_row:
  "r \<in> set rows \<Longrightarrow> ob_eventType r \<in> credit_request_types \<Longrightarrow>
     (ob_eventType r, ob_aggregateId r, ob_payload r) \<in> requests_in rows"
  by (auto simp: requests_in_def)

lemma history_of_life: "history_of db i = life_of (errands db) i"
  by (simp add: history_of_def life_of_def)

text \<open>
  C13. In every reachable state, replaying an errand's history along the transition table, one
  row after another by an actor its rule names, gives exactly the errand's status and version:
  the history is complete, without gaps, and every move in it was allowed.
\<close>

theorem history_replays_to_errand:
  assumes "reachable order_start (order_step e) db" and "row_of o_orderId i (orders db) = Some x"
  shows "replay None (history_of db i) = Some (Some (o_status x, o_version x))"
  using reachable_errands [OF assms(1)] row_of_Some [OF assms(2)]
  by (auto simp: history_of_life errands_ok_def histories_ok_def)

theorem history_replays_to_errand_witness:
  "replay None (history_of demo_completed demo_id) = Some (Some (COMPLETED, 7))"
proof -
  obtain x where x: "row_of o_orderId demo_id (orders demo_completed) = Some x"
    and "map_option (\<lambda>x. (o_status x, o_version x)) (Some x) = Some (COMPLETED, 7)"
  proof -
    have "map_option (\<lambda>x. (o_status x, o_version x)) (row_of o_orderId demo_id (orders demo_completed)) =
        Some (COMPLETED, 7)" by code_simp
    then show thesis using that by (cases "row_of o_orderId demo_id (orders demo_completed)") auto
  qed
  with history_replays_to_errand [OF demo_run_reachable(7) x] show ?thesis by simp
qed

text \<open>
  In every reachable state, the outbox never holds both a completion request and a release
  request for the same errand, whoever wrote them and however often they were re-issued: the
  Credit Service is never asked to both pay and return the same reward.
\<close>

theorem never_asks_for_both:
  assumes "reachable order_start (order_step e) db"
    and "r \<in> set (outbox_events db)" and "ob_eventType r = ORDER_COMPLETION_REQUESTED"
    and "q \<in> set (outbox_events db)" and "ob_eventType q = CREDIT_RELEASE_REQUESTED"
  shows "ob_aggregateId r \<noteq> ob_aggregateId q"
proof
  assume same: "ob_aggregateId r = ob_aggregateId q"
  have ok: "requests_ok (errands db)" "orders_ok (errands db)"
    using reachable_errands [OF assms(1)] by (simp_all add: errands_ok_def)
  have "(ORDER_COMPLETION_REQUESTED, ob_aggregateId r, ob_payload r) \<in> er_requests (errands db)"
    "(CREDIT_RELEASE_REQUESTED, ob_aggregateId q, ob_payload q) \<in> er_requests (errands db)"
    using request_row [OF assms(2)] request_row [OF assms(4)] assms(3,5)
    by (simp_all add: credit_request_types_def)
  with ok(1) obtain x y where x: "x \<in> set (orders db)" "o_orderId x = ob_aggregateId r"
      "request_ok ORDER_COMPLETION_REQUESTED (ob_payload r) x"
    and y: "y \<in> set (orders db)" "o_orderId y = ob_aggregateId q"
      "request_ok CREDIT_RELEASE_REQUESTED (ob_payload q) y"
    unfolding requests_ok_def errands_simps by blast
  have "x = y" using order_unique [OF ok(2)] x(1,2) y(1,2) same by simp
  with x(3) y(3) show False by (auto simp: request_ok_def)
qed

text \<open>Carol's errand beside Alice's, cancelled once it was open.\<close>

definition demo_two :: order_db where
  "demo_two = snd (command demo_env demo_hash (demo_uuids CHR ''n'') 8200 8200 ''l'' CANCEL 2 carol ''cor'' None no_check None
     (snd (deliverReservationResult demo_env (demo_uuids CHR ''m'') 8100 (\<lambda>_. Inr False)
       ((demo_envelope ''e3'' CREDITS_RESERVED (CreditsReservedPayload ''l'' ''carol'' 3))\<lparr> aggregateId := ''l'' \<rparr>)
       (snd (createOrder demo_hash (\<lambda>_. Inr demo_supplier) (demo_uuids CHR ''l'') 8000 8000
          demo_input ''k'' carol ''cor'' demo_completed demo_completed)))))"

lemma demo_two_reachable: "demo_reachable_order demo_two"
  unfolding demo_two_def
  by (rule reachable_step, rule reachable_step, rule reachable_step, rule demo_run_reachable(7))
    (rule order_step.own [OF order_local.create] order_step.reservation_result order_step.own [OF order_local.commanded],
      rule surjective_pairing)+

definition request_rows :: "event_type \<Rightarrow> order_db \<Rightarrow> outbox_row list" where
  "request_rows ty db = filter (\<lambda>r. ob_eventType r = ty) (outbox_events db)"

theorem never_asks_for_both_witness:
  "ob_aggregateId (hd (request_rows ORDER_COMPLETION_REQUESTED demo_two)) \<noteq>
   ob_aggregateId (hd (request_rows CREDIT_RELEASE_REQUESTED demo_two))"
proof -
  have "request_rows ORDER_COMPLETION_REQUESTED demo_two \<noteq> []" "request_rows CREDIT_RELEASE_REQUESTED demo_two \<noteq> []"
    by code_simp+
  then have "hd (request_rows ORDER_COMPLETION_REQUESTED demo_two) \<in> set (request_rows ORDER_COMPLETION_REQUESTED demo_two)"
    "hd (request_rows CREDIT_RELEASE_REQUESTED demo_two) \<in> set (request_rows CREDIT_RELEASE_REQUESTED demo_two)"
    by simp_all
  then show ?thesis
    by (intro never_asks_for_both [OF demo_two_reachable]) (simp_all add: request_rows_def)
qed

text \<open>
  C14. In every reachable state each completed errand has exactly one receipt, an errand that has
  not completed has none, and a receipt states the errand's parties, reward, items, credit
  transaction and times as they are recorded on it.
\<close>

theorem receipts_are_the_completed_errands:
  assumes "reachable order_start (order_step e) db"
  shows "distinct (map rc_orderId (order_receipts db)) \<and>
         set (order_receipts db) =
           (\<lambda>x. receipt_of (mapOrder x)) ` {x \<in> set (orders db). o_status x = COMPLETED}"
  using reachable_errands [OF assms] by (simp add: errands_ok_def receipts_ok_def)

theorem receipts_are_the_completed_errands_witness:
  "distinct (map rc_orderId (order_receipts demo_completed)) \<and>
   set (order_receipts demo_completed) =
     (\<lambda>x. receipt_of (mapOrder x)) ` {x \<in> set (orders demo_completed). o_status x = COMPLETED} \<and>
   length (order_receipts demo_completed) = 1"
proof -
  have "length (order_receipts demo_completed) = 1" by code_simp
  with receipts_are_the_completed_errands [OF demo_run_reachable(7)] show ?thesis by simp
qed

section \<open>Commands\<close>

lemma apply_decision_Applied:
  assumes "apply_decision e u now cmd (mapOrder x) t w d db = Inr (r, db')"
    and "row_of o_orderId i (orders db) = Some x" and "lawful cmd"
  obtains x' where "r = Applied (mapOrder x') d" and "o_status x' = d_to d"
    and "o_requesterId x' = o_requesterId x" and "o_version x' = o_version x + 1"
    and "row_of o_orderId i (orders db') = Some x'"
proof -
  have id: "o_orderId x = i" using row_of_Some [OF assms(2)] by simp
  from assms(1) obtain stamps upd db1 where
    stamps: "timestampPatch e (tc_action cmd) d t (mapOrder x) = Inr stamps" and
    upd: "updateOrder i (\<lambda>r. o_version r = o_version x)
      (set_columns (transition_patch d (o_version x) t stamps (tc_patch cmd))) db = Inr (upd, db1)"
    unfolding apply_decision_def using id by (auto simp: bindE_eq_Inr)
  define f where "f = set_columns (transition_patch d (o_version x) t stamps (tc_patch cmd))"
  have upd': "upd = Some (f x)" and db1: "db1 = db\<lparr> orders := change_order i f (orders db) \<rparr>"
    using upd assms(2) by (simp_all add: updateOrder_Inr f_def)
  obtain h db2 db3 where hist: "insertHistory h db1 = Inr db2"
    and aft: "tc_afterApply cmd (mapOrder (f x)) db2 = Inr db3"
    and emit: "emit_all u 1 now (d_emitted d) (mapOrder x) (mapOrder (f x)) t cmd db3 = Inr db'"
    and r: "r = Applied (mapOrder (f x)) d"
    using assms(1) stamps upd upd' id unfolding apply_decision_def
    by (auto simp: bindE_eq_Inr Let_def f_def)
  have lp: "lawful_patch (tc_action cmd) (tc_patch cmd)" using assms(3) by (simp add: lawful_def)
  have fid: "\<And>r. o_orderId (f r) = o_orderId r" by (simp add: f_def)
  have "orders db' = orders db3"
    using emit_all_errands [OF emit] fid by (simp add: errands_def)
  also have "\<dots> = orders db2" using afterApply_errands(1) [OF assms(3) aft] by (simp add: errands_def)
  also have "\<dots> = change_order i f (orders db)" using hist db1 by (simp add: insertHistory_Inr)
  finally have "row_of o_orderId i (orders db') = Some (f x)"
    using assms(2) id fid by (simp add: row_of_update_rows)
  moreover have "o_status (f x) = d_to d" "o_version (f x) = o_version x + 1"
    unfolding f_def by (rule moved_row [OF stamps lp])+
  ultimately show thesis using r by (intro that [of "f x"]) (simp_all add: f_def)
qed

lemma user_decisions_visible:
  "decideTransition src a w c = Some d \<Longrightarrow> w \<notin> {SYSTEM, CREDIT_SERVICE} \<Longrightarrow> d_to d \<notin> {PENDING_CREDIT, REJECTED}"
  using decision_by_rule [of src a w c d
      "\<lambda>src a w c d. w \<notin> {SYSTEM, CREDIT_SERVICE} \<longrightarrow> d_to d \<notin> {PENDING_CREDIT, REJECTED}"]
  by (simp add: each_rule)

lemma projectOrder_visible: "o_status x \<notin> {PENDING_CREDIT, REJECTED} \<Longrightarrow> projectOrder clock x caller \<noteq> None"
  by (simp add: projectOrder_def Let_def)

lemma user_command_answer:
  assumes "transitionUsing e u now (user_command i action version caller correlation reason verify) db = Inr (r, db')"
  shows "db' = db \<or> (\<exists>view. answer clock action caller r = Inr view)"
  using assms
proof (cases rule: transitionUsing_cases)
  case (applied x w c d t)
  have w: "w \<notin> {SYSTEM, CREDIT_SERVICE}" using applied(2) by (simp add: user_command_def)
  have "lawful (user_command i action version caller correlation reason verify)"
    using user_actor_decides [OF applied(5) w] by (simp add: lawful_def user_command_def)
  from apply_decision_Applied [OF applied(8,1) this] obtain x' where
    "r = Applied (mapOrder x') d" "o_status x' = d_to d" by metis
  with user_decisions_visible [OF applied(5) w] projectOrder_visible [of "mapOrder x'" clock caller]
  show ?thesis by (auto simp: answer_def)
qed simp

lemma once_error:
  assumes "once hash clock now caller key i body alone answering inside db = (Inl err, db')"
    and "\<And>r tx. alone db = (Inr r, tx) \<Longrightarrow> tx = db \<or> (\<exists>view. answering r = Inr view)"
    and "\<And>err tx. alone db = (Inl err, tx) \<Longrightarrow> tx = db"
  shows "db' = db"
proof (cases key)
  case None
  with assms show ?thesis
    by (cases "alone db"; cases "fst (alone db)") (auto simp: once_def bindE_def split: sum.splits)
next
  case (Some k)
  have "withCommandKey now ck run db = Inr (Replayed y, tx) \<Longrightarrow> tx = db" for ck run y tx
    by (auto simp: withCommandKey_def bindE_eq_Inr split: option.splits if_splits)
  with assms(1) Some show ?thesis
    by (auto simp: once_def transaction_def split: prod.splits sum.splits keyed.splits)
qed

text \<open>
  A command that answers with an error has changed nothing: neither the errand nor its
  history, the outbox or the keys, with or without an idempotency key, whatever the error.
\<close>

theorem refused_command_changes_nothing:
  assumes "command e hash u clock now i action version caller correlation reason verify key db = (Inl err, db')"
  shows "db' = db"
  using assms unfolding command_def Let_def
proof (rule once_error)
  let ?cmd = "user_command i action version caller correlation reason verify"
  show "tx = db \<or> (\<exists>view. answer clock action caller r = Inr view)"
    if "transition e u now ?cmd db = (Inr r, tx)" for r tx
    using that user_command_answer [of e u now i action version caller correlation reason verify db r tx]
    by (auto simp: transition_def transaction_def split: sum.splits)
  show "tx = db" if "transition e u now ?cmd db = (Inl err', tx)" for err' tx
    using that by (auto simp: transition_def transaction_def split: sum.splits)
qed

theorem refused_command_changes_nothing_witness:
  "snd (command demo_env demo_hash (demo_uuids CHR ''z'') 9000 9000 demo_id CANCEL 1 carol ''cor'' None no_check (Some ''k9'') demo_open) =
   demo_open"
proof -
  have "isl (fst (command demo_env demo_hash (demo_uuids CHR ''z'') 9000 9000 demo_id CANCEL 1 carol ''cor'' None no_check
      (Some ''k9'') demo_open))" by code_simp
  then obtain err where "command demo_env demo_hash (demo_uuids CHR ''z'') 9000 9000 demo_id CANCEL 1 carol ''cor'' None no_check
      (Some ''k9'') demo_open = (Inl err, snd (command demo_env demo_hash (demo_uuids CHR ''z'') 9000 9000 demo_id CANCEL 1
        carol ''cor'' None no_check (Some ''k9'') demo_open))"
    by (metis isl_def prod.collapse)
  then show ?thesis by (rule refused_command_changes_nothing)
qed










section \<open>What others see\<close>

text \<open>
  Someone who is neither the requester, the courier nor the referred administrator sees of
  an errand exactly the public view, which has no participant, delivery instruction or item note
  in it, and nothing at all while it waits for its reservation or was rejected.
\<close>

theorem strangers_see_the_public_view:
  assumes "\<not> canReadPrivate x caller"
  shows "projectOrder clock x caller =
     (if o_status x \<in> {PENDING_CREDIT, REJECTED} then None else Some (publicOrderView clock x))"
  using assms by (auto simp: projectOrder_def publicOrderView_def canReadPrivate_def Let_def)

theorem strangers_see_the_public_view_witness:
  "map (\<lambda>x. projectOrder 0 (mapOrder x) carol) (orders demo_posted) = [None] \<and>
   map (\<lambda>x. projectOrder 0 (mapOrder x) carol) (orders demo_open) =
     map (\<lambda>x. Some (publicOrderView 0 (mapOrder x))) (orders demo_open)"
proof -
  have priv: "map (\<lambda>x. canReadPrivate (mapOrder x) carol) (orders demo_posted) = [False]"
    "map (\<lambda>x. canReadPrivate (mapOrder x) carol) (orders demo_open) = [False]" by code_simp+
  have st: "map o_status (orders demo_posted) = [PENDING_CREDIT]" "map o_status (orders demo_open) = [OPEN]"
    by code_simp+
  from priv st strangers_see_the_public_view [of _ carol 0] show ?thesis by (auto simp: map_eq_Cons_conv)
qed

end
