(* ===== verification/Saga_Properties.thy ===== *)
theory Saga_Properties
  imports Saga Credit_Alerts Credit_Properties Order_Properties
begin

text \<open>
  What the Order Service and the Credit Service guarantee together: an errand and its credits
  never disagree, whatever messages are late, repeated or lost; Credit is never asked for anything
  it has to refuse as a conflict; and the reconciler finds nothing it cannot repair.
\<close>

section \<open>Errands and credits agree\<close>

text \<open>What Credit may report of an errand in each status.\<close>

fun agreeing :: "order_status \<Rightarrow> credit_status list" where
  "agreeing PENDING_CREDIT = [NONE, St_RESERVED]"
| "agreeing REJECTED = [NONE]"
| "agreeing COMPLETION_PENDING_CREDIT = [St_RESERVED, St_TRANSFERRED]"
| "agreeing RELEASE_PENDING_CREDIT = [St_RESERVED, St_RELEASED]"
| "agreeing COMPLETED = [St_TRANSFERRED]"
| "agreeing CANCELLED = [St_RELEASED]"
| "agreeing EXPIRED = [St_RELEASED]"
| "agreeing _ = [St_RESERVED]"

lemma saga_holds: "reachable saga_start (saga_step e alloc) s \<Longrightarrow> saga_inv alloc s"
  by (rule saga_system.holds)

lemma saga_credit_ok:
  "saga_inv alloc s \<Longrightarrow> credit_ok (economy (sg_credit s))"
  "saga_inv alloc s \<Longrightarrow> operations_ok (economy (sg_credit s))"
  "saga_inv alloc s \<Longrightarrow> ledger_posted (economy (sg_credit s))"
  by (simp_all add: saga_inv_def credit_inv_def credit_ok_def)

lemma saga_order_ok: "saga_inv alloc s \<Longrightarrow> x \<in> set (orders (sg_orders s)) \<Longrightarrow> order_ok x"
  by (simp add: saga_inv_def errands_ok_def orders_ok_def)

text \<open>An operation on record matches the errand, and a settlement fits where the errand stands.\<close>

lemma operation_matches:
  assumes "saga_inv alloc s" and "y \<in> set (credit_operations (sg_credit s))"
    and "x \<in> set (orders (sg_orders s))" and "op_orderId y = o_orderId x"
  shows "op_requesterId y = o_requesterId x" and "op_amount y = o_reward x"
    and "op_type y = TRANSFER \<Longrightarrow> o_status x \<in> {COMPLETION_PENDING_CREDIT, COMPLETED} \<and> op_courierId y = o_courierId x"
    and "op_type y = RELEASE \<Longrightarrow> o_status x \<in> {RELEASE_PENDING_CREDIT, CANCELLED, EXPIRED}"
proof -
  obtain z where z: "z \<in> set (orders (sg_orders s))" "o_orderId z = op_orderId y"
    "request_ok (fst (op_request y)) (snd (snd (op_request y))) z"
    using operation_asked [OF assms(1,2)] .
  have "z = x" using same_errand [OF assms(1) z(1) assms(3)] z(2) assms(4) by simp
  with z(3) have ok: "request_ok (fst (op_request y)) (snd (snd (op_request y))) x" by simp
  then show "op_requesterId y = o_requesterId x" "op_amount y = o_reward x"
    by (cases "op_type y"; auto simp: op_request_def request_ok_def)+
  show "o_status x \<in> {RELEASE_PENDING_CREDIT, CANCELLED, EXPIRED}" if "op_type y = RELEASE"
    using ok that by (auto simp: op_request_def request_ok_def)
  show "o_status x \<in> {COMPLETION_PENDING_CREDIT, COMPLETED} \<and> op_courierId y = o_courierId x" if "op_type y = TRANSFER"
  proof -
    have at: "o_status x \<in> {COMPLETION_PENDING_CREDIT, COMPLETED}" "the (op_courierId y) = the (o_courierId x)"
      using ok that by (auto simp: op_request_def request_ok_def)
    moreover have "op_courierId y \<noteq> None"
      using saga_credit_ok(2) [OF assms(1)] assms(2) that by (auto simp: operations_ok_def result_recorded_def)
    moreover have "o_courierId x \<noteq> None"
      using saga_order_ok [OF assms(1,3)] checked_status(1) [of x] at(1) by (auto simp: order_ok_def)
    ultimately show ?thesis by (auto simp: option.expand)
  qed
qed

lemma saga_status:
  assumes inv: "saga_inv alloc s" and x: "x \<in> set (orders (sg_orders s))"
  shows "cs_status (orderStatus (o_orderId x) (sg_credit s)) \<in> set (agreeing (o_status x))"
proof -
  let ?has = "\<lambda>ty. \<exists>y \<in> set (credit_operations (sg_credit s)). same_order (o_orderId x) ty y \<and> op_outcome y = SUCCEEDED"
  note ok = saga_credit_ok [OF inv]
  have status: "cs_status (orderStatus (o_orderId x) (sg_credit s)) =
      (if ?has TRANSFER then St_TRANSFERRED else if ?has RELEASE then St_RELEASED
       else if ?has RESERVE then St_RESERVED else NONE)"
    unfolding orderStatus_transactions [OF ok(1)]
    using has_transaction [OF ok(2), of TRANSFER] has_transaction [OF ok(2), of RELEASE]
      has_transaction [OF ok(2), of RESERVE] by simp
  have paid: "?has TRANSFER \<Longrightarrow> o_status x \<in> {COMPLETION_PENDING_CREDIT, COMPLETED}"
    using operation_matches(3) [OF inv _ x] by (auto simp: same_order_def)
  have returned: "?has RELEASE \<Longrightarrow> o_status x \<in> {RELEASE_PENDING_CREDIT, CANCELLED, EXPIRED}"
    using operation_matches(4) [OF inv _ x] by (auto simp: same_order_def)
  have link: "linked (economy (sg_credit s)) x" using inv x by (simp add: saga_inv_def)
  have "length (filter (same_order (o_orderId x) RESERVE) (credit_operations (sg_credit s))) \<le> 1"
    using ok(2) by (simp add: operations_ok_def)
  then have one: "y = z" if "y \<in> set (credit_operations (sg_credit s))" "same_order (o_orderId x) RESERVE y"
      "z \<in> set (credit_operations (sg_credit s))" "same_order (o_orderId x) RESERVE z" for y z
    using that by (rule at_most_one)
  have refused: "o_status x = REJECTED \<Longrightarrow> \<not> ?has RESERVE"
    using link one unfolding linked_def refused_on_record_def on_record_def economy_simps
    by (metis operation_outcome.distinct(6) insertCI)
  show ?thesis
    using status paid returned refused link
    unfolding linked_def reserved_on_record_def on_record_def economy_simps
    by (cases "o_status x") auto
qed

section \<open>A run of both services\<close>

text \<open>
  Alice and Bob are activated; Alice posts an errand, which Credit reserves; Bob takes it, picks
  it up and delivers it; Alice confirms, and Credit pays Bob. A claim takes one row of the errand,
  so a relay claims until the row that matters is out.
\<close>

definition relayed :: "ident \<Rightarrow> time \<Rightarrow> 'a service_db_scheme \<Rightarrow> 'a service_db_scheme" where
  "relayed service now db =
     db\<lparr> outbox_events := snd (claimAndPublish service relay_defaults now {} (\<lambda>_. Confirmed) (outbox_events db)) \<rparr>"

definition handed :: "ident \<Rightarrow> time \<Rightarrow> 'a service_db_scheme \<Rightarrow> event list" where
  "handed service now db =
     map row_event (cr_tried (fst (claimAndPublish service relay_defaults now {} (\<lambda>_. Confirmed) (outbox_events db))))"

abbreviation relayed_orders :: "time \<Rightarrow> order_db \<Rightarrow> order_db" where
  "relayed_orders \<equiv> relayed ''order-service''"

abbreviation relayed_credit :: "time \<Rightarrow> credit_db \<Rightarrow> credit_db" where
  "relayed_credit \<equiv> relayed ''credit-service''"

definition reservation_message :: envelope where
  "reservation_message = Credit_Properties.demo_env ''q1'' CREDIT_RESERVATION_REQUESTED demo_id
     (CreditReservationRequestedPayload demo_id ''alice'' 3)"

definition reserved_message :: envelope where
  "reserved_message = Credit_Properties.demo_env ''q2'' CREDITS_RESERVED demo_id (CreditsReservedPayload demo_id ''alice'' 3)"

definition completion_message :: envelope where
  "completion_message = Credit_Properties.demo_env ''q3'' ORDER_COMPLETION_REQUESTED demo_id
     (OrderCompletionRequestedPayload demo_id ''alice'' 3 ''bob'')"

definition transferred_message :: envelope where
  "transferred_message = Credit_Properties.demo_env ''q4'' CREDITS_TRANSFERRED demo_id
     (CreditsTransferredPayload demo_id ''alice'' 3 ''bob'' ''t''
        \<lparr> rb_available = 7, rb_reserved = 0, rb_total = 7 \<rparr> \<lparr> rb_available = 13, rb_reserved = 0, rb_total = 13 \<rparr>)"

definition orders_asked :: order_db where
  "orders_asked = relayed_orders 3000 demo_posted"

definition credit_reserved :: credit_db where
  "credit_reserved = snd (deliverReservation (demo_ids CHR ''r'') 4000 reservation_message demo_activated)"

definition orders_confirmed :: order_db where
  "orders_confirmed =
     demo_command CHR ''h'' 10000 CONFIRM_RECEIPT 5 alice (demo_command CHR ''g'' 9000 RECORD_DELIVERY 4 bob
       (demo_command CHR ''f'' 8000 RECORD_PICKUP 3 bob
         (snd (acceptOrder demo_hash (demo_uuids CHR ''d'') 6500 6500 demo_id 2 bob ''cor'' None
           (snd (deliverReservationResult Order_Properties.demo_env (demo_uuids CHR ''b'') 6000 (\<lambda>_. Inr False)
             reserved_message (relayed_orders 3500 orders_asked)))))))"

definition orders_pressing :: order_db where
  "orders_pressing = relayed_orders 11000 (relayed_orders 11000 (relayed_orders 11000 (relayed_orders 11000 orders_confirmed)))"

definition credit_paid :: credit_db where
  "credit_paid = snd (deliverCompletion (demo_ids CHR ''t'') 12000 completion_message (relayed_credit 5000 credit_reserved))"

definition orders_completed :: order_db where
  "orders_completed = snd (deliverTransferResult Order_Properties.demo_env (demo_uuids CHR ''i'') 14000
     transferred_message (relayed_orders 11000 orders_pressing))"

lemma demo_published:
  "envelope_event reservation_message \<in> set (handed ''order-service'' 3500 orders_asked)"
  "envelope_event reserved_message \<in> set (handed ''credit-service'' 5000 credit_reserved)"
  "envelope_event completion_message \<in> set (handed ''order-service'' 11000 orders_pressing)"
  "envelope_event transferred_message \<in> set (handed ''credit-service'' 13000 credit_paid)"
  by code_simp+

lemma demo_end:
  "map (\<lambda>x. (o_orderId x, o_status x)) (orders orders_confirmed) = [(demo_id, COMPLETION_PENDING_CREDIT)]"
  "map (\<lambda>x. (o_orderId x, o_status x)) (orders orders_completed) = [(demo_id, COMPLETED)]"
  by code_simp+

abbreviation demo_saga :: "order_db \<Rightarrow> credit_db \<Rightarrow> event set \<Rightarrow> event set \<Rightarrow> bool" where
  "demo_saga db cdb asked told \<equiv> reachable saga_start (saga_step Order_Properties.demo_env 10)
     \<lparr> sg_orders = db, sg_credit = cdb, sg_requests = asked, sg_replies = told \<rparr>"

lemma demo_order_steps:
  assumes "demo_saga db cdb asked told"
  shows "order_local Order_Properties.demo_env db db' \<Longrightarrow> demo_saga db' cdb asked told"
    and "demo_saga (relayed_orders now db) cdb (asked \<union> set (handed ''order-service'' now db)) told"
    and "envelope_event env \<in> told \<Longrightarrow> eventType env = CREDITS_RESERVED \<Longrightarrow>
      demo_saga (snd (deliverReservationResult Order_Properties.demo_env u now isSuspended env db)) cdb asked told"
    and "envelope_event env \<in> told \<Longrightarrow> eventType env = CREDITS_TRANSFERRED \<Longrightarrow>
      demo_saga (snd (deliverTransferResult Order_Properties.demo_env u now env db)) cdb asked told"
proof -
  let ?s = "\<lparr> sg_orders = db, sg_credit = cdb, sg_requests = asked, sg_replies = told \<rparr>"
  note steps = reachable_step [OF assms]
  show "order_local Order_Properties.demo_env db db' \<Longrightarrow> demo_saga db' cdb asked told"
    using steps [OF saga_step.order_acts [where s = ?s]] by simp
  show "demo_saga (relayed_orders now db) cdb (asked \<union> set (handed ''order-service'' now db)) told"
    using steps [OF saga_step.order_relays [where s = ?s], OF surjective_pairing] by (simp add: relayed_def handed_def)
  show "demo_saga (snd (deliverReservationResult Order_Properties.demo_env u now isSuspended env db)) cdb asked told"
    if "envelope_event env \<in> told" "eventType env = CREDITS_RESERVED"
    using steps [OF saga_step.reservation_answered [where s = ?s, OF _ _ surjective_pairing]] that by simp
  show "demo_saga (snd (deliverTransferResult Order_Properties.demo_env u now env db)) cdb asked told"
    if "envelope_event env \<in> told" "eventType env = CREDITS_TRANSFERRED"
    using steps [OF saga_step.transfer_answered [where s = ?s, OF _ _ surjective_pairing]] that by simp
qed

lemma demo_credit_steps:
  assumes "demo_saga db cdb asked told"
  shows "credit_local 10 cdb cdb' \<Longrightarrow> demo_saga db cdb' asked told"
    and "demo_saga db (relayed_credit now cdb) asked (told \<union> set (handed ''credit-service'' now cdb))"
    and "envelope_event env \<in> asked \<Longrightarrow> eventType env = CREDIT_RESERVATION_REQUESTED \<Longrightarrow>
      demo_saga db (snd (deliverReservation u now env cdb)) asked told"
    and "envelope_event env \<in> asked \<Longrightarrow> eventType env = ORDER_COMPLETION_REQUESTED \<Longrightarrow>
      demo_saga db (snd (deliverCompletion u now env cdb)) asked told"
proof -
  let ?s = "\<lparr> sg_orders = db, sg_credit = cdb, sg_requests = asked, sg_replies = told \<rparr>"
  note steps = reachable_step [OF assms]
  show "credit_local 10 cdb cdb' \<Longrightarrow> demo_saga db cdb' asked told"
    using steps [OF saga_step.credit_acts [where s = ?s]] by simp
  show "demo_saga db (relayed_credit now cdb) asked (told \<union> set (handed ''credit-service'' now cdb))"
    using steps [OF saga_step.credit_relays [where s = ?s], OF surjective_pairing] by (simp add: relayed_def handed_def)
  show "demo_saga db (snd (deliverReservation u now env cdb)) asked told"
    if "envelope_event env \<in> asked" "eventType env = CREDIT_RESERVATION_REQUESTED"
    using steps [OF saga_step.reservation_asked [where s = ?s, OF _ _ surjective_pairing]] that by simp
  show "demo_saga db (snd (deliverCompletion u now env cdb)) asked told"
    if "envelope_event env \<in> asked" "eventType env = ORDER_COMPLETION_REQUESTED"
    using steps [OF saga_step.completion_asked [where s = ?s, OF _ _ surjective_pairing]] that by simp
qed

lemmas demo_messages =
  reservation_message_def reserved_message_def completion_message_def transferred_message_def Credit_Properties.demo_env_def

lemma demo_posted_saga: "demo_saga demo_posted demo_activated {} {}"
proof -
  have "demo_saga empty_db demo_empty {} {}"
    by (rule reachable_init)
      (simp add: saga_start_def order_start_def credit_start_def empty_db_def demo_empty_def economy_def)
  moreover have "demo_saga db (snd (deliverActivation 10 u now env cdb)) {} {}" if "demo_saga db cdb {} {}"
    for db cdb u now env
    using that by (rule demo_credit_steps) (rule credit_local.activation, rule surjective_pairing)
  ultimately have "demo_saga empty_db demo_activated {} {}" unfolding demo_activated_def by blast
  then show ?thesis
    unfolding demo_posted_def by (rule demo_order_steps) (rule order_local.create, rule surjective_pairing)
qed

lemma demo_confirmed_saga:
  obtains asked told where "demo_saga orders_confirmed (relayed_credit 5000 credit_reserved) asked told"
proof -
  define q1 where "q1 = {} \<union> set (handed ''order-service'' 3000 demo_posted)"
  define q2 where "q2 = q1 \<union> set (handed ''order-service'' 3500 orders_asked)"
  define r1 where "r1 = {} \<union> set (handed ''credit-service'' 5000 credit_reserved)"
  have "demo_saga orders_asked demo_activated q1 {}"
    unfolding orders_asked_def q1_def by (rule demo_order_steps(2) [OF demo_posted_saga])
  then have "demo_saga (relayed_orders 3500 orders_asked) demo_activated q2 {}"
    unfolding q2_def by (rule demo_order_steps)
  then have "demo_saga (relayed_orders 3500 orders_asked) credit_reserved q2 {}"
    unfolding credit_reserved_def
    by (rule demo_credit_steps) (use demo_published(1) in \<open>simp_all add: q2_def, simp add: demo_messages\<close>)
  then have "demo_saga (relayed_orders 3500 orders_asked) (relayed_credit 5000 credit_reserved) q2 r1"
    unfolding r1_def by (rule demo_credit_steps)
  then have opened: "demo_saga (snd (deliverReservationResult Order_Properties.demo_env (demo_uuids CHR ''b'') 6000
      (\<lambda>_. Inr False) reserved_message (relayed_orders 3500 orders_asked))) (relayed_credit 5000 credit_reserved) q2 r1"
    by (rule demo_order_steps) (use demo_published(2) in \<open>simp_all add: r1_def, simp add: demo_messages\<close>)
  have "demo_saga orders_confirmed (relayed_credit 5000 credit_reserved) q2 r1"
    unfolding orders_confirmed_def demo_command_def
    by (rule demo_order_steps, rule demo_order_steps, rule demo_order_steps, rule demo_order_steps, rule opened,
        rule order_local.accept, rule surjective_pairing,
        (rule order_local.commanded, rule surjective_pairing)+)
  then show thesis by (rule that)
qed

lemma demo_completed_saga:
  obtains asked told where "demo_saga orders_completed (relayed_credit 13000 credit_paid) asked told"
proof -
  obtain q0 r0 where "demo_saga orders_confirmed (relayed_credit 5000 credit_reserved) q0 r0"
    by (rule demo_confirmed_saga)
  from demo_order_steps(2) [OF demo_order_steps(2) [OF demo_order_steps(2) [OF demo_order_steps(2) [OF this]]]]
  obtain q1 where "demo_saga orders_pressing (relayed_credit 5000 credit_reserved) q1 r0"
    unfolding orders_pressing_def by blast
  moreover define q2 where "q2 = q1 \<union> set (handed ''order-service'' 11000 orders_pressing)"
  ultimately have "demo_saga (relayed_orders 11000 orders_pressing) (relayed_credit 5000 credit_reserved) q2 r0"
    using demo_order_steps(2) by blast
  then have "demo_saga (relayed_orders 11000 orders_pressing) credit_paid q2 r0"
    unfolding credit_paid_def
    by (rule demo_credit_steps) (use demo_published(3) in \<open>simp_all add: q2_def, simp add: demo_messages\<close>)
  moreover define r1 where "r1 = r0 \<union> set (handed ''credit-service'' 13000 credit_paid)"
  ultimately have "demo_saga (relayed_orders 11000 orders_pressing) (relayed_credit 13000 credit_paid) q2 r1"
    using demo_credit_steps(2) by blast
  then have "demo_saga orders_completed (relayed_credit 13000 credit_paid) q2 r1"
    unfolding orders_completed_def
    by (rule demo_order_steps) (use demo_published(4) in \<open>simp_all add: r1_def, simp add: demo_messages\<close>)
  then show thesis by (rule that)
qed

section \<open>The guarantees\<close>

text \<open>
  C1. An errand and its credits never disagree. In every state the two services can reach
  together, whatever messages are still on their way, repeated or lost and whoever crashed, what
  Credit reports of an errand is what its status calls for: nothing or a reservation while it is
  pending, exactly a reservation while it is live, the reservation or its settlement while that is
  pending, a transfer once completed, a release once cancelled or expired.
\<close>

theorem errand_and_credits_agree:
  assumes "reachable saga_start (saga_step e alloc) s" and "x \<in> set (orders (sg_orders s))"
  shows "cs_status (orderStatus (o_orderId x) (sg_credit s)) \<in> set (agreeing (o_status x))"
  using saga_status [OF saga_holds [OF assms(1)] assms(2)] .

lemma single_errand:
  assumes "map (\<lambda>x. (o_orderId x, o_status x)) xs = [(i, st)]"
  obtains x where "xs = [x]" and "o_orderId x = i" and "o_status x = st"
  using assms by (cases xs) auto

theorem errand_and_credits_agree_witness:
  "cs_status (orderStatus demo_id (relayed_credit 13000 credit_paid)) = St_TRANSFERRED"
proof -
  obtain q r where s: "demo_saga orders_completed (relayed_credit 13000 credit_paid) q r" by (rule demo_completed_saga)
  obtain x where x: "orders orders_completed = [x]" "o_orderId x = demo_id" "o_status x = COMPLETED"
    by (rule single_errand [OF demo_end(2)])
  then show ?thesis using errand_and_credits_agree [OF s, of x] by simp
qed

text \<open>The one settlement of an errand that has ended.\<close>

lemma ended_transaction:
  assumes inv: "saga_inv alloc s" and x: "x \<in> set (orders (sg_orders s))"
    and rec: "on_record (economy (sg_credit s)) (o_orderId x) ty SUCCEEDED (o_creditTransactionId x)"
    and ty: "ty = TRANSFER \<or> ty = RELEASE"
  shows "\<exists>t \<in> set (credit_transactions (sg_credit s)).
    terminals (o_orderId x) (credit_transactions (sg_credit s)) = [t] \<and> t_type t = ty \<and>
    o_creditTransactionId x = Some (t_id t) \<and> t_walletUserId t = Some (o_requesterId x) \<and> t_amount t = o_reward x"
proof -
  note ok = saga_credit_ok [OF inv]
  obtain y where y: "y \<in> set (credit_operations (sg_credit s))" "same_order (o_orderId x) ty y"
    "op_outcome y = SUCCEEDED" "op_transactionId y = o_creditTransactionId x"
    using rec by (auto simp: on_record_def)
  then obtain t where t: "t \<in> set (credit_transactions (sg_credit s))" "Credit_Invariants.records y t"
    using ok(2) by (auto simp: operations_ok_def)
  have match: "op_requesterId y = o_requesterId x" "op_amount y = o_reward x"
    using operation_matches(1,2) [OF inv y(1) x] y(2) by (simp_all add: same_order_def)
  have "t \<in> set (terminals (o_orderId x) (credit_transactions (sg_credit s)))"
    using t y(2) ty by (auto simp: terminals_def terminal_type_def Credit_Invariants.records_def same_order_def)
  moreover have "length (terminals (o_orderId x) (credit_transactions (sg_credit s))) \<le> 1"
    using ok(1) by (simp add: credit_ok_def transactions_ok_def)
  ultimately have "terminals (o_orderId x) (credit_transactions (sg_credit s)) = [t]"
    by (cases "terminals (o_orderId x) (credit_transactions (sg_credit s))") auto
  with t y match show ?thesis by (auto simp: Credit_Invariants.records_def same_order_def)
qed

text \<open>
  C2. The reward of an errand that has ended was moved once, and to the right side: in every state
  the two services can reach together, a completed errand has exactly one settlement in Credit's
  records, a transfer under the transaction id the errand carries, and the ledger holds exactly two
  entries under that id: a debit of the reward from the reserved balance of the errand's requester
  and a credit of the reward to the available balance of the errand's own courier. A cancelled or
  expired one has exactly one, a release, with the credit to the requester's own available balance.
  Every wallet's balances are the sums of its ledger entries, so the credits went where the entries say.
\<close>

theorem ended_errand_is_settled_once:
  assumes "reachable saga_start (saga_step e alloc) s" and "x \<in> set (orders (sg_orders s))"
    and "o_status x \<in> {COMPLETED, CANCELLED, EXPIRED}"
  shows "walletLedgerViolations (sg_credit s) = [] \<and>
    (\<exists>t e1 e2. terminals (o_orderId x) (credit_transactions (sg_credit s)) = [t] \<and>
      t_type t = (if o_status x = COMPLETED then TRANSFER else RELEASE) \<and>
      o_creditTransactionId x = Some (t_id t) \<and> t_walletUserId t = Some (o_requesterId x) \<and>
      t_amount t = o_reward x \<and>
      list_ex (\<lambda>y. op_transactionId y = Some (t_id t) \<and> op_outcome y = SUCCEEDED \<and>
         (o_status x = COMPLETED \<longrightarrow> op_courierId y = o_courierId x)) (credit_operations (sg_credit s)) \<and>
      filter (\<lambda>e. le_transactionId e = t_id t) (ledger_entries (sg_credit s)) = [e1, e2] \<and>
      le_walletUserId e1 = Some (o_requesterId x) \<and> le_account e1 = RESERVED \<and>
      le_direction e1 = DEBIT \<and> le_amount e1 = o_reward x \<and>
      le_walletUserId e2 = (if o_status x = COMPLETED then o_courierId x else Some (o_requesterId x)) \<and>
      le_account e2 = AVAILABLE \<and> le_direction e2 = CREDIT \<and> le_amount e2 = o_reward x)"
proof -
  let ?ty = "if o_status x = COMPLETED then TRANSFER else RELEASE"
  note inv = saga_holds [OF assms(1)]
  have rec: "on_record (economy (sg_credit s)) (o_orderId x) ?ty SUCCEEDED (o_creditTransactionId x)"
    using inv assms(2,3) by (auto simp: saga_inv_def linked_def)
  then obtain y where y: "y \<in> set (credit_operations (sg_credit s))" "same_order (o_orderId x) ?ty y"
    "op_outcome y = SUCCEEDED" "op_transactionId y = o_creditTransactionId x"
    by (auto simp: on_record_def)
  have match: "op_requesterId y = o_requesterId x" "op_amount y = o_reward x"
    "o_status x = COMPLETED \<longrightarrow> op_courierId y = o_courierId x"
    using operation_matches(1-3) [OF inv y(1) assms(2)] y(2) by (auto simp: same_order_def)
  have "posted (ledger_entries (sg_credit s)) y"
    using saga_credit_ok(3) [OF inv] y(1,3) by (simp add: ledger_posted_def)
  then obtain i e1 e2 where i: "o_creditTransactionId x = Some i"
    "filter (\<lambda>e. le_transactionId e = i) (ledger_entries (sg_credit s)) = [e1, e2]"
    "entry_of e1 i (Some (o_requesterId x)) RESERVED DEBIT (o_reward x)"
    "entry_of e2 i (if o_status x = COMPLETED then o_courierId x else Some (o_requesterId x)) AVAILABLE CREDIT (o_reward x)"
    using y(2,4) match by (auto simp: posted_def payee_def same_order_def split: if_splits)
  have "list_ex (\<lambda>y. op_transactionId y = Some i \<and> op_outcome y = SUCCEEDED \<and>
      (o_status x = COMPLETED \<longrightarrow> op_courierId y = o_courierId x)) (credit_operations (sg_credit s))"
    using y match(3) i(1) unfolding list_ex_iff by auto
  moreover obtain t where "terminals (o_orderId x) (credit_transactions (sg_credit s)) = [t]" "t_type t = ?ty"
    "o_creditTransactionId x = Some (t_id t)" "t_walletUserId t = Some (o_requesterId x)" "t_amount t = o_reward x"
    using ended_transaction [OF inv assms(2) rec] by (cases "o_status x = COMPLETED") auto
  moreover have "walletLedgerViolations (sg_credit s) = []"
    using credit_ok_checks [OF saga_credit_ok(1) [OF inv]] by blast
  ultimately show ?thesis using i unfolding entry_of_def
    by (intro conjI exI [of _ t] exI [of _ e1] exI [of _ e2]) simp_all
qed

theorem ended_errand_is_settled_once_witness:
  "\<exists>t e1 e2. terminals demo_id (credit_transactions (relayed_credit 13000 credit_paid)) = [t] \<and>
     t_type t = TRANSFER \<and> t_walletUserId t = Some ''alice'' \<and> t_amount t = 3 \<and>
     filter (\<lambda>e. le_transactionId e = t_id t) (ledger_entries (relayed_credit 13000 credit_paid)) = [e1, e2] \<and>
     le_walletUserId e1 = Some ''alice'' \<and> le_walletUserId e2 = Some ''bob'' \<and> le_amount e2 = 3"
proof -
  obtain q r where s: "demo_saga orders_completed (relayed_credit 13000 credit_paid) q r" by (rule demo_completed_saga)
  have "map (\<lambda>x. (o_orderId x, (o_status x, o_requesterId x, o_reward x, o_courierId x))) (orders orders_completed) =
      [(demo_id, (COMPLETED, ''alice'', 3, Some ''bob''))]" by code_simp
  then obtain x where x: "orders orders_completed = [x]" "o_orderId x = demo_id" "o_status x = COMPLETED"
    "o_requesterId x = ''alice''" "o_reward x = 3" "o_courierId x = Some ''bob''"
    by (cases "orders orders_completed") auto
  then show ?thesis using ended_errand_is_settled_once [OF s, of x] by auto
qed

text \<open>What the reconciler reads of Credit's answer.\<close>

fun credit_state_of :: "credit_status \<Rightarrow> credit_state" where
  "credit_state_of NONE = Credit_NONE"
| "credit_state_of St_RESERVED = Credit_RESERVED"
| "credit_state_of St_RELEASED = Credit_RELEASED"
| "credit_state_of St_TRANSFERRED = Credit_TRANSFERRED"

text \<open>
  C5. The reconciler never finds a conflict between the services: for an errand that waits for
  Credit, the decision it takes on what Credit reports at that moment is to re-issue the request,
  never to alert an operator. Losing messages is therefore always repairable.
\<close>

theorem reconciler_never_finds_conflict:
  assumes "reachable saga_start (saga_step e alloc) s" and "x \<in> set (orders (sg_orders s))"
    and "o_status x \<in> {PENDING_CREDIT, COMPLETION_PENDING_CREDIT, RELEASE_PENDING_CREDIT}"
  shows "reconciliationDecision (o_status x)
    (credit_state_of (cs_status (orderStatus (o_orderId x) (sg_credit s)))) = REISSUE"
  using saga_status [OF saga_holds [OF assms(1)] assms(2)] assms(3)
  by (auto simp: reconciliationDecision_def)

theorem reconciler_never_finds_conflict_witness:
  "reconciliationDecision COMPLETION_PENDING_CREDIT
     (credit_state_of (cs_status (orderStatus demo_id (relayed_credit 5000 credit_reserved)))) = REISSUE"
proof -
  obtain q r where s: "demo_saga orders_confirmed (relayed_credit 5000 credit_reserved) q r" by (rule demo_confirmed_saga)
  obtain x where x: "orders orders_confirmed = [x]" "o_orderId x = demo_id" "o_status x = COMPLETION_PENDING_CREDIT"
    by (rule single_errand [OF demo_end(1)])
  then show ?thesis using reconciler_never_finds_conflict [OF s, of x] by simp
qed

section \<open>No conflicts\<close>

lemma asked_errand:
  assumes inv: "saga_inv alloc s" and "envelope_event env \<in> sg_requests s" and "eventType env \<in> credit_request_types"
  obtains x where "x \<in> set (orders (sg_orders s))" and "o_orderId x = aggregateId env"
    and "request_ok (eventType env) (ev_payload env) x"
proof -
  have "(eventType env, aggregateId env, ev_payload env) \<in> er_requests (widened (outside s) (errands (sg_orders s)))"
    using assms(2,3) by (simp add: outside_def envelope_event_def)
  moreover have "requests_ok (widened (outside s) (errands (sg_orders s)))"
    using inv by (simp add: saga_inv_def errands_ok_def)
  ultimately show thesis using that unfolding requests_ok_def by fastforce
qed

lemma errand_agrees:
  assumes inv: "saga_inv alloc s" and x: "x \<in> set (orders (sg_orders s))"
  shows "agrees_reservation (sg_credit s) (o_orderId x) (o_requesterId x) (o_reward x)"
    and "o_status x \<in> {COMPLETION_PENDING_CREDIT, COMPLETED} \<Longrightarrow>
      agrees_settlement (sg_credit s) TRANSFER (o_orderId x) (o_requesterId x) (o_courierId x) (o_reward x)"
    and "o_status x \<in> {RELEASE_PENDING_CREDIT, CANCELLED, EXPIRED} \<Longrightarrow>
      agrees_settlement (sg_credit s) RELEASE (o_orderId x) (o_requesterId x) None (o_reward x)"
proof -
  note match = operation_matches [OF inv _ x]
  show res: "agrees_reservation (sg_credit s) (o_orderId x) (o_requesterId x) (o_reward x)"
    using match(1,2) by (auto simp: agrees_reservation_def same_order_def)
  have live: "op_outcome y = SUCCEEDED"
    if "o_status x \<notin> {PENDING_CREDIT, REJECTED}" "y \<in> set (credit_operations (sg_credit s))"
      "same_order (o_orderId x) RESERVE y" for y
  proof -
    have "linked (economy (sg_credit s)) x" using inv x by (simp add: saga_inv_def)
    with that(1) have "reserved_on_record (economy (sg_credit s)) (o_orderId x)" by (simp add: linked_def)
    then obtain z where z: "z \<in> set (credit_operations (sg_credit s))" "same_order (o_orderId x) RESERVE z"
      "op_outcome z = SUCCEEDED"
      by (auto simp: reserved_on_record_def on_record_def)
    have "length (filter (same_order (o_orderId x) RESERVE) (credit_operations (sg_credit s))) \<le> 1"
      using saga_credit_ok(2) [OF inv] by (simp add: operations_ok_def)
    then have "y = z" using that(2,3) z(1,2) by (rule at_most_one)
    with z(3) show ?thesis by simp
  qed
  show "agrees_settlement (sg_credit s) TRANSFER (o_orderId x) (o_requesterId x) (o_courierId x) (o_reward x)"
    if "o_status x \<in> {COMPLETION_PENDING_CREDIT, COMPLETED}"
    using that res live match by (fastforce simp: agrees_settlement_def terminal_type_def)
  show "agrees_settlement (sg_credit s) RELEASE (o_orderId x) (o_requesterId x) None (o_reward x)"
    if "o_status x \<in> {RELEASE_PENDING_CREDIT, CANCELLED, EXPIRED}"
    using that res live match by (fastforce simp: agrees_settlement_def terminal_type_def)
qed

lemma saga_step_quiet:
  assumes "saga_step e alloc s t" and inv: "saga_inv alloc s"
  shows "credit_audit_alerts (sg_credit t) = credit_audit_alerts (sg_credit s)"
  using assms(1)
proof cases
  case (reservation_asked env u now r db')
  obtain x where x: "x \<in> set (orders (sg_orders s))" "o_orderId x = aggregateId env"
    "request_ok (eventType env) (ev_payload env) x"
    using asked_errand [OF inv reservation_asked(2)] reservation_asked(3) by (auto simp: credit_request_types_def)
  have "credit_audit_alerts db' = credit_audit_alerts (sg_credit s)"
    using x reservation_asked(3) errand_agrees(1) [OF inv x(1)]
    by (intro reservation_quiet [OF reservation_asked(4)]) (auto simp: request_ok_def)
  then show ?thesis using reservation_asked(1) by simp
next
  case (completion_asked env u now r db')
  obtain x where x: "x \<in> set (orders (sg_orders s))" "o_orderId x = aggregateId env"
    "request_ok (eventType env) (ev_payload env) x"
    using asked_errand [OF inv completion_asked(2)] completion_asked(3) by (auto simp: credit_request_types_def)
  have "order_ok x" by (rule saga_order_ok [OF inv x(1)])
  moreover from this x(3) completion_asked(3) have "o_courierId x \<noteq> None"
    using checked_status(1) [of x] by (auto simp: order_ok_def request_ok_def)
  ultimately have "credit_audit_alerts db' = credit_audit_alerts (sg_credit s)"
    using x completion_asked(3) errand_agrees(2) [OF inv x(1)]
    by (intro completion_quiet [OF completion_asked(4) saga_credit_ok(2) [OF inv]])
      (auto simp: request_ok_def order_ok_def)
  then show ?thesis using completion_asked(1) by simp
next
  case (release_asked env u now r db')
  obtain x where x: "x \<in> set (orders (sg_orders s))" "o_orderId x = aggregateId env"
    "request_ok (eventType env) (ev_payload env) x"
    using asked_errand [OF inv release_asked(2)] release_asked(3) by (auto simp: credit_request_types_def)
  have "credit_audit_alerts db' = credit_audit_alerts (sg_credit s)"
    using x release_asked(3) errand_agrees(3) [OF inv x(1)]
    by (intro released_quiet [OF release_asked(4) saga_credit_ok(2) [OF inv]]) (auto simp: request_ok_def)
  then show ?thesis using release_asked(1) by simp
qed (auto dest: credit_local_quiet)

interpretation saga_quiet: inductive_invariant saga_start "saga_step e alloc"
  "\<lambda>s. saga_inv alloc s \<and> credit_audit_alerts (sg_credit s) = []" for e alloc
proof unfold_locales
  show "saga_start s \<Longrightarrow> saga_inv alloc s \<and> credit_audit_alerts (sg_credit s) = []" for s
    using saga_start_inv by (simp add: saga_start_def)
  show "saga_inv alloc s \<and> credit_audit_alerts (sg_credit s) = [] \<Longrightarrow> saga_step e alloc s t \<Longrightarrow>
      saga_inv alloc t \<and> credit_audit_alerts (sg_credit t) = []" for s t
    using saga_step_inv saga_step_quiet by metis
qed

text \<open>
  C4. The Order Service never gives Credit cause for alarm: in every state the two can reach
  together, Credit has raised no audit alert. No request contradicts the reservation on record,
  asks to settle a reservation that is not live, pays the requester, or asks for a second
  settlement of another kind, even when requests arrive late, twice or out of order.
\<close>

theorem credit_is_never_alarmed:
  assumes "reachable saga_start (saga_step e alloc) s"
  shows "credit_audit_alerts (sg_credit s) = []"
  using saga_quiet.holds [OF assms] by blast

theorem credit_is_never_alarmed_witness:
  "credit_audit_alerts (relayed_credit 13000 credit_paid) = []"
proof -
  obtain q r where s: "demo_saga orders_completed (relayed_credit 13000 credit_paid) q r" by (rule demo_completed_saga)
  show ?thesis using credit_is_never_alarmed [OF s] by simp
qed

section \<open>What a wallet holds in reserve\<close>

lemma sum_where_set:
  assumes "distinct rs"
  shows "sum_where p f rs = sum f {r \<in> set rs. p r}"
  unfolding sum_where_def using assms by (simp add: sum_list_distinct_conv_sum_set)

lemma reserved_status:
  assumes "credit_ok (economy db)" and "t \<in> set (credit_transactions db)" and "t_orderId t = Some order"
    and "t_type t = RESERVE"
  shows "cs_status (orderStatus order db) = St_RESERVED \<longleftrightarrow> \<not> settled (credit_transactions db) t"
  unfolding orderStatus_transactions [OF assms(1)] settled_def terminal_type_def using assms(2-4) by auto

lemma reserved_transaction:
  assumes "credit_ok (economy db)" and "cs_status (orderStatus order db) = St_RESERVED"
  obtains t where "t \<in> set (credit_transactions db)" and "t_orderId t = Some order" and "t_type t = RESERVE"
  using assms(2) unfolding orderStatus_transactions [OF assms(1)] by (auto split: if_splits)

text \<open>A reservation in the ledger is that of an errand, with its requester and reward.\<close>

lemma reservation_errand:
  assumes inv: "saga_inv alloc s" and t: "t \<in> set (credit_transactions (sg_credit s))" "t_type t = RESERVE"
  obtains x where "x \<in> set (orders (sg_orders s))" and "t_orderId t = Some (o_orderId x)"
    and "t_walletUserId t = Some (o_requesterId x)" and "t_amount t = o_reward x"
proof -
  obtain y where y: "y \<in> set (credit_operations (sg_credit s))" "Credit_Invariants.records y t"
    using saga_credit_ok(2) [OF inv] t by (auto simp: operations_ok_def)
  obtain x where x: "x \<in> set (orders (sg_orders s))" "o_orderId x = op_orderId y"
    using operation_asked [OF inv y(1)] by blast
  with operation_matches(1,2) [OF inv y(1) x(1)] y(2) that show thesis
    by (auto simp: Credit_Invariants.records_def)
qed

definition open_reserves :: "ident \<Rightarrow> saga \<Rightarrow> credit_transaction set" where
  "open_reserves user s = {t \<in> set (credit_transactions (sg_credit s)). t_type t = RESERVE \<and>
     \<not> settled (credit_transactions (sg_credit s)) t \<and> t_walletUserId t = Some user}"

definition reserved_errands :: "ident \<Rightarrow> saga \<Rightarrow> stored_order set" where
  "reserved_errands user s = {x \<in> set (orders (sg_orders s)). o_requesterId x = user \<and>
     cs_status (orderStatus (o_orderId x) (sg_credit s)) = St_RESERVED}"

lemma open_reserve_errand:
  assumes inv: "saga_inv alloc s" and t: "t \<in> open_reserves user s"
  obtains x where "x \<in> reserved_errands user s" and "t_orderId t = Some (o_orderId x)" and "t_amount t = o_reward x"
proof -
  have t: "t \<in> set (credit_transactions (sg_credit s))" "t_type t = RESERVE"
    "\<not> settled (credit_transactions (sg_credit s)) t" "t_walletUserId t = Some user"
    using t by (simp_all add: open_reserves_def)
  obtain x where x: "x \<in> set (orders (sg_orders s))" "t_orderId t = Some (o_orderId x)"
    "t_walletUserId t = Some (o_requesterId x)" "t_amount t = o_reward x"
    using reservation_errand [OF inv t(1,2)] .
  with t reserved_status [OF saga_credit_ok(1) [OF inv] t(1) x(2) t(2)] that show thesis
    by (auto simp: reserved_errands_def)
qed

lemma reserved_errand_reserve:
  assumes inv: "saga_inv alloc s" and x: "x \<in> reserved_errands user s"
  obtains t where "t \<in> open_reserves user s" and "t_orderId t = Some (o_orderId x)"
proof -
  note ok = saga_credit_ok(1) [OF inv]
  obtain t where t: "t \<in> set (credit_transactions (sg_credit s))" "t_orderId t = Some (o_orderId x)" "t_type t = RESERVE"
    using reserved_transaction [OF ok] x by (auto simp: reserved_errands_def)
  obtain z where z: "z \<in> set (orders (sg_orders s))" "t_orderId t = Some (o_orderId z)"
    "t_walletUserId t = Some (o_requesterId z)"
    by (rule reservation_errand [OF inv t(1,3)])
  have row: "x \<in> set (orders (sg_orders s))" "o_requesterId x = user"
    "cs_status (orderStatus (o_orderId x) (sg_credit s)) = St_RESERVED"
    using x by (simp_all add: reserved_errands_def)
  have "z = x" by (rule same_errand [OF inv z(1) row(1)]) (use z(2) t(2) in simp)
  then have "t \<in> open_reserves user s"
    using t(1,3) z(3) row(2,3) reserved_status [OF ok t] by (simp add: open_reserves_def)
  then show thesis using t(2) by (rule that)
qed

lemma open_reserve_ids:
  assumes "saga_inv alloc s"
  shows "(\<lambda>t. the (t_orderId t)) ` open_reserves user s = o_orderId ` reserved_errands user s"
    and "inj_on (\<lambda>t. the (t_orderId t)) (open_reserves user s)"
proof -
  show "(\<lambda>t. the (t_orderId t)) ` open_reserves user s = o_orderId ` reserved_errands user s"
  proof (intro equalityI subsetI)
    show "i \<in> o_orderId ` reserved_errands user s" if "i \<in> (\<lambda>t. the (t_orderId t)) ` open_reserves user s" for i
      using that by (auto elim: open_reserve_errand [OF assms])
    show "i \<in> (\<lambda>t. the (t_orderId t)) ` open_reserves user s" if "i \<in> o_orderId ` reserved_errands user s" for i
      using that by (auto elim!: reserved_errand_reserve [OF assms] simp: rev_image_eqI)
  qed
  show "inj_on (\<lambda>t. the (t_orderId t)) (open_reserves user s)"
  proof (rule inj_onI)
    fix t t' assume t: "t \<in> open_reserves user s" "t' \<in> open_reserves user s" "the (t_orderId t) = the (t_orderId t')"
    obtain x :: stored_order where "t_orderId t = Some (o_orderId x)" using open_reserve_errand [OF assms t(1)] by blast
    moreover obtain y :: stored_order where "t_orderId t' = Some (o_orderId y)" using open_reserve_errand [OF assms t(2)] by blast
    ultimately have i: "t_orderId t = Some (o_orderId x)" "t_orderId t' = Some (o_orderId x)" using t(3) by simp_all
    have "length (reserves (o_orderId x) (credit_transactions (sg_credit s))) \<le> 1"
      using saga_credit_ok(1) [OF assms] by (simp add: credit_ok_def transactions_ok_def)
    from at_most_one [OF this [unfolded reserves_def]] t(1,2) i show "t = t'" by (simp add: open_reserves_def)
  qed
qed

text \<open>
  C3. A wallet's reserve is its owner's outstanding errands: in every state the two services can
  reach together, the credits a wallet holds in reserve are the rewards of exactly those errands
  of its owner which Credit reports as reserved.
\<close>

theorem reserve_is_outstanding_rewards:
  assumes "reachable saga_start (saga_step e alloc) s" and w: "w \<in> set (wallets (sg_credit s))"
  shows "w_reserved w = sum_where (\<lambda>x. o_requesterId x = w_userId w \<and>
      cs_status (orderStatus (o_orderId x) (sg_credit s)) = St_RESERVED) o_reward (orders (sg_orders s))"
proof -
  note inv = saga_holds [OF assms(1)]
  note ok = saga_credit_ok(1) [OF inv]
  let ?ts = "credit_transactions (sg_credit s)" and ?xs = "orders (sg_orders s)" and ?user = "w_userId w"
  define g where "g = (\<lambda>i. o_reward (the (row_of o_orderId i ?xs)))"
  have dist: "distinct ?ts" "distinct (map o_orderId ?xs)"
    using ok inv by (auto simp: credit_ok_def transactions_ok_def distinct_map saga_inv_def errands_ok_def orders_ok_def)
  have reward: "g (o_orderId x) = o_reward x" if "x \<in> reserved_errands ?user s" for x
    using row_of_member [OF dist(2), of x] that by (simp add: g_def reserved_errands_def)
  have amount: "t_amount t = g (the (t_orderId t))" if "t \<in> open_reserves ?user s" for t
    by (rule open_reserve_errand [OF inv that]) (simp add: reward)
  have "w_reserved w = sum t_amount (open_reserves ?user s)"
    using ok w sum_where_set [OF dist(1)] by (simp add: credit_ok_def backed_def open_reservations_def open_reserves_def)
  also have "\<dots> = sum (g \<circ> (\<lambda>t. the (t_orderId t))) (open_reserves ?user s)" using amount by (intro sum.cong) simp_all
  also have "\<dots> = sum g (o_orderId ` reserved_errands ?user s)"
    using sum.reindex [OF open_reserve_ids(2) [OF inv], of g] open_reserve_ids(1) [OF inv] by simp
  also have "\<dots> = sum (g \<circ> o_orderId) (reserved_errands ?user s)"
    using dist(2) by (intro sum.reindex) (auto simp: reserved_errands_def distinct_map inj_on_def)
  also have "\<dots> = sum o_reward (reserved_errands ?user s)" by (rule sum.cong) (simp_all add: reward)
  finally show ?thesis
    using sum_where_set [of ?xs] dist(2) by (simp add: reserved_errands_def distinct_map)
qed

theorem reserve_is_outstanding_rewards_witness:
  "map (\<lambda>w. (w_userId w, w_reserved w)) (wallets (relayed_credit 5000 credit_reserved)) = [(''alice'', 3), (''bob'', 0)] \<and>
   sum_where (\<lambda>x. o_requesterId x = ''alice'' \<and>
     cs_status (orderStatus (o_orderId x) (relayed_credit 5000 credit_reserved)) = St_RESERVED) o_reward
     (orders orders_confirmed) = 3"
proof -
  obtain q r where s: "demo_saga orders_confirmed (relayed_credit 5000 credit_reserved) q r" by (rule demo_confirmed_saga)
  have ws: "map (\<lambda>w. (w_userId w, w_reserved w)) (wallets (relayed_credit 5000 credit_reserved)) =
      [(''alice'', 3), (''bob'', 0)]" by code_simp
  then obtain w where "w \<in> set (wallets (relayed_credit 5000 credit_reserved))" "w_userId w = ''alice''" "w_reserved w = 3"
    by (cases "wallets (relayed_credit 5000 credit_reserved)") auto
  with ws reserve_is_outstanding_rewards [OF s, of w] show ?thesis by simp
qed

end
