(* ===== verification/User_Store.thy ===== *)
theory User_Store
  imports Event_Tables
begin

text \<open>
  The User Service's text handling (user-service/src/users/email.ts), its tables
  (user-service/src/db/schema.ts) and the constraints a statement could run into, each a branch
  that gives \<open>DbViolation\<close> with the constraint's name. The audit trail, the recorded reads and the
  alerts are append-only by trigger; no statement of the service updates them.
\<close>

section \<open>Text\<close>

text \<open>\<open>randomUUID()\<close>: the \<open>k\<close>-th draw, in the lower-case form the function returns.\<close>

definition randomUUID :: "uuids \<Rightarrow> nat \<Rightarrow> ident" where
  "randomUUID u k = toLowerCase (u k)"

lemma toLowerCase_randomUUID [simp]: "toLowerCase (randomUUID u k) = randomUUID u k"
  by (simp add: randomUUID_def)

text \<open>\<open>nfkc\<close> is Unicode's compatibility composition (\<open>String.prototype.normalize\<close>).\<close>

definition normalizeEmail :: "(string \<Rightarrow> string) \<Rightarrow> string \<Rightarrow> string" where
  "normalizeEmail nfkc raw = toLowerCase (trim (nfkc raw))"

lemma toLowerCase_normalizeEmail [simp]: "toLowerCase (normalizeEmail nfkc raw) = normalizeEmail nfkc raw"
  by (simp add: normalizeEmail_def)

text \<open>What follows the last at sign; an address needs at least one character before it.\<close>

definition emailDomain :: "string \<Rightarrow> string option" where
  "emailDomain s =
     (let domain = rev (takeWhile (\<lambda>c. c \<noteq> CHR ''@'') (rev s))
      in if CHR ''@'' \<in> set s \<and> length domain + 1 < length s then Some domain else None)"

definition isAllowedDomain :: "string \<Rightarrow> string list \<Rightarrow> bool" where
  "isAllowedDomain normalizedEmail allowed =
     (case emailDomain normalizedEmail of None \<Rightarrow> False | Some d \<Rightarrow> d \<in> set allowed)"

lemma isAllowedDomain_exact:
  assumes "CHR ''@'' \<notin> set d"
  shows "isAllowedDomain (name @ CHR ''@'' # d) allowed \<longleftrightarrow> name \<noteq> [] \<and> d \<in> set allowed"
proof -
  have "takeWhile (\<lambda>c. c \<noteq> CHR ''@'') (rev (name @ CHR ''@'' # d)) = rev d"
    using assms by (auto simp: takeWhile_tail)
  then show ?thesis by (simp add: isAllowedDomain_def emailDomain_def Let_def)
qed

section \<open>Tables\<close>

datatype account_status = PENDING_ACTIVATION | ACTIVE | SUSPENDED

datatype contact_preference = IN_APP | EMAIL

datatype preferred_mode = Mode_REQUESTER | Mode_COURIER

datatype audit_action =
    SUSPEND | REACTIVATE | ROLE_GRANT | ROLE_REVOKE | ADMIN_BOOTSTRAP
  | ROLE_CHANGE_REQUESTED | ROLE_CHANGE_REJECTED

datatype audit_actor_type = Actor_USER | Actor_SYSTEM

datatype role_approval = SECOND_ADMIN | NO_APPROVER

datatype role_request_status = Req_PENDING | Req_APPROVED | Req_REJECTED | Req_EXPIRED

datatype admin_alert_kind =
    ROLE_CHANGE | ADMIN_SUSPENDED | ADMIN_REACTIVATED
  | BULK_SUSPENSIONS | SUSPENSION_LIMIT_REACHED | BULK_READS

record user_row =
  us_id :: ident
  us_email :: string
  us_passwordHash :: "string option"
  us_status :: account_status
  us_isSeededAdmin :: bool
  us_mustChangePassword :: bool
  us_activatedAt :: "time option"
  us_createdAt :: time
  us_updatedAt :: time

record user_role_row =
  ur_userId :: ident
  ur_role :: user_role
  ur_grantedBy :: "ident option"
  ur_grantedAt :: time

record profile_row =
  pf_userId :: ident
  pf_displayName :: string
  pf_faculty :: "string option"
  pf_avatarRef :: "string option"
  pf_contactPreference :: contact_preference
  pf_preferredMode :: preferred_mode

text \<open>An emailed link, for activation or for a password reset.\<close>

record link_token =
  lt_id :: ident
  lt_userId :: ident
  lt_tokenHash :: string
  lt_expiresAt :: time
  lt_consumedAt :: "time option"

record refresh_session =
  rs_id :: ident
  rs_familyId :: ident
  rs_userId :: ident
  rs_tokenHash :: string
  rs_issuedAt :: time
  rs_expiresAt :: time
  rs_rotatedAt :: "time option"
  rs_revokedAt :: "time option"
  rs_steppedUpAt :: "time option"

record audit_record =
  au_id :: ident
  au_actorId :: "ident option"
  au_actorType :: audit_actor_type
  au_targetUserId :: ident
  au_action :: audit_action
  au_reason :: string
  au_occurredAt :: time
  au_correlationId :: ident
  au_approval :: "role_approval option"

record role_change_request =
  rq_id :: ident
  rq_targetUserId :: ident
  rq_role :: user_role
  rq_requestedBy :: ident
  rq_reason :: string
  rq_status :: role_request_status
  rq_createdAt :: time
  rq_expiresAt :: time
  rq_decidedBy :: "ident option"
  rq_decidedAt :: "time option"
  rq_decisionReason :: "string option"
  rq_correlationId :: ident

record admin_read =
  ar_id :: ident
  ar_actorId :: ident
  ar_targetUserId :: ident
  ar_occurredAt :: time
  ar_correlationId :: ident

text \<open>The \<open>details\<close> of an alert: a role change, a change of status, or a count against a bound.\<close>

datatype admin_alert_details =
    Role_details ident user_role ident ident role_approval ident
  | Status_details ident ident
  | Count_details nat int

record admin_alert =
  aa_id :: ident
  aa_kind :: admin_alert_kind
  aa_actorId :: ident
  aa_details :: admin_alert_details
  aa_occurredAt :: time

record user_db = service_db +
  users :: "user_row list"
  user_roles :: "user_role_row list"
  profiles :: "profile_row list"
  activation_tokens :: "link_token list"
  password_reset_tokens :: "link_token list"
  refresh_sessions :: "refresh_session list"
  audit_records :: "audit_record list"
  role_change_requests :: "role_change_request list"
  admin_reads :: "admin_read list"
  admin_alerts :: "admin_alert list"

section \<open>Constraints\<close>

definition user_fk :: "user_db \<Rightarrow> ident \<Rightarrow> bool" where
  "user_fk db i \<longleftrightarrow> i \<in> us_id ` set (users db)"

definition char_length_between :: "nat \<Rightarrow> nat \<Rightarrow> string \<Rightarrow> bool" where
  "char_length_between lo hi s \<longleftrightarrow> lo \<le> length s \<and> length s \<le> hi"

definition user_role_checks :: "user_db \<Rightarrow> user_role_row \<Rightarrow> (string \<times> bool) list" where
  "user_role_checks db r =
     [(''user_roles_user_id_role_pk'',
        (ur_userId r, ur_role r) \<notin> (\<lambda>x. (ur_userId x, ur_role x)) ` set (user_roles db)),
      (''user_roles_user_id_users_id_fk'', user_fk db (ur_userId r)),
      (''user_roles_granted_by_users_id_fk'', opt_all (user_fk db) (ur_grantedBy r))]"

definition profile_checks :: "profile_row \<Rightarrow> (string \<times> bool) list" where
  "profile_checks p = [(''profiles_display_name_len'', char_length_between 1 50 (pf_displayName p))]"

definition profile_key_checks :: "user_db \<Rightarrow> profile_row \<Rightarrow> (string \<times> bool) list" where
  "profile_key_checks db p =
     [(''profiles_pkey'', pf_userId p \<notin> pf_userId ` set (profiles db)),
      (''profiles_user_id_users_id_fk'', user_fk db (pf_userId p))]"

text \<open>Both token tables have these constraints, under their own names.\<close>

definition link_token_checks :: "user_db \<Rightarrow> link_token list \<Rightarrow> link_token \<Rightarrow> (string \<times> bool) list" where
  "link_token_checks db ts t =
     [(''pkey'', lt_id t \<notin> lt_id ` set ts),
      (''token_hash_unique'', lt_tokenHash t \<notin> lt_tokenHash ` set ts),
      (''user_id_users_id_fk'', user_fk db (lt_userId t))]"

definition refresh_session_checks :: "user_db \<Rightarrow> refresh_session \<Rightarrow> (string \<times> bool) list" where
  "refresh_session_checks db s =
     [(''refresh_sessions_pkey'', rs_id s \<notin> rs_id ` set (refresh_sessions db)),
      (''refresh_sessions_token_hash_unique'',
        rs_tokenHash s \<notin> rs_tokenHash ` set (refresh_sessions db)),
      (''refresh_sessions_user_id_users_id_fk'', user_fk db (rs_userId s))]"

definition audit_record_checks :: "user_db \<Rightarrow> audit_record \<Rightarrow> (string \<times> bool) list" where
  "audit_record_checks db a =
     [(''audit_records_pkey'', au_id a \<notin> au_id ` set (audit_records db)),
      (''audit_records_approval_check'',
        au_approval a = None \<or> au_action a = ROLE_GRANT \<or> au_action a = ROLE_REVOKE),
      (''audit_records_actor_consistent'', (au_actorType a = Actor_SYSTEM) = (au_actorId a = None)),
      (''audit_records_reason_len'', char_length_between 1 500 (au_reason a)),
      (''audit_records_actor_id_users_id_fk'', opt_all (user_fk db) (au_actorId a)),
      (''audit_records_target_user_id_users_id_fk'', user_fk db (au_targetUserId a))]"

definition role_request_row_checks :: "role_change_request \<Rightarrow> (string \<times> bool) list" where
  "role_request_row_checks q =
     [(''role_change_requests_reason_len'', char_length_between 1 500 (rq_reason q)),
      (''role_change_requests_decided_consistent'',
        (rq_status q = Req_APPROVED \<or> rq_status q = Req_REJECTED) = (rq_decidedBy q \<noteq> None))]"

definition role_request_checks :: "user_db \<Rightarrow> role_change_request \<Rightarrow> (string \<times> bool) list" where
  "role_request_checks db q = role_request_row_checks q @
     [(''role_change_requests_pkey'', rq_id q \<notin> rq_id ` set (role_change_requests db)),
      (''role_change_requests_one_pending_per_target'',
        \<not> (\<exists>x \<in> set (role_change_requests db).
             rq_status q = Req_PENDING \<and> rq_status x = Req_PENDING \<and>
             rq_targetUserId x = rq_targetUserId q)),
      (''role_change_requests_target_user_id_users_id_fk'', user_fk db (rq_targetUserId q)),
      (''role_change_requests_requested_by_users_id_fk'', user_fk db (rq_requestedBy q)),
      (''role_change_requests_decided_by_users_id_fk'', opt_all (user_fk db) (rq_decidedBy q))]"

definition admin_read_checks :: "user_db \<Rightarrow> admin_read \<Rightarrow> (string \<times> bool) list" where
  "admin_read_checks db r =
     [(''admin_reads_pkey'', ar_id r \<notin> ar_id ` set (admin_reads db)),
      (''admin_reads_actor_id_users_id_fk'', user_fk db (ar_actorId r)),
      (''admin_reads_target_user_id_users_id_fk'', user_fk db (ar_targetUserId r))]"

definition admin_alert_checks :: "user_db \<Rightarrow> admin_alert \<Rightarrow> (string \<times> bool) list" where
  "admin_alert_checks db a =
     [(''admin_alerts_pkey'', aa_id a \<notin> aa_id ` set (admin_alerts db)),
      (''admin_alerts_actor_id_users_id_fk'', user_fk db (aa_actorId a))]"

section \<open>Time spans\<close>

text \<open>\<open>make_interval\<close> in microseconds.\<close>

definition seconds_span :: "int \<Rightarrow> int" where "seconds_span n = n * 1000000"
definition minutes_span :: "int \<Rightarrow> int" where "minutes_span n = n * 60000000"
definition hours_span :: "int \<Rightarrow> int" where "hours_span n = n * 3600000000"
definition days_span :: "int \<Rightarrow> int" where "days_span n = n * day"

end
