(* ===== verification/User_Repository.thy ===== *)
theory User_Repository
  imports User_Store
begin

text \<open>
  The User Service's repositories, one definition per function, each a statement or two:
  accounts, links and profiles (user-service/src/users/users.repository.ts), sessions
  (auth/sessions.repository.ts) and administration (admin/admin.repository.ts). \<open>now\<close> is the start
  of the transaction a statement runs in, which is what \<open>now()\<close> gives in all of it. The locks
  (\<open>FOR UPDATE\<close>, \<open>FOR SHARE\<close>, the advisory lock) order transactions; a transaction is one step here.
\<close>

section \<open>Accounts\<close>

definition user_of :: "user_db \<Rightarrow> ident \<Rightarrow> user_row option" where
  "user_of db i = row_of us_id i (users db)"

text \<open>The account at an address: the index on \<open>lower(email)\<close> lets there be one.\<close>

definition user_at :: "user_db \<Rightarrow> string \<Rightarrow> user_row option" where
  "user_at db email = find (\<lambda>x. toLowerCase (us_email x) = toLowerCase email) (users db)"

definition update_user :: "ident \<Rightarrow> (user_row \<Rightarrow> user_row) \<Rightarrow> user_db \<Rightarrow> user_db" where
  "update_user i f db = db\<lparr> users := update_rows (\<lambda>x. us_id x = i) f (users db) \<rparr>"

definition rolesOf :: "user_db \<Rightarrow> ident \<Rightarrow> user_role list" where
  "rolesOf db i = filter (\<lambda>r. (i, r) \<in> (\<lambda>x. (ur_userId x, ur_role x)) ` set (user_roles db)) [ADMIN, STUDENT]"

definition insertRole :: "user_role_row \<Rightarrow> user_db \<Rightarrow> service_error + user_db" where
  "insertRole r db = bindE (constraints (user_role_checks db r)) (\<lambda>_.
     Inr (db\<lparr> user_roles := user_roles db @ [r] \<rparr>))"

definition insertProfile :: "ident \<Rightarrow> string \<Rightarrow> user_db \<Rightarrow> service_error + user_db" where
  "insertProfile i displayName db =
     (let p = \<lparr> pf_userId = i, pf_displayName = displayName, pf_faculty = None, pf_avatarRef = None,
                pf_contactPreference = IN_APP, pf_preferredMode = Mode_REQUESTER \<rparr>
      in bindE (constraints (profile_checks p @ profile_key_checks db p)) (\<lambda>_.
           Inr (db\<lparr> profiles := profiles db @ [p] \<rparr>)))"

text \<open>\<open>INSERT INTO users ... ON CONFLICT (lower(email)) DO NOTHING\<close>: whether a row was inserted.\<close>

definition insertUserRow :: "user_row \<Rightarrow> user_db \<Rightarrow> service_error + (bool \<times> user_db)" where
  "insertUserRow x db =
     (if toLowerCase (us_email x) \<in> (\<lambda>y. toLowerCase (us_email y)) ` set (users db) then Inr (False, db)
      else if us_id x \<in> us_id ` set (users db) then Inl (DbViolation ''users_pkey'')
      else Inr (True, db\<lparr> users := users db @ [x] \<rparr>))"

definition pending_user :: "time \<Rightarrow> ident \<Rightarrow> string \<Rightarrow> user_row" where
  "pending_user now i email =
     \<lparr> us_id = i, us_email = email, us_passwordHash = None, us_status = PENDING_ACTIVATION,
       us_isSeededAdmin = False, us_mustChangePassword = False, us_activatedAt = None,
       us_createdAt = now, us_updatedAt = now \<rparr>"

definition role_row :: "time \<Rightarrow> ident \<Rightarrow> user_role \<Rightarrow> ident option \<Rightarrow> user_role_row" where
  "role_row now i r by_whom = \<lparr> ur_userId = i, ur_role = r, ur_grantedBy = by_whom, ur_grantedAt = now \<rparr>"

definition insertUser :: "time \<Rightarrow> ident \<Rightarrow> string \<Rightarrow> string \<Rightarrow> user_db \<Rightarrow> service_error + (bool \<times> user_db)" where
  "insertUser now i email displayName db =
     bindE (insertUserRow (pending_user now i email) db) (\<lambda>(inserted, db1).
       if \<not> inserted then Inr (False, db1)
       else bindE (insertRole (role_row now i STUDENT None) db1) (\<lambda>db2.
         bindE (insertProfile i displayName db2) (\<lambda>db3. Inr (True, db3))))"

definition insertSeededAdmin ::
  "time \<Rightarrow> ident \<Rightarrow> string \<Rightarrow> string \<Rightarrow> string \<Rightarrow> user_db \<Rightarrow> service_error + (bool \<times> user_db)" where
  "insertSeededAdmin now i email passwordHash displayName db =
     bindE (insertUserRow ((pending_user now i email)
              \<lparr> us_passwordHash := Some passwordHash, us_status := ACTIVE, us_isSeededAdmin := True,
                us_mustChangePassword := True, us_activatedAt := Some now \<rparr>) db) (\<lambda>(inserted, db1).
       if \<not> inserted then Inr (False, db1)
       else bindE (insertRole (role_row now i STUDENT None) db1) (\<lambda>db2.
         bindE (insertRole (role_row now i ADMIN None) db2) (\<lambda>db3.
         bindE (insertProfile i displayName db3) (\<lambda>db4. Inr (True, db4)))))"

definition lockPendingUser :: "user_db \<Rightarrow> string \<Rightarrow> ident option" where
  "lockPendingUser db email =
     map_option us_id (find (\<lambda>x. toLowerCase (us_email x) = toLowerCase email \<and>
                                 us_status x = PENDING_ACTIVATION) (users db))"

definition lockResettableUser :: "user_db \<Rightarrow> string \<Rightarrow> ident option" where
  "lockResettableUser db email =
     map_option us_id (find (\<lambda>x. toLowerCase (us_email x) = toLowerCase email \<and>
                                 us_status x \<in> {PENDING_ACTIVATION, ACTIVE}) (users db))"

definition isActivated :: "user_db \<Rightarrow> ident \<Rightarrow> bool" where
  "isActivated db i \<longleftrightarrow> (\<exists>x \<in> set (users db). us_id x = i \<and> us_status x = ACTIVE \<and> us_activatedAt x \<noteq> None)"

text \<open>Flips a pending account to active once; the flag is whether it was pending.\<close>

definition markActivated :: "time \<Rightarrow> ident \<Rightarrow> user_db \<Rightarrow> bool \<times> user_db" where
  "markActivated now i db =
     (if \<exists>x \<in> set (users db). us_id x = i \<and> us_status x = PENDING_ACTIVATION
      then (True, update_user i (\<lambda>x. x\<lparr> us_status := ACTIVE, us_activatedAt := Some now, us_updatedAt := now \<rparr>) db)
      else (False, db))"

definition setPassword :: "time \<Rightarrow> ident \<Rightarrow> string \<Rightarrow> user_db \<Rightarrow> user_db" where
  "setPassword now i hash = update_user i (\<lambda>x. x\<lparr> us_passwordHash := Some hash,
     us_mustChangePassword := False, us_updatedAt := now \<rparr>)"

definition replacePassword :: "time \<Rightarrow> ident \<Rightarrow> string \<Rightarrow> string \<Rightarrow> user_db \<Rightarrow> bool \<times> user_db" where
  "replacePassword now i expectedHash newHash db =
     (if \<exists>x \<in> set (users db). us_id x = i \<and> us_passwordHash x = Some expectedHash
      then (True, setPassword now i newHash db) else (False, db))"

definition findPasswordHash :: "user_db \<Rightarrow> ident \<Rightarrow> string option" where
  "findPasswordHash db i = Option.bind (user_of db i) us_passwordHash"

definition profile_of :: "user_db \<Rightarrow> ident \<Rightarrow> profile_row option" where
  "profile_of db i = row_of pf_userId i (profiles db)"

definition display_name :: "user_db \<Rightarrow> ident \<Rightarrow> string" where
  "display_name db i = (case profile_of db i of Some p \<Rightarrow> pf_displayName p | None \<Rightarrow> [])"

record credentials =
  cr_id :: ident
  cr_passwordHash :: "string option"
  cr_status :: account_status
  cr_mustChangePassword :: bool
  cr_isSeededAdmin :: bool
  cr_displayName :: string
  cr_roles :: "user_role list"

definition findCredentials :: "user_db \<Rightarrow> string \<Rightarrow> credentials option" where
  "findCredentials db email = map_option (\<lambda>x.
     \<lparr> cr_id = us_id x, cr_passwordHash = us_passwordHash x, cr_status = us_status x,
       cr_mustChangePassword = us_mustChangePassword x, cr_isSeededAdmin = us_isSeededAdmin x,
       cr_displayName = display_name db (us_id x), cr_roles = rolesOf db (us_id x) \<rparr>) (user_at db email)"

record me_row =
  me_id :: ident
  me_email :: string
  me_status :: account_status
  me_createdAt :: time
  me_profile :: profile_row
  me_roles :: "user_role list"

definition findMe :: "user_db \<Rightarrow> ident \<Rightarrow> me_row option" where
  "findMe db i = (case (user_of db i, profile_of db i) of
     (Some x, Some p) \<Rightarrow> Some \<lparr> me_id = us_id x, me_email = us_email x, me_status = us_status x,
        me_createdAt = us_createdAt x, me_profile = p, me_roles = rolesOf db i \<rparr>
   | _ \<Rightarrow> None)"

record profile_changes =
  ch_displayName :: "string option"
  ch_faculty :: "string option option"
  ch_avatarRef :: "string option option"
  ch_contactPreference :: "contact_preference option"
  ch_preferredMode :: "preferred_mode option"

definition changed :: "'a option \<Rightarrow> 'a \<Rightarrow> 'a" where
  "changed c old = (case c of Some new \<Rightarrow> new | None \<Rightarrow> old)"

definition apply_changes :: "profile_changes \<Rightarrow> profile_row \<Rightarrow> profile_row" where
  "apply_changes c p =
     \<lparr> pf_userId = pf_userId p, pf_displayName = changed (ch_displayName c) (pf_displayName p),
       pf_faculty = changed (ch_faculty c) (pf_faculty p),
       pf_avatarRef = changed (ch_avatarRef c) (pf_avatarRef p),
       pf_contactPreference = changed (ch_contactPreference c) (pf_contactPreference p),
       pf_preferredMode = changed (ch_preferredMode c) (pf_preferredMode p) \<rparr>"

definition no_changes :: profile_changes where
  "no_changes = \<lparr> ch_displayName = None, ch_faculty = None, ch_avatarRef = None,
     ch_contactPreference = None, ch_preferredMode = None \<rparr>"

definition updateProfile :: "ident \<Rightarrow> profile_changes \<Rightarrow> user_db \<Rightarrow> service_error + user_db" where
  "updateProfile i c db = (if c = no_changes then Inr db else
     bindE (constraints (concat (map (\<lambda>p. profile_checks (apply_changes c p))
              (filter (\<lambda>p. pf_userId p = i) (profiles db))))) (\<lambda>_.
       Inr (db\<lparr> profiles := update_rows (\<lambda>p. pf_userId p = i) (apply_changes c) (profiles db) \<rparr>)))"

definition listActiveAdminIds :: "user_db \<Rightarrow> ident list" where
  "listActiveAdminIds db = sort (map us_id (filter (\<lambda>x. ADMIN \<in> set (rolesOf db (us_id x)) \<and>
     us_status x = ACTIVE \<and> \<not> us_mustChangePassword x) (users db)))"

record identity_row =
  id_status :: account_status
  id_roles :: "user_role list"
  id_displayName :: string

definition findIdentity :: "user_db \<Rightarrow> ident \<Rightarrow> identity_row option" where
  "findIdentity db i = map_option (\<lambda>x. \<lparr> id_status = us_status x, id_roles = rolesOf db i,
     id_displayName = display_name db i \<rparr>) (user_of db i)"

section \<open>Emailed links\<close>

text \<open>
  Activation links and reset links are kept alike, each in its own table; the statements on both
  are these, on the rows of the table.
\<close>

definition live_link :: "time \<Rightarrow> link_token \<Rightarrow> bool" where
  "live_link now t \<longleftrightarrow> lt_consumedAt t = None \<and> now < lt_expiresAt t"

definition without_unconsumed :: "ident \<Rightarrow> link_token list \<Rightarrow> link_token list" where
  "without_unconsumed i ts = filter (\<lambda>t. \<not> (lt_userId t = i \<and> lt_consumedAt t = None)) ts"

definition consumed_by_hash :: "time \<Rightarrow> string \<Rightarrow> link_token list \<Rightarrow> ident option \<times> link_token list" where
  "consumed_by_hash now h ts =
     (map_option lt_userId (find (\<lambda>t. lt_tokenHash t = h \<and> live_link now t) ts),
      update_rows (\<lambda>t. lt_tokenHash t = h \<and> live_link now t) (\<lambda>t. t\<lparr> lt_consumedAt := Some now \<rparr>) ts)"

definition new_link :: "time \<Rightarrow> ident \<Rightarrow> ident \<Rightarrow> string \<Rightarrow> int \<Rightarrow> link_token" where
  "new_link now i user h ttlMinutes =
     \<lparr> lt_id = i, lt_userId = user, lt_tokenHash = h, lt_expiresAt = now + minutes_span ttlMinutes,
       lt_consumedAt = None \<rparr>"

definition insertActivationToken :: "time \<Rightarrow> ident \<Rightarrow> ident \<Rightarrow> string \<Rightarrow> int \<Rightarrow> user_db \<Rightarrow> service_error + user_db" where
  "insertActivationToken now i user h ttlMinutes db =
     (let t = new_link now i user h ttlMinutes
      in bindE (constraints (link_token_checks db (activation_tokens db) t)) (\<lambda>_.
           Inr (db\<lparr> activation_tokens := activation_tokens db @ [t] \<rparr>)))"

definition deleteUnconsumedActivationTokens :: "ident \<Rightarrow> user_db \<Rightarrow> user_db" where
  "deleteUnconsumedActivationTokens i db =
     db\<lparr> activation_tokens := without_unconsumed i (activation_tokens db) \<rparr>"

definition consumeActivationToken :: "time \<Rightarrow> string \<Rightarrow> user_db \<Rightarrow> ident option \<times> user_db" where
  "consumeActivationToken now h db =
     (let (user, ts) = consumed_by_hash now h (activation_tokens db)
      in (user, db\<lparr> activation_tokens := ts \<rparr>))"

record found_token =
  ft_userId :: ident
  ft_consumed :: bool
  ft_expired :: bool
  ft_isSeededAdmin :: bool

definition found_token_of :: "time \<Rightarrow> link_token \<Rightarrow> bool \<Rightarrow> found_token" where
  "found_token_of now t seeded =
     \<lparr> ft_userId = lt_userId t, ft_consumed = (lt_consumedAt t \<noteq> None),
       ft_expired = (lt_expiresAt t \<le> now), ft_isSeededAdmin = seeded \<rparr>"

definition findActivationToken :: "time \<Rightarrow> user_db \<Rightarrow> string \<Rightarrow> found_token option" where
  "findActivationToken now db h =
     map_option (\<lambda>t. found_token_of now t False) (row_of lt_tokenHash h (activation_tokens db))"

definition lockUserOfToken :: "user_db \<Rightarrow> string \<Rightarrow> account_status option" where
  "lockUserOfToken db h = map_option us_status
     (Option.bind (row_of lt_tokenHash h (activation_tokens db)) (\<lambda>t. user_of db (lt_userId t)))"

definition insertPasswordResetToken :: "time \<Rightarrow> ident \<Rightarrow> ident \<Rightarrow> string \<Rightarrow> int \<Rightarrow> user_db \<Rightarrow> service_error + user_db" where
  "insertPasswordResetToken now i user h ttlMinutes db =
     (let t = new_link now i user h ttlMinutes
      in bindE (constraints (link_token_checks db (password_reset_tokens db) t)) (\<lambda>_.
           Inr (db\<lparr> password_reset_tokens := password_reset_tokens db @ [t] \<rparr>)))"

definition deleteUnconsumedPasswordResetTokens :: "ident \<Rightarrow> user_db \<Rightarrow> user_db" where
  "deleteUnconsumedPasswordResetTokens i db =
     db\<lparr> password_reset_tokens := without_unconsumed i (password_reset_tokens db) \<rparr>"

definition findPasswordResetToken :: "time \<Rightarrow> user_db \<Rightarrow> string \<Rightarrow> found_token option" where
  "findPasswordResetToken now db h =
     Option.bind (row_of lt_tokenHash h (password_reset_tokens db)) (\<lambda>t.
       map_option (\<lambda>x. found_token_of now t (us_isSeededAdmin x)) (user_of db (lt_userId t)))"

definition lockUserOfPasswordResetToken :: "user_db \<Rightarrow> string \<Rightarrow> account_status option" where
  "lockUserOfPasswordResetToken db h = map_option us_status
     (Option.bind (row_of lt_tokenHash h (password_reset_tokens db)) (\<lambda>t. user_of db (lt_userId t)))"

definition consumePasswordResetToken :: "time \<Rightarrow> string \<Rightarrow> user_db \<Rightarrow> ident option \<times> user_db" where
  "consumePasswordResetToken now h db =
     (let (user, ts) = consumed_by_hash now h (password_reset_tokens db)
      in (user, db\<lparr> password_reset_tokens := ts \<rparr>))"

text \<open>
  Registering again at an address that never activated: the pending account there, unless one of
  its links is live. It has no password and takes the new display name.
\<close>

definition reviveExpiredRegistration ::
  "time \<Rightarrow> string \<Rightarrow> string \<Rightarrow> user_db \<Rightarrow> service_error + (ident option \<times> user_db)" where
  "reviveExpiredRegistration now email displayName db =
     (case lockPendingUser db email of
        None \<Rightarrow> Inr (None, db)
      | Some i \<Rightarrow>
          if \<exists>t \<in> set (activation_tokens db). lt_userId t = i \<and> live_link now t then Inr (None, db)
          else let named = (\<lambda>p. p\<lparr> pf_displayName := displayName \<rparr>);
                   db1 = update_user i (\<lambda>x. x\<lparr> us_passwordHash := None, us_updatedAt := now \<rparr>) db
               in bindE (constraints (concat (map (\<lambda>p. profile_checks (named p))
                           (filter (\<lambda>p. pf_userId p = i) (profiles db1))))) (\<lambda>_.
                    Inr (Some i, db1\<lparr> profiles := update_rows (\<lambda>p. pf_userId p = i) named (profiles db1) \<rparr>)))"

section \<open>Sessions\<close>

definition session_of :: "user_db \<Rightarrow> ident \<Rightarrow> refresh_session option" where
  "session_of db i = row_of rs_id i (refresh_sessions db)"

definition insertSession :: "refresh_session \<Rightarrow> user_db \<Rightarrow> service_error + user_db" where
  "insertSession s db = bindE (constraints (refresh_session_checks db s)) (\<lambda>_.
     Inr (db\<lparr> refresh_sessions := refresh_sessions db @ [s] \<rparr>))"

definition update_sessions :: "(refresh_session \<Rightarrow> bool) \<Rightarrow> (refresh_session \<Rightarrow> refresh_session) \<Rightarrow> user_db \<Rightarrow> user_db" where
  "update_sessions p f db = db\<lparr> refresh_sessions := update_rows p f (refresh_sessions db) \<rparr>"

text \<open>The session a refresh hands out: same family, owner, expiry and password re-entry.\<close>

definition rotate_session :: "time \<Rightarrow> ident \<Rightarrow> string \<Rightarrow> ident \<Rightarrow> user_db \<Rightarrow> service_error + user_db" where
  "rotate_session now i h continues db =
     (case session_of db continues of
        None \<Rightarrow> Inr db
      | Some s \<Rightarrow> insertSession (s\<lparr> rs_id := i, rs_tokenHash := h, rs_issuedAt := now,
                     rs_rotatedAt := None, rs_revokedAt := None \<rparr>) db)"

definition loginable :: "user_db \<Rightarrow> ident \<Rightarrow> string \<Rightarrow> bool" where
  "loginable db i hash \<longleftrightarrow> (\<exists>x \<in> set (users db). us_id x = i \<and> us_passwordHash x = Some hash \<and>
     us_status x = ACTIVE \<and> \<not> us_mustChangePassword x)"

definition insertIfLoginable ::
  "time \<Rightarrow> ident \<Rightarrow> ident \<Rightarrow> ident \<Rightarrow> string \<Rightarrow> int \<Rightarrow> string \<Rightarrow> user_db \<Rightarrow> service_error + (bool \<times> user_db)" where
  "insertIfLoginable now i family user h ttlDays verifiedHash db =
     (if \<not> loginable db user verifiedHash then Inr (False, db)
      else bindE (insertSession
             \<lparr> rs_id = i, rs_familyId = family, rs_userId = user, rs_tokenHash = h, rs_issuedAt = now,
               rs_expiresAt = now + days_span ttlDays, rs_rotatedAt = None, rs_revokedAt = None,
               rs_steppedUpAt = None \<rparr> db) (\<lambda>db'. Inr (True, db')))"

record locked_session =
  ls_id :: ident
  ls_familyId :: ident
  ls_userId :: ident
  ls_expired :: bool
  ls_rotated :: bool
  ls_revoked :: bool
  ls_userStatus :: account_status
  ls_mustChangePassword :: bool

definition lockByHash :: "time \<Rightarrow> user_db \<Rightarrow> string \<Rightarrow> locked_session option" where
  "lockByHash now db h =
     Option.bind (row_of rs_tokenHash h (refresh_sessions db)) (\<lambda>s.
       map_option (\<lambda>x. \<lparr> ls_id = rs_id s, ls_familyId = rs_familyId s, ls_userId = rs_userId s,
         ls_expired = (rs_expiresAt s \<le> now), ls_rotated = (rs_rotatedAt s \<noteq> None),
         ls_revoked = (rs_revokedAt s \<noteq> None), ls_userStatus = us_status x,
         ls_mustChangePassword = us_mustChangePassword x \<rparr>) (user_of db (rs_userId s)))"

definition markRotated :: "time \<Rightarrow> ident \<Rightarrow> user_db \<Rightarrow> user_db" where
  "markRotated now i = update_sessions (\<lambda>s. rs_id s = i) (\<lambda>s. s\<lparr> rs_rotatedAt := Some now \<rparr>)"

definition revoke :: "time \<Rightarrow> refresh_session \<Rightarrow> refresh_session" where
  "revoke now s = s\<lparr> rs_revokedAt := Some now \<rparr>"

definition revokeFamily :: "time \<Rightarrow> ident \<Rightarrow> user_db \<Rightarrow> user_db" where
  "revokeFamily now family = update_sessions (\<lambda>s. rs_familyId s = family \<and> rs_revokedAt s = None) (revoke now)"

definition revokeFamilyByTokenHash :: "time \<Rightarrow> string \<Rightarrow> user_db \<Rightarrow> user_db" where
  "revokeFamilyByTokenHash now h db =
     (case row_of rs_tokenHash h (refresh_sessions db) of
        None \<Rightarrow> db
      | Some s \<Rightarrow> revokeFamily now (rs_familyId s) db)"

definition revokeAllForUser :: "time \<Rightarrow> ident \<Rightarrow> user_db \<Rightarrow> user_db" where
  "revokeAllForUser now i = update_sessions (\<lambda>s. rs_userId s = i \<and> rs_revokedAt s = None) (revoke now)"

definition markSteppedUp :: "time \<Rightarrow> ident \<Rightarrow> ident \<Rightarrow> user_db \<Rightarrow> bool \<times> user_db" where
  "markSteppedUp now sessionId user db =
     (let p = (\<lambda>s. rs_id s = sessionId \<and> rs_userId s = user \<and> rs_revokedAt s = None)
      in (list_ex p (refresh_sessions db),
          update_sessions p (\<lambda>s. s\<lparr> rs_steppedUpAt := Some now \<rparr>) db))"

definition steppedUpWithin :: "time \<Rightarrow> user_db \<Rightarrow> ident \<Rightarrow> int \<Rightarrow> bool" where
  "steppedUpWithin now db sessionId secs \<longleftrightarrow>
     (\<exists>s \<in> set (refresh_sessions db). rs_id s = sessionId \<and> rs_revokedAt s = None \<and>
        (case rs_steppedUpAt s of None \<Rightarrow> False | Some t \<Rightarrow> now - seconds_span secs < t))"

text \<open>Whether a session is usable, with its account's status.\<close>

definition liveness :: "time \<Rightarrow> user_db \<Rightarrow> ident \<Rightarrow> ident \<Rightarrow> (bool \<times> account_status) option" where
  "liveness now db sessionId user =
     Option.bind (session_of db sessionId) (\<lambda>s.
       if rs_userId s \<noteq> user then None
       else map_option (\<lambda>x. (rs_revokedAt s = None \<and> now < rs_expiresAt s \<and> \<not> us_mustChangePassword x,
                             us_status x)) (user_of db user))"

end
