(* ===== verification/User_Admin_Repository.thy ===== *)
theory User_Admin_Repository
  imports User_Repository
begin

text \<open>
  The administration repository (user-service/src/admin/admin.repository.ts): locks on
  administrators and accounts, role and status changes, the audit trail, role-change requests,
  the record of what administrators read, and alerts. \<open>insertSeededAdmin\<close> is in
  \<open>User_Repository\<close>, beside \<open>insertUser\<close>.
\<close>

section \<open>Accounts and roles\<close>

definition lockAdminIds :: "user_db \<Rightarrow> ident list" where
  "lockAdminIds db = sort (map ur_userId (filter (\<lambda>r. ur_role r = ADMIN) (user_roles db)))"

record locked_user =
  lu_id :: ident
  lu_status :: account_status
  lu_isSeededAdmin :: bool
  lu_roles :: "user_role list"

definition locked_user_of :: "user_db \<Rightarrow> user_row \<Rightarrow> locked_user" where
  "locked_user_of db x = \<lparr> lu_id = us_id x, lu_status = us_status x,
     lu_isSeededAdmin = us_isSeededAdmin x, lu_roles = rolesOf db (us_id x) \<rparr>"

text \<open>
  The accounts with these ids, by their lower-case id; the database compares UUIDs, so the case an
  id was typed in does not matter to it, only to the lookup in the map.
\<close>

definition lockUsers :: "user_db \<Rightarrow> ident list \<Rightarrow> ident \<Rightarrow> locked_user option" where
  "lockUsers db ids k =
     map_option (locked_user_of db)
       (find (\<lambda>x. us_id x \<in> set (map toLowerCase ids) \<and> toLowerCase (us_id x) = k) (users db))"

definition isSeededAdmin :: "user_db \<Rightarrow> ident \<Rightarrow> bool" where
  "isSeededAdmin db i \<longleftrightarrow> (\<exists>x \<in> set (users db). us_id x = i \<and> us_isSeededAdmin x)"

definition setStatus :: "time \<Rightarrow> ident \<Rightarrow> account_status \<Rightarrow> user_db \<Rightarrow> user_db" where
  "setStatus now i status = update_user i (\<lambda>x. x\<lparr> us_status := status, us_updatedAt := now \<rparr>)"

definition grantAdmin :: "time \<Rightarrow> ident \<Rightarrow> ident \<Rightarrow> user_db \<Rightarrow> service_error + user_db" where
  "grantAdmin now i grantedBy db =
     (if (i, ADMIN) \<in> (\<lambda>x. (ur_userId x, ur_role x)) ` set (user_roles db) then Inr db
      else insertRole (role_row now i ADMIN (Some grantedBy)) db)"

definition revokeAdmin :: "ident \<Rightarrow> user_db \<Rightarrow> user_db" where
  "revokeAdmin i db =
     db\<lparr> user_roles := filter (\<lambda>r. \<not> (ur_userId r = i \<and> ur_role r = ADMIN)) (user_roles db) \<rparr>"

section \<open>The audit trail\<close>

record new_audit =
  na_id :: ident
  na_actorId :: "ident option"
  na_targetUserId :: ident
  na_action :: audit_action
  na_reason :: string
  na_correlationId :: ident
  na_approval :: "role_approval option"

definition audit_of :: "time \<Rightarrow> new_audit \<Rightarrow> audit_record" where
  "audit_of now a =
     \<lparr> au_id = na_id a, au_actorId = na_actorId a,
       au_actorType = (if na_actorId a = None then Actor_SYSTEM else Actor_USER),
       au_targetUserId = na_targetUserId a, au_action = na_action a, au_reason = na_reason a,
       au_occurredAt = now, au_correlationId = na_correlationId a, au_approval = na_approval a \<rparr>"

definition insertAudit :: "time \<Rightarrow> new_audit \<Rightarrow> user_db \<Rightarrow> service_error + user_db" where
  "insertAudit now a db = bindE (constraints (audit_record_checks db (audit_of now a))) (\<lambda>_.
     Inr (db\<lparr> audit_records := audit_records db @ [audit_of now a] \<rparr>))"

definition acted_since :: "ident \<Rightarrow> audit_action \<Rightarrow> time \<Rightarrow> audit_record \<Rightarrow> bool" where
  "acted_since actorId action t a \<longleftrightarrow>
     au_actorId a = Some actorId \<and> au_action a = action \<and> t < au_occurredAt a"

definition countActorActions :: "time \<Rightarrow> user_db \<Rightarrow> ident \<Rightarrow> audit_action \<Rightarrow> int \<Rightarrow> nat" where
  "countActorActions now db actorId action secs =
     length (filter (acted_since actorId action (now - seconds_span secs)) (audit_records db))"

section \<open>Role-change requests\<close>

text \<open>A pending request past its deadline reads as expired, whether or not that was written.\<close>

definition effectiveStatus :: "time \<Rightarrow> role_change_request \<Rightarrow> role_request_status" where
  "effectiveStatus now q =
     (if rq_status q = Req_PENDING \<and> rq_expiresAt q \<le> now then Req_EXPIRED else rq_status q)"

definition as_read :: "time \<Rightarrow> role_change_request \<Rightarrow> role_change_request" where
  "as_read now q = q\<lparr> rq_status := effectiveStatus now q \<rparr>"

definition request_of_id :: "user_db \<Rightarrow> ident \<Rightarrow> role_change_request option" where
  "request_of_id db i = row_of rq_id i (role_change_requests db)"

definition expireStaleRequests :: "time \<Rightarrow> ident \<Rightarrow> user_db \<Rightarrow> user_db" where
  "expireStaleRequests now target db = db\<lparr> role_change_requests :=
     update_rows (\<lambda>q. rq_targetUserId q = target \<and> rq_status q = Req_PENDING \<and> rq_expiresAt q \<le> now)
       (\<lambda>q. q\<lparr> rq_status := Req_EXPIRED \<rparr>) (role_change_requests db) \<rparr>"

definition findPendingRequest :: "time \<Rightarrow> user_db \<Rightarrow> ident \<Rightarrow> role_change_request option" where
  "findPendingRequest now db target = map_option (as_read now)
     (find (\<lambda>q. rq_targetUserId q = target \<and> rq_status q = Req_PENDING) (role_change_requests db))"

definition insertRoleRequest ::
  "time \<Rightarrow> ident \<Rightarrow> ident \<Rightarrow> user_role \<Rightarrow> ident \<Rightarrow> string \<Rightarrow> int \<Rightarrow> ident \<Rightarrow> user_db
     \<Rightarrow> service_error + (role_change_request \<times> user_db)" where
  "insertRoleRequest now i target r requestedBy reason ttlHours correlation db =
     (let q = \<lparr> rq_id = i, rq_targetUserId = target, rq_role = r, rq_requestedBy = requestedBy,
                rq_reason = reason, rq_status = Req_PENDING, rq_createdAt = now,
                rq_expiresAt = now + hours_span ttlHours, rq_decidedBy = None, rq_decidedAt = None,
                rq_decisionReason = None, rq_correlationId = correlation \<rparr>
      in bindE (constraints (role_request_checks db q)) (\<lambda>_.
           Inr (as_read now q, db\<lparr> role_change_requests := role_change_requests db @ [q] \<rparr>)))"

definition lockRoleRequest :: "time \<Rightarrow> user_db \<Rightarrow> ident \<Rightarrow> role_change_request option" where
  "lockRoleRequest now db i = map_option (as_read now) (request_of_id db (toLowerCase i))"

definition decided :: "time \<Rightarrow> role_request_status \<Rightarrow> ident \<Rightarrow> string \<Rightarrow> role_change_request \<Rightarrow> role_change_request" where
  "decided now status who why q = q\<lparr> rq_status := status, rq_decidedBy := Some who,
     rq_decidedAt := Some now, rq_decisionReason := Some why \<rparr>"

text \<open>The source reads the one row of its \<open>RETURNING\<close>; the callers hold the row locked.\<close>

definition decideRoleRequest ::
  "time \<Rightarrow> ident \<Rightarrow> role_request_status \<Rightarrow> ident \<Rightarrow> string \<Rightarrow> user_db
     \<Rightarrow> service_error + (role_change_request \<times> user_db)" where
  "decideRoleRequest now i status who why db =
     (case request_of_id db i of
        None \<Rightarrow> Inl (PlainError ''TypeError'')
      | Some q \<Rightarrow>
          bindE (constraints (role_request_row_checks (decided now status who why q) @
                   [(''role_change_requests_decided_by_users_id_fk'', user_fk db who)])) (\<lambda>_.
            Inr (as_read now (decided now status who why q),
                 db\<lparr> role_change_requests :=
                       update_rows (\<lambda>x. rq_id x = i) (decided now status who why) (role_change_requests db) \<rparr>)))"

section \<open>Watching the administrators\<close>

fun insertAdminReads :: "time \<Rightarrow> (ident \<times> ident \<times> ident \<times> ident) list \<Rightarrow> user_db \<Rightarrow> service_error + user_db" where
  "insertAdminReads now [] db = Inr db"
| "insertAdminReads now ((i, actor, target, correlation) # reads) db =
     (let r = \<lparr> ar_id = i, ar_actorId = actor, ar_targetUserId = target, ar_occurredAt = now,
                ar_correlationId = correlation \<rparr>
      in bindE (constraints (admin_read_checks db r)) (\<lambda>_.
           insertAdminReads now reads (db\<lparr> admin_reads := admin_reads db @ [r] \<rparr>)))"

definition countReads :: "time \<Rightarrow> user_db \<Rightarrow> ident \<Rightarrow> int \<Rightarrow> nat" where
  "countReads now db actorId secs =
     length (filter (\<lambda>r. ar_actorId r = actorId \<and> now - seconds_span secs < ar_occurredAt r) (admin_reads db))"

definition insertAlert ::
  "time \<Rightarrow> ident \<Rightarrow> admin_alert_kind \<Rightarrow> ident \<Rightarrow> admin_alert_details \<Rightarrow> user_db \<Rightarrow> service_error + user_db" where
  "insertAlert now i kind actorId details db =
     (let a = \<lparr> aa_id = i, aa_kind = kind, aa_actorId = actorId, aa_details = details, aa_occurredAt = now \<rparr>
      in bindE (constraints (admin_alert_checks db a)) (\<lambda>_.
           Inr (db\<lparr> admin_alerts := admin_alerts db @ [a] \<rparr>)))"

definition hasRecentAlert :: "time \<Rightarrow> user_db \<Rightarrow> admin_alert_kind \<Rightarrow> ident \<Rightarrow> int \<Rightarrow> bool" where
  "hasRecentAlert now db kind actorId secs \<longleftrightarrow>
     (\<exists>a \<in> set (admin_alerts db). aa_kind a = kind \<and> aa_actorId a = actorId \<and>
        now - seconds_span secs < aa_occurredAt a)"

section \<open>Lists, a page at a time\<close>

text \<open>
  \<open>SELECT ... WHERE p ORDER BY key LIMIT pageSize OFFSET (page - 1) * pageSize\<close>, with the count of all
  rows that satisfy \<open>p\<close>.
\<close>

definition paged :: "('r \<Rightarrow> bool) \<Rightarrow> ('r \<Rightarrow> 'k::linorder) \<Rightarrow> nat \<Rightarrow> nat \<Rightarrow> 'r list \<Rightarrow> 'r list \<times> nat" where
  "paged p key page pageSize rows =
     (let found = sort_key key (filter p rows)
      in (take pageSize (drop ((page - 1) * pageSize) found), length found))"

record user_filters =
  uf_status :: "account_status option"
  uf_role :: "user_role option"
  uf_q :: "string option"

text \<open>A search text matches a prefix of the address or of the display name, in any case.\<close>

definition likePrefix :: "string \<Rightarrow> string \<Rightarrow> bool" where
  "likePrefix q s \<longleftrightarrow> take (length q) (toLowerCase s) = toLowerCase q"

definition userFilters :: "user_db \<Rightarrow> user_filters \<Rightarrow> user_row \<Rightarrow> bool" where
  "userFilters db f x \<longleftrightarrow>
     opt_all (\<lambda>s. us_status x = s) (uf_status f) \<and>
     opt_all (\<lambda>r. r \<in> set (rolesOf db (us_id x))) (uf_role f) \<and>
     opt_all (\<lambda>q. q = [] \<or> likePrefix q (us_email x) \<or>
                (case profile_of db (us_id x) of None \<Rightarrow> False | Some p \<Rightarrow> likePrefix q (pf_displayName p))) (uf_q f)"

record directory_row =
  dr_id :: ident
  dr_email :: string
  dr_status :: account_status
  dr_isSeededAdmin :: bool
  dr_createdAt :: time
  dr_displayName :: string
  dr_roles :: "user_role list"

record admin_user_row = directory_row +
  dr_activatedAt :: "time option"
  dr_faculty :: "string option"
  dr_avatarRef :: "string option"
  dr_contactPreference :: contact_preference
  dr_preferredMode :: preferred_mode

definition directoryColumns :: "user_db \<Rightarrow> user_row \<Rightarrow> directory_row" where
  "directoryColumns db x =
     \<lparr> dr_id = us_id x, dr_email = us_email x, dr_status = us_status x,
       dr_isSeededAdmin = us_isSeededAdmin x, dr_createdAt = us_createdAt x,
       dr_displayName = display_name db (us_id x), dr_roles = rolesOf db (us_id x) \<rparr>"

definition adminUserColumns :: "user_db \<Rightarrow> user_row \<Rightarrow> admin_user_row" where
  "adminUserColumns db x = directory_row.extend (directoryColumns db x)
     (case profile_of db (us_id x) of
        None \<Rightarrow> admin_user_row.fields (us_activatedAt x) None None IN_APP Mode_REQUESTER
      | Some p \<Rightarrow> admin_user_row.fields (us_activatedAt x) (pf_faculty p) (pf_avatarRef p)
                    (pf_contactPreference p) (pf_preferredMode p))"

definition findAdminUser :: "user_db \<Rightarrow> ident \<Rightarrow> admin_user_row option" where
  "findAdminUser db i = map_option (adminUserColumns db) (user_of db (toLowerCase i))"

definition listUsers_rows :: "nat \<Rightarrow> nat \<Rightarrow> user_filters \<Rightarrow> user_db \<Rightarrow> admin_user_row list \<times> nat" where
  "listUsers_rows page pageSize f db =
     (let (rows, total) = paged (userFilters db f) (\<lambda>x. (us_createdAt x, us_id x)) page pageSize (users db)
      in (map (adminUserColumns db) rows, total))"

definition listDirectory_rows :: "nat \<Rightarrow> nat \<Rightarrow> user_filters \<Rightarrow> user_db \<Rightarrow> directory_row list \<times> nat" where
  "listDirectory_rows page pageSize f db =
     (let (rows, total) = paged (userFilters db f) (\<lambda>x. (us_createdAt x, us_id x)) page pageSize (users db)
      in (map (directoryColumns db) rows, total))"

record audit_query =
  qa_targetUserId :: "ident option"
  qa_actorId :: "ident option"
  qa_action :: "audit_action option"
  qa_from :: "time option"
  qa_to :: "time option"

definition audit_matches :: "audit_query \<Rightarrow> audit_record \<Rightarrow> bool" where
  "audit_matches f a \<longleftrightarrow>
     opt_all (\<lambda>t. au_targetUserId a = toLowerCase t) (qa_targetUserId f) \<and>
     opt_all (\<lambda>i. au_actorId a = Some (toLowerCase i)) (qa_actorId f) \<and>
     opt_all (\<lambda>k. au_action a = k) (qa_action f) \<and>
     opt_all (\<lambda>t. t \<le> au_occurredAt a) (qa_from f) \<and>
     opt_all (\<lambda>t. au_occurredAt a < t) (qa_to f)"

definition listAudit_rows :: "nat \<Rightarrow> nat \<Rightarrow> audit_query \<Rightarrow> user_db \<Rightarrow> audit_record list \<times> nat" where
  "listAudit_rows page pageSize f db =
     paged (audit_matches f) (\<lambda>a. (- au_occurredAt a, au_id a)) page pageSize (audit_records db)"

definition listReads_rows ::
  "nat \<Rightarrow> nat \<Rightarrow> ident option \<Rightarrow> ident option \<Rightarrow> user_db \<Rightarrow> admin_read list \<times> nat" where
  "listReads_rows page pageSize actor target db =
     paged (\<lambda>r. opt_all (\<lambda>i. ar_actorId r = toLowerCase i) actor \<and>
                opt_all (\<lambda>i. ar_targetUserId r = toLowerCase i) target)
       (\<lambda>r. (- ar_occurredAt r, ar_id r)) page pageSize (admin_reads db)"

definition listAlerts_rows :: "nat \<Rightarrow> nat \<Rightarrow> admin_alert_kind option \<Rightarrow> user_db \<Rightarrow> admin_alert list \<times> nat" where
  "listAlerts_rows page pageSize kind db =
     paged (\<lambda>a. opt_all (\<lambda>k. aa_kind a = k) kind) (\<lambda>a. (- aa_occurredAt a, aa_id a)) page pageSize (admin_alerts db)"

definition listRoleRequests_rows ::
  "time \<Rightarrow> nat \<Rightarrow> nat \<Rightarrow> role_request_status option \<Rightarrow> user_db \<Rightarrow> role_change_request list \<times> nat" where
  "listRoleRequests_rows now page pageSize status db =
     (let (rows, total) = paged (\<lambda>q. opt_all (\<lambda>s. effectiveStatus now q = s) status)
            (\<lambda>q. (- rq_createdAt q, rq_id q)) page pageSize (role_change_requests db)
      in (map (as_read now) rows, total))"

end
