(* ===== verification/User_Accounts.thy ===== *)
theory User_Accounts
  imports User_Admin_Repository
begin

text \<open>
  Registration, activation and the lookups of other services (user-service/src/users/users.service.ts),
  with what an emailed link does once it has proven the inbox (auth/emailed-link.ts).

  A method that reads before its transaction takes the database it read (\<open>seen\<close>) apart from the one
  its transaction finds: other requests may have run in between. Mail is part of a method's result:
  it is handed to the mailer after the commit, and a failure to send it changes nothing.
\<close>

section \<open>Settings and library code\<close>

text \<open>
  \<open>argon2_hash\<close> takes the salt it draws, \<open>argon2_verify\<close> is \<open>None\<close> when the library throws; both
  are the \<open>@node-rs/argon2\<close> package. \<open>sha256Hex\<close> (auth/tokens.ts) is Node's digest, \<open>nfkc\<close> Unicode's
  composition. The rest is configuration.
\<close>

record user_env =
  sha256Hex :: "string \<Rightarrow> string"
  argon2_hash :: "string \<Rightarrow> string \<Rightarrow> string"
  argon2_verify :: "string \<Rightarrow> string \<Rightarrow> bool option"
  nfkc :: "string \<Rightarrow> string"
  allowedEmailDomains :: "string list"
  activationTokenTtlMinutes :: int
  passwordResetTokenTtlMinutes :: int
  bootstrapPassword :: "string option"
  roleRequestTtlHours :: int
  stepUpWindowSeconds :: int
  suspensionsAlertPerHour :: int
  suspensionsLimitPerHour :: int
  readsAlertPerHour :: int

definition hashPassword :: "user_env \<Rightarrow> string \<Rightarrow> string \<Rightarrow> string" where
  "hashPassword e salt password = argon2_hash e salt password"

definition verifyPassword :: "user_env \<Rightarrow> string \<Rightarrow> string \<Rightarrow> bool" where
  "verifyPassword e encoded password = (argon2_verify e encoded password = Some True)"

datatype mail =
    Activation_mail (m_to: string) (m_userId: ident) (m_token: string)
  | Reset_mail (m_to: string) (m_userId: ident) (m_token: string)

definition validationFailed :: "(string \<times> string) list \<Rightarrow> service_error" where
  "validationFailed details = ApiException 422 ''VALIDATION_FAILED'' (Field_details details)"

definition api_error :: "nat \<Rightarrow> string \<Rightarrow> service_error" where
  "api_error status code = ApiException status code No_details"

text \<open>An event of the user service, in the caller's transaction.\<close>

definition user_event :: "time \<Rightarrow> ident \<Rightarrow> event_type \<Rightarrow> ident \<Rightarrow> payload \<Rightarrow> ident \<Rightarrow> user_db \<Rightarrow> service_error + user_db" where
  "user_event now i ty aggregate p correlation db =
     bindE (insertOutboxEvent i now
       \<lparr> ne_id = Some i, ne_eventType = ty, ne_aggregateId = aggregate, ne_payload = p,
         ne_correlationId = correlation, ne_causationId = None, ne_schemaVersion = None \<rparr> db)
       (\<lambda>(_, db'). Inr db')"

section \<open>What an emailed link does\<close>

text \<open>
  The password the inbox's owner chose becomes the account's, a pending account is activated with
  its one event, and nothing set up before survives: unused links go, every session is revoked.
  \<open>clock\<close> is the process's time, which the event carries.
\<close>

definition setPasswordFromEmailedLink ::
  "time \<Rightarrow> time \<Rightarrow> ident \<Rightarrow> ident \<Rightarrow> account_status \<Rightarrow> string \<Rightarrow> ident \<Rightarrow> user_db \<Rightarrow> service_error + user_db" where
  "setPasswordFromEmailedLink now clock evt userId status passwordHash correlation db =
     (let db1 = setPassword now userId passwordHash db;
          (activated, db2) = (if status = PENDING_ACTIVATION then markActivated now userId db1 else (False, db1))
      in bindE (if activated
                then user_event now evt USER_ACTIVATED userId (UserActivatedPayload userId (iso clock)) correlation db2
                else Inr db2) (\<lambda>db3.
           Inr (revokeAllForUser now userId
             (deleteUnconsumedPasswordResetTokens userId (deleteUnconsumedActivationTokens userId db3)))))"

section \<open>Registration\<close>

definition issueActivationToken :: "user_env \<Rightarrow> time \<Rightarrow> ident \<Rightarrow> ident \<Rightarrow> string \<Rightarrow> user_db \<Rightarrow> service_error + user_db" where
  "issueActivationToken e now i userId token db =
     insertActivationToken now i userId (sha256Hex e token) (activationTokenTtlMinutes e)
       (deleteUnconsumedActivationTokens userId db)"

definition registerUsing ::
  "user_env \<Rightarrow> uuids \<Rightarrow> time \<Rightarrow> string \<Rightarrow> string \<Rightarrow> string \<Rightarrow> user_db \<Rightarrow> service_error + (ident option \<times> user_db)" where
  "registerUsing e u now token email displayName db =
     (let i = randomUUID u 0
      in bindE (insertUser now i email displayName db) (\<lambda>(inserted, db1).
           if inserted
           then bindE (issueActivationToken e now (randomUUID u 1) i token db1) (\<lambda>db2. Inr (Some i, db2))
           else bindE (reviveExpiredRegistration now email displayName db1) (\<lambda>(revived, db2).
             case revived of
               None \<Rightarrow> Inr (None, db2)
             | Some r \<Rightarrow> bindE (issueActivationToken e now (randomUUID u 1) r token db2) (\<lambda>db3. Inr (Some r, db3)))))"

definition register ::
  "user_env \<Rightarrow> uuids \<Rightarrow> time \<Rightarrow> string \<Rightarrow> string \<Rightarrow> string \<Rightarrow> user_db \<Rightarrow> (service_error + ident) \<times> user_db \<times> mail list" where
  "register e u now token rawEmail displayName db =
     (let email = normalizeEmail (nfkc e) rawEmail
      in if \<not> isAllowedDomain email (allowedEmailDomains e)
         then (Inl (validationFailed [(''email'', ''EMAIL_DOMAIN_NOT_ALLOWED'')]), db, [])
         else case transaction (registerUsing e u now token email displayName) db of
                (Inl err, db') \<Rightarrow> (Inl err, db', [])
              | (Inr None, db') \<Rightarrow> (Inl (api_error 409 ''EMAIL_ALREADY_REGISTERED''), db', [])
              | (Inr (Some i), db') \<Rightarrow> (Inr i, db', [Activation_mail email i token]))"

text \<open>
  The two requests that answer the same for every address. An error of the transaction is logged
  and swallowed; only the mail tells what happened.
\<close>

definition resendUsing ::
  "user_env \<Rightarrow> uuids \<Rightarrow> time \<Rightarrow> string \<Rightarrow> string \<Rightarrow> user_db \<Rightarrow> service_error + (ident option \<times> user_db)" where
  "resendUsing e u now token email db =
     (case lockPendingUser db email of
        None \<Rightarrow> Inr (None, db)
      | Some i \<Rightarrow> bindE (issueActivationToken e now (randomUUID u 0) i token db) (\<lambda>db'. Inr (Some i, db')))"

definition mailed :: "(string \<Rightarrow> ident \<Rightarrow> string \<Rightarrow> mail) \<Rightarrow> string \<Rightarrow> string \<Rightarrow> (service_error + ident option) \<times> user_db \<Rightarrow> user_db \<times> mail list" where
  "mailed kind email token outcome =
     (case outcome of (Inr (Some i), db') \<Rightarrow> (db', [kind email i token]) | (_, db') \<Rightarrow> (db', []))"

definition resendActivation ::
  "user_env \<Rightarrow> uuids \<Rightarrow> time \<Rightarrow> string \<Rightarrow> string \<Rightarrow> user_db \<Rightarrow> user_db \<times> mail list" where
  "resendActivation e u now token rawEmail db =
     (let email = normalizeEmail (nfkc e) rawEmail
      in if \<not> isAllowedDomain email (allowedEmailDomains e) then (db, [])
         else mailed Activation_mail email token (transaction (resendUsing e u now token email) db))"

definition resetRequestUsing ::
  "user_env \<Rightarrow> uuids \<Rightarrow> time \<Rightarrow> string \<Rightarrow> string \<Rightarrow> user_db \<Rightarrow> service_error + (ident option \<times> user_db)" where
  "resetRequestUsing e u now token email db =
     (case lockResettableUser db email of
        None \<Rightarrow> Inr (None, db)
      | Some i \<Rightarrow> bindE (insertPasswordResetToken now (randomUUID u 0) i (sha256Hex e token)
                     (passwordResetTokenTtlMinutes e) (deleteUnconsumedPasswordResetTokens i db))
                   (\<lambda>db'. Inr (Some i, db')))"

definition requestPasswordReset ::
  "user_env \<Rightarrow> uuids \<Rightarrow> time \<Rightarrow> string \<Rightarrow> string \<Rightarrow> user_db \<Rightarrow> user_db \<times> mail list" where
  "requestPasswordReset e u now token rawEmail db =
     (let email = normalizeEmail (nfkc e) rawEmail
      in mailed Reset_mail email token (transaction (resetRequestUsing e u now token email) db))"

section \<open>Activation\<close>

record activation_result =
  act_userId :: ident
  act_alreadyActivated :: bool

definition invalidToken :: service_error where
  "invalidToken = api_error 404 ''ACTIVATION_TOKEN_INVALID''"

text \<open>A link that cannot activate: a replay on an active account succeeds, the rest are refused.\<close>

definition unusableToken :: "user_db \<Rightarrow> found_token option \<Rightarrow> service_error + activation_result" where
  "unusableToken db found =
     (case found of
        None \<Rightarrow> Inl invalidToken
      | Some f \<Rightarrow>
          if ft_consumed f
          then if isActivated db (ft_userId f)
               then Inr \<lparr> act_userId = ft_userId f, act_alreadyActivated = True \<rparr>
               else Inl invalidToken
          else Inl (api_error 410 ''ACTIVATION_TOKEN_EXPIRED''))"

definition usable :: "found_token option \<Rightarrow> bool" where
  "usable found = (case found of None \<Rightarrow> False | Some f \<Rightarrow> \<not> ft_consumed f \<and> \<not> ft_expired f)"

definition activateUsing ::
  "uuids \<Rightarrow> time \<Rightarrow> time \<Rightarrow> string \<Rightarrow> string \<Rightarrow> ident \<Rightarrow> user_db \<Rightarrow> service_error + (activation_result \<times> user_db)" where
  "activateUsing u now clock tokenHash passwordHash correlation tx =
     (case (consumeActivationToken now tokenHash tx, lockUserOfToken tx tokenHash) of
        ((Some i, tx1), Some status) \<Rightarrow>
          if status \<noteq> PENDING_ACTIVATION then Inl invalidToken
          else bindE (setPasswordFromEmailedLink now clock (randomUUID u 0) i status passwordHash correlation tx1)
                 (\<lambda>tx2. Inr (\<lparr> act_userId = i, act_alreadyActivated = False \<rparr>, tx2))
      | ((_, tx1), _) \<Rightarrow>
          bindE (unusableToken tx1 (findActivationToken now tx1 tokenHash)) (\<lambda>r. Inr (r, tx1)))"

definition activate ::
  "user_env \<Rightarrow> uuids \<Rightarrow> time \<Rightarrow> user_db \<Rightarrow> time \<Rightarrow> time \<Rightarrow> string \<Rightarrow> string \<Rightarrow> string \<Rightarrow> ident \<Rightarrow> user_db
     \<Rightarrow> (service_error + activation_result) \<times> user_db" where
  "activate e u before seen now clock salt token password correlation db =
     (let tokenHash = sha256Hex e token;
          found = findActivationToken before seen tokenHash
      in if \<not> usable found then (unusableToken seen found, db)
         else transaction (activateUsing u now clock tokenHash (hashPassword e salt password) correlation) db)"

section \<open>What other services ask\<close>

record identity_lookup =
  il_userId :: ident
  il_identity :: "identity_row option"

definition lookup :: "user_db \<Rightarrow> ident \<Rightarrow> identity_lookup" where
  "lookup db i = \<lparr> il_userId = i, il_identity = findIdentity db (toLowerCase i) \<rparr>"

text \<open>
  The session and the identity are two reads, outside any transaction: \<open>db'\<close> is the database as the
  second finds it.
\<close>

definition introspect :: "time \<Rightarrow> user_db \<Rightarrow> user_db \<Rightarrow> ident \<Rightarrow> ident \<Rightarrow> identity_row option" where
  "introspect now db db' sessionId userId =
     (case liveness now db (toLowerCase sessionId) (toLowerCase userId) of
        None \<Rightarrow> None
      | Some (live, _) \<Rightarrow> if live then findIdentity db' (toLowerCase userId) else None)"

definition listActiveAdmins :: "user_db \<Rightarrow> ident list" where
  "listActiveAdmins db = listActiveAdminIds db"

record permissions_lookup =
  pl_userId :: ident
  pl_status :: account_status
  pl_isAdmin :: bool
  pl_canPlaceOrders :: bool
  pl_canAcceptOrders :: bool

definition permissions :: "user_db \<Rightarrow> ident \<Rightarrow> service_error + permissions_lookup" where
  "permissions db i =
     (case findIdentity db (toLowerCase i) of
        None \<Rightarrow> Inl (api_error 404 ''NOT_FOUND'')
      | Some row \<Rightarrow>
          (let active = id_status row = ACTIVE
           in Inr \<lparr> pl_userId = i, pl_status = id_status row,
                    pl_isAdmin = (active \<and> ADMIN \<in> set (id_roles row)),
                    pl_canPlaceOrders = active, pl_canAcceptOrders = active \<rparr>))"

text \<open>The caller's own account and the one change a student makes to it (users/me.controller.ts).\<close>

definition me :: "user_db \<Rightarrow> ident \<Rightarrow> service_error + me_row" where
  "me db i = (case findMe db i of None \<Rightarrow> Inl (api_error 401 ''UNAUTHENTICATED'') | Some u \<Rightarrow> Inr u)"

definition updateMe :: "profile_changes \<Rightarrow> ident \<Rightarrow> user_db \<Rightarrow> (service_error + me_row) \<times> user_db" where
  "updateMe changes i db =
     (case updateProfile i changes db of
        Inl err \<Rightarrow> (Inl err, db)
      | Inr db' \<Rightarrow> (me db' i, db'))"

end
