(* ===== verification/User_Sessions.thy ===== *)
theory User_Sessions
  imports User_Accounts
begin

text \<open>
  Signing in and out (user-service/src/auth/sessions.service.ts): login, rotation of refresh
  tokens with reuse detection, password change and reset, password re-entry, and the guards that
  admit a request (access-token.guard.ts, admin.guard.ts, cookies.ts).
\<close>

section \<open>Errors\<close>

definition REFRESH_TTL_DAYS :: int where "REFRESH_TTL_DAYS = 7"

definition codeForStatus :: "account_status \<Rightarrow> service_error" where
  "codeForStatus status =
     (if status = SUSPENDED then api_error 403 ''ACCOUNT_SUSPENDED''
      else api_error 403 ''ACCOUNT_NOT_ACTIVATED'')"

definition invalidCredentials :: service_error where
  "invalidCredentials = api_error 401 ''INVALID_CREDENTIALS''"

definition passwordChangeRequired :: service_error where
  "passwordChangeRequired = api_error 403 ''PASSWORD_CHANGE_REQUIRED''"

definition passwordUnchanged :: "string \<Rightarrow> service_error" where
  "passwordUnchanged field = validationFailed [(field, ''PASSWORD_UNCHANGED'')]"

definition resetTokenRefusal :: "found_token option \<Rightarrow> service_error" where
  "resetTokenRefusal found =
     (case found of
        None \<Rightarrow> api_error 404 ''PASSWORD_RESET_TOKEN_INVALID''
      | Some f \<Rightarrow> if ft_consumed f then api_error 404 ''PASSWORD_RESET_TOKEN_INVALID''
                  else api_error 410 ''PASSWORD_RESET_TOKEN_EXPIRED'')"

definition invalid_refresh :: service_error where
  "invalid_refresh = api_error 401 ''REFRESH_TOKEN_INVALID''"

section \<open>Credentials\<close>

text \<open>
  The check login and password change share; \<open>dummyHash\<close> is hashed once per process and never
  proves anything, so that an unknown address costs the same work.
\<close>

record verified =
  vr_user :: credentials
  vr_passwordHash :: string

definition verifyCredentials ::
  "user_env \<Rightarrow> string \<Rightarrow> user_db \<Rightarrow> string \<Rightarrow> string \<Rightarrow> service_error + verified" where
  "verifyCredentials e dummyHash db rawEmail password =
     (let user = findCredentials db (normalizeEmail (nfkc e) rawEmail);
          hash = Option.bind user cr_passwordHash;
          valid = verifyPassword e (case hash of Some h \<Rightarrow> h | None \<Rightarrow> dummyHash) password
      in case (user, hash) of
           (Some x, Some h) \<Rightarrow>
             if \<not> valid then Inl invalidCredentials
             else if cr_status x \<noteq> ACTIVE then Inl (codeForStatus (cr_status x))
             else Inr \<lparr> vr_user = x, vr_passwordHash = h \<rparr>
         | _ \<Rightarrow> Inl invalidCredentials)"

section \<open>Login\<close>

text \<open>The access token is signed over \<open>sub\<close> and \<open>sid\<close> (auth/jwt.service.ts, the \<open>jose\<close> package).\<close>

record issued_session =
  is_sub :: ident
  is_sid :: ident
  is_refreshToken :: string
  is_displayName :: string
  is_roles :: "user_role list"
  is_status :: account_status

definition login ::
  "user_env \<Rightarrow> uuids \<Rightarrow> string \<Rightarrow> user_db \<Rightarrow> time \<Rightarrow> string \<Rightarrow> string \<Rightarrow> string \<Rightarrow> user_db
     \<Rightarrow> (service_error + issued_session) \<times> user_db" where
  "login e u dummyHash seen now token rawEmail password db =
     (case verifyCredentials e dummyHash seen rawEmail password of
        Inl err \<Rightarrow> (Inl err, db)
      | Inr v \<Rightarrow>
          let x = vr_user v in
          if cr_mustChangePassword x then (Inl passwordChangeRequired, db)
          else case transaction (insertIfLoginable now (randomUUID u 0) (randomUUID u 1) (cr_id x)
                       (sha256Hex e token) REFRESH_TTL_DAYS (vr_passwordHash v)) db of
                 (Inl err, db') \<Rightarrow> (Inl err, db')
               | (Inr started, db') \<Rightarrow>
                   if \<not> started then (Inl invalidCredentials, db')
                   else (Inr \<lparr> is_sub = cr_id x, is_sid = randomUUID u 0, is_refreshToken = token,
                           is_displayName = cr_displayName x, is_roles = cr_roles x,
                           is_status = cr_status x \<rparr>, db'))"

section \<open>Refresh\<close>

text \<open>
  Outcomes are returned from the transaction, not thrown: a throw would roll back the revocation
  that reuse detection exists to make.
\<close>

datatype refresh_outcome =
    Ref_invalid | Ref_reused | Ref_inactive account_status | Ref_passwordChangeRequired | Ref_ok ident

definition refreshUsing ::
  "user_env \<Rightarrow> time \<Rightarrow> ident \<Rightarrow> string \<Rightarrow> string \<Rightarrow> user_db \<Rightarrow> service_error + (refresh_outcome \<times> user_db)" where
  "refreshUsing e now nextId nextToken h tx =
     (case lockByHash now tx h of
        None \<Rightarrow> Inr (Ref_invalid, tx)
      | Some row \<Rightarrow>
          if ls_rotated row then Inr (Ref_reused, revokeFamily now (ls_familyId row) tx)
          else if ls_revoked row \<or> ls_expired row then Inr (Ref_invalid, tx)
          else if ls_userStatus row \<noteq> ACTIVE
          then Inr (Ref_inactive (ls_userStatus row), revokeFamily now (ls_familyId row) tx)
          else if ls_mustChangePassword row
          then Inr (Ref_passwordChangeRequired, revokeFamily now (ls_familyId row) tx)
          else bindE (rotate_session now nextId (sha256Hex e nextToken) (ls_id row) (markRotated now (ls_id row) tx))
                 (\<lambda>tx'. Inr (Ref_ok (ls_userId row), tx')))"

definition refresh ::
  "user_env \<Rightarrow> uuids \<Rightarrow> time \<Rightarrow> string \<Rightarrow> string option \<Rightarrow> user_db \<Rightarrow> (service_error + issued_session) \<times> user_db" where
  "refresh e u now nextToken presented db =
     (case presented of
        None \<Rightarrow> (Inl invalid_refresh, db)
      | Some token \<Rightarrow> if token = [] then (Inl invalid_refresh, db) else
          (case transaction (refreshUsing e now (randomUUID u 0) nextToken (sha256Hex e token)) db of
             (Inl err, db') \<Rightarrow> (Inl err, db')
           | (Inr outcome, db') \<Rightarrow>
               ((case outcome of
                   Ref_invalid \<Rightarrow> Inl invalid_refresh
                 | Ref_reused \<Rightarrow> Inl (api_error 401 ''REFRESH_TOKEN_REUSED'')
                 | Ref_inactive status \<Rightarrow> Inl (codeForStatus status)
                 | Ref_passwordChangeRequired \<Rightarrow> Inl passwordChangeRequired
                 | Ref_ok userId \<Rightarrow>
                     (case findIdentity db' userId of
                        None \<Rightarrow> Inl invalid_refresh
                      | Some x \<Rightarrow> Inr \<lparr> is_sub = userId, is_sid = randomUUID u 0, is_refreshToken = nextToken,
                          is_displayName = id_displayName x, is_roles = id_roles x, is_status = id_status x \<rparr>)),
                db')))"

section \<open>Passwords\<close>

definition changePasswordUsing ::
  "time \<Rightarrow> ident \<Rightarrow> string \<Rightarrow> string \<Rightarrow> user_db \<Rightarrow> service_error + (bool \<times> user_db)" where
  "changePasswordUsing now i expectedHash newHash tx =
     (let (replaced, tx1) = replacePassword now i expectedHash newHash tx
      in if \<not> replaced then Inr (False, tx1)
         else Inr (True, deleteUnconsumedPasswordResetTokens i (revokeAllForUser now i tx1)))"

definition changePassword ::
  "user_env \<Rightarrow> string \<Rightarrow> user_db \<Rightarrow> time \<Rightarrow> string \<Rightarrow> string \<Rightarrow> string \<Rightarrow> string \<Rightarrow> user_db
     \<Rightarrow> (service_error + unit) \<times> user_db" where
  "changePassword e dummyHash seen now salt rawEmail currentPassword newPassword db =
     (case verifyCredentials e dummyHash seen rawEmail currentPassword of
        Inl err \<Rightarrow> (Inl err, db)
      | Inr v \<Rightarrow>
          if newPassword = currentPassword then (Inl (passwordUnchanged ''newPassword''), db)
          else if cr_isSeededAdmin (vr_user v) \<and> Some newPassword = bootstrapPassword e
          then (Inl (passwordUnchanged ''newPassword''), db)
          else case transaction (changePasswordUsing now (cr_id (vr_user v)) (vr_passwordHash v)
                       (hashPassword e salt newPassword)) db of
                 (Inl err, db') \<Rightarrow> (Inl err, db')
               | (Inr replaced, db') \<Rightarrow> (if replaced then Inr () else Inl invalidCredentials, db'))"

definition confirmResetUsing ::
  "uuids \<Rightarrow> time \<Rightarrow> time \<Rightarrow> string \<Rightarrow> string \<Rightarrow> ident \<Rightarrow> user_db \<Rightarrow> service_error + (unit \<times> user_db)" where
  "confirmResetUsing u now clock tokenHash passwordHash correlation tx =
     (case (consumePasswordResetToken now tokenHash tx, lockUserOfPasswordResetToken tx tokenHash) of
        ((Some i, tx1), Some status) \<Rightarrow>
          if status = SUSPENDED then Inl (resetTokenRefusal None)
          else bindE (setPasswordFromEmailedLink now clock (randomUUID u 0) i status passwordHash correlation tx1)
                 (\<lambda>tx2. Inr ((), tx2))
      | ((_, tx1), _) \<Rightarrow> Inl (resetTokenRefusal (findPasswordResetToken now tx1 tokenHash)))"

definition confirmPasswordReset ::
  "user_env \<Rightarrow> uuids \<Rightarrow> time \<Rightarrow> user_db \<Rightarrow> time \<Rightarrow> time \<Rightarrow> string \<Rightarrow> string \<Rightarrow> string \<Rightarrow> ident \<Rightarrow> user_db
     \<Rightarrow> (service_error + unit) \<times> user_db" where
  "confirmPasswordReset e u before seen now clock salt token password correlation db =
     (let tokenHash = sha256Hex e token;
          found = findPasswordResetToken before seen tokenHash
      in if \<not> usable found then (Inl (resetTokenRefusal found), db)
         else if ft_isSeededAdmin (the found) \<and> Some password = bootstrapPassword e
         then (Inl (passwordUnchanged ''password''), db)
         else transaction (confirmResetUsing u now clock tokenHash (hashPassword e salt password) correlation) db)"

text \<open>Password re-entry, recorded on the caller's own session.\<close>

definition stepUp ::
  "user_env \<Rightarrow> string \<Rightarrow> user_db \<Rightarrow> time \<Rightarrow> ident \<Rightarrow> ident \<Rightarrow> string \<Rightarrow> user_db \<Rightarrow> (service_error + unit) \<times> user_db" where
  "stepUp e dummyHash seen now userId sessionId password db =
     (let hash = findPasswordHash seen userId;
          valid = verifyPassword e (case hash of Some h \<Rightarrow> h | None \<Rightarrow> dummyHash) password
      in if hash = None \<or> \<not> valid then (Inl invalidCredentials, db)
         else let (marked, db') = markSteppedUp now sessionId userId db
              in (if marked then Inr () else Inl (api_error 401 ''UNAUTHENTICATED''), db'))"

definition logout :: "user_env \<Rightarrow> time \<Rightarrow> string option \<Rightarrow> user_db \<Rightarrow> user_db" where
  "logout e now presented db =
     (case presented of
        None \<Rightarrow> db
      | Some token \<Rightarrow> if token = [] then db else revokeFamilyByTokenHash now (sha256Hex e token) db)"

section \<open>Guards\<close>

record auth_context =
  ax_userId :: ident
  ax_sessionId :: ident

text \<open>The credential of an \<open>Authorization: Bearer\<close> header.\<close>

definition bearer_token :: "string option \<Rightarrow> string option" where
  "bearer_token header =
     (case header of
        None \<Rightarrow> None
      | Some h \<Rightarrow> if take 7 h = ''Bearer '' \<and> 7 < length h \<and>
                    (\<forall>c \<in> set h. c \<noteq> CHR 0x0A \<and> c \<noteq> CHR 0x0D) then Some (drop 7 h) else None)"

text \<open>
  \<open>jwt\<close> gives the claims of a token it accepts: its signature, issuer, algorithm and expiry
  hold. Standing is read from the database on every request, never from the token.
\<close>

definition accessTokenGuard ::
  "(string \<Rightarrow> (ident \<times> ident) option) \<Rightarrow> time \<Rightarrow> user_db \<Rightarrow> string option \<Rightarrow> service_error + auth_context" where
  "accessTokenGuard jwt now db header =
     (let unauthenticated = Inl (api_error 401 ''UNAUTHENTICATED'')
      in case Option.bind (bearer_token header) jwt of
           None \<Rightarrow> unauthenticated
         | Some (sub, sid) \<Rightarrow>
             (case liveness now db sid sub of
                None \<Rightarrow> unauthenticated
              | Some (live, status) \<Rightarrow>
                  if \<not> live then unauthenticated
                  else if status \<noteq> ACTIVE then Inl (codeForStatus status)
                  else Inr \<lparr> ax_userId = sub, ax_sessionId = sid \<rparr>))"

definition adminGuard :: "user_db \<Rightarrow> auth_context option \<Rightarrow> service_error + unit" where
  "adminGuard db auth =
     (case auth of
        None \<Rightarrow> Inl (api_error 401 ''UNAUTHENTICATED'')
      | Some a \<Rightarrow>
          (case findIdentity db (ax_userId a) of
             None \<Rightarrow> Inl (api_error 403 ''FORBIDDEN'')
           | Some x \<Rightarrow> requireE (id_status x = ACTIVE \<and> ADMIN \<in> set (id_roles x)) (api_error 403 ''FORBIDDEN'')))"

definition assertCsrfSafe :: "string list \<Rightarrow> string option \<Rightarrow> string option \<Rightarrow> service_error + unit" where
  "assertCsrfSafe allowedOrigins origin contentType =
     (if (case origin of None \<Rightarrow> False | Some h \<Rightarrow> h \<noteq> [] \<and> h \<notin> set allowedOrigins)
      then Inl (api_error 403 ''CSRF_REJECTED'')
      else requireE (take 16 (toLowerCase (case contentType of Some t \<Rightarrow> t | None \<Rightarrow> [])) = ''application/json'')
             (api_error 403 ''CSRF_REJECTED''))"

end
