(* ===== verification/User_Admin.thy ===== *)
theory User_Admin
  imports User_Sessions
begin

text \<open>
  Administration (user-service/src/admin/admin.service.ts): suspending and reactivating accounts,
  role changes under the two-person rule, password re-entry for the riskiest actions, the bound on
  suspensions, alerts and recorded reads; and the bootstrap administrators (admin/seed.ts).

  An action is one transaction with its audit row and its event. What an action does after the
  commit (a bulk alert, reading the account back) is a transaction of its own; \<open>u\<close> gives the
  UUIDs of the action in order, \<open>u'\<close> those of what follows it.
\<close>

section \<open>Shared steps\<close>

definition HOUR_SECONDS :: int where "HOUR_SECONDS = 3600"

definition notFound :: service_error where "notFound = api_error 404 ''NOT_FOUND''"
definition forbidden :: service_error where "forbidden = api_error 403 ''FORBIDDEN''"
definition conflictOfInterest :: service_error where
  "conflictOfInterest = api_error 403 ''CONFLICT_OF_INTEREST''"
definition accountNotActive :: service_error where
  "accountNotActive = api_error 409 ''ACCOUNT_NOT_ACTIVE''"

definition canonicalId :: "locked_user \<Rightarrow> ident" where
  "canonicalId target = toLowerCase (lu_id target)"

definition is_admin :: "locked_user \<Rightarrow> bool" where
  "is_admin x \<longleftrightarrow> ADMIN \<in> set (lu_roles x)"

definition activeAdmin :: "locked_user option \<Rightarrow> service_error + locked_user" where
  "activeAdmin actor =
     (case actor of
        None \<Rightarrow> Inl forbidden
      | Some x \<Rightarrow> if lu_status x = ACTIVE \<and> is_admin x then Inr x else Inl forbidden)"

definition lockActorAndTarget :: "user_db \<Rightarrow> ident \<Rightarrow> ident \<Rightarrow> service_error + (locked_user \<times> locked_user)" where
  "lockActorAndTarget tx actorId targetId =
     (let locked = lockUsers tx [actorId, targetId]
      in bindE (activeAdmin (locked actorId)) (\<lambda>actor.
           case locked (toLowerCase targetId) of
             None \<Rightarrow> Inl notFound
           | Some target \<Rightarrow> Inr (actor, target)))"

definition requireStepUp :: "user_env \<Rightarrow> time \<Rightarrow> user_db \<Rightarrow> ident \<Rightarrow> service_error + unit" where
  "requireStepUp e now tx sessionId =
     requireE (steppedUpWithin now tx sessionId (stepUpWindowSeconds e)) (api_error 401 ''STEP_UP_REQUIRED'')"

definition guardAdminTarget :: "user_env \<Rightarrow> time \<Rightarrow> user_db \<Rightarrow> locked_user \<Rightarrow> ident \<Rightarrow> service_error + unit" where
  "guardAdminTarget e now tx actor sessionId =
     bindE (requireE (lu_isSeededAdmin actor) (api_error 403 ''ADMIN_ACTION_NOT_PERMITTED''))
       (\<lambda>_. requireStepUp e now tx sessionId)"

definition record_audit ::
  "time \<Rightarrow> ident \<Rightarrow> ident \<Rightarrow> ident \<Rightarrow> audit_action \<Rightarrow> string \<Rightarrow> ident \<Rightarrow> role_approval option \<Rightarrow> user_db
     \<Rightarrow> service_error + user_db" where
  "record_audit now i actorId target action reason correlation approval db =
     insertAudit now \<lparr> na_id = i, na_actorId = Some actorId, na_targetUserId = target, na_action = action,
       na_reason = reason, na_correlationId = correlation, na_approval = approval \<rparr> db"

definition getUser :: "user_db \<Rightarrow> ident \<Rightarrow> service_error + admin_user_row" where
  "getUser db i = (case findAdminUser db i of None \<Rightarrow> Inl notFound | Some x \<Rightarrow> Inr x)"

text \<open>A bulk alert is raised at most once per administrator and hour.\<close>

definition raiseOnceUsing ::
  "time \<Rightarrow> ident \<Rightarrow> admin_alert_kind \<Rightarrow> ident \<Rightarrow> admin_alert_details \<Rightarrow> user_db \<Rightarrow> service_error + (unit \<times> user_db)" where
  "raiseOnceUsing now i kind actorId details tx =
     (if hasRecentAlert now tx kind actorId HOUR_SECONDS then Inr ((), tx)
      else bindE (insertAlert now i kind actorId details tx) (\<lambda>tx'. Inr ((), tx')))"

definition raiseOncePerHour ::
  "time \<Rightarrow> ident \<Rightarrow> admin_alert_kind \<Rightarrow> ident \<Rightarrow> admin_alert_details \<Rightarrow> user_db \<Rightarrow> (service_error + unit) \<times> user_db" where
  "raiseOncePerHour now i kind actorId details = transaction (raiseOnceUsing now i kind actorId details)"

section \<open>Suspending and reactivating\<close>

datatype suspend_outcome = Already_suspended | Suspended_now nat | Limit_reached nat

definition status_event ::
  "time \<Rightarrow> time \<Rightarrow> ident \<Rightarrow> event_type \<Rightarrow> user_status \<Rightarrow> ident \<Rightarrow> ident \<Rightarrow> ident \<Rightarrow> user_db \<Rightarrow> service_error + user_db" where
  "status_event now clock i ty status userId auditId correlation =
     user_event now i ty userId (UserStatusChangedPayload userId status (Some auditId) (iso clock)) correlation"

definition suspendUsing ::
  "user_env \<Rightarrow> uuids \<Rightarrow> time \<Rightarrow> time \<Rightarrow> ident \<Rightarrow> ident \<Rightarrow> ident \<Rightarrow> string \<Rightarrow> ident \<Rightarrow> user_db
     \<Rightarrow> service_error + (suspend_outcome \<times> user_db)" where
  "suspendUsing e u now clock actorId sessionId targetId reason correlation tx =
     bindE (lockActorAndTarget tx actorId targetId) (\<lambda>(actor, target).
       let userId = canonicalId target in
       if actorId = userId then Inl (api_error 403 ''SELF_SUSPENSION_FORBIDDEN'')
       else bindE (if is_admin target then guardAdminTarget e now tx actor sessionId else Inr ()) (\<lambda>_.
         if lu_status target = SUSPENDED then Inr (Already_suspended, tx)
         else if lu_status target \<noteq> ACTIVE then Inl accountNotActive
         else let recent = countActorActions now tx actorId SUSPEND HOUR_SECONDS in
           if suspensionsLimitPerHour e \<le> int recent then Inr (Limit_reached recent, tx)
           else bindE (record_audit now (randomUUID u 0) actorId userId SUSPEND reason correlation None
                   (revokeAllForUser now userId (setStatus now userId SUSPENDED tx))) (\<lambda>tx1.
             bindE (if is_admin target
                    then insertAlert now (randomUUID u 1) ADMIN_SUSPENDED actorId
                           (Status_details userId (randomUUID u 0)) tx1
                    else Inr tx1) (\<lambda>tx2.
             bindE (status_event now clock (randomUUID u 2) USER_SUSPENDED User_SUSPENDED userId
                      (randomUUID u 0) correlation tx2) (\<lambda>tx3.
               Inr (Suspended_now (recent + 1), tx3))))))"

definition suspend ::
  "user_env \<Rightarrow> uuids \<Rightarrow> uuids \<Rightarrow> time \<Rightarrow> time \<Rightarrow> time \<Rightarrow> ident \<Rightarrow> ident \<Rightarrow> ident \<Rightarrow> string \<Rightarrow> ident \<Rightarrow> user_db
     \<Rightarrow> (service_error + admin_user_row) \<times> user_db" where
  "suspend e u u' now now' clock actorId sessionId targetId reason correlation db =
     (case transaction (suspendUsing e u now clock actorId sessionId targetId reason correlation) db of
        (Inl err, db') \<Rightarrow> (Inl err, db')
      | (Inr (Limit_reached recent), db') \<Rightarrow>
          (case raiseOncePerHour now' (randomUUID u' 0) SUSPENSION_LIMIT_REACHED actorId
                  (Count_details recent (suspensionsLimitPerHour e)) db' of
             (Inl err, db'') \<Rightarrow> (Inl err, db'')
           | (Inr _, db'') \<Rightarrow> (Inl (api_error 429 ''RATE_LIMITED''), db''))
      | (Inr (Suspended_now n), db') \<Rightarrow>
          if suspensionsAlertPerHour e \<le> int n
          then (case raiseOncePerHour now' (randomUUID u' 0) BULK_SUSPENSIONS actorId
                       (Count_details n (suspensionsAlertPerHour e)) db' of
                  (Inl err, db'') \<Rightarrow> (Inl err, db'')
                | (Inr _, db'') \<Rightarrow> (getUser db'' targetId, db''))
          else (getUser db' targetId, db')
      | (Inr Already_suspended, db') \<Rightarrow> (getUser db' targetId, db'))"

definition reactivateUsing ::
  "user_env \<Rightarrow> uuids \<Rightarrow> time \<Rightarrow> time \<Rightarrow> ident \<Rightarrow> ident \<Rightarrow> ident \<Rightarrow> string \<Rightarrow> ident \<Rightarrow> user_db
     \<Rightarrow> service_error + (unit \<times> user_db)" where
  "reactivateUsing e u now clock actorId sessionId targetId reason correlation tx =
     bindE (lockActorAndTarget tx actorId targetId) (\<lambda>(actor, target).
       let userId = canonicalId target in
       bindE (if is_admin target then guardAdminTarget e now tx actor sessionId else Inr ()) (\<lambda>_.
         if lu_status target = ACTIVE then Inr ((), tx)
         else if lu_status target \<noteq> SUSPENDED then Inl accountNotActive
         else bindE (record_audit now (randomUUID u 0) actorId userId REACTIVATE reason correlation None
                 (setStatus now userId ACTIVE tx)) (\<lambda>tx1.
           bindE (if is_admin target
                  then insertAlert now (randomUUID u 1) ADMIN_REACTIVATED actorId
                         (Status_details userId (randomUUID u 0)) tx1
                  else Inr tx1) (\<lambda>tx2.
           bindE (status_event now clock (randomUUID u 2) USER_REACTIVATED User_ACTIVE userId
                    (randomUUID u 0) correlation tx2) (\<lambda>tx3. Inr ((), tx3))))))"

definition reactivate ::
  "user_env \<Rightarrow> uuids \<Rightarrow> time \<Rightarrow> time \<Rightarrow> ident \<Rightarrow> ident \<Rightarrow> ident \<Rightarrow> string \<Rightarrow> ident \<Rightarrow> user_db
     \<Rightarrow> (service_error + admin_user_row) \<times> user_db" where
  "reactivate e u now clock actorId sessionId targetId reason correlation db =
     (case transaction (reactivateUsing e u now clock actorId sessionId targetId reason correlation) db of
        (Inl err, db') \<Rightarrow> (Inl err, db')
      | (Inr _, db') \<Rightarrow> (getUser db' targetId, db'))"

section \<open>Role changes\<close>

text \<open>\<open>False\<close> when the change would change nothing, an error when it is not allowed.\<close>

definition roleRulesAllow ::
  "user_db \<Rightarrow> ident \<Rightarrow> locked_user \<Rightarrow> user_role \<Rightarrow> ident list \<Rightarrow> service_error + bool" where
  "roleRulesAllow tx actorId target r adminIds =
     (let userId = canonicalId target in
      if r = ADMIN then
        if is_admin target then Inr False
        else if lu_status target \<noteq> ACTIVE then Inl accountNotActive
        else Inr True
      else if \<not> is_admin target then Inr False
      else if actorId = userId then Inl (api_error 403 ''SELF_DEMOTION_FORBIDDEN'')
      else if \<not> isSeededAdmin tx actorId then Inl (api_error 403 ''ADMIN_DOWNGRADE_NOT_PERMITTED'')
      else if length adminIds \<le> 1 then Inl (api_error 409 ''LAST_ADMIN'')
      else Inr True)"

record role_change =
  rc_approverId :: ident
  rc_requesterId :: ident
  rc_approval :: role_approval
  rc_target :: locked_user
  rc_role :: user_role
  rc_reason :: string
  rc_correlationId :: ident

text \<open>\<open>[...roles].sort()\<close>: ADMIN sorts before STUDENT.\<close>

definition sorted_roles :: "user_role list \<Rightarrow> user_role list" where
  "sorted_roles rs = sort_key (\<lambda>r. if r = ADMIN then 0 else 1 :: nat) rs"

definition roleChanged ::
  "time \<Rightarrow> time \<Rightarrow> ident \<Rightarrow> ident \<Rightarrow> user_role list \<Rightarrow> ident \<Rightarrow> ident \<Rightarrow> user_db \<Rightarrow> service_error + user_db" where
  "roleChanged now clock i userId roles auditId correlation =
     user_event now i USER_ROLE_CHANGED userId
       (UserRoleChangedPayload userId (sorted_roles roles) (Some auditId) (iso clock)) correlation"

definition applyRoleChange ::
  "uuids \<Rightarrow> time \<Rightarrow> time \<Rightarrow> role_change \<Rightarrow> user_db \<Rightarrow> service_error + user_db" where
  "applyRoleChange u now clock c tx =
     (let userId = canonicalId (rc_target c);
          grant = (rc_role c = ADMIN);
          roles = (if grant then lu_roles (rc_target c) @ [ADMIN]
                   else filter (\<lambda>r. r \<noteq> ADMIN) (lu_roles (rc_target c)))
      in bindE (if grant then grantAdmin now userId (rc_requesterId c) tx else Inr (revokeAdmin userId tx)) (\<lambda>tx1.
         bindE (record_audit now (randomUUID u 0) (rc_approverId c) userId
                  (if grant then ROLE_GRANT else ROLE_REVOKE) (rc_reason c) (rc_correlationId c)
                  (Some (rc_approval c)) tx1) (\<lambda>tx2.
         bindE (roleChanged now clock (randomUUID u 1) userId roles (randomUUID u 0) (rc_correlationId c) tx2) (\<lambda>tx3.
           insertAlert now (randomUUID u 2) ROLE_CHANGE (rc_approverId c)
             (Role_details userId (rc_role c) (rc_requesterId c) (rc_approverId c) (rc_approval c) (randomUUID u 0)) tx3))))"

datatype role_change_result =
    Role_applied admin_user_row
  | Role_requested role_change_request

datatype role_request_outcome = Role_noop | Role_result role_change_result

definition requestRoleChangeUsing ::
  "user_env \<Rightarrow> uuids \<Rightarrow> time \<Rightarrow> time \<Rightarrow> ident \<Rightarrow> ident \<Rightarrow> ident \<Rightarrow> user_role \<Rightarrow> string \<Rightarrow> ident \<Rightarrow> user_db
     \<Rightarrow> service_error + (role_request_outcome \<times> user_db)" where
  "requestRoleChangeUsing e u now clock actorId sessionId targetId r reason correlation tx =
     (let adminIds = lockAdminIds tx in
      bindE (lockActorAndTarget tx actorId targetId) (\<lambda>(_, target).
        let userId = canonicalId target in
        bindE (roleRulesAllow tx actorId target r adminIds) (\<lambda>allowed.
          if \<not> allowed then Inr (Role_noop, tx)
          else bindE (requireStepUp e now tx sessionId) (\<lambda>_.
            let tx1 = expireStaleRequests now userId tx in
            if findPendingRequest now tx1 userId \<noteq> None then Inl (api_error 409 ''ROLE_REQUEST_PENDING'')
            else if filter (\<lambda>i. i \<noteq> actorId \<and> i \<noteq> userId) adminIds = []
            then bindE (applyRoleChange u now clock
                   \<lparr> rc_approverId = actorId, rc_requesterId = actorId, rc_approval = NO_APPROVER,
                     rc_target = target, rc_role = r, rc_reason = reason, rc_correlationId = correlation \<rparr> tx1) (\<lambda>tx2.
                 bindE (getUser tx2 userId) (\<lambda>view. Inr (Role_result (Role_applied view), tx2)))
            else bindE (insertRoleRequest now (randomUUID u 0) userId r actorId reason (roleRequestTtlHours e)
                          correlation tx1) (\<lambda>(request, tx2).
                 bindE (record_audit now (randomUUID u 1) actorId userId ROLE_CHANGE_REQUESTED reason correlation
                          None tx2) (\<lambda>tx3. Inr (Role_result (Role_requested request), tx3)))))))"

definition requestRoleChange ::
  "user_env \<Rightarrow> uuids \<Rightarrow> time \<Rightarrow> time \<Rightarrow> ident \<Rightarrow> ident \<Rightarrow> ident \<Rightarrow> user_role \<Rightarrow> string \<Rightarrow> ident \<Rightarrow> user_db
     \<Rightarrow> (service_error + role_change_result) \<times> user_db" where
  "requestRoleChange e u now clock actorId sessionId targetId r reason correlation db =
     (case transaction (requestRoleChangeUsing e u now clock actorId sessionId targetId r reason correlation) db of
        (Inl err, db') \<Rightarrow> (Inl err, db')
      | (Inr Role_noop, db') \<Rightarrow> (bindE (getUser db' targetId) (\<lambda>view. Inr (Role_applied view)), db')
      | (Inr (Role_result result), db') \<Rightarrow> (Inr result, db'))"

definition openRequest :: "time \<Rightarrow> user_db \<Rightarrow> ident \<Rightarrow> service_error + role_change_request" where
  "openRequest now tx requestId =
     (case lockRoleRequest now tx requestId of
        None \<Rightarrow> Inl (api_error 404 ''NOT_FOUND'')
      | Some q \<Rightarrow>
          if rq_status q = Req_EXPIRED then Inl (api_error 409 ''ROLE_REQUEST_EXPIRED'')
          else if rq_status q \<noteq> Req_PENDING then Inl (api_error 409 ''ROLE_REQUEST_NOT_PENDING'')
          else Inr q)"

definition assertCanDecide :: "ident \<Rightarrow> role_change_request \<Rightarrow> service_error + unit" where
  "assertCanDecide actorId q =
     bindE (requireE (actorId \<noteq> rq_requestedBy q) (api_error 403 ''SELF_APPROVAL_FORBIDDEN'')) (\<lambda>_.
       requireE (actorId \<noteq> rq_targetUserId q) conflictOfInterest)"

definition roleRequestStale :: service_error where
  "roleRequestStale = api_error 409 ''ROLE_REQUEST_STALE''"

definition approveUsing ::
  "user_env \<Rightarrow> uuids \<Rightarrow> time \<Rightarrow> time \<Rightarrow> ident \<Rightarrow> ident \<Rightarrow> ident \<Rightarrow> string \<Rightarrow> ident \<Rightarrow> user_db
     \<Rightarrow> service_error + (ident \<times> user_db)" where
  "approveUsing e u now clock actorId sessionId requestId reason correlation tx =
     (let adminIds = lockAdminIds tx in
      bindE (openRequest now tx requestId) (\<lambda>q.
      bindE (assertCanDecide actorId q) (\<lambda>_.
        let locked = lockUsers tx [actorId, rq_requestedBy q, rq_targetUserId q] in
        bindE (activeAdmin (locked actorId)) (\<lambda>_.
        bindE (case locked (rq_requestedBy q) of
                 None \<Rightarrow> Inl roleRequestStale
               | Some requester \<Rightarrow> requireE (lu_status requester = ACTIVE \<and> is_admin requester) roleRequestStale) (\<lambda>_.
        case locked (rq_targetUserId q) of
          None \<Rightarrow> Inl notFound
        | Some target \<Rightarrow>
            bindE (roleRulesAllow tx (rq_requestedBy q) target (rq_role q) adminIds) (\<lambda>allowed.
            if \<not> allowed then Inl roleRequestStale
            else bindE (requireStepUp e now tx sessionId) (\<lambda>_.
              bindE (decideRoleRequest now (rq_id q) Req_APPROVED actorId reason tx) (\<lambda>(_, tx1).
              bindE (applyRoleChange u now clock
                 \<lparr> rc_approverId = actorId, rc_requesterId = rq_requestedBy q, rc_approval = SECOND_ADMIN,
                   rc_target = target, rc_role = rq_role q, rc_reason = reason,
                   rc_correlationId = correlation \<rparr> tx1) (\<lambda>tx2.
                Inr (canonicalId target, tx2))))))))))"

definition approveRoleRequest ::
  "user_env \<Rightarrow> uuids \<Rightarrow> time \<Rightarrow> time \<Rightarrow> ident \<Rightarrow> ident \<Rightarrow> ident \<Rightarrow> string \<Rightarrow> ident \<Rightarrow> user_db
     \<Rightarrow> (service_error + admin_user_row) \<times> user_db" where
  "approveRoleRequest e u now clock actorId sessionId requestId reason correlation db =
     (case transaction (approveUsing e u now clock actorId sessionId requestId reason correlation) db of
        (Inl err, db') \<Rightarrow> (Inl err, db')
      | (Inr target, db') \<Rightarrow> (getUser db' target, db'))"

definition rejectUsing ::
  "user_env \<Rightarrow> uuids \<Rightarrow> time \<Rightarrow> ident \<Rightarrow> ident \<Rightarrow> ident \<Rightarrow> string \<Rightarrow> ident \<Rightarrow> user_db
     \<Rightarrow> service_error + (role_change_request \<times> user_db)" where
  "rejectUsing e u now actorId sessionId requestId reason correlation tx =
     bindE (openRequest now tx requestId) (\<lambda>q.
       if actorId = rq_targetUserId q then Inl conflictOfInterest
       else bindE (activeAdmin (lockUsers tx [actorId] actorId)) (\<lambda>_.
         bindE (if actorId \<noteq> rq_requestedBy q then requireStepUp e now tx sessionId else Inr ()) (\<lambda>_.
         bindE (decideRoleRequest now (rq_id q) Req_REJECTED actorId reason tx) (\<lambda>(decision, tx1).
         bindE (record_audit now (randomUUID u 0) actorId (rq_targetUserId q) ROLE_CHANGE_REJECTED reason correlation
                  None tx1) (\<lambda>tx2. Inr (decision, tx2))))))"

definition rejectRoleRequest ::
  "user_env \<Rightarrow> uuids \<Rightarrow> time \<Rightarrow> ident \<Rightarrow> ident \<Rightarrow> ident \<Rightarrow> string \<Rightarrow> ident \<Rightarrow> user_db
     \<Rightarrow> (service_error + role_change_request) \<times> user_db" where
  "rejectRoleRequest e u now actorId sessionId requestId reason correlation =
     transaction (rejectUsing e u now actorId sessionId requestId reason correlation)"

section \<open>Reads by administrators\<close>

text \<open>Every account an administrator reads but their own is recorded.\<close>

definition recordReads ::
  "user_env \<Rightarrow> uuids \<Rightarrow> uuids \<Rightarrow> time \<Rightarrow> time \<Rightarrow> ident \<Rightarrow> ident list \<Rightarrow> ident \<Rightarrow> user_db
     \<Rightarrow> (service_error + unit) \<times> user_db" where
  "recordReads e u u' now now' actorId userIds correlation db =
     (let others = filter (\<lambda>i. i \<noteq> actorId) (map toLowerCase userIds)
      in if others = [] then (Inr (), db)
         else case insertAdminReads now (map (\<lambda>k. (randomUUID u k, actorId, others ! k, correlation))
                     [0..<length others]) db of
                Inl err \<Rightarrow> (Inl err, db)
              | Inr db' \<Rightarrow>
                  let reads = countReads now' db' actorId HOUR_SECONDS in
                  if readsAlertPerHour e \<le> int reads
                  then raiseOncePerHour now' (randomUUID u' 0) BULK_READS actorId
                         (Count_details reads (readsAlertPerHour e)) db'
                  else (Inr (), db'))"

definition readUser ::
  "user_env \<Rightarrow> uuids \<Rightarrow> uuids \<Rightarrow> time \<Rightarrow> time \<Rightarrow> ident \<Rightarrow> ident \<Rightarrow> ident \<Rightarrow> user_db
     \<Rightarrow> (service_error + admin_user_row) \<times> user_db" where
  "readUser e u u' now now' actorId userId correlation db =
     (case getUser db userId of
        Inl err \<Rightarrow> (Inl err, db)
      | Inr view \<Rightarrow>
          (case recordReads e u u' now now' actorId [dr_id view] correlation db of
             (Inl err, db') \<Rightarrow> (Inl err, db')
           | (Inr _, db') \<Rightarrow> (Inr view, db')))"

definition listUsers ::
  "user_env \<Rightarrow> uuids \<Rightarrow> uuids \<Rightarrow> time \<Rightarrow> time \<Rightarrow> ident \<Rightarrow> nat \<Rightarrow> nat \<Rightarrow> user_filters \<Rightarrow> ident \<Rightarrow> user_db
     \<Rightarrow> (service_error + (admin_user_row list \<times> nat)) \<times> user_db" where
  "listUsers e u u' now now' actorId page pageSize f correlation db =
     (let (rows, total) = listUsers_rows page pageSize f db
      in case recordReads e u u' now now' actorId (map dr_id rows) correlation db of
           (Inl err, db') \<Rightarrow> (Inl err, db')
         | (Inr _, db') \<Rightarrow> (Inr (rows, total), db'))"

section \<open>Bootstrap administrators\<close>

definition bootstrap_audit :: "ident \<Rightarrow> ident \<Rightarrow> new_audit" where
  "bootstrap_audit i userId =
     \<lparr> na_id = i, na_actorId = None, na_targetUserId = userId, na_action = ADMIN_BOOTSTRAP,
       na_reason = ''Bootstrap administrator from deployment configuration (ADMIN_SEED_EMAILS)'',
       na_correlationId = ''seed'', na_approval = None \<rparr>"

text \<open>The transaction of one address: an address that has an account is skipped, never promoted.\<close>

definition seedUsing ::
  "uuids \<Rightarrow> time \<Rightarrow> time \<Rightarrow> string \<Rightarrow> string \<Rightarrow> user_db \<Rightarrow> service_error + (bool \<times> user_db)" where
  "seedUsing u now clock email passwordHash tx =
     (let i = randomUUID u 0
      in bindE (insertSeededAdmin now i email passwordHash ''Administrator'' tx) (\<lambda>(inserted, tx1).
           if \<not> inserted then Inr (False, tx1)
           else bindE (insertAudit now (bootstrap_audit (randomUUID u 1) i) tx1) (\<lambda>tx2.
             bindE (user_event now (randomUUID u 2) USER_ACTIVATED i (UserActivatedPayload i (iso clock)) ''seed'' tx2)
               (\<lambda>tx3. Inr (True, tx3)))))"

record seed_result =
  sd_created :: "string list"
  sd_skipped :: "(nat \<times> string) list"

text \<open>
  The loop over the configured addresses, from position \<open>k\<close>; \<open>inputs\<close> gives each address its
  UUIDs, its two times and its salt. An address outside the allowed domains, or an error, stops
  the run; the accounts made before it stay.
\<close>

fun seedLoop ::
  "user_env \<Rightarrow> string \<Rightarrow> (nat \<Rightarrow> uuids \<times> time \<times> time \<times> string) \<Rightarrow> nat \<Rightarrow> string list \<Rightarrow> seed_result \<Rightarrow> user_db
     \<Rightarrow> (service_error + seed_result) \<times> user_db" where
  "seedLoop e password inputs k [] result db = (Inr result, db)"
| "seedLoop e password inputs k (raw # rest) result db =
     (let email = normalizeEmail (nfkc e) raw;
          (u, now, clock, salt) = inputs k
      in if \<not> isAllowedDomain email (allowedEmailDomains e) then (Inl (PlainError ''ADMIN_SEED_EMAILS''), db)
         else case transaction (seedUsing u now clock email (hashPassword e salt password)) db of
                (Inl err, db') \<Rightarrow> (Inl err, db')
              | (Inr created, db') \<Rightarrow>
                  seedLoop e password inputs (Suc k) rest
                    (if created then result\<lparr> sd_created := sd_created result @ [email] \<rparr>
                     else result\<lparr> sd_skipped := sd_skipped result @ [(Suc k, email)] \<rparr>) db')"

definition seedAdmins ::
  "user_env \<Rightarrow> string option \<Rightarrow> (nat \<Rightarrow> uuids \<times> time \<times> time \<times> string) \<Rightarrow> string list \<Rightarrow> user_db
     \<Rightarrow> (service_error + seed_result) \<times> user_db" where
  "seedAdmins e password inputs emails db =
     (let start = \<lparr> sd_created = [], sd_skipped = [] \<rparr> in
      if emails = [] then (Inr start, db)
      else case password of
             None \<Rightarrow> (Inl (PlainError ''ADMIN_SEED_PASSWORD''), db)
           | Some p \<Rightarrow> if p = [] then (Inl (PlainError ''ADMIN_SEED_PASSWORD''), db)
                       else seedLoop e p inputs 0 emails start db)"

end
