(* ===== verification/User_Effects.thy ===== *)
theory User_Effects
  imports User_Admin Outbox_Relay
begin

text \<open>
  What the User Service may do to its accounts, as a specification: the tables that say who may
  act (accounts, roles, links, sessions, audit trail, role-change requests) and the events it has
  told, and the movements they may make. Every transaction of the service is one of these
  movements; profiles, recorded reads and alerts are outside it.
\<close>

section \<open>Accounts\<close>

record accounts =
  a_users :: "user_row list"
  a_roles :: "user_role_row list"
  a_activations :: "link_token list"
  a_resets :: "link_token list"
  a_sessions :: "refresh_session list"
  a_audit :: "audit_record list"
  a_requests :: "role_change_request list"
  a_events :: "event list"

definition accounts :: "user_db \<Rightarrow> accounts" where
  "accounts db =
     \<lparr> a_users = users db, a_roles = user_roles db, a_activations = activation_tokens db,
       a_resets = password_reset_tokens db, a_sessions = refresh_sessions db,
       a_audit = audit_records db, a_requests = role_change_requests db,
       a_events = map row_event (outbox_events db) \<rparr>"

lemma accounts_sel [simp]:
  "a_users (accounts db) = users db" "a_roles (accounts db) = user_roles db"
  "a_activations (accounts db) = activation_tokens db" "a_resets (accounts db) = password_reset_tokens db"
  "a_sessions (accounts db) = refresh_sessions db" "a_audit (accounts db) = audit_records db"
  "a_requests (accounts db) = role_change_requests db"
  "a_events (accounts db) = map row_event (outbox_events db)"
  by (simp_all add: accounts_def)

lemma accounts_upd [simp]:
  "accounts (db\<lparr> users := xs \<rparr>) = accounts db\<lparr> a_users := xs \<rparr>"
  "accounts (db\<lparr> user_roles := rs \<rparr>) = accounts db\<lparr> a_roles := rs \<rparr>"
  "accounts (db\<lparr> activation_tokens := ts \<rparr>) = accounts db\<lparr> a_activations := ts \<rparr>"
  "accounts (db\<lparr> password_reset_tokens := ts \<rparr>) = accounts db\<lparr> a_resets := ts \<rparr>"
  "accounts (db\<lparr> refresh_sessions := ss \<rparr>) = accounts db\<lparr> a_sessions := ss \<rparr>"
  "accounts (db\<lparr> audit_records := as \<rparr>) = accounts db\<lparr> a_audit := as \<rparr>"
  "accounts (db\<lparr> role_change_requests := qs \<rparr>) = accounts db\<lparr> a_requests := qs \<rparr>"
  "accounts (db\<lparr> outbox_events := obs \<rparr>) = accounts db\<lparr> a_events := map row_event obs \<rparr>"
  "accounts (db\<lparr> profiles := ps \<rparr>) = accounts db"
  "accounts (db\<lparr> admin_reads := ars \<rparr>) = accounts db"
  "accounts (db\<lparr> admin_alerts := aas \<rparr>) = accounts db"
  "accounts (db\<lparr> outbox_seq := n \<rparr>) = accounts db"
  "accounts (db\<lparr> processed_events := es \<rparr>) = accounts db"
  by (simp_all add: accounts_def)

section \<open>Movements\<close>

definition change_user :: "ident \<Rightarrow> (user_row \<Rightarrow> user_row) \<Rightarrow> accounts \<Rightarrow> accounts" where
  "change_user i f a = a\<lparr> a_users := update_rows (\<lambda>x. us_id x = i) f (a_users a) \<rparr>"

definition signed_out :: "time \<Rightarrow> (refresh_session \<Rightarrow> bool) \<Rightarrow> accounts \<Rightarrow> accounts" where
  "signed_out now p a = a\<lparr> a_sessions := update_rows (\<lambda>s. p s \<and> rs_revokedAt s = None) (revoke now) (a_sessions a) \<rparr>"

definition told :: "event \<Rightarrow> accounts \<Rightarrow> accounts" where
  "told ev a = a\<lparr> a_events := a_events a @ [ev] \<rparr>"

definition audited :: "audit_record \<Rightarrow> accounts \<Rightarrow> accounts" where
  "audited r a = a\<lparr> a_audit := a_audit a @ [r] \<rparr>"

definition activation_event :: "ident \<Rightarrow> time \<Rightarrow> event" where
  "activation_event i t = (USER_ACTIVATED, i, UserActivatedPayload i t)"

text \<open>The password is set by whoever owns the inbox; a pending account becomes active.\<close>

definition inbox_proven :: "time \<Rightarrow> time \<Rightarrow> ident \<Rightarrow> string \<Rightarrow> bool \<Rightarrow> accounts \<Rightarrow> accounts" where
  "inbox_proven now t i hash pending a =
     (let a1 = change_user i (\<lambda>x. x\<lparr> us_passwordHash := Some hash, us_mustChangePassword := False, us_updatedAt := now \<rparr>) a;
          a2 = (if pending then told (activation_event i t) (change_user i
                  (\<lambda>x. x\<lparr> us_status := ACTIVE, us_activatedAt := Some now, us_updatedAt := now \<rparr>) a1) else a1)
      in signed_out now (\<lambda>s. rs_userId s = i)
           (a2\<lparr> a_activations := without_unconsumed i (a_activations a2),
                a_resets := without_unconsumed i (a_resets a2) \<rparr>))"

definition fresh_link :: "link_token list \<Rightarrow> link_token \<Rightarrow> bool" where
  "fresh_link ts t \<longleftrightarrow> lt_consumedAt t = None \<and> lt_tokenHash t \<notin> lt_tokenHash ` set ts"

definition fresh_session :: "refresh_session list \<Rightarrow> refresh_session \<Rightarrow> bool" where
  "fresh_session ss s \<longleftrightarrow> rs_rotatedAt s = None \<and> rs_revokedAt s = None \<and>
     rs_id s \<notin> rs_id ` set ss \<and> rs_tokenHash s \<notin> rs_tokenHash ` set ss"

definition holds_admin :: "accounts \<Rightarrow> ident \<Rightarrow> bool" where
  "holds_admin a i \<longleftrightarrow> (i, ADMIN) \<in> (\<lambda>r. (ur_userId r, ur_role r)) ` set (a_roles a)"

definition active_admin :: "accounts \<Rightarrow> user_row \<Rightarrow> bool" where
  "active_admin a x \<longleftrightarrow> x \<in> set (a_users a) \<and> us_status x = ACTIVE \<and> holds_admin a (us_id x)"

text \<open>Who may change the standing of account \<open>y\<close>: acting on an administrator takes a seeded one.\<close>

definition may_act_on :: "accounts \<Rightarrow> user_row \<Rightarrow> user_row \<Rightarrow> bool" where
  "may_act_on a x y \<longleftrightarrow> active_admin a x \<and> y \<in> set (a_users a) \<and>
     (holds_admin a (us_id y) \<longrightarrow> us_isSeededAdmin x)"

definition audit_row ::
  "audit_record \<Rightarrow> time \<Rightarrow> ident \<Rightarrow> ident \<Rightarrow> audit_action \<Rightarrow> role_approval option \<Rightarrow> bool" where
  "audit_row r now actor target action approval \<longleftrightarrow>
     au_actorId r = Some actor \<and> au_targetUserId r = target \<and> au_action r = action \<and>
     au_occurredAt r = now \<and> au_approval r = approval"

text \<open>What the change of a role does, once allowed.\<close>

definition with_role :: "user_role_row \<Rightarrow> user_role \<Rightarrow> accounts \<Rightarrow> accounts" where
  "with_role g r a = (if r = ADMIN then a\<lparr> a_roles := a_roles a @ [g] \<rparr>
     else a\<lparr> a_roles := filter (\<lambda>x. \<not> (ur_userId x = ur_userId g \<and> ur_role x = ADMIN)) (a_roles a) \<rparr>)"

definition role_action :: "user_role \<Rightarrow> audit_action" where
  "role_action r = (if r = ADMIN then ROLE_GRANT else ROLE_REVOKE)"

text \<open>
  The rules of a role change: only an active account is appointed, and not twice; only an
  administrator is demoted, by another who is a seeded one.
\<close>

definition role_change_ok :: "accounts \<Rightarrow> ident \<Rightarrow> user_row \<Rightarrow> user_role \<Rightarrow> bool" where
  "role_change_ok a asker y r \<longleftrightarrow> y \<in> set (a_users a) \<and>
     (if r = ADMIN then \<not> holds_admin a (us_id y) \<and> us_status y = ACTIVE
      else holds_admin a (us_id y) \<and> asker \<noteq> us_id y \<and>
        (\<exists>x \<in> set (a_users a). us_id x = asker \<and> us_isSeededAdmin x))"

definition suspensions_since :: "accounts \<Rightarrow> ident \<Rightarrow> time \<Rightarrow> nat" where
  "suspensions_since a actor t = length (filter (acted_since actor SUSPEND t) (a_audit a))"

inductive account_effect :: "int \<Rightarrow> accounts \<Rightarrow> accounts \<Rightarrow> bool" for limit :: int where
  unmoved: "account_effect limit a a"
| forgotten: "(\<And>p. length (filter p evs) \<le> length (filter p (a_events a))) \<Longrightarrow>
     account_effect limit a (a\<lparr> a_events := evs \<rparr>)"
| registered: "\<lbrakk> i \<notin> us_id ` set (a_users a); toLowerCase i = i;
     toLowerCase email \<notin> (\<lambda>x. toLowerCase (us_email x)) ` set (a_users a);
     lt_userId t = i; fresh_link (without_unconsumed i (a_activations a)) t \<rbrakk> \<Longrightarrow>
     account_effect limit a (a\<lparr> a_users := a_users a @ [pending_user now i email],
       a_roles := a_roles a @ [role_row now i STUDENT None],
       a_activations := without_unconsumed i (a_activations a) @ [t] \<rparr>)"
| link_sent: "\<lbrakk> x \<in> set (a_users a); us_id x = i; us_status x = PENDING_ACTIVATION;
     lt_userId t = i; fresh_link (without_unconsumed i (a_activations a)) t;
     f = (\<lambda>y. y) \<or> f = (\<lambda>y. y\<lparr> us_passwordHash := None, us_updatedAt := now \<rparr>) \<rbrakk> \<Longrightarrow>
     account_effect limit a ((change_user i f a)
       \<lparr> a_activations := without_unconsumed i (a_activations a) @ [t] \<rparr>)"
| reset_sent: "\<lbrakk> x \<in> set (a_users a); us_id x = i; us_status x \<noteq> SUSPENDED;
     lt_userId t = i; fresh_link (without_unconsumed i (a_resets a)) t \<rbrakk> \<Longrightarrow>
     account_effect limit a (a\<lparr> a_resets := without_unconsumed i (a_resets a) @ [t] \<rparr>)"
| link_activated: "\<lbrakk> k \<in> set (a_activations a); lt_tokenHash k = h; live_link now k;
     x \<in> set (a_users a); us_id x = lt_userId k; us_status x = PENDING_ACTIVATION \<rbrakk> \<Longrightarrow>
     account_effect limit a (inbox_proven now t (us_id x) hash True
       (a\<lparr> a_activations := snd (consumed_by_hash now h (a_activations a)) \<rparr>))"
| link_reset: "\<lbrakk> k \<in> set (a_resets a); lt_tokenHash k = h; live_link now k;
     x \<in> set (a_users a); us_id x = lt_userId k; us_status x \<noteq> SUSPENDED \<rbrakk> \<Longrightarrow>
     account_effect limit a (inbox_proven now t (us_id x) hash (us_status x = PENDING_ACTIVATION)
       (a\<lparr> a_resets := snd (consumed_by_hash now h (a_resets a)) \<rparr>))"
| signed_in: "\<lbrakk> x \<in> set (a_users a); us_id x = rs_userId s; us_status x = ACTIVE; \<not> us_mustChangePassword x;
     fresh_session (a_sessions a) s; rs_familyId s \<notin> rs_familyId ` set (a_sessions a) \<rbrakk> \<Longrightarrow>
     account_effect limit a (a\<lparr> a_sessions := a_sessions a @ [s] \<rparr>)"
| rotated: "\<lbrakk> s \<in> set (a_sessions a); rs_rotatedAt s = None; rs_revokedAt s = None;
     s' = s\<lparr> rs_id := i, rs_tokenHash := h, rs_issuedAt := now \<rparr>; fresh_session (a_sessions a) s' \<rbrakk> \<Longrightarrow>
     account_effect limit a (a\<lparr> a_sessions :=
       update_rows (\<lambda>x. rs_id x = rs_id s) (\<lambda>x. x\<lparr> rs_rotatedAt := Some now \<rparr>) (a_sessions a) @ [s'] \<rparr>)"
| family_revoked: "account_effect limit a (signed_out now (\<lambda>s. rs_familyId s = family) a)"
| password_changed: "\<lbrakk> x \<in> set (a_users a); us_id x = i; us_passwordHash x \<noteq> None \<rbrakk> \<Longrightarrow>
     account_effect limit a ((signed_out now (\<lambda>s. rs_userId s = i) (change_user i
       (\<lambda>x. x\<lparr> us_passwordHash := Some hash, us_mustChangePassword := False, us_updatedAt := now \<rparr>) a))
       \<lparr> a_resets := without_unconsumed i (a_resets a) \<rparr>)"
| stepped_up: "account_effect limit a (a\<lparr> a_sessions :=
     update_rows p (\<lambda>s. s\<lparr> rs_steppedUpAt := Some now \<rparr>) (a_sessions a) \<rparr>)"
| suspended: "\<lbrakk> may_act_on a x y; us_id x \<noteq> us_id y; us_status y = ACTIVE;
     int (suspensions_since a (us_id x) (now - hours_span 1)) < limit;
     audit_row r now (us_id x) (us_id y) SUSPEND None \<rbrakk> \<Longrightarrow>
     account_effect limit a (told (USER_SUSPENDED, us_id y, UserStatusChangedPayload (us_id y) User_SUSPENDED (Some (au_id r)) t)
       (audited r (signed_out now (\<lambda>s. rs_userId s = us_id y)
         (change_user (us_id y) (\<lambda>z. z\<lparr> us_status := SUSPENDED, us_updatedAt := now \<rparr>) a))))"
| reactivated: "\<lbrakk> may_act_on a x y; us_status y = SUSPENDED;
     audit_row r now (us_id x) (us_id y) REACTIVATE None \<rbrakk> \<Longrightarrow>
     account_effect limit a (told (USER_REACTIVATED, us_id y, UserStatusChangedPayload (us_id y) User_ACTIVE (Some (au_id r)) t)
       (audited r (change_user (us_id y) (\<lambda>z. z\<lparr> us_status := ACTIVE, us_updatedAt := now \<rparr>) a)))"
| role_asked: "\<lbrakk> active_admin a x; role_change_ok a (us_id x) y (rq_role q);
     a1 = a\<lparr> a_requests := update_rows (\<lambda>z. rq_targetUserId z = us_id y \<and> rq_status z = Req_PENDING \<and>
               rq_expiresAt z \<le> now) (\<lambda>z. z\<lparr> rq_status := Req_EXPIRED \<rparr>) (a_requests a) \<rparr>;
     rq_status q = Req_PENDING; rq_requestedBy q = us_id x; rq_targetUserId q = us_id y; rq_decidedBy q = None;
     rq_id q \<notin> rq_id ` set (a_requests a);
     \<not> (\<exists>z \<in> set (a_requests a1). rq_targetUserId z = us_id y \<and> rq_status z = Req_PENDING);
     audit_row r now (us_id x) (us_id y) ROLE_CHANGE_REQUESTED None \<rbrakk> \<Longrightarrow>
     account_effect limit a (audited r (a1\<lparr> a_requests := a_requests a1 @ [q] \<rparr>))"
| role_changed_alone: "\<lbrakk> active_admin a x; role_change_ok a (us_id x) y role;
     \<forall>i. holds_admin a i \<longrightarrow> i = us_id x \<or> i = us_id y;
     a1 = a\<lparr> a_requests := update_rows (\<lambda>z. rq_targetUserId z = us_id y \<and> rq_status z = Req_PENDING \<and>
               rq_expiresAt z \<le> now) (\<lambda>z. z\<lparr> rq_status := Req_EXPIRED \<rparr>) (a_requests a) \<rparr>;
     audit_row r now (us_id x) (us_id y) (role_action role) (Some NO_APPROVER) \<rbrakk> \<Longrightarrow>
     account_effect limit a (told (USER_ROLE_CHANGED, us_id y, UserRoleChangedPayload (us_id y) roles (Some (au_id r)) t)
       (audited r (with_role (role_row now (us_id y) ADMIN (Some (us_id x))) role a1)))"
| role_approved: "\<lbrakk> active_admin a x; active_admin a z; q \<in> set (a_requests a); rq_status q = Req_PENDING;
     rq_requestedBy q = us_id z; rq_targetUserId q = us_id y; us_id x \<noteq> us_id z; us_id x \<noteq> us_id y;
     role_change_ok a (us_id z) y (rq_role q);
     audit_row r now (us_id x) (us_id y) (role_action (rq_role q)) (Some SECOND_ADMIN) \<rbrakk> \<Longrightarrow>
     account_effect limit a (told (USER_ROLE_CHANGED, us_id y, UserRoleChangedPayload (us_id y) roles (Some (au_id r)) t)
       (audited r (with_role (role_row now (us_id y) ADMIN (Some (us_id z))) (rq_role q)
         (a\<lparr> a_requests := update_rows (\<lambda>w. rq_id w = rq_id q) (decided now Req_APPROVED (us_id x) why) (a_requests a) \<rparr>))))"
| role_rejected: "\<lbrakk> active_admin a x; q \<in> set (a_requests a); rq_status q = Req_PENDING; us_id x \<noteq> rq_targetUserId q;
     audit_row r now (us_id x) (rq_targetUserId q) ROLE_CHANGE_REJECTED None \<rbrakk> \<Longrightarrow>
     account_effect limit a (audited r
       (a\<lparr> a_requests := update_rows (\<lambda>w. rq_id w = rq_id q) (decided now Req_REJECTED (us_id x) why) (a_requests a) \<rparr>))"
| seeded: "\<lbrakk> i \<notin> us_id ` set (a_users a); toLowerCase i = i;
     toLowerCase email \<notin> (\<lambda>x. toLowerCase (us_email x)) ` set (a_users a);
     au_action r = ADMIN_BOOTSTRAP; au_actorId r = None; au_approval r = None \<rbrakk> \<Longrightarrow>
     account_effect limit a (told (activation_event i t) (audited r
       (a\<lparr> a_users := a_users a @ [(pending_user now i email)\<lparr> us_passwordHash := Some hash, us_status := ACTIVE,
              us_isSeededAdmin := True, us_mustChangePassword := True, us_activatedAt := Some now \<rparr>],
           a_roles := a_roles a @ [role_row now i STUDENT None, role_row now i ADMIN None] \<rparr>)))"

end
