(* ===== verification/User_Invariants.thy ===== *)
theory User_Invariants
  imports User_Effects
begin

text \<open>
  What holds of the accounts in every state: of the rows of each table, and across tables. Each
  part is kept by every movement of \<open>User_Effects\<close>.
\<close>

section \<open>The invariant\<close>

text \<open>A pending account has no password and was never activated; every other has both.\<close>

definition user_ok :: "user_row \<Rightarrow> bool" where
  "user_ok x \<longleftrightarrow> toLowerCase (us_id x) = us_id x \<and>
     (us_status x = PENDING_ACTIVATION \<longleftrightarrow> us_passwordHash x = None) \<and>
     (us_status x = PENDING_ACTIVATION \<longleftrightarrow> us_activatedAt x = None)"

definition users_ok :: "user_row list \<Rightarrow> bool" where
  "users_ok us \<longleftrightarrow> distinct (map us_id us) \<and> distinct (map (\<lambda>x. toLowerCase (us_email x)) us) \<and>
     (\<forall>x \<in> set us. user_ok x)"

definition user_with :: "user_row list \<Rightarrow> ident \<Rightarrow> (user_row \<Rightarrow> bool) \<Rightarrow> bool" where
  "user_with us i P \<longleftrightarrow> (\<exists>x \<in> set us. us_id x = i \<and> P x)"

definition unused :: "ident \<Rightarrow> link_token \<Rightarrow> bool" where
  "unused i t \<longleftrightarrow> lt_userId t = i \<and> lt_consumedAt t = None"

definition links_ok :: "link_token list \<Rightarrow> bool" where
  "links_ok ts \<longleftrightarrow> distinct (map lt_tokenHash ts) \<and> (\<forall>i. length (filter (unused i) ts) \<le> 1)"

text \<open>An activation link is unused exactly as long as its account is pending.\<close>

definition activations_ok :: "user_row list \<Rightarrow> link_token list \<Rightarrow> bool" where
  "activations_ok us ts \<longleftrightarrow> links_ok ts \<and> (\<forall>t \<in> set ts.
     user_with us (lt_userId t) (\<lambda>x. (us_status x = PENDING_ACTIVATION) = (lt_consumedAt t = None)))"

definition resets_ok :: "user_row list \<Rightarrow> link_token list \<Rightarrow> bool" where
  "resets_ok us ts \<longleftrightarrow> links_ok ts \<and> (\<forall>t \<in> set ts. user_with us (lt_userId t) (\<lambda>_. True))"

text \<open>
  A session that is not revoked belongs to an active account whose password is its own; sessions
  of one family have one owner and one expiry, are revoked together, and only one is unrotated.
\<close>

definition session_ok :: "user_row list \<Rightarrow> refresh_session \<Rightarrow> bool" where
  "session_ok us s \<longleftrightarrow> user_with us (rs_userId s)
     (\<lambda>x. rs_revokedAt s = None \<longrightarrow> us_status x = ACTIVE \<and> \<not> us_mustChangePassword x)"

definition kin_ok :: "refresh_session \<Rightarrow> refresh_session \<Rightarrow> bool" where
  "kin_ok s t \<longleftrightarrow> (rs_familyId s = rs_familyId t \<longrightarrow>
     rs_userId s = rs_userId t \<and> rs_expiresAt s = rs_expiresAt t \<and>
     (rs_revokedAt s = None \<longleftrightarrow> rs_revokedAt t = None) \<and>
     (rs_rotatedAt s = None \<and> rs_rotatedAt t = None \<longrightarrow> rs_id s = rs_id t))"

definition sessions_ok :: "user_row list \<Rightarrow> refresh_session list \<Rightarrow> bool" where
  "sessions_ok us ss \<longleftrightarrow> distinct (map rs_id ss) \<and> distinct (map rs_tokenHash ss) \<and>
     (\<forall>s \<in> set ss. session_ok us s) \<and> (\<forall>s \<in> set ss. \<forall>t \<in> set ss. kin_ok s t)"

text \<open>Requests for a role: who asked is not the target, and who decided is neither.\<close>

definition request_row_ok :: "role_change_request \<Rightarrow> bool" where
  "request_row_ok q \<longleftrightarrow> (rq_role q = STUDENT \<longrightarrow> rq_requestedBy q \<noteq> rq_targetUserId q) \<and>
     (rq_status q = Req_APPROVED \<longrightarrow> (\<exists>d. rq_decidedBy q = Some d \<and> d \<noteq> rq_requestedBy q \<and> d \<noteq> rq_targetUserId q))"

definition pending_for :: "ident \<Rightarrow> role_change_request \<Rightarrow> bool" where
  "pending_for i q \<longleftrightarrow> rq_targetUserId q = i \<and> rq_status q = Req_PENDING"

definition requests_ok :: "role_change_request list \<Rightarrow> bool" where
  "requests_ok qs \<longleftrightarrow> distinct (map rq_id qs) \<and> (\<forall>q \<in> set qs. request_row_ok q) \<and>
     (\<forall>i. length (filter (pending_for i) qs) \<le> 1)"

text \<open>Every role change in the trail carries its approval, and one by a second admin its request.\<close>

definition backs :: "audit_record \<Rightarrow> role_change_request \<Rightarrow> bool" where
  "backs r q \<longleftrightarrow> rq_status q = Req_APPROVED \<and> rq_targetUserId q = au_targetUserId r \<and>
     rq_decidedBy q = au_actorId r \<and> au_action r = role_action (rq_role q)"

definition trail_ok :: "role_change_request list \<Rightarrow> audit_record list \<Rightarrow> bool" where
  "trail_ok qs rs \<longleftrightarrow> (\<forall>r \<in> set rs.
     (au_action r \<in> {ROLE_GRANT, ROLE_REVOKE} \<longrightarrow> au_approval r \<noteq> None) \<and>
     (au_approval r = Some SECOND_ADMIN \<longrightarrow> (\<exists>q \<in> set qs. backs r q)))"

text \<open>In no hour has an administrator suspended more accounts than the limit.\<close>

definition suspension_within :: "ident \<Rightarrow> time \<Rightarrow> audit_record \<Rightarrow> bool" where
  "suspension_within actor t r \<longleftrightarrow> acted_since actor SUSPEND t r \<and> au_occurredAt r \<le> t + hours_span 1"

definition bounded_ok :: "int \<Rightarrow> audit_record list \<Rightarrow> bool" where
  "bounded_ok limit rs \<longleftrightarrow> (\<forall>actor t. int (length (filter (suspension_within actor t) rs)) \<le> max 0 limit)"

text \<open>An account is announced as activated at most once, and only if it was.\<close>

definition announces :: "ident \<Rightarrow> event \<Rightarrow> bool" where
  "announces i ev \<longleftrightarrow> fst ev = USER_ACTIVATED \<and> fst (snd ev) = i"

definition told_ok :: "user_row list \<Rightarrow> event list \<Rightarrow> bool" where
  "told_ok us evs \<longleftrightarrow> (\<forall>i. length (filter (announces i) evs) \<le> 1) \<and>
     (\<forall>i. filter (announces i) evs \<noteq> [] \<longrightarrow> user_with us i (\<lambda>x. us_status x \<noteq> PENDING_ACTIVATION))"

definition accounts_ok :: "int \<Rightarrow> accounts \<Rightarrow> bool" where
  "accounts_ok limit a \<longleftrightarrow> users_ok (a_users a) \<and> activations_ok (a_users a) (a_activations a) \<and>
     resets_ok (a_users a) (a_resets a) \<and> sessions_ok (a_users a) (a_sessions a) \<and>
     requests_ok (a_requests a) \<and> trail_ok (a_requests a) (a_audit a) \<and> bounded_ok limit (a_audit a) \<and>
     told_ok (a_users a) (a_events a)"

section \<open>What the movements touch\<close>

named_theorems account_parts \<open>the tables after a movement\<close>

lemma update_rows_twice:
  assumes "\<And>r. p (g r) = p r"
  shows "update_rows p f (update_rows p g rs) = update_rows p (\<lambda>r. f (g r)) rs"
  using assms by (simp add: update_rows_def)

text \<open>The account after an emailed link: password set, and active if it was pending.\<close>

definition proven :: "time \<Rightarrow> string \<Rightarrow> bool \<Rightarrow> user_row \<Rightarrow> user_row" where
  "proven now hash pending x =
     (let y = x\<lparr> us_passwordHash := Some hash, us_mustChangePassword := False, us_updatedAt := now \<rparr>
      in if pending then y\<lparr> us_status := ACTIVE, us_activatedAt := Some now, us_updatedAt := now \<rparr> else y)"

lemma proven_simps [simp]:
  "us_id (proven now hash pending x) = us_id x" "us_email (proven now hash pending x) = us_email x"
  "us_passwordHash (proven now hash pending x) = Some hash"
  "us_mustChangePassword (proven now hash pending x) = False"
  "us_status (proven now hash pending x) = (if pending then ACTIVE else us_status x)"
  "us_activatedAt (proven now hash pending x) = (if pending then Some now else us_activatedAt x)"
  by (simp_all add: proven_def Let_def)

lemma change_user_parts [account_parts]:
  "a_users (change_user i f a) = update_rows (\<lambda>x. us_id x = i) f (a_users a)"
  "a_roles (change_user i f a) = a_roles a" "a_activations (change_user i f a) = a_activations a"
  "a_resets (change_user i f a) = a_resets a" "a_sessions (change_user i f a) = a_sessions a"
  "a_audit (change_user i f a) = a_audit a" "a_requests (change_user i f a) = a_requests a"
  "a_events (change_user i f a) = a_events a"
  by (simp_all add: change_user_def)

lemma signed_out_parts [account_parts]:
  "a_sessions (signed_out now p a) = update_rows (\<lambda>s. p s \<and> rs_revokedAt s = None) (revoke now) (a_sessions a)"
  "a_users (signed_out now p a) = a_users a" "a_roles (signed_out now p a) = a_roles a"
  "a_activations (signed_out now p a) = a_activations a" "a_resets (signed_out now p a) = a_resets a"
  "a_audit (signed_out now p a) = a_audit a" "a_requests (signed_out now p a) = a_requests a"
  "a_events (signed_out now p a) = a_events a"
  by (simp_all add: signed_out_def)

lemma told_parts [account_parts]:
  "a_events (told ev a) = a_events a @ [ev]" "a_users (told ev a) = a_users a" "a_roles (told ev a) = a_roles a"
  "a_activations (told ev a) = a_activations a" "a_resets (told ev a) = a_resets a"
  "a_sessions (told ev a) = a_sessions a" "a_audit (told ev a) = a_audit a" "a_requests (told ev a) = a_requests a"
  by (simp_all add: told_def)

lemma audited_parts [account_parts]:
  "a_audit (audited r a) = a_audit a @ [r]" "a_users (audited r a) = a_users a" "a_roles (audited r a) = a_roles a"
  "a_activations (audited r a) = a_activations a" "a_resets (audited r a) = a_resets a"
  "a_sessions (audited r a) = a_sessions a" "a_requests (audited r a) = a_requests a"
  "a_events (audited r a) = a_events a"
  by (simp_all add: audited_def)

lemma with_role_parts [account_parts]:
  "a_users (with_role g role a) = a_users a" "a_activations (with_role g role a) = a_activations a"
  "a_resets (with_role g role a) = a_resets a" "a_sessions (with_role g role a) = a_sessions a"
  "a_audit (with_role g role a) = a_audit a" "a_requests (with_role g role a) = a_requests a"
  "a_events (with_role g role a) = a_events a"
  by (simp_all add: with_role_def)

lemma inbox_proven_parts [account_parts]:
  "a_users (inbox_proven now t i hash pending a) = update_rows (\<lambda>x. us_id x = i) (proven now hash pending) (a_users a)"
  "a_roles (inbox_proven now t i hash pending a) = a_roles a"
  "a_activations (inbox_proven now t i hash pending a) = without_unconsumed i (a_activations a)"
  "a_resets (inbox_proven now t i hash pending a) = without_unconsumed i (a_resets a)"
  "a_sessions (inbox_proven now t i hash pending a) =
     update_rows (\<lambda>s. rs_userId s = i \<and> rs_revokedAt s = None) (revoke now) (a_sessions a)"
  "a_audit (inbox_proven now t i hash pending a) = a_audit a"
  "a_requests (inbox_proven now t i hash pending a) = a_requests a"
  "a_events (inbox_proven now t i hash pending a) = a_events a @ (if pending then [activation_event i t] else [])"
  by (simp_all add: inbox_proven_def Let_def account_parts update_rows_twice proven_def [abs_def])

section \<open>Accounts\<close>

lemma same_user:
  assumes "users_ok us" and "x \<in> set us" and "y \<in> set us" and "us_id x = us_id y"
  shows "x = y"
  using assms by (auto simp: users_ok_def distinct_map dest: inj_onD)

lemma users_ok_row: "users_ok us \<Longrightarrow> x \<in> set us \<Longrightarrow> user_ok x"
  by (simp add: users_ok_def)

lemma users_ok_update:
  assumes ok: "users_ok us" and keeps: "\<And>y. us_id (f y) = us_id y" "\<And>y. us_email (f y) = us_email y"
    and row: "\<And>x. x \<in> set us \<Longrightarrow> us_id x = i \<Longrightarrow> user_ok (f x)"
  shows "users_ok (update_rows (\<lambda>y. us_id y = i) f us)"
proof -
  have "map (\<lambda>x. toLowerCase (us_email x)) (update_rows (\<lambda>y. us_id y = i) f us) = map (\<lambda>x. toLowerCase (us_email x)) us"
    using keeps(2) by simp
  then show ?thesis
    using ok keeps row by (auto simp: users_ok_def set_update_rows)
qed

lemma users_ok_snoc:
  "users_ok us \<Longrightarrow> us_id x \<notin> us_id ` set us \<Longrightarrow>
     toLowerCase (us_email x) \<notin> (\<lambda>x. toLowerCase (us_email x)) ` set us \<Longrightarrow> user_ok x \<Longrightarrow> users_ok (us @ [x])"
  by (auto simp: users_ok_def)

lemma role_change_target: "role_change_ok a asker y r \<Longrightarrow> y \<in> set (a_users a)"
  by (simp add: role_change_ok_def)

lemma users_keep:
  assumes "account_effect limit a a'" and "users_ok (a_users a)"
  shows "users_ok (a_users a')"
  using assms
proof (induction rule: account_effect.induct)
  case (registered i a email t now)
  then show ?case by simp (rule users_ok_snoc, auto simp: pending_user_def user_ok_def)
next
  case (seeded i a email r t now hash)
  then show ?case by (simp add: account_parts) (rule users_ok_snoc, auto simp: pending_user_def user_ok_def)
next
  case (link_sent x a i t f now)
  have row: "user_ok (f y)" if "y \<in> set (a_users a)" "us_id y = i" for y
  proof -
    have "y = x" using same_user [OF link_sent.prems that(1) link_sent(1)] that(2) link_sent(2) by simp
    with link_sent users_ok_row [OF link_sent.prems link_sent(1)] show ?thesis by (auto simp: user_ok_def)
  qed
  have "us_id (f y) = us_id y" "us_email (f y) = us_email y" for y using link_sent(6) by auto
  with row link_sent.prems show ?case by (simp add: account_parts) (rule users_ok_update)
next
  case (link_activated k a h now x t hash)
  have "user_ok (proven now hash True y)" if "y \<in> set (a_users a)" for y
    using users_ok_row [OF link_activated.prems that] by (simp add: user_ok_def)
  with link_activated.prems show ?case by (simp add: account_parts) (rule users_ok_update, auto)
next
  case (link_reset k a h now x t hash)
  have "user_ok (proven now hash (us_status x = PENDING_ACTIVATION) y)" if "y \<in> set (a_users a)" "us_id y = us_id x" for y
    using users_ok_row [OF link_reset.prems that(1)] same_user [OF link_reset.prems that(1) link_reset(4) that(2)]
    by (auto simp: user_ok_def)
  with link_reset.prems show ?case by (simp add: account_parts) (rule users_ok_update, auto)
next
  case (password_changed x a i now hash)
  have "user_ok (y\<lparr> us_passwordHash := Some hash, us_mustChangePassword := False, us_updatedAt := now \<rparr>)"
    if "y \<in> set (a_users a)" "us_id y = i" for y
    using users_ok_row [OF password_changed.prems that(1)] same_user [OF password_changed.prems that(1) password_changed(1)]
      that(2) password_changed(2,3) by (auto simp: user_ok_def)
  with password_changed.prems show ?case by (simp add: account_parts) (rule users_ok_update, auto)
next
  case (suspended a x y now r t)
  have "user_ok (z\<lparr> us_status := SUSPENDED, us_updatedAt := now \<rparr>)" if "z \<in> set (a_users a)" "us_id z = us_id y" for z
    using users_ok_row [OF suspended.prems that(1)] same_user [OF suspended.prems that(1) _ that(2)] suspended(1,3)
    by (auto simp: user_ok_def may_act_on_def)
  with suspended.prems show ?case by (simp add: account_parts) (rule users_ok_update, auto)
next
  case (reactivated a x y r now t)
  have "user_ok (z\<lparr> us_status := ACTIVE, us_updatedAt := now \<rparr>)" if "z \<in> set (a_users a)" "us_id z = us_id y" for z
    using users_ok_row [OF reactivated.prems that(1)] same_user [OF reactivated.prems that(1) _ that(2)] reactivated(1,2)
    by (auto simp: user_ok_def may_act_on_def)
  with reactivated.prems show ?case by (simp add: account_parts) (rule users_ok_update, auto)
qed (simp_all add: account_parts)

section \<open>Links\<close>

lemma user_with_update:
  assumes "\<And>y. us_id (f y) = us_id y"
  shows "user_with (update_rows (\<lambda>y. us_id y = i) f us) j P \<longleftrightarrow>
    user_with us j (\<lambda>x. P (if j = i then f x else x))"
  using assms by (auto simp: user_with_def set_update_rows)

lemma user_with_snoc: "user_with us j P \<Longrightarrow> user_with (us @ [x]) j P"
  by (auto simp: user_with_def)

lemma user_with_mono: "user_with us j P \<Longrightarrow> (\<And>x. x \<in> set us \<Longrightarrow> us_id x = j \<Longrightarrow> P x \<Longrightarrow> Q x) \<Longrightarrow> user_with us j Q"
  by (auto simp: user_with_def)

lemma user_withI: "x \<in> set us \<Longrightarrow> us_id x = j \<Longrightarrow> P x \<Longrightarrow> user_with us j P"
  by (auto simp: user_with_def)

lemma unused_after_delete: "filter (unused j) (without_unconsumed i ts) = (if j = i then [] else filter (unused j) ts)"
  by (auto simp: without_unconsumed_def unused_def filter_empty_conv intro!: filter_cong)

lemma links_ok_delete: "links_ok ts \<Longrightarrow> links_ok (without_unconsumed i ts)"
  by (auto simp: links_ok_def unused_after_delete) (simp add: without_unconsumed_def distinct_map_filter)

lemma links_ok_issue:
  assumes "links_ok ts" and "lt_userId t = i" and "fresh_link (without_unconsumed i ts) t"
  shows "links_ok (without_unconsumed i ts @ [t])"
  using links_ok_delete [OF assms(1), of i] assms
  by (auto simp: links_ok_def unused_after_delete fresh_link_def unused_def [of _ t])

lemma links_ok_consume: "links_ok ts \<Longrightarrow> links_ok (snd (consumed_by_hash now h ts))"
proof -
  assume ok: "links_ok ts"
  let ?ts = "snd (consumed_by_hash now h ts)"
  have "length (filter (unused i) ?ts) \<le> length (filter (unused i) ts)" for i
    by (induction ts) (auto simp: consumed_by_hash_def update_rows_def unused_def)
  moreover have "map lt_tokenHash ?ts = map lt_tokenHash ts" by (simp add: consumed_by_hash_def)
  ultimately show ?thesis using ok unfolding links_ok_def by (metis le_trans)
qed

lemma set_without_unconsumed: "set (without_unconsumed i ts) = {t \<in> set ts. \<not> unused i t}"
  by (auto simp: without_unconsumed_def unused_def)

text \<open>Claiming a link by its hash changes the one link that has it.\<close>

lemma set_consumed:
  assumes "links_ok ts" and "k \<in> set ts" and "lt_tokenHash k = h" and "live_link now k"
  shows "set (snd (consumed_by_hash now h ts)) = insert (k\<lparr> lt_consumedAt := Some now \<rparr>) (set ts - {k})"
proof -
  have "distinct (map lt_tokenHash ts)" using assms(1) by (simp add: links_ok_def)
  from set_update_rows_key [OF this assms(2)] show ?thesis
    using assms(2-4) \<open>distinct _\<close>
    by (auto simp: consumed_by_hash_def set_update_rows distinct_map dest: inj_onD)
qed

lemma activations_ok_settled:
  assumes ok: "activations_ok us ts" and links: "links_ok ts'"
    and from_ts: "\<And>t. t \<in> set ts' \<Longrightarrow> t \<in> set ts \<and> \<not> unused i t \<or> lt_userId t = i \<and> lt_consumedAt t \<noteq> None"
    and keeps: "\<And>y. us_id (f y) = us_id y"
    and settled: "user_with us i (\<lambda>y. us_status (f y) \<noteq> PENDING_ACTIVATION)"
  shows "activations_ok (update_rows (\<lambda>y. us_id y = i) f us) ts'"
  unfolding activations_ok_def
proof (intro conjI links ballI)
  fix t assume t: "t \<in> set ts'"
  show "user_with (update_rows (\<lambda>y. us_id y = i) f us) (lt_userId t)
      (\<lambda>x. (us_status x = PENDING_ACTIVATION) = (lt_consumedAt t = None))"
  proof (cases "lt_userId t = i")
    case True
    with from_ts [OF t] have "lt_consumedAt t \<noteq> None" by (auto simp: unused_def)
    with True settled show ?thesis by (auto simp: user_with_update keeps elim: user_with_mono)
  next
    case False
    with from_ts [OF t] ok show ?thesis by (simp add: user_with_update keeps activations_ok_def)
  qed
qed

lemma settled_has_no_unused:
  assumes "users_ok us" and "activations_ok us ts" and "y \<in> set us" and "us_status y \<noteq> PENDING_ACTIVATION"
    and "t \<in> set ts"
  shows "\<not> unused (us_id y) t"
proof
  assume "unused (us_id y) t"
  with assms(2,5) obtain x where "x \<in> set us" "us_id x = us_id y" "us_status x = PENDING_ACTIVATION"
    by (fastforce simp: activations_ok_def unused_def user_with_def)
  with same_user [OF assms(1) _ assms(3)] assms(4) show False by auto
qed

lemma activations_ok_same_status:
  assumes "activations_ok us ts" and "\<And>y. us_id (f y) = us_id y" and "\<And>y. us_status (f y) = us_status y"
  shows "activations_ok (update_rows (\<lambda>y. us_id y = i) f us) ts"
  using assms by (auto simp: activations_ok_def user_with_update if_distrib [of us_status] cong: if_cong)

lemma activations_keep:
  assumes "account_effect limit a a'" and "users_ok (a_users a)" and "activations_ok (a_users a) (a_activations a)"
  shows "activations_ok (a_users a') (a_activations a')"
  using assms
proof (induction rule: account_effect.induct)
  case (registered i a email t now)
  have "user_with (a_users a @ [pending_user now i email]) i (\<lambda>x. us_status x = PENDING_ACTIVATION)"
    by (auto simp: user_with_def pending_user_def)
  with registered show ?case
    by (auto simp: activations_ok_def links_ok_issue fresh_link_def set_without_unconsumed intro: user_with_snoc)
next
  case (seeded i a email r t now hash)
  then show ?case by (auto simp: account_parts activations_ok_def intro: user_with_snoc)
next
  case (link_sent x a i t f now)
  have keep: "us_id (f y) = us_id y" "us_status (f y) = us_status y" for y using link_sent(6) by auto
  have "user_with (a_users a) i (\<lambda>y. us_status y = PENDING_ACTIVATION)" using link_sent(1-3) by (rule user_withI)
  then have "activations_ok (a_users a) (without_unconsumed i (a_activations a) @ [t])"
    using link_sent by (auto simp: activations_ok_def links_ok_issue fresh_link_def set_without_unconsumed)
  from activations_ok_same_status [OF this] keep show ?case by (simp add: account_parts)
next
  case (link_activated k a h now x t hash)
  from link_activated.prems(2) have links: "links_ok (a_activations a)" by (simp add: activations_ok_def)
  have "user_with (a_users a) (us_id x) (\<lambda>y. us_status (proven now hash True y) \<noteq> PENDING_ACTIVATION)"
    using link_activated(4) by (auto simp: user_with_def)
  with set_consumed [OF links link_activated(1-3)] links link_activated(5) show ?case
    by (simp add: account_parts) (rule activations_ok_settled [OF link_activated.prems(2)],
      auto simp: set_without_unconsumed links_ok_consume links_ok_delete)
next
  case (link_reset k a h now x t hash)
  have "user_with (a_users a) (us_id x)
      (\<lambda>y. us_status (proven now hash (us_status x = PENDING_ACTIVATION) y) \<noteq> PENDING_ACTIVATION)"
    using link_reset(4) by (auto simp: user_with_def)
  then show ?case using link_reset.prems(2)
    by (simp add: account_parts) (rule activations_ok_settled [OF link_reset.prems(2)],
      auto simp: set_without_unconsumed links_ok_delete activations_ok_def)
next
  case (password_changed x a i now hash)
  from activations_ok_same_status [OF password_changed.prems(2)] show ?case by (simp add: account_parts)
next
  case (suspended a x y now r t)
  have y: "y \<in> set (a_users a)" using suspended(1) by (simp add: may_act_on_def)
  show ?case unfolding account_parts
  proof (rule activations_ok_settled [OF suspended.prems(2)])
    show "user_with (a_users a) (us_id y) (\<lambda>z. us_status (z\<lparr> us_status := SUSPENDED, us_updatedAt := now \<rparr>) \<noteq> PENDING_ACTIVATION)"
      using y by (auto simp: user_with_def)
  qed (use suspended.prems settled_has_no_unused [OF suspended.prems y] suspended(3) in \<open>auto simp: activations_ok_def\<close>)
next
  case (reactivated a x y r now t)
  have y: "y \<in> set (a_users a)" using reactivated(1) by (simp add: may_act_on_def)
  show ?case unfolding account_parts
  proof (rule activations_ok_settled [OF reactivated.prems(2)])
    show "user_with (a_users a) (us_id y) (\<lambda>z. us_status (z\<lparr> us_status := ACTIVE, us_updatedAt := now \<rparr>) \<noteq> PENDING_ACTIVATION)"
      using y by (auto simp: user_with_def)
  qed (use reactivated.prems settled_has_no_unused [OF reactivated.prems y] reactivated(2) in \<open>auto simp: activations_ok_def\<close>)
qed (simp_all add: account_parts)

lemma resets_ok_update:
  "resets_ok us ts \<Longrightarrow> (\<And>y. us_id (f y) = us_id y) \<Longrightarrow> resets_ok (update_rows (\<lambda>y. us_id y = i) f us) ts"
  by (simp add: resets_ok_def user_with_update)

lemma resets_ok_snoc: "resets_ok us ts \<Longrightarrow> resets_ok (us @ [x]) ts"
  by (auto simp: resets_ok_def intro: user_with_snoc)

lemma resets_ok_delete: "resets_ok us ts \<Longrightarrow> resets_ok us (without_unconsumed i ts)"
  by (auto simp: resets_ok_def links_ok_delete set_without_unconsumed)

lemma resets_ok_consume: "resets_ok us ts \<Longrightarrow> resets_ok us (snd (consumed_by_hash now h ts))"
  by (auto simp: resets_ok_def links_ok_consume consumed_by_hash_def set_update_rows
      dest: links_ok_consume [of _ now h, unfolded consumed_by_hash_def])

lemmas resets_ok_intros = resets_ok_update resets_ok_snoc resets_ok_delete resets_ok_consume

lemma resets_keep:
  assumes "account_effect limit a a'" and "resets_ok (a_users a) (a_resets a)"
  shows "resets_ok (a_users a') (a_resets a')"
  using assms
proof (induction rule: account_effect.induct)
  case (reset_sent x a i t)
  then have "user_with (a_users a) i (\<lambda>_. True)" by (auto simp: user_with_def)
  with reset_sent show ?case
    by (auto simp: resets_ok_def links_ok_issue fresh_link_def set_without_unconsumed)
next
  case (link_sent x a i t f now)
  then have "us_id (f y) = us_id y" for y by auto
  with link_sent show ?case by (simp add: account_parts resets_ok_intros)
qed (simp_all add: account_parts resets_ok_intros)

section \<open>Sessions\<close>

lemma sessions_ok_users:
  assumes "sessions_ok us ss" and "\<And>s. s \<in> set ss \<Longrightarrow> session_ok us s \<Longrightarrow> session_ok us' s"
  shows "sessions_ok us' ss"
  using assms by (simp add: sessions_ok_def)

text \<open>Revoking what belongs to an account, or to a family, revokes whole families.\<close>

lemma revoke_simps [simp]:
  "rs_id (revoke now s) = rs_id s" "rs_tokenHash (revoke now s) = rs_tokenHash s"
  "rs_userId (revoke now s) = rs_userId s" "rs_familyId (revoke now s) = rs_familyId s"
  "rs_expiresAt (revoke now s) = rs_expiresAt s" "rs_rotatedAt (revoke now s) = rs_rotatedAt s"
  "rs_revokedAt (revoke now s) = Some now" "rs_steppedUpAt (revoke now s) = rs_steppedUpAt s"
  by (simp_all add: revoke_def)

lemma sessions_ok_map:
  assumes "sessions_ok us ss" and "\<And>s. rs_id (g s) = rs_id s" and "\<And>s. rs_tokenHash (g s) = rs_tokenHash s"
    and "\<And>s t. s \<in> set ss \<Longrightarrow> t \<in> set ss \<Longrightarrow> kin_ok s t \<Longrightarrow> kin_ok (g s) (g t)"
    and "\<And>s. s \<in> set ss \<Longrightarrow> session_ok us s \<Longrightarrow> session_ok us' (g s)"
  shows "sessions_ok us' (map g ss)"
  using assms by (simp add: sessions_ok_def comp_def)

lemma sessions_ok_revoke:
  assumes ok: "sessions_ok us ss" and whole: "\<And>s t. kin_ok s t \<Longrightarrow> rs_familyId s = rs_familyId t \<Longrightarrow> p s = p t"
  shows "sessions_ok us (update_rows (\<lambda>s. p s \<and> rs_revokedAt s = None) (revoke now) ss)"
  unfolding update_rows_def
proof (rule sessions_ok_map [OF ok])
  let ?f = "\<lambda>s. if p s \<and> rs_revokedAt s = None then revoke now s else s"
  show "kin_ok (?f s) (?f t)" if "kin_ok s t" for s t
    using that whole [OF that] by (auto simp: kin_ok_def)
  show "session_ok us (?f s)" if "session_ok us s" for s
    using that by (auto simp: session_ok_def elim: user_with_mono)
qed simp_all

text \<open>Whatever happens to an account, once its sessions are revoked they are in order.\<close>

lemma sessions_ok_revoked_update:
  assumes ok: "sessions_ok us ss" and "\<And>y. us_id (f y) = us_id y"
  shows "sessions_ok (update_rows (\<lambda>y. us_id y = i) f us)
    (update_rows (\<lambda>s. rs_userId s = i \<and> rs_revokedAt s = None) (revoke now) ss)"
proof (rule sessions_ok_users [OF sessions_ok_revoke [OF ok]])
  show "rs_userId s = i \<longleftrightarrow> rs_userId t = i" if "kin_ok s t" "rs_familyId s = rs_familyId t" for s t
    using that by (auto simp: kin_ok_def)
  fix s assume "s \<in> set (update_rows (\<lambda>s. rs_userId s = i \<and> rs_revokedAt s = None) (revoke now) ss)"
    and "session_ok us s"
  then show "session_ok (update_rows (\<lambda>y. us_id y = i) f us) s"
    using assms(2) by (auto simp: set_update_rows session_ok_def user_with_update elim!: user_with_mono split: if_splits)
qed

lemma session_ok_update:
  assumes "session_ok us s" and "\<And>y. us_id (f y) = us_id y"
    and "\<And>y. y \<in> set us \<Longrightarrow> us_id y = i \<Longrightarrow> us_status y = ACTIVE \<Longrightarrow> \<not> us_mustChangePassword y \<Longrightarrow>
      us_status (f y) = ACTIVE \<and> \<not> us_mustChangePassword (f y)"
  shows "session_ok (update_rows (\<lambda>y. us_id y = i) f us) s"
  using assms by (auto simp: session_ok_def user_with_update elim!: user_with_mono)

lemma sessions_ok_update:
  assumes "sessions_ok us ss" and "\<And>y. us_id (f y) = us_id y"
    and "\<And>y. y \<in> set us \<Longrightarrow> us_id y = i \<Longrightarrow> us_status y = ACTIVE \<Longrightarrow> \<not> us_mustChangePassword y \<Longrightarrow>
      us_status (f y) = ACTIVE \<and> \<not> us_mustChangePassword (f y)"
  shows "sessions_ok (update_rows (\<lambda>y. us_id y = i) f us) ss"
proof (rule sessions_ok_users [OF assms(1)])
  show "session_ok (update_rows (\<lambda>y. us_id y = i) f us) s" if "session_ok us s" for s
    using that assms(2,3) by (rule session_ok_update)
qed

lemma session_ok_snoc: "session_ok us s \<Longrightarrow> session_ok (us @ [x]) s"
  by (auto simp: session_ok_def intro: user_with_snoc)

text \<open>A change that leaves owner, family, expiry, rotation and revocation alone.\<close>

lemma sessions_ok_stepped_up:
  assumes ok: "sessions_ok us ss"
  shows "sessions_ok us (update_rows p (\<lambda>s. s\<lparr> rs_steppedUpAt := t \<rparr>) ss)"
  unfolding update_rows_def
  by (rule sessions_ok_map [OF ok]) (auto simp: kin_ok_def session_ok_def)

text \<open>A rotation: the presented session is marked, its successor takes its place.\<close>

lemma sessions_ok_rotate:
  assumes ok: "sessions_ok us ss" and s: "s \<in> set ss" "rs_rotatedAt s = None" "rs_revokedAt s = None"
    and s': "s' = s\<lparr> rs_id := i, rs_tokenHash := h, rs_issuedAt := now \<rparr>" "fresh_session ss s'"
  shows "sessions_ok us (update_rows (\<lambda>x. rs_id x = rs_id s) (\<lambda>x. x\<lparr> rs_rotatedAt := Some now \<rparr>) ss @ [s'])"
proof -
  let ?mark = "s\<lparr> rs_rotatedAt := Some now \<rparr>"
  let ?ss = "update_rows (\<lambda>x. rs_id x = rs_id s) (\<lambda>x. x\<lparr> rs_rotatedAt := Some now \<rparr>) ss"
  from ok have ids: "distinct (map rs_id ss)" by (simp add: sessions_ok_def)
  have rows: "set ?ss = insert ?mark (set ss - {s})" by (rule set_update_rows_key [OF ids s(1)])
  have kin: "kin_ok x y" if "x \<in> set ss" "y \<in> set ss" for x y using ok that by (simp add: sessions_ok_def)
  have other: "rs_id x \<noteq> rs_id s" if "x \<in> set ss - {s}" for x
    using ids s(1) that by (auto simp: distinct_map dest: inj_onD)
  have "kin_ok x y" if "x \<in> insert s' (insert ?mark (set ss - {s}))" "y \<in> insert s' (insert ?mark (set ss - {s}))" for x y
  proof -
    have new: "kin_ok s' z" "kin_ok z s'" "kin_ok ?mark z" "kin_ok z ?mark" if "z \<in> set ss - {s}" for z
      using kin [of s z] kin [of z s] s other [OF that] that by (auto simp: kin_ok_def s'(1))
    have "kin_ok s' s'" "kin_ok s' ?mark" "kin_ok ?mark s'" "kin_ok ?mark ?mark"
      using s by (auto simp: kin_ok_def s'(1))
    with new that kin show ?thesis by blast
  qed
  moreover have "session_ok us x" if "x \<in> insert s' (insert ?mark (set ss - {s}))" for x
    using ok s that by (auto simp: sessions_ok_def session_ok_def s'(1))
  moreover have "distinct (map rs_id (?ss @ [s']))" "distinct (map rs_tokenHash (?ss @ [s']))"
    using ok s'(2) by (auto simp: sessions_ok_def fresh_session_def)
  ultimately show ?thesis unfolding sessions_ok_def by (simp add: rows)
qed

lemma sessions_ok_start:
  assumes "sessions_ok us ss" and "session_ok us s" and "fresh_session ss s"
    and "rs_familyId s \<notin> rs_familyId ` set ss"
  shows "sessions_ok us (ss @ [s])"
proof -
  have "kin_ok s t \<and> kin_ok t s" if "t \<in> set ss" for t
    using assms(4) that by (auto simp: kin_ok_def image_iff)
  moreover have "kin_ok s s" by (simp add: kin_ok_def)
  ultimately show ?thesis using assms(1-3) by (simp add: sessions_ok_def fresh_session_def)
qed

lemma sessions_keep:
  assumes "account_effect limit a a'" and "users_ok (a_users a)" and "sessions_ok (a_users a) (a_sessions a)"
  shows "sessions_ok (a_users a') (a_sessions a')"
  using assms
proof (induction rule: account_effect.induct)
  case (registered i a email t now)
  then show ?case by (auto intro: sessions_ok_users session_ok_snoc)
next
  case (seeded i a email r t now hash)
  then show ?case by (auto simp: account_parts intro: sessions_ok_users session_ok_snoc)
next
  case (link_sent x a i t f now)
  then have "us_id (f y) = us_id y" "us_status (f y) = us_status y" "us_mustChangePassword (f y) = us_mustChangePassword y" for y
    by auto
  with link_sent.prems show ?case by (simp add: account_parts sessions_ok_update)
next
  case (signed_in x a s)
  have "session_ok (a_users a) s" using signed_in(1-4) by (auto simp: session_ok_def user_with_def)
  with signed_in show ?case by (simp add: sessions_ok_start)
next
  case (rotated s a s' i h now)
  then show ?case by (simp add: sessions_ok_rotate)
next
  case (family_revoked a now family)
  have "sessions_ok (a_users a) (update_rows (\<lambda>s. rs_familyId s = family \<and> rs_revokedAt s = None) (revoke now) (a_sessions a))"
    by (rule sessions_ok_revoke [OF family_revoked.prems(2)]) simp
  then show ?case by (simp add: account_parts)
next
  case (stepped_up a p now)
  then show ?case by (simp add: sessions_ok_stepped_up)
next
  case (reactivated a x y r now t)
  then show ?case by (simp add: account_parts sessions_ok_update)
qed (simp_all add: account_parts sessions_ok_revoked_update)

section \<open>Requests and the audit trail\<close>

lemma requests_ok_update:
  assumes ok: "requests_ok qs" and "\<And>q. rq_id (f q) = rq_id q" and "\<And>q. rq_targetUserId (f q) = rq_targetUserId q"
    and "\<And>q. q \<in> set qs \<Longrightarrow> p q \<Longrightarrow> request_row_ok (f q)" and "\<And>q. rq_status (f q) \<noteq> Req_PENDING"
  shows "requests_ok (update_rows p f qs)"
proof -
  have "length (filter (pending_for i) (update_rows p f qs)) \<le> length (filter (pending_for i) qs)" for i
    using assms(3,5) by (induction qs) (auto simp: update_rows_def pending_for_def)
  with ok have "length (filter (pending_for i) (update_rows p f qs)) \<le> 1" for i
    unfolding requests_ok_def by (meson le_trans)
  with ok assms(2,4) show ?thesis by (auto simp: requests_ok_def set_update_rows)
qed

lemma same_request:
  assumes "requests_ok qs" and "q \<in> set qs" and "w \<in> set qs" and "rq_id w = rq_id q"
  shows "w = q"
  using assms by (auto simp: requests_ok_def distinct_map dest: inj_onD)

lemma decided_simps [simp]:
  "rq_id (decided now st who why q) = rq_id q" "rq_targetUserId (decided now st who why q) = rq_targetUserId q"
  "rq_requestedBy (decided now st who why q) = rq_requestedBy q" "rq_role (decided now st who why q) = rq_role q"
  "rq_status (decided now st who why q) = st" "rq_decidedBy (decided now st who why q) = Some who"
  by (simp_all add: decided_def)

abbreviation expired_rows :: "time \<Rightarrow> ident \<Rightarrow> role_change_request list \<Rightarrow> role_change_request list" where
  "expired_rows now i \<equiv> update_rows (\<lambda>z. rq_targetUserId z = i \<and> rq_status z = Req_PENDING \<and> rq_expiresAt z \<le> now)
     (\<lambda>z. z\<lparr> rq_status := Req_EXPIRED \<rparr>)"

lemma requests_ok_expired: "requests_ok qs \<Longrightarrow> requests_ok (expired_rows now i qs)"
  by (rule requests_ok_update) (auto simp: requests_ok_def request_row_ok_def)

lemma requests_ok_snoc:
  assumes "requests_ok qs" and "request_row_ok q" and "rq_id q \<notin> rq_id ` set qs" and "rq_status q = Req_PENDING"
    and "\<not> (\<exists>z \<in> set qs. rq_targetUserId z = rq_targetUserId q \<and> rq_status z = Req_PENDING)"
  shows "requests_ok (qs @ [q])"
proof -
  have "filter (pending_for (rq_targetUserId q)) qs = []"
    using assms(5) by (auto simp: pending_for_def filter_empty_conv)
  then show ?thesis using assms(1-4) by (auto simp: requests_ok_def pending_for_def [of _ q])
qed

lemma role_requests_keep:
  assumes "account_effect limit a a'" and "requests_ok (a_requests a)"
  shows "requests_ok (a_requests a')"
  using assms
proof (induction rule: account_effect.induct)
  case (role_asked a x y q a1 now r)
  have "request_row_ok q" using role_asked(2,4-7) by (auto simp: request_row_ok_def role_change_ok_def)
  moreover have "rq_id q \<notin> rq_id ` set (a_requests a1)" using role_asked(3,8) by simp
  moreover have "requests_ok (a_requests a1)" using role_asked(3) role_asked.prems by (simp add: requests_ok_expired)
  ultimately show ?case using role_asked(4,6,9) by (simp add: account_parts requests_ok_snoc)
next
  case (role_changed_alone a x y role a1 now r roles t)
  then show ?case by (simp add: account_parts requests_ok_expired)
next
  case (role_approved a x z q y r now roles t why)
  have "request_row_ok (decided now Req_APPROVED (us_id x) why w)" if "w \<in> set (a_requests a)" "rq_id w = rq_id q" for w
    using same_request [OF role_approved.prems role_approved(3) that] role_approved(3,5-8) role_approved.prems
    by (auto simp: request_row_ok_def requests_ok_def)
  with role_approved.prems show ?case by (simp add: account_parts) (rule requests_ok_update, auto)
next
  case (role_rejected a x q r now why)
  have "request_row_ok (decided now Req_REJECTED (us_id x) why w)" if "w \<in> set (a_requests a)" for w
    using role_rejected.prems that by (auto simp: request_row_ok_def requests_ok_def)
  with role_rejected.prems show ?case by (simp add: account_parts) (rule requests_ok_update, auto)
qed (simp_all add: account_parts)

text \<open>A request that was approved stays as it is.\<close>

lemma trail_ok_kept:
  assumes "trail_ok qs rs" and "\<And>q. q \<in> set qs \<Longrightarrow> rq_status q = Req_APPROVED \<Longrightarrow> q \<in> set qs'"
  shows "trail_ok qs' rs"
  using assms unfolding trail_ok_def backs_def by blast

lemma trail_ok_snoc:
  "trail_ok qs rs \<Longrightarrow> (au_action r \<in> {ROLE_GRANT, ROLE_REVOKE} \<longrightarrow> au_approval r \<noteq> None) \<Longrightarrow>
     (au_approval r = Some SECOND_ADMIN \<longrightarrow> (\<exists>q \<in> set qs. backs r q)) \<Longrightarrow> trail_ok qs (rs @ [r])"
  by (auto simp: trail_ok_def)

lemma approved_kept_expired:
  "q \<in> set qs \<Longrightarrow> rq_status q = Req_APPROVED \<Longrightarrow> q \<in> set (expired_rows now i qs)"
  by (force simp: set_update_rows)

lemma approved_kept_decided:
  assumes "requests_ok qs" and "w \<in> set qs" and "rq_status w = Req_PENDING"
    and "q \<in> set qs" and "rq_status q = Req_APPROVED"
  shows "q \<in> set (update_rows (\<lambda>x. rq_id x = rq_id w) f qs)"
proof -
  have "rq_id q \<noteq> rq_id w" using same_request [OF assms(1,2,4)] assms(3,5) by auto
  with assms(4) show ?thesis by (force simp: set_update_rows)
qed

lemma trail_keep:
  assumes "account_effect limit a a'" and "requests_ok (a_requests a)" and "trail_ok (a_requests a) (a_audit a)"
  shows "trail_ok (a_requests a') (a_audit a')"
  using assms
proof (induction rule: account_effect.induct)
  case (role_asked a x y q a1 now r)
  have "trail_ok (a_requests a1 @ [q]) (a_audit a)"
    by (rule trail_ok_kept [OF role_asked.prems(2)]) (use role_asked(3) in \<open>simp add: approved_kept_expired\<close>)
  moreover have "a_audit a1 = a_audit a" using role_asked(3) by simp
  ultimately show ?case using role_asked(10) by (simp add: account_parts trail_ok_snoc audit_row_def)
next
  case (role_changed_alone a x y role a1 now r roles t)
  have "trail_ok (a_requests a1) (a_audit a)"
    by (rule trail_ok_kept [OF role_changed_alone.prems(2)]) (use role_changed_alone(4) in \<open>simp add: approved_kept_expired\<close>)
  moreover have "a_audit a1 = a_audit a" using role_changed_alone(4) by simp
  ultimately show ?case using role_changed_alone(5) by (simp add: account_parts trail_ok_snoc audit_row_def)
next
  case (role_approved a x z q y r now roles t why)
  let ?qs = "update_rows (\<lambda>w. rq_id w = rq_id q) (decided now Req_APPROVED (us_id x) why) (a_requests a)"
  have "trail_ok ?qs (a_audit a)"
    by (rule trail_ok_kept [OF role_approved.prems(2)])
      (rule approved_kept_decided [OF role_approved.prems(1) role_approved(3,4)])
  moreover have "decided now Req_APPROVED (us_id x) why q \<in> set ?qs" using role_approved(3) by (force simp: set_update_rows)
  then have "\<exists>q \<in> set ?qs. backs r q"
    using role_approved(6,10) by (rule_tac bexI) (auto simp: backs_def audit_row_def)
  ultimately show ?case using role_approved(10) by (simp add: account_parts trail_ok_snoc audit_row_def)
next
  case (role_rejected a x q r now why)
  have "trail_ok (update_rows (\<lambda>w. rq_id w = rq_id q) (decided now Req_REJECTED (us_id x) why) (a_requests a)) (a_audit a)"
    by (rule trail_ok_kept [OF role_rejected.prems(2)])
      (rule approved_kept_decided [OF role_rejected.prems(1) role_rejected(2,3)])
  with role_rejected(5) show ?case by (simp add: account_parts trail_ok_snoc audit_row_def)
qed (simp_all add: account_parts trail_ok_snoc audit_row_def)

section \<open>The bound on suspensions\<close>

lemma bounded_ok_other:
  "bounded_ok limit rs \<Longrightarrow> au_action r \<noteq> SUSPEND \<Longrightarrow> bounded_ok limit (rs @ [r])"
  by (simp add: bounded_ok_def suspension_within_def acted_since_def)

text \<open>
  The last of the rows of any hour was written when fewer than the limit came after its own hour's
  start; whichever order the transactions commit in, and whatever their clocks.
\<close>

lemma bounded_ok_suspension:
  assumes ok: "bounded_ok limit rs" and r: "au_actorId r = Some actor" "au_occurredAt r = now"
    and few: "int (length (filter (acted_since actor SUSPEND (now - hours_span 1)) rs)) < limit"
  shows "bounded_ok limit (rs @ [r])"
  unfolding bounded_ok_def
proof (intro allI)
  fix who t
  show "int (length (filter (suspension_within who t) (rs @ [r]))) \<le> max 0 limit"
  proof (cases "suspension_within who t r")
    case False
    with ok show ?thesis by (simp add: bounded_ok_def)
  next
    case True
    then have "who = actor" "now - hours_span 1 \<le> t"
      using r by (auto simp: suspension_within_def acted_since_def)
    then have "length (filter (suspension_within who t) rs) \<le> length (filter (acted_since actor SUSPEND (now - hours_span 1)) rs)"
      by (induction rs) (auto simp: suspension_within_def acted_since_def)
    with few True show ?thesis by simp
  qed
qed

lemma bounded_keep:
  assumes "account_effect limit a a'" and "bounded_ok limit (a_audit a)"
  shows "bounded_ok limit (a_audit a')"
  using assms
proof (induction rule: account_effect.induct)
  case (suspended a x y now r t)
  then show ?case
    by (simp add: account_parts bounded_ok_suspension [of _ _ _ "us_id x" now] audit_row_def suspensions_since_def)
qed (simp_all add: account_parts bounded_ok_other audit_row_def role_action_def)

section \<open>What was told\<close>

lemma told_ok_users:
  assumes "told_ok us evs"
    and "\<And>i. user_with us i (\<lambda>x. us_status x \<noteq> PENDING_ACTIVATION) \<Longrightarrow> user_with us' i (\<lambda>x. us_status x \<noteq> PENDING_ACTIVATION)"
  shows "told_ok us' evs"
  using assms by (simp add: told_ok_def)

lemma told_ok_update:
  assumes "told_ok us evs" and "\<And>y. us_id (f y) = us_id y"
    and "\<And>y. us_status y \<noteq> PENDING_ACTIVATION \<Longrightarrow> us_status (f y) \<noteq> PENDING_ACTIVATION"
  shows "told_ok (update_rows (\<lambda>y. us_id y = i) f us) evs"
proof (rule told_ok_users [OF assms(1)])
  fix j assume "user_with us j (\<lambda>x. us_status x \<noteq> PENDING_ACTIVATION)"
  then show "user_with (update_rows (\<lambda>y. us_id y = i) f us) j (\<lambda>x. us_status x \<noteq> PENDING_ACTIVATION)"
    using assms(2,3) by (auto simp: user_with_update elim!: user_with_mono)
qed

lemma told_ok_other: "told_ok us evs \<Longrightarrow> fst ev \<noteq> USER_ACTIVATED \<Longrightarrow> told_ok us (evs @ [ev])"
  by (simp add: told_ok_def announces_def)

text \<open>The first announcement of an account that was not activated before.\<close>

lemma told_ok_announce:
  assumes "told_ok us evs" and "\<not> user_with us i (\<lambda>x. us_status x \<noteq> PENDING_ACTIVATION)"
    and "told_ok us' evs" and "user_with us' i (\<lambda>x. us_status x \<noteq> PENDING_ACTIVATION)"
  shows "told_ok us' (evs @ [activation_event i t])"
proof -
  have "filter (announces i) evs = []" using assms(1,2) by (auto simp: told_ok_def)
  moreover have "announces j (activation_event i t) \<longleftrightarrow> j = i" for j
    by (auto simp: announces_def activation_event_def)
  ultimately show ?thesis using assms(3,4) by (auto simp: told_ok_def)
qed

lemma told_ok_proven:
  assumes "users_ok us" and "told_ok us evs" and "x \<in> set us" and "us_status x = PENDING_ACTIVATION"
  shows "told_ok (update_rows (\<lambda>y. us_id y = us_id x) (proven now hash True) us) (evs @ [activation_event (us_id x) t])"
proof (rule told_ok_announce [OF assms(2)])
  show "\<not> user_with us (us_id x) (\<lambda>x. us_status x \<noteq> PENDING_ACTIVATION)"
    using same_user [OF assms(1) _ assms(3)] assms(4) by (auto simp: user_with_def)
  show "told_ok (update_rows (\<lambda>y. us_id y = us_id x) (proven now hash True) us) evs"
    by (rule told_ok_update [OF assms(2)]) simp_all
  show "user_with (update_rows (\<lambda>y. us_id y = us_id x) (proven now hash True) us) (us_id x)
      (\<lambda>x. us_status x \<noteq> PENDING_ACTIVATION)"
    using assms(3) by (auto simp: user_with_update intro: user_withI)
qed

lemma told_keep:
  assumes "account_effect limit a a'" and "users_ok (a_users a)" and "told_ok (a_users a) (a_events a)"
  shows "told_ok (a_users a') (a_events a')"
  using assms
proof (induction rule: account_effect.induct)
  case (forgotten evs a)
  have "length (filter (announces i) evs) \<le> length (filter (announces i) (a_events a))" for i by (rule forgotten(1))
  moreover from this have "filter (announces i) (a_events a) \<noteq> []" if "filter (announces i) evs \<noteq> []" for i
    using that by (metis le_zero_eq length_0_conv)
  ultimately show ?case using forgotten.prems(2) by (simp add: told_ok_def) (meson le_trans)
next
  case (registered i a email t now)
  then show ?case by (auto intro: told_ok_users user_with_snoc)
next
  case (seeded i a email r t now hash)
  let ?us = "a_users a @ [(pending_user now i email)\<lparr> us_passwordHash := Some hash, us_status := ACTIVE,
      us_isSeededAdmin := True, us_mustChangePassword := True, us_activatedAt := Some now \<rparr>]"
  have "\<not> user_with (a_users a) i (\<lambda>x. us_status x \<noteq> PENDING_ACTIVATION)"
    using seeded(1) by (auto simp: user_with_def)
  moreover have "told_ok ?us (a_events a)" using seeded.prems(2) by (rule told_ok_users) (rule user_with_snoc)
  moreover have "user_with ?us i (\<lambda>x. us_status x \<noteq> PENDING_ACTIVATION)" by (simp add: user_with_def pending_user_def)
  ultimately have "told_ok ?us (a_events a @ [activation_event i t])" by (rule told_ok_announce [OF seeded.prems(2)])
  then show ?case by (simp add: account_parts)
next
  case (link_sent x a i t f now)
  then have "us_id (f y) = us_id y" "us_status (f y) = us_status y" for y by auto
  with link_sent.prems show ?case by (simp add: account_parts told_ok_update)
next
  case (link_activated k a h now x t hash)
  from told_ok_proven [OF link_activated.prems link_activated(4,6)] show ?case by (simp add: account_parts)
next
  case (link_reset k a h now x t hash)
  show ?case
  proof (cases "us_status x = PENDING_ACTIVATION")
    case True
    from told_ok_proven [OF link_reset.prems link_reset(4) True] True show ?thesis by (simp add: account_parts)
  next
    case False
    with link_reset.prems(2) show ?thesis by (simp add: account_parts told_ok_update)
  qed
qed (simp_all add: account_parts told_ok_update told_ok_other)

section \<open>The whole invariant\<close>

lemma accounts_keep: "account_effect limit a a' \<Longrightarrow> accounts_ok limit a \<Longrightarrow> accounts_ok limit a'"
  by (simp add: accounts_ok_def users_keep activations_keep resets_keep sessions_keep role_requests_keep trail_keep
      bounded_keep told_keep)

lemma accounts_ok_empty:
  "accounts_ok limit \<lparr> a_users = [], a_roles = [], a_activations = [], a_resets = [], a_sessions = [],
     a_audit = [], a_requests = [], a_events = [] \<rparr>"
  by (simp add: accounts_ok_def users_ok_def activations_ok_def links_ok_def resets_ok_def sessions_ok_def
      requests_ok_def trail_ok_def bounded_ok_def told_ok_def)

end
