(* ===== verification/User_Refinement.thy ===== *)
theory User_Refinement
  imports User_Invariants
begin

text \<open>
  Every transaction of the User Service is a movement of \<open>User_Effects\<close>. The ids stored are
  canonical, which is what makes the case of an id in a request harmless.
\<close>

named_theorems account_writes \<open>what a statement does to the accounts\<close>

section \<open>Statements\<close>

lemma update_user_accounts [account_writes]: "accounts (update_user i f db) = change_user i f (accounts db)"
  by (simp add: update_user_def change_user_def)

lemma update_sessions_accounts:
  "accounts (update_sessions p f db) = accounts db\<lparr> a_sessions := update_rows p f (refresh_sessions db) \<rparr>"
  by (simp add: update_sessions_def)

lemma revoke_accounts [account_writes]:
  "accounts (revokeFamily now fam db) = signed_out now (\<lambda>s. rs_familyId s = fam) (accounts db)"
  "accounts (revokeAllForUser now i db) = signed_out now (\<lambda>s. rs_userId s = i) (accounts db)"
  by (simp_all add: revokeFamily_def revokeAllForUser_def update_sessions_accounts signed_out_def)

lemma unconsumed_accounts [account_writes]:
  "accounts (deleteUnconsumedActivationTokens i db) = accounts db\<lparr> a_activations := without_unconsumed i (activation_tokens db) \<rparr>"
  "accounts (deleteUnconsumedPasswordResetTokens i db) = accounts db\<lparr> a_resets := without_unconsumed i (password_reset_tokens db) \<rparr>"
  by (simp_all add: deleteUnconsumedActivationTokens_def deleteUnconsumedPasswordResetTokens_def)

lemma user_event_accounts:
  assumes "user_event now i ty agg p corr db = Inr db'"
  shows "accounts db' = told (ty, agg, p) (accounts db)"
proof -
  obtain k where "insertOutboxEvent i now \<lparr> ne_id = Some i, ne_eventType = ty, ne_aggregateId = agg, ne_payload = p,
         ne_correlationId = corr, ne_causationId = None, ne_schemaVersion = None \<rparr> db = Inr (k, db')"
    using assms by (auto simp: user_event_def bindE_eq_Inr)
  then obtain v where "toOutboxRow i \<lparr> ne_id = Some i, ne_eventType = ty, ne_aggregateId = agg, ne_payload = p,
         ne_correlationId = corr, ne_causationId = None, ne_schemaVersion = None \<rparr> = Inr v"
    "db' = db\<lparr> outbox_events := outbox_events db @ [outbox_row_of now (outbox_seq db) v],
               outbox_seq := Suc (outbox_seq db) \<rparr>"
    by (rule insertOutboxEvent_Inr)
  then show ?thesis
    by (auto elim!: toOutboxRow_Inr simp: told_def row_event_def outbox_row_of_def)
qed

lemma record_audit_accounts:
  assumes "record_audit now i actor target action reason corr approval db = Inr db'"
  obtains r where "audit_row r now actor target action approval" and "au_id r = i"
    and "accounts db' = audited r (accounts db)"
  using assms that [of "audit_of now \<lparr> na_id = i, na_actorId = Some actor, na_targetUserId = target,
      na_action = action, na_reason = reason, na_correlationId = corr, na_approval = approval \<rparr>"]
  by (auto simp: record_audit_def insertAudit_def bindE_eq_Inr audited_def audit_row_def audit_of_def)

lemma insertAlert_accounts: "insertAlert now i kind actor details db = Inr db' \<Longrightarrow> accounts db' = accounts db"
  by (auto simp: insertAlert_def bindE_eq_Inr Let_def)

lemma insertRole_accounts:
  "insertRole r db = Inr db' \<Longrightarrow> accounts db' = accounts db\<lparr> a_roles := user_roles db @ [r] \<rparr>"
  by (auto simp: insertRole_def bindE_eq_Inr)

lemma insertProfile_accounts: "insertProfile i name db = Inr db' \<Longrightarrow> accounts db' = accounts db"
  by (auto simp: insertProfile_def bindE_eq_Inr Let_def)

lemma insertUserRow_cases:
  assumes "insertUserRow x db = Inr (inserted, db')"
  obtains (taken) "\<not> inserted" and "db' = db"
  | (inserted) "inserted" and "us_id x \<notin> us_id ` set (users db)"
      and "toLowerCase (us_email x) \<notin> (\<lambda>y. toLowerCase (us_email y)) ` set (users db)"
      and "db' = db\<lparr> users := users db @ [x] \<rparr>"
  using assms by (auto simp: insertUserRow_def split: if_splits)

lemma insertActivationToken_accounts:
  assumes "insertActivationToken now k i h ttl db = Inr db'"
  shows "lt_userId (new_link now k i h ttl) = i" and "fresh_link (activation_tokens db) (new_link now k i h ttl)"
    and "accounts db' = accounts db\<lparr> a_activations := activation_tokens db @ [new_link now k i h ttl] \<rparr>"
  using assms
  by (auto simp: insertActivationToken_def bindE_eq_Inr Let_def constraints_Inr link_token_checks_def
      fresh_link_def new_link_def)

lemma insertPasswordResetToken_accounts:
  assumes "insertPasswordResetToken now k i h ttl db = Inr db'"
  shows "lt_userId (new_link now k i h ttl) = i" and "fresh_link (password_reset_tokens db) (new_link now k i h ttl)"
    and "accounts db' = accounts db\<lparr> a_resets := password_reset_tokens db @ [new_link now k i h ttl] \<rparr>"
  using assms
  by (auto simp: insertPasswordResetToken_def bindE_eq_Inr Let_def constraints_Inr link_token_checks_def
      fresh_link_def new_link_def)

lemma find_Some_member: "find p xs = Some x \<Longrightarrow> x \<in> set xs \<and> p x"
  by (auto simp: find_Some_iff in_set_conv_nth)

lemma user_of_Some: "user_of db i = Some x \<Longrightarrow> x \<in> set (users db) \<and> us_id x = i"
  unfolding user_of_def by (rule row_of_Some)

section \<open>Registration and links\<close>

lemma issueActivationToken_accounts:
  assumes "issueActivationToken e now k i token db = Inr db'"
  obtains t where "lt_userId t = i" and "fresh_link (without_unconsumed i (activation_tokens db)) t"
    and "accounts db' = accounts db\<lparr> a_activations := without_unconsumed i (activation_tokens db) @ [t] \<rparr>"
  using insertActivationToken_accounts [OF assms [unfolded issueActivationToken_def]]
  by (intro that) (auto simp: account_writes deleteUnconsumedActivationTokens_def)

lemma lockPendingUser_Some:
  assumes "lockPendingUser db email = Some i"
  obtains x where "x \<in> set (users db)" and "us_id x = i" and "us_status x = PENDING_ACTIVATION"
  using assms by (auto simp: lockPendingUser_def dest!: find_Some_member)

lemma lockResettableUser_Some:
  assumes "lockResettableUser db email = Some i"
  obtains x where "x \<in> set (users db)" and "us_id x = i" and "us_status x \<noteq> SUSPENDED"
  using assms by (auto simp: lockResettableUser_def dest!: find_Some_member)

lemma insertUser_cases:
  assumes "insertUser now i email name db = Inr (inserted, db')"
  obtains (taken) "\<not> inserted" and "db' = db"
  | (inserted) "inserted" and "i \<notin> us_id ` set (users db)"
      and "toLowerCase email \<notin> (\<lambda>y. toLowerCase (us_email y)) ` set (users db)"
      and "accounts db' = accounts db\<lparr> a_users := users db @ [pending_user now i email],
             a_roles := user_roles db @ [role_row now i STUDENT None] \<rparr>"
proof -
  from assms obtain db1 b where first: "insertUserRow (pending_user now i email) db = Inr (b, db1)"
    and rest: "if b then \<exists>db2. insertRole (role_row now i STUDENT None) db1 = Inr db2 \<and>
        insertProfile i name db2 = Inr db' \<and> inserted else \<not> inserted \<and> db' = db1"
    by (auto simp: insertUser_def bindE_eq_Inr split: if_splits)
  from first show thesis
  proof (cases rule: insertUserRow_cases)
    case taken
    with rest show thesis by (intro that(1)) auto
  next
    case inserted
    with rest obtain db2 where "insertRole (role_row now i STUDENT None) db1 = Inr db2"
      "insertProfile i name db2 = Inr db'" "inserted" by auto
    with inserted show thesis
      by (intro that(2)) (auto dest!: insertRole_accounts insertProfile_accounts simp: pending_user_def)
  qed
qed

lemma reviveExpiredRegistration_cases:
  assumes "reviveExpiredRegistration now email name db = Inr (r, db')"
  obtains (none) "r = None" and "db' = db"
  | (revived) i x where "r = Some i" and "x \<in> set (users db)" and "us_id x = i" and "us_status x = PENDING_ACTIVATION"
      and "accounts db' = change_user i (\<lambda>y. y\<lparr> us_passwordHash := None, us_updatedAt := now \<rparr>) (accounts db)"
proof (cases "lockPendingUser db email")
  case None
  with assms show thesis by (intro none) (auto simp: reviveExpiredRegistration_def)
next
  case (Some i)
  then obtain x where x: "x \<in> set (users db)" "us_id x = i" "us_status x = PENDING_ACTIVATION"
    by (rule lockPendingUser_Some)
  from assms Some consider "r = None \<and> db' = db" | "r = Some i \<and>
      accounts db' = change_user i (\<lambda>y. y\<lparr> us_passwordHash := None, us_updatedAt := now \<rparr>) (accounts db)"
    by (auto simp: reviveExpiredRegistration_def Let_def bindE_eq_Inr account_writes split: if_splits)
  then show thesis by cases (use x none revived in auto)
qed

lemma register_effect:
  assumes "registerUsing e u now token email name db = Inr (r, db')"
  shows "account_effect limit (accounts db) (accounts db')"
proof -
  let ?i = "randomUUID u 0"
  from assms obtain b db1 where first: "insertUser now ?i email name db = Inr (b, db1)"
    and rest: "if b then \<exists>r'. issueActivationToken e now (randomUUID u 1) ?i token db1 = Inr db' \<and> r = r'
      else \<exists>db2. reviveExpiredRegistration now email name db1 = Inr (r, db2) \<and>
        (case r of None \<Rightarrow> db' = db2 | Some i \<Rightarrow> issueActivationToken e now (randomUUID u 1) i token db2 = Inr db')"
    by (auto simp: registerUsing_def Let_def bindE_eq_Inr split: if_splits option.splits)
  from first show ?thesis
  proof (cases rule: insertUser_cases)
    case inserted
    with rest have "issueActivationToken e now (randomUUID u 1) ?i token db1 = Inr db'" by simp
    then obtain t where t: "lt_userId t = ?i" "fresh_link (without_unconsumed ?i (activation_tokens db1)) t"
      "accounts db' = accounts db1\<lparr> a_activations := without_unconsumed ?i (activation_tokens db1) @ [t] \<rparr>"
      by (rule issueActivationToken_accounts)
    have same: "activation_tokens db1 = activation_tokens db"
      using arg_cong [OF inserted(4), of a_activations] by simp
    show ?thesis
      using account_effect.registered [of ?i "accounts db" email t limit now] inserted t same by simp
  next
    case taken
    with rest obtain db2 where revive: "reviveExpiredRegistration now email name db = Inr (r, db2)"
      and last: "case r of None \<Rightarrow> db' = db2 | Some i \<Rightarrow> issueActivationToken e now (randomUUID u 1) i token db2 = Inr db'"
      by auto
    from revive consider (none) "r = None" "db2 = db"
      | (revived) i x where "r = Some i" "x \<in> set (users db)" "us_id x = i" "us_status x = PENDING_ACTIVATION"
          "accounts db2 = change_user i (\<lambda>y. y\<lparr> us_passwordHash := None, us_updatedAt := now \<rparr>) (accounts db)"
      by (rule reviveExpiredRegistration_cases) auto
    then show ?thesis
    proof cases
      case none
      with last show ?thesis by (simp add: account_effect.unmoved)
    next
      case (revived i x)
      with last obtain t where t: "lt_userId t = i" "fresh_link (without_unconsumed i (activation_tokens db2)) t"
        "accounts db' = accounts db2\<lparr> a_activations := without_unconsumed i (activation_tokens db2) @ [t] \<rparr>"
        by (auto elim: issueActivationToken_accounts)
      have "activation_tokens db2 = activation_tokens db"
        using arg_cong [OF revived(5), of a_activations] by (simp add: change_user_def)
      with t revived show ?thesis
        using account_effect.link_sent [of x "accounts db" i t _ now limit] by simp
    qed
  qed
qed

lemma resend_effect:
  assumes "resendUsing e u now token email db = Inr (r, db')"
  shows "account_effect limit (accounts db) (accounts db')"
proof (cases "lockPendingUser db email")
  case None
  with assms show ?thesis by (simp add: resendUsing_def account_effect.unmoved)
next
  case (Some i)
  then obtain x where x: "x \<in> set (users db)" "us_id x = i" "us_status x = PENDING_ACTIVATION"
    by (rule lockPendingUser_Some)
  from assms Some have "issueActivationToken e now (randomUUID u 0) i token db = Inr db'"
    by (auto simp: resendUsing_def bindE_eq_Inr)
  then obtain t where t: "lt_userId t = i" "fresh_link (without_unconsumed i (activation_tokens db)) t"
    "accounts db' = accounts db\<lparr> a_activations := without_unconsumed i (activation_tokens db) @ [t] \<rparr>"
    by (rule issueActivationToken_accounts)
  have "change_user i (\<lambda>y. y) (accounts db) = accounts db"
    by (simp add: change_user_def update_rows_def accounts_def)
  with t x show ?thesis using account_effect.link_sent [of x "accounts db" i t "\<lambda>y. y" now limit] by simp
qed

lemma reset_request_effect:
  assumes "resetRequestUsing e u now token email db = Inr (r, db')"
  shows "account_effect limit (accounts db) (accounts db')"
proof (cases "lockResettableUser db email")
  case None
  with assms show ?thesis by (simp add: resetRequestUsing_def account_effect.unmoved)
next
  case (Some i)
  then obtain x where x: "x \<in> set (users db)" "us_id x = i" "us_status x \<noteq> SUSPENDED"
    by (rule lockResettableUser_Some)
  from assms Some obtain k h ttl where
    "insertPasswordResetToken now k i h ttl (deleteUnconsumedPasswordResetTokens i db) = Inr db'"
    by (auto simp: resetRequestUsing_def bindE_eq_Inr)
  from insertPasswordResetToken_accounts [OF this] x show ?thesis
    using account_effect.reset_sent [of x "accounts db" i "new_link now k i h ttl" limit]
    by (simp add: account_writes deleteUnconsumedPasswordResetTokens_def)
qed

section \<open>Using a link\<close>

lemma setPasswordFromEmailedLink_accounts:
  assumes "setPasswordFromEmailedLink now clock k i status hash corr db = Inr db'"
    and "x \<in> set (users db)" and "us_id x = i" and "us_status x = status"
  shows "accounts db' = inbox_proven now (iso clock) i hash (status = PENDING_ACTIVATION) (accounts db)"
proof (cases "status = PENDING_ACTIVATION")
  case False
  with assms(1) show ?thesis
    by (auto simp: setPasswordFromEmailedLink_def inbox_proven_def setPassword_def account_writes Let_def
        deleteUnconsumedPasswordResetTokens_def deleteUnconsumedActivationTokens_def change_user_def update_user_def)
next
  case True
  have "\<exists>x \<in> set (users (setPassword now i hash db)). us_id x = i \<and> us_status x = PENDING_ACTIVATION"
    using assms(2-4) True
    by (intro bexI [of _ "x\<lparr> us_passwordHash := Some hash, us_mustChangePassword := False, us_updatedAt := now \<rparr>"])
      (auto simp: setPassword_def update_user_def set_update_rows)
  then have "fst (markActivated now i (setPassword now i hash db))" by (simp add: markActivated_def)
  with True assms(1) obtain db1 db3 where "markActivated now i (setPassword now i hash db) = (True, db1)"
    and told: "user_event now k USER_ACTIVATED i (UserActivatedPayload i (iso clock)) corr db1 = Inr db3"
    and "db' = revokeAllForUser now i (deleteUnconsumedPasswordResetTokens i (deleteUnconsumedActivationTokens i db3))"
    by (auto simp: setPasswordFromEmailedLink_def Let_def bindE_eq_Inr split: prod.splits)
  moreover from this have "accounts db1 = change_user i (\<lambda>x. x\<lparr> us_status := ACTIVE, us_activatedAt := Some now, us_updatedAt := now \<rparr>)
      (change_user i (\<lambda>x. x\<lparr> us_passwordHash := Some hash, us_mustChangePassword := False, us_updatedAt := now \<rparr>) (accounts db))"
    by (auto simp: markActivated_def setPassword_def account_writes split: if_splits)
  moreover note user_event_accounts [OF told]
  moreover have "activation_tokens db3 = a_activations (accounts db3)" "password_reset_tokens db3 = a_resets (accounts db3)" by simp_all
  ultimately show ?thesis using True
    by (simp add: inbox_proven_def Let_def account_writes deleteUnconsumedActivationTokens_def activation_event_def
        del: accounts_sel(3,4))
qed

lemma consumed_by_hash_Some:
  assumes "consumed_by_hash now h ts = (Some i, ts')"
  obtains k where "k \<in> set ts" and "lt_tokenHash k = h" and "live_link now k" and "lt_userId k = i"
  using assms by (auto simp: consumed_by_hash_def dest!: find_Some_member)

text \<open>Of the links with one hash there is one, so the account locked is the one of the link claimed.\<close>

lemma locked_is_consumed:
  assumes "distinct (map lt_tokenHash ts)" and "k \<in> set ts" and "lt_tokenHash k = h"
    and "map_option us_status (Option.bind (row_of lt_tokenHash h ts) (\<lambda>t. user_of db (lt_userId t))) = Some status"
  obtains x where "x \<in> set (users db)" and "us_id x = lt_userId k" and "us_status x = status"
  using assms row_of_member [OF assms(1,2)] by (auto dest!: user_of_Some)

lemma locked_account:
  assumes "distinct (map lt_tokenHash ts)" and "k \<in> set ts" and "user_with (users db) (lt_userId k) (\<lambda>_. True)"
    and "lt_tokenHash k = h"
  obtains x where "Option.bind (row_of lt_tokenHash h ts) (\<lambda>t. user_of db (lt_userId t)) = Some x"
    and "x \<in> set (users db)" and "us_id x = lt_userId k"
proof -
  have "row_of lt_tokenHash h ts = Some k" using row_of_member [OF assms(1,2)] assms(4) by simp
  moreover have "user_of db (lt_userId k) \<noteq> None"
    using assms(3) unfolding user_of_def row_of_None user_with_def by (metis image_eqI)
  then obtain x where "user_of db (lt_userId k) = Some x" by blast
  ultimately show thesis using user_of_Some [of db] by (intro that [of x]) auto
qed

lemma consumed_None: "fst (consumed_by_hash now h ts) = None \<Longrightarrow> snd (consumed_by_hash now h ts) = ts"
  by (auto simp: consumed_by_hash_def find_None_iff intro!: update_rows_none)

text \<open>A link is claimed with its account locked, or nothing is written.\<close>

lemma claimed_link:
  assumes "links_ok ts" and "\<forall>t \<in> set ts. user_with (users db) (lt_userId t) (\<lambda>_. True)"
  obtains (unclaimed) "consumed_by_hash now h ts = (None, ts)"
  | (claimed) k x ts' where "consumed_by_hash now h ts = (Some (us_id x), ts')" and "k \<in> set ts" and "lt_tokenHash k = h"
      and "live_link now k" and "x \<in> set (users db)" and "us_id x = lt_userId k"
      and "map_option us_status (Option.bind (row_of lt_tokenHash h ts) (\<lambda>t. user_of db (lt_userId t))) = Some (us_status x)"
proof (cases "consumed_by_hash now h ts")
  case (Pair who ts')
  show thesis
  proof (cases who)
    case None
    with Pair consumed_None [of now h ts] show thesis by (intro unclaimed) auto
  next
    case (Some i)
    with Pair obtain k where k: "k \<in> set ts" "lt_tokenHash k = h" "live_link now k" "lt_userId k = i"
      by (auto elim: consumed_by_hash_Some)
    have "distinct (map lt_tokenHash ts)" using assms(1) by (simp add: links_ok_def)
    from locked_account [OF this k(1) bspec [OF assms(2) k(1)] k(2)] obtain x
      where "Option.bind (row_of lt_tokenHash h ts) (\<lambda>t. user_of db (lt_userId t)) = Some x"
        "x \<in> set (users db)" "us_id x = lt_userId k" .
    with k Pair Some show thesis by (intro claimed [of x ts' k]) auto
  qed
qed

lemma accounts_ok_links:
  assumes "accounts_ok limit (accounts db)"
  shows "links_ok (activation_tokens db)" and "links_ok (password_reset_tokens db)"
    and "\<forall>t \<in> set (activation_tokens db). user_with (users db) (lt_userId t) (\<lambda>_. True)"
    and "\<forall>t \<in> set (password_reset_tokens db). user_with (users db) (lt_userId t) (\<lambda>_. True)"
  using assms by (auto simp: accounts_ok_def activations_ok_def resets_ok_def elim: user_with_mono)

lemma activate_effect:
  assumes "activateUsing u now clock h hash corr db = Inr (r, db')" and ok: "accounts_ok limit (accounts db)"
  shows "account_effect limit (accounts db) (accounts db')"
  using accounts_ok_links(1,3) [OF ok]
proof (cases rule: claimed_link [where now = now and h = h])
  case unclaimed
  then have "accounts db' = accounts db"
    using assms(1) by (auto simp: activateUsing_def consumeActivationToken_def bindE_eq_Inr accounts_def)
  then show ?thesis by (simp add: account_effect.unmoved)
next
  case (claimed k x ts)
  then have pending: "us_status x = PENDING_ACTIVATION"
    and "setPasswordFromEmailedLink now clock (randomUUID u 0) (us_id x) (us_status x) hash corr (db\<lparr> activation_tokens := ts \<rparr>) = Inr db'"
    using assms(1) by (auto simp: activateUsing_def consumeActivationToken_def lockUserOfToken_def bindE_eq_Inr split: if_splits)
  from setPasswordFromEmailedLink_accounts [OF this(2), of x] claimed(5) pending
  have "accounts db' = inbox_proven now (iso clock) (us_id x) hash True (accounts db\<lparr> a_activations := ts \<rparr>)" by simp
  then show ?thesis
    using account_effect.link_activated [of k "accounts db" h now x limit "iso clock" hash] claimed(1-6) pending by simp
qed

lemma confirm_reset_effect:
  assumes "confirmResetUsing u now clock h hash corr db = Inr (r, db')" and ok: "accounts_ok limit (accounts db)"
  shows "account_effect limit (accounts db) (accounts db')"
  using accounts_ok_links(2,4) [OF ok]
proof (cases rule: claimed_link [where now = now and h = h])
  case unclaimed
  with assms(1) show ?thesis by (auto simp: confirmResetUsing_def consumePasswordResetToken_def)
next
  case (claimed k x ts)
  then have active: "us_status x \<noteq> SUSPENDED"
    and "setPasswordFromEmailedLink now clock (randomUUID u 0) (us_id x) (us_status x) hash corr (db\<lparr> password_reset_tokens := ts \<rparr>) = Inr db'"
    using assms(1) by (auto simp: confirmResetUsing_def consumePasswordResetToken_def lockUserOfPasswordResetToken_def
        bindE_eq_Inr split: if_splits)
  from setPasswordFromEmailedLink_accounts [OF this(2), of x] claimed(5)
  have "accounts db' = inbox_proven now (iso clock) (us_id x) hash (us_status x = PENDING_ACTIVATION) (accounts db\<lparr> a_resets := ts \<rparr>)" by simp
  then show ?thesis
    using account_effect.link_reset [of k "accounts db" h now x limit "iso clock" hash] claimed(1-6) active by simp
qed

section \<open>Sessions\<close>

lemma insertSession_accounts:
  assumes "insertSession s db = Inr db'"
  shows "accounts db' = accounts db\<lparr> a_sessions := refresh_sessions db @ [s] \<rparr>"
    and "rs_id s \<notin> rs_id ` set (refresh_sessions db)" and "rs_tokenHash s \<notin> rs_tokenHash ` set (refresh_sessions db)"
  using assms by (auto simp: insertSession_def bindE_eq_Inr constraints_Inr refresh_session_checks_def)

lemma login_effect:
  assumes "insertIfLoginable now i family user h ttl hash db = Inr (r, db')"
    and "family \<notin> rs_familyId ` set (refresh_sessions db)"
  shows "account_effect limit (accounts db) (accounts db')"
proof (cases "loginable db user hash")
  case False
  with assms(1) show ?thesis by (simp add: insertIfLoginable_def account_effect.unmoved)
next
  case True
  then obtain x where x: "x \<in> set (users db)" "us_id x = user" "us_status x = ACTIVE" "\<not> us_mustChangePassword x"
    by (auto simp: loginable_def)
  let ?s = "\<lparr> rs_id = i, rs_familyId = family, rs_userId = user, rs_tokenHash = h, rs_issuedAt = now,
      rs_expiresAt = now + days_span ttl, rs_rotatedAt = None, rs_revokedAt = None, rs_steppedUpAt = None \<rparr>"
  from True assms(1) have "insertSession ?s db = Inr db'" by (auto simp: insertIfLoginable_def bindE_eq_Inr)
  from insertSession_accounts [OF this] x assms(2) show ?thesis
    using account_effect.signed_in [of x "accounts db" ?s limit] by (simp add: fresh_session_def)
qed

lemma lockByHash_Some:
  assumes "lockByHash now db h = Some row" and "distinct (map rs_tokenHash (refresh_sessions db))"
  obtains s x where "s \<in> set (refresh_sessions db)" and "rs_tokenHash s = h" and "x \<in> set (users db)"
    and "us_id x = rs_userId s" and "ls_id row = rs_id s" and "ls_familyId row = rs_familyId s"
    and "ls_userId row = rs_userId s" and "ls_rotated row \<longleftrightarrow> rs_rotatedAt s \<noteq> None"
    and "ls_revoked row \<longleftrightarrow> rs_revokedAt s \<noteq> None" and "ls_expired row \<longleftrightarrow> rs_expiresAt s \<le> now"
    and "ls_userStatus row = us_status x"
    and "ls_mustChangePassword row = us_mustChangePassword x"
  using assms by (auto simp: lockByHash_def bind_eq_Some_conv dest!: row_of_Some user_of_Some)

lemma refresh_effect:
  assumes run: "refreshUsing e now i token h db = Inr (r, db')" and ok: "accounts_ok limit (accounts db)"
  shows "account_effect limit (accounts db) (accounts db')"
proof (cases "lockByHash now db h")
  case None
  with run show ?thesis by (simp add: refreshUsing_def account_effect.unmoved)
next
  case (Some row)
  have hashes: "distinct (map rs_tokenHash (refresh_sessions db))" and ids: "distinct (map rs_id (refresh_sessions db))"
    using ok by (simp_all add: accounts_ok_def sessions_ok_def)
  from Some hashes obtain s x where s: "s \<in> set (refresh_sessions db)" "ls_id row = rs_id s" "ls_familyId row = rs_familyId s"
    "ls_rotated row \<longleftrightarrow> rs_rotatedAt s \<noteq> None" "ls_revoked row \<longleftrightarrow> rs_revokedAt s \<noteq> None"
    by (rule lockByHash_Some)
  from Some run consider "db' = db" | "db' = revokeFamily now (ls_familyId row) db"
    | "\<not> ls_rotated row" "\<not> ls_revoked row"
      "rotate_session now i (sha256Hex e token) (ls_id row) (markRotated now (ls_id row) db) = Inr db'"
    by (auto simp: refreshUsing_def bindE_eq_Inr split: if_splits)
  then show ?thesis
  proof cases
    case 3
    let ?db = "markRotated now (ls_id row) db"
    let ?mark = "s\<lparr> rs_rotatedAt := Some now \<rparr>"
    let ?s = "s\<lparr> rs_id := i, rs_tokenHash := sha256Hex e token, rs_issuedAt := now \<rparr>"
    have unrotated: "rs_rotatedAt s = None" "rs_revokedAt s = None" using 3(1,2) s(4,5) by auto
    have marked: "refresh_sessions ?db = update_rows (\<lambda>x. rs_id x = rs_id s) (\<lambda>x. x\<lparr> rs_rotatedAt := Some now \<rparr>) (refresh_sessions db)"
      by (simp add: markRotated_def update_sessions_def s(2))
    have "session_of ?db (rs_id s) = Some ?mark"
      using row_of_member [OF ids s(1)] by (simp add: session_of_def marked row_of_update_rows)
    with 3(3) have "insertSession (?mark\<lparr> rs_id := i, rs_tokenHash := sha256Hex e token, rs_issuedAt := now,
        rs_rotatedAt := None, rs_revokedAt := None \<rparr>) ?db = Inr db'"
      by (simp add: rotate_session_def s(2))
    moreover have "?mark\<lparr> rs_id := i, rs_tokenHash := sha256Hex e token, rs_issuedAt := now,
        rs_rotatedAt := None, rs_revokedAt := None \<rparr> = ?s" using unrotated by simp
    ultimately have "insertSession ?s ?db = Inr db'" by simp
    from insertSession_accounts [OF this]
    show ?thesis using account_effect.rotated [where s = s and a = "accounts db" and s' = ?s and i = i and
        h = "sha256Hex e token" and now = now and limit = limit] s(1) unrotated
      by (simp add: fresh_session_def marked) (simp add: markRotated_def update_sessions_accounts s(2))
  qed (simp_all add: account_writes account_effect.unmoved account_effect.family_revoked)
qed

lemma change_password_effect:
  assumes "changePasswordUsing now i expected hash db = Inr (r, db')"
  shows "account_effect limit (accounts db) (accounts db')"
proof (cases "\<exists>x \<in> set (users db). us_id x = i \<and> us_passwordHash x = Some expected")
  case False
  with assms show ?thesis by (simp add: changePasswordUsing_def replacePassword_def account_effect.unmoved)
next
  case True
  then obtain x where x: "x \<in> set (users db)" "us_id x = i" "us_passwordHash x \<noteq> None" by auto
  from True assms have "db' = deleteUnconsumedPasswordResetTokens i (revokeAllForUser now i (setPassword now i hash db))"
    by (simp add: changePasswordUsing_def replacePassword_def)
  then show ?thesis using account_effect.password_changed [of x "accounts db" i limit now hash] x
    by (simp add: account_writes setPassword_def update_user_def revokeAllForUser_def update_sessions_def
        change_user_def signed_out_def)
qed

lemma stepped_up_effect:
  "markSteppedUp now sid i db = (marked, db') \<Longrightarrow> account_effect limit (accounts db) (accounts db')"
  using account_effect.stepped_up [of limit "accounts db"
      "\<lambda>s. rs_id s = sid \<and> rs_userId s = i \<and> rs_revokedAt s = None" now]
  by (auto simp: markSteppedUp_def Let_def update_sessions_accounts)

lemma logout_effect: "account_effect limit (accounts db) (accounts (logout e now presented db))"
  by (auto simp: logout_def revokeFamilyByTokenHash_def account_writes account_effect.unmoved
      account_effect.family_revoked split: option.splits)

section \<open>Administration\<close>

lemma holds_admin_accounts: "holds_admin (accounts db) i \<longleftrightarrow> ADMIN \<in> set (rolesOf db i)"
  by (simp add: holds_admin_def rolesOf_def)

lemma lockAdminIds_accounts: "i \<in> set (lockAdminIds db) \<longleftrightarrow> holds_admin (accounts db) i"
  by (auto simp: lockAdminIds_def holds_admin_def)

lemma accounts_ok_ids: "accounts_ok limit (accounts db) \<Longrightarrow> x \<in> set (users db) \<Longrightarrow> toLowerCase (us_id x) = us_id x"
  by (auto simp: accounts_ok_def users_ok_def user_ok_def)

lemma accounts_ok_same:
  "accounts_ok limit (accounts db) \<Longrightarrow> x \<in> set (users db) \<Longrightarrow> y \<in> set (users db) \<Longrightarrow> us_id x = us_id y \<Longrightarrow> x = y"
  by (auto simp: accounts_ok_def intro: same_user)

text \<open>A locked account is a row of the table, under its stored id.\<close>

lemma lockUsers_Some:
  assumes "lockUsers db ids k = Some lu" and "accounts_ok limit (accounts db)"
  obtains x where "x \<in> set (users db)" and "us_id x = k" and "lu_id lu = k" and "canonicalId lu = k"
    and "lu_status lu = us_status x" and "lu_isSeededAdmin lu = us_isSeededAdmin x"
    and "lu_roles lu = rolesOf db k" and "is_admin lu \<longleftrightarrow> holds_admin (accounts db) k"
proof -
  from assms(1) obtain x where x: "x \<in> set (users db)" "toLowerCase (us_id x) = k" "lu = locked_user_of db x"
    by (auto simp: lockUsers_def dest!: find_Some_member)
  then have "us_id x = k" "toLowerCase k = k" using accounts_ok_ids [OF assms(2) x(1)] by simp_all
  with x(1,3) show thesis
    by (intro that [of x]) (simp_all add: locked_user_of_def canonicalId_def is_admin_def holds_admin_accounts)
qed

lemma activeAdmin_Inr:
  "activeAdmin lu = Inr x \<longleftrightarrow> lu = Some x \<and> lu_status x = ACTIVE \<and> is_admin x"
  by (auto simp: activeAdmin_def split: option.splits)

lemma lockActorAndTarget_Inr:
  assumes "lockActorAndTarget db actorId targetId = Inr (actor, target)" and ok: "accounts_ok limit (accounts db)"
  obtains x y where "active_admin (accounts db) x" and "us_id x = actorId" and "lu_isSeededAdmin actor = us_isSeededAdmin x"
    and "y \<in> set (users db)" and "canonicalId target = us_id y" and "lu_status target = us_status y"
    and "lu_roles target = rolesOf db (us_id y)" and "is_admin target \<longleftrightarrow> holds_admin (accounts db) (us_id y)"
proof -
  from assms(1) have a: "lockUsers db [actorId, targetId] actorId = Some actor" "lu_status actor = ACTIVE" "is_admin actor"
    and t: "lockUsers db [actorId, targetId] (toLowerCase targetId) = Some target"
    by (auto simp: lockActorAndTarget_def Let_def bindE_eq_Inr activeAdmin_Inr split: option.splits)
  obtain x where x: "x \<in> set (users db)" "us_id x = actorId" "lu_status actor = us_status x"
    "lu_isSeededAdmin actor = us_isSeededAdmin x" "is_admin actor \<longleftrightarrow> holds_admin (accounts db) actorId"
    by (rule lockUsers_Some [OF a(1) ok])
  obtain y where y: "y \<in> set (users db)" "us_id y = toLowerCase targetId" "canonicalId target = toLowerCase targetId"
    "lu_status target = us_status y" "lu_roles target = rolesOf db (toLowerCase targetId)"
    "is_admin target \<longleftrightarrow> holds_admin (accounts db) (toLowerCase targetId)"
    by (rule lockUsers_Some [OF t ok])
  have "active_admin (accounts db) x" using x a(2,3) by (simp add: active_admin_def)
  then show thesis by (rule that [of x y]) (simp_all only: x y)
qed

lemma guardAdminTarget_Inr: "guardAdminTarget e now db actor sid = Inr v \<Longrightarrow> lu_isSeededAdmin actor"
  by (auto simp: guardAdminTarget_def bindE_eq_Inr)

lemma status_event_accounts:
  "status_event now clock i ty st userId auditId corr db = Inr db' \<Longrightarrow>
     accounts db' = told (ty, userId, UserStatusChangedPayload userId st (Some auditId) (iso clock)) (accounts db)"
  unfolding status_event_def by (rule user_event_accounts)

lemma optional_alert_accounts:
  "(if b then insertAlert now i kind actor details db else Inr db) = Inr db' \<Longrightarrow> accounts db' = accounts db"
  by (auto dest: insertAlert_accounts split: if_splits)

lemma countActorActions_accounts:
  "countActorActions now db i SUSPEND HOUR_SECONDS = suspensions_since (accounts db) i (now - hours_span 1)"
  by (simp add: countActorActions_def suspensions_since_def seconds_span_def hours_span_def HOUR_SECONDS_def)

lemma suspendUsing_cases:
  assumes "suspendUsing e u now clock actorId sid targetId reason corr db = Inr (r, db')"
  obtains (unchanged) "db' = db"
  | (suspended) actor target tx1 tx2 where "lockActorAndTarget db actorId targetId = Inr (actor, target)"
      and "actorId \<noteq> canonicalId target" and "is_admin target \<longrightarrow> lu_isSeededAdmin actor" and "lu_status target = ACTIVE"
      and "int (countActorActions now db actorId SUSPEND HOUR_SECONDS) < suspensionsLimitPerHour e"
      and "record_audit now (randomUUID u 0) actorId (canonicalId target) SUSPEND reason corr None
          (revokeAllForUser now (canonicalId target) (setStatus now (canonicalId target) SUSPENDED db)) = Inr tx1"
      and "accounts tx2 = accounts tx1"
      and "status_event now clock (randomUUID u 2) USER_SUSPENDED User_SUSPENDED (canonicalId target) (randomUUID u 0) corr tx2 = Inr db'"
      and "r = Suspended_now (countActorActions now db actorId SUSPEND HOUR_SECONDS + 1)"
  using assms
  by (auto simp: suspendUsing_def Let_def bindE_eq_Inr not_le dest!: guardAdminTarget_Inr insertAlert_accounts split: if_splits)

lemma suspend_effect:
  assumes run: "suspendUsing e u now clock actorId sid targetId reason corr db = Inr (r, db')"
    and ok: "accounts_ok limit (accounts db)" and limit: "limit = suspensionsLimitPerHour e"
  shows "account_effect limit (accounts db) (accounts db')"
  using run
proof (cases rule: suspendUsing_cases)
  case unchanged
  then show ?thesis by (simp add: account_effect.unmoved)
next
  case (suspended actor target tx1 tx2)
  from suspended(1) ok obtain x y where x: "active_admin (accounts db) x" "us_id x = actorId"
      "lu_isSeededAdmin actor = us_isSeededAdmin x"
    and y: "y \<in> set (users db)" "canonicalId target = us_id y" "lu_status target = us_status y"
      "is_admin target \<longleftrightarrow> holds_admin (accounts db) (us_id y)" by (rule lockActorAndTarget_Inr)
  from suspended(6) obtain ar where ar: "audit_row ar now (us_id x) (us_id y) SUSPEND None" "au_id ar = randomUUID u 0"
    "accounts tx1 = audited ar (accounts (revokeAllForUser now (us_id y) (setStatus now (us_id y) SUSPENDED db)))"
    unfolding y(2) x(2) by (rule record_audit_accounts)
  have "may_act_on (accounts db) x y" using suspended(3) x y by (simp add: may_act_on_def)
  with suspended x y ar(1) show ?thesis
    using account_effect.suspended [of "accounts db" x y now limit ar "iso clock"]
      status_event_accounts [OF suspended(8)] ar(2,3)
    by (simp add: countActorActions_accounts limit account_writes setStatus_def)
qed

lemma reactivateUsing_cases:
  assumes "reactivateUsing e u now clock actorId sid targetId reason corr db = Inr (r, db')"
  obtains (unchanged) "db' = db"
  | (reactivated) actor target tx1 tx2 where "lockActorAndTarget db actorId targetId = Inr (actor, target)"
      and "is_admin target \<longrightarrow> lu_isSeededAdmin actor" and "lu_status target = SUSPENDED"
      and "record_audit now (randomUUID u 0) actorId (canonicalId target) REACTIVATE reason corr None
          (setStatus now (canonicalId target) ACTIVE db) = Inr tx1"
      and "accounts tx2 = accounts tx1"
      and "status_event now clock (randomUUID u 2) USER_REACTIVATED User_ACTIVE (canonicalId target) (randomUUID u 0) corr tx2 = Inr db'"
  using assms
  by (auto simp: reactivateUsing_def Let_def bindE_eq_Inr dest!: guardAdminTarget_Inr insertAlert_accounts split: if_splits)

lemma reactivate_effect:
  assumes run: "reactivateUsing e u now clock actorId sid targetId reason corr db = Inr (r, db')"
    and ok: "accounts_ok limit (accounts db)"
  shows "account_effect limit (accounts db) (accounts db')"
  using run
proof (cases rule: reactivateUsing_cases)
  case unchanged
  then show ?thesis by (simp add: account_effect.unmoved)
next
  case (reactivated actor target tx1 tx2)
  from reactivated(1) ok obtain x y where x: "active_admin (accounts db) x" "us_id x = actorId"
      "lu_isSeededAdmin actor = us_isSeededAdmin x"
    and y: "y \<in> set (users db)" "canonicalId target = us_id y" "lu_status target = us_status y"
      "is_admin target \<longleftrightarrow> holds_admin (accounts db) (us_id y)" by (rule lockActorAndTarget_Inr)
  from reactivated(4) obtain ar where ar: "audit_row ar now (us_id x) (us_id y) REACTIVATE None" "au_id ar = randomUUID u 0"
    "accounts tx1 = audited ar (accounts (setStatus now (us_id y) ACTIVE db))"
    unfolding y(2) x(2) by (rule record_audit_accounts)
  have "may_act_on (accounts db) x y" using reactivated(2) x y by (simp add: may_act_on_def)
  with reactivated y ar(1) show ?thesis
    using account_effect.reactivated [of "accounts db" x y ar now limit "iso clock"]
      status_event_accounts [OF reactivated(6)] ar(2,3)
    by (simp add: account_writes setStatus_def)
qed

section \<open>Role changes\<close>

lemma roleRulesAllow_True:
  assumes "roleRulesAllow db asker target r adminIds = Inr True" and "y \<in> set (users db)" and "canonicalId target = us_id y"
    and "lu_status target = us_status y" and "is_admin target \<longleftrightarrow> holds_admin (accounts db) (us_id y)"
  shows "role_change_ok (accounts db) asker y r"
  using assms by (auto simp: roleRulesAllow_def role_change_ok_def isSeededAdmin_def Let_def split: if_splits)

lemma applyRoleChange_accounts:
  assumes run: "applyRoleChange u now clock c db = Inr db'" and i: "canonicalId (rc_target c) = i"
    and new: "rc_role c = ADMIN \<Longrightarrow> \<not> holds_admin (accounts db) i"
  obtains ar roles where "audit_row ar now (rc_approverId c) i (role_action (rc_role c)) (Some (rc_approval c))"
    and "accounts db' = told (USER_ROLE_CHANGED, i, UserRoleChangedPayload i roles (Some (au_id ar)) (iso clock))
      (audited ar (with_role (role_row now i ADMIN (Some (rc_requesterId c))) (rc_role c) (accounts db)))"
proof -
  from run i obtain tx1 tx2 tx3 roles where
    grant: "(if rc_role c = ADMIN then grantAdmin now i (rc_requesterId c) db else Inr (revokeAdmin i db)) = Inr tx1"
    and audit: "record_audit now (randomUUID u 0) (rc_approverId c) i (role_action (rc_role c)) (rc_reason c)
      (rc_correlationId c) (Some (rc_approval c)) tx1 = Inr tx2"
    and told: "roleChanged now clock (randomUUID u 1) i roles (randomUUID u 0) (rc_correlationId c) tx2 = Inr tx3"
    and alert: "accounts db' = accounts tx3"
    unfolding applyRoleChange_def Let_def bindE_eq_Inr role_action_def by (fast dest: insertAlert_accounts)
  have "accounts tx1 = with_role (role_row now i ADMIN (Some (rc_requesterId c))) (rc_role c) (accounts db)"
    using grant new
    by (auto simp: grantAdmin_def revokeAdmin_def with_role_def holds_admin_def role_row_def
        dest: insertRole_accounts split: if_splits)
  moreover from audit obtain ar where "audit_row ar now (rc_approverId c) i (role_action (rc_role c)) (Some (rc_approval c))"
    "au_id ar = randomUUID u 0" "accounts tx2 = audited ar (accounts tx1)" by (rule record_audit_accounts)
  moreover note user_event_accounts [OF told [unfolded roleChanged_def]] alert
  ultimately show thesis by (intro that [of ar "sorted_roles roles"]) simp_all
qed

lemma expireStaleRequests_accounts:
  "accounts (expireStaleRequests now i db) = accounts db\<lparr> a_requests := expired_rows now i (role_change_requests db) \<rparr>"
  by (simp add: expireStaleRequests_def)

lemma findPendingRequest_None:
  "findPendingRequest now db i = None \<longleftrightarrow> \<not> (\<exists>q \<in> set (role_change_requests db). rq_targetUserId q = i \<and> rq_status q = Req_PENDING)"
  by (auto simp: findPendingRequest_def find_None_iff)

lemma insertRoleRequest_accounts:
  assumes "insertRoleRequest now i target r asker reason ttl corr db = Inr (q, db')"
  obtains q0 where "rq_status q0 = Req_PENDING" and "rq_requestedBy q0 = asker" and "rq_targetUserId q0 = target"
    and "rq_role q0 = r" and "rq_decidedBy q0 = None" and "rq_id q0 \<notin> rq_id ` set (role_change_requests db)"
    and "accounts db' = accounts db\<lparr> a_requests := role_change_requests db @ [q0] \<rparr>"
proof -
  let ?q = "\<lparr> rq_id = i, rq_targetUserId = target, rq_role = r, rq_requestedBy = asker,
                rq_reason = reason, rq_status = Req_PENDING, rq_createdAt = now,
                rq_expiresAt = now + hours_span ttl, rq_decidedBy = None, rq_decidedAt = None,
                rq_decisionReason = None, rq_correlationId = corr \<rparr>"
  from assms show thesis
    by (intro that [of ?q]) (auto simp: insertRoleRequest_def Let_def bindE_eq_Inr constraints_Inr role_request_checks_def)
qed

lemma as_read_pending: "rq_status (as_read now q) = Req_PENDING \<Longrightarrow> as_read now q = q \<and> rq_status q = Req_PENDING"
  by (cases q) (auto simp: as_read_def effectiveStatus_def split: if_splits)

lemma role_request_effect:
  assumes run: "requestRoleChangeUsing e u now clock actorId sid targetId r reason corr db = Inr (res, db')"
    and ok: "accounts_ok limit (accounts db)"
  shows "account_effect limit (accounts db) (accounts db')"
proof -
  from run obtain actor target allowed where lock: "lockActorAndTarget db actorId targetId = Inr (actor, target)"
    and rules: "roleRulesAllow db actorId target r (lockAdminIds db) = Inr allowed"
    by (auto simp: requestRoleChangeUsing_def Let_def bindE_eq_Inr)
  from lock ok obtain x y where x: "active_admin (accounts db) x" "us_id x = actorId"
    and y: "y \<in> set (users db)" "canonicalId target = us_id y" "lu_status target = us_status y"
      "is_admin target \<longleftrightarrow> holds_admin (accounts db) (us_id y)" by (rule lockActorAndTarget_Inr)
  let ?tx = "expireStaleRequests now (us_id y) db"
  let ?a = "accounts db\<lparr> a_requests := expired_rows now (us_id y) (role_change_requests db) \<rparr>"
  let ?c = "\<lparr> rc_approverId = actorId, rc_requesterId = actorId, rc_approval = NO_APPROVER,
                     rc_target = target, rc_role = r, rc_reason = reason, rc_correlationId = corr \<rparr>"
  consider (unchanged) "db' = db"
    | (alone) "allowed" "filter (\<lambda>i. i \<noteq> actorId \<and> i \<noteq> us_id y) (lockAdminIds db) = []"
        "applyRoleChange u now clock ?c ?tx = Inr db'"
    | (asked) q tx2 where "allowed" "findPendingRequest now ?tx (us_id y) = None"
        "insertRoleRequest now (randomUUID u 0) (us_id y) r actorId reason (roleRequestTtlHours e) corr ?tx = Inr (q, tx2)"
        "record_audit now (randomUUID u 1) actorId (us_id y) ROLE_CHANGE_REQUESTED reason corr None tx2 = Inr db'"
    using run lock rules y(2)
    by (auto simp: requestRoleChangeUsing_def Let_def bindE_eq_Inr split: if_splits)
  then show ?thesis
  proof cases
    case unchanged
    then show ?thesis by (simp add: account_effect.unmoved)
  next
    case alone
    have allow: "role_change_ok (accounts db) (us_id x) y r"
      using roleRulesAllow_True [OF _ y] rules alone(1) x(2) by simp
    then have "r = ADMIN \<Longrightarrow> \<not> holds_admin (accounts ?tx) (us_id y)"
      by (simp add: role_change_ok_def expireStaleRequests_accounts holds_admin_def)
    then obtain ar roles where ar: "audit_row ar now (us_id x) (us_id y) (role_action r) (Some NO_APPROVER)"
      "accounts db' = told (USER_ROLE_CHANGED, us_id y, UserRoleChangedPayload (us_id y) roles (Some (au_id ar)) (iso clock))
        (audited ar (with_role (role_row now (us_id y) ADMIN (Some (us_id x))) r ?a))"
      using applyRoleChange_accounts [OF alone(3), of "us_id y"] y(2) x(2) by (auto simp: expireStaleRequests_accounts)
    have "\<forall>i. holds_admin (accounts db) i \<longrightarrow> i = us_id x \<or> i = us_id y"
      using alone(2) x(2) by (auto simp: filter_empty_conv lockAdminIds_accounts)
    from account_effect.role_changed_alone [OF x(1) allow this _ ar(1), of ?a limit roles "iso clock"]
    show ?thesis by (simp add: ar(2))
  next
    case (asked q tx2)
    have allow: "role_change_ok (accounts db) (us_id x) y r"
      using roleRulesAllow_True [OF _ y] rules asked(1) x(2) by simp
    from asked(3) obtain q0 where q0: "rq_status q0 = Req_PENDING" "rq_requestedBy q0 = us_id x" "rq_targetUserId q0 = us_id y"
      "rq_role q0 = r" "rq_decidedBy q0 = None" "rq_id q0 \<notin> rq_id ` set (role_change_requests ?tx)"
      "accounts tx2 = accounts ?tx\<lparr> a_requests := role_change_requests ?tx @ [q0] \<rparr>"
      unfolding x(2) by (rule insertRoleRequest_accounts)
    from asked(4) obtain ar where ar: "audit_row ar now (us_id x) (us_id y) ROLE_CHANGE_REQUESTED None"
      "accounts db' = audited ar (accounts tx2)" unfolding x(2) by (rule record_audit_accounts)
    have "account_effect limit (accounts db) (audited ar (?a\<lparr> a_requests := a_requests ?a @ [q0] \<rparr>))"
    proof (rule account_effect.role_asked [OF x(1)])
      show "\<not> (\<exists>z \<in> set (a_requests ?a). rq_targetUserId z = us_id y \<and> rq_status z = Req_PENDING)"
        using asked(2) by (simp add: findPendingRequest_None expireStaleRequests_def)
    qed (use allow q0 ar(1) in \<open>simp_all add: expireStaleRequests_def\<close>)
    then show ?thesis by (simp add: ar(2) q0(7)) (simp add: expireStaleRequests_def)
  qed
qed

lemma openRequest_Inr:
  assumes "openRequest now db i = Inr q"
  shows "q \<in> set (role_change_requests db)" and "rq_status q = Req_PENDING"
  using assms
  by (auto simp: openRequest_def lockRoleRequest_def request_of_id_def dest!: row_of_Some
      dest: as_read_pending [THEN conjunct1] as_read_pending [THEN conjunct2] split: option.splits if_splits)


lemma decideRoleRequest_accounts:
  "decideRoleRequest now i st who why db = Inr (q, db') \<Longrightarrow>
     accounts db' = accounts db\<lparr> a_requests := update_rows (\<lambda>w. rq_id w = i) (decided now st who why) (role_change_requests db) \<rparr>"
  by (auto simp: decideRoleRequest_def bindE_eq_Inr split: option.splits)

lemma approve_effect:
  assumes run: "approveUsing e u now clock actorId sid requestId reason corr db = Inr (res, db')"
    and ok: "accounts_ok limit (accounts db)"
  shows "account_effect limit (accounts db) (accounts db')"
proof -
  from run obtain q actor requester target v tx1 where
    q: "openRequest now db requestId = Inr q" "assertCanDecide actorId q = Inr ()"
    and actor: "lockUsers db [actorId, rq_requestedBy q, rq_targetUserId q] actorId = Some actor" "lu_status actor = ACTIVE" "is_admin actor"
    and requester: "lockUsers db [actorId, rq_requestedBy q, rq_targetUserId q] (rq_requestedBy q) = Some requester"
      "lu_status requester = ACTIVE" "is_admin requester"
    and target: "lockUsers db [actorId, rq_requestedBy q, rq_targetUserId q] (rq_targetUserId q) = Some target"
    and rules: "roleRulesAllow db (rq_requestedBy q) target (rq_role q) (lockAdminIds db) = Inr True"
    and decide: "decideRoleRequest now (rq_id q) Req_APPROVED actorId reason db = Inr (v, tx1)"
    and apply_change: "applyRoleChange u now clock \<lparr> rc_approverId = actorId, rc_requesterId = rq_requestedBy q,
        rc_approval = SECOND_ADMIN, rc_target = target, rc_role = rq_role q, rc_reason = reason, rc_correlationId = corr \<rparr> tx1 = Inr db'"
    by (auto simp: approveUsing_def Let_def bindE_eq_Inr activeAdmin_Inr split: option.splits if_splits)
  obtain x where x: "x \<in> set (users db)" "us_id x = actorId" "lu_status actor = us_status x"
    "is_admin actor \<longleftrightarrow> holds_admin (accounts db) actorId" by (rule lockUsers_Some [OF actor(1) ok])
  obtain z where z: "z \<in> set (users db)" "us_id z = rq_requestedBy q" "lu_status requester = us_status z"
    "is_admin requester \<longleftrightarrow> holds_admin (accounts db) (rq_requestedBy q)" by (rule lockUsers_Some [OF requester(1) ok])
  obtain y where y: "y \<in> set (users db)" "us_id y = rq_targetUserId q" "canonicalId target = rq_targetUserId q"
    "lu_status target = us_status y" "is_admin target \<longleftrightarrow> holds_admin (accounts db) (rq_targetUserId q)"
    by (rule lockUsers_Some [OF target ok])
  have allow: "role_change_ok (accounts db) (us_id z) y (rq_role q)"
    using roleRulesAllow_True [of db "us_id z" target "rq_role q" "lockAdminIds db" y] rules y z(2) by simp
  note tx1 = decideRoleRequest_accounts [OF decide]
  from allow have "rq_role q = ADMIN \<Longrightarrow> \<not> holds_admin (accounts tx1) (us_id y)"
    by (simp add: role_change_ok_def tx1 holds_admin_def)
  with apply_change y(2,3) obtain ar roles where ar: "audit_row ar now (us_id x) (us_id y) (role_action (rq_role q)) (Some SECOND_ADMIN)"
    "accounts db' = told (USER_ROLE_CHANGED, us_id y, UserRoleChangedPayload (us_id y) roles (Some (au_id ar)) (iso clock))
      (audited ar (with_role (role_row now (us_id y) ADMIN (Some (us_id z))) (rq_role q) (accounts tx1)))"
    by (rule_tac applyRoleChange_accounts [of u now clock _ tx1 db' "us_id y"]) (auto simp: x(2) z(2))
  have who: "us_id x \<noteq> us_id z" "us_id x \<noteq> us_id y"
    using q(2) by (auto simp: assertCanDecide_def bindE_eq_Inr x(2) y(2) z(2))
  have active: "active_admin (accounts db) x" "active_admin (accounts db) z"
    using x z actor(2,3) requester(2,3) by (simp_all add: active_admin_def)
  have "q \<in> set (a_requests (accounts db))" using openRequest_Inr [OF q(1)] by simp
  from account_effect.role_approved [OF active this openRequest_Inr(2) [OF q(1)] _ _ who allow ar(1),
      of limit roles "iso clock" reason]
  show ?thesis by (simp add: y(2) z(2) x(2) ar(2) tx1)
qed

lemma reject_effect:
  assumes run: "rejectUsing e u now actorId sid requestId reason corr db = Inr (res, db')"
    and ok: "accounts_ok limit (accounts db)"
  shows "account_effect limit (accounts db) (accounts db')"
proof -
  from run obtain q actor v tx1 where q: "openRequest now db requestId = Inr q" "actorId \<noteq> rq_targetUserId q"
    and actor: "lockUsers db [actorId] actorId = Some actor" "lu_status actor = ACTIVE" "is_admin actor"
    and decide: "decideRoleRequest now (rq_id q) Req_REJECTED actorId reason db = Inr (v, tx1)"
    and audit: "record_audit now (randomUUID u 0) actorId (rq_targetUserId q) ROLE_CHANGE_REJECTED reason corr None tx1 = Inr db'"
    by (auto simp: rejectUsing_def bindE_eq_Inr activeAdmin_Inr split: if_splits)
  obtain x where x: "x \<in> set (users db)" "us_id x = actorId" "lu_status actor = us_status x"
    "is_admin actor \<longleftrightarrow> holds_admin (accounts db) actorId" by (rule lockUsers_Some [OF actor(1) ok])
  have active: "active_admin (accounts db) x" using x actor(2,3) by (simp add: active_admin_def)
  from audit obtain ar where ar: "audit_row ar now (us_id x) (rq_targetUserId q) ROLE_CHANGE_REJECTED None"
    "accounts db' = audited ar (accounts tx1)" unfolding x(2) by (rule record_audit_accounts)
  have "q \<in> set (a_requests (accounts db))" using openRequest_Inr [OF q(1)] by simp
  from account_effect.role_rejected [OF active this openRequest_Inr(2) [OF q(1)] _ ar(1), of limit reason] q(2)
  show ?thesis by (simp add: x(2) ar(2) decideRoleRequest_accounts [OF decide])
qed

lemma seed_effect:
  assumes run: "seedUsing u now clock email hash db = Inr (r, db')"
  shows "account_effect limit (accounts db) (accounts db')"
proof (cases r)
  case False
  with run show ?thesis
    by (auto simp: seedUsing_def Let_def bindE_eq_Inr insertSeededAdmin_def account_effect.unmoved
        elim!: insertUserRow_cases split: if_splits)
next
  case True
  let ?i = "randomUUID u 0"
  let ?x = "(pending_user now ?i email)\<lparr> us_passwordHash := Some hash, us_status := ACTIVE, us_isSeededAdmin := True,
     us_mustChangePassword := True, us_activatedAt := Some now \<rparr>"
  from run True obtain tx1 tx2 where insert: "insertSeededAdmin now ?i email hash ''Administrator'' db = Inr (True, tx1)"
    and audit: "insertAudit now (bootstrap_audit (randomUUID u 1) ?i) tx1 = Inr tx2"
    and told: "user_event now (randomUUID u 2) USER_ACTIVATED ?i (UserActivatedPayload ?i (iso clock)) ''seed'' tx2 = Inr db'"
    by (auto simp: seedUsing_def Let_def bindE_eq_Inr split: if_splits)
  from insert obtain db1 db2 db3 where rows: "insertUserRow ?x db = Inr (True, db1)"
    "insertRole (role_row now ?i STUDENT None) db1 = Inr db2" "insertRole (role_row now ?i ADMIN None) db2 = Inr db3"
    "insertProfile ?i ''Administrator'' db3 = Inr tx1"
    by (auto simp: insertSeededAdmin_def bindE_eq_Inr split: if_splits)
  from rows(1) have new: "?i \<notin> us_id ` set (users db)" "toLowerCase email \<notin> (\<lambda>y. toLowerCase (us_email y)) ` set (users db)"
    "db1 = db\<lparr> users := users db @ [?x] \<rparr>"
    by (auto elim!: insertUserRow_cases simp: pending_user_def)
  have roles: "user_roles db1 = user_roles db" "user_roles db2 = user_roles db @ [role_row now ?i STUDENT None]"
    using new(3) rows(2) by (auto simp: insertRole_def bindE_eq_Inr)
  have "accounts tx1 = accounts db\<lparr> a_users := users db @ [?x],
      a_roles := user_roles db @ [role_row now ?i STUDENT None, role_row now ?i ADMIN None] \<rparr>"
    using insertRole_accounts [OF rows(2)] insertRole_accounts [OF rows(3)] insertProfile_accounts [OF rows(4)] roles new(3)
    by simp
  moreover have "accounts tx2 = audited (audit_of now (bootstrap_audit (randomUUID u 1) ?i)) (accounts tx1)"
    using audit by (auto simp: insertAudit_def bindE_eq_Inr audited_def)
  moreover note user_event_accounts [OF told]
  ultimately show ?thesis
    using account_effect.seeded [of ?i "accounts db" email "audit_of now (bootstrap_audit (randomUUID u 1) ?i)" limit "iso clock" now hash] new
    by (simp add: audit_of_def bootstrap_audit_def activation_event_def)
qed

end
