(* ===== verification/User_System.thy ===== *)
theory User_System
  imports User_Refinement
begin

text \<open>
  The User Service as a system: every request, boot-time seed, relay claim and pruning is a step,
  each one transaction, in any order and any number of times. What a request reads before its
  transaction is an arbitrary earlier database, so any interleaving of requests is a run.
\<close>

section \<open>Steps\<close>

text \<open>
  A login draws the family of the session it starts; UUIDs do not repeat, and no index says so of
  this column, so the step says it. Every other identifier a step draws is arbitrary: a repeated one
  is refused by a primary key.
\<close>

inductive user_step :: "user_env \<Rightarrow> user_db \<Rightarrow> user_db \<Rightarrow> bool" for e :: user_env where
  register: "register e u now token email name db = (r, db', mails) \<Longrightarrow> user_step e db db'"
| resend: "resendActivation e u now token email db = (db', mails) \<Longrightarrow> user_step e db db'"
| request_reset: "requestPasswordReset e u now token email db = (db', mails) \<Longrightarrow> user_step e db db'"
| activate: "activate e u before seen now clock salt token password corr db = (r, db') \<Longrightarrow> user_step e db db'"
| confirm_reset: "confirmPasswordReset e u before seen now clock salt token password corr db = (r, db') \<Longrightarrow>
     user_step e db db'"
| login: "\<lbrakk> login e u dummy seen now token email password db = (r, db');
     randomUUID u 1 \<notin> rs_familyId ` set (refresh_sessions db) \<rbrakk> \<Longrightarrow> user_step e db db'"
| refresh: "refresh e u now token presented db = (r, db') \<Longrightarrow> user_step e db db'"
| change_password: "changePassword e dummy seen now salt email old new db = (r, db') \<Longrightarrow> user_step e db db'"
| step_up: "stepUp e dummy seen now i sid password db = (r, db') \<Longrightarrow> user_step e db db'"
| logout: "user_step e db (logout e now presented db)"
| suspend: "transaction (suspendUsing e u now clock actor sid target reason corr) db = (r, db') \<Longrightarrow> user_step e db db'"
| reactivate: "reactivate e u now clock actor sid target reason corr db = (r, db') \<Longrightarrow> user_step e db db'"
| request_role: "requestRoleChange e u now clock actor sid target role reason corr db = (r, db') \<Longrightarrow> user_step e db db'"
| approve: "approveRoleRequest e u now clock actor sid request reason corr db = (r, db') \<Longrightarrow> user_step e db db'"
| reject: "rejectRoleRequest e u now actor sid request reason corr db = (r, db') \<Longrightarrow> user_step e db db'"
| seed: "transaction (seedUsing u now clock email hash) db = (r, db') \<Longrightarrow> user_step e db db'"
| update_me: "updateMe changes i db = (r, db') \<Longrightarrow> user_step e db db'"
| alert: "raiseOncePerHour now i kind actor details db = (r, db') \<Longrightarrow> user_step e db db'"
| admin_read: "insertAdminReads now reads db = Inr db' \<Longrightarrow> user_step e db db'"
| pruned: "pruneEventTables now retention batch stop1 stopped stop2 waiting db = (counts, db') \<Longrightarrow> user_step e db db'"
| relayed: "claimAndPublish ''user-service'' opts now locked answers (outbox_events db) = (cr, rows) \<Longrightarrow>
     user_step e db (db\<lparr> outbox_events := rows \<rparr>)"

definition user_start :: "user_db \<Rightarrow> bool" where
  "user_start db \<longleftrightarrow> accounts db = \<lparr> a_users = [], a_roles = [], a_activations = [], a_resets = [], a_sessions = [],
     a_audit = [], a_requests = [], a_events = [] \<rparr>"

section \<open>Every step is a movement\<close>

lemma transaction_effect:
  assumes "transaction fn db = (r, db')"
    and "\<And>x. fn db = Inr (x, db') \<Longrightarrow> account_effect limit (accounts db) (accounts db')"
  shows "account_effect limit (accounts db) (accounts db')"
  using assms by (auto simp: transaction_def account_effect.unmoved split: sum.splits prod.splits)

lemma register_step:
  assumes "register e u now token email name db = (r, db', mails)"
  shows "account_effect limit (accounts db) (accounts db')"
proof -
  let ?fn = "registerUsing e u now token (normalizeEmail (nfkc e) email) name"
  consider "db' = db" | x where "transaction ?fn db = (x, db')"
    using assms by (auto simp: register_def Let_def split: if_splits prod.splits sum.splits option.splits)
  then show ?thesis
    by cases (auto simp: account_effect.unmoved elim!: transaction_effect intro: register_effect)
qed

lemma mailed_transaction: "mailed kind email token outcome = (db', mails) \<Longrightarrow> db' = snd outcome"
  by (auto simp: mailed_def split: prod.splits sum.splits option.splits)

lemma resend_step:
  assumes "resendActivation e u now token email db = (db', mails)"
  shows "account_effect limit (accounts db) (accounts db')"
proof -
  let ?fn = "resendUsing e u now token (normalizeEmail (nfkc e) email)"
  consider "db' = db" | x where "transaction ?fn db = (x, db')"
    using assms by (cases "transaction ?fn db") (auto simp: resendActivation_def Let_def dest!: mailed_transaction split: if_splits)
  then show ?thesis
    by cases (auto simp: account_effect.unmoved elim!: transaction_effect intro: resend_effect)
qed

lemma reset_request_step:
  assumes "requestPasswordReset e u now token email db = (db', mails)"
  shows "account_effect limit (accounts db) (accounts db')"
proof -
  let ?fn = "resetRequestUsing e u now token (normalizeEmail (nfkc e) email)"
  obtain x where "transaction ?fn db = (x, db')"
    using assms by (cases "transaction ?fn db") (auto simp: requestPasswordReset_def Let_def dest!: mailed_transaction)
  then show ?thesis by (rule transaction_effect) (rule reset_request_effect)
qed

lemma activate_step:
  assumes "activate e u before seen now clock salt token password corr db = (r, db')" and "accounts_ok limit (accounts db)"
  shows "account_effect limit (accounts db) (accounts db')"
proof -
  consider "db' = db" | x where
      "transaction (activateUsing u now clock (sha256Hex e token) (hashPassword e salt password) corr) db = (x, db')"
    using assms(1) by (auto simp: activate_def Let_def split: if_splits)
  then show ?thesis
    by cases (auto simp: account_effect.unmoved elim!: transaction_effect intro: activate_effect assms(2))
qed

lemma confirm_reset_step:
  assumes "confirmPasswordReset e u before seen now clock salt token password corr db = (r, db')"
    and "accounts_ok limit (accounts db)"
  shows "account_effect limit (accounts db) (accounts db')"
proof -
  consider "db' = db" | x where
      "transaction (confirmResetUsing u now clock (sha256Hex e token) (hashPassword e salt password) corr) db = (x, db')"
    using assms(1) by (auto simp: confirmPasswordReset_def Let_def split: if_splits)
  then show ?thesis
    by cases (auto simp: account_effect.unmoved elim!: transaction_effect intro: confirm_reset_effect assms(2))
qed

lemma login_step:
  assumes "login e u dummy seen now token email password db = (r, db')"
    and "randomUUID u 1 \<notin> rs_familyId ` set (refresh_sessions db)"
  shows "account_effect limit (accounts db) (accounts db')"
proof -
  consider "db' = db" | x i h ttl hash where
      "transaction (insertIfLoginable now (randomUUID u 0) (randomUUID u 1) i h ttl hash) db = (x, db')"
    using assms(1) by (auto simp: login_def Let_def split: if_splits prod.splits sum.splits)
  then show ?thesis
    by cases (simp add: account_effect.unmoved, erule transaction_effect, rule login_effect [OF _ assms(2)])
qed

lemma refresh_step:
  assumes "refresh e u now token presented db = (r, db')" and "accounts_ok limit (accounts db)"
  shows "account_effect limit (accounts db) (accounts db')"
proof -
  consider "db' = db" | x h where "transaction (refreshUsing e now (randomUUID u 0) token h) db = (x, db')"
    using assms(1) by (auto simp: refresh_def split: option.splits if_splits prod.splits sum.splits)
  then show ?thesis
    by cases (auto simp: account_effect.unmoved elim!: transaction_effect intro: refresh_effect assms(2))
qed

lemma change_password_step:
  assumes "changePassword e dummy seen now salt email old new db = (r, db')"
  shows "account_effect limit (accounts db) (accounts db')"
proof -
  consider "db' = db" | x i hash hash' where "transaction (changePasswordUsing now i hash hash') db = (x, db')"
    using assms by (auto simp: changePassword_def split: if_splits prod.splits sum.splits)
  then show ?thesis
    by cases (auto simp: account_effect.unmoved elim!: transaction_effect intro: change_password_effect)
qed

lemma step_up_step:
  assumes "stepUp e dummy seen now i sid password db = (r, db')"
  shows "account_effect limit (accounts db) (accounts db')"
  using assms stepped_up_effect [of now sid i db _ db' limit]
  by (auto simp: stepUp_def Let_def account_effect.unmoved split: if_splits prod.splits)

lemma reactivate_step:
  assumes "reactivate e u now clock actor sid target reason corr db = (r, db')" and "accounts_ok limit (accounts db)"
  shows "account_effect limit (accounts db) (accounts db')"
proof -
  obtain x where "transaction (reactivateUsing e u now clock actor sid target reason corr) db = (x, db')"
    using assms(1) by (auto simp: reactivate_def split: prod.splits sum.splits)
  then show ?thesis by (rule transaction_effect) (rule reactivate_effect [OF _ assms(2)])
qed

lemma request_role_step:
  assumes "requestRoleChange e u now clock actor sid target role reason corr db = (r, db')" and "accounts_ok limit (accounts db)"
  shows "account_effect limit (accounts db) (accounts db')"
proof -
  obtain x where "transaction (requestRoleChangeUsing e u now clock actor sid target role reason corr) db = (x, db')"
    using assms(1) by (auto simp: requestRoleChange_def split: prod.splits sum.splits role_request_outcome.splits)
  then show ?thesis by (rule transaction_effect) (rule role_request_effect [OF _ assms(2)])
qed

lemma approve_step:
  assumes "approveRoleRequest e u now clock actor sid request reason corr db = (r, db')" and "accounts_ok limit (accounts db)"
  shows "account_effect limit (accounts db) (accounts db')"
proof -
  obtain x where "transaction (approveUsing e u now clock actor sid request reason corr) db = (x, db')"
    using assms(1) by (auto simp: approveRoleRequest_def split: prod.splits sum.splits)
  then show ?thesis by (rule transaction_effect) (rule approve_effect [OF _ assms(2)])
qed

lemma alert_step: "raiseOncePerHour now i kind actor details db = (r, db') \<Longrightarrow> accounts db' = accounts db"
  by (auto simp: raiseOncePerHour_def raiseOnceUsing_def transaction_def bindE_eq_Inr dest: insertAlert_accounts
      split: sum.splits if_splits)

lemma admin_read_step: "insertAdminReads now reads db = Inr db' \<Longrightarrow> accounts db' = accounts db"
  by (induction now reads db rule: insertAdminReads.induct) (auto simp: Let_def bindE_eq_Inr)

lemma update_me_step: "updateMe changes i db = (r, db') \<Longrightarrow> accounts db' = accounts db"
  by (auto simp: updateMe_def updateProfile_def bindE_eq_Inr split: sum.splits if_splits)

text \<open>Pruning forgets events, the relay only marks them.\<close>

lemma delete_batch_count:
  "delete_batch b p rs = (n, rs') \<Longrightarrow> length (filter q rs') \<le> length (filter q rs)"
  by (induction b p rs arbitrary: n rs' rule: delete_batch.induct) (fastforce split: if_splits prod.splits)+

lemma deleteInBatches_count:
  "deleteInBatches stop k b p rs = (n, rs') \<Longrightarrow> length (filter q rs') \<le> length (filter q rs)"
proof (induction stop k b p rs arbitrary: n rs' rule: deleteInBatches.induct)
  case (1 stop k b p rs)
  obtain m mid where batch: "delete_batch b p rs = (m, mid)" by (meson surj_pair)
  show ?case
  proof (cases "stop k \<or> m = 0")
    case True
    with "1.prems" batch show ?thesis by (auto simp: deleteInBatches.simps [of stop k] split: if_splits)
  next
    case False
    then obtain total where "deleteInBatches stop (Suc k) b p mid = (total, rs')"
      using "1.prems" batch by (auto simp: deleteInBatches.simps [of stop k] split: if_splits prod.splits)
    with "1.IH" [OF _ refl batch [symmetric]] False delete_batch_count [OF batch, of q] show ?thesis
      by fastforce
  qed
qed

lemma pruned_step:
  fixes db db' :: user_db
  assumes "pruneEventTables now retention batch stop1 stopped stop2 waiting db = (counts, db')"
  shows "account_effect limit (accounts db) (accounts db')"
proof -
  from assms obtain stop p n obs ins where del: "deleteInBatches stop 0 batch p (outbox_events db) = (n, obs)"
    and db': "db' = db\<lparr> outbox_events := obs, processed_events := ins \<rparr>"
    by (auto simp: pruneEventTables_def Let_def split: prod.splits)
  have "length (filter q (map row_event obs)) \<le> length (filter q (a_events (accounts db)))" for q
    using deleteInBatches_count [OF del, of "\<lambda>r. q (row_event r)"] by (simp add: filter_map comp_def)
  from account_effect.forgotten [OF this] show ?thesis by (simp add: db')
qed

lemma relayed_events:
  assumes "claimAndPublish service opts now locked answers rows = (cr, rows')"
  shows "map row_event rows' = map row_event rows"
proof -
  have "list_all2 same_event rows rows'"
    using assms by (auto simp: claimAndPublish_def dest: publish_rows_same_event)
  then show ?thesis by (auto simp: list_all2_conv_all_nth same_event_says intro!: nth_equalityI)
qed

lemma user_step_effect:
  assumes "user_step e db db'" and "accounts_ok (suspensionsLimitPerHour e) (accounts db)"
  shows "account_effect (suspensionsLimitPerHour e) (accounts db) (accounts db')"
  using assms
proof (induction rule: user_step.induct)
  case (suspend u now clock actor sid target reason corr db r db')
  from suspend(1) show ?case by (rule transaction_effect) (rule suspend_effect [OF _ suspend.prems refl])
next
  case (reject u now actor sid request reason corr db r db')
  from reject(1) show ?case unfolding rejectRoleRequest_def
    by (rule transaction_effect) (rule reject_effect [OF _ reject.prems])
next
  case (seed u now clock email hash db r db')
  then show ?case by (auto elim!: transaction_effect intro: seed_effect)
next
  case (relayed opts now locked answers db cr rows)
  from relayed_events [OF relayed(1)] show ?case by (simp add: account_effect.unmoved accounts_def)
qed (erule register_step resend_step reset_request_step change_password_step step_up_step pruned_step |
    erule (1) activate_step confirm_reset_step refresh_step reactivate_step request_role_step approve_step login_step |
    rule logout_effect |
    drule alert_step admin_read_step update_me_step, simp add: account_effect.unmoved)+

definition user_inv :: "user_env \<Rightarrow> user_db \<Rightarrow> bool" where
  "user_inv e db \<longleftrightarrow> accounts_ok (suspensionsLimitPerHour e) (accounts db)"

interpretation user_service: inductive_invariant user_start "user_step e" "user_inv e" for e
proof unfold_locales
  show "user_start db \<Longrightarrow> user_inv e db" for db
    by (simp add: user_start_def user_inv_def accounts_ok_empty)
  show "user_inv e db \<Longrightarrow> user_step e db db' \<Longrightarrow> user_inv e db'" for db db'
    unfolding user_inv_def using user_step_effect accounts_keep by blast
qed

end
