(* ===== verification/User_Guarantees.thy ===== *)
theory User_Guarantees
  imports User_System
begin

text \<open>
  What a single movement of the accounts, and any run of the User Service, guarantees: how the
  standing of an account can change, what a new password leaves behind, who may change who is an
  administrator, that an administrator always remains, and that a used link stays used.
\<close>

section \<open>One movement\<close>

text \<open>The three ways the standing of an account changes, each with its record in the same movement.\<close>

definition standing_moved :: "accounts \<Rightarrow> accounts \<Rightarrow> user_row \<Rightarrow> user_row \<Rightarrow> bool" where
  "standing_moved a a' x y \<longleftrightarrow>
     us_status x = PENDING_ACTIVATION \<and> us_status y = ACTIVE \<and>
       (\<exists>t. a_events a' = a_events a @ [activation_event (us_id x) t]) \<or>
     (\<exists>r t. a_audit a' = a_audit a @ [r] \<and> au_targetUserId r = us_id x \<and>
       au_actorId r \<noteq> None \<and> au_actorId r \<noteq> Some (us_id x) \<and>
       (us_status x = ACTIVE \<and> us_status y = SUSPENDED \<and> au_action r = SUSPEND \<and>
          a_events a' = a_events a @ [(USER_SUSPENDED, us_id x, UserStatusChangedPayload (us_id x) User_SUSPENDED (Some (au_id r)) t)] \<or>
        us_status x = SUSPENDED \<and> us_status y = ACTIVE \<and> au_action r = REACTIVATE \<and>
          a_events a' = a_events a @ [(USER_REACTIVATED, us_id x, UserStatusChangedPayload (us_id x) User_ACTIVE (Some (au_id r)) t)]))"

lemma updated_row:
  assumes "users_ok us" and "x \<in> set us" and "y \<in> set (update_rows (\<lambda>z. us_id z = i) f us)"
    and "us_id y = us_id x" and "\<And>z. us_id (f z) = us_id z"
  shows "y = (if us_id x = i then f x else x)"
proof -
  from assms(3) obtain z where z: "z \<in> set us" "y = (if us_id z = i then f z else z)"
    by (auto simp: set_update_rows)
  with assms(4,5) have "us_id z = us_id x" by (auto split: if_splits)
  with same_user [OF assms(1) z(1) assms(2)] z(2) show ?thesis by simp
qed

lemma standing_change:
  assumes "account_effect limit a a'" and "users_ok (a_users a)" and "x \<in> set (a_users a)" and "y \<in> set (a_users a')"
    and "us_id y = us_id x" and "us_status y \<noteq> us_status x"
  shows "standing_moved a a' x y"
  using assms
proof (induction rule: account_effect.induct)
  case (registered i a email t now)
  then show ?case by (auto simp: pending_user_def dest: same_user)
next
  case (seeded i a email r t now hash)
  then show ?case by (auto simp: account_parts pending_user_def dest: same_user)
next
  case (link_sent w a i t f now)
  have keep: "us_id (f z) = us_id z" "us_status (f z) = us_status z" for z using link_sent(6) by auto
  have "y = (if us_id x = i then f x else x)"
    using link_sent.prems keep(1) by (intro updated_row) (simp_all add: account_parts)
  with keep(2) link_sent.prems(5) show ?case by (simp split: if_splits)
next
  case (link_activated k a h now w t hash)
  have "y = (if us_id x = us_id w then proven now hash True x else x)"
    using link_activated.prems by (intro updated_row) (auto simp: account_parts)
  with link_activated same_user [OF link_activated.prems(1,2) link_activated(4)] show ?case
    by (auto simp: standing_moved_def account_parts split: if_splits)
next
  case (link_reset k a h now w t hash)
  have "y = (if us_id x = us_id w then proven now hash (us_status w = PENDING_ACTIVATION) x else x)"
    using link_reset.prems by (intro updated_row) (auto simp: account_parts)
  with link_reset same_user [OF link_reset.prems(1,2) link_reset(4)] show ?case
    by (auto simp: standing_moved_def account_parts split: if_splits)
next
  case (password_changed w a i now hash)
  have "y = (if us_id x = i then x\<lparr> us_passwordHash := Some hash, us_mustChangePassword := False, us_updatedAt := now \<rparr> else x)"
    using password_changed.prems by (intro updated_row) (auto simp: account_parts)
  with password_changed show ?case by (auto split: if_splits)
next
  case (suspended a v w now r t)
  have "y = (if us_id x = us_id w then x\<lparr> us_status := SUSPENDED, us_updatedAt := now \<rparr> else x)"
    using suspended.prems by (intro updated_row) (auto simp: account_parts)
  with suspended same_user [OF suspended.prems(1,2), of w] show ?case
    by (auto simp: standing_moved_def account_parts may_act_on_def audit_row_def split: if_splits)
next
  case (reactivated a v w r now t)
  have "y = (if us_id x = us_id w then x\<lparr> us_status := ACTIVE, us_updatedAt := now \<rparr> else x)"
    using reactivated.prems by (intro updated_row) (auto simp: account_parts)
  moreover have "us_id v \<noteq> us_id w"
    using reactivated same_user [OF reactivated.prems(1), of v w] by (auto simp: may_act_on_def active_admin_def)
  ultimately show ?case using reactivated same_user [OF reactivated.prems(1,2), of w]
    by (auto simp: standing_moved_def account_parts may_act_on_def audit_row_def split: if_splits)
qed (auto simp: account_parts dest: same_user)

text \<open>A new password ends every session and every unused reset link of its account.\<close>

definition settled :: "accounts \<Rightarrow> ident \<Rightarrow> bool" where
  "settled a i \<longleftrightarrow> (\<forall>s \<in> set (a_sessions a). rs_userId s = i \<longrightarrow> rs_revokedAt s \<noteq> None) \<and>
     (\<forall>t \<in> set (a_resets a). lt_userId t = i \<longrightarrow> lt_consumedAt t \<noteq> None)"

lemma settled_after:
  assumes "a_sessions a' = update_rows (\<lambda>s. rs_userId s = i \<and> rs_revokedAt s = None) (revoke now) ss"
    and "a_resets a' = without_unconsumed i ts"
  shows "settled a' i"
proof -
  have "rs_revokedAt s \<noteq> None" if "s \<in> set (a_sessions a')" "rs_userId s = i" for s
  proof -
    from that(1) obtain z where "z \<in> set ss" and z: "s = (if rs_userId z = i \<and> rs_revokedAt z = None then revoke now z else z)"
      unfolding assms(1) set_update_rows by blast
    show ?thesis using that(2) by (subst z, cases "rs_userId z = i \<and> rs_revokedAt z = None") (simp_all add: z)
  qed
  then show ?thesis by (simp add: settled_def assms(2) without_unconsumed_def)
qed

lemma password_change_settles:
  assumes "account_effect limit a a'" and "users_ok (a_users a)" and "x \<in> set (a_users a)" and "y \<in> set (a_users a')"
    and "us_id y = us_id x" and "us_passwordHash y \<noteq> us_passwordHash x"
  shows "settled a' (us_id x)"
  using assms
proof (induction rule: account_effect.induct)
  case (registered i a email t now)
  then show ?case by (auto simp: pending_user_def dest: same_user)
next
  case (seeded i a email r t now hash)
  then show ?case by (auto simp: account_parts pending_user_def dest: same_user)
next
  case (link_sent w a i t f now)
  have keep: "us_id (f z) = us_id z" "us_passwordHash z = None \<Longrightarrow> us_passwordHash (f z) = None" for z
    using link_sent(6) by auto
  have y: "y = (if us_id x = i then f x else x)"
    using link_sent.prems keep(1) by (intro updated_row) (simp_all add: account_parts)
  have "us_passwordHash x = None" if "us_id x = i"
    using that link_sent(2,3) same_user [OF link_sent.prems(1,2) link_sent(1)] users_ok_row [OF link_sent.prems(1,2)]
    by (simp add: user_ok_def)
  with y keep(2) link_sent.prems(5) show ?case by (simp split: if_splits)
next
  case (link_activated k a h now w t hash)
  have "y = (if us_id x = us_id w then proven now hash True x else x)"
    using link_activated.prems by (intro updated_row) (auto simp: account_parts)
  with link_activated show ?case by (auto intro!: settled_after simp: account_parts split: if_splits)
next
  case (link_reset k a h now w t hash)
  have "y = (if us_id x = us_id w then proven now hash (us_status w = PENDING_ACTIVATION) x else x)"
    using link_reset.prems by (intro updated_row) (auto simp: account_parts)
  with link_reset show ?case by (auto intro!: settled_after simp: account_parts split: if_splits)
next
  case (password_changed w a i now hash)
  have "y = (if us_id x = i then x\<lparr> us_passwordHash := Some hash, us_mustChangePassword := False, us_updatedAt := now \<rparr> else x)"
    using password_changed.prems by (intro updated_row) (auto simp: account_parts)
  with password_changed show ?case by (auto intro!: settled_after simp: account_parts split: if_splits)
next
  case (suspended a v w now r t)
  have "y = (if us_id x = us_id w then x\<lparr> us_status := SUSPENDED, us_updatedAt := now \<rparr> else x)"
    using suspended.prems by (intro updated_row) (auto simp: account_parts)
  with suspended show ?case by (auto split: if_splits)
next
  case (reactivated a v w r now t)
  have "y = (if us_id x = us_id w then x\<lparr> us_status := ACTIVE, us_updatedAt := now \<rparr> else x)"
    using reactivated.prems by (intro updated_row) (auto simp: account_parts)
  with reactivated show ?case by (auto split: if_splits)
qed (auto simp: account_parts dest: same_user)

section \<open>Administrators\<close>

text \<open>How somebody comes to hold, or to lose, the ADMIN role.\<close>

definition two_person_change :: "accounts \<Rightarrow> audit_record \<Rightarrow> ident \<Rightarrow> bool" where
  "two_person_change a r i \<longleftrightarrow> au_approval r = Some SECOND_ADMIN \<and> au_targetUserId r = i \<and>
     (\<exists>x z q. active_admin a x \<and> active_admin a z \<and> us_id x \<noteq> us_id z \<and> us_id x \<noteq> i \<and>
        au_actorId r = Some (us_id x) \<and> q \<in> set (a_requests a) \<and> pending_for i q \<and>
        rq_requestedBy q = us_id z \<and> au_action r = role_action (rq_role q))"

definition lone_change :: "accounts \<Rightarrow> audit_record \<Rightarrow> ident \<Rightarrow> bool" where
  "lone_change a r i \<longleftrightarrow> au_approval r = Some NO_APPROVER \<and> au_targetUserId r = i \<and>
     (\<exists>x. active_admin a x \<and> au_actorId r = Some (us_id x) \<and>
        (\<forall>j. holds_admin a j \<longrightarrow> j = us_id x \<or> j = i))"

definition bootstrap_of :: "accounts \<Rightarrow> audit_record \<Rightarrow> ident \<Rightarrow> bool" where
  "bootstrap_of a r i \<longleftrightarrow> au_action r = ADMIN_BOOTSTRAP \<and> au_actorId r = None \<and> i \<notin> us_id ` set (a_users a)"

lemma holds_admin_parts [simp]:
  "holds_admin (change_user j f a) i = holds_admin a i" "holds_admin (signed_out now p a) i = holds_admin a i"
  "holds_admin (told ev a) i = holds_admin a i" "holds_admin (audited r a) i = holds_admin a i"
  "holds_admin (inbox_proven now t j hash pending a) i = holds_admin a i"
  by (simp_all add: holds_admin_def account_parts)

lemma holds_admin_upd [simp]:
  "holds_admin (a\<lparr> a_activations := ts \<rparr>) i = holds_admin a i" "holds_admin (a\<lparr> a_resets := ts \<rparr>) i = holds_admin a i"
  "holds_admin (a\<lparr> a_sessions := ss \<rparr>) i = holds_admin a i" "holds_admin (a\<lparr> a_requests := qs \<rparr>) i = holds_admin a i"
  "holds_admin (a\<lparr> a_events := evs \<rparr>) i = holds_admin a i" "holds_admin (a\<lparr> a_users := us \<rparr>) i = holds_admin a i"
  by (simp_all add: holds_admin_def)

lemma holds_admin_roles:
  "holds_admin (a\<lparr> a_roles := a_roles a @ rs \<rparr>) i \<longleftrightarrow>
     holds_admin a i \<or> (\<exists>r \<in> set rs. ur_userId r = i \<and> ur_role r = ADMIN)"
  by (auto simp: holds_admin_def image_iff)

lemma holds_admin_with_role:
  "holds_admin (with_role g role a) i \<longleftrightarrow>
     (if role = ADMIN then holds_admin a i \<or> ur_userId g = i \<and> ur_role g = ADMIN
      else holds_admin a i \<and> i \<noteq> ur_userId g)"
  by (auto simp: holds_admin_def with_role_def image_iff)

lemma admin_change:
  assumes "account_effect limit a a'" and "holds_admin a' i \<noteq> holds_admin a i"
  shows "\<exists>r. a_audit a' = a_audit a @ [r] \<and> (two_person_change a r i \<or> lone_change a r i \<or> bootstrap_of a r i)"
  using assms
proof (induction rule: account_effect.induct)
  case (registered j a email t now)
  then show ?case by (simp add: holds_admin_def role_row_def)
next
  case (role_changed_alone a x y role a1 now r roles t)
  then have "i = us_id y" by (auto simp: holds_admin_with_role role_row_def split: if_splits)
  with role_changed_alone show ?case
    by (auto simp: lone_change_def audit_row_def account_parts intro!: exI [of _ r])
next
  case (role_approved a x z q y r now roles t why)
  then have "i = us_id y" by (auto simp: holds_admin_with_role role_row_def split: if_splits)
  then have "two_person_change a r i"
    using role_approved(1-10) unfolding two_person_change_def audit_row_def pending_for_def by auto
  then show ?case by (auto simp: account_parts)
next
  case (seeded j a email r t now hash)
  then have "i = j" by (auto simp: holds_admin_def role_row_def account_parts image_iff)
  with seeded show ?case by (auto simp: bootstrap_of_def account_parts)
qed (simp_all add: holds_admin_with_role account_parts)

text \<open>An active administrator of the bootstrap stays, whoever acts on whom.\<close>

definition anchored :: "accounts \<Rightarrow> bool" where
  "anchored a \<longleftrightarrow> (\<exists>x. active_admin a x \<and> us_isSeededAdmin x)"

lemma anchored_update:
  assumes "anchored a" and "\<And>z. us_id (f z) = us_id z" and "\<And>z. us_isSeededAdmin (f z) = us_isSeededAdmin z"
    and "\<And>z. us_status z = ACTIVE \<Longrightarrow> us_status (f z) = ACTIVE"
    and "a_users a' = update_rows p f (a_users a)" and "a_roles a' = a_roles a"
  shows "anchored a'"
proof -
  from assms(1) obtain x where x: "active_admin a x" "us_isSeededAdmin x" by (auto simp: anchored_def)
  let ?y = "if p x then f x else x"
  have "?y \<in> set (a_users a')" using x(1) by (auto simp: assms(5) set_update_rows active_admin_def)
  moreover have "us_id ?y = us_id x" "us_isSeededAdmin ?y" "us_status ?y = ACTIVE"
    using x assms(2-4) by (auto simp: active_admin_def)
  moreover have "holds_admin a' (us_id x)" using x(1) assms(6) by (simp add: active_admin_def holds_admin_def)
  ultimately show ?thesis unfolding anchored_def active_admin_def by (intro exI [of _ ?y]) simp
qed

lemma anchored_witness:
  assumes "x \<in> set (a_users a')" and "us_status x = ACTIVE" and "us_isSeededAdmin x" and "holds_admin a' (us_id x)"
  shows "anchored a'"
  using assms by (auto simp: anchored_def active_admin_def)

lemma anchored_same:
  "anchored a \<Longrightarrow> set (a_users a) \<subseteq> set (a_users a') \<Longrightarrow> (\<And>i. holds_admin a i \<Longrightarrow> holds_admin a' i) \<Longrightarrow> anchored a'"
  by (auto simp: anchored_def active_admin_def)

lemma role_change_anchored:
  assumes "anchored a" and "users_ok (a_users a)" and "active_admin a x" and "role_change_ok a (us_id x) y role"
    and "set (a_users a') = set (a_users a)" and "\<And>i. holds_admin a' i \<longleftrightarrow> holds_admin (with_role g role a) i"
    and "ur_userId g = us_id y"
  shows "anchored a'"
proof (cases "role = ADMIN")
  case True
  with assms show ?thesis by (intro anchored_same [OF assms(1)]) (auto simp: holds_admin_with_role)
next
  case False
  then obtain w where "w \<in> set (a_users a)" "us_id w = us_id x" "us_isSeededAdmin w" and "us_id x \<noteq> us_id y"
    using assms(4) by (auto simp: role_change_ok_def)
  moreover from this have "w = x" using assms(2,3) by (auto simp: active_admin_def dest: same_user)
  ultimately show ?thesis using assms(3,5,6,7) False
    by (intro anchored_witness [of x]) (auto simp: active_admin_def holds_admin_with_role)
qed

lemma anchor_stays:
  assumes "account_effect limit a a'" and "users_ok (a_users a)" and "anchored a"
  shows "anchored a'"
  using assms
proof (induction rule: account_effect.induct)
  case (link_sent x a i t f now)
  have "us_id (f z) = us_id z" "us_isSeededAdmin (f z) = us_isSeededAdmin z" "us_status (f z) = us_status z" for z
    using link_sent(6) by auto
  then show ?case by (intro anchored_update [OF link_sent.prems(2), of f]) (simp_all add: account_parts)
next
  case (link_activated k a h now x t hash)
  show ?case by (rule anchored_update [OF link_activated.prems(2), of "proven now hash True"])
    (simp_all add: account_parts proven_def Let_def)
next
  case (link_reset k a h now x t hash)
  show ?case
    by (rule anchored_update [OF link_reset.prems(2), of "proven now hash (us_status x = PENDING_ACTIVATION)"])
      (simp_all add: account_parts proven_def Let_def)
next
  case (password_changed x a i now hash)
  show ?case by (rule anchored_update [OF password_changed.prems(2)]) (simp_all add: account_parts)
next
  case (suspended a x y now r t)
  let ?a' = "told (USER_SUSPENDED, us_id y, UserStatusChangedPayload (us_id y) User_SUSPENDED (Some (au_id r)) t)
       (audited r (signed_out now (\<lambda>s. rs_userId s = us_id y)
         (change_user (us_id y) (\<lambda>z. z\<lparr> us_status := SUSPENDED, us_updatedAt := now \<rparr>) a)))"
  obtain z where z: "active_admin a z" "us_isSeededAdmin z" using suspended.prems(2) by (auto simp: anchored_def)
  have "\<exists>w. active_admin a w \<and> us_isSeededAdmin w \<and> us_id w \<noteq> us_id y"
    using suspended(1,2) z by (cases "us_id z = us_id y") (auto simp: may_act_on_def active_admin_def)
  then obtain w where w: "active_admin a w" "us_isSeededAdmin w" "us_id w \<noteq> us_id y" by blast
  then have "w \<in> set (a_users ?a')" by (auto simp: account_parts set_update_rows active_admin_def image_iff)
  with w show ?case by (intro anchored_witness [of w]) (auto simp: active_admin_def)
next
  case (reactivated a x y r now t)
  show ?case by (rule anchored_update [OF reactivated.prems(2)]) (simp_all add: account_parts)
next
  case (role_changed_alone a x y role a1 now r roles t)
  show ?case
    by (rule role_change_anchored [OF role_changed_alone.prems(2,1) role_changed_alone(1,2),
          where g = "role_row now (us_id y) ADMIN (Some (us_id x))"])
      (simp_all add: account_parts holds_admin_with_role role_changed_alone(4) role_row_def)
next
  case (role_approved a x z q y r now roles t why)
  show ?case
    by (rule role_change_anchored [OF role_approved.prems(2,1) role_approved(2) role_approved(9),
          where g = "role_row now (us_id y) ADMIN (Some (us_id z))"])
      (simp_all add: account_parts holds_admin_with_role role_row_def)
qed (auto simp: account_parts holds_admin_def elim!: anchored_same)

section \<open>A used link stays used\<close>

definition link_used :: "link_token list \<Rightarrow> string \<Rightarrow> bool" where
  "link_used ts h \<longleftrightarrow> (\<exists>t \<in> set ts. lt_tokenHash t = h \<and> lt_consumedAt t \<noteq> None)"

lemma link_used_delete: "link_used ts h \<Longrightarrow> link_used (without_unconsumed i ts) h"
  by (auto simp: link_used_def without_unconsumed_def)

lemma link_used_snoc: "link_used ts h \<Longrightarrow> link_used (ts @ [t]) h"
  by (auto simp: link_used_def)

lemma link_used_consume: "link_used ts h \<Longrightarrow> link_used (snd (consumed_by_hash now k ts)) h"
  by (fastforce simp: link_used_def consumed_by_hash_def set_update_rows live_link_def)

lemmas link_used_intros = link_used_delete link_used_snoc link_used_consume

text \<open>An account that is no longer pending never is again.\<close>

definition activated_account :: "ident \<Rightarrow> accounts \<Rightarrow> bool" where
  "activated_account i a \<longleftrightarrow> (\<exists>x \<in> set (a_users a). us_id x = i \<and> us_status x \<noteq> PENDING_ACTIVATION)"

lemma activated_update:
  assumes "activated_account i a" and "a_users a' = update_rows p f (a_users a)" and "\<And>x. us_id (f x) = us_id x"
    and "\<And>x. us_status x \<noteq> PENDING_ACTIVATION \<Longrightarrow> us_status (f x) \<noteq> PENDING_ACTIVATION"
  shows "activated_account i a'"
proof -
  from assms(1) obtain x where x: "x \<in> set (a_users a)" "us_id x = i" "us_status x \<noteq> PENDING_ACTIVATION"
    by (auto simp: activated_account_def)
  then have "(if p x then f x else x) \<in> set (a_users a')" by (auto simp: assms(2) set_update_rows)
  with x assms(3,4) show ?thesis
    unfolding activated_account_def by (intro bexI [of _ "if p x then f x else x"]) simp_all
qed

lemma activated_stays:
  assumes "account_effect limit a a'" and "activated_account i a"
  shows "activated_account i a'"
  using assms
proof (induction rule: account_effect.induct)
  case (link_sent x a i t f now)
  have "us_id (f z) = us_id z" "us_status (f z) = us_status z" for z using link_sent(6) by auto
  then show ?case by (intro activated_update [OF link_sent.prems, of _ _ f]) (simp_all add: account_parts)
next
  case (link_activated k a h now x t hash)
  show ?case by (rule activated_update [OF link_activated.prems, of _ _ "proven now hash True"])
    (simp_all add: account_parts proven_def Let_def)
next
  case (link_reset k a h now x t hash)
  show ?case
    by (rule activated_update [OF link_reset.prems, of _ _ "proven now hash (us_status x = PENDING_ACTIVATION)"])
      (simp_all add: account_parts proven_def Let_def)
next
  case (password_changed x a i now hash)
  show ?case by (rule activated_update [OF password_changed.prems, of _ _ "\<lambda>x. x\<lparr> us_passwordHash := Some hash,
      us_mustChangePassword := False, us_updatedAt := now \<rparr>"]) (simp_all add: account_parts)
next
  case (suspended a x y now r t)
  show ?case by (rule activated_update [OF suspended.prems, of _ _ "\<lambda>z. z\<lparr> us_status := SUSPENDED, us_updatedAt := now \<rparr>"]) (simp_all add: account_parts)
next
  case (reactivated a x y r now t)
  show ?case by (rule activated_update [OF reactivated.prems, of _ _ "\<lambda>z. z\<lparr> us_status := ACTIVE, us_updatedAt := now \<rparr>"]) (simp_all add: account_parts)
qed (auto simp: activated_account_def account_parts)

lemma used_activation_stays:
  assumes "account_effect limit a a'" and "link_used (a_activations a) h"
  shows "link_used (a_activations a') h"
  using assms by (induction rule: account_effect.induct) (simp_all add: account_parts link_used_intros)

lemma used_reset_stays:
  assumes "account_effect limit a a'" and "link_used (a_resets a) h"
  shows "link_used (a_resets a') h"
  using assms by (induction rule: account_effect.induct) (simp_all add: account_parts link_used_intros)

lemma claim_of_used:
  assumes "links_ok ts" and "link_used ts h"
  shows "consumed_by_hash now h ts = (None, ts)"
proof -
  have "\<not> (lt_tokenHash t = h \<and> live_link now t)" if "t \<in> set ts" for t
    using assms that by (auto simp: links_ok_def link_used_def live_link_def distinct_map dest: inj_onD)
  then have "find (\<lambda>t. lt_tokenHash t = h \<and> live_link now t) ts = None" by (auto simp: find_None_iff)
  then show ?thesis using consumed_None [of now h ts] by (simp add: consumed_by_hash_def)
qed

lemma used_once_claimed:
  assumes "consumed_by_hash now h ts = (Some i, ts')"
  shows "link_used ts' h"
proof -
  from assms obtain k where "k \<in> set ts" "lt_tokenHash k = h" "live_link now k" by (rule consumed_by_hash_Some)
  then have "k\<lparr> lt_consumedAt := Some now \<rparr> \<in> set ts'"
    using assms by (auto simp: consumed_by_hash_def set_update_rows intro!: image_eqI [of _ _ k])
  then show ?thesis using \<open>lt_tokenHash k = h\<close> by (auto simp: link_used_def intro!: bexI [of _ "k\<lparr> lt_consumedAt := Some now \<rparr>"])
qed

end
