(* ===== verification/User_Demo.thy ===== *)
theory User_Demo
  imports User_Guarantees
begin

text \<open>
  A run of the User Service for the witnesses: two bootstrap administrators choose passwords and
  sign in, two students register, one activates, signs in and refreshes; the administrators
  appoint the student, and suspend and reactivate her.
\<close>

definition demo_user_env :: user_env where
  "demo_user_env = \<lparr> sha256Hex = (\<lambda>s. CHR ''#'' # s), argon2_hash = (\<lambda>salt p. CHR ''$'' # p),
     argon2_verify = (\<lambda>h p. Some (h = CHR ''$'' # p)), nfkc = (\<lambda>s. s), allowedEmailDomains = [''u''],
     activationTokenTtlMinutes = 30, passwordResetTokenTtlMinutes = 30, bootstrapPassword = Some ''boot'',
     roleRequestTtlHours = 24, stepUpWindowSeconds = 300, suspensionsAlertPerHour = 10,
     suspensionsLimitPerHour = 20, readsAlertPerHour = 50 \<rparr>"

definition user_ids :: "char \<Rightarrow> uuids" where
  "user_ids c n = c # replicate n CHR ''0''"

definition empty_users :: user_db where
  "empty_users = \<lparr> outbox_events = [], outbox_seq = 0, processed_events = [], users = [], user_roles = [],
     profiles = [], activation_tokens = [], password_reset_tokens = [], refresh_sessions = [],
     audit_records = [], role_change_requests = [], admin_reads = [], admin_alerts = [] \<rparr>"

abbreviation demo_reachable_user :: "user_db \<Rightarrow> bool" where
  "demo_reachable_user \<equiv> reachable user_start (user_step demo_user_env)"

definition us_seeded :: "char \<Rightarrow> string \<Rightarrow> user_db \<Rightarrow> user_db" where
  "us_seeded c email db = snd (transaction (seedUsing (user_ids c) 0 0 email ''$boot'') db)"

definition us_rekeyed :: "time \<Rightarrow> string \<Rightarrow> string \<Rightarrow> string \<Rightarrow> user_db \<Rightarrow> user_db" where
  "us_rekeyed now email old new db = snd (changePassword demo_user_env ''-'' db now ''s'' email old new db)"

definition us_logged_in :: "char \<Rightarrow> time \<Rightarrow> string \<Rightarrow> string \<Rightarrow> string \<Rightarrow> user_db \<Rightarrow> user_db" where
  "us_logged_in c now token email password db =
     snd (login demo_user_env (user_ids c) ''-'' db now token email password db)"

definition us_registered :: "char \<Rightarrow> time \<Rightarrow> string \<Rightarrow> string \<Rightarrow> user_db \<Rightarrow> user_db" where
  "us_registered c now token email db = fst (snd (register demo_user_env (user_ids c) now token email ''S'' db))"

definition us_activated :: "char \<Rightarrow> time \<Rightarrow> string \<Rightarrow> string \<Rightarrow> user_db \<Rightarrow> user_db" where
  "us_activated c now token password db =
     snd (activate demo_user_env (user_ids c) now db now now ''s'' token password ''cor'' db)"

text \<open>The states of the run, each the next step of the one before.\<close>

definition us0 :: user_db where "us0 = us_seeded CHR ''b'' ''b@u'' (us_seeded CHR ''a'' ''a@u'' empty_users)"
definition us1 :: user_db where "us1 = us_rekeyed 10 ''b@u'' ''boot'' ''pw-b'' (us_rekeyed 10 ''a@u'' ''boot'' ''pw-a'' us0)"
definition us2 :: user_db where
  "us2 = us_logged_in CHR ''q'' 20 ''tq'' ''b@u'' ''pw-b'' (us_logged_in CHR ''p'' 20 ''tp'' ''a@u'' ''pw-a'' us1)"
definition us3 :: user_db where
  "us3 = us_registered CHR ''t'' 30 ''lt'' ''t@u'' (us_registered CHR ''s'' 30 ''ls'' ''s@u'' us2)"
definition us4 :: user_db where "us4 = us_activated CHR ''e'' 40 ''ls'' ''pw-s'' us3"
definition us5 :: user_db where "us5 = us_logged_in CHR ''r'' 50 ''tr'' ''s@u'' ''pw-s'' us4"
definition us6 :: user_db where "us6 = snd (refresh demo_user_env (user_ids CHR ''v'') 60 ''tv'' (Some ''tr'') us5)"
definition us_stepped :: user_db where
  "us_stepped = snd (stepUp demo_user_env ''-'' (snd (stepUp demo_user_env ''-'' us6 70 ''a'' ''p'' ''pw-a'' us6)) 70 ''b'' ''q'' ''pw-b''
     (snd (stepUp demo_user_env ''-'' us6 70 ''a'' ''p'' ''pw-a'' us6)))"
definition us7 :: user_db where
  "us7 = snd (requestRoleChange demo_user_env (user_ids CHR ''w'') 80 80 ''a'' ''p'' ''s'' ADMIN ''help'' ''cor'' us_stepped)"
definition us8 :: user_db where
  "us8 = snd (approveRoleRequest demo_user_env (user_ids CHR ''x'') 90 90 ''b'' ''q'' ''w'' ''yes'' ''cor'' us7)"
definition us9 :: user_db where
  "us9 = snd (transaction (suspendUsing demo_user_env (user_ids CHR ''y'') 100 100 ''a'' ''p'' ''s'' ''bad'' ''cor'') us8)"

lemma user_start_empty: "user_start empty_users"
  by (simp add: user_start_def empty_users_def accounts_def)

lemma us_seeded_reach: "demo_reachable_user db \<Longrightarrow> demo_reachable_user (us_seeded c email db)"
  unfolding us_seeded_def by (erule reachable_step) (rule user_step.seed, rule surjective_pairing)

lemma us_rekeyed_reach: "demo_reachable_user db \<Longrightarrow> demo_reachable_user (us_rekeyed now email old new db)"
  unfolding us_rekeyed_def by (erule reachable_step) (rule user_step.change_password, rule surjective_pairing)

lemma us_logged_in_reach:
  "demo_reachable_user db \<Longrightarrow> randomUUID (user_ids c) 1 \<notin> rs_familyId ` set (refresh_sessions db) \<Longrightarrow>
     demo_reachable_user (us_logged_in c now token email password db)"
  unfolding us_logged_in_def by (erule reachable_step) (rule user_step.login, rule surjective_pairing)

lemma us_registered_reach: "demo_reachable_user db \<Longrightarrow> demo_reachable_user (us_registered c now token email db)"
  unfolding us_registered_def
  by (metis prod.collapse reachable_step user_step.register)

lemma us_activated_reach: "demo_reachable_user db \<Longrightarrow> demo_reachable_user (us_activated c now token password db)"
  unfolding us_activated_def by (erule reachable_step) (rule user_step.activate, rule surjective_pairing)

lemmas us_reach = us_seeded_reach us_rekeyed_reach us_logged_in_reach us_registered_reach us_activated_reach

lemma us_families:
  "map rs_familyId (refresh_sessions us1) = []"
  "map rs_familyId (refresh_sessions (us_logged_in CHR ''p'' 20 ''tp'' ''a@u'' ''pw-a'' us1)) = [''p0'']"
  "map rs_familyId (refresh_sessions us4) = [''p0'', ''q0'']"
  by code_simp+

lemma us_run_reachable:
  "demo_reachable_user us2" "demo_reachable_user us3" "demo_reachable_user us4" "demo_reachable_user us5"
  "demo_reachable_user us6" "demo_reachable_user us_stepped" "demo_reachable_user us7" "demo_reachable_user us8"
  "demo_reachable_user us9"
proof -
  have fresh: "randomUUID (user_ids c) 1 \<notin> rs_familyId ` set (refresh_sessions db)"
    if "map rs_familyId (refresh_sessions db) = fs" "randomUUID (user_ids c) 1 \<notin> set fs" for c fs db
    using that by auto
  have ids: "randomUUID (user_ids CHR ''p'') 1 = ''p0''" "randomUUID (user_ids CHR ''q'') 1 = ''q0''"
    "randomUUID (user_ids CHR ''r'') 1 = ''r0''" by code_simp+
  have "demo_reachable_user us1" unfolding us1_def us0_def
    by (intro us_reach reachable_init user_start_empty)
  then show r2: "demo_reachable_user us2" unfolding us2_def
    by (intro us_reach fresh [OF us_families(1)] fresh [OF us_families(2)]) (simp_all add: ids del: One_nat_def)
  then show r3: "demo_reachable_user us3" unfolding us3_def by (intro us_reach)
  then show r4: "demo_reachable_user us4" unfolding us4_def by (intro us_reach)
  then show r5: "demo_reachable_user us5" unfolding us5_def
    by (intro us_reach fresh [OF us_families(3)]) (simp_all add: ids del: One_nat_def)
  then show r6: "demo_reachable_user us6" unfolding us6_def
    by (rule reachable_step) (rule user_step.refresh, rule surjective_pairing)
  then show rs: "demo_reachable_user us_stepped" unfolding us_stepped_def
    by (intro reachable_step [OF reachable_step [OF r6]]) (rule user_step.step_up, rule surjective_pairing)+
  then show r7: "demo_reachable_user us7" unfolding us7_def
    by (rule reachable_step) (rule user_step.request_role, rule surjective_pairing)
  then show r8: "demo_reachable_user us8" unfolding us8_def
    by (rule reachable_step) (rule user_step.approve, rule surjective_pairing)
  then show "demo_reachable_user us9" unfolding us9_def
    by (rule reachable_step) (rule user_step.suspend, rule surjective_pairing)
qed

text \<open>What the rows of a state are, each from one evaluation of the whole table.\<close>

lemma row_at:
  assumes "map f xs = ys" and "k < length ys"
  shows "xs ! k \<in> set xs" and "f (xs ! k) = ys ! k"
  using assms by auto

definition us_rows :: "user_db \<Rightarrow> (ident \<times> account_status \<times> string option \<times> bool) list" where
  "us_rows db = map (\<lambda>x. (us_id x, us_status x, us_passwordHash x,
     us_isSeededAdmin x \<and> ADMIN \<in> set (rolesOf db (us_id x)))) (users db)"

lemma us_rows_4:
  "us_rows us4 = [(''a'', ACTIVE, Some ''$pw-a'', True), (''b'', ACTIVE, Some ''$pw-b'', True),
     (''s'', ACTIVE, Some ''$pw-s'', False), (''t'', PENDING_ACTIVATION, None, False)]"
  by code_simp

lemma us_rows_6:
  "us_rows us6 = [(''a'', ACTIVE, Some ''$pw-a'', True), (''b'', ACTIVE, Some ''$pw-b'', True),
     (''s'', ACTIVE, Some ''$pw-s'', False), (''t'', PENDING_ACTIVATION, None, False)]"
  by code_simp

lemma us_rows_8:
  "us_rows us8 = [(''a'', ACTIVE, Some ''$pw-a'', True), (''b'', ACTIVE, Some ''$pw-b'', True),
     (''s'', ACTIVE, Some ''$pw-s'', False), (''t'', PENDING_ACTIVATION, None, False)]"
  by code_simp

lemma us_rows_9:
  "us_rows us9 = [(''a'', ACTIVE, Some ''$pw-a'', True), (''b'', ACTIVE, Some ''$pw-b'', True),
     (''s'', SUSPENDED, Some ''$pw-s'', False), (''t'', PENDING_ACTIVATION, None, False)]"
  by code_simp

lemmas us_tables = us_rows_4 us_rows_6 us_rows_8 us_rows_9

lemma us_row:
  assumes "us_rows db = ys" and "k < length ys"
  shows "users db ! k \<in> set (users db)" and "us_id (users db ! k) = fst (ys ! k)"
    and "us_status (users db ! k) = fst (snd (ys ! k))" and "us_passwordHash (users db ! k) = fst (snd (snd (ys ! k)))"
    and "us_isSeededAdmin (users db ! k) \<and> ADMIN \<in> set (rolesOf db (us_id (users db ! k))) \<longleftrightarrow> snd (snd (snd (ys ! k)))"
  using row_at [OF assms(1) [unfolded us_rows_def] assms(2)] by (simp, metis fst_conv, metis fst_conv snd_conv,
    metis fst_conv snd_conv, metis snd_conv)

lemma us_approvals:
  "map (\<lambda>r. (au_action r, au_approval r)) (audit_records us8) =
     [(ADMIN_BOOTSTRAP, None), (ADMIN_BOOTSTRAP, None), (ROLE_CHANGE_REQUESTED, None), (ROLE_GRANT, Some SECOND_ADMIN)]"
  "map (\<lambda>s. (rs_tokenHash s, rs_rotatedAt s, rs_familyId s)) (refresh_sessions us6) =
     [(''#tp'', None, ''p0''), (''#tq'', None, ''q0''), (''#tr'', Some 60, ''r0''), (''#tv'', None, ''r0'')]"
  by code_simp+

end
