(* ===== verification/User_Limits.thy ===== *)
theory User_Limits
  imports User_Accounts "HOL-Library.AList"
begin

text \<open>
  The User Service's attempt limits (user-service/src/auth/rate-limiter.ts): fixed windows per
  key in memory, the configured limits and what production accepts of them, and the refusal of
  an attempt over its limit (users/auth.controller.ts). Times are milliseconds of the process's
  clock. A \<open>Map\<close> is an association list in insertion order.
\<close>

section \<open>A limiter\<close>

record rate_window =
  wn_count :: nat
  wn_resetsAt :: int

record rate_limiter =
  rl_limit :: nat
  rl_windowMs :: int
  rl_windows :: "(string \<times> rate_window) list"

record hit_result =
  hr_allowed :: bool
  hr_retryAfterSeconds :: int

definition prune_windows :: "int \<Rightarrow> (string \<times> rate_window) list \<Rightarrow> (string \<times> rate_window) list" where
  "prune_windows now ws = filter (\<lambda>(_, w). \<not> wn_resetsAt w \<le> now) ws"

text \<open>The window an attempt falls in: the open one of its key, or a new one.\<close>

definition window_at :: "int \<Rightarrow> int \<Rightarrow> rate_window option \<Rightarrow> rate_window" where
  "window_at now windowMs found =
     (case found of
        Some w \<Rightarrow> if wn_resetsAt w \<le> now then \<lparr> wn_count = 0, wn_resetsAt = now + windowMs \<rparr> else w
      | None \<Rightarrow> \<lparr> wn_count = 0, wn_resetsAt = now + windowMs \<rparr>)"

definition counted :: "rate_window \<Rightarrow> rate_window" where
  "counted w = w\<lparr> wn_count := wn_count w + 1 \<rparr>"

text \<open>\<open>Math.ceil(ms / 1000)\<close>.\<close>

definition ceil_seconds :: "int \<Rightarrow> int" where
  "ceil_seconds ms = - ((- ms) div 1000)"

definition verdict :: "nat \<Rightarrow> int \<Rightarrow> rate_window \<Rightarrow> hit_result" where
  "verdict limit now w =
     \<lparr> hr_allowed = (wn_count w \<le> limit), hr_retryAfterSeconds = max 1 (ceil_seconds (wn_resetsAt w - now)) \<rparr>"

definition PRUNE_ABOVE :: nat where "PRUNE_ABOVE = 10000"

definition hit :: "int \<Rightarrow> string \<Rightarrow> rate_limiter \<Rightarrow> hit_result \<times> rate_limiter" where
  "hit now key limiter =
     (let ws = (if PRUNE_ABOVE < length (rl_windows limiter) then prune_windows now (rl_windows limiter)
                else rl_windows limiter);
          w = counted (window_at now (rl_windowMs limiter) (map_of ws key))
      in (verdict (rl_limit limiter) now w, limiter\<lparr> rl_windows := AList.update key w ws \<rparr>))"

text \<open>The attempts of a run, each with its time and its key, and the verdict on each.\<close>

fun hits :: "(int \<times> string) list \<Rightarrow> rate_limiter \<Rightarrow> hit_result list" where
  "hits [] limiter = []"
| "hits ((now, key) # rest) limiter = (let (r, limiter') = hit now key limiter in r # hits rest limiter')"

definition limiter :: "nat \<Rightarrow> int \<Rightarrow> rate_limiter" where
  "limiter limit windowMs = \<lparr> rl_limit = limit, rl_windowMs = windowMs, rl_windows = [] \<rparr>"

section \<open>The limits and who is limited\<close>

record auth_rate_limits =
  lm_loginPerIp :: nat
  lm_loginPerEmail :: nat
  lm_registerPerIp :: nat

definition DEFAULT_AUTH_LIMITS :: auth_rate_limits where
  "DEFAULT_AUTH_LIMITS = \<lparr> lm_loginPerIp = 50, lm_loginPerEmail = 10, lm_registerPerIp = 20 \<rparr>"

definition raised_limits :: "auth_rate_limits \<Rightarrow> string list" where
  "raised_limits configured =
     map fst (filter (\<lambda>(_, limit). limit DEFAULT_AUTH_LIMITS < limit configured)
       [(''LOGIN_LIMIT_PER_IP'', lm_loginPerIp), (''LOGIN_LIMIT_PER_EMAIL'', lm_loginPerEmail),
        (''REGISTER_LIMIT_PER_IP'', lm_registerPerIp)])"

text \<open>The error message names the variables; the model keeps their names.\<close>

definition authRateLimits :: "auth_rate_limits \<Rightarrow> bool \<Rightarrow> string list + auth_rate_limits" where
  "authRateLimits configured production =
     (if \<not> production then Inr configured
      else if raised_limits configured \<noteq> [] then Inl (raised_limits configured)
      else Inr configured)"

record auth_rate_limiters =
  loginPerEmail :: rate_limiter
  loginPerIp :: rate_limiter
  registerPerIp :: rate_limiter
  stepUpPerUser :: rate_limiter
  resendPerEmail :: rate_limiter
  resendPerIp :: rate_limiter
  resetPerEmail :: rate_limiter
  resetPerIp :: rate_limiter

definition createRateLimiters :: "auth_rate_limits \<Rightarrow> auth_rate_limiters" where
  "createRateLimiters limits =
     \<lparr> loginPerEmail = limiter (lm_loginPerEmail limits) (15 * 60000),
       loginPerIp = limiter (lm_loginPerIp limits) (15 * 60000),
       registerPerIp = limiter (lm_registerPerIp limits) (60 * 60000),
       stepUpPerUser = limiter 10 (15 * 60000),
       resendPerEmail = limiter 3 (60 * 60000), resendPerIp = limiter 20 (60 * 60000),
       resetPerEmail = limiter 3 (60 * 60000), resetPerIp = limiter 20 (60 * 60000) \<rparr>"

text \<open>An attempt over the limit is refused with how long to wait.\<close>

definition limit_attempt :: "int \<Rightarrow> string \<Rightarrow> rate_limiter \<Rightarrow> (service_error \<times> int + unit) \<times> rate_limiter" where
  "limit_attempt now key l =
     (let (r, l') = hit now key l
      in (if hr_allowed r then Inr () else Inl (api_error 429 ''RATE_LIMITED'', hr_retryAfterSeconds r), l'))"

section \<open>What pruning may not change\<close>

text \<open>
  The reference: a window per key and nothing pruned. The table of a limiter stands for a state of
  the reference up to windows that are over: on those the two agree once the clock has passed them.
\<close>

fun reference :: "nat \<Rightarrow> int \<Rightarrow> (string \<Rightarrow> rate_window option) \<Rightarrow> (int \<times> string) list \<Rightarrow> hit_result list" where
  "reference limit windowMs ws [] = []"
| "reference limit windowMs ws ((now, key) # rest) =
     (let w = counted (window_at now windowMs (ws key))
      in verdict limit now w # reference limit windowMs (ws(key \<mapsto> w)) rest)"

definition same_windows :: "int \<Rightarrow> (string \<Rightarrow> rate_window option) \<Rightarrow> (string \<Rightarrow> rate_window option) \<Rightarrow> bool" where
  "same_windows now f g \<longleftrightarrow> (\<forall>t \<ge> now. \<forall>k m. window_at t m (f k) = window_at t m (g k))"

lemma same_windows_later: "same_windows now f g \<Longrightarrow> now \<le> now' \<Longrightarrow> same_windows now' f g"
  by (auto simp: same_windows_def)

lemma same_windows_put: "same_windows now f g \<Longrightarrow> same_windows now (f(k \<mapsto> w)) (g(k \<mapsto> w))"
  by (simp add: same_windows_def)

lemma map_of_prune:
  assumes "distinct (map fst ws)"
  shows "map_of (prune_windows now ws) k =
    (case map_of ws k of None \<Rightarrow> None | Some w \<Rightarrow> if wn_resetsAt w \<le> now then None else Some w)"
  using assms by (induction ws) (auto simp: prune_windows_def split: option.splits dest: map_of_SomeD intro: rev_image_eqI)

lemma distinct_prune: "distinct (map fst ws) \<Longrightarrow> distinct (map fst (prune_windows now ws))"
  unfolding prune_windows_def by (rule distinct_map_filter)

lemma same_windows_prune:
  assumes "distinct (map fst ws)"
  shows "same_windows now (map_of ws) (map_of (prune_windows now ws))"
  using assms by (auto simp: same_windows_def map_of_prune window_at_def split: option.splits)

lemma same_windows_trans: "same_windows now f g \<Longrightarrow> same_windows now g h \<Longrightarrow> same_windows now f h"
  by (simp add: same_windows_def)

lemma same_windows_sym: "same_windows now f g \<Longrightarrow> same_windows now g f"
  by (simp add: same_windows_def)

lemma hits_reference:
  assumes "sorted (map fst attempts)" and "\<forall>a \<in> set attempts. now \<le> fst a"
    and "distinct (map fst (rl_windows l))" and "same_windows now (map_of (rl_windows l)) ws"
  shows "hits attempts l = reference (rl_limit l) (rl_windowMs l) ws attempts"
  using assms
proof (induction attempts arbitrary: l ws now)
  case Nil
  then show ?case by simp
next
  case (Cons a rest)
  obtain t k where a: "a = (t, k)" by (cases a)
  let ?p = "if PRUNE_ABOVE < length (rl_windows l) then prune_windows t (rl_windows l) else rl_windows l"
  have same: "same_windows t (map_of ?p) ws"
    using same_windows_later [OF Cons.prems(4), of t] same_windows_prune [OF Cons.prems(3), of t] Cons.prems(2) a
    by (auto intro: same_windows_trans same_windows_sym)
  then have w: "window_at t (rl_windowMs l) (map_of ?p k) = window_at t (rl_windowMs l) (ws k)"
    by (simp add: same_windows_def)
  have "distinct (map fst (AList.update k (counted (window_at t (rl_windowMs l) (ws k))) ?p))"
    using Cons.prems(3) by (auto intro: distinct_update distinct_prune)
  moreover have "same_windows t (map_of (AList.update k (counted (window_at t (rl_windowMs l) (ws k))) ?p))
      (ws(k \<mapsto> counted (window_at t (rl_windowMs l) (ws k))))"
    unfolding update_conv' by (rule same_windows_put [OF same])
  ultimately show ?case
    using Cons.IH [of t "l\<lparr> rl_windows := AList.update k (counted (window_at t (rl_windowMs l) (ws k))) ?p \<rparr>"] Cons.prems(1) w
    by (simp add: a hit_def Let_def)
qed

section \<open>How many attempts get through\<close>

text \<open>The attempts of one key let through in a span of time.\<close>

fun let_through :: "string \<Rightarrow> int \<Rightarrow> int \<Rightarrow> (int \<times> string) list \<Rightarrow> hit_result list \<Rightarrow> nat" where
  "let_through key t u ((now, k) # attempts) (r # rs) =
     (if k = key \<and> t \<le> now \<and> now < u \<and> hr_allowed r then 1 else 0) + let_through key t u attempts rs"
| "let_through key t u _ _ = 0"

lemma none_after:
  assumes "\<forall>a \<in> set attempts. u \<le> fst a"
  shows "let_through key t u attempts rs = 0"
  using assms by (induction key t u attempts rs rule: let_through.induct) auto

text \<open>The window that covers the rest of the span lets through what is left of it.\<close>

lemma through_late:
  assumes "sorted (map fst attempts)" and "ws key = Some w" and "u \<le> wn_resetsAt w"
  shows "let_through key t u attempts (reference limit m ws attempts) \<le> limit - wn_count w"
  using assms
proof (induction attempts arbitrary: ws w)
  case Nil
  then show ?case by simp
next
  case (Cons a rest)
  obtain now k where a: "a = (now, k)" by (cases a)
  show ?case
  proof (cases "now < u")
    case False
    with Cons.prems(1) a have "\<forall>b \<in> set (a # rest). u \<le> fst b" by auto
    then show ?thesis using none_after [of "a # rest"] by simp
  next
    case inside: True
    show ?thesis
    proof (cases "k = key")
      case True
      with inside Cons.prems a have "window_at now m (ws k) = w" by (simp add: window_at_def)
      moreover have "let_through key t u rest (reference limit m (ws(key \<mapsto> counted w)) rest) \<le> limit - wn_count (counted w)"
        using Cons.prems by (intro Cons.IH) (simp_all add: counted_def)
      ultimately show ?thesis using True by (auto simp: a Let_def verdict_def counted_def)
    next
      case False
      with Cons a show ?thesis by (simp add: Let_def)
    qed
  qed
qed

lemma through_inside:
  assumes "sorted (map fst attempts)" and "\<forall>a \<in> set attempts. t \<le> fst a"
  shows "let_through key t (t + m) attempts (reference limit m ws attempts) \<le>
    (case ws key of None \<Rightarrow> 0 | Some w \<Rightarrow> limit - wn_count w) + limit"
  using assms
proof (induction attempts arbitrary: ws)
  case Nil
  then show ?case by simp
next
  case (Cons a rest)
  obtain now k where a: "a = (now, k)" by (cases a)
  show ?case
  proof (cases "k = key")
    case False
    define ws' where "ws' = ws(k \<mapsto> counted (window_at now m (ws k)))"
    have "ws' key = ws key" using False by (simp add: ws'_def)
    with Cons.IH [of ws'] Cons.prems False show ?thesis by (simp add: a Let_def ws'_def [symmetric])
  next
    case key: True
    let ?w = "window_at now m (ws key)"
    show ?thesis
    proof (cases "ws key = Some ?w")
      case True
      have "let_through key t (t + m) rest (reference limit m (ws(key \<mapsto> counted ?w)) rest)
          \<le> (limit - wn_count (counted ?w)) + limit"
      proof -
        define ws' where "ws' = ws(key \<mapsto> counted ?w)"
        then have "ws' key = Some (counted ?w)" by simp
        then show ?thesis using Cons.IH [of ws'] Cons.prems by (simp add: ws'_def [symmetric])
      qed
      moreover have "(case ws key of None \<Rightarrow> 0 | Some w \<Rightarrow> limit - wn_count w) = limit - wn_count ?w"
        using arg_cong [OF True, of "\<lambda>x. case x of None \<Rightarrow> 0 | Some w \<Rightarrow> limit - wn_count w"] by simp
      ultimately show ?thesis using key by (auto simp: a Let_def verdict_def counted_def)
    next
      case False
      then have new: "?w = \<lparr> wn_count = 0, wn_resetsAt = now + m \<rparr>"
        by (auto simp: window_at_def split: option.splits if_splits)
      have "let_through key t (t + m) rest (reference limit m (ws(key \<mapsto> counted ?w)) rest) \<le> limit - wn_count (counted ?w)"
        using Cons.prems a by (intro through_late) (simp_all add: counted_def new)
      then show ?thesis using key new by (auto simp: a Let_def verdict_def counted_def split: option.splits)
    qed
  qed
qed

lemma through_span:
  assumes "sorted (map fst attempts)"
  shows "let_through key t (t + m) attempts (reference limit m ws attempts) \<le> 2 * limit"
  using assms
proof (induction attempts arbitrary: ws)
  case Nil
  then show ?case by simp
next
  case (Cons a rest)
  obtain now k where a: "a = (now, k)" by (cases a)
  show ?case
  proof (cases "t \<le> now")
    case True
    with Cons.prems a have "\<forall>b \<in> set (a # rest). t \<le> fst b" by auto
    from through_inside [OF Cons.prems this, of key m limit ws] show ?thesis
      by (auto split: option.splits)
  next
    case False
    with Cons a show ?thesis by (simp add: Let_def)
  qed
qed

lemma limiter_span:
  assumes "sorted (map fst attempts)" and "\<forall>a \<in> set attempts. now \<le> fst a"
  shows "let_through key t (t + m) attempts (hits attempts (limiter limit m)) \<le> 2 * limit"
  using through_span [OF assms(1), of key t m limit Map.empty]
    hits_reference [OF assms, of "limiter limit m" Map.empty] by (simp add: limiter_def same_windows_def)

end
