(* ===== verification/User_Properties.thy ===== *)
theory User_Properties
  imports User_Demo User_Limits
begin

text \<open>
  What the User Service guarantees, in every state it can reach and of every request: how accounts
  stand and change standing, who may make an administrator, what links, passwords and refresh
  tokens are good for, and how many attempts get through.
\<close>

section \<open>Runs\<close>

lemma filter_unique: "distinct (map k xs) \<Longrightarrow> x \<in> set xs \<Longrightarrow> filter (\<lambda>y. k y = k x) xs = [x]"
proof (induction xs)
  case (Cons z zs)
  then show ?case by (cases "z = x") (auto simp: filter_empty_conv image_iff)
qed simp

lemma reachable_accounts_ok:
  "reachable user_start (user_step e) db \<Longrightarrow> accounts_ok (suspensionsLimitPerHour e) (accounts db)"
  using user_service.holds [of e db] by (simp add: user_inv_def)

lemma reachable_effect:
  "reachable user_start (user_step e) db \<Longrightarrow> user_step e db db' \<Longrightarrow>
     account_effect (suspensionsLimitPerHour e) (accounts db) (accounts db')"
  using user_step_effect [OF _ reachable_accounts_ok] by blast

lemma reachable_parts:
  assumes "reachable user_start (user_step e) db"
  shows "users_ok (users db)" "activations_ok (users db) (activation_tokens db)"
    "sessions_ok (users db) (refresh_sessions db)" "bounded_ok (suspensionsLimitPerHour e) (audit_records db)"
    "told_ok (users db) (map row_event (outbox_events db))"
  using reachable_accounts_ok [OF assms] by (simp_all add: accounts_ok_def)

lemma stays_along:
  assumes stays: "\<And>a a' limit. account_effect limit a a' \<Longrightarrow> users_ok (a_users a) \<Longrightarrow> P a \<Longrightarrow> P a'"
    and "(user_step e)\<^sup>*\<^sup>* db db'" and "reachable user_start (user_step e) db" and "P (accounts db)"
  shows "P (accounts db') \<and> reachable user_start (user_step e) db'"
  using assms(2-4)
proof (induction rule: rtranclp_induct)
  case base
  then show ?case by blast
next
  case (step y z)
  then have y: "reachable user_start (user_step e) y" "P (accounts y)" by blast+
  from stays [OF reachable_effect [OF y(1) step(2)] _ y(2)] reachable_parts(1) [OF y(1)]
    reachable_step [OF y(1) step(2)] show ?case by simp
qed

section \<open>Accounts\<close>

text \<open>
  C16. Every step of the User Service, whatever the request and however it interleaves with
  others, is one of the few movements the specification of the accounts allows, or moves nothing.
\<close>

theorem steps_refine_account_movements:
  assumes "reachable user_start (user_step e) db" and "user_step e db db'"
  shows "account_effect (suspensionsLimitPerHour e) (accounts db) (accounts db')"
  using assms by (rule reachable_effect)

theorem steps_refine_account_movements_witness:
  "account_effect 20 (accounts us5) (accounts us6)"
proof -
  have "user_step demo_user_env us5 us6" unfolding us6_def by (rule user_step.refresh, rule surjective_pairing)
  from steps_refine_account_movements [OF us_run_reachable(4) this] show ?thesis by (simp add: demo_user_env_def)
qed

text \<open>
  C17. In every reachable state, an account waits for its activation exactly as long as it has no
  password and no activation time, its id is in canonical form, and no two accounts share an
  address in any case.
\<close>

theorem account_shape:
  assumes "reachable user_start (user_step e) db" and "x \<in> set (users db)"
  shows "(us_status x = PENDING_ACTIVATION) = (us_passwordHash x = None) \<and>
    (us_status x = PENDING_ACTIVATION) = (us_activatedAt x = None) \<and> toLowerCase (us_id x) = us_id x \<and>
    length (filter (\<lambda>y. toLowerCase (us_email y) = toLowerCase (us_email x)) (users db)) = 1"
proof -
  have ok: "users_ok (users db)" using reachable_parts(1) [OF assms(1)] .
  let ?key = "\<lambda>y. toLowerCase (us_email y)"
  have "filter (\<lambda>y. ?key y = ?key x) (users db) = [x]"
    using ok assms(2) by (intro filter_unique) (simp_all add: users_ok_def)
  with users_ok_row [OF ok assms(2)] show ?thesis unfolding user_ok_def by auto
qed

theorem account_shape_witness:
  "us_passwordHash (users us4 ! 3) = None \<and> us_activatedAt (users us4 ! 3) = None"
proof -
  note row = us_row [OF us_tables(1), of 3, simplified]
  from account_shape [OF us_run_reachable(3) row(1)] row(3) show ?thesis by simp
qed

text \<open>
  At most one UserActivated event of an account is ever in the outbox, and only of an account
  that was activated: Credit is asked for one wallet, of a real student.
\<close>

theorem activation_announced_once:
  assumes "reachable user_start (user_step e) db"
  shows "length (filter (announces i) (map row_event (outbox_events db))) \<le> 1 \<and>
    (filter (announces i) (map row_event (outbox_events db)) = [] \<or>
     (\<exists>x \<in> set (users db). us_id x = i \<and> us_activatedAt x \<noteq> None))"
proof -
  have told: "told_ok (users db) (map row_event (outbox_events db))" and ok: "users_ok (users db)"
    using reachable_parts [OF assms] by simp_all
  have "\<exists>x \<in> set (users db). us_id x = i \<and> us_activatedAt x \<noteq> None"
    if "user_with (users db) i (\<lambda>x. us_status x \<noteq> PENDING_ACTIVATION)"
  proof -
    from that obtain x where "x \<in> set (users db)" "us_id x = i" "us_status x \<noteq> PENDING_ACTIVATION"
      by (auto simp: user_with_def)
    then show ?thesis using users_ok_row [OF ok, of x] by (auto simp: user_ok_def intro!: bexI [of _ x])
  qed
  with told show ?thesis by (auto simp: told_ok_def)
qed

theorem activation_announced_once_witness:
  "length (filter (announces ''s'') (map row_event (outbox_events us4))) = 1 \<and>
   (\<exists>x \<in> set (users us4). us_id x = ''s'' \<and> us_activatedAt x \<noteq> None)"
proof -
  have one: "length (filter (announces ''s'') (map row_event (outbox_events us4))) = 1" by code_simp
  then have "filter (announces ''s'') (map row_event (outbox_events us4)) \<noteq> []" by (metis list.size(3) zero_neq_one)
  with one activation_announced_once [OF us_run_reachable(3), of "''s''"] show ?thesis by blast
qed

text \<open>
  C18. An account changes standing in three ways only, each recorded in the same step: a pending
  account becomes active and is announced; an active account is suspended, and a suspended one
  reactivated, by somebody else, with an audit row and an event that refers to it.
\<close>

theorem standing_changes_are_recorded:
  assumes "reachable user_start (user_step e) db" and "user_step e db db'"
    and "x \<in> set (users db)" and "y \<in> set (users db')" and "us_id y = us_id x" and "us_status y \<noteq> us_status x"
  shows "standing_moved (accounts db) (accounts db') x y"
  using standing_change [OF reachable_effect [OF assms(1,2)], of x y] reachable_parts(1) [OF assms(1)] assms(3-6)
  by simp

theorem standing_changes_are_recorded_witness:
  "standing_moved (accounts us8) (accounts us9) (users us8 ! 2) (users us9 ! 2)"
proof -
  have "user_step demo_user_env us8 us9" unfolding us9_def by (rule user_step.suspend, rule surjective_pairing)
  moreover note before = us_row [OF us_tables(3), of 2, simplified] and after = us_row [OF us_tables(4), of 2, simplified]
  ultimately show ?thesis
    using standing_changes_are_recorded [OF us_run_reachable(8) _ before(1) after(1)] before(2,3) after(2,3) by simp
qed

section \<open>Administrators\<close>

text \<open>
  C19. Nobody comes to hold or loses the ADMIN role but with an audit row in the same step, and in
  one of three ways: two different active administrators, of whom one had asked for exactly this
  and neither who decides is the person concerned; an administrator alone, when nobody else but
  the person concerned holds the role; or the bootstrap, of an account made in that step.
\<close>

theorem admin_changes_take_two:
  assumes "reachable user_start (user_step e) db" and "user_step e db db'"
    and "(ADMIN \<in> set (rolesOf db' i)) \<noteq> (ADMIN \<in> set (rolesOf db i))"
  shows "\<exists>r. audit_records db' = audit_records db @ [r] \<and>
    (two_person_change (accounts db) r i \<or> lone_change (accounts db) r i \<or> bootstrap_of (accounts db) r i)"
  using admin_change [OF reachable_effect [OF assms(1,2)], of i] assms(3) by (simp add: holds_admin_accounts)

theorem admin_changes_take_two_witness:
  "two_person_change (accounts us7) (last (audit_records us8)) ''s''"
proof -
  have "user_step demo_user_env us7 us8" unfolding us8_def by (rule user_step.approve, rule surjective_pairing)
  moreover have "ADMIN \<in> set (rolesOf us8 ''s'')" "ADMIN \<notin> set (rolesOf us7 ''s'')" by code_simp+
  ultimately obtain r where r: "audit_records us8 = audit_records us7 @ [r]"
    "two_person_change (accounts us7) r ''s'' \<or> lone_change (accounts us7) r ''s'' \<or> bootstrap_of (accounts us7) r ''s''"
    using admin_changes_take_two [OF us_run_reachable(7)] by blast
  moreover have "(au_action r, au_approval r) = (ROLE_GRANT, Some SECOND_ADMIN)"
    using arg_cong [OF us_approvals(1), of last] r(1) by simp
  ultimately show ?thesis by (auto simp: lone_change_def bootstrap_of_def)
qed

text \<open>
  C20. Once there is an active bootstrap administrator, there is one in every later state: no
  suspension, demotion or chain of them leaves the service without anybody who can act on
  administrators.
\<close>

theorem an_admin_remains:
  assumes "reachable user_start (user_step e) db" and "(user_step e)\<^sup>*\<^sup>* db db'"
    and "x \<in> set (users db)" and "us_status x = ACTIVE" and "us_isSeededAdmin x" and "ADMIN \<in> set (rolesOf db (us_id x))"
  shows "\<exists>y \<in> set (users db'). us_status y = ACTIVE \<and> us_isSeededAdmin y \<and> ADMIN \<in> set (rolesOf db' (us_id y))"
proof -
  have "anchored (accounts db)" using assms(3-6) by (auto simp: anchored_def active_admin_def holds_admin_accounts)
  with stays_along [OF _ assms(2,1), of anchored] have "anchored (accounts db')" by (auto intro: anchor_stays)
  then show ?thesis by (auto simp: anchored_def active_admin_def holds_admin_accounts)
qed

theorem an_admin_remains_witness:
  "\<exists>y \<in> set (users us9). us_status y = ACTIVE \<and> us_isSeededAdmin y \<and> ADMIN \<in> set (rolesOf us9 (us_id y))"
proof -
  have "user_step demo_user_env us8 us9" unfolding us9_def by (rule user_step.suspend, rule surjective_pairing)
  then have "(user_step demo_user_env)\<^sup>*\<^sup>* us8 us9" by blast
  moreover note row = us_row [OF us_tables(3), of 0, simplified]
  ultimately show ?thesis using an_admin_remains [OF us_run_reachable(8) _ row(1)] row(3,5) by simp
qed

text \<open>
  In no span of an hour, wherever it starts, does the audit trail show more suspensions by one
  administrator than the limit.
\<close>

theorem suspensions_are_bounded:
  assumes "reachable user_start (user_step e) db"
  shows "int (length (filter (\<lambda>r. au_actorId r = Some actor \<and> au_action r = SUSPEND \<and>
      t < au_occurredAt r \<and> au_occurredAt r \<le> t + hours_span 1) (audit_records db))) \<le> max 0 (suspensionsLimitPerHour e)"
proof -
  have "int (length (filter (suspension_within actor t) (audit_records db))) \<le> max 0 (suspensionsLimitPerHour e)"
    using reachable_parts(4) [OF assms] by (simp add: bounded_ok_def)
  moreover have "suspension_within actor t = (\<lambda>r. au_actorId r = Some actor \<and> au_action r = SUSPEND \<and>
      t < au_occurredAt r \<and> au_occurredAt r \<le> t + hours_span 1)"
    by (auto simp: suspension_within_def acted_since_def)
  ultimately show ?thesis by simp
qed

theorem suspensions_are_bounded_witness:
  "int (length (filter (\<lambda>r. au_actorId r = Some ''a'' \<and> au_action r = SUSPEND \<and>
      0 < au_occurredAt r \<and> au_occurredAt r \<le> 0 + hours_span 1) (audit_records us9))) \<le> 20"
  using suspensions_are_bounded [OF us_run_reachable(9), of "''a''" 0] by (simp add: demo_user_env_def)

section \<open>Links, passwords and sessions\<close>

text \<open>
  C21. When an account's password changes, by a link or by proving the old one, the same step
  revokes every session of the account and leaves no reset link of it that could still be used.
\<close>

theorem new_password_ends_everything:
  assumes "reachable user_start (user_step e) db" and "user_step e db db'"
    and "x \<in> set (users db)" and "y \<in> set (users db')" and "us_id y = us_id x"
    and "us_passwordHash y \<noteq> us_passwordHash x"
  shows "filter (\<lambda>s. rs_userId s = us_id x \<and> rs_revokedAt s = None) (refresh_sessions db') = [] \<and>
    filter (\<lambda>t. lt_userId t = us_id x \<and> lt_consumedAt t = None) (password_reset_tokens db') = []"
  using password_change_settles [OF reachable_effect [OF assms(1,2)], of x y] reachable_parts(1) [OF assms(1)] assms(3-6)
  by (simp add: settled_def filter_empty_conv)

definition us_changed :: user_db where "us_changed = us_rekeyed 95 ''s@u'' ''pw-s'' ''pw-n'' us6"

theorem new_password_ends_everything_witness:
  "filter (\<lambda>s. rs_userId s = ''s'' \<and> rs_revokedAt s = None) (refresh_sessions us6) \<noteq> [] \<and>
   filter (\<lambda>s. rs_userId s = ''s'' \<and> rs_revokedAt s = None) (refresh_sessions us_changed) = []"
proof -
  have "user_step demo_user_env us6 us_changed" unfolding us_changed_def us_rekeyed_def
    by (rule user_step.change_password, rule surjective_pairing)
  moreover have changed: "map us_passwordHash (users us_changed) = [Some ''$pw-a'', Some ''$pw-b'', Some ''$pw-n'', None]"
    "map us_id (users us_changed) = [''a'', ''b'', ''s'', ''t'']"
    "map rs_revokedAt (filter (\<lambda>s. rs_userId s = ''s'') (refresh_sessions us6)) = [None, None]" by code_simp+
  note before = us_row [OF us_tables(2), of 2, simplified]
  note after = row_at [OF changed(1), of 2, simplified] row_at(2) [OF changed(2), of 2, simplified]
  have "filter (\<lambda>s. rs_revokedAt s = None) (filter (\<lambda>s. rs_userId s = ''s'') (refresh_sessions us6)) \<noteq> []"
    using row_at [OF changed(3), of 0] by (auto simp: filter_empty_conv)
  then have "filter (\<lambda>s. rs_userId s = ''s'' \<and> rs_revokedAt s = None) (refresh_sessions us6) \<noteq> []" by (simp add: conj_commute)
  moreover note new_password_ends_everything [OF us_run_reachable(5) _ before(1) after(1)]
  ultimately show ?thesis using before(2,4) after(2,3) by simp
qed

lemma activation_uses_link:
  assumes "activate e u before seen now clock salt token password corr db = (Inr r, db')" and "\<not> act_alreadyActivated r"
    and "reachable user_start (user_step e) db"
  shows "link_used (activation_tokens db') (sha256Hex e token)"
proof -
  let ?h = "sha256Hex e token"
  have fresh: "activateUsing u now clock ?h (hashPassword e salt password) corr db = Inr (r, db')"
    using assms(1,2) by (auto simp: activate_def Let_def transaction_def unusableToken_def split: if_splits sum.splits option.splits)
  show ?thesis
    using accounts_ok_links(1,3) [OF reachable_accounts_ok [OF assms(3)]]
  proof (cases rule: claimed_link [where now = now and h = ?h])
    case unclaimed
    with fresh assms(2) show ?thesis
      by (auto simp: activateUsing_def consumeActivationToken_def bindE_eq_Inr unusableToken_def split: option.splits if_splits)
  next
    case (claimed k x ts)
    then have "setPasswordFromEmailedLink now clock (randomUUID u 0) (us_id x) (us_status x) (hashPassword e salt password)
        corr (db\<lparr> activation_tokens := ts \<rparr>) = Inr db'"
      using fresh by (auto simp: activateUsing_def consumeActivationToken_def lockUserOfToken_def bindE_eq_Inr split: if_splits)
    from setPasswordFromEmailedLink_accounts [OF this, of x] claimed(5)
    have "activation_tokens db' = without_unconsumed (us_id x) ts"
      using accounts_sel(3) [of db'] by (simp add: account_parts del: accounts_sel(3))
    with used_once_claimed [OF claimed(1)] show ?thesis by (simp add: link_used_delete)
  qed
qed

text \<open>
  An activation link that activated an account never does anything again: however the service
  ran on, and whatever another submission of the link read before its transaction, presenting it
  with any password changes nothing and at most answers that the account was activated before.
\<close>

theorem activation_link_works_once:
  assumes "reachable user_start (user_step e) db"
    and "activate e u before seen now clock salt token password corr db = (Inr r, db')" and "\<not> act_alreadyActivated r"
    and "(user_step e)\<^sup>*\<^sup>* db' db''"
    and "activate e u' before' seen' now' clock' salt' token password' corr' db'' = (r', db3)"
  shows "db3 = db'' \<and> r' \<noteq> Inr \<lparr> act_userId = i, act_alreadyActivated = False \<rparr>"
proof -
  let ?h = "sha256Hex e token"
  have reach: "reachable user_start (user_step e) db'"
    using reachable_step [OF assms(1) user_step.activate [OF assms(2)]] .
  have "link_used (a_activations (accounts db')) ?h"
    using activation_uses_link [OF assms(2,3,1)] by simp
  from stays_along [OF _ assms(4) reach, of "\<lambda>a. link_used (a_activations a) ?h", OF _ this]
  have used: "link_used (activation_tokens db'') ?h" and reach'': "reachable user_start (user_step e) db''"
    by (auto intro: used_activation_stays)
  have none: "consumed_by_hash now' ?h (activation_tokens db'') = (None, activation_tokens db'')"
    using accounts_ok_links(1) [OF reachable_accounts_ok [OF reach'']] used by (rule claim_of_used)
  have using_it: "activateUsing u' now' clock' ?h hash corr' db'' =
      bindE (unusableToken db'' (findActivationToken now' db'' ?h)) (\<lambda>r. Inr (r, db''))" for hash
    by (simp add: activateUsing_def consumeActivationToken_def none)
  have replay: "unusableToken d f \<noteq> Inr \<lparr> act_userId = i, act_alreadyActivated = False \<rparr>" for d f
    by (simp add: unusableToken_def split: option.splits)
  show ?thesis
    using assms(5) replay
    by (auto simp: activate_def Let_def transaction_def using_it bindE_def split: if_splits sum.splits)
qed

theorem activation_link_works_once_witness:
  "snd (activate demo_user_env (user_ids CHR ''k'') 41 us3 41 41 ''s'' ''ls'' ''other'' ''cor'' us5) = us5"
proof -
  have "fst (activate demo_user_env (user_ids CHR ''e'') 40 us3 40 40 ''s'' ''ls'' ''pw-s'' ''cor'' us3) =
      Inr \<lparr> act_userId = ''s'', act_alreadyActivated = False \<rparr>" by code_simp
  then have act: "activate demo_user_env (user_ids CHR ''e'') 40 us3 40 40 ''s'' ''ls'' ''pw-s'' ''cor'' us3 =
      (Inr \<lparr> act_userId = ''s'', act_alreadyActivated = False \<rparr>, us4)"
    by (simp add: us4_def us_activated_def prod_eq_iff)
  have "randomUUID (user_ids CHR ''r'') 1 \<notin> set (map rs_familyId (refresh_sessions us4))"
    unfolding us_families by code_simp
  then have "user_step demo_user_env us4 us5" unfolding us5_def us_logged_in_def
    by (intro user_step.login [OF surjective_pairing]) simp
  then have "(user_step demo_user_env)\<^sup>*\<^sup>* us4 us5" by blast
  from activation_link_works_once [OF us_run_reachable(2) act _ this prod.collapse [symmetric]] show ?thesis by simp
qed

lemma locked_session_of:
  assumes "sessions_ok (users db) (refresh_sessions db)" and "s \<in> set (refresh_sessions db)"
  obtains row where "lockByHash now db (rs_tokenHash s) = Some row" and "ls_familyId row = rs_familyId s"
    and "ls_rotated row = (rs_rotatedAt s \<noteq> None)"
proof -
  have "row_of rs_tokenHash (rs_tokenHash s) (refresh_sessions db) = Some s"
    using assms by (intro row_of_member) (simp_all add: sessions_ok_def)
  moreover obtain x where "x \<in> set (users db)" "us_id x = rs_userId s"
    using assms by (auto simp: sessions_ok_def session_ok_def user_with_def)
  then have "user_of db (rs_userId s) \<noteq> None" unfolding user_of_def row_of_None by (metis image_eqI)
  ultimately show thesis using that by (auto simp: lockByHash_def)
qed

text \<open>
  C22. A refresh token that was already exchanged is answered with REFRESH_TOKEN_REUSED, and that
  request revokes the sessions of its family that were not revoked yet and changes nothing else in
  the database: a copied token ends the sign-in it was copied from, and no other.
\<close>

theorem reused_token_ends_family:
  assumes "reachable user_start (user_step e) db" and "s \<in> set (refresh_sessions db)" and "rs_rotatedAt s \<noteq> None"
    and "sha256Hex e token = rs_tokenHash s" and "token \<noteq> []"
  shows "refresh e u now next_token (Some token) db =
    (Inl (api_error 401 ''REFRESH_TOKEN_REUSED''),
     db\<lparr> refresh_sessions := map (\<lambda>t. if rs_familyId t = rs_familyId s \<and> rs_revokedAt t = None
          then t\<lparr> rs_revokedAt := Some now \<rparr> else t) (refresh_sessions db) \<rparr>)"
proof -
  obtain row where "lockByHash now db (rs_tokenHash s) = Some row" "ls_familyId row = rs_familyId s" "ls_rotated row"
    using locked_session_of [OF reachable_parts(3) [OF assms(1)] assms(2), of now] assms(3) by metis
  then have "refreshUsing e now i t (sha256Hex e token) db = Inr (Ref_reused, revokeFamily now (rs_familyId s) db)" for i t
    by (simp add: refreshUsing_def assms(4))
  then show ?thesis
    using assms(5) by (simp add: refresh_def transaction_def revokeFamily_def update_sessions_def update_rows_def revoke_def)
qed

theorem reused_token_ends_family_witness:
  "fst (refresh demo_user_env (user_ids CHR ''k'') 65 ''tw'' (Some ''tr'') us6) = Inl (api_error 401 ''REFRESH_TOKEN_REUSED'') \<and>
   map rs_revokedAt (refresh_sessions (snd (refresh demo_user_env (user_ids CHR ''k'') 65 ''tw'' (Some ''tr'') us6))) =
     map (\<lambda>t. if rs_familyId t = rs_familyId (refresh_sessions us6 ! 2) \<and> rs_revokedAt t = None then Some 65
       else rs_revokedAt t) (refresh_sessions us6)"
proof -
  let ?s = "refresh_sessions us6 ! 2"
  note s = row_at [OF us_approvals(2), of 2, simplified]
  with reused_token_ends_family [OF us_run_reachable(5) s(1), of "''tr''"] show ?thesis
    by (simp add: demo_user_env_def)
qed

text \<open>Only active accounts have a live session.\<close>

lemma live_session_active:
  assumes "reachable user_start (user_step e) db" and "liveness now db sd k = Some (True, st)"
  shows "st = ACTIVE \<and> (\<exists>x s. user_of db k = Some x \<and> us_status x = ACTIVE \<and> session_of db sd = Some s \<and>
    rs_userId s = k \<and> rs_revokedAt s = None \<and> now < rs_expiresAt s)"
proof -
  from assms(2) obtain s x where s: "session_of db sd = Some s" "rs_userId s = k" "rs_revokedAt s = None" "now < rs_expiresAt s"
    and x: "user_of db k = Some x" "us_status x = st"
    by (auto simp: liveness_def bind_eq_Some_conv split: if_splits)
  from row_of_Some [of rs_id sd "refresh_sessions db" s] s(1) have "s \<in> set (refresh_sessions db)"
    by (simp add: session_of_def)
  with reachable_parts(3) [OF assms(1)] s(2,3) obtain y where "y \<in> set (users db)" "us_id y = k" "us_status y = ACTIVE"
    by (auto simp: sessions_ok_def session_ok_def user_with_def)
  with same_user [OF reachable_parts(1) [OF assms(1)], of x y] user_of_Some [OF x(1)] x s show ?thesis by auto
qed

text \<open>
  Where nothing happens between its two reads, introspection vouches for active accounts only; and
  no access token is refused for its account's status by the User Service itself, which reads both
  in one statement: suspension and every other change of standing end the sessions in the same
  transaction, so the answer to a suspended student's token is that it is no longer valid.
\<close>

theorem only_active_accounts_are_vouched_for:
  assumes "reachable user_start (user_step e) db"
  shows "(case introspect now db db sid i of None \<Rightarrow> True | Some row \<Rightarrow> id_status row = ACTIVE) \<and>
    accessTokenGuard jwt now db header \<noteq> Inl (codeForStatus status)"
proof -
  have "case introspect now db db sid i of None \<Rightarrow> True | Some row \<Rightarrow> id_status row = ACTIVE"
    by (auto simp: introspect_def findIdentity_def dest!: live_session_active [OF assms] split: option.splits prod.splits if_splits)
  moreover have "accessTokenGuard jwt now db header \<noteq> Inl (codeForStatus status)"
    by (auto simp: accessTokenGuard_def Let_def codeForStatus_def api_error_def dest!: live_session_active [OF assms]
        split: option.splits prod.splits if_splits)
  ultimately show ?thesis by blast
qed

theorem only_active_accounts_are_vouched_for_witness:
  "introspect 61 us6 us6 ''v'' ''s'' = Some \<lparr> id_status = ACTIVE, id_roles = [STUDENT], id_displayName = ''S'' \<rparr> \<and>
   introspect 101 us9 us9 ''v'' ''s'' = None \<and>
   accessTokenGuard (\<lambda>_. Some (''s'', ''v'')) 101 us9 (Some ''Bearer x'') \<noteq> Inl (codeForStatus SUSPENDED)"
proof -
  have "introspect 61 us6 us6 ''v'' ''s'' = Some \<lparr> id_status = ACTIVE, id_roles = [STUDENT], id_displayName = ''S'' \<rparr>"
    "introspect 101 us9 us9 ''v'' ''s'' = None" by code_simp+
  with only_active_accounts_are_vouched_for [OF us_run_reachable(9), of 101 _ _ "\<lambda>_. Some (''s'', ''v'')" "Some ''Bearer x''" SUSPENDED]
  show ?thesis by blast
qed

text \<open>
  Registering at an address that has an account changes nothing and sends no mail, unless the
  account never activated and all its links have run out; the answer is EMAIL_ALREADY_REGISTERED.
\<close>

theorem taken_address_is_left_alone:
  assumes "reachable user_start (user_step e) db" and "x \<in> set (users db)"
    and "toLowerCase (us_email x) = normalizeEmail (nfkc e) email"
    and "isAllowedDomain (normalizeEmail (nfkc e) email) (allowedEmailDomains e)"
    and "us_status x \<noteq> PENDING_ACTIVATION \<or> filter (\<lambda>t. lt_userId t = us_id x \<and> live_link now t) (activation_tokens db) \<noteq> []"
  shows "register e u now token email name db = (Inl (api_error 409 ''EMAIL_ALREADY_REGISTERED''), db, [])"
proof -
  let ?n = "normalizeEmail (nfkc e) email"
  have ok: "users_ok (users db)" using reachable_parts(1) [OF assms(1)] .
  have taken: "toLowerCase ?n \<in> (\<lambda>y. toLowerCase (us_email y)) ` set (users db)"
    using assms(2,3) by (auto intro!: image_eqI [of _ _ x])
  have kept: "reviveExpiredRegistration now ?n name db = Inr (None, db)"
  proof (cases "lockPendingUser db ?n")
    case None
    then show ?thesis by (simp add: reviveExpiredRegistration_def)
  next
    case (Some i)
    then obtain y where y: "y \<in> set (users db)" "us_id y = i" "us_status y = PENDING_ACTIVATION"
      "toLowerCase (us_email y) = toLowerCase ?n" by (auto simp: lockPendingUser_def dest!: find_Some_member)
    have "inj_on (\<lambda>z. toLowerCase (us_email z)) (set (users db))" using ok by (simp add: users_ok_def distinct_map)
    from inj_onD [OF this _ y(1) assms(2)] have "y = x" using y(4) assms(3) by simp
    with y(2,3) assms(5) have "\<exists>t \<in> set (activation_tokens db). lt_userId t = i \<and> live_link now t"
      by (auto simp: filter_empty_conv)
    with Some show ?thesis by (simp add: reviveExpiredRegistration_def)
  qed
  have "insertUser now i ?n name db = Inr (False, db)" for i
    using taken by (simp add: insertUser_def insertUserRow_def pending_user_def)
  with kept have "registerUsing e u now token ?n name db = Inr (None, db)" by (simp add: registerUsing_def Let_def)
  then show ?thesis using assms(4) by (simp add: register_def Let_def transaction_def)
qed

theorem taken_address_is_left_alone_witness:
  "register demo_user_env (user_ids CHR ''k'') 99 ''lk'' '' S@U '' ''Eve'' us4 =
     (Inl (api_error 409 ''EMAIL_ALREADY_REGISTERED''), us4, [])"
proof -
  note row = us_row [OF us_tables(1), of 2, simplified]
  have emails: "map (\<lambda>x. toLowerCase (us_email x)) (users us4) = [''a@u'', ''b@u'', ''s@u'', ''t@u'']"
    and typed: "normalizeEmail (nfkc demo_user_env) '' S@U '' = ''s@u''"
    "isAllowedDomain (normalizeEmail (nfkc demo_user_env) '' S@U '') (allowedEmailDomains demo_user_env)" by code_simp+
  show ?thesis
    using taken_address_is_left_alone [OF us_run_reachable(3) row(1), of "'' S@U ''"]
      row_at(2) [OF emails, of 2] typed row(3) by simp
qed

section \<open>Attempts\<close>

text \<open>
  C23. Whatever else the limiter counts and whatever it forgets, of one key's attempts in any span
  as long as its window at most twice the limit get through.
\<close>

theorem attempts_are_limited:
  assumes "sorted (map fst attempts)" and "\<forall>a \<in> set attempts. 0 \<le> fst a"
  shows "let_through key t (t + windowMs) attempts (hits attempts (limiter limit windowMs)) \<le> 2 * limit"
  using assms by (rule limiter_span)

theorem attempts_are_limited_witness:
  "let_through ''k'' 8 18 [(0, ''k''), (8, ''k''), (9, ''k''), (11, ''k''), (12, ''k'')]
     (hits [(0, ''k''), (8, ''k''), (9, ''k''), (11, ''k''), (12, ''k'')] (limiter 2 10)) \<le> 4 \<and>
   map hr_allowed (hits [(0, ''k''), (8, ''k''), (9, ''k''), (11, ''k''), (12, ''k'')] (limiter 2 10)) =
     [True, True, False, True, True]"
proof -
  have "map hr_allowed (hits [(0, ''k''), (8, ''k''), (9, ''k''), (11, ''k''), (12, ''k'')] (limiter 2 10)) =
     [True, True, False, True, True]"
    by (simp add: limiter_def hit_def PRUNE_ABOVE_def window_at_def counted_def verdict_def)
  moreover have "let_through ''k'' 8 (8 + 10) [(0, ''k''), (8, ''k''), (9, ''k''), (11, ''k''), (12, ''k'')]
     (hits [(0, ''k''), (8, ''k''), (9, ''k''), (11, ''k''), (12, ''k'')] (limiter 2 10)) \<le> 2 * 2"
    by (rule attempts_are_limited) simp_all
  ultimately show ?thesis by simp
qed

end
