(* ===== verification/Dead_Letters.thy ===== *)
theory Dead_Letters
  imports Event_Consumer "HOL-Library.Product_Lexorder" "HOL-Library.List_Lexorder"
begin

text \<open>
  Dead letters an operator can find, read and redrive (platform/src/events/dead-letters.ts): a
  service drains its dead-letter queues into a table of its own, and a redrive delivers a stored
  message to its queue again, with its attempts started over.

  A body stands for its bytes. \<open>identify\<close> is what \<open>JSON.parse\<close> makes of them: the four identity
  fields of an object, each if it is a string.
\<close>

section \<open>The table\<close>

datatype dead_letter_status = WAITING | REDRIVEN

text \<open>A failure is the one the platform's header states, or the broker's own reason.\<close>

datatype failure_reason = Platform_failure service_error | Broker_failure string

record dead_letter =
  dl_id :: ident
  dl_queue :: string
  dl_eventId :: "string option"
  dl_eventType :: "string option"
  dl_aggregateId :: "string option"
  dl_correlationId :: "string option"
  dl_failureReason :: "failure_reason option"
  dl_attempts :: js_number
  dl_body :: message_body
  dl_properties :: message_properties
  dl_parkedAt :: time
  dl_redrivenAt :: "time option"
  dl_redrivenBy :: "ident option"
  dl_redriveReason :: "string option"
  dl_redriveCorrelationId :: "string option"

definition dead_letter_checks :: "dead_letter \<Rightarrow> (string \<times> bool) list" where
  "dead_letter_checks r =
     [(''dead_letters_redrive_complete'',
       ((dl_redrivenAt r = None) = (dl_redrivenBy r = None)) \<and>
       ((dl_redrivenAt r = None) = (dl_redriveReason r = None)))]"

text \<open>The trigger on updates: a row changes once, to record a redrive.\<close>

definition same_letter :: "dead_letter \<Rightarrow> dead_letter \<Rightarrow> bool" where
  "same_letter new old \<longleftrightarrow>
     new = old\<lparr> dl_redrivenAt := dl_redrivenAt new, dl_redrivenBy := dl_redrivenBy new,
                dl_redriveReason := dl_redriveReason new,
                dl_redriveCorrelationId := dl_redriveCorrelationId new \<rparr>"

definition dead_letters_guard :: "dead_letter \<Rightarrow> dead_letter \<Rightarrow> service_error + unit" where
  "dead_letters_guard new old =
     requireE (dl_redrivenAt old = None \<and> same_letter new old) (DbViolation ''dead_letters_guard'')"

section \<open>Parking\<close>

record identified =
  if_eventId :: "string option"
  if_eventType :: "string option"
  if_aggregateId :: "string option"
  if_correlationId :: "string option"

definition text_max :: "nat \<Rightarrow> string option \<Rightarrow> string option" where
  "text_max n v = map_option (take n) (text_value v)"

definition or_else :: "'a option \<Rightarrow> 'a option \<Rightarrow> 'a option" where
  "or_else a b = (case a of Some x \<Rightarrow> Some x | None \<Rightarrow> b)"

definition brokerDeath :: "message_properties \<Rightarrow> string option \<times> nat" where
  "brokerDeath p =
     (case h_deaths p of
        Some (d # _) \<Rightarrow> (map_option (\<lambda>_. ''broker: '' @ the (bd_reason d)) (text_max 200 (bd_reason d)), bd_count d)
      | _ \<Rightarrow> (None, 0))"

definition truthy :: "js_number \<Rightarrow> bool" where
  "truthy x \<longleftrightarrow> x \<noteq> NaN \<and> x \<noteq> Num 0"

definition toDeadLetterRow ::
  "(message_body \<Rightarrow> identified option) \<Rightarrow> ident \<Rightarrow> time \<Rightarrow> string \<Rightarrow> delivery \<Rightarrow> dead_letter" where
  "toDeadLetterRow identify i now queue message =
     (let p = d_properties message;
          found = identify (d_content message);
          field = (\<lambda>f. Option.bind found (\<lambda>e. text_max 200 (f e)));
          (reason, count) = brokerDeath p
      in \<lparr> dl_id = i, dl_queue = queue,
           dl_eventId = or_else (field if_eventId) (text_max 200 (messageId_prop p)),
           dl_eventType = or_else (field if_eventType) (text_max 200 (type_prop p)),
           dl_aggregateId = field if_aggregateId,
           dl_correlationId = or_else (field if_correlationId) (text_max 200 (correlationId_prop p)),
           dl_failureReason = or_else (map_option Platform_failure (h_failure p)) (map_option Broker_failure reason),
           dl_attempts = (case h_attempt p of
                            Some a \<Rightarrow> if truthy a then a else whole (if count = 0 then 1 else count)
                          | None \<Rightarrow> whole (if count = 0 then 1 else count)),
           dl_body = d_content message, dl_properties = p, dl_parkedAt = now, dl_redrivenAt = None,
           dl_redrivenBy = None, dl_redriveReason = None, dl_redriveCorrelationId = None \<rparr>)"

lemma toDeadLetterRow_sel [simp]:
  "dl_id (toDeadLetterRow identify i now queue message) = i"
  "dl_queue (toDeadLetterRow identify i now queue message) = queue"
  "dl_body (toDeadLetterRow identify i now queue message) = d_content message"
  "dl_properties (toDeadLetterRow identify i now queue message) = d_properties message"
  "dl_redrivenAt (toDeadLetterRow identify i now queue message) = None"
  "dl_redrivenBy (toDeadLetterRow identify i now queue message) = None"
  "dl_redriveReason (toDeadLetterRow identify i now queue message) = None"
  by (simp_all add: toDeadLetterRow_def Let_def split: prod.splits)

text \<open>What an \<open>integer\<close> column takes.\<close>

definition integer_column :: "js_number \<Rightarrow> bool" where
  "integer_column x \<longleftrightarrow> (case x of Num r \<Rightarrow> of_int \<lfloor>r\<rfloor> = r \<and> int4 \<lfloor>r\<rfloor> | _ \<Rightarrow> False)"

definition insertDeadLetter :: "dead_letter \<Rightarrow> dead_letter list \<Rightarrow> service_error + dead_letter list" where
  "insertDeadLetter r rows =
     bindE (constraints ((''attempts: integer'', integer_column (dl_attempts r)) #
       (''dead_letters_pkey'', dl_id r \<notin> dl_id ` set rows) # dead_letter_checks r))
       (\<lambda>_. Inr (rows @ [r]))"

text \<open>
  \<open>park\<close>: stored, then acknowledged; a message that could not be stored goes back to its queue
  after a moment. \<open>up\<close> is whether the database answers.
\<close>

datatype parked = Park_acked | Park_requeued

definition park ::
  "(message_body \<Rightarrow> identified option) \<Rightarrow> ident \<Rightarrow> time \<Rightarrow> bool \<Rightarrow> string \<Rightarrow> delivery \<Rightarrow> dead_letter list
     \<Rightarrow> parked \<times> dead_letter list" where
  "park identify i now up queue message rows =
     (case (if up then insertDeadLetter (toDeadLetterRow identify i now queue message) rows
            else Inl (PlainError ''database unavailable'')) of
        Inl _ \<Rightarrow> (Park_requeued, rows)
      | Inr rows' \<Rightarrow> (Park_acked, rows'))"

section \<open>Listing\<close>

definition dead_letter_status :: "dead_letter \<Rightarrow> dead_letter_status" where
  "dead_letter_status r = (if dl_redrivenAt r = None then WAITING else REDRIVEN)"

record dead_letter_query =
  dq_status :: "dead_letter_status option"
  dq_queue :: "string option"
  dq_q :: "string option"
  dq_page :: nat
  dq_pageSize :: nat

definition matches_query :: "dead_letter_query \<Rightarrow> dead_letter \<Rightarrow> bool" where
  "matches_query query r \<longleftrightarrow>
     opt_all (\<lambda>s. dead_letter_status r = s) (dq_status query) \<and>
     opt_all (\<lambda>k. k = [] \<or> dl_queue r = k) (dq_queue query) \<and>
     opt_all (\<lambda>v. v = [] \<or> dl_correlationId r = Some v \<or> dl_aggregateId r = Some v \<or> dl_eventId r = Some v) (dq_q query)"

text \<open>Newest first, a page at a time, with the count of all that match.\<close>

definition list_dead_letters :: "dead_letter_query \<Rightarrow> dead_letter list \<Rightarrow> dead_letter list \<times> nat" where
  "list_dead_letters query rows =
     (let found = sort_key (\<lambda>r. (- dl_parkedAt r, dl_id r)) (filter (matches_query query) rows)
      in (take (dq_pageSize query) (drop ((dq_page query - 1) * dq_pageSize query) found), length found))"

definition dead_letter_not_found :: service_error where
  "dead_letter_not_found = ApiException 404 ''NOT_FOUND'' No_details"

definition get_dead_letter :: "ident \<Rightarrow> dead_letter list \<Rightarrow> service_error + dead_letter" where
  "get_dead_letter i rows =
     (case row_of dl_id i rows of None \<Rightarrow> Inl dead_letter_not_found | Some r \<Rightarrow> Inr r)"

text \<open>The gauge: how many wait in each queue, 0 for a durable queue that has none.\<close>

definition waiting_by_queue :: "broker option \<Rightarrow> dead_letter list \<Rightarrow> (string \<times> nat) list" where
  "waiting_by_queue b rows =
     (let waiting = filter (\<lambda>r. dl_redrivenAt r = None) rows
      in map (\<lambda>k. (k, length (filter (\<lambda>r. dl_queue r = k) waiting)))
           (remdups ((case b of None \<Rightarrow> [] | Some x \<Rightarrow> durableQueues x) @ map dl_queue waiting)))"

definition parseDeadLetterId :: "(string \<Rightarrow> bool) \<Rightarrow> string \<Rightarrow> service_error + ident" where
  "parseDeadLetterId uuid i = (if uuid i then Inr i else Inl dead_letter_not_found)"

definition parseRedriveReason :: "string option \<Rightarrow> service_error + string" where
  "parseRedriveReason given =
     (case map_option trim given of
        Some reason \<Rightarrow> if 1 \<le> length reason \<and> length reason \<le> 500 then Inr reason
          else Inl (ApiException 422 ''VALIDATION_FAILED'' (Field_details [(''reason'', ''INVALID'')]))
      | None \<Rightarrow> Inl (ApiException 422 ''VALIDATION_FAILED'' (Field_details [(''reason'', ''INVALID'')])))"

section \<open>Redriving\<close>

text \<open>The same bytes and identity, without what describes the failure.\<close>

definition redriveProperties :: "message_properties \<Rightarrow> ident \<Rightarrow> ident option \<Rightarrow> message_properties" where
  "redriveProperties stored i account =
     (resendProperties stored account)
       \<lparr> h_attempt := None, h_failure := None, h_originalQueue := None, h_deaths := None,
         h_brokerMarks := [], h_redriveOf := Some i, persistent_prop := True \<rparr>"

text \<open>
  What the broker does with the message: takes it, refuses it, or hands it back because no queue
  is bound under the name.
\<close>

datatype publish_answer = Pub_confirmed | Pub_failed | Pub_returned

definition publishToQueue :: "publish_answer \<Rightarrow> service_error + unit" where
  "publishToQueue reply = requireE (reply = Pub_confirmed) (PlainError ''redrive was not delivered'')"

record redrive_by =
  rb_actorId :: ident
  rb_reason :: string
  rb_correlationId :: ident

definition stamped :: "time \<Rightarrow> redrive_by \<Rightarrow> dead_letter \<Rightarrow> dead_letter" where
  "stamped now who r = r\<lparr> dl_redrivenAt := Some now, dl_redrivenBy := Some (rb_actorId who),
     dl_redriveReason := Some (rb_reason who), dl_redriveCorrelationId := Some (rb_correlationId who) \<rparr>"

text \<open>
  \<open>redrive\<close>. The message is published, and confirmed, before the row is stamped; \<open>committed\<close> is
  whether the stamp and the commit succeed. The second result is what the broker took.
\<close>

definition redrive ::
  "broker option \<Rightarrow> publish_answer \<Rightarrow> bool \<Rightarrow> time \<Rightarrow> ident \<Rightarrow> redrive_by \<Rightarrow> dead_letter list
     \<Rightarrow> (service_error + dead_letter) \<times> (string \<times> delivery) list \<times> dead_letter list" where
  "redrive link reply committed now i who rows =
     (case link of
        None \<Rightarrow> (Inl (ApiException 503 ''BROKER_UNAVAILABLE'' No_details), [], rows)
      | Some b \<Rightarrow>
          (case row_of dl_id i rows of
             None \<Rightarrow> (Inl dead_letter_not_found, [], rows)
           | Some r \<Rightarrow>
               if dl_redrivenAt r \<noteq> None then (Inl (ApiException 409 ''ALREADY_REDRIVEN'' No_details), [], rows)
               else case publishToQueue reply of
                      Inl err \<Rightarrow> (Inl err, [], rows)
                    | Inr _ \<Rightarrow>
                        let sent = [(dl_queue r, \<lparr> d_content = dl_body r,
                                       d_properties = redriveProperties (dl_properties r) (dl_id r) (br_account b) \<rparr>)]
                        in case bindE (requireE committed (PlainError ''not committed'')) (\<lambda>_.
                                  bindE (dead_letters_guard (stamped now who r) r) (\<lambda>_.
                                    constraints (dead_letter_checks (stamped now who r)))) of
                             Inl err \<Rightarrow> (Inl err, sent, rows)
                           | Inr _ \<Rightarrow> (Inr (stamped now who r), sent,
                               update_rows (\<lambda>x. dl_id x = i) (stamped now who) rows)))"

section \<open>The life of the table\<close>

text \<open>The rows, and all the broker took of redrives, each for one of the rows' queues.\<close>

record dead_letter_state =
  ds_rows :: "dead_letter list"
  ds_sent :: "(string \<times> delivery) list"

inductive dead_letter_step :: "(message_body \<Rightarrow> identified option) \<Rightarrow> broker \<Rightarrow> dead_letter_state \<Rightarrow> dead_letter_state \<Rightarrow> bool"
  for identify b where
  parked: "park identify i now up queue message (ds_rows s) = (how, rows) \<Longrightarrow>
     dead_letter_step identify b s (s\<lparr> ds_rows := rows \<rparr>)"
| redriven: "\<lbrakk> redrive link reply committed now i who (ds_rows s) = (r, sent, rows);
     link = None \<or> link = Some b \<rbrakk> \<Longrightarrow>
     dead_letter_step identify b s (s\<lparr> ds_rows := rows, ds_sent := ds_sent s @ sent \<rparr>)"

definition dead_letter_start :: "dead_letter_state \<Rightarrow> bool" where
  "dead_letter_start s \<longleftrightarrow> ds_rows s = [] \<and> ds_sent s = []"

definition redrive_of :: "broker \<Rightarrow> dead_letter \<Rightarrow> string \<times> delivery" where
  "redrive_of b r = (dl_queue r, \<lparr> d_content = dl_body r,
     d_properties = redriveProperties (dl_properties r) (dl_id r) (br_account b) \<rparr>)"

text \<open>A stamped row was sent, and everything sent is what some row stores.\<close>

definition dead_letters_ok :: "broker \<Rightarrow> dead_letter_state \<Rightarrow> bool" where
  "dead_letters_ok b s \<longleftrightarrow> distinct (map dl_id (ds_rows s)) \<and>
     (\<forall>r \<in> set (ds_rows s). dl_redrivenAt r \<noteq> None \<longrightarrow> redrive_of b r \<in> set (ds_sent s)) \<and>
     set (ds_sent s) \<subseteq> redrive_of b ` set (ds_rows s)"

lemma redrive_of_stamped [simp]: "redrive_of b (stamped now who r) = redrive_of b r"
  by (simp add: redrive_of_def stamped_def)

lemma stamped_id [simp]: "dl_id (stamped now who r) = dl_id r"
  by (simp add: stamped_def)

lemma stamped_allowed:
  "dl_redrivenAt r = None \<Longrightarrow> dead_letters_guard (stamped now who r) r = Inr () \<and>
     constraints (dead_letter_checks (stamped now who r)) = Inr ()"
  by (simp add: dead_letters_guard_def same_letter_def dead_letter_checks_def stamped_def constraints_Inr)

text \<open>The trigger and the check never stand in the way of a redrive.\<close>

lemma redrive_cases:
  assumes "redrive link reply committed now i who rows = (r, sent, rows')"
  obtains (nothing) "sent = []" "rows' = rows"
  | (sent) b x where "link = Some b" "row_of dl_id i rows = Some x" "dl_redrivenAt x = None"
      "reply = Pub_confirmed" "sent = [redrive_of b x]"
      "rows' = (if committed then update_rows (\<lambda>y. dl_id y = i) (stamped now who) rows else rows)"
proof (cases "\<exists>b x. link = Some b \<and> row_of dl_id i rows = Some x \<and> dl_redrivenAt x = None \<and> reply = Pub_confirmed")
  case True
  then obtain b x where x: "link = Some b" "row_of dl_id i rows = Some x" "dl_redrivenAt x = None"
    "reply = Pub_confirmed" by blast
  have run: "redrive link reply committed now i who rows =
    (if committed
     then (Inr (stamped now who x), [redrive_of b x], update_rows (\<lambda>y. dl_id y = i) (stamped now who) rows)
     else (Inl (PlainError ''not committed''), [redrive_of b x], rows))"
    using x stamped_allowed [OF x(3), of now who]
    by (simp add: redrive_def publishToQueue_def redrive_of_def requireE_def)
  have "sent = [redrive_of b x]"
    using assms unfolding run by (simp split: if_splits)
  moreover have "rows' = (if committed then update_rows (\<lambda>y. dl_id y = i) (stamped now who) rows else rows)"
    using assms unfolding run by (auto split: if_splits)
  ultimately show thesis using x that(2) by simp
next
  case False
  with assms have "sent = []" "rows' = rows"
    by (auto simp: redrive_def publishToQueue_def requireE_def split: option.splits if_splits)
  then show thesis by (rule that(1))
qed

lemma park_cases:
  assumes "park identify i now up queue message rows = (how, rows')"
  obtains (again) "how = Park_requeued" "rows' = rows"
  | (stored) "how = Park_acked" "rows' = rows @ [toDeadLetterRow identify i now queue message]" "i \<notin> dl_id ` set rows"
  using assms by (auto simp: park_def insertDeadLetter_def bindE_eq_Inr constraints_Inr
      split: sum.splits if_splits)

interpretation dead_letter_table: inductive_invariant dead_letter_start "dead_letter_step identify b" "dead_letters_ok b"
  for identify b
proof unfold_locales
  show "dead_letter_start s \<Longrightarrow> dead_letters_ok b s" for s by (simp add: dead_letter_start_def dead_letters_ok_def)
next
  show "dead_letters_ok b s \<Longrightarrow> dead_letter_step identify b s t \<Longrightarrow> dead_letters_ok b t" for s t
  proof (erule dead_letter_step.cases)
    fix i now up queue message how rows s'
    assume ok: "dead_letters_ok b s" and s: "s = s'" "t = s'\<lparr> ds_rows := rows \<rparr>"
      and "park identify i now up queue message (ds_rows s') = (how, rows)"
    from this(4) show "dead_letters_ok b t"
      by (cases rule: park_cases) (use ok s in \<open>auto simp: dead_letters_ok_def\<close>)
  next
    fix link reply committed now i who s' r sent rows
    assume ok: "dead_letters_ok b s" and s: "s = s'" "t = s'\<lparr> ds_rows := rows, ds_sent := ds_sent s' @ sent \<rparr>"
      and run: "redrive link reply committed now i who (ds_rows s') = (r, sent, rows)"
      and b: "link = None \<or> link = Some b"
    from run show "dead_letters_ok b t"
    proof (cases rule: redrive_cases)
      case nothing
      with ok s show ?thesis by simp
    next
      case (sent c x)
      have x: "x \<in> set (ds_rows s)" "dl_id x = i" using row_of_Some [OF sent(2)] s(1) by simp_all
      have "set rows = (if committed then insert (stamped now who x) (set (ds_rows s) - {x}) else set (ds_rows s))"
        using set_update_rows_key [of dl_id "ds_rows s" x] ok x s(1) sent(6) by (simp add: dead_letters_ok_def)
      moreover have "map dl_id rows = map dl_id (ds_rows s)" using sent(6) s(1) by simp
      ultimately show ?thesis using ok s b sent(1,5) x
        by (auto simp: dead_letters_ok_def)
    qed
  qed
qed

section \<open>A redriven message\<close>

text \<open>Admission depends on a message's content and, where senders are verified, on who sent it.\<close>

lemma admit_same_sender:
  assumes "admit uuid datetime b opts m = Inr env" and "d_content m' = d_content m"
    and "\<And>s. verifiesSenders b \<Longrightarrow> senderOf (d_properties m) (br_account b) = Some s \<Longrightarrow>
          senderOf (d_properties m') (br_account b) = Some s"
  shows "admit uuid datetime b opts m' = Inr env"
proof (cases "verifiesSenders b \<and> senderOf (d_properties m) (br_account b) \<noteq> None")
  case False
  with assms(1,2) show ?thesis by (auto simp: admit_def bindE_eq_Inr split: option.splits if_splits)
next
  case True
  then obtain s where "senderOf (d_properties m) (br_account b) = Some s" by auto
  with assms(1,2) assms(3) [of s] True show ?thesis
    by (auto simp: admit_def bindE_eq_Inr split: option.splits if_splits)
qed

lemma senderOf_redrive:
  assumes "account \<noteq> Some []" and "senderOf stored account = Some s" and "account \<noteq> None"
  shows "senderOf (redriveProperties stored i account) account = Some s"
proof -
  have "senderOf (redriveProperties stored i account) account = senderOf (resendProperties stored account) account"
    by (cases account) (auto simp: senderOf_def redriveProperties_def Let_def)
  moreover obtain own where "account = Some own" using assms(3) by auto
  ultimately show ?thesis using senderOf_resend [of own stored s] assms(1,2) by simp
qed

definition stored_message :: "dead_letter \<Rightarrow> delivery" where
  "stored_message r = \<lparr> d_content = dl_body r, d_properties = dl_properties r \<rparr>"

lemma redrive_of_values:
  "fst (redrive_of b r) = dl_queue r" "d_content (snd (redrive_of b r)) = dl_body r"
  "attempt_of (snd (redrive_of b r)) = whole 1" "h_redriveOf (d_properties (snd (redrive_of b r))) = Some (dl_id r)"
  by (simp_all add: redrive_of_def attempt_of_def redriveProperties_def)

lemma admit_redrive:
  assumes "admit uuid datetime b opts (stored_message r) = Inr env" and "br_account b \<noteq> Some []"
  shows "admit uuid datetime b opts (snd (redrive_of b r)) = Inr env"
  by (rule admit_same_sender [OF assms(1)])
    (use assms(2) in \<open>auto simp: redrive_of_def stored_message_def verifiesSenders_def intro!: senderOf_redrive\<close>)

section \<open>Concrete dead letters\<close>

definition demo_identify :: "message_body \<Rightarrow> identified option" where
  "demo_identify c = (case c of
     Json e \<Rightarrow> Some \<lparr> if_eventId = raw_eventId e, if_eventType = None, if_aggregateId = raw_aggregateId e,
                        if_correlationId = raw_correlationId e \<rparr>
   | _ \<Rightarrow> None)"

text \<open>The activation after its attempts were spent, parked and then redriven by an operator.\<close>

definition demo_dead :: delivery where
  "demo_dead = resent demo_broker
     (failed_headers demo_delivery (WalletNotReadyError ''alice'') (so_queue demo_opts) (whole 5)) demo_delivery"

definition demo_letter :: dead_letter where
  "demo_letter = toDeadLetterRow demo_identify ''d1'' 7 (so_queue demo_opts) demo_dead"

definition demo_redrive_by :: redrive_by where
  "demo_redrive_by = \<lparr> rb_actorId = ''admin'', rb_reason = ''the wallet is ready'', rb_correlationId = ''c1'' \<rparr>"

definition demo_letters :: dead_letter_state where
  "demo_letters = \<lparr> ds_rows = [stamped 9 demo_redrive_by demo_letter],
     ds_sent = [redrive_of demo_broker demo_letter] \<rparr>"

lemma demo_letter_values:
  "dl_id demo_letter = ''d1''" "dl_redrivenAt demo_letter = None"
  "dl_attempts demo_letter = whole 5" "dl_correlationId demo_letter = Some ''c''"
  "dl_queue demo_letter = ''foc.credit.wallet-provisioning''" "dl_body demo_letter = d_content demo_delivery"
  by (simp_all add: demo_letter_def toDeadLetterRow_def Let_def demo_dead_def truthy_def resent_def resendProperties_def
      failed_headers_def demo_delivery_def demo_opts_def brokerDeath_def demo_identify_def text_max_def text_value_def
      or_else_def split: prod.splits)

lemma demo_letters_reachable: "reachable dead_letter_start (dead_letter_step demo_identify demo_broker) demo_letters"
proof (rule reachable_step, rule reachable_step, rule reachable_init)
  show "dead_letter_start \<lparr> ds_rows = [], ds_sent = [] \<rparr>" by (simp add: dead_letter_start_def)
  have "insertDeadLetter demo_letter [] = Inr [demo_letter]"
    by (simp add: insertDeadLetter_def bindE_eq_Inr constraints_Inr dead_letter_checks_def demo_letter_values(3)
        integer_column_def int4_def)
      (simp add: demo_letter_def)
  then have "park demo_identify ''d1'' 7 True (so_queue demo_opts) demo_dead [] = (Park_acked, [demo_letter])"
    by (simp add: park_def demo_letter_def)
  from dead_letter_step.parked [of _ _ _ _ _ _ "\<lparr> ds_rows = [], ds_sent = [] \<rparr>", simplified, OF this]
  show "dead_letter_step demo_identify demo_broker \<lparr> ds_rows = [], ds_sent = [] \<rparr>
    \<lparr> ds_rows = [demo_letter], ds_sent = [] \<rparr>" by simp
  have "redrive (Some demo_broker) Pub_confirmed True 9 ''d1'' demo_redrive_by [demo_letter] =
    (Inr (stamped 9 demo_redrive_by demo_letter), [redrive_of demo_broker demo_letter],
     [stamped 9 demo_redrive_by demo_letter])"
    using stamped_allowed [OF demo_letter_values(2)]
    by (simp add: redrive_def row_of_def demo_letter_values publishToQueue_def redrive_of_def update_rows_def)
  from dead_letter_step.redriven [of _ _ _ _ _ _ "\<lparr> ds_rows = [demo_letter], ds_sent = [] \<rparr>", simplified, OF this]
  show "dead_letter_step demo_identify demo_broker \<lparr> ds_rows = [demo_letter], ds_sent = [] \<rparr> demo_letters"
    by (simp add: demo_letters_def)
qed

section \<open>What a redrive guarantees\<close>

text \<open>
  C24. A redrive that is on record was delivered. A stored dead letter marked redriven was taken by
  the broker for its own queue: with the bytes that failed, its attempts started over, marked with
  the dead letter it is of, and admitted by any consumer of the service that admitted the message
  it stores, so who first published it is still known.
\<close>

theorem recorded_redrive_was_delivered:
  assumes "reachable dead_letter_start (dead_letter_step identify b) s" and "br_account b \<noteq> Some []"
    and "r \<in> set (ds_rows s)" and "dl_redrivenAt r = Some t"
  shows "\<exists>d. (dl_queue r, d) \<in> set (ds_sent s) \<and> d_content d = dl_body r \<and> attempt_of d = whole 1 \<and>
    h_redriveOf (d_properties d) = Some (dl_id r) \<and>
    (\<forall>uuid datetime opts env. admit uuid datetime b opts (stored_message r) = Inr env \<longrightarrow>
       admit uuid datetime b opts d = Inr env)"
proof (intro exI conjI allI impI)
  show "(dl_queue r, snd (redrive_of b r)) \<in> set (ds_sent s)"
    using dead_letter_table.holds [OF assms(1)] assms(3,4) by (auto simp: dead_letters_ok_def redrive_of_def)
qed (simp_all add: assms(2) redrive_of_values admit_redrive)

theorem recorded_redrive_was_delivered_witness:
  "\<exists>d. (''foc.credit.wallet-provisioning'', d) \<in> set (ds_sent demo_letters) \<and> attempt_of d = whole 1 \<and>
     d_content d = d_content demo_delivery \<and> h_redriveOf (d_properties d) = Some ''d1''"
proof -
  have "br_account demo_broker \<noteq> Some []" by (simp add: demo_broker_def)
  from recorded_redrive_was_delivered [OF demo_letters_reachable this,
      of "stamped 9 demo_redrive_by demo_letter" 9]
  show ?thesis
    by (auto simp: demo_letters_def stamped_def demo_letter_values simp del: One_nat_def)
qed

section \<open>A forged sender header\<close>

text \<open>What the broker has of a message set aside: the copy under the service's own account.\<close>

definition dead_copy :: "broker \<Rightarrow> subscribe_options \<Rightarrow> delivery \<Rightarrow> service_error \<Rightarrow> delivery" where
  "dead_copy b opts message reason =
     resent b (failed_headers message reason (so_queue opts) (attempt_of message)) message"

lemma handle_refused:
  assumes "admit uuid datetime b opts message = Inl reason" and "consumer_ok b opts"
  shows "handle uuid datetime b opts handler True message db =
    (\<lparr> oc_settled = Acked, oc_republished = [To_dead_letter (so_queue opts) (dead_copy b opts message reason)] \<rparr>, db)"
  using assms durable_not_transient [of "so_queue opts" b]
  by (simp add: handle_def Let_def publishTo_def dead_copy_def consumer_ok_def)

lemma parseEnvelope_not_untrusted: "parseEnvelope uuid datetime content schema versions \<noteq> Inl (UntrustedSenderError a)"
  by (auto simp: parseEnvelope_def split: message_body.splits option.splits if_splits)

lemma admit_nobody:
  assumes "admit uuid datetime b opts message = Inl (UntrustedSenderError None)"
  obtains env expected where
    "parseEnvelope uuid datetime (d_content message) (so_payloadSchema opts) (so_supportedVersions opts) = Inr env"
    "eventType env \<in> set (so_eventTypes opts)" "so_expectedProducer opts = Some expected" "producer env \<in> set expected"
    "verifiesSenders b" "senderOf (d_properties message) (br_account b) = None"
  using assms unfolding admit_def
  by (cases "parseEnvelope uuid datetime (d_content message) (so_payloadSchema opts) (so_supportedVersions opts)")
    (auto simp: parseEnvelope_not_untrusted split: if_splits option.splits)

lemma senderOf_own_header:
  "own \<noteq> [] \<Longrightarrow> s \<noteq> [] \<Longrightarrow> userId_prop p = Some own \<Longrightarrow> h_sender p = Some s \<Longrightarrow> senderOf p (Some own) = Some s"
  by (simp add: senderOf_def text_value_def)

text \<open>
  C25. Once redriven, a forged sender is believed. A message that names no account, and is refused
  for that, but carries a sender header of its publisher's making: the copy set aside is under the
  service's own account and keeps the header, and under that account the header is what is
  believed. Parked and redriven, the same message is admitted as the named sender's.
\<close>

theorem forged_sender_admitted_after_redrive:
  assumes "consumer_ok b opts" and "admit uuid datetime b opts message = Inl (UntrustedSenderError None)"
    and "h_sender (d_properties message) = Some s" and "s \<noteq> []"
    and "so_expectedProducer opts = Some expected" and "s \<in> set expected"
  shows "\<exists>d env. handle uuid datetime b opts handler True message db =
      (\<lparr> oc_settled = Acked, oc_republished = [To_dead_letter (so_queue opts) d] \<rparr>, db) \<and>
    admit uuid datetime b opts (snd (redrive_of b (toDeadLetterRow identify i now (so_queue opts) d))) = Inr env"
proof -
  from assms(2) obtain env where env:
    "parseEnvelope uuid datetime (d_content message) (so_payloadSchema opts) (so_supportedVersions opts) = Inr env"
    "eventType env \<in> set (so_eventTypes opts)" "producer env \<in> set expected" "verifiesSenders b"
    and nobody: "senderOf (d_properties message) (br_account b) = None"
    using assms(5) by (elim admit_nobody) auto
  let ?d = "dead_copy b opts message (UntrustedSenderError None)"
  let ?r = "snd (redrive_of b (toDeadLetterRow identify i now (so_queue opts) ?d))"
  obtain own where own: "br_account b = Some own" "own \<noteq> []"
    using env(4) assms(1) by (auto simp: verifiesSenders_def consumer_ok_def)
  have "userId_prop (d_properties ?d) = Some own" "h_sender (d_properties ?d) = Some s"
    using own nobody assms(3) by (simp_all add: dead_copy_def resent_def resendProperties_def) (simp add: failed_headers_def)
  then have "senderOf (d_properties ?d) (Some own) = Some s" using own(2) assms(4) by (simp add: senderOf_own_header)
  then have "senderOf (d_properties ?r) (Some own) = Some s"
    using senderOf_redrive [of "Some own"] own by (simp add: redrive_of_def)
  moreover have "d_content ?r = d_content message" by (simp add: redrive_of_values dead_copy_def)
  ultimately have "admit uuid datetime b opts ?r = Inr env"
    using env own(1) assms(5,6) by (simp add: admit_def)
  with handle_refused [OF assms(2,1)] show ?thesis by (intro exI conjI)
qed

definition forged_delivery :: delivery where
  "forged_delivery = demo_delivery\<lparr> d_properties :=
     (d_properties demo_delivery)\<lparr> userId_prop := None, h_sender := Some ''user-service'' \<rparr> \<rparr>"

lemma forged_refused: "admit demo_uuid demo_datetime demo_broker demo_opts forged_delivery = Inl (UntrustedSenderError None)"
  by (simp add: admit_def parseEnvelope_def envelopeSchema_def forged_delivery_def demo_delivery_def demo_opts_def
      demo_broker_def demo_uuid_def demo_datetime_def min1_def min1max128_def
      positive_int_def safe_int_def DEFAULT_SUPPORTED_VERSIONS_def verifiesSenders_def
      senderOf_def text_value_def)

theorem forged_sender_admitted_after_redrive_witness:
  "\<exists>d env. handle demo_uuid demo_datetime demo_broker demo_opts (\<lambda>_ n. (Inr False, n + 1)) True forged_delivery (0::nat) =
      (\<lparr> oc_settled = Acked, oc_republished = [To_dead_letter (so_queue demo_opts) d] \<rparr>, 0) \<and>
    admit demo_uuid demo_datetime demo_broker demo_opts
      (snd (redrive_of demo_broker (toDeadLetterRow demo_identify ''d2'' 7 (so_queue demo_opts) d))) = Inr env"
  by (rule forged_sender_admitted_after_redrive [OF demo_consumer(1) forged_refused, where s = "''user-service''" and expected = "[''user-service'']"])
    (simp_all add: forged_delivery_def demo_consumer)

end
