(* ===== verification/Auth_Client.thy ===== *)
theory Auth_Client
  imports User_Store Event_Consumer "HOL-Library.AList" "HOL-Library.Sublist"
begin

text \<open>
  The authentication every service shares (auth-client/src): reading and checking a token
  (authenticator.ts, token-verifier.ts), asking the User Service who is behind it with a short
  cache (identity-client.ts), and forgetting a user when their account changes (status-events.ts).

  A \<open>Map\<close> of the code is an association list in insertion order: \<open>AList.update\<close> replaces a value in
  place or appends, as \<open>Map.set\<close> does. A promise is the number of the step that made it. What
  \<open>jose\<close> makes of a token and what the User Service answers are arguments.
\<close>

section \<open>Failures\<close>

datatype auth_failure =
    TOKEN_MISSING | TOKEN_MALFORMED | TOKEN_INVALID | TOKEN_EXPIRED | TOKEN_REVOKED
  | ACCOUNT_SUSPENDED | ACCOUNT_NOT_ACTIVATED | FORBIDDEN | IDENTITY_UNAVAILABLE

fun authFailure :: "auth_failure \<Rightarrow> service_error" where
  "authFailure TOKEN_MISSING = ApiException 401 ''TOKEN_MISSING'' No_details"
| "authFailure TOKEN_MALFORMED = ApiException 401 ''TOKEN_MALFORMED'' No_details"
| "authFailure TOKEN_INVALID = ApiException 401 ''TOKEN_INVALID'' No_details"
| "authFailure TOKEN_EXPIRED = ApiException 401 ''TOKEN_EXPIRED'' No_details"
| "authFailure TOKEN_REVOKED = ApiException 401 ''TOKEN_REVOKED'' No_details"
| "authFailure ACCOUNT_SUSPENDED = ApiException 403 ''ACCOUNT_SUSPENDED'' No_details"
| "authFailure ACCOUNT_NOT_ACTIVATED = ApiException 403 ''ACCOUNT_NOT_ACTIVATED'' No_details"
| "authFailure FORBIDDEN = ApiException 403 ''FORBIDDEN'' No_details"
| "authFailure IDENTITY_UNAVAILABLE = ApiException 503 ''IDENTITY_UNAVAILABLE'' No_details"

section \<open>The token\<close>

text \<open>\<open>/^Bearer\s+(\S+)$/i\<close> on the trimmed header.\<close>

definition bearerToken :: "string option \<Rightarrow> service_error + string" where
  "bearerToken header =
     (case map_option trim header of
        None \<Rightarrow> Inl (authFailure TOKEN_MISSING)
      | Some t \<Rightarrow>
          let token = dropWhile js_space (drop 6 t)
          in if t = [] then Inl (authFailure TOKEN_MISSING)
             else if toLowerCase (take 6 t) = ''bearer'' \<and> drop 6 t \<noteq> [] \<and> js_space (hd (drop 6 t)) \<and>
                     token \<noteq> [] \<and> list_all (\<lambda>c. \<not> js_space c) token
             then Inr token
             else Inl (authFailure TOKEN_MALFORMED))"

text \<open>What verifying a token gives: its claims, each if it is a string, or the class of the failure.\<close>

datatype jwt_result =
    Jwt_payload "ident option" "ident option"
  | Jwt_expired
  | Jwt_malformed
  | Jwt_refused
  | Jwt_unchecked

fun classify :: "jwt_result \<Rightarrow> service_error + ident \<times> ident" where
  "classify (Jwt_payload (Some sub) (Some sid)) = Inr (sub, sid)"
| "classify (Jwt_payload _ _) = Inl (authFailure TOKEN_INVALID)"
| "classify Jwt_expired = Inl (authFailure TOKEN_EXPIRED)"
| "classify Jwt_malformed = Inl (authFailure TOKEN_MALFORMED)"
| "classify Jwt_refused = Inl (authFailure TOKEN_INVALID)"
| "classify Jwt_unchecked = Inl (authFailure IDENTITY_UNAVAILABLE)"

definition verify :: "(string \<Rightarrow> bool) \<Rightarrow> (string \<Rightarrow> jwt_result) \<Rightarrow> string \<Rightarrow> service_error + ident \<times> ident" where
  "verify decodable jwt token =
     (if Suc (length (filter (\<lambda>c. c = CHR ''.'') token)) \<noteq> 3 then Inl (authFailure TOKEN_MALFORMED)
      else if \<not> decodable token then Inl (authFailure TOKEN_MALFORMED)
      else classify (jwt token))"

section \<open>The User Service's answer\<close>

datatype introspection =
    Not_live
  | Live (in_userId: ident) (in_status: string) (in_roles: "user_role list") (in_displayName: string)

text \<open>The fields of a JSON object, each if it has the type the code looks for.\<close>

record introspect_body =
  ib_active :: "bool option"
  ib_userId :: "string option"
  ib_displayName :: "string option"
  ib_status :: "string option"
  ib_roles :: "string option list option"

fun known_role :: "string option \<Rightarrow> user_role option" where
  "known_role v = (if v = Some ''STUDENT'' then Some STUDENT else if v = Some ''ADMIN'' then Some ADMIN else None)"

definition parse_introspection :: "introspect_body option \<Rightarrow> service_error + introspection" where
  "parse_introspection body =
     (case body of
        None \<Rightarrow> Inl (authFailure IDENTITY_UNAVAILABLE)
      | Some b \<Rightarrow>
          (case ib_active b of
             None \<Rightarrow> Inl (authFailure IDENTITY_UNAVAILABLE)
           | Some False \<Rightarrow> Inr Not_live
           | Some True \<Rightarrow>
               (case (ib_userId b, ib_displayName b, ib_status b, ib_roles b) of
                  (Some i, Some name, Some status, Some roles) \<Rightarrow>
                    Inr (Live i status (List.map_filter known_role roles) name)
                | _ \<Rightarrow> Inl (authFailure IDENTITY_UNAVAILABLE))))"

text \<open>No reply stands for a timeout, a network error, a status other than 2xx or a body that is not JSON.\<close>

definition fetchFresh :: "introspect_body option option \<Rightarrow> service_error + introspection" where
  "fetchFresh reply =
     (case reply of None \<Rightarrow> Inl (authFailure IDENTITY_UNAVAILABLE) | Some body \<Rightarrow> parse_introspection body)"

section \<open>The cache\<close>

record auth_config =
  cf_cacheTtlMs :: int
  cf_maxCacheEntries :: nat

definition DEFAULT_CACHE_TTL_MS :: int where
  "DEFAULT_CACHE_TTL_MS = 5000"

text \<open>The configuration a service gives, each setting optional.\<close>

definition configured :: "int option \<Rightarrow> nat option \<Rightarrow> auth_config" where
  "configured ttl entries =
     \<lparr> cf_cacheTtlMs = (case ttl of Some t \<Rightarrow> t | None \<Rightarrow> DEFAULT_CACHE_TTL_MS),
       cf_maxCacheEntries = (case entries of Some n \<Rightarrow> n | None \<Rightarrow> 10000) \<rparr>"

record 'v cache_entry =
  en_value :: 'v
  en_expiresAt :: int
  en_userId :: ident

record 'v identity_client =
  ic_cache :: "(string \<times> 'v cache_entry) list"
  ic_keysByUser :: "ident \<rightharpoonup> string set"
  ic_inflight :: "(string \<times> nat) list"

definition empty_client :: "'v identity_client" where
  "empty_client = \<lparr> ic_cache = [], ic_keysByUser = Map.empty, ic_inflight = [] \<rparr>"

definition session_key :: "ident \<Rightarrow> ident \<Rightarrow> string" where
  "session_key sessionId userId = sessionId @ '':'' @ userId"

text \<open>What \<open>introspect\<close> finds: a cached answer, a lookup to wait for, or that it has to ask.\<close>

datatype 'v looked_up = Cached 'v | Joined nat | Asked

definition introspect_client ::
  "int \<Rightarrow> nat \<Rightarrow> ident \<Rightarrow> ident \<Rightarrow> 'v identity_client \<Rightarrow> 'v looked_up \<times> 'v identity_client" where
  "introspect_client now request sessionId userId c =
     (let key = session_key sessionId userId;
          pending = (case map_of (ic_inflight c) key of
                       Some p \<Rightarrow> (Joined p, c)
                     | None \<Rightarrow> (Asked, c\<lparr> ic_inflight := AList.update key request (ic_inflight c) \<rparr>))
      in case map_of (ic_cache c) key of
           Some hit \<Rightarrow> if now < en_expiresAt hit then (Cached (en_value hit), c) else pending
         | None \<Rightarrow> pending)"

definition drop_key :: "ident \<Rightarrow> string \<Rightarrow> (ident \<rightharpoonup> string set) \<Rightarrow> (ident \<rightharpoonup> string set)" where
  "drop_key i key m =
     (case m i of
        None \<Rightarrow> m
      | Some keys \<Rightarrow> if keys - {key} = {} then m(i := None) else m(i \<mapsto> keys - {key}))"

definition add_key :: "ident \<Rightarrow> string \<Rightarrow> (ident \<rightharpoonup> string set) \<Rightarrow> (ident \<rightharpoonup> string set)" where
  "add_key i key m = (case m i of Some keys \<Rightarrow> m(i \<mapsto> insert key keys) | None \<Rightarrow> m(i \<mapsto> {key}))"

definition forget :: "string \<Rightarrow> 'v identity_client \<Rightarrow> 'v identity_client" where
  "forget key c =
     (case map_of (ic_cache c) key of
        None \<Rightarrow> c
      | Some e \<Rightarrow> c\<lparr> ic_cache := AList.delete key (ic_cache c),
                     ic_keysByUser := drop_key (en_userId e) key (ic_keysByUser c) \<rparr>)"

definition make_room :: "auth_config \<Rightarrow> int \<Rightarrow> 'v identity_client \<Rightarrow> 'v identity_client" where
  "make_room cfg now c =
     (if cf_maxCacheEntries cfg \<le> length (ic_cache c)
      then let swept = fold forget (map fst (filter (\<lambda>(k, e). en_expiresAt e \<le> now) (ic_cache c))) c
           in if cf_maxCacheEntries cfg \<le> length (ic_cache swept) \<and> ic_cache swept \<noteq> []
              then forget (fst (hd (ic_cache swept))) swept else swept
      else c)"

definition remember ::
  "auth_config \<Rightarrow> int \<Rightarrow> string \<Rightarrow> ident \<Rightarrow> 'v \<Rightarrow> 'v identity_client \<Rightarrow> 'v identity_client" where
  "remember cfg now key userId v c =
     (if cf_cacheTtlMs cfg \<le> 0 then c
      else let room = make_room cfg now c; i = toLowerCase userId
           in room\<lparr> ic_cache := AList.update key
                      \<lparr> en_value = v, en_expiresAt = now + cf_cacheTtlMs cfg, en_userId = i \<rparr> (ic_cache room),
                    ic_keysByUser := add_key i key (ic_keysByUser room) \<rparr>)"

text \<open>
  The two callbacks of a lookup: its answer is cached if the lookup is still the current one, and
  it is taken off the list once it is over, however it ended.
\<close>

definition lookup_answered ::
  "auth_config \<Rightarrow> int \<Rightarrow> nat \<Rightarrow> ident \<Rightarrow> ident \<Rightarrow> 'v \<Rightarrow> 'v identity_client \<Rightarrow> 'v identity_client" where
  "lookup_answered cfg now request sessionId userId v c =
     (let key = session_key sessionId userId
      in if map_of (ic_inflight c) key = Some request then remember cfg now key userId v c else c)"

definition lookup_over :: "nat \<Rightarrow> ident \<Rightarrow> ident \<Rightarrow> 'v identity_client \<Rightarrow> 'v identity_client" where
  "lookup_over request sessionId userId c =
     (let key = session_key sessionId userId
      in if map_of (ic_inflight c) key = Some request
         then c\<lparr> ic_inflight := AList.delete key (ic_inflight c) \<rparr> else c)"

definition invalidateUser :: "ident \<Rightarrow> 'v identity_client \<Rightarrow> 'v identity_client" where
  "invalidateUser userId c =
     (let i = toLowerCase userId;
          keys = (case ic_keysByUser c i of Some ks \<Rightarrow> ks | None \<Rightarrow> {})
      in c\<lparr> ic_cache := filter (\<lambda>(k, e). k \<notin> keys) (ic_cache c),
            ic_keysByUser := (ic_keysByUser c)(i := None),
            ic_inflight := filter (\<lambda>(k, n). \<not> suffix ('':'' @ i) (toLowerCase k)) (ic_inflight c) \<rparr>)"

section \<open>Authenticating\<close>

record verified_caller =
  vc_userId :: ident
  vc_sessionId :: ident
  vc_displayName :: string
  vc_roles :: "user_role list"
  vc_status :: string
  vc_isAdmin :: bool

definition caller_of :: "ident \<Rightarrow> introspection \<Rightarrow> service_error + verified_caller" where
  "caller_of sid who =
     (case who of
        Not_live \<Rightarrow> Inl (authFailure TOKEN_REVOKED)
      | Live userId status roles displayName \<Rightarrow>
          if status = ''SUSPENDED'' then Inl (authFailure ACCOUNT_SUSPENDED)
          else if status \<noteq> ''ACTIVE'' then Inl (authFailure ACCOUNT_NOT_ACTIVATED)
          else Inr \<lparr> vc_userId = userId, vc_sessionId = sid, vc_displayName = displayName,
                     vc_roles = roles, vc_status = ''ACTIVE'', vc_isAdmin = (ADMIN \<in> set roles) \<rparr>)"

text \<open>\<open>introspected\<close> is what \<open>identity.introspect\<close> resolves to, for a session and a user.\<close>

definition authenticate ::
  "(string \<Rightarrow> bool) \<Rightarrow> (string \<Rightarrow> jwt_result) \<Rightarrow> (ident \<Rightarrow> ident \<Rightarrow> service_error + introspection)
     \<Rightarrow> string option \<Rightarrow> service_error + verified_caller" where
  "authenticate decodable jwt introspected header =
     bindE (bearerToken header) (\<lambda>token.
       bindE (verify decodable jwt token) (\<lambda>(sub, sid).
         bindE (introspected sid sub) (caller_of sid)))"

definition requireAdmin :: "verified_caller \<Rightarrow> service_error + unit" where
  "requireAdmin caller = requireE (vc_isAdmin caller) (authFailure FORBIDDEN)"

section \<open>Account changes\<close>

definition IDENTITY_CHANGE_EVENTS :: "event_type list" where
  "IDENTITY_CHANGE_EVENTS = [USER_SUSPENDED, USER_REACTIVATED, USER_ROLE_CHANGED]"

definition identityChangedPayload :: "payload \<Rightarrow> bool" where
  "identityChangedPayload p \<longleftrightarrow>
     opt_all (\<lambda>fits. fits p) (PAYLOAD_SCHEMAS USER_SUSPENDED) \<or>
     opt_all (\<lambda>fits. fits p) (PAYLOAD_SCHEMAS USER_ROLE_CHANGED)"

definition authStatusEvents :: "string \<Rightarrow> subscription_spec" where
  "authStatusEvents queue = \<lparr> ss_queue = queue, ss_exclusive = True, ss_autoDelete = True \<rparr>"

definition status_options :: "string \<Rightarrow> subscribe_options" where
  "status_options queue = \<lparr> so_queue = queue, so_eventTypes = IDENTITY_CHANGE_EVENTS,
     so_expectedProducer = Some [''user-service''], so_payloadSchema = identityChangedPayload,
     so_supportedVersions = DEFAULT_SUPPORTED_VERSIONS \<rparr>"

text \<open>The handler only ever forgets: it reads nothing of the event but whose account it is.\<close>

definition handle_identity_event :: "envelope \<Rightarrow> 'v identity_client \<Rightarrow> 'v identity_client" where
  "handle_identity_event env c = invalidateUser (p_userId (ev_payload env)) c"

end
