(* ===== verification/Auth_Freshness.thy ===== *)
theory Auth_Freshness
  imports Auth_Client
begin

text \<open>
  What the identity cache of the services guarantees (auth-client/src/identity-client.ts): its index
  by user is exact and its size bounded, and in every run of lookups, failures, expiries and account
  changes an answer is as fresh as it claims.
\<close>

section \<open>The index by user\<close>

definition plain_id :: "ident \<Rightarrow> bool" where
  "plain_id i \<longleftrightarrow> list_all (\<lambda>c. c \<noteq> CHR '':'') i"

definition key_user :: "string \<Rightarrow> ident" where
  "key_user key = rev (takeWhile (\<lambda>c. c \<noteq> CHR '':'') (rev key))"

definition index_of :: "string list \<Rightarrow> ident \<rightharpoonup> string set" where
  "index_of ks i = (let own = {k \<in> set ks. toLowerCase (key_user k) = i} in if own = {} then None else Some own)"

definition client_ok :: "'v identity_client \<Rightarrow> bool" where
  "client_ok c \<longleftrightarrow> distinct (map fst (ic_cache c)) \<and> distinct (map fst (ic_inflight c)) \<and>
     (\<forall>(k, e) \<in> set (ic_cache c). en_userId e = toLowerCase (key_user k)) \<and>
     ic_keysByUser c = index_of (map fst (ic_cache c))"

lemma client_ok_index:
  assumes "client_ok c"
  shows "ic_keysByUser c i \<noteq> Some {}"
    and "k \<in> (case ic_keysByUser c i of Some ks \<Rightarrow> ks | None \<Rightarrow> {}) \<longleftrightarrow>
      (\<exists>e. (k, e) \<in> set (ic_cache c) \<and> en_userId e = i)"
proof -
  let ?own = "{k \<in> set (map fst (ic_cache c)). toLowerCase (key_user k) = i}"
  have keys: "ic_keysByUser c i = (if ?own = {} then None else Some ?own)"
    using assms by (simp add: client_ok_def index_of_def Let_def)
  then show "ic_keysByUser c i \<noteq> Some {}" by simp
  have "(case ic_keysByUser c i of Some ks \<Rightarrow> ks | None \<Rightarrow> {}) = ?own" unfolding keys by simp
  moreover have "k \<in> ?own \<longleftrightarrow> (\<exists>e. (k, e) \<in> set (ic_cache c) \<and> en_userId e = i)"
  proof -
    have users: "en_userId e = toLowerCase (key_user k)" if "(k, e) \<in> set (ic_cache c)" for e
      using assms that by (auto simp: client_ok_def)
    then show ?thesis by (auto intro: rev_image_eqI)
  qed
  ultimately show "k \<in> (case ic_keysByUser c i of Some ks \<Rightarrow> ks | None \<Rightarrow> {}) \<longleftrightarrow>
      (\<exists>e. (k, e) \<in> set (ic_cache c) \<and> en_userId e = i)" by simp
qed

lemma key_user_session [simp]: "plain_id u \<Longrightarrow> key_user (session_key sid u) = u"
proof -
  assume "plain_id u"
  then have "takeWhile (\<lambda>c. c \<noteq> CHR '':'') (rev u @ CHR '':'' # rev sid) = rev u"
    by (subst takeWhile_append2) (auto simp: plain_id_def list_all_iff)
  then show ?thesis by (simp add: key_user_def session_key_def)
qed

lemma session_key_inject: "plain_id u \<Longrightarrow> plain_id v \<Longrightarrow> session_key s u = session_key t v \<longleftrightarrow> s = t \<and> u = v"
  using key_user_session [of u s] key_user_session [of v t] by (auto simp: session_key_def)

lemma drop_key_index:
  "toLowerCase (key_user key) = i \<Longrightarrow> drop_key i key (index_of ks) = index_of (filter (\<lambda>k. k \<noteq> key) ks)"
proof -
  assume i: "toLowerCase (key_user key) = i"
  have eq: "{k \<in> set ks. k \<noteq> key \<and> toLowerCase (key_user k) = j} =
      (if j = i then {k \<in> set ks. toLowerCase (key_user k) = i} - {key}
       else {k \<in> set ks. toLowerCase (key_user k) = j})" for j using i by auto
  show ?thesis
    by (rule ext) (auto simp: drop_key_def index_of_def Let_def eq conj_assoc split: option.splits)
qed

lemma add_key_index:
  "toLowerCase (key_user key) = i \<Longrightarrow> set ks' = insert key (set ks) \<Longrightarrow> add_key i key (index_of ks) = index_of ks'"
proof -
  assume i: "toLowerCase (key_user key) = i" and ks: "set ks' = insert key (set ks)"
  have eq: "{k \<in> set ks'. toLowerCase (key_user k) = j} =
      (if j = i then insert key {k \<in> set ks. toLowerCase (key_user k) = i}
       else {k \<in> set ks. toLowerCase (key_user k) = j})" for j using i ks by auto
  show ?thesis
    by (rule ext) (auto simp: add_key_def index_of_def Let_def eq split: option.splits)
qed

lemma set_alist_update: "set (AList.update k v al) \<subseteq> insert (k, v) (set al)"
  by (induction al) auto

lemma keys_alist_update: "set (map fst (AList.update k v al)) = insert k (set (map fst al))"
  by (induction al) auto

lemma length_alist_update: "length (AList.update k v al) \<le> Suc (length al)"
  by (induction al) auto

lemma map_fst_delete: "map fst (AList.delete k al) = filter (\<lambda>x. x \<noteq> k) (map fst al)"
  by (induction al) (auto simp: AList.delete_eq)

lemma forget_cache [simp]: "ic_cache (forget k c) = AList.delete k (ic_cache c)"
  by (auto simp: forget_def AList.delete_eq filter_id_conv map_of_eq_None_iff
      split: option.splits intro!: filter_True [symmetric]) force

lemma forget_inflight [simp]: "ic_inflight (forget k c) = ic_inflight c"
  by (simp add: forget_def split: option.splits)

lemma forget_ok: "client_ok c \<Longrightarrow> client_ok (forget k c)"
proof (cases "map_of (ic_cache c) k")
  case (Some e)
  assume ok: "client_ok c"
  from Some have "(k, e) \<in> set (ic_cache c)" by (rule map_of_SomeD)
  with ok have "toLowerCase (key_user k) = en_userId e" by (auto simp: client_ok_def)
  from drop_key_index [OF this] ok Some show ?thesis
    by (auto simp: client_ok_def forget_def map_fst_delete) (auto simp: AList.delete_eq)
qed (simp add: forget_def)

lemma forget_all:
  "client_ok c \<Longrightarrow> client_ok (fold forget ks c)"
  "set (ic_cache (fold forget ks c)) \<subseteq> set (ic_cache c)"
  "ic_inflight (fold forget ks c) = ic_inflight c"
  "length (ic_cache (fold forget ks c)) \<le> length (ic_cache c)"
proof (induction ks arbitrary: c)
  case (Cons k ks)
  { case 1 then show ?case using Cons.IH(1) by (simp add: forget_ok) }
  { case 2 then show ?case using Cons.IH(2) [of "forget k c"] by (auto simp: AList.delete_eq) }
  { case 3 then show ?case using Cons.IH(3) by simp }
  { case 4 then show ?case using Cons.IH(4) [of "forget k c"]
      by (auto simp: AList.delete_eq intro: order_trans [OF _ length_filter_le]) }
qed simp_all

lemma make_room:
  "client_ok c \<Longrightarrow> client_ok (make_room cfg now c)"
  "set (ic_cache (make_room cfg now c)) \<subseteq> set (ic_cache c)"
  "ic_inflight (make_room cfg now c) = ic_inflight c"
  using forget_all [where c = c]
  by (auto simp: make_room_def Let_def forget_ok AList.delete_eq)

lemma make_room_length:
  assumes "length (ic_cache c) \<le> max 1 (cf_maxCacheEntries cfg)"
  shows "length (ic_cache (make_room cfg now c)) < max 1 (cf_maxCacheEntries cfg)"
proof (cases "cf_maxCacheEntries cfg \<le> length (ic_cache c)")
  case True
  let ?swept = "fold forget (map fst (filter (\<lambda>(k, e). en_expiresAt e \<le> now) (ic_cache c))) c"
  have le: "length (ic_cache ?swept) \<le> length (ic_cache c)" by (rule forget_all(4))
  have "length (AList.delete (fst (hd xs)) xs) < length xs" if "xs \<noteq> []" for xs :: "(string \<times> 'a cache_entry) list"
    using that by (cases xs) (auto simp: AList.delete_eq less_Suc_eq_le)
  then have "ic_cache ?swept \<noteq> [] \<Longrightarrow> length (AList.delete (fst (hd (ic_cache ?swept))) (ic_cache ?swept)) < length (ic_cache ?swept)"
    by blast
  with True le assms show ?thesis
    by (cases "ic_cache ?swept = []") (auto simp: make_room_def Let_def)
next
  case False
  then show ?thesis by (simp add: make_room_def)
qed

lemma remember_ok:
  assumes "client_ok c" and "plain_id u"
  shows "client_ok (remember cfg now (session_key sid u) u v c)"
proof (cases "cf_cacheTtlMs cfg \<le> 0")
  case False
  have room: "client_ok (make_room cfg now c)" using assms(1) by (rule make_room)
  let ?c = "ic_cache (make_room cfg now c)"
  let ?e = "\<lparr> en_value = v, en_expiresAt = now + cf_cacheTtlMs cfg, en_userId = toLowerCase u \<rparr>"
  have "add_key (toLowerCase u) (session_key sid u) (index_of (map fst ?c)) =
      index_of (map fst (AList.update (session_key sid u) ?e ?c))"
    by (rule add_key_index) (use assms(2) keys_alist_update in simp_all)
  with False room assms(2) set_alist_update [of "session_key sid u" ?e ?c] show ?thesis
    by (auto simp: remember_def client_ok_def Let_def distinct_update)
qed (use assms in \<open>simp add: remember_def\<close>)

lemma invalidateUser_ok: "client_ok c \<Longrightarrow> client_ok (invalidateUser u c)"
proof -
  assume ok: "client_ok c"
  have keys: "ic_keysByUser c = index_of (map fst (ic_cache c))" using ok by (simp add: client_ok_def)
  define own where "own = (case ic_keysByUser c (toLowerCase u) of Some ks \<Rightarrow> ks | None \<Rightarrow> {})"
  have own_keys: "own = {k \<in> set (map fst (ic_cache c)). toLowerCase (key_user k) = toLowerCase u}"
    by (auto simp: own_def keys index_of_def Let_def)
  have kept: "map fst (filter (\<lambda>(k, e). k \<notin> own) (ic_cache c)) =
      filter (\<lambda>k. k \<notin> own) (map fst (ic_cache c))"
    by (simp add: filter_map comp_def case_prod_unfold)
  have "(ic_keysByUser c)(toLowerCase u := None) = index_of (map fst (filter (\<lambda>(k, e). k \<notin> own) (ic_cache c)))"
  proof (rule ext)
    fix i
    have "{k \<in> set (filter (\<lambda>k. k \<notin> own) (map fst (ic_cache c))). toLowerCase (key_user k) = i} =
      (if i = toLowerCase u then {} else {k \<in> set (map fst (ic_cache c)). toLowerCase (key_user k) = i})"
      by (auto simp: own_keys)
    then show "((ic_keysByUser c)(toLowerCase u := None)) i =
        index_of (map fst (filter (\<lambda>(k, e). k \<notin> own) (ic_cache c))) i"
      unfolding kept keys by (simp add: index_of_def Let_def)
  qed
  moreover have "invalidateUser u c = c\<lparr> ic_cache := filter (\<lambda>(k, e). k \<notin> own) (ic_cache c),
      ic_keysByUser := (ic_keysByUser c)(toLowerCase u := None),
      ic_inflight := filter (\<lambda>(k, n). \<not> suffix ('':'' @ toLowerCase u) (toLowerCase k)) (ic_inflight c) \<rparr>"
    by (simp add: invalidateUser_def Let_def own_def)
  ultimately show ?thesis using ok by (auto simp: client_ok_def distinct_map_filter)
qed

lemma invalidateUser_cache:
  assumes "client_ok c" and "(k, e) \<in> set (ic_cache (invalidateUser u c))"
  shows "(k, e) \<in> set (ic_cache c)" and "toLowerCase (key_user k) \<noteq> toLowerCase u"
proof -
  have keys: "ic_keysByUser c = index_of (map fst (ic_cache c))" using assms(1) by (simp add: client_ok_def)
  show "(k, e) \<in> set (ic_cache c)" using assms(2) by (simp add: invalidateUser_def Let_def)
  with assms(2) show "toLowerCase (key_user k) \<noteq> toLowerCase u"
    by (auto simp: invalidateUser_def Let_def keys index_of_def image_iff split: if_splits)
qed

lemma invalidateUser_inflight:
  assumes "(session_key sid v, n) \<in> set (ic_inflight (invalidateUser u c))"
  shows "(session_key sid v, n) \<in> set (ic_inflight c)" and "toLowerCase v \<noteq> toLowerCase u"
proof -
  have "lower_char CHR '':'' = CHR '':''" by (simp add: lower_char_def)
  then have "toLowerCase (session_key sid v) = toLowerCase sid @ CHR '':'' # toLowerCase v"
    by (simp add: toLowerCase_def session_key_def)
  moreover have "suffix ('':'' @ toLowerCase v) (toLowerCase sid @ CHR '':'' # toLowerCase v)"
    by (simp add: suffix_def)
  ultimately show "toLowerCase v \<noteq> toLowerCase u" "(session_key sid v, n) \<in> set (ic_inflight c)"
    using assms by (auto simp: invalidateUser_def Let_def)
qed

lemma introspect_cases:
  assumes "introspect_client now n sid u c = (r, c')"
  obtains (cached) e where "r = Cached (en_value e)" "c' = c" "(session_key sid u, e) \<in> set (ic_cache c)"
      "now < en_expiresAt e"
  | (joined) p where "r = Joined p" "c' = c" "(session_key sid u, p) \<in> set (ic_inflight c)"
  | (asked) "r = Asked" "c' = c\<lparr> ic_inflight := AList.update (session_key sid u) n (ic_inflight c) \<rparr>"
  using assms
  by (auto simp: introspect_client_def Let_def split: option.splits if_splits dest: map_of_SomeD)

lemma introspect_ok: "client_ok c \<Longrightarrow> introspect_client now n sid u c = (r, c') \<Longrightarrow> client_ok c'"
  by (erule introspect_cases) (auto simp: client_ok_def distinct_update)

lemma lookup_over_ok: "client_ok c \<Longrightarrow> client_ok (lookup_over n sid u c)"
  by (auto simp: lookup_over_def client_ok_def Let_def map_fst_delete)

lemma lookup_answered_ok:
  "client_ok c \<Longrightarrow> plain_id u \<Longrightarrow> client_ok (lookup_answered cfg now n sid u v c)"
  by (simp add: lookup_answered_def Let_def remember_ok)

text \<open>What is cached after an answer was there before, or is the answer of the current lookup.\<close>

lemma lookup_answered_cache:
  assumes "(k, e) \<in> set (ic_cache (lookup_answered cfg now n sid u v c))"
  obtains "(k, e) \<in> set (ic_cache c)"
  | "k = session_key sid u" "e = \<lparr> en_value = v, en_expiresAt = now + cf_cacheTtlMs cfg, en_userId = toLowerCase u \<rparr>"
      "(k, n) \<in> set (ic_inflight c)"
  using assms make_room(2) [of cfg now c]
    set_alist_update [of "session_key sid u" _ "ic_cache (make_room cfg now c)"]
  by (fastforce simp: lookup_answered_def remember_def Let_def split: if_splits dest: map_of_SomeD)

lemma lookup_answered_inflight [simp]: "ic_inflight (lookup_answered cfg now n sid u v c) = ic_inflight c"
  by (simp add: lookup_answered_def remember_def Let_def make_room(3))

lemma lookup_answered_length:
  "length (ic_cache c) \<le> max 1 (cf_maxCacheEntries cfg) \<Longrightarrow>
   length (ic_cache (lookup_answered cfg now n sid u v c)) \<le> max 1 (cf_maxCacheEntries cfg)"
  by (simp add: lookup_answered_def remember_def Let_def)
    (meson Suc_leI length_alist_update make_room_length [simplified] order_trans)

section \<open>Runs\<close>

text \<open>
  A run of one service's cache. Steps are numbered; a lookup is known by the step that started it,
  an answer by its lookup and the time it came. The state keeps who waits for which lookup, every
  answer handed to a caller, every account change heard of, and every lookup started.
\<close>

record lookup_answer =
  an_lookup :: nat
  an_at :: int
  an_value :: introspection

record auth_lookup =
  lk_id :: nat
  lk_sid :: ident
  lk_userId :: ident
  lk_answer :: "lookup_answer option"

record waiting_caller =
  wt_lookup :: nat
  wt_asked :: nat
  wt_sid :: ident
  wt_userId :: ident

record served_caller =
  sv_asked :: nat
  sv_sid :: ident
  sv_userId :: ident
  sv_answer :: lookup_answer
  sv_at :: int
  sv_cached :: bool

record auth_run =
  ar_tick :: nat
  ar_now :: int
  ar_client :: "lookup_answer identity_client"
  ar_lookups :: "auth_lookup list"
  ar_waiting :: "waiting_caller list"
  ar_served :: "served_caller list"
  ar_forgotten :: "(ident \<times> nat) list"
  ar_started :: "(nat \<times> ident \<times> ident) list"

definition auth_start :: "auth_run \<Rightarrow> bool" where
  "auth_start s \<longleftrightarrow> ar_client s = empty_client \<and> ar_lookups s = [] \<and> ar_waiting s = [] \<and>
     ar_served s = [] \<and> ar_forgotten s = [] \<and> ar_started s = []"

definition later :: "int \<Rightarrow> auth_run \<Rightarrow> auth_run" where
  "later now s = s\<lparr> ar_tick := Suc (ar_tick s), ar_now := now \<rparr>"

definition serve :: "int \<Rightarrow> lookup_answer \<Rightarrow> waiting_caller \<Rightarrow> served_caller" where
  "serve now a w = \<lparr> sv_asked = wt_asked w, sv_sid = wt_sid w, sv_userId = wt_userId w, sv_answer = a,
     sv_at = now, sv_cached = False \<rparr>"

text \<open>
  A caller asks about a session of a user, whose id has no colon, as a UUID has not; the User
  Service answers a lookup, or does not; the callers waiting for it get what it gave; an event of
  an account change is handled. Any time may pass between steps.
\<close>

inductive auth_step :: "auth_config \<Rightarrow> auth_run \<Rightarrow> auth_run \<Rightarrow> bool" for cfg where
  hit: "\<lbrakk> ar_now s \<le> now; plain_id u;
     introspect_client now (ar_tick s) sid u (ar_client s) = (Cached a, c) \<rbrakk> \<Longrightarrow>
     auth_step cfg s (later now (s\<lparr> ar_client := c,
       ar_served := ar_served s @ [\<lparr> sv_asked = ar_tick s, sv_sid = sid, sv_userId = u, sv_answer = a,
                                     sv_at = now, sv_cached = True \<rparr>] \<rparr>))"
| joined: "\<lbrakk> ar_now s \<le> now; plain_id u;
     introspect_client now (ar_tick s) sid u (ar_client s) = (Joined p, c) \<rbrakk> \<Longrightarrow>
     auth_step cfg s (later now (s\<lparr> ar_client := c,
       ar_waiting := ar_waiting s @ [\<lparr> wt_lookup = p, wt_asked = ar_tick s, wt_sid = sid, wt_userId = u \<rparr>] \<rparr>))"
| asked: "\<lbrakk> ar_now s \<le> now; plain_id u;
     introspect_client now (ar_tick s) sid u (ar_client s) = (Asked, c) \<rbrakk> \<Longrightarrow>
     auth_step cfg s (later now (s\<lparr> ar_client := c,
       ar_lookups := ar_lookups s @ [\<lparr> lk_id = ar_tick s, lk_sid = sid, lk_userId = u, lk_answer = None \<rparr>],
       ar_waiting := ar_waiting s @ [\<lparr> wt_lookup = ar_tick s, wt_asked = ar_tick s, wt_sid = sid, wt_userId = u \<rparr>],
       ar_started := ar_started s @ [(ar_tick s, sid, u)] \<rparr>))"
| answered: "\<lbrakk> ar_now s \<le> now; l \<in> set (ar_lookups s); lk_answer l = None; fetchFresh reply = Inr v;
     a = \<lparr> an_lookup = lk_id l, an_at = now, an_value = v \<rparr> \<rbrakk> \<Longrightarrow>
     auth_step cfg s (later now (s\<lparr> ar_client :=
         lookup_answered cfg now (lk_id l) (lk_sid l) (lk_userId l) a (ar_client s),
       ar_lookups := update_rows (\<lambda>x. lk_id x = lk_id l) (\<lambda>x. x\<lparr> lk_answer := Some a \<rparr>) (ar_lookups s) \<rparr>))"
| delivered: "\<lbrakk> ar_now s \<le> now; l \<in> set (ar_lookups s); lk_answer l = Some a \<rbrakk> \<Longrightarrow>
     auth_step cfg s (later now (s\<lparr> ar_client := lookup_over (lk_id l) (lk_sid l) (lk_userId l) (ar_client s),
       ar_lookups := filter (\<lambda>x. lk_id x \<noteq> lk_id l) (ar_lookups s),
       ar_waiting := filter (\<lambda>w. wt_lookup w \<noteq> lk_id l) (ar_waiting s),
       ar_served := ar_served s @ map (serve now a) (filter (\<lambda>w. wt_lookup w = lk_id l) (ar_waiting s)) \<rparr>))"
| failed: "\<lbrakk> ar_now s \<le> now; l \<in> set (ar_lookups s); lk_answer l = None; fetchFresh reply = Inl err \<rbrakk> \<Longrightarrow>
     auth_step cfg s (later now (s\<lparr> ar_client := lookup_over (lk_id l) (lk_sid l) (lk_userId l) (ar_client s),
       ar_lookups := filter (\<lambda>x. lk_id x \<noteq> lk_id l) (ar_lookups s),
       ar_waiting := filter (\<lambda>w. wt_lookup w \<noteq> lk_id l) (ar_waiting s) \<rparr>))"
| changed: "\<lbrakk> ar_now s \<le> now; eventType env \<in> set IDENTITY_CHANGE_EVENTS; identityChangedPayload (ev_payload env) \<rbrakk> \<Longrightarrow>
     auth_step cfg s (later now (s\<lparr> ar_client := handle_identity_event env (ar_client s),
       ar_forgotten := ar_forgotten s @ [(toLowerCase (p_userId (ev_payload env)), ar_tick s)] \<rparr>))"

section \<open>The invariant\<close>

text \<open>No change of the user's account was heard of since step \<open>n\<close>, or between it and step \<open>j\<close>.\<close>

definition unforgotten :: "(ident \<times> nat) list \<Rightarrow> ident \<Rightarrow> nat \<Rightarrow> bool" where
  "unforgotten changes u n \<longleftrightarrow> (\<forall>(v, i) \<in> set changes. v = toLowerCase u \<longrightarrow> i < n)"

definition fresh_for :: "(ident \<times> nat) list \<Rightarrow> ident \<Rightarrow> nat \<Rightarrow> nat \<Rightarrow> bool" where
  "fresh_for changes u n j \<longleftrightarrow> (\<forall>(v, i) \<in> set changes. v = toLowerCase u \<and> i < j \<longrightarrow> i < n)"

definition started_ok :: "nat \<Rightarrow> auth_lookup list \<Rightarrow> (nat \<times> ident \<times> ident) list \<Rightarrow> (ident \<times> nat) list \<Rightarrow> bool" where
  "started_ok tick lookups started changes \<longleftrightarrow>
     distinct (map lk_id lookups) \<and> (\<forall>(v, i) \<in> set changes. i < tick) \<and>
     (\<forall>l \<in> set lookups. lk_id l < tick \<and> plain_id (lk_userId l) \<and>
        (lk_id l, lk_sid l, lk_userId l) \<in> set started \<and> (\<forall>a. lk_answer l = Some a \<longrightarrow> an_lookup a = lk_id l))"

definition inflight_ok :: "auth_lookup list \<Rightarrow> (ident \<times> nat) list \<Rightarrow> (string \<times> nat) list \<Rightarrow> bool" where
  "inflight_ok lookups changes inflight \<longleftrightarrow> (\<forall>(k, n) \<in> set inflight. \<exists>l \<in> set lookups.
     lk_id l = n \<and> k = session_key (lk_sid l) (lk_userId l) \<and> unforgotten changes (lk_userId l) n)"

definition cached_ok ::
  "auth_config \<Rightarrow> (nat \<times> ident \<times> ident) list \<Rightarrow> (ident \<times> nat) list \<Rightarrow> (string \<times> lookup_answer cache_entry) list \<Rightarrow> bool" where
  "cached_ok cfg started changes cache \<longleftrightarrow> (\<forall>(k, e) \<in> set cache. \<exists>sid u. plain_id u \<and> k = session_key sid u \<and>
     en_expiresAt e = an_at (en_value e) + cf_cacheTtlMs cfg \<and> (an_lookup (en_value e), sid, u) \<in> set started \<and>
     unforgotten changes u (an_lookup (en_value e)))"

definition caller_ok ::
  "nat \<Rightarrow> (nat \<times> ident \<times> ident) list \<Rightarrow> (ident \<times> nat) list \<Rightarrow> nat \<Rightarrow> ident \<Rightarrow> ident \<Rightarrow> nat \<Rightarrow> bool" where
  "caller_ok tick started changes n sid u j \<longleftrightarrow> j < tick \<and> (n, sid, u) \<in> set started \<and> fresh_for changes u n j"

definition waiting_ok ::
  "nat \<Rightarrow> (nat \<times> ident \<times> ident) list \<Rightarrow> (ident \<times> nat) list \<Rightarrow> waiting_caller list \<Rightarrow> bool" where
  "waiting_ok tick started changes ws \<longleftrightarrow>
     (\<forall>w \<in> set ws. caller_ok tick started changes (wt_lookup w) (wt_sid w) (wt_userId w) (wt_asked w))"

definition served_ok ::
  "auth_config \<Rightarrow> nat \<Rightarrow> (nat \<times> ident \<times> ident) list \<Rightarrow> (ident \<times> nat) list \<Rightarrow> served_caller list \<Rightarrow> bool" where
  "served_ok cfg tick started changes vs \<longleftrightarrow>
     (\<forall>v \<in> set vs. caller_ok tick started changes (an_lookup (sv_answer v)) (sv_sid v) (sv_userId v) (sv_asked v) \<and>
        (sv_cached v \<longrightarrow> sv_at v < an_at (sv_answer v) + cf_cacheTtlMs cfg))"

definition auth_run_ok :: "auth_config \<Rightarrow> auth_run \<Rightarrow> bool" where
  "auth_run_ok cfg s \<longleftrightarrow> client_ok (ar_client s) \<and>
     length (ic_cache (ar_client s)) \<le> max 1 (cf_maxCacheEntries cfg) \<and>
     started_ok (ar_tick s) (ar_lookups s) (ar_started s) (ar_forgotten s) \<and>
     inflight_ok (ar_lookups s) (ar_forgotten s) (ic_inflight (ar_client s)) \<and>
     cached_ok cfg (ar_started s) (ar_forgotten s) (ic_cache (ar_client s)) \<and>
     waiting_ok (ar_tick s) (ar_started s) (ar_forgotten s) (ar_waiting s) \<and>
     served_ok cfg (ar_tick s) (ar_started s) (ar_forgotten s) (ar_served s)"

lemma later_sel [simp]:
  "ar_tick (later now s) = Suc (ar_tick s)" "ar_now (later now s) = now" "ar_client (later now s) = ar_client s"
  "ar_lookups (later now s) = ar_lookups s" "ar_waiting (later now s) = ar_waiting s"
  "ar_served (later now s) = ar_served s" "ar_forgotten (later now s) = ar_forgotten s"
  "ar_started (later now s) = ar_started s"
  by (simp_all add: later_def)

lemma fresh_from_unforgotten: "unforgotten changes u n \<Longrightarrow> fresh_for changes u n j"
  by (auto simp: unforgotten_def fresh_for_def)

lemma unforgotten_other: "unforgotten changes u n \<Longrightarrow> v \<noteq> toLowerCase u \<Longrightarrow> unforgotten (changes @ [(v, i)]) u n"
  by (auto simp: unforgotten_def)

lemma unforgotten_now: "started_ok tick lookups started changes \<Longrightarrow> unforgotten changes u tick"
  by (auto simp: started_ok_def unforgotten_def)

text \<open>A step passes; one more lookup starts; one more change is heard of.\<close>

lemma caller_ok_later:
  "caller_ok tick started changes n sid u j \<Longrightarrow> caller_ok (Suc tick) started changes n sid u j"
  "caller_ok tick started changes n sid u j \<Longrightarrow> caller_ok (Suc tick) (started @ [x]) changes n sid u j"
  "caller_ok tick started changes n sid u j \<Longrightarrow> caller_ok (Suc tick) started (changes @ [(v, tick)]) n sid u j"
  by (auto simp: caller_ok_def fresh_for_def)

lemma caller_ok_now:
  "(n, sid, u) \<in> set started \<Longrightarrow> unforgotten changes u n \<Longrightarrow> caller_ok (Suc tick) started changes n sid u tick"
  by (simp add: caller_ok_def fresh_from_unforgotten)

lemma cached_ok_more: "cached_ok cfg started changes cache \<Longrightarrow> cached_ok cfg (started @ [x]) changes cache"
  unfolding cached_ok_def by fastforce

lemma lookup_unique:
  "started_ok tick lookups started changes \<Longrightarrow> l \<in> set lookups \<Longrightarrow> x \<in> set lookups \<Longrightarrow> lk_id x = lk_id l \<Longrightarrow> x = l"
  by (auto simp: started_ok_def distinct_map dest: inj_onD)

lemma lookup_over_parts:
  "ic_cache (lookup_over n sid u c) = ic_cache c"
  "set (ic_inflight (lookup_over n sid u c)) \<subseteq> set (ic_inflight c)"
  by (auto simp: lookup_over_def Let_def AList.delete_eq)

text \<open>What is in flight is known by the lookup's session and user.\<close>

lemma inflight_lookup:
  assumes "started_ok tick lookups started changes" and "inflight_ok lookups changes inflight"
    and "l \<in> set lookups" and "(k, lk_id l) \<in> set inflight"
  shows "k = session_key (lk_sid l) (lk_userId l)" and "unforgotten changes (lk_userId l) (lk_id l)"
proof -
  from assms(2,4) obtain x where x: "x \<in> set lookups" "lk_id x = lk_id l"
    "k = session_key (lk_sid x) (lk_userId x)" "unforgotten changes (lk_userId x) (lk_id l)"
    by (fastforce simp: inflight_ok_def)
  with lookup_unique [OF assms(1,3)] have "x = l" by blast
  with x show "k = session_key (lk_sid l) (lk_userId l)" "unforgotten changes (lk_userId l) (lk_id l)" by simp_all
qed

lemma inflight_over:
  assumes "started_ok tick lookups started changes" and "inflight_ok lookups changes (ic_inflight c)"
    and "client_ok c" and "l \<in> set lookups"
  shows "inflight_ok (filter (\<lambda>x. lk_id x \<noteq> lk_id l) lookups) changes
    (ic_inflight (lookup_over (lk_id l) (lk_sid l) (lk_userId l) c))"
proof -
  have gone: "(k, lk_id l) \<notin> set (ic_inflight (lookup_over (lk_id l) (lk_sid l) (lk_userId l) c))" for k
  proof
    assume *: "(k, lk_id l) \<in> set (ic_inflight (lookup_over (lk_id l) (lk_sid l) (lk_userId l) c))"
    then have in_c: "(k, lk_id l) \<in> set (ic_inflight c)" using lookup_over_parts(2) by blast
    with assms(3) have "map_of (ic_inflight c) k = Some (lk_id l)" by (simp add: client_ok_def)
    with * inflight_lookup(1) [OF assms(1,2,4) in_c] show False by (simp add: lookup_over_def AList.delete_eq)
  qed
  show ?thesis unfolding inflight_ok_def
  proof clarify
    fix k n
    assume *: "(k, n) \<in> set (ic_inflight (lookup_over (lk_id l) (lk_sid l) (lk_userId l) c))"
    with gone have "n \<noteq> lk_id l" by blast
    moreover from * have "(k, n) \<in> set (ic_inflight c)" using lookup_over_parts(2) by blast
    ultimately show "\<exists>x \<in> set (filter (\<lambda>x. lk_id x \<noteq> lk_id l) lookups). lk_id x = n \<and>
        k = session_key (lk_sid x) (lk_userId x) \<and> unforgotten changes (lk_userId x) n"
      using assms(2) by (fastforce simp: inflight_ok_def)
  qed
qed

lemma started_over:
  "started_ok tick lookups started changes \<Longrightarrow>
   started_ok (Suc tick) (filter (\<lambda>x. lk_id x \<noteq> lk_id l) lookups) started changes"
  by (auto simp: started_ok_def distinct_map_filter)

text \<open>An answer is cached for its own lookup only, while nothing was heard of its user since.\<close>

lemma answer_cached:
  assumes "started_ok tick lookups started changes" and "inflight_ok lookups changes (ic_inflight c)"
    and "cached_ok cfg started changes (ic_cache c)" and "l \<in> set lookups"
    and "an_lookup a = lk_id l" and "an_at a = now"
  shows "cached_ok cfg started changes (ic_cache (lookup_answered cfg now (lk_id l) (lk_sid l) (lk_userId l) a c))"
  unfolding cached_ok_def
proof clarify
  fix k e
  assume "(k, e) \<in> set (ic_cache (lookup_answered cfg now (lk_id l) (lk_sid l) (lk_userId l) a c))"
  then show "\<exists>sid u. plain_id u \<and> k = session_key sid u \<and> en_expiresAt e = an_at (en_value e) + cf_cacheTtlMs cfg \<and>
      (an_lookup (en_value e), sid, u) \<in> set started \<and> unforgotten changes u (an_lookup (en_value e))"
  proof (cases rule: lookup_answered_cache)
    case 1
    with assms(3) show ?thesis by (fastforce simp: cached_ok_def)
  next
    case 2
    moreover have "plain_id (lk_userId l)" "(lk_id l, lk_sid l, lk_userId l) \<in> set started"
      using assms(1,4) by (simp_all add: started_ok_def)
    ultimately show ?thesis using inflight_lookup(2) [OF assms(1,2,4)] assms(5,6) by auto
  qed
qed

lemma answer_kept:
  assumes "started_ok tick lookups started changes" and "inflight_ok lookups changes inflight"
    and "an_lookup a = lk_id l"
  shows "started_ok (Suc tick) (update_rows (\<lambda>x. lk_id x = lk_id l) (\<lambda>x. x\<lparr> lk_answer := Some a \<rparr>) lookups) started changes"
    and "inflight_ok (update_rows (\<lambda>x. lk_id x = lk_id l) (\<lambda>x. x\<lparr> lk_answer := Some a \<rparr>) lookups) changes inflight"
proof -
  let ?f = "\<lambda>x. if lk_id x = lk_id l then x\<lparr> lk_answer := Some a \<rparr> else x"
  let ?new = "update_rows (\<lambda>x. lk_id x = lk_id l) (\<lambda>x. x\<lparr> lk_answer := Some a \<rparr>) lookups"
  have new: "?new = map ?f lookups" by (simp add: update_rows_def)
  have ids: "map lk_id ?new = map lk_id lookups" by (simp add: new comp_def)
  have "lk_id y < Suc tick \<and> plain_id (lk_userId y) \<and> (lk_id y, lk_sid y, lk_userId y) \<in> set started \<and>
      (\<forall>b. lk_answer y = Some b \<longrightarrow> an_lookup b = lk_id y)" if "y \<in> set ?new" for y
  proof -
    from that obtain x where x: "x \<in> set lookups" "y = ?f x" by (auto simp: new)
    with assms(1) have "lk_id x < tick" "plain_id (lk_userId x)" "(lk_id x, lk_sid x, lk_userId x) \<in> set started"
      "\<forall>b. lk_answer x = Some b \<longrightarrow> an_lookup b = lk_id x" by (simp_all add: started_ok_def)
    with x(2) assms(3) show ?thesis by (cases "lk_id x = lk_id l") simp_all
  qed
  moreover have "\<forall>(v, i) \<in> set changes. i < Suc tick" using assms(1) by (auto simp: started_ok_def less_Suc_eq)
  ultimately show "started_ok (Suc tick) ?new started changes"
    using assms(1) ids by (simp add: started_ok_def)
  show "inflight_ok ?new changes inflight"
    unfolding inflight_ok_def
  proof clarify
    fix k n
    assume "(k, n) \<in> set inflight"
    with assms(2) obtain x where "x \<in> set lookups" "lk_id x = n" "k = session_key (lk_sid x) (lk_userId x)"
      "unforgotten changes (lk_userId x) n" by (fastforce simp: inflight_ok_def)
    then show "\<exists>y \<in> set ?new. lk_id y = n \<and> k = session_key (lk_sid y) (lk_userId y) \<and> unforgotten changes (lk_userId y) n"
      by (intro bexI [of _ "?f x"]) (auto simp: new)
  qed
qed

text \<open>After an account change nothing of that user is cached or in flight.\<close>

lemma change_forgets:
  assumes "client_ok c" and "cached_ok cfg started changes (ic_cache c)" and "inflight_ok lookups changes (ic_inflight c)"
  shows "cached_ok cfg started (changes @ [(toLowerCase u, i)]) (ic_cache (invalidateUser u c))"
    and "inflight_ok lookups (changes @ [(toLowerCase u, i)]) (ic_inflight (invalidateUser u c))"
proof -
  show "cached_ok cfg started (changes @ [(toLowerCase u, i)]) (ic_cache (invalidateUser u c))"
    unfolding cached_ok_def
  proof clarify
    fix k e
    assume "(k, e) \<in> set (ic_cache (invalidateUser u c))"
    from invalidateUser_cache [OF assms(1) this] assms(2) show "\<exists>sid v. plain_id v \<and> k = session_key sid v \<and>
        en_expiresAt e = an_at (en_value e) + cf_cacheTtlMs cfg \<and> (an_lookup (en_value e), sid, v) \<in> set started \<and>
        unforgotten (changes @ [(toLowerCase u, i)]) v (an_lookup (en_value e))"
      by (fastforce simp: cached_ok_def intro: unforgotten_other)
  qed
  show "inflight_ok lookups (changes @ [(toLowerCase u, i)]) (ic_inflight (invalidateUser u c))"
    unfolding inflight_ok_def
  proof clarify
    fix k n
    assume kn: "(k, n) \<in> set (ic_inflight (invalidateUser u c))"
    then have "(k, n) \<in> set (ic_inflight c)" by (auto simp: invalidateUser_def Let_def)
    with assms(3) obtain l where l: "l \<in> set lookups" "lk_id l = n" "k = session_key (lk_sid l) (lk_userId l)"
      "unforgotten changes (lk_userId l) n" by (fastforce simp: inflight_ok_def)
    with invalidateUser_inflight(2) kn have "toLowerCase u \<noteq> toLowerCase (lk_userId l)" by metis
    with l show "\<exists>l\<in>set lookups. lk_id l = n \<and> k = session_key (lk_sid l) (lk_userId l) \<and>
        unforgotten (changes @ [(toLowerCase u, i)]) (lk_userId l) n"
      using unforgotten_other by blast
  qed
qed

lemma invalidateUser_length: "length (ic_cache (invalidateUser u c)) \<le> length (ic_cache c)"
  by (simp add: invalidateUser_def Let_def)

lemma hit_fresh:
  assumes "cached_ok cfg started changes cache" and "(session_key sid u, e) \<in> set cache" and "plain_id u"
  shows "en_expiresAt e = an_at (en_value e) + cf_cacheTtlMs cfg" "(an_lookup (en_value e), sid, u) \<in> set started"
    "unforgotten changes u (an_lookup (en_value e))"
  using assms by (auto simp: cached_ok_def session_key_inject)

lemma joined_fresh:
  assumes "started_ok tick lookups started changes" and "inflight_ok lookups changes inflight"
    and "(session_key sid u, p) \<in> set inflight" and "plain_id u"
  shows "(p, sid, u) \<in> set started" "unforgotten changes u p"
proof -
  from assms(2,3) obtain l where l: "l \<in> set lookups" "lk_id l = p"
    "session_key sid u = session_key (lk_sid l) (lk_userId l)" "unforgotten changes (lk_userId l) p"
    by (fastforce simp: inflight_ok_def)
  moreover have "plain_id (lk_userId l)" "(lk_id l, lk_sid l, lk_userId l) \<in> set started"
    using assms(1) l(1) by (simp_all add: started_ok_def)
  ultimately show "(p, sid, u) \<in> set started" "unforgotten changes u p"
    using assms(4) by (auto simp: session_key_inject)
qed

interpretation auth_cache: inductive_invariant auth_start "auth_step cfg" "auth_run_ok cfg"
  for cfg
proof unfold_locales
  show "auth_start s \<Longrightarrow> auth_run_ok cfg s" for s
    by (auto simp: auth_start_def auth_run_ok_def empty_client_def client_ok_def index_of_def started_ok_def
        inflight_ok_def cached_ok_def waiting_ok_def served_ok_def)
next
  fix s t
  assume "auth_run_ok cfg s" and step: "auth_step cfg s t"
  then have client: "client_ok (ar_client s)" "length (ic_cache (ar_client s)) \<le> max 1 (cf_maxCacheEntries cfg)"
    and started: "started_ok (ar_tick s) (ar_lookups s) (ar_started s) (ar_forgotten s)"
    and flight: "inflight_ok (ar_lookups s) (ar_forgotten s) (ic_inflight (ar_client s))"
    and cached: "cached_ok cfg (ar_started s) (ar_forgotten s) (ic_cache (ar_client s))"
    and callers: "waiting_ok (ar_tick s) (ar_started s) (ar_forgotten s) (ar_waiting s)"
      "served_ok cfg (ar_tick s) (ar_started s) (ar_forgotten s) (ar_served s)"
    by (simp_all add: auth_run_ok_def)
  have started_later: "started_ok (Suc (ar_tick s)) (ar_lookups s) (ar_started s) (ar_forgotten s)"
    using started by (auto simp: started_ok_def less_Suc_eq)
  from step show "auth_run_ok cfg t"
  proof cases
    case (hit now u sid a c)
    from hit(4) obtain e where e: "a = en_value e" "c = ar_client s" "(session_key sid u, e) \<in> set (ic_cache (ar_client s))"
      "now < en_expiresAt e" by (cases rule: introspect_cases) auto
    with hit_fresh [OF cached e(3) hit(3)] show ?thesis
      using client started_later flight cached callers
      by (auto simp: hit(1) auth_run_ok_def waiting_ok_def served_ok_def caller_ok_now caller_ok_later(1))
  next
    case (joined now u sid p c)
    from joined(4) have c: "c = ar_client s" "(session_key sid u, p) \<in> set (ic_inflight (ar_client s))"
      by (cases rule: introspect_cases; simp)+
    with joined_fresh [OF started flight c(2) joined(3)] show ?thesis
      using client started_later flight cached callers
      by (auto simp: joined(1) auth_run_ok_def waiting_ok_def served_ok_def caller_ok_now caller_ok_later(1))
  next
    case (asked now u sid c)
    from asked(4) have c: "c = (ar_client s)\<lparr> ic_inflight := AList.update (session_key sid u) (ar_tick s) (ic_inflight (ar_client s)) \<rparr>"
      by (cases rule: introspect_cases) simp_all
    have "inflight_ok (ar_lookups s @ [\<lparr> lk_id = ar_tick s, lk_sid = sid, lk_userId = u, lk_answer = None \<rparr>])
        (ar_forgotten s) (ic_inflight c)"
      using flight set_alist_update [of "session_key sid u" "ar_tick s" "ic_inflight (ar_client s)"] unforgotten_now [OF started]
      by (fastforce simp: c inflight_ok_def)
    moreover have "started_ok (Suc (ar_tick s)) (ar_lookups s @ [\<lparr> lk_id = ar_tick s, lk_sid = sid, lk_userId = u,
        lk_answer = None \<rparr>]) (ar_started s @ [(ar_tick s, sid, u)]) (ar_forgotten s)"
      using started asked(3) by (auto simp: started_ok_def less_Suc_eq)
    ultimately show ?thesis
      using client introspect_ok [OF client(1) asked(4)] cached callers unforgotten_now [OF started]
      by (auto simp: asked(1) c auth_run_ok_def waiting_ok_def served_ok_def caller_ok_now caller_ok_later(2) cached_ok_more)
  next
    case (answered now l reply v a)
    have l: "plain_id (lk_userId l)" using started answered(3) by (simp add: started_ok_def)
    have a: "an_lookup a = lk_id l" "an_at a = now" using answered(6) by simp_all
    show ?thesis
      using answer_kept [OF started flight a(1)] answer_cached [OF started flight cached answered(3) a]
        lookup_answered_ok [OF client(1) l] lookup_answered_length [OF client(2)] callers
      by (auto simp: answered(1) auth_run_ok_def waiting_ok_def served_ok_def caller_ok_later(1))
  next
    case (delivered now l a)
    have "an_lookup a = lk_id l" using started delivered(3,4) by (auto simp: started_ok_def)
    then show ?thesis
      using client lookup_over_ok [OF client(1)] inflight_over [OF started flight client(1) delivered(3)]
        started_over [OF started, of l] cached callers
      by (auto simp: delivered(1) auth_run_ok_def waiting_ok_def served_ok_def caller_ok_later(1) lookup_over_parts(1) serve_def)
  next
    case (failed now l reply err)
    show ?thesis
      using client lookup_over_ok [OF client(1)] inflight_over [OF started flight client(1) failed(3)]
        started_over [OF started, of l] cached callers
      by (auto simp: failed(1) auth_run_ok_def waiting_ok_def served_ok_def caller_ok_later(1) lookup_over_parts(1))
  next
    case (changed now env)
    have "started_ok (Suc (ar_tick s)) (ar_lookups s) (ar_started s)
        (ar_forgotten s @ [(toLowerCase (p_userId (ev_payload env)), ar_tick s)])"
      using started by (auto simp: started_ok_def less_Suc_eq)
    then show ?thesis
      using change_forgets [OF client(1) cached flight] invalidateUser_ok [OF client(1)] client(2)
        invalidateUser_length [of "p_userId (ev_payload env)" "ar_client s"] callers
      by (auto simp: changed(1) auth_run_ok_def handle_identity_event_def waiting_ok_def served_ok_def caller_ok_later(3))
  qed
qed

section \<open>A run\<close>

text \<open>A student is looked up, found again, suspended, and looked up afresh.\<close>

definition demo_auth_config :: auth_config where
  "demo_auth_config = \<lparr> cf_cacheTtlMs = DEFAULT_CACHE_TTL_MS, cf_maxCacheEntries = 2 \<rparr>"

definition demo_body :: "string \<Rightarrow> introspect_body" where
  "demo_body status = \<lparr> ib_active = Some True, ib_userId = Some ''u1'', ib_displayName = Some ''Alice'',
     ib_status = Some status, ib_roles = Some [Some ''STUDENT'', None] \<rparr>"

definition demo_answer :: "nat \<Rightarrow> int \<Rightarrow> string \<Rightarrow> lookup_answer" where
  "demo_answer n t status = \<lparr> an_lookup = n, an_at = t, an_value = Live ''u1'' status [STUDENT] ''Alice'' \<rparr>"

definition ask_demo :: "int \<Rightarrow> auth_run \<Rightarrow> auth_run" where
  "ask_demo now s = later now (s\<lparr>
     ar_client := snd (introspect_client now (ar_tick s) ''s1'' ''u1'' (ar_client s)),
     ar_lookups := ar_lookups s @ [\<lparr> lk_id = ar_tick s, lk_sid = ''s1'', lk_userId = ''u1'', lk_answer = None \<rparr>],
     ar_waiting := ar_waiting s @ [\<lparr> wt_lookup = ar_tick s, wt_asked = ar_tick s, wt_sid = ''s1'', wt_userId = ''u1'' \<rparr>],
     ar_started := ar_started s @ [(ar_tick s, ''s1'', ''u1'')] \<rparr>)"

definition answer_demo :: "int \<Rightarrow> string \<Rightarrow> nat \<Rightarrow> auth_run \<Rightarrow> auth_run" where
  "answer_demo now status n s = later now (s\<lparr>
     ar_client := lookup_answered demo_auth_config now n ''s1'' ''u1'' (demo_answer n now status) (ar_client s),
     ar_lookups := update_rows (\<lambda>x. lk_id x = n) (\<lambda>x. x\<lparr> lk_answer := Some (demo_answer n now status) \<rparr>) (ar_lookups s) \<rparr>)"

definition deliver_demo :: "int \<Rightarrow> lookup_answer \<Rightarrow> auth_run \<Rightarrow> auth_run" where
  "deliver_demo now a s = later now (s\<lparr> ar_client := lookup_over (an_lookup a) ''s1'' ''u1'' (ar_client s),
     ar_lookups := filter (\<lambda>x. lk_id x \<noteq> an_lookup a) (ar_lookups s),
     ar_waiting := filter (\<lambda>w. wt_lookup w \<noteq> an_lookup a) (ar_waiting s),
     ar_served := ar_served s @ map (serve now a) (filter (\<lambda>w. wt_lookup w = an_lookup a) (ar_waiting s)) \<rparr>)"

definition hit_demo :: "int \<Rightarrow> lookup_answer \<Rightarrow> auth_run \<Rightarrow> auth_run" where
  "hit_demo now a s = later now (s\<lparr>
     ar_client := snd (introspect_client now (ar_tick s) ''s1'' ''u1'' (ar_client s)),
     ar_served := ar_served s @ [\<lparr> sv_asked = ar_tick s, sv_sid = ''s1'', sv_userId = ''u1'', sv_answer = a,
                                   sv_at = now, sv_cached = True \<rparr>] \<rparr>)"

definition suspended_envelope :: envelope where
  "suspended_envelope = demo_envelope\<lparr> eventType := USER_SUSPENDED,
     ev_payload := UserStatusChangedPayload ''U1'' User_SUSPENDED None 30 \<rparr>"

definition change_demo :: "int \<Rightarrow> auth_run \<Rightarrow> auth_run" where
  "change_demo now s = later now (s\<lparr> ar_client := handle_identity_event suspended_envelope (ar_client s),
     ar_forgotten := ar_forgotten s @ [(toLowerCase ''U1'', ar_tick s)] \<rparr>)"

definition ar0 :: auth_run where
  "ar0 = \<lparr> ar_tick = 0, ar_now = 0, ar_client = empty_client, ar_lookups = [], ar_waiting = [], ar_served = [],
     ar_forgotten = [], ar_started = [] \<rparr>"

definition "ar3 = deliver_demo 10 (demo_answer 0 10 ''ACTIVE'') (answer_demo 10 ''ACTIVE'' 0 (ask_demo 0 ar0))"
definition "ar5 = change_demo 30 (hit_demo 20 (demo_answer 0 10 ''ACTIVE'') ar3)"
definition "ar8 = deliver_demo 50 (demo_answer 5 50 ''SUSPENDED'') (answer_demo 50 ''SUSPENDED'' 5 (ask_demo 40 ar5))"

lemma demo_introspects: "fetchFresh (Some (Some (demo_body status))) = Inr (Live ''u1'' status [STUDENT] ''Alice'')"
  by (simp add: fetchFresh_def parse_introspection_def demo_body_def List.map_filter_def)

lemma ask_demo_step:
  "ar_now s \<le> now \<Longrightarrow> fst (introspect_client now (ar_tick s) ''s1'' ''u1'' (ar_client s)) = Asked \<Longrightarrow>
   auth_step demo_auth_config s (ask_demo now s)"
  unfolding ask_demo_def by (rule auth_step.asked) (auto simp: plain_id_def prod_eq_iff)

lemma hit_demo_step:
  "ar_now s \<le> now \<Longrightarrow> fst (introspect_client now (ar_tick s) ''s1'' ''u1'' (ar_client s)) = Cached a \<Longrightarrow>
   auth_step demo_auth_config s (hit_demo now a s)"
  unfolding hit_demo_def by (rule auth_step.hit) (auto simp: plain_id_def prod_eq_iff)

lemma answer_demo_step:
  assumes "ar_now s \<le> now" and "\<lparr> lk_id = n, lk_sid = ''s1'', lk_userId = ''u1'', lk_answer = None \<rparr> \<in> set (ar_lookups s)"
  shows "auth_step demo_auth_config s (answer_demo now status n s)"
  using auth_step.answered [OF assms(1,2) _ demo_introspects refl, of demo_auth_config status]
  by (simp add: answer_demo_def demo_answer_def)

lemma deliver_demo_step:
  assumes "ar_now s \<le> now"
    and "\<lparr> lk_id = an_lookup a, lk_sid = ''s1'', lk_userId = ''u1'', lk_answer = Some a \<rparr> \<in> set (ar_lookups s)"
  shows "auth_step demo_auth_config s (deliver_demo now a s)"
  using auth_step.delivered [OF assms, of a demo_auth_config] by (simp add: deliver_demo_def)

lemma change_demo_step: "ar_now s \<le> now \<Longrightarrow> auth_step demo_auth_config s (change_demo now s)"
  using auth_step.changed [of s now suspended_envelope demo_auth_config]
  by (simp add: change_demo_def suspended_envelope_def IDENTITY_CHANGE_EVENTS_def identityChangedPayload_def min1_def)

lemma demo_run_values:
  "ar_now ar3 = 10" "ar_now ar5 = 30" "ar_tick ar3 = 3" "ar_tick ar5 = 5" "ar_lookups ar3 = []" "ar_lookups ar5 = []"
  "fst (introspect_client 0 0 ''s1'' ''u1'' (empty_client :: lookup_answer identity_client)) = Asked"
  "fst (introspect_client 20 3 ''s1'' ''u1'' (ar_client ar3)) = Cached (demo_answer 0 10 ''ACTIVE'')"
  "fst (introspect_client 40 5 ''s1'' ''u1'' (ar_client ar5)) = Asked"
  by code_simp+

lemma demo_auth_reachable: "reachable auth_start (auth_step demo_auth_config) ar8"
proof -
  have "reachable auth_start (auth_step demo_auth_config) ar0"
    by (rule reachable_init) (simp add: auth_start_def ar0_def)
  then have "reachable auth_start (auth_step demo_auth_config) (ask_demo 0 ar0)"
    by (rule reachable_step) (rule ask_demo_step, simp_all add: ar0_def demo_run_values)
  then have "reachable auth_start (auth_step demo_auth_config) (answer_demo 10 ''ACTIVE'' 0 (ask_demo 0 ar0))"
    by (rule reachable_step) (rule answer_demo_step, simp_all add: ar0_def ask_demo_def)
  then have "reachable auth_start (auth_step demo_auth_config) ar3"
    unfolding ar3_def by (rule reachable_step)
      (rule deliver_demo_step, simp_all add: ar0_def ask_demo_def answer_demo_def demo_answer_def update_rows_def)
  then have "reachable auth_start (auth_step demo_auth_config) (hit_demo 20 (demo_answer 0 10 ''ACTIVE'') ar3)"
    by (rule reachable_step) (rule hit_demo_step, simp_all add: demo_run_values)
  then have "reachable auth_start (auth_step demo_auth_config) ar5"
    unfolding ar5_def by (rule reachable_step) (rule change_demo_step, simp add: hit_demo_def)
  then have "reachable auth_start (auth_step demo_auth_config) (ask_demo 40 ar5)"
    by (rule reachable_step) (rule ask_demo_step, simp_all add: demo_run_values)
  then have "reachable auth_start (auth_step demo_auth_config) (answer_demo 50 ''SUSPENDED'' 5 (ask_demo 40 ar5))"
    by (rule reachable_step) (rule answer_demo_step, simp_all add: ask_demo_def demo_run_values)
  then show ?thesis
    unfolding ar8_def by (rule reachable_step)
      (rule deliver_demo_step, simp_all add: ask_demo_def answer_demo_def demo_answer_def update_rows_def demo_run_values)
qed

lemma demo_served:
  "map (\<lambda>v. (sv_asked v, an_lookup (sv_answer v), sv_cached v)) (ar_served ar8) = [(0, 0, False), (3, 0, True), (5, 5, False)]"
  "ar_forgotten ar8 = [(''u1'', 4)]" "map fst (ic_cache (ar_client ar8)) = [''s1:u1'']"
  by code_simp+

section \<open>What the cache guarantees\<close>

text \<open>
  C26. A caller is judged by a fresh answer. Every answer a service acts on is the User Service's
  own, to a lookup of that very session and user; taken from the cache it is younger than the cache
  window; and it comes from a lookup begun after every change of the account that was heard of
  before the caller asked, however lookups, answers and events interleave.
\<close>

theorem answers_are_fresh:
  assumes "reachable auth_start (auth_step cfg) s" and "v \<in> set (ar_served s)"
  shows "(an_lookup (sv_answer v), sv_sid v, sv_userId v) \<in> set (ar_started s) \<and>
    (sv_cached v \<longrightarrow> sv_at v - an_at (sv_answer v) < cf_cacheTtlMs cfg) \<and>
    (\<forall>(u, i) \<in> set (ar_forgotten s). u = toLowerCase (sv_userId v) \<and> i < sv_asked v \<longrightarrow> i < an_lookup (sv_answer v))"
  using auth_cache.holds [OF assms(1)] assms(2)
  by (auto simp: auth_run_ok_def served_ok_def caller_ok_def fresh_for_def)

theorem answers_are_fresh_witness:
  "\<exists>v \<in> set (ar_served ar8). sv_asked v = 5 \<and> (''u1'', 4) \<in> set (ar_forgotten ar8) \<and>
     sv_userId v = ''u1'' \<and> 4 < an_lookup (sv_answer v)"
proof -
  have "ar_served ar8 ! 2 \<in> set (ar_served ar8)" "sv_asked (ar_served ar8 ! 2) = 5"
    "sv_userId (ar_served ar8 ! 2) = ''u1''" "toLowerCase ''u1'' = ''u1''" by code_simp+
  with answers_are_fresh [OF demo_auth_reachable this(1)] demo_served(2) show ?thesis by fastforce
qed

text \<open>
  The cache keeps within its bound and its index by user is exact: every key is cached once, a
  user's entry in the index is the set of exactly the cached keys of that user and is never empty,
  so forgetting a user forgets all of it, and no more entries are kept than configured.
\<close>

theorem cache_is_bounded_and_indexed:
  assumes "reachable auth_start (auth_step cfg) s"
  shows "distinct (map fst (ic_cache (ar_client s))) \<and>
    length (ic_cache (ar_client s)) \<le> max 1 (cf_maxCacheEntries cfg) \<and>
    ic_keysByUser (ar_client s) i \<noteq> Some {} \<and>
    (k \<in> (case ic_keysByUser (ar_client s) i of Some ks \<Rightarrow> ks | None \<Rightarrow> {}) \<longleftrightarrow>
     (\<exists>e. (k, e) \<in> set (ic_cache (ar_client s)) \<and> en_userId e = i))"
  using auth_cache.holds [OF assms] client_ok_index [of "ar_client s"] by (simp add: auth_run_ok_def client_ok_def)

theorem cache_is_bounded_and_indexed_witness:
  "distinct (map fst (ic_cache (ar_client ar8))) \<and> length (ic_cache (ar_client ar8)) \<le> 2 \<and>
   ic_keysByUser (ar_client ar8) ''u1'' \<noteq> Some {}"
  using cache_is_bounded_and_indexed [OF demo_auth_reachable, of "''u1''" "''s1:u1''"]
  by (simp add: demo_auth_config_def)

end
