(* ===== verification/Identity.thy ===== *)
theory Identity
  imports User_Properties Auth_Client
begin

text \<open>
  The two ends of a service's authentication together: the User Service's introspection
  (user-service/src/users/users.service.ts, \<open>introspect\<close>) as the answer to the shared
  authenticator (auth-client/src/authenticator.ts).
\<close>

fun status_name :: "account_status \<Rightarrow> string" where
  "status_name PENDING_ACTIVATION = ''PENDING_ACTIVATION''"
| "status_name ACTIVE = ''ACTIVE''"
| "status_name SUSPENDED = ''SUSPENDED''"

fun role_name :: "user_role \<Rightarrow> string" where
  "role_name STUDENT = ''STUDENT''"
| "role_name ADMIN = ''ADMIN''"

text \<open>The JSON body of the answer.\<close>

definition introspection_body :: "time \<Rightarrow> user_db \<Rightarrow> user_db \<Rightarrow> ident \<Rightarrow> ident \<Rightarrow> introspect_body" where
  "introspection_body now db db' sessionId userId =
     (case introspect now db db' sessionId userId of
        None \<Rightarrow> \<lparr> ib_active = Some False, ib_userId = None, ib_displayName = None, ib_status = None, ib_roles = None \<rparr>
      | Some row \<Rightarrow> \<lparr> ib_active = Some True, ib_userId = Some userId, ib_displayName = Some (id_displayName row),
           ib_status = Some (status_name (id_status row)), ib_roles = Some (map (Some \<circ> role_name) (id_roles row)) \<rparr>)"

text \<open>
  What a service's lookup gives when the User Service answers it: it looks for the session at
  \<open>now\<close> in \<open>db\<close>, and for the identity in \<open>db'\<close>.
\<close>

definition introspected :: "time \<Rightarrow> user_db \<Rightarrow> user_db \<Rightarrow> ident \<Rightarrow> ident \<Rightarrow> service_error + introspection" where
  "introspected now db db' sessionId userId = fetchFresh (Some (Some (introspection_body now db db' sessionId userId)))"

lemma known_role_name [simp]: "known_role (Some (role_name r)) = Some r"
  by (cases r) simp_all

lemma map_filter_known [simp]: "List.map_filter known_role (map (Some \<circ> role_name) rs) = rs"
  by (induction rs) (simp_all add: List.map_filter_def del: known_role.simps)

lemma status_name_eq [simp]:
  "status_name s = ''ACTIVE'' \<longleftrightarrow> s = ACTIVE" "status_name s = ''SUSPENDED'' \<longleftrightarrow> s = SUSPENDED"
  by (cases s; simp)+

lemma introspected_values:
  "introspected now db db' sid u =
     (case introspect now db db' sid u of
        None \<Rightarrow> Inr Not_live
      | Some row \<Rightarrow> Inr (Live u (status_name (id_status row)) (id_roles row) (id_displayName row)))"
  by (simp add: introspected_def introspection_body_def fetchFresh_def parse_introspection_def split: option.splits)

lemma introspect_Some:
  assumes "reachable user_start (user_step e) db" and "(user_step e)\<^sup>*\<^sup>* db db'" and "introspect now db db' sid u = Some row"
  obtains x y s where "user_of db (toLowerCase u) = Some x" and "us_status x = ACTIVE"
    and "user_of db' (toLowerCase u) = Some y" and "us_status y = id_status row" and "us_status y \<noteq> PENDING_ACTIVATION"
    and "id_roles row = rolesOf db' (toLowerCase u)"
    and "session_of db (toLowerCase sid) = Some s" and "rs_userId s = toLowerCase u" and "rs_revokedAt s = None"
    and "now < rs_expiresAt s"
proof -
  let ?u = "toLowerCase u"
  from assms(3) obtain st where live: "liveness now db (toLowerCase sid) ?u = Some (True, st)"
    and row: "findIdentity db' ?u = Some row"
    by (auto simp: introspect_def split: option.splits if_splits)
  from live_session_active [OF assms(1) live] obtain x s where x: "user_of db ?u = Some x" "us_status x = ACTIVE"
    and s: "session_of db (toLowerCase sid) = Some s" "rs_userId s = ?u" "rs_revokedAt s = None" "now < rs_expiresAt s"
    by blast
  from row obtain y where y: "user_of db' ?u = Some y" "us_status y = id_status row" "id_roles row = rolesOf db' ?u"
    by (auto simp: findIdentity_def)
  have "activated_account ?u (accounts db)" using user_of_Some [OF x(1)] x(2) by (auto simp: activated_account_def)
  from stays_along [OF _ assms(2,1), of "activated_account ?u", OF _ this]
  have "activated_account ?u (accounts db')" and "reachable user_start (user_step e) db'"
    by (auto intro: activated_stays)
  then have "us_status y \<noteq> PENDING_ACTIVATION"
    using user_of_Some [OF y(1)] same_user [OF reachable_parts(1), of e db' y] by (auto simp: activated_account_def)
  with x s y show thesis by (intro that) auto
qed

lemma caller_of_Inr:
  "caller_of sid who = Inr caller \<longleftrightarrow> (\<exists>u roles name. who = Live u ''ACTIVE'' roles name \<and> caller =
     \<lparr> vc_userId = u, vc_sessionId = sid, vc_displayName = name, vc_roles = roles,
     vc_status = ''ACTIVE'', vc_isAdmin = (ADMIN \<in> set roles) \<rparr>)"
  by (cases who) (auto simp: caller_of_def)

lemma authenticate_Inr:
  assumes "authenticate decodable jwt asked header = Inr caller"
  obtains sub sid u roles name where "asked sid sub = Inr (Live u ''ACTIVE'' roles name)" "vc_userId caller = u"
    "vc_sessionId caller = sid" "vc_roles caller = roles" "vc_isAdmin caller = (ADMIN \<in> set roles)"
  using assms by (auto simp: authenticate_def bindE_eq_Inr caller_of_Inr)

text \<open>A refusal for the account's status is what the identity says.\<close>

lemma refused_for_status:
  assumes "authenticate decodable jwt (introspected now db db') header = Inl err"
    and "err = authFailure ACCOUNT_SUSPENDED \<or> err = authFailure ACCOUNT_NOT_ACTIVATED"
  shows "\<exists>sid sub row. introspect now db db' sid sub = Some row \<and>
    (err = authFailure ACCOUNT_SUSPENDED \<longrightarrow> id_status row = SUSPENDED) \<and>
    (err = authFailure ACCOUNT_NOT_ACTIVATED \<longrightarrow> id_status row = PENDING_ACTIVATION)"
proof -
  from assms obtain sid sub row where row: "introspect now db db' sid sub = Some row"
    and err: "caller_of sid (Live sub (status_name (id_status row)) (id_roles row) (id_displayName row)) = Inl err"
    by (auto simp: authenticate_def bindE_eq_Inl introspected_values caller_of_def bearerToken_def verify_def Let_def
        elim!: classify.elims split: option.splits if_splits)
  have "(err = authFailure ACCOUNT_SUSPENDED \<longrightarrow> id_status row = SUSPENDED) \<and>
      (err = authFailure ACCOUNT_NOT_ACTIVATED \<longrightarrow> id_status row = PENDING_ACTIVATION)"
    using err by (cases "id_status row") (auto simp: caller_of_def)
  with row show ?thesis by blast
qed

text \<open>
  C27. Who gets in. A service asks the User Service, which reads the session in a reachable state and
  the identity in that state or a later one. Whoever is let in has an account that is active in the
  later state and a session that, in the earlier one, was that account's and neither revoked nor
  over, and has administrator rights exactly when the account holds the role in the later state.
  Nobody is refused as not activated; and who is refused as suspended had an active account when
  the session was read and a suspended one when the identity was, so with nothing between the reads
  nobody is: a suspension ends the account's sessions.
\<close>

theorem callers_have_live_sessions:
  assumes "reachable user_start (user_step e) db" and "(user_step e)\<^sup>*\<^sup>* db db'"
  shows "case authenticate decodable jwt (introspected now db db') header of
      Inr caller \<Rightarrow> \<exists>x s. user_of db' (toLowerCase (vc_userId caller)) = Some x \<and> us_status x = ACTIVE \<and>
        session_of db (toLowerCase (vc_sessionId caller)) = Some s \<and> rs_userId s = us_id x \<and>
        rs_revokedAt s = None \<and> now < rs_expiresAt s \<and> (vc_isAdmin caller = (ADMIN \<in> set (rolesOf db' (us_id x))))
    | Inl err \<Rightarrow> err \<noteq> authFailure ACCOUNT_NOT_ACTIVATED \<and>
        (err = authFailure ACCOUNT_SUSPENDED \<longrightarrow>
           (\<exists>i x y. user_of db i = Some x \<and> us_status x = ACTIVE \<and> user_of db' i = Some y \<and> us_status y = SUSPENDED))"
proof (cases "authenticate decodable jwt (introspected now db db') header")
  case (Inr caller)
  then show ?thesis
  proof (cases rule: authenticate_Inr)
    case (1 sub sid u roles name)
    then obtain row where row: "introspect now db db' sid sub = Some row" "sub = u" "id_roles row = roles" "id_status row = ACTIVE"
      by (auto simp: introspected_values split: option.splits)
    from assms row(1) show ?thesis
    proof (cases rule: introspect_Some)
      case (1 x y s)
      with row Inr \<open>vc_userId caller = u\<close> \<open>vc_sessionId caller = sid\<close> \<open>vc_isAdmin caller = (ADMIN \<in> set roles)\<close>
        user_of_Some [of db' "toLowerCase u" y] show ?thesis by auto
    qed
  qed
next
  case (Inl err)
  show ?thesis
  proof (cases "\<exists>sid sub row. introspect now db db' sid sub = Some row \<and>
      (err = authFailure ACCOUNT_SUSPENDED \<longrightarrow> id_status row = SUSPENDED) \<and>
      (err = authFailure ACCOUNT_NOT_ACTIVATED \<longrightarrow> id_status row = PENDING_ACTIVATION)")
    case True
    then obtain sid sub row where row: "introspect now db db' sid sub = Some row"
      "err = authFailure ACCOUNT_SUSPENDED \<longrightarrow> id_status row = SUSPENDED"
      "err = authFailure ACCOUNT_NOT_ACTIVATED \<longrightarrow> id_status row = PENDING_ACTIVATION" by blast
    from assms row(1) show ?thesis
    proof (cases rule: introspect_Some)
      case (1 x y s)
      with row(2,3) Inl show ?thesis by auto
    qed
  next
    case False
    then have "err \<noteq> authFailure ACCOUNT_SUSPENDED \<and> err \<noteq> authFailure ACCOUNT_NOT_ACTIVATED"
      using refused_for_status [OF Inl] by auto
    with Inl show ?thesis by simp
  qed
qed

definition demo_caller :: verified_caller where
  "demo_caller = \<lparr> vc_userId = ''s'', vc_sessionId = ''v'', vc_displayName = ''S'', vc_roles = [STUDENT],
     vc_status = ''ACTIVE'', vc_isAdmin = False \<rparr>"

theorem callers_have_live_sessions_witness:
  "authenticate (\<lambda>_. True) (\<lambda>_. Jwt_payload (Some ''s'') (Some ''v'')) (introspected 61 us6 us6) (Some ''Bearer h.p.s'') =
     Inr demo_caller \<and>
   (\<exists>x s. user_of us6 ''s'' = Some x \<and> us_status x = ACTIVE \<and> session_of us6 ''v'' = Some s \<and> 61 < rs_expiresAt s)"
proof -
  let ?r = "authenticate (\<lambda>_. True) (\<lambda>_. Jwt_payload (Some ''s'') (Some ''v'')) (introspected 61 us6 us6) (Some ''Bearer h.p.s'')"
  have r: "?r = Inr demo_caller" by code_simp
  have "toLowerCase (vc_userId demo_caller) = ''s''" "toLowerCase (vc_sessionId demo_caller) = ''v''" by code_simp+
  with callers_have_live_sessions [OF us_run_reachable(5) rtranclp.rtrancl_refl, where decodable = "\<lambda>_. True" and now = 61
      and jwt = "\<lambda>_. Jwt_payload (Some ''s'') (Some ''v'')" and header = "Some ''Bearer h.p.s''"] r
  show ?thesis by auto
qed

end
