(* ===== verification/Chat_Repository.thy ===== *)
theory Chat_Repository
  imports Event_Tables "HOL-Library.List_Lexorder" "HOL-Library.Char_ord" "HOL-Library.Product_Lexorder"
begin

text \<open>
  The Chat Service's tables (chat-service/src/db/schema.ts) and the statements on them
  (chat-service/src/chat/chat.repository.ts): one channel per errand, its messages numbered without
  gaps, how far each participant has read, and what administrators have read.

  Times are microseconds. A statement's clock is an argument; where one transaction reads the clock
  twice it takes both readings. The locks of a send are in the order of its steps; running out of a
  lock is the argument \<open>waited\<close>.
\<close>

section \<open>Tables\<close>

record channel =
  ch_orderId :: ident
  ch_latestSeq :: int
  ch_createdAt :: time

record chat_message =
  ms_orderId :: ident
  ms_seq :: int
  ms_senderId :: ident
  ms_clientId :: ident
  ms_body :: string
  ms_sentAt :: time

record read_position =
  rp_orderId :: ident
  rp_userId :: ident
  rp_lastReadSeq :: int

datatype chat_resource = CHANNEL | MESSAGES

record admin_channel_read =
  cr_id :: ident
  cr_adminUserId :: ident
  cr_orderId :: ident
  cr_resource :: chat_resource
  cr_correlationId :: ident
  cr_readAt :: time
  cr_readHour :: time
  cr_readCount :: int
  cr_lastReadAt :: time

record chat_db =
  channels :: "channel list"
  chat_messages :: "chat_message list"
  read_positions :: "read_position list"
  admin_channel_reads :: "admin_channel_read list"

section \<open>Limits\<close>

definition second :: time where
  "second = 1000000"

definition SEND_LIMIT_MESSAGES :: nat where
  "SEND_LIMIT_MESSAGES = 20"

definition SEND_WINDOW :: time where
  "SEND_WINDOW = 60 * second"

definition MAX_SEQ :: int where
  "MAX_SEQ = 2147483647"

section \<open>Channels\<close>

definition latestSeq :: "chat_db \<Rightarrow> ident \<Rightarrow> int option" where
  "latestSeq db orderId = map_option ch_latestSeq (row_of ch_orderId orderId (channels db))"

text \<open>\<open>open\<close>: the insert does nothing to a channel that is there.\<close>

definition open_channel :: "time \<Rightarrow> ident \<Rightarrow> chat_db \<Rightarrow> int option \<times> chat_db" where
  "open_channel now orderId db =
     (let db' = (if orderId \<in> ch_orderId ` set (channels db) then db
                 else db\<lparr> channels := channels db @ [\<lparr> ch_orderId = orderId, ch_latestSeq = 0, ch_createdAt = now \<rparr>] \<rparr>)
      in (latestSeq db' orderId, db'))"

definition lastRead :: "chat_db \<Rightarrow> ident \<Rightarrow> ident \<Rightarrow> int" where
  "lastRead db orderId userId =
     (case find (\<lambda>r. rp_orderId r = orderId \<and> rp_userId r = userId) (read_positions db) of
        None \<Rightarrow> 0 | Some r \<Rightarrow> rp_lastReadSeq r)"

section \<open>Messages\<close>

record page_query =
  pg_after :: "int option"
  pg_before :: "int option"
  pg_limit :: nat

record 'm page_result =
  pg_items :: "'m list"
  pg_hasMore :: bool

definition or_default :: "'a \<Rightarrow> 'a option \<Rightarrow> 'a" where
  "or_default d v = (case v of Some x \<Rightarrow> x | None \<Rightarrow> d)"

definition page :: "chat_db \<Rightarrow> ident \<Rightarrow> page_query \<Rightarrow> chat_message page_result" where
  "page db orderId q =
     (let newer = (pg_after q \<noteq> None);
          within = filter (\<lambda>m. ms_orderId m = orderId \<and> or_default 0 (pg_after q) < ms_seq m \<and>
                               ms_seq m < or_default MAX_SEQ (pg_before q)) (chat_messages db);
          ascending = sort_key ms_seq within;
          rows = take (pg_limit q + 1) (if newer then ascending else rev ascending);
          items = take (pg_limit q) rows
      in \<lparr> pg_items = (if newer then items else rev items), pg_hasMore = pg_limit q < length rows \<rparr>)"

definition findSent :: "chat_db \<Rightarrow> ident \<Rightarrow> ident \<Rightarrow> ident \<Rightarrow> chat_message option" where
  "findSent db orderId senderId clientId =
     find (\<lambda>m. ms_orderId m = orderId \<and> ms_senderId m = senderId \<and> ms_clientId m = clientId) (chat_messages db)"

text \<open>
  \<open>retryAfter\<close>: what the sender sent in the window, and the whole seconds, at least one, until the
  oldest of it leaves.
\<close>

definition in_window :: "time \<Rightarrow> ident \<Rightarrow> chat_db \<Rightarrow> time list" where
  "in_window now senderId db =
     map ms_sentAt (filter (\<lambda>m. ms_senderId m = senderId \<and> now - SEND_WINDOW < ms_sentAt m) (chat_messages db))"

definition ceil_div :: "int \<Rightarrow> int \<Rightarrow> int" where
  "ceil_div a b = - ((- a) div b)"

definition retryAfter :: "time \<Rightarrow> ident \<Rightarrow> chat_db \<Rightarrow> int option" where
  "retryAfter now senderId db =
     (let sent = in_window now senderId db
      in if SEND_LIMIT_MESSAGES \<le> length sent
         then Some (max 1 (ceil_div (fold min (tl sent) (hd sent) + SEND_WINDOW - now) second))
         else None)"

definition insertMessage :: "chat_message \<Rightarrow> chat_db \<Rightarrow> service_error + chat_db" where
  "insertMessage m db =
     bindE (constraints
       [(''integer out of range'', int4 (ms_seq m)),
        (''messages_order_id_fkey'', ms_orderId m \<in> ch_orderId ` set (channels db)),
        (''messages_pkey'', (ms_orderId m, ms_seq m) \<notin> (\<lambda>x. (ms_orderId x, ms_seq x)) ` set (chat_messages db)),
        (''messages_sender_client_key'', (ms_orderId m, ms_senderId m, ms_clientId m) \<notin>
           (\<lambda>x. (ms_orderId x, ms_senderId x, ms_clientId x)) ` set (chat_messages db))])
       (\<lambda>_. Inr (db\<lparr> chat_messages := chat_messages db @ [m] \<rparr>))"

section \<open>Sending\<close>

datatype send_attempt =
    Stored chat_message bool
  | Over_limit int
  | Closed
  | Busy

text \<open>\<open>now\<close> is when the window is counted, \<open>stamp\<close> when the message is written.\<close>

definition sendUnderLocks ::
  "time \<Rightarrow> time \<Rightarrow> ident \<Rightarrow> ident \<Rightarrow> ident \<Rightarrow> string \<Rightarrow> chat_db \<Rightarrow> service_error + (send_attempt \<times> chat_db)" where
  "sendUnderLocks now stamp orderId senderId clientId body tx =
     (case row_of ch_orderId orderId (channels tx) of
        None \<Rightarrow> Inr (Closed, tx)
      | Some ch \<Rightarrow>
          (case findSent tx orderId senderId clientId of
             Some stored \<Rightarrow> Inr (Stored stored False, tx)
           | None \<Rightarrow>
               (case retryAfter now senderId tx of
                  Some s \<Rightarrow> Inr (Over_limit s, tx)
                | None \<Rightarrow>
                    let seq = ch_latestSeq ch + 1;
                        m = \<lparr> ms_orderId = orderId, ms_seq = seq, ms_senderId = senderId, ms_clientId = clientId,
                              ms_body = body, ms_sentAt = stamp \<rparr>
                    in bindE (insertMessage m tx) (\<lambda>tx1.
                         Inr (Stored m True, tx1\<lparr> channels :=
                           update_rows (\<lambda>c. ch_orderId c = orderId) (\<lambda>c. c\<lparr> ch_latestSeq := seq \<rparr>) (channels tx1) \<rparr>)))))"

definition send ::
  "bool \<Rightarrow> time \<Rightarrow> time \<Rightarrow> ident \<Rightarrow> ident \<Rightarrow> ident \<Rightarrow> string \<Rightarrow> chat_db \<Rightarrow> (service_error + send_attempt) \<times> chat_db" where
  "send waited now stamp orderId senderId clientId body db =
     (if waited then (Inr Busy, db)
      else transaction (sendUnderLocks now stamp orderId senderId clientId body) db)"

section \<open>Reading\<close>

definition markRead :: "ident \<Rightarrow> ident \<Rightarrow> int \<Rightarrow> chat_db \<Rightarrow> service_error + (int \<times> chat_db)" where
  "markRead orderId userId seq db =
     (case find (\<lambda>r. rp_orderId r = orderId \<and> rp_userId r = userId) (read_positions db) of
        Some r \<Rightarrow>
          Inr (max (rp_lastReadSeq r) seq, db\<lparr> read_positions :=
            update_rows (\<lambda>x. rp_orderId x = orderId \<and> rp_userId x = userId)
              (\<lambda>x. x\<lparr> rp_lastReadSeq := max (rp_lastReadSeq x) seq \<rparr>) (read_positions db) \<rparr>)
      | None \<Rightarrow>
          bindE (constraints [(''read_positions_order_id_fkey'', orderId \<in> ch_orderId ` set (channels db))]) (\<lambda>_.
            Inr (seq, db\<lparr> read_positions := read_positions db @
              [\<lparr> rp_orderId = orderId, rp_userId = userId, rp_lastReadSeq = seq \<rparr>] \<rparr>)))"

definition hour_of :: "time \<Rightarrow> time" where
  "hour_of now = now - now mod (3600 * second)"

text \<open>One row per administrator, errand, resource and hour; the hour's first read keeps its id.\<close>

definition same_read :: "ident \<Rightarrow> ident \<Rightarrow> chat_resource \<Rightarrow> time \<Rightarrow> admin_channel_read \<Rightarrow> bool" where
  "same_read adminUserId orderId resource hour r \<longleftrightarrow>
     cr_adminUserId r = adminUserId \<and> cr_orderId r = orderId \<and> cr_resource r = resource \<and> cr_readHour r = hour"

definition recordAdminRead ::
  "ident \<Rightarrow> time \<Rightarrow> ident \<Rightarrow> ident \<Rightarrow> chat_resource \<Rightarrow> ident \<Rightarrow> chat_db \<Rightarrow> service_error + chat_db" where
  "recordAdminRead i now adminUserId orderId resource correlation db =
     (if list_ex (same_read adminUserId orderId resource (hour_of now)) (admin_channel_reads db)
      then Inr (db\<lparr> admin_channel_reads := update_rows (same_read adminUserId orderId resource (hour_of now))
             (\<lambda>r. r\<lparr> cr_readCount := cr_readCount r + 1, cr_lastReadAt := now \<rparr>) (admin_channel_reads db) \<rparr>)
      else bindE (constraints [(''admin_channel_reads_pkey'', i \<notin> cr_id ` set (admin_channel_reads db))]) (\<lambda>_.
             Inr (db\<lparr> admin_channel_reads := admin_channel_reads db @
               [\<lparr> cr_id = i, cr_adminUserId = adminUserId, cr_orderId = orderId, cr_resource = resource,
                  cr_correlationId = correlation, cr_readAt = now, cr_readHour = hour_of now,
                  cr_readCount = 1, cr_lastReadAt = now \<rparr>] \<rparr>)))"

section \<open>Clearing up\<close>

definition channelsOpenedBefore :: "time \<Rightarrow> nat \<Rightarrow> ident option \<Rightarrow> chat_db \<Rightarrow> ident list" where
  "channelsOpenedBefore cutoff limit after db =
     take limit (sort (map ch_orderId (filter (\<lambda>c. ch_createdAt c < cutoff \<and> opt_all (\<lambda>a. a < ch_orderId c) after)
       (channels db))))"

text \<open>The messages and read positions of a channel go with it; the record of admin reads stays.\<close>

definition deleteChannel :: "ident \<Rightarrow> chat_db \<Rightarrow> chat_db" where
  "deleteChannel orderId db = db\<lparr>
     channels := filter (\<lambda>c. ch_orderId c \<noteq> orderId) (channels db),
     chat_messages := filter (\<lambda>m. ms_orderId m \<noteq> orderId) (chat_messages db),
     read_positions := filter (\<lambda>r. rp_orderId r \<noteq> orderId) (read_positions db) \<rparr>"

end
