(* ===== verification/Chat_Service.thy ===== *)
theory Chat_Service
  imports Chat_Repository
begin

text \<open>
  The operations on an errand's channel (chat-service/src/chat/chat.service.ts), the inputs they
  take (validation.ts), and what they ask of the other services (upstreams.ts).

  Every call asks the Order Service who the errand's requester and courier are; its answer, or that
  it gave none, is an argument. A call's reads and its write are separate statements, so each takes
  the database it finds; that sockets are nudged afterwards is not modelled.
\<close>

section \<open>Inputs\<close>

definition invalid_fields :: "(string \<times> string) list \<Rightarrow> service_error" where
  "invalid_fields fs = ApiException 422 ''VALIDATION_FAILED'' (Field_details fs)"

definition parseChatOrderId :: "(string \<Rightarrow> bool) \<Rightarrow> string \<Rightarrow> service_error + ident" where
  "parseChatOrderId uuid i = (if uuid i then Inr i else Inl (ApiException 400 ''INVALID_ORDER_ID'' No_details))"

definition MAX_BODY :: nat where
  "MAX_BODY = 280"

text \<open>A query with its numbers read; one that is not a number is the argument's \<open>None\<close> of a given field.\<close>

definition parsePage :: "int option \<Rightarrow> int option \<Rightarrow> int option \<Rightarrow> service_error + page_query" where
  "parsePage after before limit =
     (if opt_all (\<lambda>a. 0 \<le> a \<and> a \<le> MAX_SEQ) after \<and> opt_all (\<lambda>b. 1 \<le> b \<and> b \<le> MAX_SEQ) before \<and>
         opt_all (\<lambda>l. 1 \<le> l \<and> l \<le> 100) limit
      then if after = None \<or> before = None
           then Inr \<lparr> pg_after = after, pg_before = before, pg_limit = nat (or_default 20 limit) \<rparr>
           else Inl (invalid_fields [(''before'', ''custom'')])
      else Inl (invalid_fields
        ((if opt_all (\<lambda>a. 0 \<le> a \<and> a \<le> MAX_SEQ) after then [] else [(''after'', ''range'')]) @
         (if opt_all (\<lambda>b. 1 \<le> b \<and> b \<le> MAX_SEQ) before then [] else [(''before'', ''range'')]) @
         (if opt_all (\<lambda>l. 1 \<le> l \<and> l \<le> 100) limit then [] else [(''limit'', ''range'')]))))"

definition valid_body :: "string \<Rightarrow> bool" where
  "valid_body body \<longleftrightarrow> 1 \<le> length body \<and> length body \<le> MAX_BODY \<and> trim body \<noteq> [] \<and> CHR 0x00 \<notin> set body"

definition parseSend :: "(string \<Rightarrow> bool) \<Rightarrow> string \<Rightarrow> string \<Rightarrow> service_error + (ident \<times> string)" where
  "parseSend uuid clientId body =
     (if uuid clientId \<and> valid_body body then Inr (clientId, body)
      else Inl (invalid_fields ((if uuid clientId then [] else [(''clientId'', ''invalid_format'')]) @
                                (if valid_body body then [] else [(''body'', ''custom'')]))))"

definition parseMarkRead :: "int \<Rightarrow> service_error + int" where
  "parseMarkRead seq = (if 0 \<le> seq then Inr seq else Inl (invalid_fields [(''seq'', ''too_small'')]))"

section \<open>What the other services say\<close>

record order_for_chat =
  of_status :: string
  of_version :: int
  of_requesterId :: ident
  of_courierId :: "ident option"
  of_endedAt :: "time option"

definition unavailable :: service_error where
  "unavailable = ApiException 503 ''UNAVAILABLE'' No_details"

text \<open>
  An HTTP answer: none in time, not found, or another status with its body if it has the form the
  schema asks for.
\<close>

datatype 'a upstream_answer = No_answer | Not_found_404 | Answer bool "'a option"

definition upstream_parse :: "'a upstream_answer \<Rightarrow> service_error + 'a" where
  "upstream_parse r =
     (case r of
        No_answer \<Rightarrow> Inl unavailable
      | Not_found_404 \<Rightarrow> Inl unavailable
      | Answer success body \<Rightarrow>
          if \<not> success then Inl unavailable
          else case body of None \<Rightarrow> Inl unavailable | Some x \<Rightarrow> Inr x)"

definition upstream_order :: "order_for_chat upstream_answer \<Rightarrow> service_error + order_for_chat option" where
  "upstream_order r = (case r of Not_found_404 \<Rightarrow> Inr None | _ \<Rightarrow> bindE (upstream_parse r) (Inr \<circ> Some))"

record user_for_chat =
  uc_exists :: bool
  uc_displayName :: "string option"

definition upstream_displayName :: "user_for_chat upstream_answer \<Rightarrow> service_error + string" where
  "upstream_displayName r =
     bindE (upstream_parse r) (\<lambda>u.
       if \<not> uc_exists u then Inr ''A former student''
       else case uc_displayName u of
              None \<Rightarrow> Inl unavailable
            | Some n \<Rightarrow> if n = [] then Inl unavailable else Inr n)"

section \<open>Access\<close>

definition DAY :: time where
  "DAY = 24 * 3600 * second"

definition pastRetention :: "order_for_chat \<Rightarrow> int \<Rightarrow> time \<Rightarrow> bool" where
  "pastRetention order retentionDays now =
     (case of_endedAt order of None \<Rightarrow> False | Some ended \<Rightarrow> retentionDays * DAY < now - ended)"

datatype chat_role = REQUESTER | COURIER | ADMIN_READER

record chat_caller =
  cc_userId :: ident
  cc_displayName :: string
  cc_isAdmin :: bool

record chat_access =
  ac_order :: order_for_chat
  ac_role :: chat_role
  ac_latestSeq :: int
  ac_open :: bool

definition channelClosed :: service_error where
  "channelClosed = ApiException 409 ''CHANNEL_CLOSED'' No_details"

definition noChat :: service_error where
  "noChat = ApiException 404 ''NOT_FOUND'' No_details"

definition notParticipant :: service_error where
  "notParticipant = ApiException 403 ''NOT_PARTICIPANT'' No_details"

definition chat_role_of :: "order_for_chat \<Rightarrow> chat_caller \<Rightarrow> chat_role option" where
  "chat_role_of order caller =
     (if cc_userId caller = of_requesterId order then Some REQUESTER
      else if Some (cc_userId caller) = of_courierId order then Some COURIER
      else if cc_isAdmin caller then Some ADMIN_READER
      else None)"

definition access ::
  "time \<Rightarrow> int \<Rightarrow> order_for_chat upstream_answer \<Rightarrow> chat_caller \<Rightarrow> ident \<Rightarrow> chat_db
     \<Rightarrow> (service_error + chat_access) \<times> chat_db" where
  "access now retentionDays answer caller orderId db =
     (case upstream_order answer of
        Inl err \<Rightarrow> (Inl err, db)
      | Inr None \<Rightarrow> (Inl noChat, db)
      | Inr (Some order) \<Rightarrow>
          if pastRetention order retentionDays now then (Inl noChat, db)
          else
            let existing = latestSeq db orderId;
                is_open = (of_courierId order \<noteq> None \<and> of_endedAt order = None)
            in case chat_role_of order caller of
                 None \<Rightarrow> (Inl (if existing = None \<and> of_courierId order = None then noChat else notParticipant), db)
               | Some role \<Rightarrow>
                   let (latest, db') = (case existing of
                          Some n \<Rightarrow> (Some n, db)
                        | None \<Rightarrow> if is_open \<and> role \<noteq> ADMIN_READER then open_channel now orderId db else (None, db))
                   in (case latest of
                         None \<Rightarrow> Inl noChat
                       | Some n \<Rightarrow> Inr \<lparr> ac_order = order, ac_role = role, ac_latestSeq = n, ac_open = is_open \<rparr>, db'))"

definition participantAccess ::
  "time \<Rightarrow> int \<Rightarrow> order_for_chat upstream_answer \<Rightarrow> chat_caller \<Rightarrow> ident \<Rightarrow> chat_db
     \<Rightarrow> (service_error + chat_access) \<times> chat_db" where
  "participantAccess now retentionDays answer caller orderId db =
     (case access now retentionDays answer caller orderId db of
        (Inr a, db') \<Rightarrow> (if ac_role a = ADMIN_READER then Inl notParticipant else Inr a, db')
      | (Inl err, db') \<Rightarrow> (Inl err, db'))"

section \<open>The operations\<close>

record channel_view =
  cv_orderId :: ident
  cv_open :: bool
  cv_myRole :: chat_role
  cv_requester :: "ident \<times> string"
  cv_courier :: "(ident \<times> string) option"
  cv_lastReadSeq :: int
  cv_latestSeq :: int

definition participant_name ::
  "chat_caller \<Rightarrow> (ident \<Rightarrow> user_for_chat upstream_answer) \<Rightarrow> ident \<Rightarrow> service_error + string" where
  "participant_name caller users userId =
     (if userId = cc_userId caller then Inr (cc_displayName caller) else upstream_displayName (users userId))"

text \<open>An administrator's read is recorded before anything is answered, and a failed record fails the call.\<close>

definition record_read ::
  "chat_role \<Rightarrow> ident \<Rightarrow> time \<Rightarrow> ident \<Rightarrow> ident \<Rightarrow> chat_resource \<Rightarrow> ident \<Rightarrow> chat_db \<Rightarrow> service_error + chat_db" where
  "record_read role i now userId orderId resource correlation db =
     (if role = ADMIN_READER then recordAdminRead i now userId orderId resource correlation db else Inr db)"

definition channel_view ::
  "ident \<Rightarrow> time \<Rightarrow> ident \<Rightarrow> (ident \<Rightarrow> user_for_chat upstream_answer) \<Rightarrow> chat_caller \<Rightarrow> ident \<Rightarrow> chat_access \<Rightarrow> chat_db
     \<Rightarrow> (service_error + channel_view) \<times> chat_db" where
  "channel_view i now correlation users caller orderId a db =
     (case bindE (participant_name caller users (of_requesterId (ac_order a))) (\<lambda>requester.
             bindE (case of_courierId (ac_order a) of
                      None \<Rightarrow> Inr None
                    | Some c \<Rightarrow> bindE (participant_name caller users c) (\<lambda>n. Inr (Some (c, n)))) (\<lambda>courier.
               bindE (record_read (ac_role a) i now (cc_userId caller) orderId CHANNEL correlation db) (\<lambda>db'.
                 Inr (\<lparr> cv_orderId = orderId, cv_open = ac_open a, cv_myRole = ac_role a,
                        cv_requester = (of_requesterId (ac_order a), requester), cv_courier = courier,
                        cv_lastReadSeq = (if ac_role a = ADMIN_READER then 0 else lastRead db orderId (cc_userId caller)),
                        cv_latestSeq = ac_latestSeq a \<rparr>, db')))) of
        Inl err \<Rightarrow> (Inl err, db)
      | Inr (v, db') \<Rightarrow> (Inr v, db'))"

definition messages_page ::
  "ident \<Rightarrow> time \<Rightarrow> ident \<Rightarrow> chat_caller \<Rightarrow> ident \<Rightarrow> page_query \<Rightarrow> chat_access \<Rightarrow> chat_db
     \<Rightarrow> (service_error + chat_message page_result) \<times> chat_db" where
  "messages_page i now correlation caller orderId q a db =
     (case record_read (ac_role a) i now (cc_userId caller) orderId MESSAGES correlation db of
        Inl err \<Rightarrow> (Inl err, db)
      | Inr db' \<Rightarrow> (Inr (page db orderId q), db'))"

text \<open>What a send does after access: \<open>seen\<close> is the database its first lookup reads.\<close>

definition send_reply :: "string \<Rightarrow> send_attempt \<Rightarrow> service_error + send_attempt" where
  "send_reply body sent =
     (case sent of
        Closed \<Rightarrow> Inl channelClosed
      | Busy \<Rightarrow> Inl unavailable
      | Stored m created \<Rightarrow>
          if \<not> created \<and> ms_body m \<noteq> body then Inl (ApiException 422 ''IDEMPOTENCY_KEY_REUSED'' No_details)
          else Inr sent
      | Over_limit s \<Rightarrow> Inr sent)"

definition send_message ::
  "chat_db \<Rightarrow> bool \<Rightarrow> time \<Rightarrow> time \<Rightarrow> chat_caller \<Rightarrow> ident \<Rightarrow> ident \<Rightarrow> string \<Rightarrow> chat_access \<Rightarrow> chat_db
     \<Rightarrow> (service_error + send_attempt) \<times> chat_db" where
  "send_message seen waited now stamp caller orderId clientId body a db =
     (case findSent seen orderId (cc_userId caller) clientId of
        Some stored \<Rightarrow> (send_reply body (Stored stored False), db)
      | None \<Rightarrow>
          if \<not> ac_open a then (Inl channelClosed, db)
          else (case send waited now stamp orderId (cc_userId caller) clientId body db of
                  (Inl err, db') \<Rightarrow> (Inl err, db')
                | (Inr sent, db') \<Rightarrow> (send_reply body sent, db')))"

definition mark_read ::
  "chat_caller \<Rightarrow> ident \<Rightarrow> int \<Rightarrow> chat_access \<Rightarrow> chat_db \<Rightarrow> (service_error + int) \<times> chat_db" where
  "mark_read caller orderId seq a db =
     (if ac_latestSeq a < seq then (Inl (invalid_fields [(''seq'', ''too_big'')]), db)
      else case markRead orderId (cc_userId caller) seq db of
             Inl err \<Rightarrow> (Inl err, db)
           | Inr (n, db') \<Rightarrow> (Inr n, db'))"

section \<open>Cleaning up\<close>

record cleanup_result =
  cl_deleted :: nat
  cl_kept :: nat
  cl_skipped :: nat
  cl_unknown :: nat

definition noResult :: cleanup_result where
  "noResult = \<lparr> cl_deleted = 0, cl_kept = 0, cl_skipped = 0, cl_unknown = 0 \<rparr>"

text \<open>
  One channel: \<open>removes\<close> is whether its delete succeeds. The first component says whether the work
  on it failed.
\<close>

definition settle ::
  "int \<Rightarrow> time \<Rightarrow> order_for_chat upstream_answer \<Rightarrow> bool \<Rightarrow> ident \<Rightarrow> cleanup_result \<times> chat_db
     \<Rightarrow> bool \<times> cleanup_result \<times> chat_db" where
  "settle retentionDays now answer removes orderId s =
     (case s of (result, db) \<Rightarrow>
       case upstream_order answer of
         Inl _ \<Rightarrow> (False, result\<lparr> cl_skipped := cl_skipped result + 1 \<rparr>, db)
       | Inr None \<Rightarrow> (False, result\<lparr> cl_unknown := cl_unknown result + 1 \<rparr>, db)
       | Inr (Some order) \<Rightarrow>
           if pastRetention order retentionDays now
           then if removes then (False, result\<lparr> cl_deleted := cl_deleted result + 1 \<rparr>, deleteChannel orderId db)
                else (True, result, db)
           else (False, result\<lparr> cl_kept := cl_kept result + 1 \<rparr>, db))"

text \<open>\<open>eachAtMost\<close>: every channel of a page is tried; one that fails stops nothing else.\<close>

fun settle_page ::
  "int \<Rightarrow> time \<Rightarrow> (ident \<Rightarrow> order_for_chat upstream_answer) \<Rightarrow> (ident \<Rightarrow> bool) \<Rightarrow> ident list \<Rightarrow> cleanup_result \<times> chat_db
     \<Rightarrow> bool \<times> cleanup_result \<times> chat_db" where
  "settle_page days now answers removes [] s = (False, s)"
| "settle_page days now answers removes (i # is) s =
     (let (failed, s1) = settle days now (answers i) (removes i) i s;
          (later_failed, s2) = settle_page days now answers removes is s1
      in (failed \<or> later_failed, s2))"

definition due_channels :: "time \<Rightarrow> ident option \<Rightarrow> chat_db \<Rightarrow> ident list" where
  "due_channels cutoff after db = map ch_orderId (filter (\<lambda>c. ch_createdAt c < cutoff \<and> opt_all (\<lambda>a. a < ch_orderId c) after) (channels db))"

end
