(* ===== verification/Chat_Retention.thy ===== *)
theory Chat_Retention
  imports Chat_Service
begin

text \<open>
  The retention run of the Chat Service (chat-service/src/chat/retention.ts): a page of channels at
  a time, each settled by what the Order Service says of its errand.
\<close>

section \<open>The run\<close>

definition delete_channels :: "ident set \<Rightarrow> chat_db \<Rightarrow> chat_db" where
  "delete_channels ids db = db\<lparr>
     channels := filter (\<lambda>c. ch_orderId c \<notin> ids) (channels db),
     chat_messages := filter (\<lambda>m. ms_orderId m \<notin> ids) (chat_messages db),
     read_positions := filter (\<lambda>r. rp_orderId r \<notin> ids) (read_positions db) \<rparr>"

lemma delete_channels_parts [simp]:
  "delete_channels {} db = db"
  "deleteChannel i db = delete_channels {i} db"
  "delete_channels A (delete_channels B db) = delete_channels (B \<union> A) db"
  by (simp_all add: delete_channels_def deleteChannel_def)

definition past_retention_at :: "int \<Rightarrow> time \<Rightarrow> order_for_chat upstream_answer \<Rightarrow> bool" where
  "past_retention_at days now answer \<longleftrightarrow>
     (case upstream_order answer of Inr (Some order) \<Rightarrow> pastRetention order days now | _ \<Rightarrow> False)"

text \<open>What a page does to the database, and how the counts add up.\<close>

definition settled_total :: "cleanup_result \<Rightarrow> nat" where
  "settled_total r = cl_deleted r + cl_kept r + cl_skipped r + cl_unknown r"

lemma settle_cases:
  assumes "settle days now answer removes i (result, db) = (failed, result', db')"
  shows "db' = delete_channels (if past_retention_at days now answer \<and> removes then {i} else {}) db"
    and "failed \<longleftrightarrow> past_retention_at days now answer \<and> \<not> removes"
    and "\<not> failed \<Longrightarrow> settled_total result' = settled_total result + 1"
    and "cl_deleted result' = cl_deleted result + (if past_retention_at days now answer \<and> removes then 1 else 0)"
  using assms
  by (auto simp: settle_def past_retention_at_def settled_total_def split: sum.splits option.splits if_splits)

lemma settle_page_cases:
  assumes "settle_page days now answers removes is (result, db) = (failed, result', db')"
  shows "db' = delete_channels {i \<in> set is. past_retention_at days now (answers i) \<and> removes i} db"
    and "failed \<longleftrightarrow> (\<exists>i \<in> set is. past_retention_at days now (answers i) \<and> \<not> removes i)"
    and "\<not> failed \<Longrightarrow> settled_total result' = settled_total result + length is"
    and "cl_deleted result' = cl_deleted result + length (filter (\<lambda>i. past_retention_at days now (answers i) \<and> removes i) is)"
  using assms
proof (induction "is" arbitrary: result db failed)
  case (Cons i "is")
  note steps = settle_cases
  { case 1
    then obtain f1 r1 d1 where first: "settle days now (answers i) (removes i) i (result, db) = (f1, r1, d1)"
      and rest: "settle_page days now answers removes is (r1, d1) = (snd (f1, failed), result', db') \<or>
        (\<exists>f2. settle_page days now answers removes is (r1, d1) = (f2, result', db'))"
      by (auto split: prod.splits)
    then obtain f2 where "settle_page days now answers removes is (r1, d1) = (f2, result', db')" by auto
    from Cons.IH(1) [OF this] steps(1) [OF first] show ?case
      by (auto intro: arg_cong [where f = "\<lambda>A. delete_channels A db"]) }
  { case 2
    then obtain f1 r1 d1 f2 where first: "settle days now (answers i) (removes i) i (result, db) = (f1, r1, d1)"
      and rest: "settle_page days now answers removes is (r1, d1) = (f2, result', db')" and "failed = (f1 \<or> f2)"
      by (auto split: prod.splits)
    with Cons.IH(2) [OF rest] steps(2) [OF first] show ?case by auto }
  { case 3
    then obtain f1 r1 d1 f2 where first: "settle days now (answers i) (removes i) i (result, db) = (f1, r1, d1)"
      and rest: "settle_page days now answers removes is (r1, d1) = (f2, result', db')" and "failed = (f1 \<or> f2)"
      by (auto split: prod.splits)
    with 3(1) Cons.IH(3) [OF _ rest] steps(3) [OF first] show ?case by simp }
  { case 4
    then obtain f1 r1 d1 f2 where first: "settle days now (answers i) (removes i) i (result, db) = (f1, r1, d1)"
      and rest: "settle_page days now answers removes is (r1, d1) = (f2, result', db')"
      by (auto split: prod.splits)
    with Cons.IH(4) [OF rest] steps(4) [OF first] show ?case by simp }
qed simp_all

lemma due_after_delete:
  "due_channels cutoff after (delete_channels ids db) = filter (\<lambda>i. i \<notin> ids) (due_channels cutoff after db)"
  by (auto simp: due_channels_def delete_channels_def filter_map comp_def conj_commute intro: filter_cong)

lemma due_restrict:
  assumes "opt_all (\<lambda>a. a < l) after"
  shows "due_channels cutoff (Some l) db = filter (\<lambda>i. l < i) (due_channels cutoff after db)"
proof -
  have "opt_all (\<lambda>a. a < x) after" if "l < x" for x
    using assms that by (cases after) (auto intro: less_trans)
  then show ?thesis
    by (auto simp: due_channels_def filter_map comp_def intro!: arg_cong [where f = "map ch_orderId"] filter_cong)
qed

lemma channelsOpenedBefore_due:
  "channelsOpenedBefore cutoff limit after db = take limit (sort (due_channels cutoff after db))"
  by (simp add: channelsOpenedBefore_def due_channels_def)

lemma page_member: "i \<in> set (channelsOpenedBefore cutoff limit after db) \<Longrightarrow> i \<in> set (due_channels cutoff after db)"
  by (auto simp: channelsOpenedBefore_due dest: in_set_takeD)

lemma due_member: "i \<in> set (due_channels cutoff after db) \<Longrightarrow> opt_all (\<lambda>a. a < i) after"
  by (auto simp: due_channels_def)

text \<open>
  The loop over pages. A page shorter than its size is the last; an empty page of size 0 cannot be,
  since the constructor refuses that size.
\<close>

function sweep_from ::
  "int \<Rightarrow> time \<Rightarrow> nat \<Rightarrow> (ident \<Rightarrow> order_for_chat upstream_answer) \<Rightarrow> (ident \<Rightarrow> bool) \<Rightarrow> ident option
     \<Rightarrow> cleanup_result \<times> chat_db \<Rightarrow> bool \<times> cleanup_result \<times> chat_db" where
  "sweep_from days now batch answers removes after s =
     (let pg = channelsOpenedBefore (now - days * DAY) batch after (snd s);
          (failed, s') = settle_page days now answers removes pg s
      in if failed then (True, s')
         else if length pg < batch \<or> pg = [] then (False, s')
         else sweep_from days now batch answers removes (Some (last pg)) s')"
  by pat_completeness auto

lemma due_decreases:
  assumes "pg = channelsOpenedBefore cutoff batch after db" and "pg \<noteq> []"
  shows "length (due_channels cutoff (Some (last pg)) (delete_channels ids db)) < length (due_channels cutoff after db)"
proof -
  have member: "last pg \<in> set (due_channels cutoff after db)"
    using page_member [of "last pg" cutoff batch after db] assms by simp
  have "due_channels cutoff (Some (last pg)) db = filter (\<lambda>i. last pg < i) (due_channels cutoff after db)"
    using due_restrict [OF due_member [OF member]] .
  then have "length (due_channels cutoff (Some (last pg)) db) < length (due_channels cutoff after db)"
    using member by (auto intro: length_filter_less)
  moreover have "length (due_channels cutoff (Some (last pg)) (delete_channels ids db)) \<le> length (due_channels cutoff (Some (last pg)) db)"
    by (simp add: due_after_delete)
  ultimately show ?thesis by simp
qed

termination sweep_from
proof (relation "measure (\<lambda>(days, now, batch, answers, removes, after, s). length (due_channels (now - days * DAY) after (snd s)))")
  fix days now batch answers removes after s pg x failed s'
  assume pg: "pg = channelsOpenedBefore (now - days * DAY) batch after (snd s)"
    and x: "x = settle_page days now answers removes pg s" "(failed, s') = x" and more: "\<not> (length pg < batch \<or> pg = [])"
  obtain result db result' db' where s: "s = (result, db)" "s' = (result', db')" by (cases s; cases s') auto
  from settle_page_cases(1) [of days now answers removes pg result db failed result' db'] x s
  have "db' = delete_channels {i \<in> set pg. past_retention_at days now (answers i) \<and> removes i} db" by simp
  with due_decreases [of pg "now - days * DAY" batch after db] pg more s
  show "((days, now, batch, answers, removes, Some (last pg), s'), days, now, batch, answers, removes, after, s)
    \<in> measure (\<lambda>(days, now, batch, answers, removes, after, s). length (due_channels (now - days * DAY) after (snd s)))"
    by simp
qed simp

declare sweep_from.simps [simp del]

definition retention_sweep ::
  "int \<Rightarrow> time \<Rightarrow> nat \<Rightarrow> (ident \<Rightarrow> order_for_chat upstream_answer) \<Rightarrow> (ident \<Rightarrow> bool) \<Rightarrow> chat_db
     \<Rightarrow> bool \<times> cleanup_result \<times> chat_db" where
  "retention_sweep days now batch answers removes db = sweep_from days now batch answers removes None (noResult, db)"

section \<open>What a run deletes\<close>

lemma drop_strictly_sorted:
  fixes ys :: "'a::linorder list"
  assumes "sorted_wrt (<) ys" and "k \<le> length ys" and "0 < k"
  shows "filter (\<lambda>i. last (take k ys) < i) ys = drop k ys"
proof -
  let ?l = "last (take k ys)"
  have l: "?l \<in> set (take k ys)" using assms(2,3) by (intro last_in_set) auto
  have ys: "sorted_wrt (<) (take k ys @ drop k ys)" using assms(1) by simp
  then have "\<forall>x \<in> set (drop k ys). ?l < x" using l unfolding sorted_wrt_append by blast
  moreover have "\<forall>x \<in> set (take k ys). \<not> ?l < x"
  proof
    fix x assume x: "x \<in> set (take k ys)"
    have "take k ys \<noteq> []" using assms(2,3) by auto
    then have split: "take k ys = butlast (take k ys) @ [?l]" by simp
    have "sorted_wrt (<) (take k ys)" using ys unfolding sorted_wrt_append by blast
    then have "\<forall>y \<in> set (butlast (take k ys)). y < ?l" by (subst (asm) split) (auto simp: sorted_wrt_append)
    moreover have "x \<in> set (butlast (take k ys)) \<or> x = ?l" using x by (subst (asm) split) auto
    ultimately show "\<not> ?l < x" by (auto dest: less_not_sym)
  qed
  ultimately have "filter (\<lambda>i. ?l < i) (take k ys @ drop k ys) = drop k ys"
    by (subst filter_append) (simp add: filter_empty_conv filter_id_conv)
  then show ?thesis by simp
qed

text \<open>A full page, and what is due after it, are what was due.\<close>

lemma page_split:
  assumes "distinct (due_channels cutoff after db)" and "pg = channelsOpenedBefore cutoff batch after db"
    and "\<not> length pg < batch" and "pg \<noteq> []"
  shows "set (due_channels cutoff after db) = set pg \<union> set (due_channels cutoff (Some (last pg)) db)"
    and "set pg \<inter> set (due_channels cutoff (Some (last pg)) db) = {}"
    and "length (due_channels cutoff after db) = length pg + length (due_channels cutoff (Some (last pg)) db)"
proof -
  let ?due = "due_channels cutoff after db"
  have strict: "sorted_wrt (<) (sort ?due)" using assms(1) by (simp add: strict_sorted_iff)
  have pg: "pg = take batch (sort ?due)" using assms(2) by (simp add: channelsOpenedBefore_due)
  with assms(3,4) have len: "batch \<le> length (sort ?due)" "0 < batch" by (auto simp: min_def split: if_splits)
  have "last pg \<in> set ?due" using last_in_set [OF assms(4)] page_member [of "last pg" cutoff batch after db] assms(2) by simp
  from due_restrict [OF due_member [OF this]]
  have rest: "due_channels cutoff (Some (last pg)) db = filter (\<lambda>i. last pg < i) ?due" .
  have drop: "filter (\<lambda>i. last pg < i) (sort ?due) = drop batch (sort ?due)"
    using drop_strictly_sorted [OF strict len] pg by simp
  then have set_rest: "set (due_channels cutoff (Some (last pg)) db) = set (drop batch (sort ?due))"
    unfolding rest by (metis set_filter set_sort)
  have "length (filter (\<lambda>i. last pg < i) ?due) = length (filter (\<lambda>i. last pg < i) (sort ?due))"
    by (metis filter_sort length_sort)
  then have "length (due_channels cutoff (Some (last pg)) db) = length (sort ?due) - batch"
    unfolding rest drop by simp
  with pg len show "length ?due = length pg + length (due_channels cutoff (Some (last pg)) db)" by simp
  have both: "set ?due = set (take batch (sort ?due)) \<union> set (drop batch (sort ?due))"
    by (metis append_take_drop_id set_append set_sort)
  then show "set ?due = set pg \<union> set (due_channels cutoff (Some (last pg)) db)" using set_rest pg by simp
  show "set pg \<inter> set (due_channels cutoff (Some (last pg)) db) = {}"
    using set_take_disj_set_drop_if_distinct [of "sort ?due" batch batch] assms(1) set_rest pg by simp
qed

text \<open>Whatever happens in a run, all it does to the tables is delete channels whose answer says so.\<close>

lemma sweep_from_shape:
  "\<exists>ids. (\<forall>i \<in> ids. past_retention_at days now (answers i)) \<and>
     snd (snd (sweep_from days now batch answers removes after s)) = delete_channels ids (snd s)"
proof (induction days now batch answers removes after s rule: sweep_from.induct)
  case (1 days now batch answers removes after s)
  define pg where "pg = channelsOpenedBefore (now - days * DAY) batch after (snd s)"
  obtain failed r1 db1 where page: "settle_page days now answers removes pg s = (failed, r1, db1)"
    by (cases "settle_page days now answers removes pg s") auto
  with settle_page_cases(1) [of days now answers removes pg "fst s" "snd s" failed r1 db1]
  obtain A where A: "\<forall>i \<in> A. past_retention_at days now (answers i)" "db1 = delete_channels A (snd s)"
    by (intro that [of "{i \<in> set pg. past_retention_at days now (answers i) \<and> removes i}"]) simp_all
  show ?case
  proof (cases "failed \<or> length pg < batch \<or> pg = []")
    case True
    with page have "snd (snd (sweep_from days now batch answers removes after s)) = db1"
      by (auto simp: sweep_from.simps [of _ _ _ _ _ _ s] pg_def Let_def)
    with A show ?thesis by blast
  next
    case False
    then have "sweep_from days now batch answers removes after s =
        sweep_from days now batch answers removes (Some (last pg)) (r1, db1)"
      using page by (simp add: sweep_from.simps [of _ _ _ _ _ _ s] pg_def Let_def)
    moreover obtain B where "\<forall>i \<in> B. past_retention_at days now (answers i)"
      "snd (snd (sweep_from days now batch answers removes (Some (last pg)) (r1, db1))) = delete_channels B db1"
      using 1 [OF pg_def page [symmetric] refl] False by auto
    ultimately show ?thesis using A by (intro exI [of _ "A \<union> B"]) auto
  qed
qed

lemma sweep_from_never_fails:
  "(\<And>i. removes i) \<Longrightarrow> \<not> fst (sweep_from days now batch answers removes after s)"
proof (induction days now batch answers removes after s rule: sweep_from.induct)
  case (1 days now batch answers removes after s)
  define pg where "pg = channelsOpenedBefore (now - days * DAY) batch after (snd s)"
  obtain failed r1 db1 where page: "settle_page days now answers removes pg s = (failed, r1, db1)"
    by (cases "settle_page days now answers removes pg s") auto
  with settle_page_cases(2) [of days now answers removes pg "fst s" "snd s" failed r1 db1] 1(2) have ok: "\<not> failed" by simp
  show ?case
  proof (cases "length pg < batch \<or> pg = []")
    case True
    with page ok show ?thesis by (auto simp: sweep_from.simps [of _ _ _ _ _ _ s] pg_def Let_def)
  next
    case False
    with 1(1) [OF pg_def page [symmetric] refl ok False 1(2)] page ok show ?thesis
      by (simp add: sweep_from.simps [of _ _ _ _ _ _ s] pg_def Let_def)
  qed
qed

lemma sweep_never_fails: "retention_sweep days now batch answers removes db = (failed, result, db') \<Longrightarrow> (\<And>i. removes i) \<Longrightarrow> \<not> failed"
  using sweep_from_never_fails [of removes days now batch answers None "(noResult, db)"] by (simp add: retention_sweep_def)

lemma due_channels_distinct: "distinct (map ch_orderId (channels db)) \<Longrightarrow> distinct (due_channels cutoff after db)"
  by (simp add: due_channels_def distinct_map_filter)

lemma sweep_from_deletes:
  assumes "sweep_from days now batch answers removes after s = (False, s')" and "0 < batch"
    and "distinct (map ch_orderId (channels (snd s)))"
  shows "snd s' = delete_channels {i \<in> set (due_channels (now - days * DAY) after (snd s)). past_retention_at days now (answers i)} (snd s) \<and>
    settled_total (fst s') = settled_total (fst s) + length (due_channels (now - days * DAY) after (snd s))"
  using assms
proof (induction days now batch answers removes after s rule: sweep_from.induct)
  case (1 days now batch answers removes after s)
  let ?cutoff = "now - days * DAY" and ?past = "\<lambda>i. past_retention_at days now (answers i)"
  let ?due = "due_channels ?cutoff after (snd s)"
  define pg where "pg = channelsOpenedBefore ?cutoff batch after (snd s)"
  obtain failed r1 db1 where page: "settle_page days now answers removes pg (fst s, snd s) = (failed, r1, db1)"
    by (cases "settle_page days now answers removes pg s") auto
  have ok: "\<not> failed" using 1(2) page by (auto simp: sweep_from.simps [of _ _ _ _ _ _ s] pg_def Let_def)
  note cases = settle_page_cases [OF page]
  have all: "removes i" if "i \<in> set pg" "?past i" for i using cases(2) ok that by blast
  then have db1: "db1 = delete_channels {i \<in> set pg. ?past i} (snd s)"
    using cases(1) by (auto intro: arg_cong [where f = "\<lambda>A. delete_channels A (snd s)"])
  have r1: "settled_total r1 = settled_total (fst s) + length pg" using cases(3) ok by blast
  have distinct: "distinct ?due" using 1(4) by (rule due_channels_distinct)
  show ?case
  proof (cases "length pg < batch \<or> pg = []")
    case True
    with 1(3) have "length pg < batch" by auto
    then have "pg = sort ?due" by (auto simp: pg_def channelsOpenedBefore_due)
    moreover have "s' = (r1, db1)"
      using 1(2) page ok True by (simp add: sweep_from.simps [of _ _ _ _ _ _ s] pg_def Let_def)
    ultimately show ?thesis using db1 r1 by simp
  next
    case False
    have rest: "sweep_from days now batch answers removes (Some (last pg)) (r1, db1) = (False, s')"
      using 1(2) page ok False by (simp add: sweep_from.simps [of _ _ _ _ _ _ s] pg_def Let_def)
    have split: "set ?due = set pg \<union> set (due_channels ?cutoff (Some (last pg)) (snd s))"
      "set pg \<inter> set (due_channels ?cutoff (Some (last pg)) (snd s)) = {}"
      "length ?due = length pg + length (due_channels ?cutoff (Some (last pg)) (snd s))"
      using page_split [OF distinct pg_def] False by simp_all
    have due1: "due_channels ?cutoff (Some (last pg)) db1 = due_channels ?cutoff (Some (last pg)) (snd s)"
      unfolding db1 due_after_delete using split(2) by (auto simp: filter_id_conv)
    have "distinct (map ch_orderId (channels db1))"
      using 1(4) by (simp add: db1 delete_channels_def distinct_map_filter)
    then have "snd s' = delete_channels {i \<in> set (due_channels ?cutoff (Some (last pg)) db1). ?past i} db1 \<and>
        settled_total (fst s') = settled_total r1 + length (due_channels ?cutoff (Some (last pg)) db1)"
      using 1(1) [OF pg_def _ refl _ _ _ 1(3)] page ok False rest by (simp add: pg_def)
    moreover have "{i \<in> set pg. ?past i} \<union> {i \<in> set (due_channels ?cutoff (Some (last pg)) (snd s)). ?past i} =
        {i \<in> set ?due. ?past i}" unfolding split(1) by blast
    ultimately have "snd s' = delete_channels {i \<in> set ?due. ?past i} (snd s) \<and>
        settled_total (fst s') = settled_total r1 + length (due_channels ?cutoff (Some (last pg)) (snd s))"
      unfolding due1 by (simp add: db1)
    with r1 split(3) show ?thesis by simp
  qed
qed

end
