(* ===== verification/Chat_System.thy ===== *)
theory Chat_System
  imports Chat_Retention
begin

text \<open>
  The Chat Service as a step relation, and what every step keeps: messages numbered without gaps,
  no message stored twice, and the limit on how much one sender sends in a minute.
\<close>

section \<open>Steps\<close>

text \<open>
  Access is a call of its own: what a call does after it starts from the access it was given, on a
  database found later. Of clocks a send assumes that they are past what its sender sent before, and
  that the stamp is not before the count: the database's clock, read under the sender's lock.
\<close>

definition admitted_as :: "int \<Rightarrow> chat_caller \<Rightarrow> ident \<Rightarrow> chat_access \<Rightarrow> bool" where
  "admitted_as days caller orderId a \<longleftrightarrow>
     (\<exists>now answer db. fst (access now days answer caller orderId db) = Inr a)"

definition participates :: "int \<Rightarrow> chat_caller \<Rightarrow> ident \<Rightarrow> chat_access \<Rightarrow> bool" where
  "participates days caller orderId a \<longleftrightarrow>
     (\<exists>now answer db. fst (participantAccess now days answer caller orderId db) = Inr a)"

inductive chat_step :: "int \<Rightarrow> nat \<Rightarrow> chat_db \<Rightarrow> chat_db \<Rightarrow> bool" for days batch where
  accessed: "access now days answer caller orderId db = (r, db') \<Longrightarrow> chat_step days batch db db'"
| viewed: "admitted_as days caller orderId a \<Longrightarrow>
     channel_view i now correlation users caller orderId a db = (r1, db') \<Longrightarrow> chat_step days batch db db'"
| read_page: "admitted_as days caller orderId a \<Longrightarrow>
     messages_page i now correlation caller orderId q a db = (r2, db') \<Longrightarrow> chat_step days batch db db'"
| sent: "\<lbrakk> participates days caller orderId a; now \<le> stamp;
     \<forall>m \<in> set (chat_messages db). ms_senderId m = cc_userId caller \<longrightarrow> ms_sentAt m \<le> now;
     send_message seen waited now stamp caller orderId clientId body a db = (r3, db') \<rbrakk> \<Longrightarrow> chat_step days batch db db'"
| marked: "participates days caller orderId a \<Longrightarrow> mark_read caller orderId seq a db = (r4, db') \<Longrightarrow> chat_step days batch db db'"
| swept: "retention_sweep days now batch answers removes db = (failed, result, db') \<Longrightarrow> chat_step days batch db db'"

definition chat_start :: "chat_db \<Rightarrow> bool" where
  "chat_start db \<longleftrightarrow> channels db = [] \<and> chat_messages db = [] \<and> read_positions db = [] \<and> admin_channel_reads db = []"

section \<open>The invariant\<close>

definition of_channel :: "ident \<Rightarrow> chat_db \<Rightarrow> chat_message list" where
  "of_channel orderId db = filter (\<lambda>m. ms_orderId m = orderId) (chat_messages db)"

definition numbered_ok :: "chat_db \<Rightarrow> bool" where
  "numbered_ok db \<longleftrightarrow> distinct (map ch_orderId (channels db)) \<and>
     (\<forall>m \<in> set (chat_messages db). ms_orderId m \<in> ch_orderId ` set (channels db)) \<and>
     (\<forall>c \<in> set (channels db). 0 \<le> ch_latestSeq c \<and> map ms_seq (of_channel (ch_orderId c) db) = [1..ch_latestSeq c]) \<and>
     distinct (map (\<lambda>m. (ms_orderId m, ms_senderId m, ms_clientId m)) (chat_messages db))"

definition sent_within :: "ident \<Rightarrow> time \<Rightarrow> chat_db \<Rightarrow> chat_message list" where
  "sent_within senderId t db =
     filter (\<lambda>m. ms_senderId m = senderId \<and> t - SEND_WINDOW < ms_sentAt m \<and> ms_sentAt m \<le> t) (chat_messages db)"

definition paced_ok :: "chat_db \<Rightarrow> bool" where
  "paced_ok db \<longleftrightarrow> (\<forall>s t. length (sent_within s t db) \<le> SEND_LIMIT_MESSAGES)"

definition chat_ok :: "chat_db \<Rightarrow> bool" where
  "chat_ok db \<longleftrightarrow> numbered_ok db \<and> paced_ok db"

section \<open>What steps change\<close>

lemma length_filter_mono: "(\<And>x. P x \<Longrightarrow> Q x) \<Longrightarrow> length (filter P xs) \<le> length (filter Q xs)"
  by (induction xs) auto

lemma opened_cases:
  assumes "open_channel now orderId db = (n, db')"
  obtains (there) "db' = db" "orderId \<in> ch_orderId ` set (channels db)"
  | (opened) "orderId \<notin> ch_orderId ` set (channels db)" "n = Some 0"
      "db' = db\<lparr> channels := channels db @ [\<lparr> ch_orderId = orderId, ch_latestSeq = 0, ch_createdAt = now \<rparr>] \<rparr>"
proof (cases "orderId \<in> ch_orderId ` set (channels db)")
  case True
  with assms show thesis by (intro that(1)) (simp_all add: open_channel_def Let_def)
next
  case False
  then have "row_of ch_orderId orderId (channels db) = None" by (simp add: row_of_None)
  with assms False show thesis by (intro that(2)) (auto simp: open_channel_def Let_def latestSeq_def row_of_append)
qed

lemma access_cases:
  assumes "access now days answer caller orderId db = (r, db')"
  obtains (same) "db' = db" | (opened) n where "open_channel now orderId db = (n, db')"
  using assms by (auto simp: access_def Let_def split: sum.splits option.splits if_splits prod.splits)

lemma access_Inr:
  assumes "access now days answer caller orderId db = (Inr a, db')"
  shows "upstream_order answer = Inr (Some (ac_order a))" and "\<not> pastRetention (ac_order a) days now"
    and "chat_role_of (ac_order a) caller = Some (ac_role a)"
    and "ac_open a \<longleftrightarrow> of_courierId (ac_order a) \<noteq> None \<and> of_endedAt (ac_order a) = None"
  using assms by (auto simp: access_def Let_def split: sum.splits option.splits if_splits prod.splits)

lemma recordAdminRead_frame:
  "recordAdminRead i now u orderId resource c db = Inr db' \<Longrightarrow>
     channels db' = channels db \<and> chat_messages db' = chat_messages db \<and> read_positions db' = read_positions db"
  by (auto simp: recordAdminRead_def bindE_eq_Inr split: if_splits)

lemma markRead_frame:
  "markRead orderId u seq db = Inr (n, db') \<Longrightarrow> channels db' = channels db \<and> chat_messages db' = chat_messages db"
  by (auto simp: markRead_def bindE_eq_Inr split: option.splits)

text \<open>A send that stores: a new message with the next number, within the limit.\<close>

lemma send_cases:
  assumes "send waited now stamp orderId senderId clientId body db = (r, db')"
  obtains (nothing) "db' = db" "\<nexists>m. r = Inr (Stored m True)"
  | (stored) ch m where "r = Inr (Stored m True)" "ch \<in> set (channels db)" "ch_orderId ch = orderId"
      "m = \<lparr> ms_orderId = orderId, ms_seq = ch_latestSeq ch + 1, ms_senderId = senderId, ms_clientId = clientId,
             ms_body = body, ms_sentAt = stamp \<rparr>"
      "(orderId, senderId, clientId) \<notin> (\<lambda>x. (ms_orderId x, ms_senderId x, ms_clientId x)) ` set (chat_messages db)"
      "length (in_window now senderId db) < SEND_LIMIT_MESSAGES"
      "db' = db\<lparr> chat_messages := chat_messages db @ [m],
                 channels := update_rows (\<lambda>c. ch_orderId c = orderId) (\<lambda>c. c\<lparr> ch_latestSeq := ch_latestSeq ch + 1 \<rparr>) (channels db) \<rparr>"
proof (cases "row_of ch_orderId orderId (channels db)")
  case None
  with assms that(1) show thesis by (auto simp: send_def transaction_def sendUnderLocks_def split: if_splits)
next
  case (Some ch)
  have ch: "ch \<in> set (channels db)" "ch_orderId ch = orderId" using row_of_Some [OF Some] by simp_all
  show thesis
  proof (cases "waited \<or> findSent db orderId senderId clientId \<noteq> None \<or> retryAfter now senderId db \<noteq> None")
    case True
    with assms Some that(1) show thesis
      by (auto simp: send_def transaction_def sendUnderLocks_def split: if_splits option.splits)
  next
    case False
    then have few: "length (in_window now senderId db) < SEND_LIMIT_MESSAGES"
      by (auto simp: retryAfter_def Let_def split: if_splits)
    let ?m = "\<lparr> ms_orderId = orderId, ms_seq = ch_latestSeq ch + 1, ms_senderId = senderId, ms_clientId = clientId,
             ms_body = body, ms_sentAt = stamp \<rparr>"
    show thesis
    proof (cases "insertMessage ?m db")
      case (Inl e)
      with assms Some False that(1) show thesis
        by (auto simp: send_def transaction_def sendUnderLocks_def Let_def)
    next
      case (Inr tx)
      then have tx: "tx = db\<lparr> chat_messages := chat_messages db @ [?m] \<rparr>"
        and new: "(orderId, senderId, clientId) \<notin> (\<lambda>x. (ms_orderId x, ms_senderId x, ms_clientId x)) ` set (chat_messages db)"
        by (auto simp: insertMessage_def bindE_eq_Inr constraints_Inr)
      have "r = Inr (Stored ?m True) \<and> db' = db\<lparr> chat_messages := chat_messages db @ [?m],
         channels := update_rows (\<lambda>c. ch_orderId c = orderId) (\<lambda>c. c\<lparr> ch_latestSeq := ch_latestSeq ch + 1 \<rparr>) (channels db) \<rparr>"
        using assms Some False Inr tx by (auto simp: send_def transaction_def sendUnderLocks_def Let_def)
      with ch new few show thesis by (intro that(2) [of ?m ch]) simp_all
    qed
  qed
qed

lemma send_message_cases:
  assumes "send_message seen waited now stamp caller orderId clientId body a db = (r, db')"
  obtains (nothing) "db' = db" "\<nexists>m. r = Inr (Stored m True)"
  | (tried) s where "ac_open a" "send waited now stamp orderId (cc_userId caller) clientId body db = (s, db')"
      "\<And>m. s = Inr (Stored m True) \<longleftrightarrow> r = Inr (Stored m True)"
  using assms
  by (auto simp: send_message_def send_reply_def split: option.splits if_splits sum.splits prod.splits send_attempt.splits)

section \<open>Steps keep the invariant\<close>

lemma delete_channels_keeps: "chat_ok db \<Longrightarrow> chat_ok (delete_channels ids db)"
proof -
  assume ok: "chat_ok db"
  have of_channel: "of_channel i (delete_channels ids db) = (if i \<in> ids then [] else of_channel i db)" for i
    by (auto simp: of_channel_def delete_channels_def filter_empty_conv intro: filter_cong)
  have "numbered_ok (delete_channels ids db)"
    using ok by (auto simp: chat_ok_def numbered_ok_def of_channel) (auto simp: delete_channels_def distinct_map_filter)
  moreover have "length (sent_within s t (delete_channels ids db)) \<le> length (sent_within s t db)" for s t
    by (auto simp: sent_within_def delete_channels_def intro!: length_filter_mono)
  ultimately show ?thesis using ok unfolding chat_ok_def paced_ok_def by (meson order_trans)
qed

lemma opened_keeps: "chat_ok db \<Longrightarrow> open_channel now orderId db = (n, db') \<Longrightarrow> chat_ok db'"
proof (erule opened_cases)
  assume ok: "chat_ok db" and new: "orderId \<notin> ch_orderId ` set (channels db)"
    and db': "db' = db\<lparr> channels := channels db @ [\<lparr> ch_orderId = orderId, ch_latestSeq = 0, ch_createdAt = now \<rparr>] \<rparr>"
  have "of_channel orderId db = []" using ok new by (auto simp: chat_ok_def numbered_ok_def of_channel_def filter_empty_conv)
  with ok new db' show "chat_ok db'"
    by (auto simp: chat_ok_def numbered_ok_def paced_ok_def of_channel_def sent_within_def)
qed simp

lemma in_window_within:
  assumes "\<forall>m \<in> set (chat_messages db). ms_senderId m = s \<longrightarrow> ms_sentAt m \<le> now" and "now \<le> t"
  shows "length (sent_within s t db) \<le> length (in_window now s db)"
  using assms by (auto simp: sent_within_def in_window_def intro!: length_filter_mono)

lemma stored_keeps:
  assumes ok: "chat_ok db" and ch: "ch \<in> set (channels db)" "ch_orderId ch = ms_orderId m" "ms_seq m = ch_latestSeq ch + 1"
    and new: "(ms_orderId m, ms_senderId m, ms_clientId m) \<notin> (\<lambda>x. (ms_orderId x, ms_senderId x, ms_clientId x)) ` set (chat_messages db)"
    and few: "length (in_window now (ms_senderId m) db) < SEND_LIMIT_MESSAGES" and later: "now \<le> ms_sentAt m"
    and clock: "\<forall>x \<in> set (chat_messages db). ms_senderId x = ms_senderId m \<longrightarrow> ms_sentAt x \<le> now"
  shows "chat_ok (db\<lparr> chat_messages := chat_messages db @ [m],
     channels := update_rows (\<lambda>c. ch_orderId c = ms_orderId m) (\<lambda>c. c\<lparr> ch_latestSeq := ch_latestSeq ch + 1 \<rparr>) (channels db) \<rparr>)"
    (is "chat_ok ?db'")
proof -
  have ids: "distinct (map ch_orderId (channels db))" using ok by (simp add: chat_ok_def numbered_ok_def)
  have same: "c = ch" if "c \<in> set (channels db)" "ch_orderId c = ms_orderId m" for c
    using that ch(1,2) ids by (metis row_of_member option.inject)
  have seqs: "0 \<le> ch_latestSeq c \<and> map ms_seq (of_channel (ch_orderId c) ?db') = [1..ch_latestSeq c]"
    if c: "c \<in> set (channels ?db')" for c
  proof -
    from c obtain c0 where c0: "c0 \<in> set (channels db)"
      "c = (if ch_orderId c0 = ms_orderId m then c0\<lparr> ch_latestSeq := ch_latestSeq ch + 1 \<rparr> else c0)"
      by (auto simp: set_update_rows)
    have old: "0 \<le> ch_latestSeq c0" "map ms_seq (of_channel (ch_orderId c0) db) = [1..ch_latestSeq c0]"
      using ok c0(1) by (simp_all add: chat_ok_def numbered_ok_def)
    show ?thesis
    proof (cases "ch_orderId c0 = ms_orderId m")
      case True
      with same c0 old ch(3) show ?thesis by (simp add: of_channel_def upto_rec2)
    next
      case False
      with c0 old show ?thesis by (auto simp: of_channel_def)
    qed
  qed
  have "length (sent_within s t ?db') \<le> SEND_LIMIT_MESSAGES" for s t
  proof -
    have paced: "length (sent_within s t db) \<le> SEND_LIMIT_MESSAGES" using ok by (simp add: chat_ok_def paced_ok_def)
    have "sent_within s t ?db' = sent_within s t db @
        (if ms_senderId m = s \<and> t - SEND_WINDOW < ms_sentAt m \<and> ms_sentAt m \<le> t then [m] else [])"
      by (simp add: sent_within_def)
    moreover have "length (sent_within s t db) < SEND_LIMIT_MESSAGES" if "ms_senderId m = s" "ms_sentAt m \<le> t"
      using in_window_within [of db s now t] clock later few that by fastforce
    ultimately show ?thesis using paced by auto
  qed
  moreover have "ch_orderId ` set (channels ?db') = ch_orderId ` set (channels db)"
    "distinct (map ch_orderId (channels ?db'))" using ids by simp_all
  then have "numbered_ok ?db'"
    using ok seqs new imageI [OF ch(1), of ch_orderId] unfolding chat_ok_def numbered_ok_def ch(2)
    by (intro conjI ballI) auto
  ultimately show ?thesis by (simp add: chat_ok_def paced_ok_def)
qed

interpretation chat: inductive_invariant chat_start "chat_step days batch" chat_ok
  for days batch
proof unfold_locales
  show "chat_start db \<Longrightarrow> chat_ok db" for db
    by (auto simp: chat_start_def chat_ok_def numbered_ok_def paced_ok_def sent_within_def)
next
  fix db db'
  assume ok: "chat_ok db" and step: "chat_step days batch db db'"
  have frame: "chat_ok db'" if "channels db' = channels db" "chat_messages db' = chat_messages db"
    using ok that by (simp add: chat_ok_def numbered_ok_def paced_ok_def of_channel_def sent_within_def)
  from step show "chat_ok db'"
  proof cases
    case (accessed now answer caller orderId r)
    then show ?thesis using ok opened_keeps by (cases rule: access_cases) auto
  next
    case (viewed caller orderId a i now correlation users r1)
    then show ?thesis using ok frame recordAdminRead_frame
      by (fastforce simp: channel_view_def record_read_def bindE_eq_Inr split: sum.splits prod.splits if_splits)
  next
    case (read_page caller orderId a i now correlation q r2)
    then show ?thesis using ok frame recordAdminRead_frame
      by (fastforce simp: messages_page_def record_read_def split: sum.splits if_splits)
  next
    case (sent caller orderId a now stamp seen waited clientId body r3)
    from sent(4) show ?thesis
    proof (cases rule: send_message_cases)
      case (tried s)
      from tried(2) show ?thesis
      proof (cases rule: send_cases)
        case (stored ch m)
        with stored_keeps [OF ok stored(2), of m now] sent(2,3) show ?thesis by simp
      qed (use ok in simp)
    qed (use ok in simp)
  next
    case (marked caller orderId a seq r4)
    then show ?thesis using ok frame markRead_frame
      by (fastforce simp: mark_read_def split: sum.splits if_splits)
  next
    case (swept now answers removes failed result)
    then obtain ids where "db' = delete_channels ids db"
      using sweep_from_shape [of days now answers batch removes None "(noResult, db)"] by (auto simp: retention_sweep_def)
    with ok show ?thesis by (simp add: delete_channels_keeps)
  qed
qed

end
