(* ===== verification/Chat_Properties.thy ===== *)
theory Chat_Properties
  imports Chat_System
begin

text \<open>
  What the Chat Service guarantees: numbered messages stored once, paced senders, who may write and
  read, what a page holds, and what retention deletes.
\<close>

section \<open>A short conversation\<close>

definition demo_order :: order_for_chat where
  "demo_order = \<lparr> of_status = ''ACCEPTED'', of_version = 3, of_requesterId = ''alice'', of_courierId = Some ''bob'', of_endedAt = None \<rparr>"

definition demo_chatter :: "ident \<Rightarrow> bool \<Rightarrow> chat_caller" where
  "demo_chatter u admin = \<lparr> cc_userId = u, cc_displayName = u, cc_isAdmin = admin \<rparr>"

definition demo_chat_access :: "chat_role \<Rightarrow> int \<Rightarrow> chat_access" where
  "demo_chat_access role n = \<lparr> ac_order = demo_order, ac_role = role, ac_latestSeq = n, ac_open = True \<rparr>"

definition cd0 :: chat_db where
  "cd0 = \<lparr> channels = [], chat_messages = [], read_positions = [], admin_channel_reads = [] \<rparr>"

definition cd1 :: chat_db where
  "cd1 = cd0\<lparr> channels := [\<lparr> ch_orderId = ''o1'', ch_latestSeq = 0, ch_createdAt = 0 \<rparr>] \<rparr>"

definition demo_chat_message :: "int \<Rightarrow> ident \<Rightarrow> ident \<Rightarrow> chat_message" where
  "demo_chat_message n u k = \<lparr> ms_orderId = ''o1'', ms_seq = n, ms_senderId = u, ms_clientId = k, ms_body = ''hello'', ms_sentAt = n * second \<rparr>"

definition cd2 :: chat_db where
  "cd2 = cd1\<lparr> channels := [\<lparr> ch_orderId = ''o1'', ch_latestSeq = 1, ch_createdAt = 0 \<rparr>],
     chat_messages := [demo_chat_message 1 ''alice'' ''k1''] \<rparr>"

definition cd3 :: chat_db where
  "cd3 = cd1\<lparr> channels := [\<lparr> ch_orderId = ''o1'', ch_latestSeq = 2, ch_createdAt = 0 \<rparr>],
     chat_messages := [demo_chat_message 1 ''alice'' ''k1'', demo_chat_message 2 ''bob'' ''k2''] \<rparr>"

lemmas cd_defs = cd0_def cd1_def cd2_def cd3_def demo_chat_message_def demo_order_def demo_chatter_def demo_chat_access_def

lemma demo_access:
  "access 0 90 (Answer True (Some demo_order)) (demo_chatter ''alice'' False) ''o1'' cd0 = (Inr (demo_chat_access REQUESTER 0), cd1)"
  "access 0 90 (Answer True (Some demo_order)) (demo_chatter ''bob'' False) ''o1'' cd1 = (Inr (demo_chat_access COURIER 0), cd1)"
  "access 0 90 (Answer True (Some demo_order)) (demo_chatter ''admin'' True) ''o1'' cd3 = (Inr (demo_chat_access ADMIN_READER 2), cd3)"
  by (simp_all add: access_def upstream_order_def upstream_parse_def pastRetention_def chat_role_of_def latestSeq_def
      row_of_def open_channel_def Let_def cd_defs)

lemma demo_participant:
  "participantAccess 0 90 (Answer True (Some demo_order)) (demo_chatter ''alice'' False) ''o1'' cd0 = (Inr (demo_chat_access REQUESTER 0), cd1)"
  "participantAccess 0 90 (Answer True (Some demo_order)) (demo_chatter ''bob'' False) ''o1'' cd1 = (Inr (demo_chat_access COURIER 0), cd1)"
  by (simp_all add: participantAccess_def demo_access) (simp_all add: demo_chat_access_def)

lemma demo_participates:
  "participates 90 (demo_chatter ''alice'' False) ''o1'' (demo_chat_access REQUESTER 0)"
  "participates 90 (demo_chatter ''bob'' False) ''o1'' (demo_chat_access COURIER 0)"
  unfolding participates_def using demo_participant by (metis fst_conv)+

lemma demo_sends:
  "send_message cd1 False second second (demo_chatter ''alice'' False) ''o1'' ''k1'' ''hello'' (demo_chat_access REQUESTER 0) cd1 =
     (Inr (Stored (demo_chat_message 1 ''alice'' ''k1'') True), cd2)"
  "send_message cd2 False (2 * second) (2 * second) (demo_chatter ''bob'' False) ''o1'' ''k2'' ''hello'' (demo_chat_access COURIER 0) cd2 =
     (Inr (Stored (demo_chat_message 2 ''bob'' ''k2'') True), cd3)"
  by code_simp+

lemma demo_chat_reachable: "reachable chat_start (chat_step 90 batch) cd3"
proof -
  have "reachable chat_start (chat_step 90 batch) cd0"
    by (rule reachable_init) (simp add: chat_start_def cd0_def)
  then have "reachable chat_start (chat_step 90 batch) cd1"
    by (rule reachable_step) (rule chat_step.accessed [OF demo_access(1)])
  then have "reachable chat_start (chat_step 90 batch) cd2"
    by (rule reachable_step) (rule chat_step.sent [OF demo_participates(1) order_refl _ demo_sends(1)], simp add: cd_defs)
  then show ?thesis
    by (rule reachable_step) (rule chat_step.sent [OF demo_participates(2) order_refl _ demo_sends(2)], simp add: cd_defs)
qed

section \<open>Messages\<close>

text \<open>
  C28. A channel's messages are numbered 1, 2, and so on to its latest number, in the order they were
  stored, and no sender's client id is stored twice, however requests, retries and the cleanup
  interleave.
\<close>

theorem messages_are_numbered:
  assumes "reachable chat_start (chat_step days batch) db" and "c \<in> set (channels db)"
  shows "map ms_seq (of_channel (ch_orderId c) db) = [1..ch_latestSeq c] \<and>
    distinct (map (\<lambda>m. (ms_senderId m, ms_clientId m)) (of_channel (ch_orderId c) db))"
proof -
  have ok: "numbered_ok db" using chat.holds [OF assms(1)] by (simp add: chat_ok_def)
  have "inj_on (\<lambda>m. (ms_senderId m, ms_clientId m)) (set (of_channel (ch_orderId c) db))"
  proof (rule inj_onI)
    fix x y
    assume xy: "x \<in> set (of_channel (ch_orderId c) db)" "y \<in> set (of_channel (ch_orderId c) db)"
      "(ms_senderId x, ms_clientId x) = (ms_senderId y, ms_clientId y)"
    have "inj_on (\<lambda>m. (ms_orderId m, ms_senderId m, ms_clientId m)) (set (chat_messages db))"
      using ok by (simp add: numbered_ok_def distinct_map)
    from inj_onD [OF this, of x y] xy show "x = y" by (auto simp: of_channel_def)
  qed
  moreover have "distinct (of_channel (ch_orderId c) db)"
    using ok by (simp add: numbered_ok_def of_channel_def distinct_map)
  ultimately show ?thesis using ok assms(2) by (simp add: numbered_ok_def distinct_map)
qed

theorem messages_are_numbered_witness:
  "map ms_seq (of_channel ''o1'' cd3) = [1..2] \<and> distinct (map (\<lambda>m. (ms_senderId m, ms_clientId m)) (of_channel ''o1'' cd3))"
  using messages_are_numbered [OF demo_chat_reachable, of "hd (channels cd3)"] by (simp add: cd_defs)

text \<open>
  C29. No sender gets more than 20 messages into any minute: of what is stored, in any window of 60
  seconds, over all channels together, at most the limit is from one sender.
\<close>

theorem senders_are_paced:
  assumes "reachable chat_start (chat_step days batch) db"
  shows "length (filter (\<lambda>m. ms_senderId m = s \<and> t - SEND_WINDOW < ms_sentAt m \<and> ms_sentAt m \<le> t) (chat_messages db))
    \<le> SEND_LIMIT_MESSAGES"
  using chat.holds [OF assms] by (simp add: chat_ok_def paced_ok_def sent_within_def)

theorem senders_are_paced_witness:
  "length (filter (\<lambda>m. ms_senderId m = ''bob'' \<and> 2 * second - SEND_WINDOW < ms_sentAt m \<and> ms_sentAt m \<le> 2 * second) (chat_messages cd3))
    \<le> SEND_LIMIT_MESSAGES"
  by (rule senders_are_paced [OF demo_chat_reachable])

section \<open>Who writes and who reads\<close>

lemma chat_role_participant:
  "chat_role_of order caller = Some role \<Longrightarrow> role \<noteq> ADMIN_READER \<Longrightarrow>
     cc_userId caller = of_requesterId order \<or> Some (cc_userId caller) = of_courierId order"
  by (auto simp: chat_role_of_def split: if_splits)

text \<open>
  C30. Only the errand's people write. A message is stored only for a caller whom the Order Service
  just named as the errand's requester or its courier, of an errand that has a courier and has not
  ended; it is stored under the caller's own id, as sent, after everything before it.
\<close>

theorem only_participants_write:
  assumes "participantAccess now0 days answer caller orderId db0 = (Inr a, db1)"
    and "send_message seen waited now stamp caller orderId clientId body a db = (r, db')"
    and "r = Inr (Stored m True)"
  shows "\<exists>order. upstream_order answer = Inr (Some order) \<and>
      (cc_userId caller = of_requesterId order \<or> Some (cc_userId caller) = of_courierId order) \<and>
      of_courierId order \<noteq> None \<and> of_endedAt order = None \<and>
      chat_messages db' = chat_messages db @ [m] \<and> ms_orderId m = orderId \<and> ms_senderId m = cc_userId caller \<and>
      ms_clientId m = clientId \<and> ms_body m = body"
proof -
  from assms(1) have acc: "access now0 days answer caller orderId db0 = (Inr a, db1)" and role: "ac_role a \<noteq> ADMIN_READER"
    by (auto simp: participantAccess_def split: prod.splits sum.splits if_splits)
  note facts = access_Inr [OF acc]
  from assms(2) show ?thesis
  proof (cases rule: send_message_cases)
    case nothing
    with assms(3) show ?thesis by simp
  next
    case (tried s)
    from tried(3) assms(3) have "s = Inr (Stored m True)" by simp
    from tried(2) show ?thesis
    proof (cases rule: send_cases)
      case nothing
      with \<open>s = Inr (Stored m True)\<close> show ?thesis by blast
    next
      case (stored ch x)
      with \<open>s = Inr (Stored m True)\<close> facts tried(1) chat_role_participant [OF facts(3) role] show ?thesis by auto
    qed
  qed
qed

theorem only_participants_write_witness:
  "\<exists>order. upstream_order (Answer True (Some demo_order)) = Inr (Some order) \<and>
     (''alice'' = of_requesterId order \<or> Some ''alice'' = of_courierId order) \<and>
     chat_messages cd2 = chat_messages cd1 @ [demo_chat_message 1 ''alice'' ''k1'']"
  using only_participants_write [OF demo_participant(1) demo_sends(1) refl] by (auto simp: demo_chatter_def)

lemma recordAdminRead_recorded:
  assumes "recordAdminRead i now u orderId resource c db = Inr db'"
  shows "\<exists>r \<in> set (admin_channel_reads db'). same_read u orderId resource (hour_of now) r \<and> cr_lastReadAt r = now"
proof (cases "list_ex (same_read u orderId resource (hour_of now)) (admin_channel_reads db)")
  case True
  then obtain r where "r \<in> set (admin_channel_reads db)" "same_read u orderId resource (hour_of now) r"
    by (auto simp: list_ex_iff)
  with assms True show ?thesis
    by (intro bexI [of _ "r\<lparr> cr_readCount := cr_readCount r + 1, cr_lastReadAt := now \<rparr>"])
      (auto simp: recordAdminRead_def set_update_rows same_read_def)
next
  case False
  with assms show ?thesis by (auto simp: recordAdminRead_def bindE_eq_Inr same_read_def)
qed

text \<open>
  C31. Messages are shown to the errand's requester and courier as the Order Service names them, and
  otherwise only to an administrator, whose read is then on record; past retention, to nobody.
\<close>

theorem readers_are_participants_or_recorded:
  assumes "access now0 days answer caller orderId db0 = (Inr a, db1)"
    and "messages_page i now correlation caller orderId q a db = (Inr shown, db')"
  shows "\<exists>order. upstream_order answer = Inr (Some order) \<and> \<not> pastRetention order days now0 \<and>
    (cc_userId caller = of_requesterId order \<or> Some (cc_userId caller) = of_courierId order \<or>
     cc_isAdmin caller \<and> (\<exists>r \<in> set (admin_channel_reads db'). cr_adminUserId r = cc_userId caller \<and> cr_orderId r = orderId \<and>
       cr_resource r = MESSAGES \<and> cr_readHour r = hour_of now \<and> cr_lastReadAt r = now))"
proof -
  note facts = access_Inr [OF assms(1)]
  show ?thesis
  proof (cases "ac_role a = ADMIN_READER")
    case True
    then have "recordAdminRead i now (cc_userId caller) orderId MESSAGES correlation db = Inr db'"
      using assms(2) by (auto simp: messages_page_def record_read_def split: sum.splits)
    from recordAdminRead_recorded [OF this] facts True show ?thesis
      by (auto simp: chat_role_of_def same_read_def split: if_splits)
  next
    case False
    from chat_role_participant [OF facts(3) False] facts(1,2) show ?thesis by blast
  qed
qed

theorem readers_are_participants_or_recorded_witness:
  "\<exists>shown db'. messages_page ''r1'' 0 ''c'' (demo_chatter ''admin'' True) ''o1''
      \<lparr> pg_after = None, pg_before = None, pg_limit = 20 \<rparr> (demo_chat_access ADMIN_READER 2) cd3 = (Inr shown, db') \<and>
    (\<exists>r \<in> set (admin_channel_reads db'). cr_adminUserId r = ''admin'' \<and> cr_orderId r = ''o1'' \<and> cr_resource r = MESSAGES)"
proof -
  have "\<exists>db' shown. messages_page ''r1'' 0 ''c'' (demo_chatter ''admin'' True) ''o1''
      \<lparr> pg_after = None, pg_before = None, pg_limit = 20 \<rparr> (demo_chat_access ADMIN_READER 2) cd3 = (Inr shown, db')"
    by (simp add: messages_page_def record_read_def recordAdminRead_def demo_chat_access_def cd0_def cd1_def cd3_def
        constraints.simps)
  then obtain db' shown where run: "messages_page ''r1'' 0 ''c'' (demo_chatter ''admin'' True) ''o1''
      \<lparr> pg_after = None, pg_before = None, pg_limit = 20 \<rparr> (demo_chat_access ADMIN_READER 2) cd3 = (Inr shown, db')" by blast
  from readers_are_participants_or_recorded [OF demo_access(3) run]
  have "\<exists>r \<in> set (admin_channel_reads db'). cr_adminUserId r = ''admin'' \<and> cr_orderId r = ''o1'' \<and> cr_resource r = MESSAGES"
    by (auto simp: upstream_order_def upstream_parse_def demo_order_def demo_chatter_def)
  with run show ?thesis by blast
qed

section \<open>Retention\<close>

lemma past_retention_ended:
  "past_retention_at days now answer \<longleftrightarrow>
     (\<exists>order t. upstream_order answer = Inr (Some order) \<and> of_endedAt order = Some t \<and> t < now - days * 86400000000)"
  by (auto simp: past_retention_at_def pastRetention_def DAY_def second_def split: sum.splits option.splits)

text \<open>
  C32. The cleanup deletes on a clear answer only, and forgets nothing. Whatever the Order Service
  answers, or fails to, for each channel, and whichever deletes fail: a run takes away whole
  channels, with their messages and read positions, and leaves the record of administrators' reads;
  each channel it takes is of an errand that the Order Service said ended more than the retention
  period before the run began. A run in which no delete failed has taken every such channel among
  those opened before then (the only ones it asks about), and its counts add up to these; a run
  fails only where a delete does.
\<close>

theorem sweep_deletes_what_is_past_retention:
  assumes "reachable chat_start (chat_step days' batch') db" and "0 < batch"
    and "retention_sweep days now batch answers removes db = (failed, result, db')"
  shows "((\<forall>i. removes i) \<longrightarrow> \<not> failed) \<and>
    (\<exists>gone. channels db' = filter (\<lambda>c. ch_orderId c \<notin> gone) (channels db) \<and>
      chat_messages db' = filter (\<lambda>m. ms_orderId m \<notin> gone) (chat_messages db) \<and>
      read_positions db' = filter (\<lambda>p. rp_orderId p \<notin> gone) (read_positions db) \<and>
      admin_channel_reads db' = admin_channel_reads db \<and>
      (\<forall>i \<in> gone. \<exists>order t. upstream_order (answers i) = Inr (Some order) \<and> of_endedAt order = Some t \<and>
         t < now - days * 86400000000) \<and>
      (\<not> failed \<longrightarrow>
         settled_total result = length (filter (\<lambda>c. ch_createdAt c < now - days * 86400000000) (channels db)) \<and>
         (\<forall>c order t. c \<in> set (channels db) \<and> ch_createdAt c < now - days * 86400000000 \<and>
            upstream_order (answers (ch_orderId c)) = Inr (Some order) \<and> of_endedAt order = Some t \<and>
            t < now - days * 86400000000 \<longrightarrow> ch_orderId c \<in> gone)))"
proof -
  have day: "DAY = 86400000000" by (simp add: DAY_def second_def)
  have run: "sweep_from days now batch answers removes None (noResult, db) = (failed, result, db')"
    using assms(3) by (simp add: retention_sweep_def)
  define due where "due = due_channels (now - days * DAY) None db"
  obtain gone where gone: "\<forall>i \<in> gone. past_retention_at days now (answers i)" "db' = delete_channels gone db"
    "\<not> failed \<longrightarrow> gone = {i \<in> set due. past_retention_at days now (answers i)} \<and> settled_total result = length due"
  proof (cases failed)
    case True
    with sweep_from_shape [of days now answers batch removes None "(noResult, db)"] run that show thesis by auto
  next
    case False
    have "distinct (map ch_orderId (channels db))"
      using chat.holds [OF assms(1)] by (simp add: chat_ok_def numbered_ok_def)
    with sweep_from_deletes [OF _ assms(2), of days now answers removes None "(noResult, db)" "(result, db')"] run that False show thesis
      by (simp add: settled_total_def noResult_def due_def)
  qed
  have "(\<forall>i. removes i) \<longrightarrow> \<not> failed" using sweep_never_fails [OF assms(3)] by blast
  moreover have "\<not> failed \<longrightarrow> settled_total result = length (filter (\<lambda>c. ch_createdAt c < now - days * 86400000000) (channels db)) \<and>
      (\<forall>c order t. c \<in> set (channels db) \<and> ch_createdAt c < now - days * 86400000000 \<and>
         upstream_order (answers (ch_orderId c)) = Inr (Some order) \<and> of_endedAt order = Some t \<and>
         t < now - days * 86400000000 \<longrightarrow> ch_orderId c \<in> gone)"
    using gone(3) by (auto simp: due_def due_channels_def day past_retention_ended)
  ultimately show ?thesis
    using gone(1,2) unfolding past_retention_ended by (intro conjI exI [of _ gone]) (simp_all add: delete_channels_def)
qed

definition ended_order :: order_for_chat where
  "ended_order = demo_order\<lparr> of_status := ''COMPLETED'', of_endedAt := Some (3 * second) \<rparr>"

theorem sweep_deletes_what_is_past_retention_witness:
  "\<exists>result db'. retention_sweep 90 (91 * DAY) 1 (\<lambda>_. Answer True (Some ended_order)) (\<lambda>_. True) cd3 = (False, result, db') \<and>
     channels db' = [] \<and> chat_messages db' = [] \<and> settled_total result = 1"
proof -
  let ?answers = "\<lambda>_ :: ident. Answer True (Some ended_order)"
  obtain failed result db' where run: "retention_sweep 90 (91 * DAY) 1 ?answers (\<lambda>_. True) cd3 = (failed, result, db')"
    by (metis prod_cases3)
  have up: "upstream_order (Answer True (Some ended_order)) = Inr (Some ended_order)"
    by (simp add: upstream_order_def upstream_parse_def)
  have day: "91 * DAY - 90 * 86400000000 = 86400000000" by (simp add: DAY_def second_def)
  from sweep_deletes_what_is_past_retention [OF demo_chat_reachable _ run] obtain gone where ok: "\<not> failed"
    and gone: "channels db' = filter (\<lambda>c. ch_orderId c \<notin> gone) (channels cd3)"
      "chat_messages db' = filter (\<lambda>m. ms_orderId m \<notin> gone) (chat_messages cd3)"
      "settled_total result = length (filter (\<lambda>c. ch_createdAt c < 86400000000) (channels cd3))"
      "\<And>c order t. c \<in> set (channels cd3) \<Longrightarrow> ch_createdAt c < 86400000000 \<Longrightarrow> Some ended_order = Some order \<Longrightarrow>
         of_endedAt order = Some t \<Longrightarrow> t < 86400000000 \<Longrightarrow> ch_orderId c \<in> gone"
    unfolding day up by auto
  have "''o1'' \<in> gone"
    using gone(4) [OF _ _ refl, of "hd (channels cd3)" "3 * second"] by (simp add: cd_defs ended_order_def second_def)
  with gone(1-3) ok run show ?thesis by (auto simp: cd_defs)
qed

end
