(* ===== verification/Supplier_Hours.thy ===== *)
theory Supplier_Hours
  imports Event_Catalogue "HOL-Library.Multiset"
begin

text \<open>
  The opening hours of a supplier (supplier-service/src/suppliers/validation.ts and types.ts): the
  shape of a period, where it falls in the week, and the schema that refuses hours which overlap.
  The reference they are compared with is \<open>open_at\<close>: whether a period is open at a minute of a week
  that has no beginning.

  An entry has the right JSON types; its texts are checked here. What the schema reports beside an
  entry that is no period at all is not modelled.
\<close>

section \<open>Days and times\<close>

datatype weekday = MON | TUE | WED | THU | FRI | SAT | SUN

definition DAYS :: "weekday list" where
  "DAYS = [MON, TUE, WED, THU, FRI, SAT, SUN]"

fun indexOf :: "'a list \<Rightarrow> 'a \<Rightarrow> int" where
  "indexOf [] x = - 1"
| "indexOf (y # ys) x = (if y = x then 0 else let i = indexOf ys x in if i = - 1 then - 1 else i + 1)"

fun day_name :: "weekday \<Rightarrow> string" where
  "day_name MON = ''MON''"
| "day_name TUE = ''TUE''"
| "day_name WED = ''WED''"
| "day_name THU = ''THU''"
| "day_name FRI = ''FRI''"
| "day_name SAT = ''SAT''"
| "day_name SUN = ''SUN''"

definition parse_day :: "string \<Rightarrow> weekday option" where
  "parse_day s = find (\<lambda>d. day_name d = s) DAYS"

definition in_chars :: "char \<Rightarrow> char \<Rightarrow> char \<Rightarrow> bool" where
  "in_chars lo hi c \<longleftrightarrow> (of_char lo :: nat) \<le> of_char c \<and> (of_char c :: nat) \<le> of_char hi"

definition digit :: "char \<Rightarrow> bool" where
  "digit c \<longleftrightarrow> in_chars CHR ''0'' CHR ''9'' c"

fun HHMM :: "string \<Rightarrow> bool" where
  "HHMM [a, b, c, d, e] \<longleftrightarrow>
     (in_chars CHR ''0'' CHR ''1'' a \<and> digit b \<or> a = CHR ''2'' \<and> in_chars CHR ''0'' CHR ''3'' b) \<and>
     c = CHR '':'' \<and> in_chars CHR ''0'' CHR ''5'' d \<and> digit e"
| "HHMM _ \<longleftrightarrow> False"

text \<open>\<open>Number\<close> of a text of decimal digits.\<close>

definition digit_value :: "char \<Rightarrow> int" where
  "digit_value c = int (of_char c) - 48"

definition decimal :: "string \<Rightarrow> int" where
  "decimal s = foldl (\<lambda>n c. 10 * n + digit_value c) 0 s"

definition minutes :: "string \<Rightarrow> int" where
  "minutes t = decimal (take 2 t) * 60 + decimal (drop 3 t)"

section \<open>Periods\<close>

record raw_period =
  rh_day :: string
  rh_opens :: string
  rh_closes :: string

record period =
  hp_day :: weekday
  hp_opens :: string
  hp_closes :: string

definition openingHoursEntry :: "raw_period \<Rightarrow> period option" where
  "openingHoursEntry r =
     (case parse_day (rh_day r) of
        None \<Rightarrow> None
      | Some d \<Rightarrow> if HHMM (rh_opens r) \<and> HHMM (rh_closes r)
                  then Some \<lparr> hp_day = d, hp_opens = rh_opens r, hp_closes = rh_closes r \<rparr> else None)"

definition MAX_PERIODS_PER_DAY :: nat where
  "MAX_PERIODS_PER_DAY = 4"

definition MINUTES_PER_DAY :: int where
  "MINUTES_PER_DAY = 24 * 60"

definition MINUTES_PER_WEEK :: int where
  "MINUTES_PER_WEEK = int (length DAYS) * MINUTES_PER_DAY"

definition spansOfTheWeek :: "period \<Rightarrow> (int \<times> int) list" where
  "spansOfTheWeek p =
     (let midnight = indexOf DAYS (hp_day p) * MINUTES_PER_DAY;
          opn = minutes (hp_opens p);
          close = (if hp_closes p = ''23:59'' then MINUTES_PER_DAY else minutes (hp_closes p));
          start = midnight + opn;
          fin = midnight + (if close > opn then close else close + MINUTES_PER_DAY)
      in if fin \<le> MINUTES_PER_WEEK then [(start, fin)]
         else [(start, MINUTES_PER_WEEK), (0, fin - MINUTES_PER_WEEK)])"

section \<open>The schema\<close>

datatype hours_code = EMPTY_PERIOD | TOO_MANY_PERIODS | OVERLAPPING_HOURS

definition clashes :: "(int \<times> int) list \<Rightarrow> period \<times> (int \<times> int) list \<Rightarrow> bool" where
  "clashes spans other =
     list_ex (\<lambda>(start, fin). list_ex (\<lambda>(s, e). s < fin \<and> start < e) spans) (snd other)"

text \<open>One entry against those accepted before it: what it is refused for, if anything.\<close>

definition refused_for :: "(period \<times> (int \<times> int) list) list \<Rightarrow> period \<Rightarrow> hours_code option" where
  "refused_for seen p =
     (if hp_opens p = hp_closes p then Some EMPTY_PERIOD
      else if length (filter (\<lambda>other. hp_day (fst other) = hp_day p) seen) = MAX_PERIODS_PER_DAY then Some TOO_MANY_PERIODS
      else if list_ex (clashes (spansOfTheWeek p)) seen then Some OVERLAPPING_HOURS
      else None)"

fun refine_hours :: "nat \<Rightarrow> (period \<times> (int \<times> int) list) list \<Rightarrow> period list \<Rightarrow> (nat \<times> hours_code) list" where
  "refine_hours i seen [] = []"
| "refine_hours i seen (p # ps) =
     (case refused_for seen p of
        Some code \<Rightarrow> (i, code) # refine_hours (Suc i) seen ps
      | None \<Rightarrow> refine_hours (Suc i) (seen @ [(p, spansOfTheWeek p)]) ps)"

text \<open>
  \<open>localeCompare\<close> of two times is the order of their characters: digits and the colon compare by
  position in any locale.
\<close>

definition hours_order :: "period \<Rightarrow> int \<times> string" where
  "hours_order p = (indexOf DAYS (hp_day p), hp_opens p)"

datatype hours_refusal = Malformed_entry | Refused bool "(nat \<times> hours_code) list"

definition openingHoursSchema :: "raw_period list \<Rightarrow> hours_refusal + period list" where
  "openingHoursSchema raws =
     (let entries = map openingHoursEntry raws
      in if None \<in> set entries then Inl Malformed_entry
         else let ps = map the entries;
                  too_big = length DAYS * MAX_PERIODS_PER_DAY < length ps;
                  issues = refine_hours 0 [] ps
              in if too_big \<or> issues \<noteq> [] then Inl (Refused too_big issues)
                 else Inr (sort_key hours_order ps))"

section \<open>The reference: minutes of the week\<close>

text \<open>
  A period opens at its time of its day and stays open for as many minutes as lie between its two
  times on a clock face, a whole day from midnight to the end of the day.
\<close>

definition opens_at :: "period \<Rightarrow> int" where
  "opens_at p = indexOf DAYS (hp_day p) * MINUTES_PER_DAY + minutes (hp_opens p)"

definition closing :: "period \<Rightarrow> int" where
  "closing p = (if hp_closes p = ''23:59'' then MINUTES_PER_DAY else minutes (hp_closes p))"

definition open_at :: "int \<Rightarrow> period \<Rightarrow> bool" where
  "open_at m p \<longleftrightarrow> (m - opens_at p) mod MINUTES_PER_WEEK \<le> (closing p - minutes (hp_opens p) - 1) mod MINUTES_PER_DAY"

definition well_formed_period :: "period \<Rightarrow> bool" where
  "well_formed_period p \<longleftrightarrow> HHMM (hp_opens p) \<and> HHMM (hp_closes p)"

text \<open>
  Hours that fit: no period is empty, no day has more than four, and at no minute of the week are
  two of them open.
\<close>

definition proper_period :: "period \<Rightarrow> bool" where
  "proper_period p \<longleftrightarrow> well_formed_period p \<and> hp_opens p \<noteq> hp_closes p"

definition fits :: "period list \<Rightarrow> bool" where
  "fits ps \<longleftrightarrow>
     (\<forall>p \<in> set ps. proper_period p) \<and>
     (\<forall>d. length (filter (\<lambda>p. hp_day p = d) ps) \<le> 4) \<and>
     (\<forall>m. length (filter (open_at m) ps) \<le> 1)"

section \<open>Times\<close>

lemma in_chars_code:
  "in_chars lo hi c \<longleftrightarrow> (of_char lo :: nat) \<le> of_char c \<and> (of_char c :: nat) \<le> of_char hi"
  by (simp add: in_chars_def)

text \<open>A time of day, read off its four digits.\<close>

lemma HHMM_cases:
  assumes "HHMM s"
  obtains a b d e where "s = [a, b, CHR '':'', d, e]"
    "0 \<le> digit_value a" "0 \<le> digit_value b" "0 \<le> digit_value d" "0 \<le> digit_value e"
    "10 * digit_value a + digit_value b \<le> 23" "digit_value b \<le> 9" "digit_value d \<le> 5" "digit_value e \<le> 9"
    "minutes s = 600 * digit_value a + 60 * digit_value b + 10 * digit_value d + digit_value e"
proof -
  from assms obtain a b d e where s: "s = [a, b, CHR '':'', d, e]"
    and ab: "in_chars CHR ''0'' CHR ''1'' a \<and> digit b \<or> a = CHR ''2'' \<and> in_chars CHR ''0'' CHR ''3'' b"
    and d: "in_chars CHR ''0'' CHR ''5'' d" and e: "digit e"
    by (cases s rule: HHMM.cases) auto
  have "minutes s = 600 * digit_value a + 60 * digit_value b + 10 * digit_value d + digit_value e"
    by (simp add: s minutes_def decimal_def eval_nat_numeral)
  with s ab d e show thesis
    by (intro that [of a b d e]) (auto simp: in_chars_code digit_def digit_value_def)
qed

lemma minutes_range: "HHMM s \<Longrightarrow> 0 \<le> minutes s \<and> minutes s < MINUTES_PER_DAY"
  by (erule HHMM_cases) (simp add: MINUTES_PER_DAY_def)

lemma digit_value_less: "c < d \<longleftrightarrow> digit_value c < digit_value d"
  by (simp add: digit_value_def less_char_def)

lemma digit_value_inj: "digit_value c = digit_value d \<longleftrightarrow> c = d"
  by (simp add: digit_value_def)

text \<open>Times compare as texts as they do as minutes.\<close>

lemma minutes_less:
  assumes "HHMM s" and "HHMM t"
  shows "s < t \<longleftrightarrow> minutes s < minutes t"
  using assms by (elim HHMM_cases) (simp add: digit_value_less digit_value_inj [symmetric]; linarith)

lemma minutes_inj: "HHMM s \<Longrightarrow> HHMM t \<Longrightarrow> minutes s = minutes t \<Longrightarrow> s = t"
  using minutes_less [of s t] minutes_less [of t s] by (metis less_irrefl linorder_less_linear)

lemma day_index: "0 \<le> indexOf DAYS d \<and> indexOf DAYS d \<le> 6"
  by (cases d) (simp_all add: DAYS_def)

section \<open>Spans cover the minutes a period is open\<close>

definition covers :: "(int \<times> int) list \<Rightarrow> int \<Rightarrow> bool" where
  "covers spans m \<longleftrightarrow> (\<exists>(s, e) \<in> set spans. s \<le> m \<and> m < e)"

lemma closing_range:
  assumes "well_formed_period p"
  shows "0 \<le> closing p \<and> closing p \<le> MINUTES_PER_DAY"
  using assms minutes_range [of "hp_closes p"] by (auto simp: closing_def well_formed_period_def MINUTES_PER_DAY_def)

text \<open>How long a period is open, between one minute and a day.\<close>

lemma duration:
  assumes "proper_period p"
  shows "(closing p - minutes (hp_opens p) - 1) mod MINUTES_PER_DAY + 1 =
    (if closing p > minutes (hp_opens p) then closing p else closing p + MINUTES_PER_DAY) - minutes (hp_opens p)"
proof -
  let ?o = "minutes (hp_opens p)" and ?c = "closing p"
  have wf: "HHMM (hp_opens p)" "HHMM (hp_closes p)" and ne: "hp_opens p \<noteq> hp_closes p"
    using assms by (simp_all add: proper_period_def well_formed_period_def)
  have o: "0 \<le> ?o" "?o < 1440" using minutes_range [OF wf(1)] by (simp_all add: MINUTES_PER_DAY_def)
  have c: "0 \<le> ?c" "?c \<le> 1440"
    using closing_range assms by (simp_all add: proper_period_def MINUTES_PER_DAY_def)
  have "?c \<noteq> ?o"
    using minutes_inj [OF wf] ne o by (auto simp: closing_def MINUTES_PER_DAY_def split: if_splits)
  then consider "?o < ?c" | "?c < ?o" by linarith
  then show ?thesis
  proof cases
    case 1
    with o c have "(?c - ?o - 1) mod 1440 = ?c - ?o - 1" by (intro mod_pos_pos_trivial) auto
    with 1 show ?thesis by (simp add: MINUTES_PER_DAY_def)
  next
    case 2
    have "(?c - ?o - 1) mod 1440 = (?c - ?o - 1 + 1440) mod 1440" by (rule mod_add_self2 [symmetric])
    also have "\<dots> = ?c - ?o - 1 + 1440" using 2 o c by (intro mod_pos_pos_trivial) auto
    finally show ?thesis using 2 by (simp add: MINUTES_PER_DAY_def)
  qed
qed

lemma mod_week_shift:
  fixes m s w :: int
  assumes "0 \<le> m" "m < w" "0 \<le> s" "s < w"
  shows "(m - s) mod w = (if s \<le> m then m - s else m - s + w)"
proof (cases "s \<le> m")
  case True
  with assms show ?thesis by (simp add: mod_pos_pos_trivial)
next
  case False
  have "(m - s) mod w = (m - s + w) mod w" by simp
  also have "\<dots> = m - s + w" using False assms by (intro mod_pos_pos_trivial) auto
  finally show ?thesis using False by simp
qed

lemma opens_at_range: "well_formed_period p \<Longrightarrow> 0 \<le> opens_at p \<and> opens_at p < MINUTES_PER_WEEK"
  using minutes_range [of "hp_opens p"] day_index [of "hp_day p"]
  by (auto simp: opens_at_def well_formed_period_def MINUTES_PER_WEEK_def MINUTES_PER_DAY_def DAYS_def)

text \<open>The spans of a period: one of its length, or two where it runs over the end of the week.\<close>

definition open_for :: "period \<Rightarrow> int" where
  "open_for p = (closing p - minutes (hp_opens p) - 1) mod MINUTES_PER_DAY + 1"

lemma open_for_range: "0 < open_for p" "open_for p \<le> MINUTES_PER_DAY"
  using pos_mod_sign [of MINUTES_PER_DAY "closing p - minutes (hp_opens p) - 1"]
    pos_mod_bound [of MINUTES_PER_DAY "closing p - minutes (hp_opens p) - 1"]
  by (simp_all add: open_for_def MINUTES_PER_DAY_def)

lemma spans_form:
  assumes "proper_period p"
  shows "spansOfTheWeek p =
    (if opens_at p + open_for p \<le> MINUTES_PER_WEEK then [(opens_at p, opens_at p + open_for p)]
     else [(opens_at p, MINUTES_PER_WEEK), (0, opens_at p + open_for p - MINUTES_PER_WEEK)])"
  unfolding open_for_def duration [OF assms] by (simp add: spansOfTheWeek_def Let_def opens_at_def closing_def)

lemma week_positive: "0 < MINUTES_PER_WEEK" "MINUTES_PER_DAY \<le> MINUTES_PER_WEEK"
  by (simp_all add: MINUTES_PER_WEEK_def MINUTES_PER_DAY_def DAYS_def)

lemma spans_cover:
  assumes p: "proper_period p" and m: "0 \<le> m" "m < MINUTES_PER_WEEK"
  shows "covers (spansOfTheWeek p) m \<longleftrightarrow> open_at m p"
proof -
  have wf: "well_formed_period p" using p by (simp add: proper_period_def)
  have s: "0 \<le> opens_at p" "opens_at p < MINUTES_PER_WEEK" using opens_at_range [OF wf] by simp_all
  have "open_at m p \<longleftrightarrow> (if opens_at p \<le> m then m - opens_at p else m - opens_at p + MINUTES_PER_WEEK) < open_for p"
    unfolding open_at_def mod_week_shift [OF m s] open_for_def by linarith
  then show ?thesis
    unfolding spans_form [OF p] covers_def using m s open_for_range [of p] week_positive by auto
qed

lemma spans_proper:
  assumes "proper_period p" and "(s, e) \<in> set (spansOfTheWeek p)"
  shows "0 \<le> s \<and> s < e \<and> e \<le> MINUTES_PER_WEEK"
  using assms(2) opens_at_range [of p] open_for_range [of p] week_positive assms(1)
  unfolding spans_form [OF assms(1)] by (auto simp: proper_period_def split: if_splits)

lemma clashesI:
  "(s, e) \<in> set spans \<Longrightarrow> (s', e') \<in> set (snd other) \<Longrightarrow> s < e' \<Longrightarrow> s' < e \<Longrightarrow> clashes spans other"
  by (force simp: clashes_def list_ex_iff)

text \<open>Two periods clash exactly if there is a minute at which both are open.\<close>

lemma clash_is_common_minute:
  assumes p: "proper_period p" and q: "proper_period q"
  shows "clashes (spansOfTheWeek p) (q, spansOfTheWeek q) \<longleftrightarrow> (\<exists>m. open_at m p \<and> open_at m q)"
proof
  assume "clashes (spansOfTheWeek p) (q, spansOfTheWeek q)"
  then obtain s e s' e' where in_spans: "(s, e) \<in> set (spansOfTheWeek p)" "(s', e') \<in> set (spansOfTheWeek q)"
    and "s < e'" "s' < e"
    by (auto simp: clashes_def list_ex_iff)
  moreover from this have "s < e" "s' < e'" "0 \<le> s" "e \<le> MINUTES_PER_WEEK" "e' \<le> MINUTES_PER_WEEK"
    using spans_proper [OF p] spans_proper [OF q] by blast+
  ultimately have "covers (spansOfTheWeek p) (max s s')" "covers (spansOfTheWeek q) (max s s')"
    "0 \<le> max s s'" "max s s' < MINUTES_PER_WEEK"
    by (auto simp: covers_def intro: bexI [OF _ in_spans(1)] bexI [OF _ in_spans(2)])
  with spans_cover [OF p] spans_cover [OF q] show "\<exists>m. open_at m p \<and> open_at m q" by blast
next
  assume "\<exists>m. open_at m p \<and> open_at m q"
  then obtain m where m: "open_at m p" "open_at m q" by blast
  let ?m = "m mod MINUTES_PER_WEEK"
  have "open_at ?m r \<longleftrightarrow> open_at m r" for r by (simp add: open_at_def mod_diff_left_eq)
  moreover have "0 \<le> ?m" "?m < MINUTES_PER_WEEK" by (simp_all add: MINUTES_PER_WEEK_def MINUTES_PER_DAY_def DAYS_def)
  ultimately have "covers (spansOfTheWeek p) ?m" "covers (spansOfTheWeek q) ?m"
    using m spans_cover [OF p] spans_cover [OF q] by simp_all
  then obtain s e s' e' where "(s, e) \<in> set (spansOfTheWeek p)" "s \<le> ?m" "?m < e"
    and "(s', e') \<in> set (spansOfTheWeek q)" "s' \<le> ?m" "?m < e'"
    unfolding covers_def by blast
  moreover from this have "s < e'" "s' < e" by linarith+
  ultimately show "clashes (spansOfTheWeek p) (q, spansOfTheWeek q)"
    by (intro clashesI [of s e _ s' e']) simp_all
qed

section \<open>The schema accepts the hours that fit\<close>

definition marked :: "period list \<Rightarrow> (period \<times> (int \<times> int) list) list" where
  "marked ps = map (\<lambda>p. (p, spansOfTheWeek p)) ps"

lemma marked_simps [simp]: "marked [] = []" "marked (ps @ [p]) = marked ps @ [(p, spansOfTheWeek p)]"
  by (simp_all add: marked_def)

lemma fits_prefix:
  assumes "fits (ps @ qs)"
  shows "fits ps"
proof -
  have "length (filter P ps) \<le> length (filter P (ps @ qs))" for P by simp
  then have "length (filter P (ps @ qs)) \<le> n \<Longrightarrow> length (filter P ps) \<le> n" for P n by (meson le_trans)
  with assms show ?thesis unfolding fits_def by (metis UnCI set_append)
qed

lemma no_clash:
  assumes "fits ps" and "proper_period p"
  shows "list_ex (clashes (spansOfTheWeek p)) (marked ps) \<longleftrightarrow> \<not> (\<forall>m. open_at m p \<longrightarrow> filter (open_at m) ps = [])"
proof -
  have "clashes (spansOfTheWeek p) (q, spansOfTheWeek q) \<longleftrightarrow> (\<exists>m. open_at m p \<and> open_at m q)" if "q \<in> set ps" for q
    using assms that by (intro clash_is_common_minute) (auto simp: fits_def)
  then show ?thesis by (auto simp: marked_def list_ex_iff filter_empty_conv)
qed

lemma accepted_entry:
  assumes "fits ps" and "well_formed_period p"
  shows "refused_for (marked ps) p = None \<longleftrightarrow> fits (ps @ [p])"
proof (cases "hp_opens p = hp_closes p")
  case True
  then show ?thesis by (simp add: refused_for_def fits_def proper_period_def)
next
  case False
  with assms have p: "proper_period p" by (simp add: proper_period_def)
  have days: "length (filter (\<lambda>q. hp_day q = d) ps) \<le> 4" for d using assms by (simp add: fits_def)
  have one: "length (filter (open_at m) ps) \<le> 1" for m using assms by (simp add: fits_def)
  have "length (filter (\<lambda>other. hp_day (fst other) = hp_day p) (marked ps)) = length (filter (\<lambda>q. hp_day q = hp_day p) ps)"
    by (simp add: marked_def filter_map comp_def)
  then have "refused_for (marked ps) p = None \<longleftrightarrow>
      length (filter (\<lambda>q. hp_day q = hp_day p) ps) \<noteq> 4 \<and> (\<forall>m. open_at m p \<longrightarrow> filter (open_at m) ps = [])"
    using False no_clash [OF assms(1) p] by (auto simp: refused_for_def MAX_PERIODS_PER_DAY_def)
  also have "\<dots> \<longleftrightarrow> fits (ps @ [p])"
  proof -
    have "(\<forall>d. length (filter (\<lambda>q. hp_day q = d) (ps @ [p])) \<le> 4) \<longleftrightarrow> length (filter (\<lambda>q. hp_day q = hp_day p) ps) \<noteq> 4"
      (is "?all \<longleftrightarrow> ?today")
    proof
      show "?all \<Longrightarrow> ?today" by (drule spec [of _ "hp_day p"]) simp
      assume ?today
      with days [of "hp_day p"] have "length (filter (\<lambda>q. hp_day q = hp_day p) ps) \<le> 3" by simp
      with days show ?all by simp
    qed
    moreover have "length (filter (open_at m) (ps @ [p])) \<le> 1 \<longleftrightarrow> (open_at m p \<longrightarrow> filter (open_at m) ps = [])" for m
      using one [of m] by auto
    moreover have "\<forall>q \<in> set (ps @ [p]). proper_period q" using assms(1) p by (auto simp: fits_def)
    ultimately show ?thesis unfolding fits_def by blast
  qed
  finally show ?thesis .
qed

lemma refine_hours_empty:
  assumes "fits ps" and "\<forall>q \<in> set qs. well_formed_period q"
  shows "refine_hours i (marked ps) qs = [] \<longleftrightarrow> fits (ps @ qs)"
  using assms
proof (induction qs arbitrary: i ps)
  case Nil
  then show ?case by simp
next
  case (Cons q qs)
  then have step: "refused_for (marked ps) q = None \<longleftrightarrow> fits (ps @ [q])" by (intro accepted_entry) auto
  show ?case
  proof (cases "refused_for (marked ps) q")
    case None
    with Cons step show ?thesis using Cons.IH [of "ps @ [q]" "Suc i"] by simp
  next
    case (Some code)
    with step have "\<not> fits (ps @ q # qs)" using fits_prefix [of "ps @ [q]" qs] by auto
    with Some show ?thesis by simp
  qed
qed

lemma openingHoursEntry_well_formed: "openingHoursEntry r = Some p \<Longrightarrow> well_formed_period p"
  by (auto simp: openingHoursEntry_def well_formed_period_def split: option.splits if_splits)

lemma fits_perm: "mset ps = mset qs \<Longrightarrow> fits ps \<longleftrightarrow> fits qs"
  unfolding fits_def by (metis mset_eq_setD mset_filter size_mset)

text \<open>Read entries are accepted exactly if they fit, in any order, and come back by when they open.\<close>

lemma fits_distinct_starts: "\<forall>m. length (filter (open_at m) ps) \<le> 1 \<Longrightarrow> distinct (map opens_at ps)"
proof (induction ps)
  case Nil
  then show ?case by simp
next
  case (Cons p ps)
  have opens: "open_at (opens_at q) q" for q by (simp add: open_at_def) (simp add: MINUTES_PER_DAY_def)
  have "length (filter (open_at m) ps) \<le> 1" for m
    using Cons.prems [rule_format, of m] by (simp split: if_splits)
  moreover have "filter (open_at (opens_at p)) ps = []"
    using Cons.prems [rule_format, of "opens_at p"] opens [of p] by simp
  then have "opens_at q \<noteq> opens_at p" if "q \<in> set ps" for q
    using opens [of q] that by (auto simp: filter_empty_conv)
  ultimately show ?case using Cons.IH by (fastforce dest: sym)
qed

lemma hours_order_opens_at:
  assumes "well_formed_period p" and "well_formed_period q"
  shows "hours_order p \<le> hours_order q \<longleftrightarrow> opens_at p \<le> opens_at q"
proof -
  have m: "minutes (hp_opens p) < MINUTES_PER_DAY" "minutes (hp_opens q) < MINUTES_PER_DAY"
    "0 \<le> minutes (hp_opens p)" "0 \<le> minutes (hp_opens q)"
    using assms minutes_range by (auto simp: well_formed_period_def)
  have texts: "hp_opens p \<le> hp_opens q \<longleftrightarrow> minutes (hp_opens p) \<le> minutes (hp_opens q)"
    using assms minutes_less [of "hp_opens q" "hp_opens p"] by (auto simp: well_formed_period_def not_less [symmetric])
  let ?i = "indexOf DAYS (hp_day p)" and ?j = "indexOf DAYS (hp_day q)"
  consider "?i + 1 \<le> ?j" | "?i = ?j" | "?j + 1 \<le> ?i" by linarith
  then show ?thesis
  proof cases
    case 1
    then have "(?i + 1) * MINUTES_PER_DAY \<le> ?j * MINUTES_PER_DAY" by (intro mult_right_mono) (simp_all add: MINUTES_PER_DAY_def)
    with 1 m show ?thesis by (simp add: hours_order_def opens_at_def less_eq_prod_simp distrib_right)
  next
    case 2
    then show ?thesis using texts by (simp add: hours_order_def opens_at_def less_eq_prod_simp)
  next
    case 3
    then have "(?j + 1) * MINUTES_PER_DAY \<le> ?i * MINUTES_PER_DAY" by (intro mult_right_mono) (simp_all add: MINUTES_PER_DAY_def)
    with 3 m show ?thesis by (simp add: hours_order_def opens_at_def less_eq_prod_simp distrib_right)
  qed
qed

lemma sorted_by_opening:
  assumes "\<forall>p \<in> set ps. well_formed_period p"
  shows "sorted (map opens_at (sort_key hours_order ps))"
proof -
  have "sorted_wrt (\<lambda>p q. hours_order p \<le> hours_order q) (sort_key hours_order ps)"
    using sorted_sort_key [of hours_order ps] by (simp add: sorted_map)
  then show ?thesis
    using assms hours_order_opens_at by (simp add: sorted_map) (erule sorted_wrt_mono_rel [rotated], auto)
qed

text \<open>Four periods a day are 28 a week: hours that fit never meet the limit on the whole list.\<close>

lemma length_by_day: "length ps = (\<Sum>d\<leftarrow>DAYS. length (filter (\<lambda>p. hp_day p = d) ps))"
proof (induction ps)
  case Nil
  then show ?case by (simp add: DAYS_def)
next
  case (Cons p ps)
  then show ?case by (cases "hp_day p") (simp_all add: DAYS_def)
qed

lemma fits_length:
  assumes "fits ps"
  shows "length ps \<le> 28"
proof -
  have "(\<Sum>d\<leftarrow>DAYS. length (filter (\<lambda>p. hp_day p = d) ps)) \<le> (\<Sum>d\<leftarrow>DAYS. 4)"
    by (rule sum_list_mono) (use assms in \<open>simp add: fits_def\<close>)
  then show ?thesis unfolding length_by_day [of ps] by (simp add: DAYS_def)
qed

lemma entries_read: "None \<notin> set xs \<Longrightarrow> map Some (map the xs) = xs"
  by (induction xs) auto

lemma openingHoursSchema_iff:
  "openingHoursSchema raws = Inr hs \<longleftrightarrow>
     (\<exists>ps. map openingHoursEntry raws = map Some ps \<and> fits ps \<and> hs = sort_key hours_order ps)"
proof (cases "None \<in> set (map openingHoursEntry raws)")
  case True
  then have "map openingHoursEntry raws \<noteq> map Some ps" for ps by (metis ex_map_conv option.distinct(1))
  with True show ?thesis by (simp add: openingHoursSchema_def Let_def)
next
  case False
  define ps where "ps = map the (map openingHoursEntry raws)"
  have read: "map openingHoursEntry raws = map Some ps" unfolding ps_def by (rule entries_read [OF False, symmetric])
  have unique: "map openingHoursEntry raws = map Some qs \<Longrightarrow> qs = ps" for qs
    unfolding read by (simp add: inj_map_eq_map)
  have "well_formed_period p" if "p \<in> set ps" for p
  proof -
    have "Some p \<in> set (map openingHoursEntry raws)" using that read by simp
    then show ?thesis by (auto intro: openingHoursEntry_well_formed [OF sym])
  qed
  then have "refine_hours 0 [] ps = [] \<longleftrightarrow> fits ps"
    using refine_hours_empty [of "[]" ps 0] by (simp add: fits_def)
  moreover have "fits ps \<Longrightarrow> \<not> length DAYS * MAX_PERIODS_PER_DAY < length ps"
    using fits_length [of ps] by (simp add: DAYS_def MAX_PERIODS_PER_DAY_def)
  moreover have "openingHoursSchema raws =
      (if length DAYS * MAX_PERIODS_PER_DAY < length ps \<or> refine_hours 0 [] ps \<noteq> []
       then Inl (Refused (length DAYS * MAX_PERIODS_PER_DAY < length ps) (refine_hours 0 [] ps))
       else Inr (sort_key hours_order ps))"
    using False by (simp only: openingHoursSchema_def Let_def ps_def if_False)
  ultimately have "openingHoursSchema raws = Inr hs \<longleftrightarrow> fits ps \<and> hs = sort_key hours_order ps" by auto
  with read unique show ?thesis by blast
qed

lemma fits_sorted:
  assumes "fits ps"
  shows "sorted_wrt (<) (map opens_at (sort_key hours_order ps))"
proof -
  have "fits (sort_key hours_order ps)" using assms fits_perm [of "sort_key hours_order ps" ps] by simp
  then have "distinct (map opens_at (sort_key hours_order ps))"
    by (intro fits_distinct_starts) (simp add: fits_def)
  moreover have "sorted (map opens_at (sort_key hours_order ps))"
    using assms by (intro sorted_by_opening) (auto simp: fits_def proper_period_def)
  ultimately show ?thesis by (simp add: strict_sorted_iff)
qed

end
