(* ===== verification/Supplier_Buildings.thy ===== *)
theory Supplier_Buildings
  imports Foc_Prelude
begin

text \<open>
  The campus buildings (supplier-service/src/suppliers/campus-buildings.ts) and how a spelling is
  resolved onto one of them (supplier-service/src/admin/normalize.ts).
\<close>

section \<open>Buildings and spellings\<close>

definition prince_georges_park :: string where
  "prince_georges_park = ''Prince George'' @ [CHR 0x27] @ ''s Park''"

definition CAMPUS_BUILDINGS :: "string list" where
  "CAMPUS_BUILDINGS =
    [''Block AS8'', ''Central Library'', ''COM2'', ''COM3'', ''Engineering Block E3'', ''Engineering Block E4'',
     ''Engineering Block EA'', ''Frontier'', ''Hon Sui Sen Memorial Library'', ''Innovation 4.0'', ''Kent Ridge MRT'',
     ''Medicine+Science Library'', prince_georges_park, ''Techno Edge'', ''Terrace'', ''The Deck'', ''The Ridge'',
     ''University Town'', ''Yusof Ishak House'']"

text \<open>
  \<open>tidyBuilding\<close>: the apostrophe variants (of which Latin-1 has the grave and the acute accent)
  become one, a run of white space one blank, and none is left at the ends.
\<close>

definition apostrophe :: "char \<Rightarrow> char" where
  "apostrophe c = (if c = CHR 0x60 \<or> c = CHR 0xB4 then CHR 0x27 else c)"

function collapse :: "string \<Rightarrow> string" where
  "collapse [] = []"
| "collapse (c # cs) = (if js_space c then CHR '' '' # collapse (dropWhile js_space cs) else c # collapse cs)"
  by pat_completeness auto

termination collapse
  by (relation "measure length") (auto simp: less_Suc_eq_le length_dropWhile_le)

definition tidyBuilding :: "string \<Rightarrow> string" where
  "tidyBuilding raw = trim (collapse (map apostrophe raw))"

definition buildingKey :: "string \<Rightarrow> string" where
  "buildingKey raw = toLowerCase (tidyBuilding raw)"

definition BUILDING_MAP :: "(string \<times> string) list" where
  "BUILDING_MAP =
    [(''com 2'', ''COM2''), (''com2'', ''COM2''), (''com3'', ''COM3''),
     (''prince george'' @ [CHR 0x27] @ ''s park'', prince_georges_park),
     (''innovation4.0'', ''Innovation 4.0''), (''innovation 4.0'', ''Innovation 4.0''),
     (''blk as8'', ''Block AS8''), (''block as8'', ''Block AS8''),
     (''terrace'', ''Terrace''), (''the terrace'', ''Terrace'')]"

text \<open>A \<open>Map\<close> built from entries keeps the last of a key.\<close>

definition CANONICAL_BUILDINGS :: "string \<Rightarrow> string option" where
  "CANONICAL_BUILDINGS = map_of (rev (map (\<lambda>b. (buildingKey b, b)) CAMPUS_BUILDINGS @ BUILDING_MAP))"

definition normalizeBuilding :: "string \<Rightarrow> string" where
  "normalizeBuilding raw =
     (case CANONICAL_BUILDINGS (buildingKey raw) of Some b \<Rightarrow> b | None \<Rightarrow> tidyBuilding raw)"

section \<open>Tidying once is enough\<close>

definition tidy_spaces :: "string \<Rightarrow> bool" where
  "tidy_spaces s \<longleftrightarrow> (\<forall>c \<in> set s. js_space c \<longrightarrow> c = CHR '' '') \<and> successively (\<lambda>a b. \<not> (js_space a \<and> js_space b)) s"

lemma js_space_blank [simp]: "js_space CHR '' ''"
  by (simp add: js_space_def)

lemma apostrophe_idem [simp]: "apostrophe (apostrophe c) = apostrophe c"
  by (simp add: apostrophe_def)

lemma collapse_head: "cs = [] \<or> \<not> js_space (hd cs) \<Longrightarrow> collapse cs = [] \<or> \<not> js_space (hd (collapse cs))"
  by (cases cs) auto

lemma tidy_spaces_Cons:
  "tidy_spaces (c # cs) \<longleftrightarrow>
     (js_space c \<longrightarrow> c = CHR '' '') \<and> tidy_spaces cs \<and> (cs = [] \<or> \<not> (js_space c \<and> js_space (hd cs)))"
  by (auto simp: tidy_spaces_def successively_Cons)

lemma collapse_tidy: "tidy_spaces (collapse s)"
proof (induction s rule: collapse.induct)
  case 1
  then show ?case by (simp add: tidy_spaces_def)
next
  case (2 c cs)
  have "collapse (dropWhile js_space cs) = [] \<or> \<not> js_space (hd (collapse (dropWhile js_space cs)))"
    by (rule collapse_head) (metis hd_dropWhile)
  with 2 show ?case by (auto simp: tidy_spaces_Cons)
qed

lemma collapse_id: "tidy_spaces s \<Longrightarrow> collapse s = s"
proof (induction s)
  case Nil
  then show ?case by simp
next
  case (Cons c cs)
  then have "js_space c \<Longrightarrow> dropWhile js_space cs = cs" by (cases cs) (auto simp: tidy_spaces_Cons)
  with Cons show ?case by (auto simp: tidy_spaces_Cons)
qed

lemma tidy_spaces_append: "tidy_spaces (xs @ ys) \<Longrightarrow> tidy_spaces xs \<and> tidy_spaces ys"
  by (auto simp: tidy_spaces_def successively_append_iff)

lemma trim_infix: "\<exists>pre post. s = pre @ trim s @ post"
proof -
  let ?t = "dropWhile js_space s"
  have "s = takeWhile js_space s @ ?t" by simp
  moreover have "rev ?t = takeWhile js_space (rev ?t) @ dropWhile js_space (rev ?t)" by simp
  then have "?t = trim s @ rev (takeWhile js_space (rev ?t))" unfolding trim_def by (metis rev_append rev_rev_ident)
  ultimately show ?thesis by metis
qed

lemma tidy_spaces_trim: "tidy_spaces s \<Longrightarrow> tidy_spaces (trim s)"
  using trim_infix [of s] by (metis tidy_spaces_append)

lemma set_trim: "set (trim s) \<subseteq> set s"
  using trim_infix [of s] by (metis Un_upper1 Un_upper2 le_supI2 set_append)

lemma set_collapse: "set (collapse s) \<subseteq> insert CHR '' '' (set s)"
  by (induction s rule: collapse.induct) (auto dest: set_dropWhileD)

lemma dropWhile_hd: "xs = [] \<or> \<not> P (hd xs) \<Longrightarrow> dropWhile P xs = xs"
  by (cases xs) auto

lemma trim_id: "s = [] \<or> \<not> js_space (hd s) \<and> \<not> js_space (last s) \<Longrightarrow> trim s = s"
  by (auto simp: trim_def dropWhile_hd hd_rev)

lemma trim_ends: "trim s = [] \<or> \<not> js_space (hd (trim s)) \<and> \<not> js_space (last (trim s))"
proof (cases "trim s = []")
  case False
  let ?t = "dropWhile js_space s"
  from False have t: "dropWhile js_space (rev ?t) \<noteq> []" by (simp add: trim_def)
  then have "\<not> js_space (last (trim s))" by (simp add: trim_def last_rev hd_dropWhile)
  moreover have "hd (trim s) = hd ?t"
  proof -
    have "rev ?t = takeWhile js_space (rev ?t) @ dropWhile js_space (rev ?t)" by simp
    then have "?t = trim s @ rev (takeWhile js_space (rev ?t))" unfolding trim_def by (metis rev_append rev_rev_ident)
    with False show ?thesis by (metis hd_append2)
  qed
  moreover have "?t \<noteq> []" using t by (metis dropWhile.simps(1) rev.simps(1))
  then have "\<not> js_space (hd ?t)" by (rule hd_dropWhile)
  ultimately show ?thesis by simp
qed simp

lemma trim_idem [simp]: "trim (trim s) = trim s"
  by (rule trim_id [OF trim_ends])

lemma tidyBuilding_idem [simp]: "tidyBuilding (tidyBuilding s) = tidyBuilding s"
proof -
  let ?t = "trim (collapse (map apostrophe s))"
  have "set ?t \<subseteq> insert CHR '' '' (set (map apostrophe s))"
    using set_trim [of "collapse (map apostrophe s)"] set_collapse [of "map apostrophe s"] by (rule order_trans)
  then have "apostrophe c = c" if "c \<in> set ?t" for c using that by (auto simp: apostrophe_def)
  then have "map apostrophe ?t = ?t" by (rule map_idI)
  then show ?thesis by (simp add: tidyBuilding_def collapse_id tidy_spaces_trim collapse_tidy)
qed

lemma buildingKey_tidy [simp]: "buildingKey (tidyBuilding s) = buildingKey s"
  by (simp add: buildingKey_def)

section \<open>Resolved names\<close>

text \<open>The keys of the campus list are its names in lower case.\<close>

lemma campus_keys:
  "map buildingKey CAMPUS_BUILDINGS =
    [''block as8'', ''central library'', ''com2'', ''com3'',
     ''engineering block e3'', ''engineering block e4'', ''engineering block ea'', ''frontier'',
     ''hon sui sen memorial library'', ''innovation 4.0'', ''kent ridge mrt'', ''medicine+science library'',
     ''prince george'' @ [CHR 0x27] @ ''s park'', ''techno edge'', ''terrace'', ''the deck'',
     ''the ridge'', ''university town'', ''yusof ishak house'']"
  by code_simp

lemma canonical_campus_keys: "map CANONICAL_BUILDINGS (map buildingKey CAMPUS_BUILDINGS) = map Some CAMPUS_BUILDINGS"
proof -
  have "map (\<lambda>b. (buildingKey b, b)) CAMPUS_BUILDINGS = zip (map buildingKey CAMPUS_BUILDINGS) CAMPUS_BUILDINGS"
    by (simp add: zip_map1 zip_same_conv_map)
  then show ?thesis
    unfolding CANONICAL_BUILDINGS_def campus_keys by (simp add: CAMPUS_BUILDINGS_def BUILDING_MAP_def prince_georges_park_def)
qed

lemma campus_resolved: "list_all (\<lambda>b. normalizeBuilding b = b) CAMPUS_BUILDINGS"
proof -
  have "CANONICAL_BUILDINGS (buildingKey b) = Some b" if "b \<in> set CAMPUS_BUILDINGS" for b
    using canonical_campus_keys that by (simp add: comp_def)
  then show ?thesis by (simp add: list_all_iff normalizeBuilding_def)
qed

lemma canonical_on_campus: "CANONICAL_BUILDINGS k = Some b \<Longrightarrow> b \<in> set CAMPUS_BUILDINGS"
proof -
  assume "CANONICAL_BUILDINGS k = Some b"
  then have "(k, b) \<in> set (map (\<lambda>b. (buildingKey b, b)) CAMPUS_BUILDINGS @ BUILDING_MAP)"
    unfolding CANONICAL_BUILDINGS_def by (metis map_of_SomeD set_rev)
  moreover have "list_all (\<lambda>(k, b). b \<in> set CAMPUS_BUILDINGS) BUILDING_MAP" by code_simp
  ultimately show ?thesis by (auto simp: list_all_iff)
qed

lemma normalizeBuilding_campus [simp]: "b \<in> set CAMPUS_BUILDINGS \<Longrightarrow> normalizeBuilding b = b"
  using campus_resolved by (auto simp: list_all_iff)

text \<open>A resolved name is its own resolution, so what was normalised once may be normalised again.\<close>

lemma normalizeBuilding_idem [simp]: "normalizeBuilding (normalizeBuilding s) = normalizeBuilding s"
proof (cases "CANONICAL_BUILDINGS (buildingKey s)")
  case None
  then show ?thesis by (simp add: normalizeBuilding_def)
next
  case (Some b)
  then have "normalizeBuilding s = b" "b \<in> set CAMPUS_BUILDINGS"
    by (simp_all add: normalizeBuilding_def canonical_on_campus)
  then show ?thesis by simp
qed

end
