(* ===== verification/Supplier_Validation.thy ===== *)
theory Supplier_Validation
  imports Supplier_Hours Supplier_Buildings Complex_Main
begin

text \<open>
  What the Supplier Service accepts (supplier-service/src/suppliers/validation.ts and types.ts): the
  bodies of a create and an update, the listing query and two headers.

  A body has the right JSON types and no key the schema does not have. A key that may be absent
  is an option of an option: \<open>None\<close> is absent, \<open>Some None\<close> an explicit null. Coordinates are
  rationals, which every finite double is. \<open>url\<close> is the URL parser: the scheme
  it reads, if the text is a URL; zod trims the text first and gives it trimmed.
\<close>

section \<open>Suppliers\<close>

datatype supplier_type = FOOD | CAFE | PRINTING | SHOPPING | LANDMARK

definition SUPPLIER_TYPES :: "supplier_type list" where
  "SUPPLIER_TYPES = [FOOD, CAFE, PRINTING, SHOPPING, LANDMARK]"

fun type_name :: "supplier_type \<Rightarrow> string" where
  "type_name FOOD = ''FOOD''"
| "type_name CAFE = ''CAFE''"
| "type_name PRINTING = ''PRINTING''"
| "type_name SHOPPING = ''SHOPPING''"
| "type_name LANDMARK = ''LANDMARK''"

definition parse_type :: "string \<Rightarrow> supplier_type option" where
  "parse_type s = find (\<lambda>t. type_name t = s) SUPPLIER_TYPES"

record raw_supplier =
  rs_name :: string
  rs_type :: string
  rs_building :: string
  rs_floor :: string
  rs_locationDescription :: string
  rs_openingHours :: "raw_period list option option"
  rs_latitude :: "rat option option"
  rs_longitude :: "rat option option"
  rs_imageUrl :: "string option option"
  rs_tags :: "string list option option"

record supplier_input =
  si_name :: string
  si_type :: supplier_type
  si_building :: string
  si_floor :: string
  si_locationDescription :: string
  si_openingHours :: "period list option option"
  si_latitude :: "rat option option"
  si_longitude :: "rat option option"
  si_imageUrl :: "string option option"
  si_tags :: "string list option option"

record raw_changes =
  rc_name :: "string option"
  rc_type :: "string option"
  rc_building :: "string option"
  rc_floor :: "string option"
  rc_locationDescription :: "string option"
  rc_openingHours :: "raw_period list option option"
  rc_latitude :: "rat option option"
  rc_longitude :: "rat option option"
  rc_imageUrl :: "string option option"
  rc_tags :: "string list option option"

record supplier_changes =
  sc_name :: "string option"
  sc_type :: "supplier_type option"
  sc_building :: "string option"
  sc_floor :: "string option"
  sc_locationDescription :: "string option"
  sc_openingHours :: "period list option option"
  sc_latitude :: "rat option option"
  sc_longitude :: "rat option option"
  sc_imageUrl :: "string option option"
  sc_tags :: "string list option option"

section \<open>Fields\<close>

text \<open>\<open>rejectNul\<close> looks at the text as it came, the length limits at the text trimmed.\<close>

definition no_nul :: "string \<Rightarrow> bool" where
  "no_nul s \<longleftrightarrow> CHR 0x00 \<notin> set s"

definition text_field :: "nat \<Rightarrow> string \<Rightarrow> string option" where
  "text_field most s = (let t = trim s in if no_nul s \<and> 1 \<le> length t \<and> length t \<le> most then Some t else None)"

definition building_field :: "string \<Rightarrow> string option" where
  "building_field s =
     (case text_field 200 s of
        None \<Rightarrow> None
      | Some t \<Rightarrow> let b = normalizeBuilding t in if b \<in> set CAMPUS_BUILDINGS then Some b else None)"

definition hours_field :: "raw_period list \<Rightarrow> period list option" where
  "hours_field raws = (case openingHoursSchema raws of Inl _ \<Rightarrow> None | Inr hs \<Rightarrow> Some hs)"

definition in_range :: "rat \<Rightarrow> rat \<Rightarrow> rat option" where
  "in_range most x = (if - most \<le> x \<and> x \<le> most then Some x else None)"

definition image_field :: "(string \<Rightarrow> string option) \<Rightarrow> string \<Rightarrow> string option" where
  "image_field url s =
     (let u = trim s in if url u = Some ''https'' \<and> length u \<le> 2048 \<and> no_nul u then Some u else None)"

text \<open>Every element or none: \<open>z.array\<close>.\<close>

definition every :: "('a \<Rightarrow> 'b option) \<Rightarrow> 'a list \<Rightarrow> 'b list option" where
  "every f xs = (if list_all (\<lambda>x. f x \<noteq> None) xs then Some (map (the \<circ> f) xs) else None)"

definition tags_field :: "string list \<Rightarrow> string list option" where
  "tags_field ts = (if length ts \<le> 50 then every (text_field 50) ts else None)"

text \<open>\<open>optional\<close> and \<open>nullable\<close>: what is not there is taken as it is.\<close>

definition optionally :: "('a \<Rightarrow> 'b option) \<Rightarrow> 'a option \<Rightarrow> 'b option option" where
  "optionally f v = (case v of None \<Rightarrow> Some None | Some x \<Rightarrow> map_option Some (f x))"

definition coordinatesPaired :: "rat option option \<Rightarrow> rat option option \<Rightarrow> bool" where
  "coordinatesPaired latitude longitude \<longleftrightarrow>
     (let hasLatKey = latitude \<noteq> None; hasLngKey = longitude \<noteq> None
      in if hasLatKey \<noteq> hasLngKey then False
         else \<not> (hasLatKey \<and> (latitude = Some None) \<noteq> (longitude = Some None)))"

section \<open>Bodies\<close>

definition supplierInvalid :: service_error where
  "supplierInvalid = ApiException 422 ''VALIDATION_FAILED'' No_details"

definition supplierCreateSchema :: "(string \<Rightarrow> string option) \<Rightarrow> raw_supplier \<Rightarrow> supplier_input option" where
  "supplierCreateSchema url r =
     (case (text_field 200 (rs_name r), parse_type (rs_type r), building_field (rs_building r),
            text_field 50 (rs_floor r), text_field 500 (rs_locationDescription r)) of
        (Some name, Some kind, Some building, Some flr, Some location) \<Rightarrow>
          (case (optionally (optionally hours_field) (rs_openingHours r),
                 optionally (optionally (in_range 90)) (rs_latitude r),
                 optionally (optionally (in_range 180)) (rs_longitude r),
                 optionally (optionally (image_field url)) (rs_imageUrl r),
                 optionally (optionally tags_field) (rs_tags r)) of
             (Some hours, Some latitude, Some longitude, Some picture, Some tags) \<Rightarrow>
               if coordinatesPaired latitude longitude
               then Some \<lparr> si_name = name, si_type = kind, si_building = building, si_floor = flr,
                      si_locationDescription = location, si_openingHours = hours, si_latitude = latitude,
                      si_longitude = longitude, si_imageUrl = picture, si_tags = tags \<rparr>
               else None
           | _ \<Rightarrow> None)
      | _ \<Rightarrow> None)"

definition no_supplier_changes :: supplier_changes where
  "no_supplier_changes = \<lparr> sc_name = None, sc_type = None, sc_building = None, sc_floor = None,
     sc_locationDescription = None, sc_openingHours = None, sc_latitude = None, sc_longitude = None,
     sc_imageUrl = None, sc_tags = None \<rparr>"

definition supplierUpdateSchema :: "(string \<Rightarrow> string option) \<Rightarrow> raw_changes \<Rightarrow> supplier_changes option" where
  "supplierUpdateSchema url r =
     (case (optionally (text_field 200) (rc_name r), optionally parse_type (rc_type r),
            optionally building_field (rc_building r), optionally (text_field 50) (rc_floor r),
            optionally (text_field 500) (rc_locationDescription r)) of
        (Some name, Some kind, Some building, Some flr, Some location) \<Rightarrow>
          (case (optionally (optionally hours_field) (rc_openingHours r),
                 optionally (optionally (in_range 90)) (rc_latitude r),
                 optionally (optionally (in_range 180)) (rc_longitude r),
                 optionally (optionally (image_field url)) (rc_imageUrl r),
                 optionally (optionally tags_field) (rc_tags r)) of
             (Some hours, Some latitude, Some longitude, Some picture, Some tags) \<Rightarrow>
               let v = \<lparr> sc_name = name, sc_type = kind, sc_building = building, sc_floor = flr,
                      sc_locationDescription = location, sc_openingHours = hours, sc_latitude = latitude,
                      sc_longitude = longitude, sc_imageUrl = picture, sc_tags = tags \<rparr>
               in if v \<noteq> no_supplier_changes \<and> (latitude \<noteq> None \<or> longitude \<noteq> None \<longrightarrow> coordinatesPaired latitude longitude)
                  then Some v else None
           | _ \<Rightarrow> None)
      | _ \<Rightarrow> None)"

text \<open>\<open>parseOrThrow\<close>: the value the schema gives, or the refusal.\<close>

definition parseOrThrow :: "('a \<Rightarrow> 'b option) \<Rightarrow> 'a \<Rightarrow> service_error + 'b" where
  "parseOrThrow schema input = (case schema input of Some v \<Rightarrow> Inr v | None \<Rightarrow> Inl supplierInvalid)"

section \<open>The listing query\<close>

datatype supplier_sort = By_name | By_type | By_building | By_updatedAt

definition SUPPLIER_SORTS :: "(string \<times> supplier_sort) list" where
  "SUPPLIER_SORTS = [(''name'', By_name), (''type'', By_type), (''building'', By_building), (''updatedAt'', By_updatedAt)]"

text \<open>A query key may be absent, given once, or repeated, which is no string.\<close>

datatype query_value = Absent | Given string | Repeated

text \<open>\<open>/^-?\d{1,9}$/\<close> and the number it stands for.\<close>

definition digits :: "string \<Rightarrow> bool" where
  "digits s \<longleftrightarrow> 1 \<le> length s \<and> length s \<le> 9 \<and> list_all digit s"

definition small_integer :: "string \<Rightarrow> int option" where
  "small_integer s =
     (case s of
        [] \<Rightarrow> None
      | c # cs \<Rightarrow> if c = CHR ''-'' then (if digits cs then Some (- decimal cs) else None)
                  else if digits s then Some (decimal s) else None)"

definition count_param :: "int \<Rightarrow> (int \<Rightarrow> int) \<Rightarrow> query_value \<Rightarrow> int" where
  "count_param fallback clamp v =
     (case v of
        Given s \<Rightarrow> (case small_integer (trim s) of Some n \<Rightarrow> clamp n | None \<Rightarrow> fallback)
      | _ \<Rightarrow> fallback)"

text \<open>\<open>None\<close> is a refusal, \<open>Some None\<close> an unset filter.\<close>

definition optionalFilter :: "(string \<Rightarrow> 'a option) \<Rightarrow> query_value \<Rightarrow> 'a option option" where
  "optionalFilter schema v =
     (case v of
        Absent \<Rightarrow> Some None
      | Repeated \<Rightarrow> None
      | Given s \<Rightarrow> if trim s = [] then Some None else map_option Some (schema s))"

text \<open>
  \<open>toUpperCase\<close> on the letters whose upper case is one Latin-1 character; the others are in no
  name of a type.
\<close>

definition upper_char :: "char \<Rightarrow> char" where
  "upper_char c = (let n = of_char c :: nat in
     if (97 \<le> n \<and> n \<le> 122) \<or> (224 \<le> n \<and> n \<le> 254 \<and> n \<noteq> 247) then char_of (n - 32) else c)"

definition type_filter :: "string \<Rightarrow> supplier_type option" where
  "type_filter s = parse_type (map upper_char (trim s))"

definition building_filter :: "string \<Rightarrow> string option" where
  "building_filter s = (if no_nul s then Some (normalizeBuilding (trim s)) else None)"

definition search_filter :: "string \<Rightarrow> string option" where
  "search_filter s = (if no_nul s \<and> length (trim s) \<le> 200 then Some (trim s) else None)"

definition sort_param :: "query_value \<Rightarrow> supplier_sort" where
  "sort_param v =
     (case v of
        Given s \<Rightarrow> (case find (\<lambda>(n, _). toLowerCase n = toLowerCase (trim s)) SUPPLIER_SORTS of
                      Some (_, k) \<Rightarrow> k | None \<Rightarrow> By_name)
      | _ \<Rightarrow> By_name)"

definition descending_param :: "query_value \<Rightarrow> bool" where
  "descending_param v = (case v of Given s \<Rightarrow> toLowerCase (trim s) = ''desc'' | _ \<Rightarrow> False)"

record raw_list_query =
  rq_page :: query_value
  rq_pageSize :: query_value
  rq_type :: query_value
  rq_building :: query_value
  rq_q :: query_value
  rq_sort :: query_value
  rq_order :: query_value

record supplier_list_query =
  lq_page :: int
  lq_pageSize :: int
  lq_type :: "supplier_type option"
  lq_building :: "string option"
  lq_q :: "string option"
  lq_sort :: supplier_sort
  lq_descending :: bool

definition supplierListQuerySchema :: "raw_list_query \<Rightarrow> supplier_list_query option" where
  "supplierListQuerySchema r =
     (case (optionalFilter type_filter (rq_type r), optionalFilter building_filter (rq_building r),
            optionalFilter search_filter (rq_q r)) of
        (Some kind, Some building, Some q) \<Rightarrow>
          Some \<lparr> lq_page = count_param 1 (max 1) (rq_page r),
                 lq_pageSize = count_param 20 (\<lambda>v. min 100 (max 1 v)) (rq_pageSize r),
                 lq_type = kind, lq_building = building, lq_q = q,
                 lq_sort = sort_param (rq_sort r), lq_descending = descending_param (rq_order r) \<rparr>
      | _ \<Rightarrow> None)"

section \<open>Headers\<close>

definition bad_request :: service_error where
  "bad_request = ApiException 400 ''BAD_REQUEST'' No_details"

text \<open>\<open>replace(/^"(.*)"$/, '$1')\<close>: the dot matches no line break.\<close>

definition unquote :: "string \<Rightarrow> string" where
  "unquote s =
     (let inner = butlast (tl s)
      in if 2 \<le> length s \<and> hd s = CHR 0x22 \<and> last s = CHR 0x22 \<and> CHR 0x0A \<notin> set inner \<and> CHR 0x0D \<notin> set inner
         then inner else s)"

definition parseIfMatch :: "string option \<Rightarrow> service_error + int" where
  "parseIfMatch raw =
     (case raw of
        None \<Rightarrow> Inl (ApiException 428 ''PRECONDITION_REQUIRED'' No_details)
      | Some s \<Rightarrow>
          if trim s = [] then Inl (ApiException 428 ''PRECONDITION_REQUIRED'' No_details)
          else let unquoted = unquote (trim s)
               in if \<not> digits unquoted then Inl bad_request
                  else let version = decimal unquoted in if version < 1 then Inl bad_request else Inr version)"

definition IDEMPOTENCY_KEY_MAX :: nat where
  "IDEMPOTENCY_KEY_MAX = 200"

definition parseSupplierKey :: "string option \<Rightarrow> service_error + string option" where
  "parseSupplierKey raw =
     (case raw of
        None \<Rightarrow> Inr None
      | Some s \<Rightarrow> let key = trim s
                  in if key = [] then Inr None
                     else if IDEMPOTENCY_KEY_MAX < length key then Inl bad_request else Inr (Some key))"

end
