(* ===== verification/Supplier_Repository.thy ===== *)
theory Supplier_Repository
  imports Supplier_Validation
begin

text \<open>
  The Supplier Service's tables with their constraints (supplier-service/src/db/schema.ts) and the
  statements on them (supplier-service/src/suppliers/suppliers.repository.ts). A constraint that
  refuses a statement is \<open>DbViolation\<close> with its name. Ids are UUIDs, which the database compares and
  stores in their canonical lower case. Texts order by their characters.
\<close>

section \<open>Tables\<close>

record supplier_row =
  sp_supplierId :: ident
  sp_name :: string
  sp_type :: supplier_type
  sp_building :: string
  sp_floor :: string
  sp_locationDescription :: string
  sp_openingHours :: "period list option"
  sp_latitude :: "rat option"
  sp_longitude :: "rat option"
  sp_imageUrl :: "string option"
  sp_tags :: "string list option"
  sp_active :: bool
  sp_version :: int
  sp_createdAt :: time
  sp_updatedAt :: time

record supplier_key =
  sk_idempotencyKey :: string
  sk_supplierId :: ident
  sk_requestHash :: string
  sk_createdAt :: time

record supplier_db =
  suppliers :: "supplier_row list"
  supplier_keys :: "supplier_key list"

definition char_length :: "nat \<Rightarrow> string \<Rightarrow> bool" where
  "char_length most s \<longleftrightarrow> 1 \<le> length s \<and> length s \<le> most"

definition opt_holds :: "('a \<Rightarrow> bool) \<Rightarrow> 'a option \<Rightarrow> bool" where
  "opt_holds P v = (case v of None \<Rightarrow> True | Some x \<Rightarrow> P x)"

text \<open>The checks of a row, by name; that a type is one of five and tags an array is in their types.\<close>

definition supplier_checks :: "supplier_row \<Rightarrow> (string \<times> bool) list" where
  "supplier_checks r =
    [(''suppliers_name_len'', char_length 200 (sp_name r)),
     (''suppliers_building_len'', char_length 200 (sp_building r)),
     (''suppliers_floor_len'', char_length 50 (sp_floor r)),
     (''suppliers_location_len'', char_length 500 (sp_locationDescription r)),
     (''suppliers_image_url_len'', opt_holds (char_length 2048) (sp_imageUrl r)),
     (''suppliers_version_positive'', 1 \<le> sp_version r),
     (''suppliers_coordinates_paired'', (sp_latitude r = None) = (sp_longitude r = None)),
     (''suppliers_latitude_range'', opt_holds (\<lambda>x. - 90 \<le> x \<and> x \<le> 90) (sp_latitude r)),
     (''suppliers_longitude_range'', opt_holds (\<lambda>x. - 180 \<le> x \<and> x \<le> 180) (sp_longitude r))]"

definition check_row :: "supplier_row \<Rightarrow> service_error + unit" where
  "check_row r =
     (case find (\<lambda>(n, ok). \<not> ok) (supplier_checks r) of
        None \<Rightarrow> Inr () | Some (n, _) \<Rightarrow> Inl (DbViolation n))"

text \<open>The partial index on active rows: name and building in lower case.\<close>

definition index_key :: "supplier_row \<Rightarrow> string \<times> string" where
  "index_key r = (toLowerCase (sp_name r), toLowerCase (sp_building r))"

definition index_free :: "supplier_row \<Rightarrow> supplier_row list \<Rightarrow> bool" where
  "index_free r others \<longleftrightarrow> \<not> (sp_active r \<and> list_ex (\<lambda>x. sp_active x \<and> index_key x = index_key r) others)"

definition NAME_BUILDING_INDEX :: string where
  "NAME_BUILDING_INDEX = ''suppliers_name_building_active_key''"

definition SUPPLIERS_PKEY :: string where
  "SUPPLIERS_PKEY = ''suppliers_pkey''"

text \<open>\<open>isUniqueViolation\<close>: of the constraint named, or of any that is unique.\<close>

definition isUniqueViolation :: "service_error \<Rightarrow> string option \<Rightarrow> bool" where
  "isUniqueViolation err c =
     (case err of
        DbViolation n \<Rightarrow> n \<in> {NAME_BUILDING_INDEX, SUPPLIERS_PKEY} \<and> opt_holds (\<lambda>k. n = k) c
      | _ \<Rightarrow> False)"

definition INT4_MAX :: int where
  "INT4_MAX = 2147483647"

section \<open>Inserts\<close>

text \<open>\<open>v ?? null\<close> of a key that may be absent.\<close>

definition or_null :: "'a option option \<Rightarrow> 'a option" where
  "or_null v = (case v of None \<Rightarrow> None | Some x \<Rightarrow> x)"

definition insertValues :: "time \<Rightarrow> ident \<Rightarrow> supplier_input \<Rightarrow> supplier_row" where
  "insertValues now supplierId s =
     \<lparr> sp_supplierId = toLowerCase supplierId, sp_name = si_name s, sp_type = si_type s, sp_building = si_building s,
       sp_floor = si_floor s, sp_locationDescription = si_locationDescription s,
       sp_openingHours = or_null (si_openingHours s), sp_latitude = or_null (si_latitude s),
       sp_longitude = or_null (si_longitude s), sp_imageUrl = or_null (si_imageUrl s), sp_tags = or_null (si_tags s),
       sp_active = True, sp_version = 1, sp_createdAt = now, sp_updatedAt = now \<rparr>"

definition insert_supplier :: "time \<Rightarrow> ident \<Rightarrow> supplier_input \<Rightarrow> supplier_db \<Rightarrow> service_error + (supplier_row \<times> supplier_db)" where
  "insert_supplier now supplierId s db =
     (let r = insertValues now supplierId s
      in bindE (check_row r) (\<lambda>_.
         if sp_supplierId r \<in> sp_supplierId ` set (suppliers db) then Inl (DbViolation SUPPLIERS_PKEY)
         else if \<not> index_free r (suppliers db) then Inl (DbViolation NAME_BUILDING_INDEX)
         else Inr (r, db\<lparr> suppliers := suppliers db @ [r] \<rparr>)))"

text \<open>The conflict clause looks at the primary key first; another unique index still refuses.\<close>

definition insertIfAbsent ::
  "time \<Rightarrow> ident \<Rightarrow> supplier_input \<Rightarrow> supplier_db \<Rightarrow> service_error + (supplier_row option \<times> supplier_db)" where
  "insertIfAbsent now supplierId s db =
     (let r = insertValues now supplierId s
      in bindE (check_row r) (\<lambda>_.
         if sp_supplierId r \<in> sp_supplierId ` set (suppliers db) then Inr (None, db)
         else if \<not> index_free r (suppliers db) then Inl (DbViolation NAME_BUILDING_INDEX)
         else Inr (Some r, db\<lparr> suppliers := suppliers db @ [r] \<rparr>)))"

section \<open>Reads\<close>

definition findById :: "supplier_db \<Rightarrow> ident \<Rightarrow> supplier_row option" where
  "findById db i = row_of sp_supplierId (toLowerCase i) (suppliers db)"

definition activeBuildings :: "supplier_db \<Rightarrow> string list" where
  "activeBuildings db = remdups (map sp_building (filter sp_active (suppliers db)))"

text \<open>\<open>escapeLike\<close> (platform/src/db.ts), and \<open>LIKE\<close> with the backslash as its escape.\<close>

definition escapeLike :: "string \<Rightarrow> string" where
  "escapeLike s = concat (map (\<lambda>c. if c \<in> {CHR 0x5C, CHR ''%'', CHR ''_''} then [CHR 0x5C, c] else [c]) s)"

function (sequential) like :: "string \<Rightarrow> string \<Rightarrow> bool" where
  "like [] s \<longleftrightarrow> s = []"
| "like (p # ps) s \<longleftrightarrow>
     (if p = CHR ''%'' then like ps s \<or> (case s of [] \<Rightarrow> False | c # cs \<Rightarrow> like (p # ps) cs)
      else if p = CHR ''_'' then (case s of [] \<Rightarrow> False | c # cs \<Rightarrow> like ps cs)
      else if p = CHR 0x5C then
        (case ps of [] \<Rightarrow> False | q # qs \<Rightarrow> (case s of [] \<Rightarrow> False | c # cs \<Rightarrow> c = q \<and> like qs cs))
      else (case s of [] \<Rightarrow> False | c # cs \<Rightarrow> c = p \<and> like ps cs))"
  by pat_completeness auto

termination like
  by (relation "measure (\<lambda>(p, s). length p + length s)") auto

definition ilike :: "string \<Rightarrow> string \<Rightarrow> bool" where
  "ilike pattern s \<longleftrightarrow> like (toLowerCase pattern) (toLowerCase s)"

definition searched :: "string \<Rightarrow> supplier_row \<Rightarrow> bool" where
  "searched q r \<longleftrightarrow>
     (let term = CHR ''%'' # escapeLike q @ [CHR ''%'']
      in ilike term (sp_name r) \<or> ilike term (sp_building r) \<or> ilike term (sp_locationDescription r) \<or>
         (case sp_tags r of None \<Rightarrow> False | Some ts \<Rightarrow> list_ex (ilike term) ts))"

text \<open>An empty text is falsy: a filter or search for it is none.\<close>

definition list_matches :: "supplier_list_query \<Rightarrow> supplier_row \<Rightarrow> bool" where
  "list_matches f r \<longleftrightarrow>
     sp_active r \<and> opt_holds (\<lambda>t. sp_type r = t) (lq_type f) \<and>
     opt_holds (\<lambda>b. b = [] \<or> toLowerCase (sp_building r) = toLowerCase b) (lq_building f) \<and>
     opt_holds (\<lambda>q. q = [] \<or> searched q r) (lq_q f)"

definition SORT_KEY :: "supplier_sort \<Rightarrow> supplier_row \<Rightarrow> string \<times> time" where
  "SORT_KEY k r =
     (case k of
        By_name \<Rightarrow> (toLowerCase (sp_name r), 0)
      | By_type \<Rightarrow> (type_name (sp_type r), 0)
      | By_building \<Rightarrow> (toLowerCase (sp_building r), 0)
      | By_updatedAt \<Rightarrow> ([], sp_updatedAt r))"

definition TIE_BREAKS :: "supplier_row \<Rightarrow> string \<times> ident" where
  "TIE_BREAKS r = (toLowerCase (sp_name r), sp_supplierId r)"

text \<open>
  \<open>ORDER BY\<close> the key, then the tie-breaks: a stable sort by the key of rows in the order of the
  tie-breaks, which only the key's order turns round.
\<close>

definition orderBy :: "supplier_list_query \<Rightarrow> supplier_row list \<Rightarrow> supplier_row list" where
  "orderBy f rows =
     (let tied = sort_key TIE_BREAKS rows
      in if lq_descending f then rev (sort_key (SORT_KEY (lq_sort f)) (rev tied))
         else sort_key (SORT_KEY (lq_sort f)) tied)"

text \<open>
  The statement joins the count of what matched, one row, with the page: an empty page leaves that
  row with nothing from the page, which the caller drops after it has read the total. The order is
  stated again outside the join; byte order stands for the database's collation.
\<close>

definition list_suppliers :: "supplier_db \<Rightarrow> supplier_list_query \<Rightarrow> supplier_row list \<times> nat" where
  "list_suppliers db f =
     (let matched = filter (list_matches f) (suppliers db);
          page = take (nat (lq_pageSize f)) (drop (nat ((lq_page f - 1) * lq_pageSize f)) (orderBy f matched));
          counted = length matched;
          rows = (if page = [] then [(counted, None)] else map (\<lambda>r. (counted, Some r)) (orderBy f page))
      in (List.map_filter snd rows, fst (hd rows)))"

section \<open>Versioned writes\<close>

definition or_keep :: "'a option \<Rightarrow> 'a \<Rightarrow> 'a" where
  "or_keep v x = (case v of None \<Rightarrow> x | Some y \<Rightarrow> y)"

definition apply_supplier_changes :: "time \<Rightarrow> supplier_changes \<Rightarrow> supplier_row \<Rightarrow> supplier_row" where
  "apply_supplier_changes now v r = r\<lparr>
     sp_name := or_keep (sc_name v) (sp_name r), sp_type := or_keep (sc_type v) (sp_type r),
     sp_building := or_keep (sc_building v) (sp_building r), sp_floor := or_keep (sc_floor v) (sp_floor r),
     sp_locationDescription := or_keep (sc_locationDescription v) (sp_locationDescription r),
     sp_openingHours := or_keep (sc_openingHours v) (sp_openingHours r),
     sp_latitude := or_keep (sc_latitude v) (sp_latitude r), sp_longitude := or_keep (sc_longitude v) (sp_longitude r),
     sp_imageUrl := or_keep (sc_imageUrl v) (sp_imageUrl r), sp_tags := or_keep (sc_tags v) (sp_tags r),
     sp_version := sp_version r + 1, sp_updatedAt := now \<rparr>"

text \<open>\<open>UPDATE\<close> of the row found, with the constraints of the row it becomes.\<close>

definition write_row :: "supplier_row \<Rightarrow> (supplier_row \<Rightarrow> supplier_row) \<Rightarrow> supplier_db \<Rightarrow> service_error + (supplier_row option \<times> supplier_db)" where
  "write_row r f db =
     (if INT4_MAX < sp_version (f r) then Inl (DbViolation ''integer out of range'')
      else bindE (check_row (f r)) (\<lambda>_.
        if \<not> index_free (f r) (filter (\<lambda>x. sp_supplierId x \<noteq> sp_supplierId r) (suppliers db))
        then Inl (DbViolation NAME_BUILDING_INDEX)
        else Inr (Some (f r), db\<lparr> suppliers := update_rows (\<lambda>x. sp_supplierId x = sp_supplierId r) f (suppliers db) \<rparr>)))"

definition update_supplier ::
  "time \<Rightarrow> ident \<Rightarrow> int \<Rightarrow> supplier_changes \<Rightarrow> supplier_db \<Rightarrow> service_error + (supplier_row option \<times> supplier_db)" where
  "update_supplier now i expectedVersion changes db =
     (case find (\<lambda>r. sp_supplierId r = toLowerCase i \<and> sp_version r = expectedVersion) (suppliers db) of
        None \<Rightarrow> Inr (None, db)
      | Some r \<Rightarrow> write_row r (apply_supplier_changes now changes) db)"

definition deactivate_supplier ::
  "time \<Rightarrow> ident \<Rightarrow> int \<Rightarrow> supplier_db \<Rightarrow> service_error + (supplier_row option \<times> supplier_db)" where
  "deactivate_supplier now i expectedVersion db =
     (case find (\<lambda>r. sp_supplierId r = toLowerCase i \<and> sp_version r = expectedVersion \<and> sp_active r) (suppliers db) of
        None \<Rightarrow> Inr (None, db)
      | Some r \<Rightarrow> write_row r (\<lambda>r. r\<lparr> sp_active := False, sp_version := sp_version r + 1, sp_updatedAt := now \<rparr>) db)"

section \<open>Idempotency keys\<close>

definition findSupplierKey :: "supplier_db \<Rightarrow> string \<Rightarrow> supplier_key option" where
  "findSupplierKey db key = row_of sk_idempotencyKey key (supplier_keys db)"

definition claimIdempotencyKey :: "time \<Rightarrow> string \<Rightarrow> ident \<Rightarrow> string \<Rightarrow> supplier_db \<Rightarrow> bool \<times> supplier_db" where
  "claimIdempotencyKey now key supplierId requestHash db =
     (if key \<in> sk_idempotencyKey ` set (supplier_keys db) then (False, db)
      else (True, db\<lparr> supplier_keys := supplier_keys db @
             [\<lparr> sk_idempotencyKey = key, sk_supplierId = toLowerCase supplierId, sk_requestHash = requestHash,
                sk_createdAt = now \<rparr>] \<rparr>))"

section \<open>Searching is for the text as it is\<close>

lemma escapeLike_simps [simp]:
  "escapeLike [] = []"
  "escapeLike (c # cs) = (if c \<in> {CHR 0x5C, CHR ''%'', CHR ''_''} then [CHR 0x5C, c] else [c]) @ escapeLike cs"
  by (simp_all add: escapeLike_def)

lemma lower_char_special: "lower_char c = d \<Longrightarrow> d \<in> {CHR 0x5C, CHR ''%'', CHR ''_''} \<Longrightarrow> c = d"
  by (auto simp: lower_char_def Let_def char_of_eq_iff take_bit_eq_mod split: if_splits)

lemma toLowerCase_escapeLike: "toLowerCase (escapeLike q) = escapeLike (toLowerCase q)"
proof (induction q)
  case Nil
  then show ?case by (simp add: toLowerCase_def)
next
  case (Cons c q)
  have "lower_char c \<in> {CHR 0x5C, CHR ''%'', CHR ''_''} \<longleftrightarrow> c \<in> {CHR 0x5C, CHR ''%'', CHR ''_''}"
    using lower_char_special [of c] by (auto simp: lower_char_def Let_def)
  moreover have "lower_char CHR 0x5C = CHR 0x5C" by (simp add: lower_char_def)
  ultimately show ?case using Cons by (auto simp: toLowerCase_def)
qed

lemma like_escaped: "like (escapeLike q @ p) s \<longleftrightarrow> (\<exists>post. s = q @ post \<and> like p post)"
proof (induction q arbitrary: s)
  case Nil
  then show ?case by simp
next
  case (Cons c q)
  then show ?case by (cases s) auto
qed

lemma like_any: "like [CHR ''%''] s"
  by (induction s) auto

lemma like_somewhere: "like (CHR ''%'' # p) s \<longleftrightarrow> (\<exists>pre post. s = pre @ post \<and> like p post)"
proof (induction s)
  case Nil
  then show ?case by simp
next
  case (Cons c s)
  have "like (CHR ''%'' # p) (c # s) \<longleftrightarrow> like p (c # s) \<or> (\<exists>pre post. s = pre @ post \<and> like p post)"
    using Cons by simp
  also have "\<dots> \<longleftrightarrow> (\<exists>pre post. c # s = pre @ post \<and> like p post)"
    by (auto simp: Cons_eq_append_conv)
  finally show ?case .
qed

lemma ilike_contains:
  "ilike (CHR ''%'' # escapeLike q @ [CHR ''%'']) s \<longleftrightarrow> (\<exists>pre post. toLowerCase s = pre @ toLowerCase q @ post)"
proof -
  have "lower_char CHR ''%'' = CHR ''%''" by (simp add: lower_char_def)
  then have "toLowerCase (CHR ''%'' # escapeLike q @ [CHR ''%'']) = CHR ''%'' # escapeLike (toLowerCase q) @ [CHR ''%'']"
    using toLowerCase_escapeLike [of q] by (simp add: toLowerCase_def)
  then show ?thesis
    unfolding ilike_def by (simp only: like_somewhere [of "escapeLike (toLowerCase q) @ [CHR ''%'']"] like_escaped like_any) auto
qed

end
