(* ===== verification/Supplier_Service.thy ===== *)
theory Supplier_Service
  imports Supplier_Repository
begin

text \<open>
  The operations of the catalogue (supplier-service/src/suppliers/suppliers.service.ts) and the
  requests that call them (suppliers.controller.ts, buildings.controller.ts). Who may call is the
  guards' matter: administrators write, any signed-in user reads.

  Parameters, in the record \<open>supplier_env\<close>: the scheme the URL parser reads of a text, and zod's check
  of a UUID; and, as an argument, the digest of a JSON value (SHA-256 of its text); nothing is assumed of them.
\<close>

section \<open>Views and errors\<close>

record supplier_env =
  se_url :: "string \<Rightarrow> string option"
  se_uuid :: "string \<Rightarrow> bool"

record supplier_list_item =
  li_supplierId :: ident
  li_name :: string
  li_type :: supplier_type
  li_building :: string
  li_imageUrl :: "string option"

definition toSupplierListItem :: "supplier_row \<Rightarrow> supplier_list_item" where
  "toSupplierListItem r = \<lparr> li_supplierId = sp_supplierId r, li_name = sp_name r, li_type = sp_type r,
     li_building = sp_building r, li_imageUrl = sp_imageUrl r \<rparr>"

text \<open>The view has the row's fields, its times in milliseconds.\<close>

definition toSupplierView :: "supplier_row \<Rightarrow> supplier_row" where
  "toSupplierView r = r\<lparr> sp_createdAt := iso (sp_createdAt r), sp_updatedAt := iso (sp_updatedAt r) \<rparr>"

definition supplierNotFound :: service_error where
  "supplierNotFound = ApiException 404 ''NOT_FOUND'' No_details"

definition idempotencyKeyReused :: service_error where
  "idempotencyKeyReused = ApiException 422 ''IDEMPOTENCY_KEY_REUSED'' No_details"

definition duplicate :: service_error where
  "duplicate = ApiException 422 ''VALIDATION_FAILED'' (Field_details [(''name'', ''DUPLICATE_NAME_BUILDING'')])"

definition staleVersion :: service_error where
  "staleVersion = ApiException 412 ''STALE_VERSION'' No_details"

text \<open>The catch around a write: the one violation that is the caller's.\<close>

definition duplicate_or :: "service_error + 'a \<Rightarrow> service_error + 'a" where
  "duplicate_or m =
     (case m of
        Inl e \<Rightarrow> if isUniqueViolation e (Some NAME_BUILDING_INDEX) then Inl duplicate else Inl e
      | Inr x \<Rightarrow> Inr x)"

section \<open>The hash of a body\<close>

datatype json = J_null | J_num rat | J_str string | J_arr "json list" | J_obj "(string \<times> json) list"

definition json_opt :: "('a \<Rightarrow> json) \<Rightarrow> 'a option \<Rightarrow> json" where
  "json_opt f v = (case v of None \<Rightarrow> J_null | Some x \<Rightarrow> f x)"

text \<open>A key that is absent is left out.\<close>

definition entry :: "string \<Rightarrow> ('a \<Rightarrow> json) \<Rightarrow> 'a option option \<Rightarrow> (string \<times> json) list" where
  "entry k f v = (case v of None \<Rightarrow> [] | Some x \<Rightarrow> [(k, json_opt f x)])"

definition period_json :: "period \<Rightarrow> json" where
  "period_json p = J_obj [(''day'', J_str (day_name (hp_day p))), (''opens'', J_str (hp_opens p)), (''closes'', J_str (hp_closes p))]"

definition input_entries :: "supplier_input \<Rightarrow> (string \<times> json) list" where
  "input_entries s =
     [(''name'', J_str (si_name s)), (''type'', J_str (type_name (si_type s))), (''building'', J_str (si_building s)),
      (''floor'', J_str (si_floor s)), (''locationDescription'', J_str (si_locationDescription s))] @
     entry ''openingHours'' (\<lambda>ps. J_arr (map period_json ps)) (si_openingHours s) @
     entry ''latitude'' J_num (si_latitude s) @ entry ''longitude'' J_num (si_longitude s) @
     entry ''imageUrl'' J_str (si_imageUrl s) @ entry ''tags'' (\<lambda>ts. J_arr (map J_str ts)) (si_tags s)"

definition input_json :: "supplier_input \<Rightarrow> json" where
  "input_json s = J_obj (input_entries s)"

text \<open>
  The replacer of \<open>JSON.stringify\<close>: every object with its entries by key. The keys are ASCII words
  that first differ in lower-case letters, which \<open>localeCompare\<close> orders by character.
\<close>

primrec canonical :: "json \<Rightarrow> json" where
  "canonical J_null = J_null"
| "canonical (J_num n) = J_num n"
| "canonical (J_str s) = J_str s"
| "canonical (J_arr vs) = J_arr (map canonical vs)"
| "canonical (J_obj es) = J_obj (sort_key fst (map (map_prod id canonical) es))"

definition requestHash :: "(json \<Rightarrow> string) \<Rightarrow> supplier_input \<Rightarrow> string" where
  "requestHash digest input = digest (canonical (input_json input))"

section \<open>Operations\<close>

record supplier_page =
  sg_page :: int
  sg_pageSize :: int
  sg_total :: nat
  sg_items :: "supplier_list_item list"

definition suppliers_page :: "supplier_db \<Rightarrow> supplier_list_query \<Rightarrow> supplier_page" where
  "suppliers_page db query =
     (let (rows, total) = list_suppliers db query
      in \<lparr> sg_page = lq_page query, sg_pageSize = lq_pageSize query, sg_total = total,
           sg_items = map toSupplierListItem rows \<rparr>)"

definition buildings :: "supplier_db \<Rightarrow> bool \<Rightarrow> string list" where
  "buildings db inUse =
     (if \<not> inUse then CAMPUS_BUILDINGS
      else let active = map normalizeBuilding (activeBuildings db)
           in filter (\<lambda>b. b \<in> set active) CAMPUS_BUILDINGS)"

definition getSupplierById :: "supplier_db \<Rightarrow> ident \<Rightarrow> service_error + supplier_row" where
  "getSupplierById db i = (case findById db i of None \<Rightarrow> Inl supplierNotFound | Some r \<Rightarrow> Inr (toSupplierView r))"

record create_result =
  cr_supplier :: supplier_row
  cr_replayed :: bool

text \<open>An empty key is none. The lock of a key only orders the transactions of that key.\<close>

definition key_given :: "string option \<Rightarrow> string option" where
  "key_given k = (if k = Some [] then None else k)"

definition insert_new :: "time \<Rightarrow> ident \<Rightarrow> supplier_input \<Rightarrow> (supplier_db \<Rightarrow> supplier_db) \<Rightarrow> supplier_db \<Rightarrow>
     service_error + (create_result \<times> supplier_db)" where
  "insert_new now supplierId input claim db =
     bindE (duplicate_or (insert_supplier now supplierId input db)) (\<lambda>(r, db1).
       Inr (\<lparr> cr_supplier = toSupplierView r, cr_replayed = False \<rparr>, claim db1))"

definition create_tx ::
  "(json \<Rightarrow> string) \<Rightarrow> time \<Rightarrow> ident \<Rightarrow> supplier_input \<Rightarrow> string option \<Rightarrow> supplier_db \<Rightarrow>
     service_error + (create_result \<times> supplier_db)" where
  "create_tx digest now supplierId input idempotencyKey db =
     (case key_given idempotencyKey of
        None \<Rightarrow> insert_new now supplierId input id db
      | Some key \<Rightarrow>
          let hash = requestHash digest input
          in case findSupplierKey db key of
               Some existing \<Rightarrow>
                 if sk_requestHash existing \<noteq> hash then Inl idempotencyKeyReused
                 else (case findById db (sk_supplierId existing) of
                         None \<Rightarrow> Inl (PlainError ''TypeError'')
                       | Some r \<Rightarrow> Inr (\<lparr> cr_supplier = toSupplierView r, cr_replayed = True \<rparr>, db))
             | None \<Rightarrow> insert_new now supplierId input (\<lambda>db1. snd (claimIdempotencyKey now key supplierId hash db1)) db)"

definition create_supplier ::
  "(json \<Rightarrow> string) \<Rightarrow> time \<Rightarrow> ident \<Rightarrow> supplier_input \<Rightarrow> string option \<Rightarrow> supplier_db \<Rightarrow>
     (service_error + create_result) \<times> supplier_db" where
  "create_supplier digest now supplierId input key = transaction (create_tx digest now supplierId input key)"

text \<open>What a versioned write answers when it found no row to write: \<open>settled\<close> says a row needs none.\<close>

definition versioned :: "(supplier_row \<Rightarrow> bool) \<Rightarrow> ident \<Rightarrow> supplier_row option \<times> supplier_db \<Rightarrow> service_error + (supplier_row \<times> supplier_db)" where
  "versioned settled i = (\<lambda>(written, db).
     case written of
       Some r \<Rightarrow> Inr (r, db)
     | None \<Rightarrow>
         (case findById db i of
            None \<Rightarrow> Inl supplierNotFound
          | Some current \<Rightarrow> if settled current then Inr (current, db) else Inl staleVersion))"

definition update_tx :: "time \<Rightarrow> ident \<Rightarrow> int \<Rightarrow> supplier_changes \<Rightarrow> supplier_db \<Rightarrow> service_error + (supplier_row \<times> supplier_db)" where
  "update_tx now i expectedVersion changes db =
     bindE (duplicate_or (update_supplier now i expectedVersion changes db)) (versioned (\<lambda>_. False) i)"

definition deactivate_tx :: "time \<Rightarrow> ident \<Rightarrow> int \<Rightarrow> supplier_db \<Rightarrow> service_error + (supplier_row \<times> supplier_db)" where
  "deactivate_tx now i expectedVersion db =
     bindE (deactivate_supplier now i expectedVersion db)
       (versioned (\<lambda>current. \<not> sp_active current \<and> sp_version current = expectedVersion) i)"

section \<open>Requests\<close>

text \<open>A request that fails before its transaction, or runs it.\<close>

definition with_parsed :: "'e + 'a \<Rightarrow> ('a \<Rightarrow> 'db \<Rightarrow> ('e + 'r) \<times> 'db) \<Rightarrow> 'db \<Rightarrow> ('e + 'r) \<times> 'db" where
  "with_parsed parsed run db = (case parsed of Inl e \<Rightarrow> (Inl e, db) | Inr x \<Rightarrow> run x db)"

definition parse_id :: "supplier_env \<Rightarrow> string \<Rightarrow> service_error + ident" where
  "parse_id env i = parseOrThrow (\<lambda>s. if se_uuid env s then Some s else None) i"

definition get_suppliers :: "raw_list_query \<Rightarrow> supplier_db \<Rightarrow> service_error + supplier_page" where
  "get_suppliers query db = bindE (parseOrThrow supplierListQuerySchema query) (\<lambda>q. Inr (suppliers_page db q))"

text \<open>A supplier is answered with its version as the \<open>ETag\<close>.\<close>

definition with_etag :: "supplier_row \<Rightarrow> supplier_row \<times> int" where
  "with_etag r = (toSupplierView r, sp_version r)"

definition get_supplier :: "supplier_env \<Rightarrow> string \<Rightarrow> supplier_db \<Rightarrow> service_error + (supplier_row \<times> int)" where
  "get_supplier env i db = bindE (parse_id env i) (\<lambda>j. bindE (getSupplierById db j) (\<lambda>v. Inr (v, sp_version v)))"

text \<open>201 for a supplier created, 200 for one created before.\<close>

definition create_status :: "create_result \<Rightarrow> nat" where
  "create_status r = (if cr_replayed r then 200 else 201)"

definition post_supplier ::
  "supplier_env \<Rightarrow> (json \<Rightarrow> string) \<Rightarrow> time \<Rightarrow> ident \<Rightarrow> raw_supplier \<Rightarrow> string option \<Rightarrow> supplier_db \<Rightarrow>
     (service_error + (nat \<times> supplier_row)) \<times> supplier_db" where
  "post_supplier env digest now supplierId body header =
     with_parsed (bindE (parseSupplierKey header) (\<lambda>key.
                bindE (parseOrThrow (supplierCreateSchema (se_url env)) body) (\<lambda>input. Inr (key, input))))
       (\<lambda>(key, input) db.
          let (r, db') = create_supplier digest now supplierId input key db
          in (bindE r (\<lambda>c. Inr (create_status c, cr_supplier c)), db'))"

definition put_supplier ::
  "supplier_env \<Rightarrow> time \<Rightarrow> string \<Rightarrow> raw_changes \<Rightarrow> string option \<Rightarrow> supplier_db \<Rightarrow>
     (service_error + (supplier_row \<times> int)) \<times> supplier_db" where
  "put_supplier env now i body ifMatch =
     with_parsed (bindE (parse_id env i) (\<lambda>supplierId. bindE (parseIfMatch ifMatch) (\<lambda>version.
                bindE (parseOrThrow (supplierUpdateSchema (se_url env)) body) (\<lambda>changes.
                  Inr (supplierId, version, changes)))))
       (\<lambda>(supplierId, version, changes) db.
          let (r, db') = transaction (update_tx now supplierId version changes) db
          in (bindE r (\<lambda>x. Inr (with_etag x)), db'))"

definition delete_supplier ::
  "supplier_env \<Rightarrow> time \<Rightarrow> string \<Rightarrow> string option \<Rightarrow> supplier_db \<Rightarrow>
     (service_error + (supplier_row \<times> int)) \<times> supplier_db" where
  "delete_supplier env now i ifMatch =
     with_parsed (bindE (parse_id env i) (\<lambda>supplierId. bindE (parseIfMatch ifMatch) (\<lambda>version. Inr (supplierId, version))))
       (\<lambda>(supplierId, version) db.
          let (r, db') = transaction (deactivate_tx now supplierId version) db
          in (bindE r (\<lambda>x. Inr (with_etag x)), db'))"

section \<open>Bodies and their canonical JSON\<close>

lemma map_of_sort_key: "distinct (map fst es) \<Longrightarrow> map_of (sort_key fst es) = map_of es"
  by (rule map_of_eqI) (auto simp: distinct_map)

lemma canonical_lookup:
  assumes "canonical (J_obj es) = canonical (J_obj fs)" and "distinct (map fst es)" and "distinct (map fst fs)"
  shows "map_option canonical (map_of es k) = map_option canonical (map_of fs k)"
proof -
  have "map_of (sort_key fst (map (map_prod id canonical) gs)) k = map_option canonical (map_of gs k)"
    if "distinct (map fst gs)" for gs
    using that map_of_sort_key [of "map (map_prod id canonical) gs"]
    by (simp add: map_prod_def case_prod_unfold comp_def map_of_map [unfolded case_prod_unfold])
  with assms show ?thesis by (metis canonical.simps(5) json.inject(4))
qed

lemma period_json_inj:
  assumes "canonical (period_json p) = canonical (period_json q)"
  shows "p = q"
proof -
  have days: "day_name d = day_name e \<Longrightarrow> d = e" for d e by (cases d; cases e) simp_all
  note look = canonical_lookup [OF assms [unfolded period_json_def]]
  show ?thesis
    using look [of "''day''"] look [of "''opens''"] look [of "''closes''"] by (auto dest: days intro: period.equality)
qed

lemma map_canonical_inj: "(\<And>x y. canonical (f x) = canonical (f y) \<Longrightarrow> x = y) \<Longrightarrow>
    map (canonical \<circ> f) xs = map (canonical \<circ> f) ys \<Longrightarrow> xs = ys"
  by (rule map_injective) (auto intro: injI)

lemma type_name_inj: "type_name t = type_name u \<Longrightarrow> t = u"
  by (cases t; cases u) simp_all

lemma map_of_entry:
  "map_of (entry k f v) j = (if j = k then map_option (json_opt f) v else None)"
  by (auto simp: entry_def split: option.split)

lemma fst_entry: "fst ` set (entry k f v) \<subseteq> {k}" "distinct (map fst (entry k f v))"
  by (auto simp: entry_def split: option.split)

lemma json_opt_inj:
  assumes "map_option canonical (map_option (json_opt f) v) = map_option canonical (map_option (json_opt f) w)"
    and "\<And>x y. canonical (f x) = canonical (f y) \<Longrightarrow> x = y" and "\<And>x. canonical (f x) \<noteq> J_null"
  shows "v = w"
proof -
  have "a = b" if "canonical (json_opt f a) = canonical (json_opt f b)" for a b
    using that assms(2) assms(3) assms(3) [symmetric] by (cases a; cases b) (auto simp: json_opt_def)
  then show ?thesis using assms(1) by (cases v; cases w) auto
qed

text \<open>What a body's canonical form says of each of its keys.\<close>

lemma input_entries_distinct: "distinct (map fst (input_entries s))"
  by (auto simp: input_entries_def entry_def split: option.split)

lemma input_entries_lookup:
  "map_of (input_entries s) ''name'' = Some (J_str (si_name s))"
  "map_of (input_entries s) ''type'' = Some (J_str (type_name (si_type s)))"
  "map_of (input_entries s) ''building'' = Some (J_str (si_building s))"
  "map_of (input_entries s) ''floor'' = Some (J_str (si_floor s))"
  "map_of (input_entries s) ''locationDescription'' = Some (J_str (si_locationDescription s))"
  "map_of (input_entries s) ''openingHours'' = map_option (json_opt (\<lambda>ps. J_arr (map period_json ps))) (si_openingHours s)"
  "map_of (input_entries s) ''latitude'' = map_option (json_opt J_num) (si_latitude s)"
  "map_of (input_entries s) ''longitude'' = map_option (json_opt J_num) (si_longitude s)"
  "map_of (input_entries s) ''imageUrl'' = map_option (json_opt J_str) (si_imageUrl s)"
  "map_of (input_entries s) ''tags'' = map_option (json_opt (\<lambda>ts. J_arr (map J_str ts))) (si_tags s)"
  by (simp_all add: input_entries_def map_of_entry map_add_def split: option.split)

lemma canonical_input_inj:
  assumes "canonical (input_json s) = canonical (input_json t)"
  shows "s = t"
proof -
  have "canonical (J_obj (input_entries s)) = canonical (J_obj (input_entries t))"
    using assms by (simp only: input_json_def)
  note look = canonical_lookup [OF this input_entries_distinct input_entries_distinct]
  have "si_name s = si_name t" using look [of "''name''"] by (simp add: input_entries_lookup)
  moreover have "si_type s = si_type t" using look [of "''type''"] by (simp add: input_entries_lookup type_name_inj)
  moreover have "si_building s = si_building t" using look [of "''building''"] by (simp add: input_entries_lookup)
  moreover have "si_floor s = si_floor t" using look [of "''floor''"] by (simp add: input_entries_lookup)
  moreover have "si_locationDescription s = si_locationDescription t"
    using look [of "''locationDescription''"] by (simp add: input_entries_lookup)
  moreover have "si_openingHours s = si_openingHours t"
    using look [of "''openingHours''"] unfolding input_entries_lookup
    by (rule json_opt_inj) (auto intro: map_canonical_inj [of period_json] period_json_inj simp: comp_def)
  moreover have "si_latitude s = si_latitude t"
    using look [of "''latitude''"] unfolding input_entries_lookup by (rule json_opt_inj) auto
  moreover have "si_longitude s = si_longitude t"
    using look [of "''longitude''"] unfolding input_entries_lookup by (rule json_opt_inj) auto
  moreover have "si_imageUrl s = si_imageUrl t"
    using look [of "''imageUrl''"] unfolding input_entries_lookup by (rule json_opt_inj) auto
  moreover have "si_tags s = si_tags t"
    using look [of "''tags''"] unfolding input_entries_lookup
    by (rule json_opt_inj) (auto intro: map_canonical_inj [of J_str] simp: comp_def)
  ultimately show ?thesis by (intro supplier_input.equality) simp_all
qed

end
