(* ===== verification/Supplier_Seed.thy ===== *)
theory Supplier_Seed
  imports Supplier_Service "HOL-Library.Word"
begin

text \<open>
  The seed of the catalogue (supplier-service/src/admin): reading a messy record
  (normalize.ts), the ids derived from names (uuid.ts), the files joined (csv.ts, seed-data.ts) and
  the run that inserts what is not there (seed.ts).

  Parameters: the cells a CSV parser reads from a file, \<open>Number\<close> of a coordinate's text where it is
  finite, and SHA-1. The texts of errors are left out.
\<close>

unbundle bit_operations_syntax

section \<open>Records\<close>

type_synonym csv_record = "string \<Rightarrow> string option"

definition TYPE_MAP :: "(string \<times> supplier_type) list" where
  "TYPE_MAP = [(''food'', FOOD), (''food/coffee'', CAFE), (''coffee'', CAFE), (''cafe'', CAFE),
     (''printing'', PRINTING), (''shopping'', SHOPPING), (''landmark'', LANDMARK)]"

definition seed_error :: service_error where
  "seed_error = PlainError ''seed''"

definition normalizeType :: "string \<Rightarrow> service_error + supplier_type" where
  "normalizeType raw =
     (case map_of TYPE_MAP (toLowerCase (trim raw)) of None \<Rightarrow> Inl seed_error | Some t \<Rightarrow> Inr t)"

text \<open>
  \<open>/^(\d{1,2})(\d{2})\s*hrs?$/i\<close> and \<open>/^(\d{1,2}):(\d{2})$/\<close>: the hours and the minutes they capture.
\<close>

definition hrs_time :: "string \<Rightarrow> (int \<times> int) option" where
  "hrs_time s =
     (let ds = takeWhile digit s; rest = dropWhile js_space (dropWhile digit s); n = length ds
      in if (n = 3 \<or> n = 4) \<and> toLowerCase rest \<in> {''hr'', ''hrs''}
         then Some (decimal (take (n - 2) ds), decimal (drop (n - 2) ds)) else None)"

definition colon_time :: "string \<Rightarrow> (int \<times> int) option" where
  "colon_time s =
     (let ds = takeWhile digit s; rest = dropWhile digit s
      in if (length ds = 1 \<or> length ds = 2) \<and> length rest = 3 \<and> hd rest = CHR '':'' \<and> list_all digit (tl rest)
         then Some (decimal ds, decimal (tl rest)) else None)"

definition padded :: "int \<Rightarrow> string" where
  "padded n = [char_of (48 + nat (n div 10)), char_of (48 + nat (n mod 10))]"

definition normalizeTime :: "string \<Rightarrow> service_error + string option" where
  "normalizeTime raw =
     (let s = trim raw
      in if s = [] then Inr None
         else case (case hrs_time s of Some t \<Rightarrow> Some t | None \<Rightarrow> colon_time s) of
                None \<Rightarrow> Inl seed_error
              | Some (hours, mins) \<Rightarrow>
                  if 23 < hours \<or> 59 < mins then Inl seed_error
                  else Inr (Some (padded hours @ [CHR '':''] @ padded mins)))"

definition normalizeOpeningHours :: "string \<Rightarrow> string \<Rightarrow> service_error + period list option" where
  "normalizeOpeningHours start close =
     bindE (normalizeTime start) (\<lambda>opens. bindE (normalizeTime close) (\<lambda>closes.
       case (opens, closes) of
         (None, None) \<Rightarrow> Inr None
       | (Some op, Some cl) \<Rightarrow> Inr (Some (map (\<lambda>d. \<lparr> hp_day = d, hp_opens = op, hp_closes = cl \<rparr>) DAYS))
       | _ \<Rightarrow> Inl seed_error))"

definition parseCoordinate :: "(string \<Rightarrow> rat option) \<Rightarrow> string \<Rightarrow> service_error + rat option" where
  "parseCoordinate number raw =
     (let s = trim raw
      in if s = [] then Inr None else case number s of None \<Rightarrow> Inl seed_error | Some n \<Rightarrow> Inr (Some n))"

section \<open>Ids\<close>

text \<open>UTF-8 of the characters a \<open>char\<close> can hold.\<close>

definition utf8 :: "string \<Rightarrow> 8 word list" where
  "utf8 s = concat (map (\<lambda>c. let n = of_char c :: nat in
     if n < 128 then [word_of_nat n] else [word_of_nat (192 + n div 64), word_of_nat (128 + n mod 64)]) s)"

definition hex_digit :: "nat \<Rightarrow> char" where
  "hex_digit n = ''0123456789abcdef'' ! n"

definition hex :: "8 word list \<Rightarrow> string" where
  "hex bs = concat (map (\<lambda>b. [hex_digit (unat b div 16), hex_digit (unat b mod 16)]) bs)"

definition uuidv5 :: "(8 word list \<Rightarrow> 8 word list) \<Rightarrow> string \<Rightarrow> 8 word list \<Rightarrow> ident" where
  "uuidv5 sha1 name namespace =
     (let hash = take 16 (sha1 (namespace @ utf8 name));
          bytes = hash[6 := (hash ! 6 AND 0x0f) OR 0x50, 8 := (hash ! 8 AND 0x3f) OR 0x80];
          h = hex bytes
      in take 8 h @ ''-'' @ take 4 (drop 8 h) @ ''-'' @ take 4 (drop 12 h) @ ''-'' @ take 4 (drop 16 h) @ ''-'' @ drop 20 h)"

text \<open>\<open>namespaceToBytes\<close> of \<open>SUPPLIER_NAMESPACE\<close>, f0c5a1de-0000-4000-8000-000000000001.\<close>

definition SUPPLIER_NAMESPACE :: "8 word list" where
  "SUPPLIER_NAMESPACE = [0xf0, 0xc5, 0xa1, 0xde, 0, 0, 0x40, 0, 0x80, 0, 0, 0, 0, 0, 0, 1]"

section \<open>Suppliers of records\<close>

record seed_params =
  sd_number :: "string \<Rightarrow> rat option"
  sd_sha1 :: "8 word list \<Rightarrow> 8 word list"

type_synonym supplier_seed = "ident \<times> supplier_input"

definition cell :: "csv_record \<Rightarrow> string \<Rightarrow> string" where
  "cell rec k = (case rec k of None \<Rightarrow> [] | Some s \<Rightarrow> s)"

definition seed_key :: "string \<Rightarrow> string \<Rightarrow> string" where
  "seed_key name building = toLowerCase name @ ''|'' @ building"

definition recordToSupplier :: "seed_params \<Rightarrow> csv_record \<Rightarrow> service_error + supplier_seed" where
  "recordToSupplier sd rec =
     (let name = trim (cell rec ''Name''); building = normalizeBuilding (cell rec ''Building'')
      in bindE (parseCoordinate (sd_number sd) (cell rec ''Latitude'')) (\<lambda>latitude.
         bindE (parseCoordinate (sd_number sd) (cell rec ''Longitude'')) (\<lambda>longitude.
         if (latitude = None) \<noteq> (longitude = None) then Inl seed_error
         else
         bindE (normalizeType (cell rec ''Type'')) (\<lambda>kind.
         bindE (normalizeOpeningHours (cell rec ''StartingTime'') (cell rec ''ClosingTime'')) (\<lambda>hours.
         let picture = trim (cell rec ''ImageURL'')
         in Inr (uuidv5 (sd_sha1 sd) (seed_key name building) SUPPLIER_NAMESPACE,
              \<lparr> si_name = name, si_type = kind, si_building = building, si_floor = trim (cell rec ''Floor''),
                si_locationDescription = trim (cell rec ''Location Description''),
                si_openingHours = Some hours, si_latitude = Some latitude, si_longitude = Some longitude,
                si_imageUrl = Some (if picture = [] then None else Some picture), si_tags = Some None \<rparr>))))))"

section \<open>Files\<close>

text \<open>The rows after the header, each keyed by it; a repeated heading keeps its last cell.\<close>

definition csvToRecords :: "string list list \<Rightarrow> csv_record list" where
  "csvToRecords rows =
     (case rows of
        [] \<Rightarrow> []
      | heading # rest \<Rightarrow>
          map (\<lambda>cells. map_of (rev (map (\<lambda>i. (trim (heading ! i), if i < length cells then trim (cells ! i) else [])) [0..<length heading]))) rest)"

text \<open>The JSON a normalised supplier is validated as.\<close>

definition period_raw :: "period \<Rightarrow> raw_period" where
  "period_raw p = \<lparr> rh_day = day_name (hp_day p), rh_opens = hp_opens p, rh_closes = hp_closes p \<rparr>"

definition input_body :: "supplier_input \<Rightarrow> raw_supplier" where
  "input_body s = \<lparr> rs_name = si_name s, rs_type = type_name (si_type s), rs_building = si_building s,
     rs_floor = si_floor s, rs_locationDescription = si_locationDescription s,
     rs_openingHours = map_option (map_option (map period_raw)) (si_openingHours s),
     rs_latitude = si_latitude s, rs_longitude = si_longitude s, rs_imageUrl = si_imageUrl s, rs_tags = si_tags s \<rparr>"

definition seed_row :: "(string \<Rightarrow> string option) \<Rightarrow> seed_params \<Rightarrow> csv_record \<Rightarrow> service_error + supplier_seed" where
  "seed_row url sd rec =
     bindE (recordToSupplier sd rec) (\<lambda>(i, s).
       case supplierCreateSchema url (input_body s) of None \<Rightarrow> Inl seed_error | Some _ \<Rightarrow> Inr (i, s))"

text \<open>The suppliers of the records, the first of a name and building only.\<close>

fun load_records ::
  "(string \<Rightarrow> string option) \<Rightarrow> seed_params \<Rightarrow> string list \<Rightarrow> csv_record list \<Rightarrow> service_error + supplier_seed list" where
  "load_records url sd seen [] = Inr []"
| "load_records url sd seen (rec # recs) =
     bindE (seed_row url sd rec) (\<lambda>(i, s).
       let key = seed_key (si_name s) (si_building s)
       in if key \<in> set seen then load_records url sd seen recs
          else bindE (load_records url sd (key # seen) recs) (\<lambda>more. Inr ((i, s) # more)))"

definition loadSeedSuppliers ::
  "(string \<Rightarrow> string option) \<Rightarrow> seed_params \<Rightarrow> string list list list \<Rightarrow> service_error + supplier_seed list" where
  "loadSeedSuppliers url sd files = load_records url sd [] (concat (map csvToRecords files))"

section \<open>The run\<close>

record supplier_seed_result =
  sr_created :: "string list"
  sr_skipped :: "string list"

definition seed_label :: "supplier_input \<Rightarrow> string" where
  "seed_label s = si_name s @ '' @ '' @ si_building s"

definition note_created :: "string \<Rightarrow> supplier_seed_result \<Rightarrow> supplier_seed_result" where
  "note_created l r = r\<lparr> sr_created := sr_created r @ [l] \<rparr>"

definition note_skipped :: "string \<Rightarrow> supplier_seed_result \<Rightarrow> supplier_seed_result" where
  "note_skipped l r = r\<lparr> sr_skipped := sr_skipped r @ [l] \<rparr>"

text \<open>Each insert is its own transaction: what was inserted before an error stays.\<close>

fun seedSuppliers ::
  "(nat \<Rightarrow> time) \<Rightarrow> supplier_seed list \<Rightarrow> supplier_seed_result \<Rightarrow> supplier_db \<Rightarrow> (service_error + supplier_seed_result) \<times> supplier_db" where
  "seedSuppliers clock [] result db = (Inr result, db)"
| "seedSuppliers clock ((i, s) # seeds) result db =
     (let (r, db1) = transaction (insertIfAbsent (clock 0) i s) db; later_clock = (\<lambda>n. clock (Suc n)) in
      case r of
        Inr (Some _) \<Rightarrow> seedSuppliers later_clock seeds (note_created (seed_label s) result) db1
      | Inr None \<Rightarrow> seedSuppliers later_clock seeds (note_skipped (seed_label s) result) db1
      | Inl e \<Rightarrow> if isUniqueViolation e None then seedSuppliers later_clock seeds (note_skipped (seed_label s) result) db1
                 else (Inl e, db1))"

end
