(* ===== verification/Supplier_System.thy ===== *)
theory Supplier_System
  imports Supplier_Seed
begin

text \<open>
  The Supplier Service as a step relation, the specification of what a step may do to the catalogue,
  and what every step keeps: suppliers that satisfy the schema, one active supplier of a name in a
  building, and keys that name suppliers.
\<close>

section \<open>Steps\<close>

text \<open>A seed run is one step per insert, so requests may come in between.\<close>

inductive supplier_step :: "supplier_env \<Rightarrow> (json \<Rightarrow> string) \<Rightarrow> seed_params \<Rightarrow> supplier_db \<Rightarrow> supplier_db \<Rightarrow> bool"
  for env digest sd where
  posted: "post_supplier env digest now supplierId body header db = (r, db') \<Longrightarrow> supplier_step env digest sd db db'"
| put: "put_supplier env now i changes ifMatch db = (r', db') \<Longrightarrow> supplier_step env digest sd db db'"
| deleted: "delete_supplier env now i ifMatch db = (r'', db') \<Longrightarrow> supplier_step env digest sd db db'"
| seeded: "loadSeedSuppliers (se_url env) sd files = Inr seeds \<Longrightarrow> (i, s) \<in> set seeds \<Longrightarrow>
     transaction (insertIfAbsent now i s) db = (r3, db') \<Longrightarrow> supplier_step env digest sd db db'"

definition supplier_start :: "supplier_db \<Rightarrow> bool" where
  "supplier_start db \<longleftrightarrow> suppliers db = [] \<and> supplier_keys db = []"

section \<open>What a supplier is\<close>

definition text_ok :: "nat \<Rightarrow> string \<Rightarrow> bool" where
  "text_ok most s \<longleftrightarrow> trim s = s \<and> 1 \<le> length s \<and> length s \<le> most \<and> no_nul s"

definition hours_ok :: "period list \<Rightarrow> bool" where
  "hours_ok hs \<longleftrightarrow> fits hs \<and> sorted_wrt (<) (map opens_at hs)"

definition picture_ok :: "(string \<Rightarrow> string option) \<Rightarrow> string \<Rightarrow> bool" where
  "picture_ok url p \<longleftrightarrow> trim p = p \<and> url p = Some ''https'' \<and> length p \<le> 2048 \<and> no_nul p"

definition tags_ok :: "string list \<Rightarrow> bool" where
  "tags_ok ts \<longleftrightarrow> length ts \<le> 50 \<and> list_all (text_ok 50) ts"

definition coordinates_ok :: "rat option \<Rightarrow> rat option \<Rightarrow> bool" where
  "coordinates_ok latitude longitude \<longleftrightarrow> (latitude = None) = (longitude = None) \<and>
     opt_holds (\<lambda>x. - 90 \<le> x \<and> x \<le> 90) latitude \<and> opt_holds (\<lambda>x. - 180 \<le> x \<and> x \<le> 180) longitude"

definition supplier_ok :: "(string \<Rightarrow> string option) \<Rightarrow> supplier_row \<Rightarrow> bool" where
  "supplier_ok url r \<longleftrightarrow>
     text_ok 200 (sp_name r) \<and> sp_building r \<in> set CAMPUS_BUILDINGS \<and> text_ok 50 (sp_floor r) \<and>
     text_ok 500 (sp_locationDescription r) \<and> opt_holds hours_ok (sp_openingHours r) \<and>
     coordinates_ok (sp_latitude r) (sp_longitude r) \<and> opt_holds (picture_ok url) (sp_imageUrl r) \<and>
     opt_holds tags_ok (sp_tags r) \<and> 1 \<le> sp_version r \<and>
     toLowerCase (sp_supplierId r) = sp_supplierId r"

definition catalogue_ok :: "(string \<Rightarrow> string option) \<Rightarrow> supplier_db \<Rightarrow> bool" where
  "catalogue_ok url db \<longleftrightarrow>
     distinct (map sp_supplierId (suppliers db)) \<and> (\<forall>r \<in> set (suppliers db). supplier_ok url r) \<and>
     distinct (map index_key (filter sp_active (suppliers db))) \<and>
     distinct (map sk_idempotencyKey (supplier_keys db)) \<and>
     sk_supplierId ` set (supplier_keys db) \<subseteq> sp_supplierId ` set (suppliers db)"

section \<open>What schemas accept\<close>

lemma no_nul_trim: "no_nul s \<Longrightarrow> no_nul (trim s)"
  by (auto simp: no_nul_def trim_def dest!: set_dropWhileD)

lemma text_field_ok: "text_field most s = Some t \<Longrightarrow> text_ok most t"
  by (auto simp: text_field_def text_ok_def Let_def no_nul_trim split: if_splits)

lemma image_field_ok: "image_field url s = Some u \<Longrightarrow> picture_ok url u"
  by (auto simp: image_field_def picture_ok_def Let_def split: if_splits)

lemma tags_field_ok: "tags_field ts = Some us \<Longrightarrow> tags_ok us"
  by (auto simp: tags_field_def every_def tags_ok_def list_all_iff split: if_splits) (metis option.sel text_field_ok)

lemma building_field_ok: "building_field s = Some b \<Longrightarrow> b \<in> set CAMPUS_BUILDINGS"
  by (auto simp: building_field_def Let_def split: option.splits if_splits)

lemma hours_field_ok: "hours_field raws = Some hs \<Longrightarrow> hours_ok hs"
proof -
  assume "hours_field raws = Some hs"
  then have "openingHoursSchema raws = Inr hs" by (simp add: hours_field_def split: sum.splits)
  then obtain ps where "fits ps" "hs = sort_key hours_order ps" unfolding openingHoursSchema_iff by blast
  then show ?thesis using fits_sorted [of ps] fits_perm [of hs ps] by (simp add: hours_ok_def)
qed

lemma in_range_Some: "in_range most x = Some y \<longleftrightarrow> y = x \<and> - most \<le> x \<and> x \<le> most"
  by (auto simp: in_range_def)

lemma optionally_Some:
  "optionally f v = Some w \<longleftrightarrow> (case v of None \<Rightarrow> w = None | Some x \<Rightarrow> \<exists>y. f x = Some y \<and> w = Some y)"
  by (auto simp: optionally_def split: option.splits)

lemma optionally_holds: "optionally f v = Some w \<Longrightarrow> (\<And>x y. f x = Some y \<Longrightarrow> P y) \<Longrightarrow> opt_holds P w"
  by (auto simp: optionally_Some opt_holds_def split: option.splits)

lemma paired_ok:
  assumes "optionally (optionally (in_range 90)) v = Some latitude" and "optionally (optionally (in_range 180)) w = Some longitude"
    and "coordinatesPaired latitude longitude"
  shows "coordinates_ok (or_null latitude) (or_null longitude)"
  using assms by (auto simp: in_range_Some optionally_Some coordinatesPaired_def coordinates_ok_def or_null_def opt_holds_def split: option.splits)

text \<open>A body that was accepted makes a supplier that is as it should be.\<close>

definition input_ok :: "(string \<Rightarrow> string option) \<Rightarrow> supplier_input \<Rightarrow> bool" where
  "input_ok url s \<longleftrightarrow> text_ok 200 (si_name s) \<and> si_building s \<in> set CAMPUS_BUILDINGS \<and> text_ok 50 (si_floor s) \<and>
     text_ok 500 (si_locationDescription s) \<and> opt_holds hours_ok (or_null (si_openingHours s)) \<and>
     coordinates_ok (or_null (si_latitude s)) (or_null (si_longitude s)) \<and>
     opt_holds (picture_ok url) (or_null (si_imageUrl s)) \<and> opt_holds tags_ok (or_null (si_tags s))"

lemma insertValues_ok: "input_ok url s \<Longrightarrow> supplier_ok url (insertValues now i s)"
  by (simp add: input_ok_def supplier_ok_def insertValues_def)

lemma supplierCreateSchema_cases:
  assumes "supplierCreateSchema url r = Some s"
  obtains
    "text_field 200 (rs_name r) = Some (si_name s)" "building_field (rs_building r) = Some (si_building s)"
    "text_field 50 (rs_floor r) = Some (si_floor s)" "text_field 500 (rs_locationDescription r) = Some (si_locationDescription s)"
    "optionally (optionally hours_field) (rs_openingHours r) = Some (si_openingHours s)"
    "optionally (optionally (in_range 90)) (rs_latitude r) = Some (si_latitude s)"
    "optionally (optionally (in_range 180)) (rs_longitude r) = Some (si_longitude s)"
    "coordinatesPaired (si_latitude s) (si_longitude s)"
    "optionally (optionally (image_field url)) (rs_imageUrl r) = Some (si_imageUrl s)"
    "optionally (optionally tags_field) (rs_tags r) = Some (si_tags s)"
  using assms by (auto simp: supplierCreateSchema_def split: option.splits if_splits)

lemma hours_or_null: "optionally (optionally hours_field) v = Some w \<Longrightarrow> opt_holds hours_ok (or_null w)"
  by (auto simp: optionally_Some or_null_def opt_holds_def dest: hours_field_ok split: option.splits)

lemma picture_or_null: "optionally (optionally (image_field url)) v = Some w \<Longrightarrow> opt_holds (picture_ok url) (or_null w)"
  by (auto simp: optionally_Some or_null_def opt_holds_def dest: image_field_ok split: option.splits)

lemma tags_or_null: "optionally (optionally tags_field) v = Some w \<Longrightarrow> opt_holds tags_ok (or_null w)"
  by (auto simp: optionally_Some or_null_def opt_holds_def dest: tags_field_ok split: option.splits)

lemma supplierCreateSchema_ok: "supplierCreateSchema url r = Some s \<Longrightarrow> input_ok url s"
  by (erule supplierCreateSchema_cases)
    (simp add: input_ok_def text_field_ok building_field_ok hours_or_null picture_or_null tags_or_null paired_ok)

section \<open>What seeds are\<close>

lemma normalizeBuilding_trim: "trim (normalizeBuilding s) = normalizeBuilding s \<or> normalizeBuilding s \<in> set CAMPUS_BUILDINGS"
  by (auto simp: normalizeBuilding_def tidyBuilding_def canonical_on_campus split: option.splits)

lemma period_raw_entry: "openingHoursEntry (period_raw p) = Some q \<Longrightarrow> q = p"
proof -
  assume q: "openingHoursEntry (period_raw p) = Some q"
  have "parse_day (day_name (hp_day p)) = Some (hp_day p)"
    by (cases "hp_day p") (simp_all add: parse_day_def DAYS_def)
  with q show ?thesis
    by (auto simp: openingHoursEntry_def period_raw_def split: if_splits intro: period.equality)
qed

lemma raw_hours_fit:
  assumes "hours_field (map period_raw ps) = Some hs"
  shows "fits ps"
proof -
  from assms have "openingHoursSchema (map period_raw ps) = Inr hs" by (simp add: hours_field_def split: sum.splits)
  then obtain qs where qs: "map openingHoursEntry (map period_raw ps) = map Some qs" "fits qs"
    unfolding openingHoursSchema_iff by blast
  have "qs = ps"
  proof (rule nth_equalityI)
    show len: "length qs = length ps" using arg_cong [OF qs(1), of length] by simp
    fix k assume "k < length qs"
    then show "qs ! k = ps ! k"
      using arg_cong [OF qs(1), of "\<lambda>xs. xs ! k"] len period_raw_entry by simp
  qed
  with qs show ?thesis by simp
qed

lemma daily_hours_sorted: "sorted_wrt (<) (map opens_at (map (\<lambda>d. \<lparr> hp_day = d, hp_opens = op, hp_closes = cl \<rparr>) DAYS))"
  by (simp add: opens_at_def DAYS_def MINUTES_PER_DAY_def)

lemma normalized_hours:
  "normalizeOpeningHours start close = Inr (Some hs) \<Longrightarrow> \<exists>op cl. hs = map (\<lambda>d. \<lparr> hp_day = d, hp_opens = op, hp_closes = cl \<rparr>) DAYS"
  by (auto simp: normalizeOpeningHours_def bindE_eq_Inr split: option.splits)

lemma seed_row_ok:
  assumes "seed_row url sd rec = Inr (i, s)"
  shows "input_ok url s"
proof -
  from assms obtain s' where s: "recordToSupplier sd rec = Inr (i, s)" and s': "supplierCreateSchema url (input_body s) = Some s'"
    by (auto simp: seed_row_def bindE_eq_Inr split: option.splits)
  from s obtain latitude longitude hours where parts: "si_name s = trim (cell rec ''Name'')"
    "si_building s = normalizeBuilding (cell rec ''Building'')" "si_floor s = trim (cell rec ''Floor'')"
    "si_locationDescription s = trim (cell rec ''Location Description'')"
    "si_openingHours s = Some hours" "si_latitude s = Some latitude" "si_longitude s = Some longitude"
    "si_imageUrl s = Some (if trim (cell rec ''ImageURL'') = [] then None else Some (trim (cell rec ''ImageURL'')))"
    "si_tags s = Some None"
    and paired: "(latitude = None) = (longitude = None)"
    and hours: "normalizeOpeningHours (cell rec ''StartingTime'') (cell rec ''ClosingTime'') = Inr hours"
    by (auto simp: recordToSupplier_def Let_def bindE_eq_Inr split: if_splits)
  from s' show ?thesis
  proof (rule supplierCreateSchema_cases)
    assume n: "text_field 200 (rs_name (input_body s)) = Some (si_name s')"
      and b: "building_field (rs_building (input_body s)) = Some (si_building s')"
      and f: "text_field 50 (rs_floor (input_body s)) = Some (si_floor s')"
      and l: "text_field 500 (rs_locationDescription (input_body s)) = Some (si_locationDescription s')"
      and h: "optionally (optionally hours_field) (rs_openingHours (input_body s)) = Some (si_openingHours s')"
      and lat: "optionally (optionally (in_range 90)) (rs_latitude (input_body s)) = Some (si_latitude s')"
      and lng: "optionally (optionally (in_range 180)) (rs_longitude (input_body s)) = Some (si_longitude s')"
      and pic: "optionally (optionally (image_field url)) (rs_imageUrl (input_body s)) = Some (si_imageUrl s')"
    have "text_ok 200 (si_name s)" "text_ok 50 (si_floor s)" "text_ok 500 (si_locationDescription s)"
      using n f l by (auto simp: text_field_def text_ok_def input_body_def parts Let_def split: if_splits)
    moreover have "si_building s \<in> set CAMPUS_BUILDINGS"
    proof -
      have "normalizeBuilding (trim (si_building s)) \<in> set CAMPUS_BUILDINGS"
        using b by (auto simp: building_field_def text_field_def input_body_def Let_def split: option.splits if_splits)
      then show ?thesis using normalizeBuilding_trim [of "cell rec ''Building''"] by (auto simp: parts)
    qed
    moreover have "opt_holds hours_ok (or_null (si_openingHours s))"
    proof (cases hours)
      case None
      then show ?thesis by (simp add: parts or_null_def opt_holds_def)
    next
      case (Some ps)
      then obtain op cl where "ps = map (\<lambda>d. \<lparr> hp_day = d, hp_opens = op, hp_closes = cl \<rparr>) DAYS"
        using normalized_hours hours by blast
      moreover have "fits ps"
        using h Some by (auto simp: input_body_def parts optionally_Some intro: raw_hours_fit)
      ultimately show ?thesis using Some daily_hours_sorted by (simp add: parts or_null_def opt_holds_def hours_ok_def)
    qed
    moreover have "coordinates_ok (or_null (si_latitude s)) (or_null (si_longitude s))"
      using lat lng paired
      by (auto simp: in_range_Some input_body_def parts optionally_Some coordinates_ok_def or_null_def opt_holds_def split: option.splits)
    moreover have "opt_holds (picture_ok url) (or_null (si_imageUrl s))" "opt_holds tags_ok (or_null (si_tags s))"
      using pic by (auto simp: input_body_def parts optionally_Some image_field_def picture_ok_def or_null_def opt_holds_def Let_def split: if_splits)
    ultimately show ?thesis by (simp add: input_ok_def)
  qed
qed

lemma load_records_ok: "load_records url sd seen recs = Inr seeds \<Longrightarrow> (i, s) \<in> set seeds \<Longrightarrow> input_ok url s"
proof (induction recs arbitrary: seen seeds)
  case Nil
  then show ?case by simp
next
  case (Cons rec recs)
  then show ?case
    by (auto simp: bindE_eq_Inr Let_def dest: seed_row_ok split: if_splits)
qed

section \<open>The specification: movements of the catalogue\<close>

text \<open>
  A step leaves the catalogue alone, adds one supplier at version one, perhaps with the key it was
  created under, or writes one supplier over with the next version.
\<close>

inductive catalogue_move :: "(string \<Rightarrow> string option) \<Rightarrow> supplier_db \<Rightarrow> supplier_db \<Rightarrow> bool"
  for url where
  stays: "catalogue_move url db db"
| adds: "\<lbrakk> supplier_ok url r; sp_version r = 1; sp_supplierId r \<notin> sp_supplierId ` set (suppliers db);
     index_free r (suppliers db);
     keys = supplier_keys db \<or>
     (\<exists>k. keys = supplier_keys db @ [k] \<and> sk_idempotencyKey k \<notin> sk_idempotencyKey ` set (supplier_keys db) \<and>
          sk_supplierId k = sp_supplierId r) \<rbrakk>
   \<Longrightarrow> catalogue_move url db (db\<lparr> suppliers := suppliers db @ [r], supplier_keys := keys \<rparr>)"
| writes: "\<lbrakk> r \<in> set (suppliers db); supplier_ok url r'; sp_supplierId r' = sp_supplierId r; sp_version r' = sp_version r + 1;
     index_free r' (filter (\<lambda>x. sp_supplierId x \<noteq> sp_supplierId r) (suppliers db)) \<rbrakk>
   \<Longrightarrow> catalogue_move url db
        (db\<lparr> suppliers := map (\<lambda>x. if sp_supplierId x = sp_supplierId r then r' else x) (suppliers db) \<rparr>)"

lemma insert_moves:
  assumes "input_ok url s" and "insert_supplier now i s db = Inr (r, db')"
  shows "r = insertValues now i s" "db' = db\<lparr> suppliers := suppliers db @ [r] \<rparr>" "supplier_ok url r"
    "sp_supplierId r \<notin> sp_supplierId ` set (suppliers db)" "index_free r (suppliers db)" "sp_version r = 1"
    "sp_supplierId r = toLowerCase i"
  using assms insertValues_ok [OF assms(1), of now i]
  by (auto simp: insert_supplier_def Let_def bindE_eq_Inr split: if_splits) (simp_all add: insertValues_def)

lemma insertIfAbsent_moves:
  assumes "input_ok url s" and "transaction (insertIfAbsent now i s) db = (r, db')"
  shows "catalogue_move url db db'"
proof -
  let ?r = "insertValues now i s"
  consider "db' = db"
    | "db' = db\<lparr> suppliers := suppliers db @ [?r] \<rparr>" "sp_supplierId ?r \<notin> sp_supplierId ` set (suppliers db)" "index_free ?r (suppliers db)"
    using assms(2) by (auto simp: transaction_def insertIfAbsent_def Let_def bindE_def split: sum.splits if_splits)
  then show ?thesis
  proof cases
    case 2
    then have "catalogue_move url db (db\<lparr> suppliers := suppliers db @ [?r], supplier_keys := supplier_keys db \<rparr>)"
      using insertValues_ok [OF assms(1)] by (intro adds) (simp_all add: insertValues_def)
    then show ?thesis by (simp add: 2(1))
  qed (simp add: stays)
qed

lemma write_row_moves:
  assumes "write_row r f db = Inr (x, db')" and "r \<in> set (suppliers db)" and "distinct (map sp_supplierId (suppliers db))"
    and "supplier_ok url (f r)" and "sp_supplierId (f r) = sp_supplierId r" and "sp_version (f r) = sp_version r + 1"
  shows "catalogue_move url db db'" and "x = Some (f r)"
proof -
  have "update_rows (\<lambda>x. sp_supplierId x = sp_supplierId r) f (suppliers db) =
      map (\<lambda>x. if sp_supplierId x = sp_supplierId r then f r else x) (suppliers db)"
    unfolding update_rows_def
  proof (rule map_cong [OF refl])
    fix y assume "y \<in> set (suppliers db)"
    then have "sp_supplierId y = sp_supplierId r \<Longrightarrow> y = r"
      using assms(2,3) by (auto simp: distinct_map dest: inj_onD)
    then show "(if sp_supplierId y = sp_supplierId r then f y else y) = (if sp_supplierId y = sp_supplierId r then f r else y)"
      by auto
  qed
  with assms show "catalogue_move url db db'" "x = Some (f r)"
    by (auto simp: write_row_def bindE_eq_Inr split: if_splits intro!: writes [of r])
qed

text \<open>Changes that were accepted keep a supplier as it should be.\<close>

definition changes_ok :: "(string \<Rightarrow> string option) \<Rightarrow> supplier_changes \<Rightarrow> bool" where
  "changes_ok url v \<longleftrightarrow>
     opt_holds (text_ok 200) (sc_name v) \<and> opt_holds (\<lambda>b. b \<in> set CAMPUS_BUILDINGS) (sc_building v) \<and>
     opt_holds (text_ok 50) (sc_floor v) \<and> opt_holds (text_ok 500) (sc_locationDescription v) \<and>
     opt_holds (opt_holds hours_ok) (sc_openingHours v) \<and>
     (sc_latitude v = None \<and> sc_longitude v = None \<or>
      (\<exists>x y. sc_latitude v = Some x \<and> sc_longitude v = Some y \<and> coordinates_ok x y)) \<and>
     opt_holds (opt_holds (picture_ok url)) (sc_imageUrl v) \<and> opt_holds (opt_holds tags_ok) (sc_tags v)"

lemma supplierUpdateSchema_ok:
  assumes "supplierUpdateSchema url r = Some v"
  shows "changes_ok url v"
proof -
  have fields: "optionally (text_field 200) (rc_name r) = Some (sc_name v)" "optionally building_field (rc_building r) = Some (sc_building v)"
    "optionally (text_field 50) (rc_floor r) = Some (sc_floor v)"
    "optionally (text_field 500) (rc_locationDescription r) = Some (sc_locationDescription v)"
    "optionally (optionally hours_field) (rc_openingHours r) = Some (sc_openingHours v)"
    "optionally (optionally (image_field url)) (rc_imageUrl r) = Some (sc_imageUrl v)"
    "optionally (optionally tags_field) (rc_tags r) = Some (sc_tags v)"
    and lat: "optionally (optionally (in_range 90)) (rc_latitude r) = Some (sc_latitude v)"
    and lng: "optionally (optionally (in_range 180)) (rc_longitude r) = Some (sc_longitude v)"
    and paired: "sc_latitude v \<noteq> None \<or> sc_longitude v \<noteq> None \<Longrightarrow> coordinatesPaired (sc_latitude v) (sc_longitude v)"
    using assms by (auto simp: supplierUpdateSchema_def Let_def split: option.splits if_splits)
  have "opt_holds (text_ok 200) (sc_name v)" "opt_holds (\<lambda>b. b \<in> set CAMPUS_BUILDINGS) (sc_building v)"
    "opt_holds (text_ok 50) (sc_floor v)" "opt_holds (text_ok 500) (sc_locationDescription v)"
    "opt_holds (opt_holds hours_ok) (sc_openingHours v)" "opt_holds (opt_holds (picture_ok url)) (sc_imageUrl v)"
    "opt_holds (opt_holds tags_ok) (sc_tags v)"
    using fields by (auto elim!: optionally_holds intro: text_field_ok building_field_ok hours_field_ok image_field_ok tags_field_ok)
  moreover have "sc_latitude v = None \<and> sc_longitude v = None \<or>
      (\<exists>x y. sc_latitude v = Some x \<and> sc_longitude v = Some y \<and> coordinates_ok x y)"
  proof (cases "sc_latitude v \<noteq> None \<or> sc_longitude v \<noteq> None")
    case True
    with paired have c: "coordinatesPaired (sc_latitude v) (sc_longitude v)" .
    with True obtain x y where xy: "sc_latitude v = Some x" "sc_longitude v = Some y"
      by (auto simp: coordinatesPaired_def Let_def split: if_splits)
    with paired_ok [OF lat lng c] show ?thesis by (simp add: or_null_def)
  qed simp
  ultimately show ?thesis by (simp add: changes_ok_def)
qed

lemma or_keep_holds: "opt_holds P v \<Longrightarrow> P x \<Longrightarrow> P (or_keep v x)"
  by (simp add: opt_holds_def or_keep_def split: option.splits)

lemma apply_supplier_changes_ok:
  assumes "changes_ok url v" and "supplier_ok url r"
  shows "supplier_ok url (apply_supplier_changes now v r)"
proof -
  have "coordinates_ok (or_keep (sc_latitude v) (sp_latitude r)) (or_keep (sc_longitude v) (sp_longitude r))"
    using assms by (auto simp: changes_ok_def supplier_ok_def or_keep_def)
  moreover have "text_ok 200 (or_keep (sc_name v) (sp_name r))" "or_keep (sc_building v) (sp_building r) \<in> set CAMPUS_BUILDINGS"
    "text_ok 50 (or_keep (sc_floor v) (sp_floor r))" "text_ok 500 (or_keep (sc_locationDescription v) (sp_locationDescription r))"
    "opt_holds hours_ok (or_keep (sc_openingHours v) (sp_openingHours r))"
    "opt_holds (picture_ok url) (or_keep (sc_imageUrl v) (sp_imageUrl r))" "opt_holds tags_ok (or_keep (sc_tags v) (sp_tags r))"
    using assms by (simp_all add: changes_ok_def supplier_ok_def or_keep_holds [of "text_ok _"] or_keep_holds [of "opt_holds _"]
        or_keep_holds [of "\<lambda>b. b \<in> set CAMPUS_BUILDINGS"])
  moreover have "1 \<le> sp_version r" "toLowerCase (sp_supplierId r) = sp_supplierId r" using assms(2) by (simp_all add: supplier_ok_def)
  ultimately show ?thesis by (simp add: supplier_ok_def apply_supplier_changes_def)
qed

lemma apply_supplier_changes_fixed [simp]:
  "sp_supplierId (apply_supplier_changes now v r) = sp_supplierId r" "sp_version (apply_supplier_changes now v r) = sp_version r + 1"
  by (simp_all add: apply_supplier_changes_def)

lemma duplicate_or_Inr [simp]: "duplicate_or m = Inr x \<longleftrightarrow> m = Inr x"
  by (auto simp: duplicate_or_def split: sum.splits)

lemma update_moves:
  assumes ok: "catalogue_ok url db" and v: "changes_ok url v" and run: "update_supplier now i expected v db = Inr (x, db')"
  shows "catalogue_move url db db'"
proof (cases "find (\<lambda>r. sp_supplierId r = toLowerCase i \<and> sp_version r = expected) (suppliers db)")
  case None
  with run show ?thesis by (simp add: update_supplier_def stays)
next
  case (Some r)
  then have r: "r \<in> set (suppliers db)" by (auto simp: find_Some_iff)
  with ok have "supplier_ok url r" by (simp add: catalogue_ok_def)
  with run Some r ok v show ?thesis
    by (intro write_row_moves(1) [of r "apply_supplier_changes now v" db x]) (simp_all add: update_supplier_def catalogue_ok_def apply_supplier_changes_ok)
qed

lemma deactivate_moves:
  assumes ok: "catalogue_ok url db" and run: "deactivate_supplier now i expected db = Inr (x, db')"
  shows "catalogue_move url db db'"
proof (cases "find (\<lambda>r. sp_supplierId r = toLowerCase i \<and> sp_version r = expected \<and> sp_active r) (suppliers db)")
  case None
  with run show ?thesis by (simp add: deactivate_supplier_def stays)
next
  case (Some r)
  let ?f = "\<lambda>r. r\<lparr> sp_active := False, sp_version := sp_version r + 1, sp_updatedAt := now \<rparr>"
  from Some have r: "r \<in> set (suppliers db)" by (auto simp: find_Some_iff)
  with ok have "supplier_ok url (?f r)" by (auto simp: catalogue_ok_def supplier_ok_def)
  with run Some r ok show ?thesis
    by (intro write_row_moves(1) [of r ?f db x]) (simp_all add: deactivate_supplier_def catalogue_ok_def)
qed

lemma versioned_keeps: "versioned settled i (x, db) = Inr (r, db') \<Longrightarrow> db' = db"
  by (auto simp: versioned_def split: option.splits if_splits)

lemma insert_new_moves:
  assumes "input_ok url s" and "insert_new now i s claim db = Inr (c, db')"
    and "claim = id \<or> (\<exists>key hash. key \<notin> sk_idempotencyKey ` set (supplier_keys db) \<and> claim = (\<lambda>d. snd (claimIdempotencyKey now key i hash d)))"
  shows "catalogue_move url db db'"
proof -
  from assms(2) obtain r db1 where ins: "insert_supplier now i s db = Inr (r, db1)" and db': "db' = claim db1"
    by (auto simp: insert_new_def bindE_eq_Inr)
  note parts = insert_moves [OF assms(1) ins]
  obtain keys where "db' = db\<lparr> suppliers := suppliers db @ [r], supplier_keys := keys \<rparr>"
    and "keys = supplier_keys db \<or>
     (\<exists>k. keys = supplier_keys db @ [k] \<and> sk_idempotencyKey k \<notin> sk_idempotencyKey ` set (supplier_keys db) \<and>
          sk_supplierId k = sp_supplierId r)"
    using assms(3) db' parts(2,7) by (intro that [of "supplier_keys db'"]) (auto simp: claimIdempotencyKey_def)
  with parts show ?thesis by (simp add: adds)
qed

lemma create_moves:
  assumes "input_ok url s" and "create_tx digest now i s key db = Inr (c, db')"
  shows "catalogue_move url db db'"
proof (cases "key_given key")
  case None
  with assms show ?thesis by (auto simp: create_tx_def intro: insert_new_moves)
next
  case (Some k)
  show ?thesis
  proof (cases "findSupplierKey db k")
    case None
    then have "k \<notin> sk_idempotencyKey ` set (supplier_keys db)" by (simp add: findSupplierKey_def row_of_None)
    with None Some assms show ?thesis
      by (intro insert_new_moves [OF assms(1)]) (auto simp: create_tx_def Let_def)
  next
    case (Some e)
    with \<open>key_given key = Some k\<close> assms show ?thesis
      by (auto simp: create_tx_def Let_def stays split: if_splits option.splits)
  qed
qed

section \<open>Every step is a movement\<close>

lemma transaction_moves:
  "transaction fn db = (r, db') \<Longrightarrow> (\<And>x d. fn db = Inr (x, d) \<Longrightarrow> catalogue_move url db d) \<Longrightarrow> catalogue_move url db db'"
  by (auto simp: transaction_def stays split: sum.splits)

lemma step_moves:
  assumes "catalogue_ok (se_url env) db" and "supplier_step env digest sd db db'"
  shows "catalogue_move (se_url env) db db'"
  using assms(2)
proof cases
  case (posted now supplierId body header r)
  show ?thesis
  proof (cases "bindE (parseSupplierKey header) (\<lambda>key.
                bindE (parseOrThrow (supplierCreateSchema (se_url env)) body) (\<lambda>input. Inr (key, input)))")
    case (Inl e)
    with posted show ?thesis by (simp add: post_supplier_def with_parsed_def stays)
  next
    case (Inr p)
    then obtain key input where p: "p = (key, input)" "supplierCreateSchema (se_url env) body = Some input"
      by (auto simp: bindE_eq_Inr parseOrThrow_def split: option.splits)
    with Inr posted obtain c where "transaction (create_tx digest now supplierId input key) db = (c, db')"
      by (auto simp: post_supplier_def with_parsed_def create_supplier_def split: prod.splits)
    then show ?thesis using p by (auto elim!: transaction_moves intro: create_moves supplierCreateSchema_ok)
  qed
next
  case (put now i changes ifMatch r')
  show ?thesis
  proof (cases "bindE (parse_id env i) (\<lambda>supplierId. bindE (parseIfMatch ifMatch) (\<lambda>version.
                bindE (parseOrThrow (supplierUpdateSchema (se_url env)) changes) (\<lambda>changes. Inr (supplierId, version, changes))))")
    case (Inl e)
    with put show ?thesis by (simp add: put_supplier_def with_parsed_def stays)
  next
    case (Inr p)
    then obtain j version v where p: "p = (j, version, v)" "supplierUpdateSchema (se_url env) changes = Some v"
      by (auto simp: bindE_eq_Inr parseOrThrow_def split: option.splits)
    with Inr put obtain c where "transaction (update_tx now j version v) db = (c, db')"
      by (auto simp: put_supplier_def with_parsed_def split: prod.splits)
    then show ?thesis
      using p(2) assms(1) by (auto elim!: transaction_moves dest!: versioned_keeps supplierUpdateSchema_ok
          simp: update_tx_def bindE_eq_Inr intro: update_moves)
  qed
next
  case (deleted now i ifMatch r'')
  show ?thesis
  proof (cases "bindE (parse_id env i) (\<lambda>supplierId. bindE (parseIfMatch ifMatch) (\<lambda>version. Inr (supplierId, version)))")
    case (Inl e)
    with deleted show ?thesis by (simp add: delete_supplier_def with_parsed_def stays)
  next
    case (Inr p)
    with deleted obtain c where "transaction (deactivate_tx now (fst p) (snd p)) db = (c, db')"
      by (auto simp: delete_supplier_def with_parsed_def split: prod.splits)
    then show ?thesis
      using assms(1) by (auto elim!: transaction_moves dest!: versioned_keeps simp: deactivate_tx_def bindE_eq_Inr intro: deactivate_moves)
  qed
next
  case (seeded files seeds i s now r3)
  then have "input_ok (se_url env) s" by (auto simp: loadSeedSuppliers_def intro: load_records_ok)
  with seeded show ?thesis by (auto intro: insertIfAbsent_moves)
qed

section \<open>What every movement keeps\<close>

lemma index_free_append:
  assumes "distinct (map index_key (filter sp_active rows))" and "index_free r rows"
  shows "distinct (map index_key (filter sp_active (rows @ [r])))"
  using assms by (auto simp: index_free_def list_ex_iff)

lemma index_free_write:
  assumes "distinct (map sp_supplierId rows)" and "distinct (map index_key (filter sp_active rows))" and "sp_supplierId r' = i"
    and "index_free r' (filter (\<lambda>x. sp_supplierId x \<noteq> i) rows)"
  shows "distinct (map index_key (filter sp_active (map (\<lambda>x. if sp_supplierId x = i then r' else x) rows)))"
  using assms
proof (induction rows)
  case Nil
  then show ?case by simp
next
  case (Cons x rows)
  let ?g = "\<lambda>x. if sp_supplierId x = i then r' else x"
  have IH: "distinct (map index_key (filter sp_active (map ?g rows)))"
    using Cons by (intro Cons.IH) (auto simp: index_free_def split: if_splits)
  show ?case
  proof (cases "sp_supplierId x = i")
    case True
    with Cons.prems(1) have others: "sp_supplierId y \<noteq> i" if "y \<in> set rows" for y using that by (metis distinct.simps(2) image_eqI list.set_map list.simps(9))
    then have "map ?g rows = rows" by (intro map_idI) simp
    moreover from others have "filter (\<lambda>x. sp_supplierId x \<noteq> i) rows = rows" by (intro filter_True) simp
    then have "index_free r' rows" using Cons.prems(4) True by simp
    ultimately show ?thesis using IH True by (auto simp: index_free_def list_ex_iff)
  next
    case False
    have other: "index_key y \<noteq> index_key x" if "y \<in> set (map ?g rows)" "sp_active y" "sp_active x" for y
    proof (cases "y \<in> set rows")
      case True
      with that have "index_key y \<in> index_key ` {z \<in> set rows. sp_active z}" by blast
      moreover have "index_key x \<notin> index_key ` {z \<in> set rows. sp_active z}" using Cons.prems(2) that(3) by simp
      ultimately show ?thesis by metis
    next
      case not_row: False
      with that have "y = r'" by (auto split: if_splits)
      then show ?thesis using Cons.prems(4) that False by (auto simp: index_free_def)
    qed
    define R where "R = map ?g rows"
    have "index_key x \<notin> index_key ` {z \<in> set R. sp_active z}" if "sp_active x"
    proof
      assume "index_key x \<in> index_key ` {z \<in> set R. sp_active z}"
      then obtain z where z: "index_key x = index_key z" "z \<in> {z \<in> set R. sp_active z}" by (rule imageE)
      then have "z \<in> set (map ?g rows)" "sp_active z" unfolding R_def by simp_all
      from other [OF this that] z(1) show False by simp
    qed
    moreover have "distinct (map index_key (filter sp_active R))" using IH R_def by simp
    ultimately have "distinct (map index_key (filter sp_active (x # R)))" by simp
    with False show ?thesis by (simp add: R_def)
  qed
qed

lemma move_keeps_catalogue:
  assumes "catalogue_move url db db'" and "catalogue_ok url db"
  shows "catalogue_ok url db'"
  using assms(1)
proof cases
  case stays
  with assms show ?thesis by simp
next
  case (adds r keys)
  have old: "sk_supplierId k \<in> sp_supplierId ` set (suppliers db)" if "k \<in> set (supplier_keys db)" for k
    using that assms(2) by (auto simp: catalogue_ok_def)
  have "distinct (map sk_idempotencyKey keys)" "sk_supplierId ` set keys \<subseteq> insert (sp_supplierId r) (sp_supplierId ` set (suppliers db))"
    using adds(6) assms(2) old by (auto simp: catalogue_ok_def)
  then show ?thesis
    using assms(2) adds index_free_append [of "suppliers db" r] by (auto simp: catalogue_ok_def simp del: filter_append)
next
  case (writes r r')
  let ?g = "\<lambda>x. if sp_supplierId x = sp_supplierId r then r' else x"
  have ids: "map sp_supplierId (map ?g (suppliers db)) = map sp_supplierId (suppliers db)"
    using writes by (simp add: comp_def)
  have "distinct (map index_key (filter sp_active (map ?g (suppliers db))))"
    using assms(2) writes by (intro index_free_write) (simp_all add: catalogue_ok_def)
  moreover have "sp_supplierId ` set (map ?g (suppliers db)) = sp_supplierId ` set (suppliers db)"
    using ids by (metis list.set_map)
  moreover have "\<forall>x \<in> set (map ?g (suppliers db)). supplier_ok url x" using assms(2) writes by (auto simp: catalogue_ok_def)
  moreover have "distinct (map sp_supplierId (map ?g (suppliers db)))" unfolding ids using assms(2) by (simp add: catalogue_ok_def)
  ultimately show ?thesis
    using assms(2) unfolding catalogue_ok_def writes(1) by (simp del: map_map set_map)
qed

interpretation catalogue: inductive_invariant supplier_start "supplier_step env digest sd" "catalogue_ok (se_url env)" for env digest sd
proof
  show "catalogue_ok (se_url env) s" if "supplier_start s" for s using that by (simp add: supplier_start_def catalogue_ok_def)
  show "catalogue_ok (se_url env) t" if "catalogue_ok (se_url env) s" "supplier_step env digest sd s t" for s t
    using that by (auto intro: move_keeps_catalogue step_moves)
qed

section \<open>Later states\<close>

text \<open>Suppliers stay, at their version or a later one, and so do keys.\<close>

definition evolves :: "supplier_db \<Rightarrow> supplier_db \<Rightarrow> bool" where
  "evolves db db' \<longleftrightarrow>
     (\<forall>x \<in> set (suppliers db). \<exists>y \<in> set (suppliers db'). sp_supplierId y = sp_supplierId x \<and> (y = x \<or> sp_version x < sp_version y)) \<and>
     set (supplier_keys db) \<subseteq> set (supplier_keys db')"

lemma evolves_refl: "evolves db db"
  by (auto simp: evolves_def)

lemma evolves_trans:
  assumes "evolves a b" and "evolves b c"
  shows "evolves a c"
  unfolding evolves_def
proof (intro conjI ballI)
  show "set (supplier_keys a) \<subseteq> set (supplier_keys c)" using assms by (auto simp: evolves_def)
  fix x assume "x \<in> set (suppliers a)"
  with assms(1) obtain y where y: "y \<in> set (suppliers b)" "sp_supplierId y = sp_supplierId x" "y = x \<or> sp_version x < sp_version y"
    by (auto simp: evolves_def)
  with assms(2) obtain z where "z \<in> set (suppliers c)" "sp_supplierId z = sp_supplierId y" "z = y \<or> sp_version y < sp_version z"
    by (auto simp: evolves_def)
  with y show "\<exists>z \<in> set (suppliers c). sp_supplierId z = sp_supplierId x \<and> (z = x \<or> sp_version x < sp_version z)"
    by (intro bexI [of _ z]) auto
qed

lemma key_names_supplier:
  assumes "catalogue_ok url db" and "e \<in> set (supplier_keys db)"
  obtains x where "x \<in> set (suppliers db)" "sp_supplierId x = sk_supplierId e" "findById db (sk_supplierId e) = Some x"
proof -
  from assms obtain x where x: "x \<in> set (suppliers db)" "sp_supplierId x = sk_supplierId e"
    by (force simp: catalogue_ok_def)
  moreover have "supplier_ok url x" using assms(1) x(1) by (simp add: catalogue_ok_def)
  then have "toLowerCase (sp_supplierId x) = sp_supplierId x" by (simp only: supplier_ok_def)
  moreover have "row_of sp_supplierId (sp_supplierId x) (suppliers db) = Some x"
    using assms(1) x(1) by (intro row_of_member) (simp_all add: catalogue_ok_def)
  ultimately show thesis by (intro that [of x]) (simp_all add: findById_def)
qed

lemma move_evolves:
  assumes "catalogue_move url db db'" and "catalogue_ok url db"
  shows "evolves db db'"
  using assms(1)
proof cases
  case stays
  then show ?thesis by (simp add: evolves_refl)
next
  case (adds r keys)
  then show ?thesis by (auto simp: evolves_def)
next
  case (writes r r')
  have "x = r" if "x \<in> set (suppliers db)" "sp_supplierId x = sp_supplierId r" for x
    using that writes(2) assms(2) by (auto simp: catalogue_ok_def distinct_map dest: inj_onD)
  then have "\<exists>y \<in> set (suppliers db'). sp_supplierId y = sp_supplierId x \<and> (y = x \<or> sp_version x < sp_version y)"
    if "x \<in> set (suppliers db)" for x
    using that writes
    by (intro bexI [of _ "if sp_supplierId x = sp_supplierId r then r' else x"]) auto
  with writes show ?thesis by (simp add: evolves_def)
qed

lemma run_evolves:
  assumes "(supplier_step env digest sd)\<^sup>*\<^sup>* db db'" and "catalogue_ok (se_url env) db"
  shows "evolves db db' \<and> catalogue_ok (se_url env) db'"
  using assms
proof (induction rule: rtranclp_induct)
  case base
  then show ?case by (simp add: evolves_refl)
next
  case (step b c)
  then have "catalogue_move (se_url env) b c" by (auto intro: step_moves)
  with step show ?case by (auto intro: evolves_trans move_evolves move_keeps_catalogue)
qed

end
