(* ===== verification/Supplier_Properties.thy ===== *)
theory Supplier_Properties
  imports Supplier_System
begin

text \<open>
  The properties of the Supplier Service: opening hours, the catalogue's invariant, versions, keyed
  creates, listings, searches and the seed, each with a witness where it has a hypothesis.
\<close>

section \<open>Opening hours\<close>

lemma fits_inj: "fits ps \<Longrightarrow> inj_on opens_at (set ps)"
  using fits_distinct_starts [of ps] by (simp add: fits_def distinct_map)

lemma fits_sort: "fits ps \<Longrightarrow> sort_key opens_at ps = sort_key hours_order ps"
  using fits_sorted [of ps] by (intro sort_key_inj_key_eq) (simp_all add: fits_inj strict_sorted_iff)

text \<open>
  C34. The schema of opening hours accepts exactly the lists of periods with no empty period, at most
  four a day, and no minute of the week at which two are open, whatever their order and across
  midnight and the end of the week; what it gives are the same periods, each before the next.
\<close>

theorem hours_accepted_iff_they_fit:
  "openingHoursSchema raws = Inr hs \<longleftrightarrow>
     (\<exists>ps. map openingHoursEntry raws = map Some ps \<and> fits ps \<and> mset hs = mset ps \<and> sorted_wrt (<) (map opens_at hs))"
proof -
  have "hs = sort_key hours_order ps \<longleftrightarrow> mset hs = mset ps \<and> sorted_wrt (<) (map opens_at hs)" if "fits ps" for ps
  proof
    assume "hs = sort_key hours_order ps"
    then show "mset hs = mset ps \<and> sorted_wrt (<) (map opens_at hs)" using fits_sorted [OF that] by simp
  next
    assume "mset hs = mset ps \<and> sorted_wrt (<) (map opens_at hs)"
    then have "sort_key opens_at ps = hs" using that by (intro sort_key_inj_key_eq) (simp_all add: fits_inj strict_sorted_iff)
    then show "hs = sort_key hours_order ps" using fits_sort [OF that] by simp
  qed
  then show ?thesis unfolding openingHoursSchema_iff by blast
qed

section \<open>The catalogue\<close>

definition cafe_body :: raw_supplier where
  "cafe_body = \<lparr> rs_name = '' Deck Coffee'', rs_type = ''CAFE'', rs_building = ''com  2'', rs_floor = ''1'',
     rs_locationDescription = ''By the lift'', rs_openingHours = None,
     rs_latitude = None, rs_longitude = None, rs_imageUrl = None, rs_tags = None \<rparr>"

definition cafe :: supplier_input where
  "cafe = \<lparr> si_name = ''Deck Coffee'', si_type = CAFE, si_building = ''COM2'', si_floor = ''1'',
     si_locationDescription = ''By the lift'', si_openingHours = None,
     si_latitude = None, si_longitude = None, si_imageUrl = None, si_tags = None \<rparr>"

definition demo_supplier_env :: supplier_env where
  "demo_supplier_env = \<lparr> se_url = (\<lambda>_. None), se_uuid = (\<lambda>_. True) \<rparr>"

definition sdb0 :: supplier_db where
  "sdb0 = \<lparr> suppliers = [], supplier_keys = [] \<rparr>"

definition sdb1 :: "(json \<Rightarrow> string) \<Rightarrow> supplier_db" where
  "sdb1 digest = \<lparr> suppliers = [insertValues 0 ''a1'' cafe],
     supplier_keys = [\<lparr> sk_idempotencyKey = ''k'', sk_supplierId = ''a1'', sk_requestHash = requestHash digest cafe, sk_createdAt = 0 \<rparr>] \<rparr>"

lemma cafe_body_read: "supplierCreateSchema url cafe_body = Some cafe"
  by code_simp

lemma toLowerCase_a1: "toLowerCase ''a1'' = ''a1''"
  by code_simp

lemma cafe_checked: "check_row (insertValues now ''a1'' cafe) = Inr ()"
  by (simp add: check_row_def supplier_checks_def insertValues_def cafe_def char_length_def opt_holds_def or_null_def)

lemma demo_header: "parseSupplierKey (Some ''k'') = Inr (Some ''k'')"
  by code_simp

lemma cafe_posted:
  "post_supplier demo_supplier_env digest 0 ''a1'' cafe_body (Some ''k'') sdb0 =
     (Inr (201, insertValues 0 ''a1'' cafe), sdb1 digest)"
  by (simp add: post_supplier_def demo_header parseOrThrow_def cafe_body_read with_parsed_def create_supplier_def
      transaction_def create_tx_def key_given_def findSupplierKey_def row_of_def sdb0_def insert_new_def insert_supplier_def
      cafe_checked duplicate_or_def index_free_def claimIdempotencyKey_def create_status_def sdb1_def toLowerCase_a1
      toSupplierView_def iso_def Let_def)
    (simp add: insertValues_def)

lemma sdb0_reachable: "reachable supplier_start (supplier_step env digest sd) sdb0"
  by (rule reachable_init) (simp add: supplier_start_def sdb0_def)

lemma sdb1_reachable: "reachable supplier_start (supplier_step demo_supplier_env digest sd) (sdb1 digest)"
  by (rule reachable_step [OF sdb0_reachable posted [OF cafe_posted]])

text \<open>
  C33. In every reachable state, and for every supplier, added by a request or a seed: its texts are
  trimmed, not empty, within their limits and without NUL, its building is on the campus list, its
  opening hours fit and are in order, its coordinates are both there or both absent and on the
  globe, its picture is an https URL of at most 2048 characters, and it has at most 50 tags, each a
  text of at most 50 characters; and no two active suppliers have the same name, in any case, in
  the same building.
\<close>

theorem stored_suppliers_are_valid:
  assumes "reachable supplier_start (supplier_step env digest sd) db" and "x \<in> set (suppliers db)"
  shows "text_ok 200 (sp_name x) \<and> sp_building x \<in> set CAMPUS_BUILDINGS \<and> text_ok 50 (sp_floor x) \<and>
      text_ok 500 (sp_locationDescription x) \<and>
      opt_holds (\<lambda>hs. fits hs \<and> sorted_wrt (<) (map opens_at hs)) (sp_openingHours x) \<and>
      coordinates_ok (sp_latitude x) (sp_longitude x) \<and>
      opt_holds (\<lambda>p. se_url env p = Some ''https'' \<and> length p \<le> 2048 \<and> CHR 0x00 \<notin> set p) (sp_imageUrl x) \<and>
      opt_holds (\<lambda>ts. length ts \<le> 50 \<and> (\<forall>t \<in> set ts. text_ok 50 t)) (sp_tags x) \<and>
      (\<forall>y \<in> set (suppliers db). sp_active x \<and> sp_active y \<and> toLowerCase (sp_name y) = toLowerCase (sp_name x) \<and>
         sp_building y = sp_building x \<longrightarrow> y = x)"
proof -
  have ok: "catalogue_ok (se_url env) db" by (rule catalogue.holds [OF assms(1)])
  have "y = x" if "y \<in> set (suppliers db)" "sp_active x" "sp_active y" "index_key y = index_key x" for y
    using that ok assms(2) by (auto simp: catalogue_ok_def distinct_map inj_on_def)
  moreover have "supplier_ok (se_url env) x" using ok assms(2) by (simp add: catalogue_ok_def)
  then have "opt_holds (\<lambda>p. se_url env p = Some ''https'' \<and> length p \<le> 2048 \<and> CHR 0x00 \<notin> set p) (sp_imageUrl x)"
    "opt_holds (\<lambda>ts. length ts \<le> 50 \<and> (\<forall>t \<in> set ts. text_ok 50 t)) (sp_tags x)"
    by (auto simp: supplier_ok_def opt_holds_def picture_ok_def tags_ok_def no_nul_def list_all_iff split: option.splits)
  ultimately show ?thesis using ok assms(2) by (auto simp: catalogue_ok_def supplier_ok_def hours_ok_def [abs_def] index_key_def)
qed

theorem stored_suppliers_are_valid_witness:
  "\<exists>x. x \<in> set (suppliers (sdb1 (\<lambda>_. ''h''))) \<and> sp_building x \<in> set CAMPUS_BUILDINGS"
  using stored_suppliers_are_valid [OF sdb1_reachable, of "insertValues 0 ''a1'' cafe" "\<lambda>_. ''h''"] by (auto simp: sdb1_def)

section \<open>Versions\<close>

lemma same_id_same_row:
  "catalogue_ok url db \<Longrightarrow> x \<in> set (suppliers db) \<Longrightarrow> y \<in> set (suppliers db) \<Longrightarrow> sp_supplierId x = sp_supplierId y \<Longrightarrow> x = y"
  by (auto simp: catalogue_ok_def distinct_map inj_on_def)

text \<open>
  C35. A version names one content: of a supplier seen in one state and in a later one, the version
  never goes back, and where it is the same nothing of the supplier has changed, so an \<open>ETag\<close> that
  still matches means the caller has seen all there is.
\<close>

theorem version_names_one_content:
  assumes "reachable supplier_start (supplier_step env digest sd) db" and "(supplier_step env digest sd)\<^sup>*\<^sup>* db db'"
    and "x \<in> set (suppliers db)" and "y \<in> set (suppliers db')" and "sp_supplierId y = sp_supplierId x"
  shows "sp_version x \<le> sp_version y \<and> (sp_version y = sp_version x \<longrightarrow> y = x)"
proof -
  have run: "evolves db db'" "catalogue_ok (se_url env) db'" using run_evolves [OF assms(2) catalogue.holds [OF assms(1)]] by simp_all
  then obtain z where "z \<in> set (suppliers db')" "sp_supplierId z = sp_supplierId x" "z = x \<or> sp_version x < sp_version z"
    using assms(3) by (auto simp: evolves_def)
  moreover from this have "z = y" using same_id_same_row [OF run(2)] assms by simp
  ultimately show ?thesis by auto
qed

definition rename :: raw_changes where
  "rename = \<lparr> rc_name = Some ''Deck Tea'', rc_type = None, rc_building = None, rc_floor = None, rc_locationDescription = None,
     rc_openingHours = None, rc_latitude = None, rc_longitude = None, rc_imageUrl = None, rc_tags = None \<rparr>"

definition renamed :: supplier_row where
  "renamed = apply_supplier_changes 5 (no_supplier_changes\<lparr> sc_name := Some ''Deck Tea'' \<rparr>) (insertValues 0 ''a1'' cafe)"

lemma rename_read: "supplierUpdateSchema url rename = Some (no_supplier_changes\<lparr> sc_name := Some ''Deck Tea'' \<rparr>)"
  by code_simp

lemma demo_if_match: "parseIfMatch (Some [CHR 0x22, CHR ''1'', CHR 0x22]) = Inr 1"
  by code_simp

lemma renamed_checked: "check_row renamed = Inr ()"
  by (simp add: renamed_def apply_supplier_changes_def no_supplier_changes_def or_keep_def check_row_def supplier_checks_def insertValues_def cafe_def
      char_length_def opt_holds_def or_null_def)

lemma cafe_renamed:
  "put_supplier demo_supplier_env 5 ''a1'' rename (Some [CHR 0x22, CHR ''1'', CHR 0x22]) (sdb1 digest) =
     (Inr (with_etag renamed), (sdb1 digest)\<lparr> suppliers := [renamed] \<rparr>)"
proof -
  have "update_supplier 5 ''a1'' 1 (no_supplier_changes\<lparr> sc_name := Some ''Deck Tea'' \<rparr>) (sdb1 digest) =
      Inr (Some renamed, (sdb1 digest)\<lparr> suppliers := [renamed] \<rparr>)"
    using renamed_checked
    by (simp add: update_supplier_def sdb1_def toLowerCase_a1 write_row_def renamed_def [symmetric] update_rows_def INT4_MAX_def index_free_def)
      (simp add: insertValues_def renamed_def toLowerCase_a1)
  then show ?thesis
    by (simp add: put_supplier_def with_parsed_def parse_id_def parseOrThrow_def demo_supplier_env_def demo_if_match rename_read
        update_tx_def transaction_def duplicate_or_def versioned_def)
qed

theorem version_names_one_content_witness:
  "sp_version (insertValues 0 ''a1'' cafe) \<le> sp_version renamed"
proof -
  let ?d = "\<lambda>_ :: json. ''h''" and ?sd = "\<lparr> sd_number = (\<lambda>_. None), sd_sha1 = (\<lambda>_. []) \<rparr>"
  have "(supplier_step demo_supplier_env ?d ?sd)\<^sup>*\<^sup>* (sdb1 ?d) ((sdb1 ?d)\<lparr> suppliers := [renamed] \<rparr>)"
    by (rule r_into_rtranclp, rule put [OF cafe_renamed])
  from version_names_one_content [OF sdb1_reachable this, of "insertValues 0 ''a1'' cafe" renamed] show ?thesis
    by (simp add: sdb1_def renamed_def)
qed

text \<open>A header of at most nine digits is a version the column can still count up from.\<close>

lemma digit_value_range: "digit c \<Longrightarrow> 0 \<le> digit_value c \<and> digit_value c \<le> 9"
  by (simp add: digit_def in_chars_def digit_value_def)

lemma decimal_bound:
  "list_all digit s \<Longrightarrow> 0 \<le> n \<Longrightarrow> foldl (\<lambda>n c. 10 * n + digit_value c) n s < (n + 1) * 10 ^ length s"
proof (induction s arbitrary: n)
  case Nil
  then show ?case by simp
next
  case (Cons c s)
  then have d: "0 \<le> digit_value c" "digit_value c \<le> 9" by (simp_all add: digit_value_range)
  have "foldl (\<lambda>n c. 10 * n + digit_value c) (10 * n + digit_value c) s < (10 * n + digit_value c + 1) * 10 ^ length s"
    using Cons d by (intro Cons.IH) auto
  also have "\<dots> \<le> (10 * n + 10) * 10 ^ length s" using d by (intro mult_right_mono) auto
  finally show ?case by (simp add: algebra_simps)
qed

lemma parseIfMatch_bound: "parseIfMatch h = Inr v \<Longrightarrow> 1 \<le> v \<and> v < INT4_MAX"
proof -
  have "decimal s < 10 ^ 9" if "digits s" for s
  proof -
    have "decimal s < 10 ^ length s" using that decimal_bound [of s 0] by (simp add: digits_def decimal_def)
    also have "(10 :: int) ^ length s \<le> 10 ^ 9" using that by (intro power_increasing) (simp_all add: digits_def)
    finally show ?thesis .
  qed
  then show "parseIfMatch h = Inr v \<Longrightarrow> 1 \<le> v \<and> v < INT4_MAX"
    by (fastforce simp: parseIfMatch_def INT4_MAX_def Let_def split: option.splits if_splits)
qed

lemma check_row_no_range: "check_row r = Inl e \<Longrightarrow> e \<noteq> DbViolation ''integer out of range''"
  by (auto simp: check_row_def supplier_checks_def split: if_splits)

lemma write_row_no_range:
  "write_row r f db = Inl e \<Longrightarrow> sp_version (f r) \<le> INT4_MAX \<Longrightarrow> e \<noteq> DbViolation ''integer out of range''"
  by (auto simp: write_row_def bindE_eq_Inl NAME_BUILDING_INDEX_def dest: check_row_no_range split: if_splits)

lemma update_tx_Inl:
  assumes "update_tx now i version v db = Inl e" and "version < INT4_MAX"
  shows "e \<noteq> DbViolation ''integer out of range''"
proof -
  have "x \<noteq> DbViolation ''integer out of range''" if "update_supplier now i version v db = Inl x" for x
    using that assms(2) by (auto simp: update_supplier_def find_Some_iff dest: write_row_no_range split: option.splits)
  with assms(1) show ?thesis
    by (auto simp: update_tx_def bindE_eq_Inl duplicate_or_def duplicate_def versioned_def supplierNotFound_def staleVersion_def
        split: sum.splits if_splits option.splits)
qed

lemma update_tx_Inr:
  assumes ok: "catalogue_ok (se_url env) db" and run: "update_tx now i version v db = Inr (r, db')"
  obtains x where "x \<in> set (suppliers db)" "sp_supplierId x = toLowerCase i" "sp_version x = version"
    "r = apply_supplier_changes now v x" "supplier_keys db' = supplier_keys db"
    "suppliers db' = update_rows (\<lambda>y. sp_supplierId y = sp_supplierId x) (apply_supplier_changes now v) (suppliers db)"
proof (cases "find (\<lambda>r. sp_supplierId r = toLowerCase i \<and> sp_version r = version) (suppliers db)")
  case None
  with run show thesis by (auto simp: update_tx_def update_supplier_def duplicate_or_def versioned_def split: option.splits)
next
  case (Some x)
  then have x: "x \<in> set (suppliers db)" "sp_supplierId x = toLowerCase i" "sp_version x = version"
    by (auto simp: find_Some_iff)
  from run Some have "write_row x (apply_supplier_changes now v) db = Inr (Some r, db')"
    by (auto simp: update_tx_def update_supplier_def versioned_def bindE_eq_Inr write_row_def split: option.splits if_splits)
  then show thesis using x by (intro that [of x]) (auto simp: write_row_def bindE_eq_Inr split: if_splits)
qed

text \<open>
  C36. An edit is applied to the version its author has seen, or not at all: if it is answered with a
  supplier, that supplier had exactly the version of the \<open>If-Match\<close> header, got the fields of the
  body and the next version, and no other was touched; if it is answered with an error nothing has
  changed, and the error is never that the version no longer fits its column.
\<close>

theorem edit_applies_to_version_seen:
  assumes "reachable supplier_start (supplier_step env digest sd) db"
    and "put_supplier env now i body ifMatch db = (res, db')"
  shows "(\<forall>v etag. res = Inr (v, etag) \<longrightarrow>
      (\<exists>x changes. x \<in> set (suppliers db) \<and> sp_supplierId x = toLowerCase i \<and> parseIfMatch ifMatch = Inr (sp_version x) \<and>
         supplierUpdateSchema (se_url env) body = Some changes \<and> etag = sp_version x + 1 \<and>
         v = toSupplierView (apply_supplier_changes now changes x) \<and>
         set (suppliers db') = insert (apply_supplier_changes now changes x) (set (suppliers db) - {x}) \<and>
         supplier_keys db' = supplier_keys db)) \<and>
    (\<forall>e. res = Inl e \<longrightarrow> db' = db \<and> e \<noteq> DbViolation ''integer out of range'')"
proof -
  have ok: "catalogue_ok (se_url env) db" by (rule catalogue.holds [OF assms(1)])
  let ?parsed = "bindE (parse_id env i) (\<lambda>supplierId. bindE (parseIfMatch ifMatch) (\<lambda>version.
      bindE (parseOrThrow (supplierUpdateSchema (se_url env)) body) (\<lambda>changes. Inr (supplierId, version, changes))))"
  show ?thesis
  proof (cases ?parsed)
    case (Inl e)
    then have "res = Inl e" "db' = db" using assms(2) by (simp_all add: put_supplier_def with_parsed_def)
    moreover have "e \<noteq> DbViolation ''integer out of range''"
      using Inl by (auto simp: bindE_eq_Inl parse_id_def parseOrThrow_def supplierInvalid_def parseIfMatch_def bad_request_def Let_def
          split: option.splits if_splits)
    ultimately show ?thesis by simp
  next
    case (Inr p)
    then obtain version v where p: "p = (i, version, v)" "parseIfMatch ifMatch = Inr version" "supplierUpdateSchema (se_url env) body = Some v"
      by (auto simp: bindE_eq_Inr parse_id_def parseOrThrow_def split: option.splits if_splits)
    show ?thesis
    proof (cases "update_tx now i version v db")
      case (Inl e)
      then have "res = Inl e" "db' = db" using assms(2) Inr p by (simp_all add: put_supplier_def with_parsed_def transaction_def)
      then show ?thesis using update_tx_Inl [OF Inl] parseIfMatch_bound [OF p(2)] by simp
    next
      case run: (Inr q)
      then obtain r where "update_tx now i version v db = Inr (r, db')" "res = Inr (with_etag r)"
        using assms(2) Inr p by (cases q) (auto simp: put_supplier_def with_parsed_def transaction_def)
      moreover from this ok obtain x where "x \<in> set (suppliers db)" "sp_supplierId x = toLowerCase i" "sp_version x = version"
        "r = apply_supplier_changes now v x" "supplier_keys db' = supplier_keys db"
        "suppliers db' = update_rows (\<lambda>y. sp_supplierId y = sp_supplierId x) (apply_supplier_changes now v) (suppliers db)"
        by (elim update_tx_Inr)
      ultimately show ?thesis
        using p set_update_rows_key [of sp_supplierId "suppliers db" x "apply_supplier_changes now v"] ok
        by (auto simp: with_etag_def catalogue_ok_def)
    qed
  qed
qed

theorem edit_applies_to_version_seen_witness:
  "\<exists>v etag. fst (put_supplier demo_supplier_env 5 ''a1'' rename (Some [CHR 0x22, CHR ''1'', CHR 0x22]) (sdb1 (\<lambda>_. ''h''))) = Inr (v, etag) \<and> etag = 2"
proof -
  let ?d = "\<lambda>_ :: json. ''h''" and ?sd = "\<lparr> sd_number = (\<lambda>_. None), sd_sha1 = (\<lambda>_. []) \<rparr>"
  from edit_applies_to_version_seen [OF sdb1_reachable [of ?d ?sd] cafe_renamed] show ?thesis
    unfolding cafe_renamed by (auto simp: sdb1_def with_etag_def insertValues_def)
qed

section \<open>Creating once\<close>

lemma parseSupplierKey_given: "parseSupplierKey h = Inr (Some k) \<Longrightarrow> key_given (Some k) = Some k"
  by (auto simp: parseSupplierKey_def key_given_def Let_def split: option.splits if_splits)

lemma post_supplier_create:
  assumes "parseSupplierKey header = Inr (Some k)" and "supplierCreateSchema (se_url env) body = Some s"
  shows "post_supplier env digest now i body header db =
    (case create_tx digest now i s (Some k) db of
       Inl e \<Rightarrow> (Inl e, db) | Inr (c, db') \<Rightarrow> (Inr (create_status c, cr_supplier c), db'))"
  using assms by (auto simp: post_supplier_def with_parsed_def parseOrThrow_def create_supplier_def transaction_def split: sum.splits)

text \<open>A keyed create that succeeded has left the key with its hash and its supplier.\<close>

lemma created_key:
  assumes "create_tx digest now i s (Some k) db = Inr (c, db')" and "key_given (Some k) = Some k" and "catalogue_ok (se_url env) db"
  shows "\<exists>e \<in> set (supplier_keys db'). sk_idempotencyKey e = k \<and> sk_requestHash e = requestHash digest s \<and>
    sk_supplierId e = sp_supplierId (cr_supplier c)"
proof (cases "findSupplierKey db k")
  case (Some e)
  then have e: "e \<in> set (supplier_keys db)" "sk_idempotencyKey e = k" by (auto simp: findSupplierKey_def dest: row_of_Some)
  from Some assms obtain r where r: "findById db (sk_supplierId e) = Some r" "cr_supplier c = toSupplierView r" "db' = db"
    "sk_requestHash e = requestHash digest s"
    by (auto simp: create_tx_def Let_def split: if_splits option.splits)
  from key_names_supplier [OF assms(3) e(1)] obtain x where "sp_supplierId x = sk_supplierId e" "findById db (sk_supplierId e) = Some x" .
  with r e show ?thesis by (intro bexI [of _ e]) (simp_all add: toSupplierView_def)
next
  case None
  then have "k \<notin> sk_idempotencyKey ` set (supplier_keys db)" by (simp add: findSupplierKey_def row_of_None)
  with None assms show ?thesis
    by (auto simp: create_tx_def insert_new_def bindE_eq_Inr Let_def insert_supplier_def claimIdempotencyKey_def insertValues_def
        toSupplierView_def split: if_splits)
qed

text \<open>
  C37. A create with an idempotency key happens once. After one that was answered with a supplier,
  and whatever happened since, a request with the same key changes nothing: with the same body it is
  answered with the supplier as it now is, status 200; with a body of another hash it is refused.
  Bodies that differ have different canonical JSON, so only the digest could confuse them.
\<close>

theorem keyed_create_happens_once:
  assumes reach: "reachable supplier_start (supplier_step env digest sd) db"
    and first: "post_supplier env digest now i body header db = (Inr (status, v), db1)"
    and steps: "(supplier_step env digest sd)\<^sup>*\<^sup>* db1 db2"
    and again: "post_supplier env digest now' i' body' header' db2 = (r, db3)"
    and keys: "parseSupplierKey header = Inr (Some k)" "parseSupplierKey header' = Inr (Some k)"
    and bodies: "supplierCreateSchema (se_url env) body = Some s" "supplierCreateSchema (se_url env) body' = Some s'"
  shows "db3 = db2 \<and>
    (requestHash digest s' = requestHash digest s \<longrightarrow>
       (\<exists>x \<in> set (suppliers db2). sp_supplierId x = sp_supplierId v \<and> r = Inr (200, toSupplierView x))) \<and>
    (requestHash digest s' \<noteq> requestHash digest s \<longrightarrow> r = Inl idempotencyKeyReused) \<and>
    (s' \<noteq> s \<longrightarrow> canonical (input_json s') \<noteq> canonical (input_json s))"
proof -
  note k = parseSupplierKey_given [OF keys(1)]
  from first obtain c where c: "create_tx digest now i s (Some k) db = Inr (c, db1)" "v = cr_supplier c"
    by (auto simp: post_supplier_create [OF keys(1) bodies(1)] split: sum.splits)
  have ok1: "catalogue_ok (se_url env) db1" using reachable_step [OF reach posted [OF first]] by (rule catalogue.holds)
  have run: "evolves db1 db2" "catalogue_ok (se_url env) db2" using run_evolves [OF steps ok1] by simp_all
  from created_key [OF c(1) k catalogue.holds [OF reach]] c(2) run(1) obtain e where e: "e \<in> set (supplier_keys db2)" "sk_idempotencyKey e = k"
    "sk_requestHash e = requestHash digest s" "sk_supplierId e = sp_supplierId v"
    by (auto simp: evolves_def)
  have found: "findSupplierKey db2 k = Some e"
    using row_of_member [of sk_idempotencyKey "supplier_keys db2" e] e run(2) by (simp add: findSupplierKey_def catalogue_ok_def)
  from key_names_supplier [OF run(2) e(1)] obtain x where x: "x \<in> set (suppliers db2)" "sp_supplierId x = sk_supplierId e"
    "findById db2 (sk_supplierId e) = Some x" .
  have "create_tx digest now' i' s' (Some k) db2 =
      (if requestHash digest s' = requestHash digest s then Inr (\<lparr> cr_supplier = toSupplierView x, cr_replayed = True \<rparr>, db2)
       else Inl idempotencyKeyReused)"
    using found e(3) x(3) k by (simp add: create_tx_def Let_def)
  then have "r = (if requestHash digest s' = requestHash digest s then Inr (200, toSupplierView x) else Inl idempotencyKeyReused) \<and> db3 = db2"
    using again by (auto simp: post_supplier_create [OF keys(2) bodies(2)] create_status_def split: if_splits)
  then show ?thesis using x(1,2) e(4) canonical_input_inj [of s' s] by auto
qed

theorem keyed_create_happens_once_witness:
  "\<exists>x. fst (post_supplier demo_supplier_env (\<lambda>_. ''h'') 9 ''b2'' cafe_body (Some ''k'') (sdb1 (\<lambda>_. ''h''))) = Inr (200, x)"
proof -
  let ?d = "\<lambda>_ :: json. ''h''" and ?sd = "\<lparr> sd_number = (\<lambda>_. None), sd_sha1 = (\<lambda>_. []) \<rparr>"
  obtain r db3 where again: "post_supplier demo_supplier_env ?d 9 ''b2'' cafe_body (Some ''k'') (sdb1 ?d) = (r, db3)" by fastforce
  have start: "reachable supplier_start (supplier_step demo_supplier_env ?d ?sd) sdb0" by (rule sdb0_reachable)
  from keyed_create_happens_once [OF start cafe_posted rtranclp.rtrancl_refl again demo_header demo_header cafe_body_read cafe_body_read]
  show ?thesis using again by auto
qed

section \<open>Listings\<close>

lemma pages_concat: "concat (map (\<lambda>p. take s (drop (p * s) xs)) [0..<n]) = take (n * s) xs"
proof (induction n)
  case 0
  then show ?case by simp
next
  case (Suc n)
  have "take (Suc n * s) xs = take (n * s) xs @ take s (drop (n * s) xs)" by (metis add.commute mult_Suc take_add)
  with Suc show ?case by simp
qed

text \<open>A stable sort keeps a relation among rows of one key.\<close>

lemma sorted_wrt_same_key:
  "(\<And>k. sorted_wrt R (filter (\<lambda>y. f y = k) ys)) \<Longrightarrow> sorted_wrt (\<lambda>a b. f a = f b \<longrightarrow> R a b) ys"
proof (induction ys)
  case Nil
  then show ?case by simp
next
  case (Cons y ys)
  have "R y b" if "b \<in> set ys" "f y = f b" for b using Cons.prems [of "f y"] that by simp
  moreover have "sorted_wrt R (filter (\<lambda>y. f y = k) ys)" for k
    using Cons.prems [of k] by (simp split: if_splits)
  ultimately show ?case using Cons.IH by simp
qed

lemma sorted_within_keys:
  assumes "sorted_wrt R xs"
  shows "sorted_wrt (\<lambda>a b. f a < f b \<or> f a = f b \<and> R a b) (sort_key (f :: 'a \<Rightarrow> 'k :: linorder) xs)"
proof -
  have "sorted_wrt (\<lambda>a b. f a = f b \<longrightarrow> R a b) (sort_key f xs)"
    by (rule sorted_wrt_same_key) (simp add: sort_key_stable sorted_wrt_filter assms)
  moreover have "sorted_wrt (\<lambda>a b. f a \<le> f b) (sort_key f xs)" using sorted_sort_key [of f xs] by (simp add: sorted_map)
  ultimately show ?thesis by (auto simp: sorted_wrt_iff_nth_less less_le)
qed

lemma orderBy_sorted:
  "sorted_wrt (\<lambda>a b. (if lq_descending q then SORT_KEY (lq_sort q) b < SORT_KEY (lq_sort q) a
                      else SORT_KEY (lq_sort q) a < SORT_KEY (lq_sort q) b) \<or>
     SORT_KEY (lq_sort q) a = SORT_KEY (lq_sort q) b \<and> TIE_BREAKS a \<le> TIE_BREAKS b) (orderBy q rows)"
proof -
  have tied: "sorted_wrt (\<lambda>a b. TIE_BREAKS a \<le> TIE_BREAKS b) (sort_key TIE_BREAKS rows)"
    using sorted_sort_key [of TIE_BREAKS rows] by (simp add: sorted_map)
  show ?thesis
  proof (cases "lq_descending q")
    case True
    have "sorted_wrt (\<lambda>a b. TIE_BREAKS b \<le> TIE_BREAKS a) (rev (sort_key TIE_BREAKS rows))" using tied by (simp add: sorted_wrt_rev)
    from sorted_within_keys [OF this, of "SORT_KEY (lq_sort q)"] True show ?thesis
      by (simp add: orderBy_def Let_def sorted_wrt_rev) (erule sorted_wrt_mono_rel [rotated], auto)
  next
    case False
    with sorted_within_keys [OF tied, of "SORT_KEY (lq_sort q)"] show ?thesis by (simp add: orderBy_def Let_def)
  qed
qed

lemma orderBy_mset: "mset (orderBy q rows) = mset rows"
  by (simp add: orderBy_def Let_def)

text \<open>What is in order stays as it is.\<close>

definition in_order :: "supplier_list_query \<Rightarrow> supplier_row \<Rightarrow> supplier_row \<Rightarrow> bool" where
  "in_order q a b \<longleftrightarrow>
     (if lq_descending q then SORT_KEY (lq_sort q) b < SORT_KEY (lq_sort q) a
      else SORT_KEY (lq_sort q) a < SORT_KEY (lq_sort q) b) \<or>
     SORT_KEY (lq_sort q) a = SORT_KEY (lq_sort q) b \<and> TIE_BREAKS a \<le> TIE_BREAKS b"

lemma sorted_same_key:
  assumes "sorted_wrt (\<lambda>a b. P a b \<or> f a = f b \<and> g a \<le> g b) ys" and "\<And>a b. P a b \<Longrightarrow> f a \<noteq> f b"
  shows "sort_key (g :: 'a \<Rightarrow> 'h :: linorder) (filter (\<lambda>x. f k = f x) ys) = filter (\<lambda>x. f k = f x) ys"
proof (rule sort_key_id_if_sorted)
  show "sorted (map g (filter (\<lambda>x. f k = f x) ys))"
    unfolding sorted_map
    by (rule sorted_wrt_mono_rel [OF _ sorted_wrt_filter [OF assms(1)]]) (use assms(2) in fastforce)
qed

lemma sort_key_same_key:
  assumes "sorted_wrt (\<lambda>a b. f a < f b \<or> f a = f b \<and> g a \<le> g b) ys"
  shows "sort_key (f :: 'a \<Rightarrow> 'k :: linorder) (sort_key (g :: 'a \<Rightarrow> 'h :: linorder) ys) = ys"
proof (rule properties_for_sort_key)
  show "mset ys = mset (sort_key g ys)" by simp
  show "sorted (map f ys)"
    using assms unfolding sorted_map by (rule sorted_wrt_mono_rel [rotated]) auto
  show "filter (\<lambda>x. f k = f x) ys = filter (\<lambda>x. f k = f x) (sort_key g ys)" if "k \<in> set ys" for k
    using sorted_same_key [OF assms] by (simp add: filter_sort)
qed

lemma sort_key_rev_same_key:
  assumes "sorted_wrt (\<lambda>a b. f b < f a \<or> f a = f b \<and> g a \<le> g b) ys"
  shows "rev (sort_key (f :: 'a \<Rightarrow> 'k :: linorder) (rev (sort_key (g :: 'a \<Rightarrow> 'h :: linorder) ys))) = ys"
proof -
  have "sort_key f (rev (sort_key g ys)) = rev ys"
  proof (rule properties_for_sort_key)
    show "mset (rev ys) = mset (rev (sort_key g ys))" by simp
    show "sorted (map f (rev ys))"
      using assms unfolding sorted_map sorted_wrt_rev by (rule sorted_wrt_mono_rel [rotated]) auto
    show "filter (\<lambda>x. f k = f x) (rev ys) = filter (\<lambda>x. f k = f x) (rev (sort_key g ys))" if "k \<in> set (rev ys)" for k
      using sorted_same_key [OF assms] by (simp add: rev_filter [symmetric] filter_sort)
  qed
  then show ?thesis by simp
qed

lemma orderBy_id: "sorted_wrt (in_order q) ys \<Longrightarrow> orderBy q ys = ys"
  by (cases "lq_descending q")
    (simp_all add: orderBy_def Let_def in_order_def [abs_def] sort_key_same_key sort_key_rev_same_key)

lemma orderBy_in_order: "sorted_wrt (in_order q) (orderBy q rows)"
  using orderBy_sorted [of q rows] by (simp add: in_order_def [abs_def])

lemma orderBy_slice: "orderBy q (take n (drop m (orderBy q rows))) = take n (drop m (orderBy q rows))"
  by (rule orderBy_id) (intro sorted_wrt_take sorted_wrt_drop orderBy_in_order)

lemma list_suppliers_value:
  "list_suppliers db q =
     (take (nat (lq_pageSize q)) (drop (nat ((lq_page q - 1) * lq_pageSize q)) (orderBy q (filter (list_matches q) (suppliers db)))),
      length (filter (list_matches q) (suppliers db)))"
proof -
  let ?page = "take (nat (lq_pageSize q)) (drop (nat ((lq_page q - 1) * lq_pageSize q)) (orderBy q (filter (list_matches q) (suppliers db))))"
  have "List.map_filter snd (map (\<lambda>r. (n, Some r)) rs) = rs" for n :: nat and rs :: "supplier_row list"
    by (simp add: List.map_filter_def comp_def)
  then show ?thesis
    unfolding list_suppliers_def Let_def orderBy_slice by (cases "?page = []") (simp_all add: List.map_filter_def hd_map)
qed

text \<open>A search finds the text as it is, in any case: no character of it is a wild card.\<close>

lemma search_is_literal:
  "searched q r \<longleftrightarrow>
     (\<exists>s \<in> set ([sp_name r, sp_building r, sp_locationDescription r] @ (case sp_tags r of None \<Rightarrow> [] | Some ts \<Rightarrow> ts)).
        \<exists>pre post. toLowerCase s = pre @ toLowerCase q @ post)"
  by (auto simp: searched_def Let_def ilike_contains list_ex_iff split: option.splits)

text \<open>What a query asks for, spelled out.\<close>

definition found_by :: "supplier_list_query \<Rightarrow> supplier_row \<Rightarrow> bool" where
  "found_by q r \<longleftrightarrow> sp_active r \<and>
     (\<forall>t. lq_type q = Some t \<longrightarrow> sp_type r = t) \<and>
     (\<forall>b. lq_building q = Some b \<and> b \<noteq> [] \<longrightarrow> toLowerCase (sp_building r) = toLowerCase b) \<and>
     (\<forall>s. lq_q q = Some s \<and> s \<noteq> [] \<longrightarrow>
        (\<exists>t \<in> set ([sp_name r, sp_building r, sp_locationDescription r] @ (case sp_tags r of None \<Rightarrow> [] | Some ts \<Rightarrow> ts)).
           \<exists>pre post. toLowerCase t = pre @ toLowerCase s @ post))"

lemma list_matches_found: "list_matches q = found_by q"
  unfolding fun_eq_iff list_matches_def found_by_def search_is_literal opt_holds_def
  by (intro allI) (cases "lq_type q"; cases "lq_building q"; cases "lq_q q"; simp add: disj_imp)

lemma list_query_size:
  assumes "supplierListQuerySchema raw = Some q"
  shows "1 \<le> lq_pageSize q" "lq_pageSize q \<le> 100" "1 \<le> lq_page q"
  using assms by (auto simp: supplierListQuerySchema_def count_param_def split: option.splits query_value.splits)

text \<open>
  C38. The pages of a listing are the whole of it: one after the other they give, exactly once each,
  the active suppliers of the type and building asked for in one of whose name, building,
  location and tags the text searched for occurs, whatever its case and with no character of it a
  wild card; in the order asked for, with ties by name and then id. Each page, an empty one too,
  says how many there are.
\<close>

theorem pages_are_the_whole_listing:
  assumes "supplierListQuerySchema raw = Some q" and "length (filter (found_by q) (suppliers db)) \<le> n * nat (lq_pageSize q)"
  shows "\<exists>rows. mset rows = mset (filter (found_by q) (suppliers db)) \<and> sorted_wrt (in_order q) rows \<and>
    concat (map (\<lambda>p. sg_items (suppliers_page db (q\<lparr> lq_page := int p + 1 \<rparr>))) [0..<n]) = map toSupplierListItem rows \<and>
    (\<forall>p. sg_total (suppliers_page db (q\<lparr> lq_page := p \<rparr>)) = length rows)"
proof -
  let ?matched = "filter (found_by q) (suppliers db)"
  let ?rows = "orderBy q ?matched" and ?s = "nat (lq_pageSize q)"
  have same: "found_by (q\<lparr> lq_page := p \<rparr>) = found_by q" "orderBy (q\<lparr> lq_page := p \<rparr>) = orderBy q" for p
    by (auto simp: fun_eq_iff found_by_def orderBy_def Let_def)
  have len: "length ?rows = length ?matched" using orderBy_mset [of q ?matched] by (metis size_mset)
  have "sg_items (suppliers_page db (q\<lparr> lq_page := int p + 1 \<rparr>)) = map toSupplierListItem (take ?s (drop (p * ?s) ?rows))" for p
    using list_query_size [OF assms(1)]
    by (simp add: suppliers_page_def list_suppliers_value list_matches_found same nat_mult_distrib)
  then have "concat (map (\<lambda>p. sg_items (suppliers_page db (q\<lparr> lq_page := int p + 1 \<rparr>))) [0..<n]) =
      map toSupplierListItem (concat (map (\<lambda>p. take ?s (drop (p * ?s) ?rows)) [0..<n]))"
    by (simp add: map_concat comp_def)
  also have "\<dots> = map toSupplierListItem ?rows"
    unfolding pages_concat using assms(2) by (simp only: take_all len)
  finally have "concat (map (\<lambda>p. sg_items (suppliers_page db (q\<lparr> lq_page := int p + 1 \<rparr>))) [0..<n]) = map toSupplierListItem ?rows" .
  moreover have "sg_total (suppliers_page db (q\<lparr> lq_page := p \<rparr>)) = length ?rows" for p
    unfolding len by (simp add: suppliers_page_def list_suppliers_value list_matches_found same)
  ultimately show ?thesis using orderBy_mset [of q ?matched] orderBy_in_order [of q ?matched] by blast
qed

definition all_query :: raw_list_query where
  "all_query = \<lparr> rq_page = Absent, rq_pageSize = Given ''500'', rq_type = Absent, rq_building = Absent, rq_q = Absent,
     rq_sort = Given ''UPDATEDAT'', rq_order = Given ''desc'' \<rparr>"

lemma all_query_read:
  "supplierListQuerySchema all_query = Some \<lparr> lq_page = 1, lq_pageSize = 100, lq_type = None, lq_building = None, lq_q = None,
     lq_sort = By_updatedAt, lq_descending = True \<rparr>"
  by code_simp

theorem pages_are_the_whole_listing_witness:
  "\<exists>q. supplierListQuerySchema all_query = Some q \<and>
     sg_total (suppliers_page (sdb1 (\<lambda>_. ''h'')) (q\<lparr> lq_page := 7 \<rparr>)) = 1"
proof -
  let ?q = "\<lparr> lq_page = 1, lq_pageSize = 100, lq_type = None, lq_building = None, lq_q = None,
     lq_sort = By_updatedAt, lq_descending = True \<rparr>"
  have m: "filter (found_by ?q) (suppliers (sdb1 (\<lambda>_. ''h''))) = [insertValues 0 ''a1'' cafe]"
    by (simp add: sdb1_def found_by_def) (simp add: insertValues_def)
  then have "length (filter (found_by ?q) (suppliers (sdb1 (\<lambda>_. ''h'')))) \<le> 1 * nat (lq_pageSize ?q)" by simp
  from pages_are_the_whole_listing [OF all_query_read this] m
  have "sg_total (suppliers_page (sdb1 (\<lambda>_. ''h'')) (?q\<lparr> lq_page := 7 \<rparr>)) = 1" by (metis length_Cons list.size(3) One_nat_def size_mset)
  with all_query_read show ?thesis by blast
qed

section \<open>Seeding\<close>

text \<open>A seed that an insert would skip: its id is taken, or its name in its building is.\<close>

definition seed_settled :: "supplier_db \<Rightarrow> supplier_seed \<Rightarrow> bool" where
  "seed_settled db = (\<lambda>(i, s).
     check_row (insertValues 0 i s) = Inr () \<and>
     (sp_supplierId (insertValues 0 i s) \<in> sp_supplierId ` set (suppliers db) \<or> \<not> index_free (insertValues 0 i s) (suppliers db)))"

lemma insertValues_timeless:
  "check_row (insertValues now i s) = check_row (insertValues 0 i s)"
  "sp_supplierId (insertValues now i s) = sp_supplierId (insertValues 0 i s)"
  "index_free (insertValues now i s) rows = index_free (insertValues 0 i s) rows"
  by (simp_all add: insertValues_def check_row_def supplier_checks_def index_free_def index_key_def)

lemma settled_insert:
  assumes "seed_settled db (i, s)"
  shows "transaction (insertIfAbsent now i s) db = (Inr None, db) \<or>
    transaction (insertIfAbsent now i s) db = (Inl (DbViolation NAME_BUILDING_INDEX), db)"
  using assms insertValues_timeless [of now i s]
  by (auto simp: seed_settled_def transaction_def insertIfAbsent_def Let_def)

lemma settled_run:
  "\<forall>x \<in> set seeds. seed_settled db x \<Longrightarrow>
   seedSuppliers clock seeds result db = (Inr (result\<lparr> sr_skipped := sr_skipped result @ map (seed_label \<circ> snd) seeds \<rparr>), db)"
proof (induction seeds arbitrary: clock result)
  case Nil
  then show ?case by simp
next
  case (Cons x seeds)
  obtain i s where x: "x = (i, s)" by (cases x)
  then have "seed_settled db (i, s)" using Cons.prems by simp
  from settled_insert [OF this, of "clock 0"] Cons show ?case
    by (auto simp: x note_skipped_def isUniqueViolation_def opt_holds_def)
qed

lemma seed_settled_mono:
  assumes "seed_settled db x" and "set (suppliers db) \<subseteq> set (suppliers db')"
  shows "seed_settled db' x"
  using assms by (auto simp: seed_settled_def index_free_def list_ex_iff split: prod.splits)

lemma insert_settles:
  assumes "transaction (insertIfAbsent now i s) db = (r, db')"
    and "case r of Inl e \<Rightarrow> isUniqueViolation e None | Inr _ \<Rightarrow> True"
  shows "seed_settled db' (i, s)" "set (suppliers db) \<subseteq> set (suppliers db')"
proof -
  have no_check: "check_row x = Inl e \<Longrightarrow> \<not> isUniqueViolation e None" for x e
    by (auto simp: check_row_def supplier_checks_def isUniqueViolation_def NAME_BUILDING_INDEX_def SUPPLIERS_PKEY_def split: if_splits)
  show "seed_settled db' (i, s)" "set (suppliers db) \<subseteq> set (suppliers db')"
    using assms insertValues_timeless [of now i s]
    by (auto simp: transaction_def insertIfAbsent_def Let_def seed_settled_def bindE_def dest: no_check split: sum.splits if_splits)
qed

lemma run_settles:
  "seedSuppliers clock seeds result db = (Inr result', db') \<Longrightarrow>
   (\<forall>x \<in> set seeds. seed_settled db' x) \<and> set (suppliers db) \<subseteq> set (suppliers db')"
proof (induction seeds arbitrary: clock result db)
  case Nil
  then show ?case by simp
next
  case (Cons x seeds)
  obtain i s where x: "x = (i, s)" by (cases x)
  obtain r db1 where ins: "transaction (insertIfAbsent (clock 0) i s) db = (r, db1)" by (cases "transaction (insertIfAbsent (clock 0) i s) db")
  with Cons.prems x obtain clock1 result1 where rest: "seedSuppliers clock1 seeds result1 db1 = (Inr result', db')"
    and taken: "case r of Inl e \<Rightarrow> isUniqueViolation e None | Inr _ \<Rightarrow> True"
    by (auto simp: Let_def split: sum.splits option.splits if_splits)
  note IH = Cons.IH [OF rest]
  from insert_settles [OF ins taken] IH show ?case using seed_settled_mono [of db1 "(i, s)" db'] x by auto
qed

text \<open>
  Seeding is idempotent: after a run that did not fail, another run of the same seeds, at any
  time, creates nothing, skips every seed and leaves the catalogue as it is.
\<close>

theorem seeding_again_changes_nothing:
  assumes "seedSuppliers clock seeds result db = (Inr result', db')"
  shows "seedSuppliers clock' seeds \<lparr> sr_created = [], sr_skipped = [] \<rparr> db' =
    (Inr \<lparr> sr_created = [], sr_skipped = map (seed_label \<circ> snd) seeds \<rparr>, db')"
  using settled_run [of seeds db'] run_settles [OF assms] by simp

theorem seeding_again_changes_nothing_witness:
  "\<exists>result' db'. seedSuppliers (\<lambda>_. 0) [(''a1'', cafe)] \<lparr> sr_created = [], sr_skipped = [] \<rparr> sdb0 = (Inr result', db') \<and>
     seedSuppliers (\<lambda>_. 3) [(''a1'', cafe)] \<lparr> sr_created = [], sr_skipped = [] \<rparr> db' =
       (Inr \<lparr> sr_created = [], sr_skipped = [seed_label cafe] \<rparr>, db')"
proof -
  have "seedSuppliers (\<lambda>_. 0) [(''a1'', cafe)] \<lparr> sr_created = [], sr_skipped = [] \<rparr> sdb0 =
      (Inr \<lparr> sr_created = [seed_label cafe], sr_skipped = [] \<rparr>, sdb0\<lparr> suppliers := [insertValues 0 ''a1'' cafe] \<rparr>)"
    using cafe_checked [of 0] by (simp add: transaction_def insertIfAbsent_def Let_def sdb0_def index_free_def note_created_def)
  from seeding_again_changes_nothing [OF this, of "\<lambda>_. 3"] this show ?thesis by simp
qed

end
