(* ===== verification/User_Index.thy ===== *)
theory User_Index
  imports Foc_Prelude
begin

text \<open>
  Connections by user: the \<open>Map\<close> of \<open>Set\<close>s that the two hubs keep beside the set of all their
  connections (\<open>byUser\<close> in chat-service/src/chat/socket/socket-hub.ts and
  order-service/src/orders/live/live-hub.ts). A set is a list without repetition in the order of
  insertion; a user whose last connection goes has no entry.
\<close>

type_synonym conn = nat
type_synonym user_index = "ident \<rightharpoonup> conn list"

definition own :: "user_index \<Rightarrow> ident \<Rightarrow> conn list" where
  "own index u = (case index u of None \<Rightarrow> [] | Some cs \<Rightarrow> cs)"

definition set_add :: "conn \<Rightarrow> conn list \<Rightarrow> conn list" where
  "set_add c cs = (if c \<in> set cs then cs else cs @ [c])"

definition set_delete :: "conn \<Rightarrow> conn list \<Rightarrow> conn list" where
  "set_delete c cs = filter (\<lambda>d. d \<noteq> c) cs"

definition index_add :: "ident \<Rightarrow> conn \<Rightarrow> user_index \<Rightarrow> user_index" where
  "index_add u c index = index(u \<mapsto> set_add c (own index u))"

definition index_remove :: "ident \<Rightarrow> conn \<Rightarrow> user_index \<Rightarrow> user_index" where
  "index_remove u c index =
     (case index u of
        None \<Rightarrow> index
      | Some cs \<Rightarrow> let rest = set_delete c cs in if rest = [] then index(u := None) else index(u \<mapsto> rest))"

lemma set_set_add [simp]: "set (set_add c cs) = insert c (set cs)"
  by (auto simp: set_add_def)

lemma distinct_set_add [simp]: "distinct (set_add c cs) = distinct cs"
  by (auto simp: set_add_def)

lemma set_set_delete [simp]: "set (set_delete c cs) = set cs - {c}"
  by (auto simp: set_delete_def)

lemma distinct_set_delete [simp]: "distinct cs \<Longrightarrow> distinct (set_delete c cs)"
  by (simp add: set_delete_def)

lemma length_set_delete: "length (set_delete c cs) \<le> length cs"
  by (simp add: set_delete_def)

lemma set_delete_absent [simp]: "c \<notin> set cs \<Longrightarrow> set_delete c cs = cs"
  unfolding set_delete_def by (rule filter_True) auto

lemma set_delete_add [simp]: "c \<notin> set cs \<Longrightarrow> set_delete c (set_add c cs) = cs"
  using set_delete_absent [of c cs] by (simp add: set_add_def set_delete_def)

lemma set_add_not_empty [simp]: "set_add c cs \<noteq> []"
  by (auto simp: set_add_def)

text \<open>
  The contract of an index: for the user each connection belongs to, if any, the entry of a user is
  exactly that user's connections, and nobody has an empty one.
\<close>

definition index_exact :: "(conn \<Rightarrow> ident option) \<Rightarrow> user_index \<Rightarrow> bool" where
  "index_exact owner index \<longleftrightarrow>
     (\<forall>u. distinct (own index u) \<and> set (own index u) = {c. owner c = Some u} \<and> index u \<noteq> Some [])"

lemma own_index_add: "own (index_add u c index) v = (if v = u then set_add c (own index u) else own index v)"
  by (simp add: own_def index_add_def)

lemma own_index_remove: "own (index_remove u c index) v = (if v = u then set_delete c (own index u) else own index v)"
  by (auto simp: own_def index_remove_def Let_def set_delete_def split: option.splits)

lemma index_add_exact:
  assumes "index_exact owner index" and "owner c = None"
  shows "index_exact (owner(c := Some u)) (index_add u c index)"
proof -
  have "index_add u c index v \<noteq> Some []" for v
    using assms(1) by (simp add: index_add_def index_exact_def)
  with assms show ?thesis by (auto simp: index_exact_def own_index_add)
qed

lemma index_remove_exact:
  assumes "index_exact owner index" and "owner c = Some u"
  shows "index_exact (owner(c := None)) (index_remove u c index)"
proof -
  have "index_remove u c index v \<noteq> Some []" for v
    using assms(1) by (auto simp: index_remove_def index_exact_def Let_def split: option.splits)
  moreover have "c \<in> set (own index u)" using assms by (simp add: index_exact_def)
  ultimately show ?thesis using assms by (auto simp: index_exact_def own_index_remove)
qed

lemma index_exact_idle: "index_exact owner index \<Longrightarrow> owner c = None \<Longrightarrow> index_exact (owner(c := None)) index"
  by (metis fun_upd_triv)

text \<open>
  Whom a message to several users reaches, a user at a time: \<open>(userId && byUser.get(userId)) || []\<close>,
  so no one by a null or an empty name.
\<close>

definition conns_of :: "user_index \<Rightarrow> ident option list \<Rightarrow> conn list" where
  "conns_of index us = concat (map (\<lambda>u. case u of None \<Rightarrow> [] | Some i \<Rightarrow> if i = [] then [] else own index i) us)"

text \<open>
  The interface of a hub that keeps such an index: in the states it can be in, the index is exact
  for the users its connections belong to. A client that writes to several users then reaches each
  of their connections once, and nobody else's.
\<close>

locale indexed_hub =
  fixes ok :: "'h \<Rightarrow> bool" and owner :: "'h \<Rightarrow> conn \<Rightarrow> ident option" and index :: "'h \<Rightarrow> user_index"
  assumes exact: "ok h \<Longrightarrow> index_exact (owner h) (index h)"
begin

lemma entry_exact: "ok h \<Longrightarrow> distinct (own (index h) u) \<and> set (own (index h) u) = {c. owner h c = Some u}"
  using exact [of h] by (simp add: index_exact_def)

lemma reaches:
  assumes "ok h" and "distinct us"
  shows "distinct (conns_of (index h) us) \<and>
    set (conns_of (index h) us) = {c. owner h c \<in> set us \<and> owner h c \<noteq> None \<and> owner h c \<noteq> Some []}"
  using assms(2)
proof (induction us)
  case Nil
  then show ?case by (simp add: conns_of_def)
next
  case (Cons u us)
  with entry_exact [OF assms(1)] show ?case by (auto simp: conns_of_def split: option.splits)
qed

end

end
