(* ===== verification/Socket_Hub.thy ===== *)
theory Socket_Hub
  imports User_Index
begin

text \<open>
  The Chat Service's sockets (chat-service/src/chat/socket/socket-hub.ts): connections that sign in
  with their first frame, are checked again from time to time, pinged, and told that something new
  arrived. A socket is a number; what its state object holds is its phase. A timer is armed
  exactly in the phase whose object carries it, so its firing is a step enabled in that phase.
  Awaiting an answer splits a method in two: a frame begins the check, the answer ends it.
\<close>

section \<open>State\<close>

record socket_options =
  so_perUser :: nat
  so_perInstance :: nat
  so_pendingPerInstance :: nat

datatype close_reason = Auth_timeout | Unauthenticated | Identity_unavailable | Identity_changed | Too_many
  | Too_many_pending | Bad_frame | Shutdown

definition CLOSE_REASONS :: "close_reason \<Rightarrow> nat" where
  "CLOSE_REASONS r =
     (case r of
        Auth_timeout \<Rightarrow> 4408 | Unauthenticated \<Rightarrow> 4401 | Identity_unavailable \<Rightarrow> 4503 | Identity_changed \<Rightarrow> 4401
      | Too_many \<Rightarrow> 4429 | Too_many_pending \<Rightarrow> 4429 | Bad_frame \<Rightarrow> 4400 | Shutdown \<Rightarrow> 1001)"

datatype ending = Closed_for close_reason | Client_closed | No_pong

datatype socket_phase = Awaiting_auth | Authenticating string | Open_for ident string | Closed

datatype socket_frame = Ready | Messages ident int | Close_frame nat | Ping | Terminate

datatype inbound = Auth_frame string | Malformed

record socket_hub =
  sh_next :: conn
  sh_phase :: "conn \<Rightarrow> socket_phase"
  sh_alive :: "conn \<Rightarrow> bool"
  sh_sockets :: "conn list"
  sh_pending :: "conn list"
  sh_byUser :: user_index
  sh_heartbeat :: bool
  sh_stopping :: bool
  sh_sent :: "(conn \<times> socket_frame) list"

definition sends :: "conn \<Rightarrow> socket_frame \<Rightarrow> socket_hub \<Rightarrow> socket_hub" where
  "sends s f h = h\<lparr> sh_sent := sh_sent h @ [(s, f)] \<rparr>"

section \<open>Ending\<close>

definition last_word :: "conn \<Rightarrow> ending \<Rightarrow> socket_hub \<Rightarrow> socket_hub" where
  "last_word s e h =
     (case e of
        No_pong \<Rightarrow> sends s Terminate h
      | Client_closed \<Rightarrow> h
      | Closed_for r \<Rightarrow> sends s (Close_frame (CLOSE_REASONS r)) h)"

definition end_socket :: "conn \<Rightarrow> ending \<Rightarrow> socket_hub \<Rightarrow> socket_hub" where
  "end_socket s e h =
     (if sh_phase h s = Closed then h
      else let h1 = h\<lparr> sh_phase := (sh_phase h)(s := Closed),
                       sh_byUser := (case sh_phase h s of Open_for u _ \<Rightarrow> index_remove u s (sh_byUser h) | _ \<Rightarrow> sh_byUser h),
                       sh_sockets := set_delete s (sh_sockets h), sh_pending := set_delete s (sh_pending h) \<rparr>;
               h2 = (if sh_sockets h1 = [] then h1\<lparr> sh_heartbeat := False \<rparr> else h1)
           in last_word s e h2)"

section \<open>Connecting\<close>

text \<open>Whether a new socket may wait to sign in: the oldest that has not sent its frame makes room.\<close>

definition makeRoomToWait :: "socket_options \<Rightarrow> socket_hub \<Rightarrow> close_reason option \<times> socket_hub" where
  "makeRoomToWait opt h =
     (if length (sh_pending h) < so_pendingPerInstance opt then (None, h)
      else case find (\<lambda>s. sh_phase h s = Awaiting_auth) (sh_pending h) of
             Some s \<Rightarrow> (None, end_socket s (Closed_for Too_many_pending) h)
           | None \<Rightarrow> (Some Too_many_pending, h))"

definition connect :: "socket_options \<Rightarrow> socket_hub \<Rightarrow> socket_hub" where
  "connect opt h =
     (let s = sh_next h;
          (refused, h1) = (if sh_stopping h then (Some Shutdown, h)
                           else if so_perInstance opt \<le> length (sh_sockets h) then (Some Too_many, h)
                           else makeRoomToWait opt h);
          h2 = h1\<lparr> sh_next := Suc s, sh_phase := (sh_phase h1)(s := Awaiting_auth), sh_alive := (sh_alive h1)(s := True),
                   sh_sockets := set_add s (sh_sockets h1), sh_pending := set_add s (sh_pending h1) \<rparr>
      in case refused of
           Some r \<Rightarrow> end_socket s (Closed_for r) h2
         | None \<Rightarrow> h2\<lparr> sh_heartbeat := True \<rparr>)"

section \<open>Signing in\<close>

definition received :: "conn \<Rightarrow> inbound \<Rightarrow> socket_hub \<Rightarrow> socket_hub" where
  "received s frame h =
     (if sh_phase h s = Closed then h
      else case (frame, sh_phase h s) of
             (Auth_frame token, Awaiting_auth) \<Rightarrow> h\<lparr> sh_phase := (sh_phase h)(s := Authenticating token) \<rparr>
           | _ \<Rightarrow> end_socket s (Closed_for Bad_frame) h)"

text \<open>\<open>refusal\<close>: an answer is the user, or whether it failed because nobody could tell.\<close>

datatype auth_answer = Signed_in ident | Refused_auth bool

definition refusal :: "bool \<Rightarrow> close_reason" where
  "refusal unavailable = (if unavailable then Identity_unavailable else Unauthenticated)"

text \<open>
  \<open>open\<close>: \<open>untilExpiry\<close> is the time left to the \<open>exp\<close> of the token, \<open>None\<close> where none can be read. That the
  expiry timer is only set for delays a timer can hold is no matter here: it may never fire.
\<close>

definition open_socket :: "socket_options \<Rightarrow> int option \<Rightarrow> conn \<Rightarrow> ident \<Rightarrow> string \<Rightarrow> socket_hub \<Rightarrow> socket_hub" where
  "open_socket opt untilExpiry s u token h =
     (let h1 = h\<lparr> sh_pending := set_delete s (sh_pending h) \<rparr>
      in if so_perUser opt \<le> length (own (sh_byUser h1) u) then end_socket s (Closed_for Too_many) h1
         else if (case untilExpiry of None \<Rightarrow> False | Some t \<Rightarrow> t \<le> 0) then end_socket s (Closed_for Unauthenticated) h1
         else sends s Ready (h1\<lparr> sh_phase := (sh_phase h1)(s := Open_for u token), sh_byUser := index_add u s (sh_byUser h1) \<rparr>))"

definition authenticated :: "socket_options \<Rightarrow> int option \<Rightarrow> conn \<Rightarrow> auth_answer \<Rightarrow> socket_hub \<Rightarrow> socket_hub" where
  "authenticated opt untilExpiry s answer h =
     (case sh_phase h s of
        Authenticating token \<Rightarrow>
          (case answer of
             Signed_in u \<Rightarrow> open_socket opt untilExpiry s u token h
           | Refused_auth unavailable \<Rightarrow> end_socket s (Closed_for (refusal unavailable)) h)
      | _ \<Rightarrow> h)"

section \<open>While open\<close>

definition pong :: "conn \<Rightarrow> socket_hub \<Rightarrow> socket_hub" where
  "pong s h = h\<lparr> sh_alive := (sh_alive h)(s := True) \<rparr>"

definition disconnected :: "conn \<Rightarrow> socket_hub \<Rightarrow> socket_hub" where
  "disconnected s h = end_socket s Client_closed h"

text \<open>The answer to a check of an open socket's session: a refusal closes it.\<close>

definition rechecked :: "conn \<Rightarrow> auth_answer \<Rightarrow> socket_hub \<Rightarrow> socket_hub" where
  "rechecked s answer h =
     (case sh_phase h s of
        Open_for u token \<Rightarrow>
          (case answer of
             Signed_in _ \<Rightarrow> h
           | Refused_auth unavailable \<Rightarrow> end_socket s (Closed_for (refusal unavailable)) h)
      | _ \<Rightarrow> h)"

text \<open>Timers: the one of a socket that waits, and the one of an open socket's token.\<close>

definition auth_timer :: "conn \<Rightarrow> socket_hub \<Rightarrow> socket_hub" where
  "auth_timer s h =
     (case sh_phase h s of
        Awaiting_auth \<Rightarrow> end_socket s (Closed_for Auth_timeout) h
      | Authenticating _ \<Rightarrow> end_socket s (Closed_for Auth_timeout) h
      | _ \<Rightarrow> h)"

definition expiry_timer :: "conn \<Rightarrow> socket_hub \<Rightarrow> socket_hub" where
  "expiry_timer s h = (case sh_phase h s of Open_for _ _ \<Rightarrow> end_socket s (Closed_for Unauthenticated) h | _ \<Rightarrow> h)"

definition beat_one :: "conn \<Rightarrow> socket_hub \<Rightarrow> socket_hub" where
  "beat_one s h =
     (if \<not> sh_alive h s then end_socket s No_pong h
      else sends s Ping (h\<lparr> sh_alive := (sh_alive h)(s := False) \<rparr>))"

definition beat :: "socket_hub \<Rightarrow> socket_hub" where
  "beat h = fold beat_one (sh_sockets h) h"

text \<open>
  \<open>notify\<close>: \<open>fails\<close> says which sockets cannot be written to; each is skipped. A user named twice counts
  once, where first named.
\<close>

definition notified :: "(conn \<Rightarrow> bool) \<Rightarrow> ident option list \<Rightarrow> socket_hub \<Rightarrow> conn list" where
  "notified fails userIds h = filter (\<lambda>s. \<not> fails s) (conns_of (sh_byUser h) (rev (remdups (rev userIds))))"

definition notify :: "(conn \<Rightarrow> bool) \<Rightarrow> ident option list \<Rightarrow> ident \<Rightarrow> int \<Rightarrow> socket_hub \<Rightarrow> socket_hub" where
  "notify fails userIds orderId latestSeq h =
     fold (\<lambda>s. sends s (Messages orderId latestSeq)) (notified fails userIds h) h"

definition identityChanged :: "ident \<Rightarrow> socket_hub \<Rightarrow> socket_hub" where
  "identityChanged u h = fold (\<lambda>s. end_socket s (Closed_for Identity_changed)) (own (sh_byUser h) u) h"

definition onModuleDestroy :: "socket_hub \<Rightarrow> socket_hub" where
  "onModuleDestroy h = fold (\<lambda>s. end_socket s (Closed_for Shutdown)) (sh_sockets h) (h\<lparr> sh_stopping := True \<rparr>)"

section \<open>Steps and invariant\<close>

inductive hub_step :: "socket_options \<Rightarrow> socket_hub \<Rightarrow> socket_hub \<Rightarrow> bool" for opt where
  hub_connect: "hub_step opt h (connect opt h)"
| hub_received: "hub_step opt h (received s frame h)"
| hub_authenticated: "hub_step opt h (authenticated opt untilExpiry s answer h)"
| hub_pong: "hub_step opt h (pong s h)"
| hub_disconnected: "hub_step opt h (disconnected s h)"
| hub_rechecked: "hub_step opt h (rechecked s answer h)"
| hub_auth_timer: "hub_step opt h (auth_timer s h)"
| hub_expiry_timer: "hub_step opt h (expiry_timer s h)"
| hub_beat: "sh_heartbeat h \<Longrightarrow> hub_step opt h (beat h)"
| hub_notify: "hub_step opt h (notify fails userIds orderId latestSeq h)"
| hub_identityChanged: "hub_step opt h (identityChanged u h)"
| hub_destroy: "hub_step opt h (onModuleDestroy h)"

definition hub_start :: "socket_hub \<Rightarrow> bool" where
  "hub_start h \<longleftrightarrow> (\<forall>s. sh_phase h s = Closed) \<and> sh_sockets h = [] \<and> sh_pending h = [] \<and> sh_byUser h = Map.empty \<and>
     \<not> sh_heartbeat h \<and> sh_sent h = []"

definition waiting :: "socket_phase \<Rightarrow> bool" where
  "waiting p = (case p of Awaiting_auth \<Rightarrow> True | Authenticating _ \<Rightarrow> True | _ \<Rightarrow> False)"

definition phase_user :: "socket_phase \<Rightarrow> ident option" where
  "phase_user p = (case p of Open_for u _ \<Rightarrow> Some u | _ \<Rightarrow> None)"

definition hub_shape :: "socket_hub \<Rightarrow> bool" where
  "hub_shape h \<longleftrightarrow>
     distinct (sh_sockets h) \<and> (\<forall>s. s \<in> set (sh_sockets h) \<longleftrightarrow> sh_phase h s \<noteq> Closed) \<and>
     distinct (sh_pending h) \<and> (\<forall>s. s \<in> set (sh_pending h) \<longleftrightarrow> waiting (sh_phase h s)) \<and>
     index_exact (\<lambda>s. phase_user (sh_phase h s)) (sh_byUser h) \<and>
     (sh_heartbeat h \<longleftrightarrow> sh_sockets h \<noteq> []) \<and>
     (\<forall>s. sh_phase h s \<noteq> Closed \<longrightarrow> s < sh_next h)"

definition hub_bounded :: "socket_options \<Rightarrow> socket_hub \<Rightarrow> bool" where
  "hub_bounded opt h \<longleftrightarrow> length (sh_sockets h) \<le> so_perInstance opt \<and> length (sh_pending h) \<le> so_pendingPerInstance opt \<and>
     (\<forall>u. length (own (sh_byUser h) u) \<le> so_perUser opt)"

definition hub_ok :: "socket_options \<Rightarrow> socket_hub \<Rightarrow> bool" where
  "hub_ok opt h \<longleftrightarrow> hub_shape h \<and> hub_bounded opt h"

section \<open>What operations keep\<close>

lemma sends_parts [simp]:
  "sh_next (sends s f h) = sh_next h" "sh_phase (sends s f h) = sh_phase h" "sh_alive (sends s f h) = sh_alive h"
  "sh_sockets (sends s f h) = sh_sockets h" "sh_pending (sends s f h) = sh_pending h" "sh_byUser (sends s f h) = sh_byUser h"
  "sh_heartbeat (sends s f h) = sh_heartbeat h" "sh_stopping (sends s f h) = sh_stopping h"
  "sh_sent (sends s f h) = sh_sent h @ [(s, f)]"
  by (simp_all add: sends_def)

lemma last_word_parts [simp]:
  "sh_next (last_word s e h) = sh_next h" "sh_phase (last_word s e h) = sh_phase h" "sh_alive (last_word s e h) = sh_alive h"
  "sh_sockets (last_word s e h) = sh_sockets h" "sh_pending (last_word s e h) = sh_pending h"
  "sh_byUser (last_word s e h) = sh_byUser h" "sh_heartbeat (last_word s e h) = sh_heartbeat h"
  "sh_stopping (last_word s e h) = sh_stopping h"
  by (simp_all add: last_word_def split: ending.splits)

text \<open>What ending a socket leaves, whatever it was for.\<close>

lemma end_socket_parts:
  "sh_phase (end_socket s e h) = (sh_phase h)(s := Closed)"
  "sh_next (end_socket s e h) = sh_next h" "sh_alive (end_socket s e h) = sh_alive h"
  "sh_stopping (end_socket s e h) = sh_stopping h"
  by (auto simp: end_socket_def Let_def fun_eq_iff)

lemma end_socket_sets:
  assumes "sh_phase h s = Closed \<longrightarrow> s \<notin> set (sh_sockets h) \<and> s \<notin> set (sh_pending h)"
  shows "sh_sockets (end_socket s e h) = set_delete s (sh_sockets h)" "sh_pending (end_socket s e h) = set_delete s (sh_pending h)"
  using assms by (auto simp: end_socket_def Let_def)

lemma hub_shape_closed: "hub_shape h \<Longrightarrow> sh_phase h s = Closed \<longrightarrow> s \<notin> set (sh_sockets h) \<and> s \<notin> set (sh_pending h)"
  by (auto simp: hub_shape_def waiting_def)

lemma waiting_simps [simp]: "waiting Awaiting_auth" "waiting (Authenticating t)" "\<not> waiting (Open_for u t)" "\<not> waiting Closed"
  by (simp_all add: waiting_def)

lemma phase_user_simps [simp]:
  "phase_user Awaiting_auth = None" "phase_user (Authenticating t) = None" "phase_user (Open_for u t) = Some u" "phase_user Closed = None"
  by (simp_all add: phase_user_def)

text \<open>
  The shape but for two places a method may leave open for a while: the set of those waiting, where
  a socket being opened has been taken out already, and the heartbeat of a socket just added.
\<close>

definition nearly_shaped :: "conn \<Rightarrow> socket_hub \<Rightarrow> bool" where
  "nearly_shaped c h \<longleftrightarrow>
     distinct (sh_sockets h) \<and> (\<forall>s. s \<in> set (sh_sockets h) \<longleftrightarrow> sh_phase h s \<noteq> Closed) \<and>
     distinct (sh_pending h) \<and> (\<forall>s. s \<noteq> c \<longrightarrow> (s \<in> set (sh_pending h) \<longleftrightarrow> waiting (sh_phase h s))) \<and>
     index_exact (\<lambda>s. phase_user (sh_phase h s)) (sh_byUser h) \<and>
     (\<forall>s. s \<noteq> c \<and> s \<in> set (sh_sockets h) \<longrightarrow> sh_heartbeat h) \<and> (sh_heartbeat h \<longrightarrow> sh_sockets h \<noteq> []) \<and>
     (\<forall>s. sh_phase h s \<noteq> Closed \<longrightarrow> s < sh_next h)"

lemma end_socket_shape:
  assumes "nearly_shaped c h" and "sh_phase h c \<noteq> Closed"
  shows "hub_shape (end_socket c e h)"
proof -
  have sets: "sh_sockets (end_socket c e h) = set_delete c (sh_sockets h)" "sh_pending (end_socket c e h) = set_delete c (sh_pending h)"
    using assms by (auto intro: end_socket_sets)
  have index: "index_exact (\<lambda>s. phase_user (sh_phase (end_socket c e h) s)) (sh_byUser (end_socket c e h))"
  proof -
    have "sh_byUser (end_socket c e h) = (case sh_phase h c of Open_for u _ \<Rightarrow> index_remove u c (sh_byUser h) | _ \<Rightarrow> sh_byUser h)"
      using assms(2) by (simp add: end_socket_def Let_def)
    moreover have "(\<lambda>s. phase_user (sh_phase (end_socket c e h) s)) = (\<lambda>s. phase_user (sh_phase h s))(c := None)"
      by (auto simp: end_socket_parts)
    moreover have "index_exact (\<lambda>s. phase_user (sh_phase h s)) (sh_byUser h)" using assms(1) by (simp add: nearly_shaped_def)
    ultimately show ?thesis
      by (cases "sh_phase h c") (simp_all add: index_remove_exact index_exact_idle)
  qed
  have beat: "sh_heartbeat (end_socket c e h) \<longleftrightarrow> sh_heartbeat h \<and> set_delete c (sh_sockets h) \<noteq> []"
    using assms(2) by (auto simp: end_socket_def Let_def)
  have "sh_heartbeat h" if "set_delete c (sh_sockets h) \<noteq> []"
  proof -
    from that obtain s where "s \<in> set (set_delete c (sh_sockets h))" by (cases "set_delete c (sh_sockets h)") auto
    with assms show ?thesis by (auto simp: nearly_shaped_def)
  qed
  with sets index beat assms show ?thesis unfolding hub_shape_def nearly_shaped_def by (auto simp: end_socket_parts)
qed

lemma shape_nearly: "hub_shape h \<Longrightarrow> nearly_shaped c h"
  by (auto simp: hub_shape_def nearly_shaped_def)

lemma end_keeps_shape: "hub_shape h \<Longrightarrow> hub_shape (end_socket c e h)"
  using end_socket_shape [OF shape_nearly, of h c e] by (cases "sh_phase h c = Closed") (simp_all add: end_socket_def)

lemma end_shrinks:
  "length (sh_sockets (end_socket c e h)) \<le> length (sh_sockets h)"
  "length (sh_pending (end_socket c e h)) \<le> length (sh_pending h)"
  "length (own (sh_byUser (end_socket c e h)) u) \<le> length (own (sh_byUser h) u)"
  by (auto simp: end_socket_def Let_def own_index_remove length_set_delete split: socket_phase.splits)

lemma end_keeps_ok:
  assumes "hub_ok opt h"
  shows "hub_ok opt (end_socket c e h)"
  using assms end_keeps_shape [of h c e] end_shrinks [of c e h] by (auto simp: hub_ok_def hub_bounded_def intro: le_trans)

lemma fold_keeps: "(\<And>x h. P h \<Longrightarrow> P (f x h)) \<Longrightarrow> P h \<Longrightarrow> P (fold f xs h)"
  by (induction xs arbitrary: h) auto

lemma hub_ok_sends: "hub_ok opt (sends s f h) = hub_ok opt h"
  by (simp add: hub_ok_def hub_shape_def hub_bounded_def)

lemma room_keeps:
  assumes "hub_ok opt h" and "makeRoomToWait opt h = (refused, h')"
  shows "hub_ok opt h' \<and> (refused = None \<longrightarrow> length (sh_pending h') < so_pendingPerInstance opt) \<and>
    length (sh_sockets h') \<le> length (sh_sockets h) \<and> sh_next h' = sh_next h"
proof (cases "length (sh_pending h) < so_pendingPerInstance opt")
  case True
  with assms show ?thesis by (simp add: makeRoomToWait_def)
next
  case False
  show ?thesis
  proof (cases "find (\<lambda>s. sh_phase h s = Awaiting_auth) (sh_pending h)")
    case None
    with False assms show ?thesis by (auto simp: makeRoomToWait_def)
  next
    case (Some s)
    let ?e = "end_socket s (Closed_for Too_many_pending) h"
    from Some have s: "s \<in> set (sh_pending h)" by (auto simp: find_Some_iff)
    have "hub_shape h" using assms(1) by (simp add: hub_ok_def)
    then have "sh_pending ?e = set_delete s (sh_pending h)" "distinct (sh_pending h)"
      using end_socket_sets(2) [OF hub_shape_closed] by (simp_all add: hub_shape_def)
    moreover have "length (set_delete s (sh_pending h)) < length (sh_pending h)"
      unfolding set_delete_def using s by (rule length_filter_less) simp
    ultimately have "length (sh_pending ?e) < so_pendingPerInstance opt"
      using assms(1) by (auto simp: hub_ok_def hub_bounded_def)
    with False Some assms end_keeps_ok [OF assms(1), of s] end_shrinks(1) [of s _ h] show ?thesis
      by (auto simp: makeRoomToWait_def end_socket_parts)
  qed
qed

text \<open>A new socket, before it is known whether it may stay.\<close>

definition joined :: "conn \<Rightarrow> socket_hub \<Rightarrow> socket_hub" where
  "joined s h = h\<lparr> sh_next := Suc s, sh_phase := (sh_phase h)(s := Awaiting_auth), sh_alive := (sh_alive h)(s := True),
     sh_sockets := set_add s (sh_sockets h), sh_pending := set_add s (sh_pending h) \<rparr>"

lemma joined_nearly:
  assumes "hub_shape h" and "s = sh_next h"
  shows "nearly_shaped s (joined s h)"
proof -
  have new: "sh_phase h s = Closed" using assms by (auto simp: hub_shape_def)
  have "(\<lambda>x. phase_user (sh_phase (joined s h) x)) = (\<lambda>x. phase_user (sh_phase h x))"
    using new by (auto simp: joined_def)
  then have "index_exact (\<lambda>x. phase_user (sh_phase (joined s h) x)) (sh_byUser (joined s h))"
    using assms(1) by (simp add: hub_shape_def joined_def)
  moreover have "x < Suc s" if "sh_phase h x \<noteq> Closed" for x
    using that assms by (auto simp: hub_shape_def less_Suc_eq)
  ultimately show ?thesis using assms(1) new unfolding nearly_shaped_def hub_shape_def joined_def by auto
qed

lemma new_socket:
  assumes "hub_ok opt h"
  shows "sh_next h \<notin> set (sh_sockets h)" "sh_next h \<notin> set (sh_pending h)"
  using assms by (auto simp: hub_ok_def hub_shape_def)

lemma refused_join:
  assumes "hub_ok opt h"
  shows "hub_ok opt (end_socket (sh_next h) (Closed_for r) (joined (sh_next h) h))"
proof -
  let ?s = "sh_next h" and ?j = "joined (sh_next h) h"
  have "hub_shape (end_socket ?s (Closed_for r) ?j)"
    using assms by (intro end_socket_shape joined_nearly) (simp_all add: hub_ok_def joined_def)
  moreover have "sh_sockets (end_socket ?s (Closed_for r) ?j) = sh_sockets h" "sh_pending (end_socket ?s (Closed_for r) ?j) = sh_pending h"
    using end_socket_sets [of ?j ?s "Closed_for r"] new_socket [OF assms] by (simp_all add: joined_def)
  moreover have "sh_byUser (end_socket ?s (Closed_for r) ?j) = sh_byUser h" by (simp add: end_socket_def Let_def joined_def)
  ultimately show ?thesis using assms by (simp add: hub_ok_def hub_bounded_def)
qed

lemma accepted_join:
  assumes "hub_ok opt h" and "length (sh_pending h) < so_pendingPerInstance opt" and "length (sh_sockets h) < so_perInstance opt"
  shows "hub_ok opt ((joined (sh_next h) h)\<lparr> sh_heartbeat := True \<rparr>)"
proof -
  have "nearly_shaped (sh_next h) (joined (sh_next h) h)" using assms(1) by (intro joined_nearly) (simp_all add: hub_ok_def)
  then have "hub_shape ((joined (sh_next h) h)\<lparr> sh_heartbeat := True \<rparr>)"
    unfolding nearly_shaped_def hub_shape_def by (auto simp: joined_def)
  then show ?thesis
    using assms new_socket [OF assms(1)] by (simp add: hub_ok_def hub_bounded_def joined_def set_add_def)
qed

lemma connect_ok:
  assumes "hub_ok opt h"
  shows "hub_ok opt (connect opt h)"
proof -
  consider (stop) "sh_stopping h" | (full) "\<not> sh_stopping h" "so_perInstance opt \<le> length (sh_sockets h)"
    | (room) "\<not> sh_stopping h" "length (sh_sockets h) < so_perInstance opt" by linarith
  then show ?thesis
  proof cases
    case room
    obtain refused h1 where r: "makeRoomToWait opt h = (refused, h1)" by (cases "makeRoomToWait opt h")
    note kept = room_keeps [OF assms r]
    then have "sh_next h = sh_next h1" by simp
    with room r kept refused_join [of opt h1] accepted_join [of opt h1] show ?thesis
      by (cases refused) (auto simp: connect_def joined_def Let_def)
  qed (use assms refused_join [of opt h] in \<open>simp_all add: connect_def joined_def Let_def\<close>)
qed

lemma phase_change_ok:
  assumes "hub_ok opt h" and "waiting (sh_phase h s)" and "waiting p"
  shows "hub_ok opt (h\<lparr> sh_phase := (sh_phase h)(s := p) \<rparr>)"
proof -
  have "phase_user p = None" "phase_user (sh_phase h s) = None" "p \<noteq> Closed" "sh_phase h s \<noteq> Closed"
    using assms by (auto simp: waiting_def split: socket_phase.splits)
  moreover from this have "(\<lambda>x. phase_user (((sh_phase h)(s := p)) x)) = (\<lambda>x. phase_user (sh_phase h x))" by auto
  ultimately show ?thesis using assms unfolding hub_ok_def hub_shape_def hub_bounded_def by auto
qed

lemma received_ok: "hub_ok opt h \<Longrightarrow> hub_ok opt (received s frame h)"
  by (auto simp: received_def end_keeps_ok intro: phase_change_ok split: inbound.splits socket_phase.splits)

lemma unlisted_nearly:
  "hub_shape h \<Longrightarrow> nearly_shaped s (h\<lparr> sh_pending := set_delete s (sh_pending h) \<rparr>)"
  by (auto simp: hub_shape_def nearly_shaped_def)

lemma unlisted_end:
  assumes "hub_ok opt h" and "sh_phase h s \<noteq> Closed"
  shows "hub_ok opt (end_socket s e (h\<lparr> sh_pending := set_delete s (sh_pending h) \<rparr>))"
proof -
  let ?h = "h\<lparr> sh_pending := set_delete s (sh_pending h) \<rparr>"
  have "hub_shape (end_socket s e ?h)" using assms by (intro end_socket_shape unlisted_nearly) (simp_all add: hub_ok_def)
  moreover have "hub_bounded opt (end_socket s e ?h)"
    using assms(1) end_shrinks [of s e ?h] length_set_delete [of s "sh_pending h"]
    by (auto simp: hub_ok_def hub_bounded_def intro: le_trans)
  ultimately show ?thesis by (simp add: hub_ok_def)
qed

lemma open_ok:
  assumes "hub_ok opt h" and "sh_phase h s = Authenticating token"
  shows "hub_ok opt (open_socket opt untilExpiry s u token h)"
proof -
  let ?h = "h\<lparr> sh_pending := set_delete s (sh_pending h), sh_phase := (sh_phase h)(s := Open_for u token), sh_byUser := index_add u s (sh_byUser h) \<rparr>"
  have "hub_ok opt ?h" if "length (own (sh_byUser h) u) < so_perUser opt"
  proof -
    have "(\<lambda>x. phase_user (sh_phase ?h x)) = (\<lambda>x. phase_user (sh_phase h x))(s := Some u)" by auto
    then have "index_exact (\<lambda>x. phase_user (sh_phase ?h x)) (sh_byUser ?h)"
      using assms index_add_exact [of "\<lambda>x. phase_user (sh_phase h x)" "sh_byUser h" s u] by (simp add: hub_ok_def hub_shape_def)
    then have "hub_shape ?h" using assms unfolding hub_ok_def hub_shape_def by auto
    moreover have "length (own (sh_byUser ?h) v) \<le> so_perUser opt" for v
      using that assms by (auto simp: own_index_add set_add_def hub_ok_def hub_bounded_def)
    moreover have "length (sh_pending ?h) \<le> so_pendingPerInstance opt"
      using assms length_set_delete [of s "sh_pending h"] by (simp add: hub_ok_def hub_bounded_def)
    ultimately show ?thesis using assms by (simp add: hub_ok_def hub_bounded_def)
  qed
  then show ?thesis
    using assms unlisted_end [OF assms(1), of s] by (auto simp: open_socket_def Let_def hub_ok_sends not_le)
qed

lemma authenticated_ok: "hub_ok opt h \<Longrightarrow> hub_ok opt (authenticated opt untilExpiry s answer h)"
  by (auto simp: authenticated_def end_keeps_ok open_ok split: socket_phase.splits auth_answer.splits)

lemma alive_ok [simp]: "hub_ok opt (h\<lparr> sh_alive := a \<rparr>) = hub_ok opt h"
  by (simp add: hub_ok_def hub_shape_def hub_bounded_def)

lemma beat_one_ok: "hub_ok opt h \<Longrightarrow> hub_ok opt (beat_one s h)"
  by (simp add: beat_one_def end_keeps_ok hub_ok_sends)

lemma step_ok:
  assumes "hub_step opt h h'" and "hub_ok opt h"
  shows "hub_ok opt h'"
  using assms(1)
proof cases
  case hub_connect
  then show ?thesis using assms(2) by (simp add: connect_ok)
next
  case (hub_received s frame)
  then show ?thesis using assms(2) by (simp add: received_ok)
next
  case (hub_authenticated untilExpiry s answer)
  then show ?thesis using assms(2) by (simp add: authenticated_ok)
next
  case (hub_rechecked s answer)
  then show ?thesis using assms(2) by (auto simp: rechecked_def end_keeps_ok split: socket_phase.splits auth_answer.splits)
next
  case (hub_auth_timer s)
  then show ?thesis using assms(2) by (auto simp: auth_timer_def end_keeps_ok split: socket_phase.splits)
next
  case (hub_expiry_timer s)
  then show ?thesis using assms(2) by (auto simp: expiry_timer_def end_keeps_ok split: socket_phase.splits)
next
  case hub_beat
  then show ?thesis using assms(2) by (auto simp: beat_def intro!: fold_keeps [of "hub_ok opt"] beat_one_ok)
next
  case (hub_notify fails userIds orderId latestSeq)
  then show ?thesis using assms(2) by (auto simp: notify_def hub_ok_sends intro!: fold_keeps [of "hub_ok opt"])
next
  case (hub_identityChanged u)
  then show ?thesis using assms(2) by (auto simp: identityChanged_def end_keeps_ok intro!: fold_keeps [of "hub_ok opt"])
next
  case hub_destroy
  moreover have "hub_ok opt (h\<lparr> sh_stopping := True \<rparr>)" using assms(2) by (simp add: hub_ok_def hub_shape_def hub_bounded_def)
  ultimately show ?thesis by (auto simp: onModuleDestroy_def end_keeps_ok intro!: fold_keeps [of "hub_ok opt"])
qed (use assms(2) in \<open>simp_all add: pong_def disconnected_def end_keeps_ok\<close>)

interpretation sockets: inductive_invariant hub_start "hub_step opt" "hub_ok opt" for opt
proof
  show "hub_ok opt h" if "hub_start h" for h
    using that by (simp add: hub_start_def hub_ok_def hub_shape_def hub_bounded_def index_exact_def own_def)
  show "hub_ok opt h'" if "hub_ok opt h" "hub_step opt h h'" for h h' using step_ok that by blast
qed

text \<open>The hub is one that keeps an exact index.\<close>

interpretation socket_users: indexed_hub "hub_ok opt" "\<lambda>h s. phase_user (sh_phase h s)" sh_byUser for opt
  by unfold_locales (simp add: hub_ok_def hub_shape_def)

section \<open>Properties\<close>

text \<open>A new connection never ends a socket that has signed in or whose token is being checked.\<close>

lemma connect_spares:
  assumes "sh_phase h s \<noteq> Awaiting_auth" and "hub_ok opt h" and "sh_phase h s \<noteq> Closed"
  shows "sh_phase (connect opt h) s = sh_phase h s"
proof -
  have "s \<noteq> sh_next h" using assms(2,3) by (auto simp: hub_ok_def hub_shape_def)
  moreover have "sh_phase (snd (makeRoomToWait opt h)) s = sh_phase h s"
    using assms(1) by (auto simp: makeRoomToWait_def end_socket_parts find_Some_iff split: option.splits)
  ultimately show ?thesis
    by (auto simp: connect_def Let_def end_socket_parts split: option.splits prod.splits if_splits)
qed

lemma waiting_iff: "waiting p \<longleftrightarrow> p = Awaiting_auth \<or> (\<exists>token. p = Authenticating token)"
  by (cases p) simp_all

lemma phase_user_Some: "phase_user p = Some u \<longleftrightarrow> (\<exists>token. p = Open_for u token)"
  by (cases p) simp_all

lemma sent_by_fold: "fold (\<lambda>s. sends s f) ss h = h\<lparr> sh_sent := sh_sent h @ map (\<lambda>s. (s, f)) ss \<rparr>"
  by (induction ss arbitrary: h) (simp_all add: sends_def)

text \<open>
  A nudge about a new message goes, once, to exactly the open sockets of the users named that
  can be written to, in every reachable state, and changes nothing else.
\<close>

lemma nudges_reach_exactly_the_open_sockets:
  assumes "reachable hub_start (hub_step opt) h"
  shows "\<exists>ss. notify fails userIds orderId n h = h\<lparr> sh_sent := sh_sent h @ map (\<lambda>s. (s, Messages orderId n)) ss \<rparr> \<and> distinct ss \<and>
    set ss = {s. \<not> fails s \<and> (\<exists>u token. sh_phase h s = Open_for u token \<and> u \<noteq> [] \<and> Some u \<in> set userIds)}"
proof -
  have "distinct (conns_of (sh_byUser h) (rev (remdups (rev userIds)))) \<and>
      set (conns_of (sh_byUser h) (rev (remdups (rev userIds)))) =
      {s. phase_user (sh_phase h s) \<in> set userIds \<and> phase_user (sh_phase h s) \<noteq> None \<and> phase_user (sh_phase h s) \<noteq> Some []}"
    using socket_users.reaches [OF sockets.holds [OF assms], of "rev (remdups (rev userIds))"] by simp
  moreover have "phase_user p \<in> set userIds \<and> phase_user p \<noteq> None \<and> phase_user p \<noteq> Some [] \<longleftrightarrow>
      (\<exists>u token. p = Open_for u token \<and> u \<noteq> [] \<and> Some u \<in> set userIds)" for p
    by (cases p) auto
  ultimately have "distinct (notified fails userIds h) \<and>
      set (notified fails userIds h) = {s. \<not> fails s \<and> (\<exists>u token. sh_phase h s = Open_for u token \<and> u \<noteq> [] \<and> Some u \<in> set userIds)}"
    by (auto simp: notified_def)
  then show ?thesis unfolding notify_def sent_by_fold by blast
qed

text \<open>
  C39. In every reachable state of the chat sockets, with connections, frames, answers, timers and
  shutdown in any order, an instance holds no more sockets than it may, no more of them waiting to
  sign in than it may, and none of a user beyond theirs; every socket that is not closed is held,
  those waiting are exactly those not signed in, a user's entry is exactly that user's open sockets,
  and the heartbeat runs exactly while there is a socket.
\<close>

theorem chat_sockets_are_bounded_and_indexed:
  assumes "reachable hub_start (hub_step opt) h"
  shows "length (sh_sockets h) \<le> so_perInstance opt \<and> length (sh_pending h) \<le> so_pendingPerInstance opt \<and>
    (\<forall>u. length (own (sh_byUser h) u) \<le> so_perUser opt \<and> distinct (own (sh_byUser h) u) \<and>
         set (own (sh_byUser h) u) = {s. \<exists>token. sh_phase h s = Open_for u token}) \<and>
    set (sh_sockets h) = {s. sh_phase h s \<noteq> Closed} \<and>
    set (sh_pending h) = {s. sh_phase h s = Awaiting_auth \<or> (\<exists>token. sh_phase h s = Authenticating token)} \<and>
    (sh_heartbeat h \<longleftrightarrow> sh_sockets h \<noteq> [])"
proof -
  have ok: "hub_shape h" "hub_bounded opt h" using sockets.holds [OF assms] by (simp_all add: hub_ok_def)
  then have "distinct (own (sh_byUser h) u) \<and> set (own (sh_byUser h) u) = {s. \<exists>token. sh_phase h s = Open_for u token}" for u
    by (simp add: hub_shape_def index_exact_def phase_user_Some)
  moreover have "set (sh_pending h) = {s. sh_phase h s = Awaiting_auth \<or> (\<exists>token. sh_phase h s = Authenticating token)}"
    using ok(1) by (auto simp: hub_shape_def waiting_iff)
  ultimately show ?thesis using ok by (auto simp: hub_shape_def hub_bounded_def)
qed

definition demo_hub :: socket_hub where
  "demo_hub = \<lparr> sh_next = 0, sh_phase = (\<lambda>_. Closed), sh_alive = (\<lambda>_. False), sh_sockets = [], sh_pending = [],
     sh_byUser = Map.empty, sh_heartbeat = False, sh_stopping = False, sh_sent = [] \<rparr>"

definition demo_socket_options :: socket_options where
  "demo_socket_options = \<lparr> so_perUser = 1, so_perInstance = 2, so_pendingPerInstance = 1 \<rparr>"

text \<open>A socket that has connected, sent its token and been signed in.\<close>

definition demo_open :: socket_hub where
  "demo_open = authenticated demo_socket_options None 0 (Signed_in ''alice'')
     (received 0 (Auth_frame ''t'') (connect demo_socket_options demo_hub))"

lemma demo_open_reachable: "reachable hub_start (hub_step demo_socket_options) demo_open"
proof -
  have "hub_start demo_hub" by (simp add: hub_start_def demo_hub_def)
  then have "reachable hub_start (hub_step demo_socket_options) demo_hub" by (rule reachable_init)
  then have "reachable hub_start (hub_step demo_socket_options) (connect demo_socket_options demo_hub)"
    by (rule reachable_step) (rule hub_connect)
  then have "reachable hub_start (hub_step demo_socket_options) (received 0 (Auth_frame ''t'') (connect demo_socket_options demo_hub))"
    by (rule reachable_step) (rule hub_received)
  then show ?thesis unfolding demo_open_def by (rule reachable_step) (rule hub_authenticated)
qed

lemma demo_open_phase: "sh_phase demo_open 0 = Open_for ''alice'' ''t''"
  by (simp add: demo_open_def demo_socket_options_def demo_hub_def connect_def makeRoomToWait_def received_def authenticated_def
      open_socket_def Let_def own_def sends_def)

theorem chat_sockets_are_bounded_and_indexed_witness:
  "0 \<in> set (own (sh_byUser demo_open) ''alice'') \<and> length (own (sh_byUser demo_open) ''alice'') \<le> 1"
  using chat_sockets_are_bounded_and_indexed [OF demo_open_reachable] demo_open_phase by (auto simp: demo_socket_options_def)

end
