(* ===== verification/Live_Hub.thy ===== *)
theory Live_Hub
  imports User_Index
begin

text \<open>
  The Order Service's live updates (order-service/src/orders/live/live-hub.ts): the streams open on an
  instance, what a change of an errand's status sends to which of them, and how often the board may
  be announced. A stream is a number. Times are integers of milliseconds; \<open>lv_clock\<close> is the last
  reading of the clock, which never goes back, and a timer fires when its time has come or later.
\<close>

section \<open>State\<close>

record live_options =
  lo_enabled :: bool
  lo_perUser :: nat
  lo_perInstance :: nat
  lo_boardIntervalMs :: int

datatype live_refusal = TOO_MANY_STREAMS | LIVE_UNAVAILABLE

datatype live_frame = Live_ready | Board | Keep_alive | Errand ident "int option" | Stream_end

record live_hub =
  lv_clock :: int
  lv_next :: conn
  lv_user :: "conn \<Rightarrow> ident option"
  lv_streams :: "conn list"
  lv_byUser :: user_index
  lv_keepAlive :: bool
  lv_lastBoardAt :: "int option"
  lv_pendingBoard :: "int option"
  lv_stopping :: bool
  lv_written :: "(conn \<times> live_frame) list"
  lv_boards :: "int list"

definition write_to :: "live_frame \<Rightarrow> conn list \<Rightarrow> live_hub \<Rightarrow> live_hub" where
  "write_to f cs h = h\<lparr> lv_written := lv_written h @ map (\<lambda>c. (c, f)) cs \<rparr>"

definition writeAll :: "live_frame \<Rightarrow> live_hub \<Rightarrow> live_hub" where
  "writeAll f h = write_to f (lv_streams h) h"

section \<open>Streams\<close>

definition live_refused :: "live_options \<Rightarrow> ident \<Rightarrow> live_hub \<Rightarrow> live_refusal option" where
  "live_refused opt u h =
     (if \<not> lo_enabled opt \<or> lv_stopping h \<or> lo_perInstance opt \<le> length (lv_streams h) then Some LIVE_UNAVAILABLE
      else if lo_perUser opt \<le> length (own (lv_byUser h) u) then Some TOO_MANY_STREAMS
      else None)"

text \<open>\<open>lv_user\<close> of a stream is its user while it is open.\<close>

definition open_stream :: "live_options \<Rightarrow> ident \<Rightarrow> live_hub \<Rightarrow> (live_refusal + conn) \<times> live_hub" where
  "open_stream opt u h =
     (case live_refused opt u h of
        Some r \<Rightarrow> (Inl r, h)
      | None \<Rightarrow>
          let c = lv_next h
          in (Inr c, write_to Live_ready [c] (h\<lparr> lv_next := Suc c, lv_user := (lv_user h)(c := Some u),
                lv_streams := set_add c (lv_streams h), lv_byUser := index_add u c (lv_byUser h), lv_keepAlive := True \<rparr>)))"

definition release_stream :: "conn \<Rightarrow> bool \<Rightarrow> live_hub \<Rightarrow> live_hub" where
  "release_stream c ends h =
     (if c \<notin> set (lv_streams h) then h
      else let h1 = h\<lparr> lv_streams := set_delete c (lv_streams h), lv_user := (lv_user h)(c := None),
                       lv_byUser := (case lv_user h c of None \<Rightarrow> lv_byUser h | Some u \<Rightarrow> index_remove u c (lv_byUser h)) \<rparr>;
               h2 = (if lv_streams h1 = [] then h1\<lparr> lv_keepAlive := False \<rparr> else h1)
           in if ends then write_to Stream_end [c] h2 else h2)"

section \<open>The board\<close>

definition sendBoard :: "int \<Rightarrow> live_hub \<Rightarrow> live_hub" where
  "sendBoard now h = writeAll Board (h\<lparr> lv_lastBoardAt := Some now, lv_boards := lv_boards h @ [now] \<rparr>)"

definition board :: "live_options \<Rightarrow> int \<Rightarrow> live_hub \<Rightarrow> live_hub" where
  "board opt now h =
     (case lv_pendingBoard h of
        Some _ \<Rightarrow> h
      | None \<Rightarrow>
          (case lv_lastBoardAt h of
             None \<Rightarrow> sendBoard now h
           | Some prev \<Rightarrow>
               let wait = prev + lo_boardIntervalMs opt - now
               in if wait \<le> 0 then sendBoard now h else h\<lparr> lv_pendingBoard := Some (now + wait) \<rparr>))"

definition board_timer :: "int \<Rightarrow> live_hub \<Rightarrow> live_hub" where
  "board_timer now h = sendBoard now (h\<lparr> lv_pendingBoard := None \<rparr>)"

section \<open>Changes\<close>

text \<open>
  \<open>changed\<close> up to the reading of the errand's row, and after it: \<open>who\<close> is the requester and the
  courier, if there is one, or \<open>None\<close> if there is no such errand or it could not be read.
\<close>

definition changed_first :: "live_options \<Rightarrow> int \<Rightarrow> string \<Rightarrow> string \<Rightarrow> live_hub \<Rightarrow> bool \<times> live_hub" where
  "changed_first opt now previousStatus newStatus h =
     (if lv_streams h = [] then (False, h)
      else (True, if previousStatus = ''OPEN'' \<or> newStatus = ''OPEN'' then board opt now h else h))"

definition changed_then :: "ident \<Rightarrow> int option \<Rightarrow> (ident \<times> ident option) option \<Rightarrow> live_hub \<Rightarrow> live_hub" where
  "changed_then orderId version who h =
     (case who of
        None \<Rightarrow> h
      | Some (requesterId, courierId) \<Rightarrow>
          write_to (Errand orderId version)
            (conns_of (lv_byUser h) (if courierId = Some requesterId then [Some requesterId] else [Some requesterId, courierId])) h)"

definition live_destroy :: "live_hub \<Rightarrow> live_hub" where
  "live_destroy h = (fold (\<lambda>c. release_stream c True) (lv_streams h) (h\<lparr> lv_stopping := True \<rparr>))\<lparr> lv_pendingBoard := None \<rparr>"

section \<open>Steps and invariant\<close>

definition at_time :: "int \<Rightarrow> live_hub \<Rightarrow> live_hub" where
  "at_time now h = h\<lparr> lv_clock := now \<rparr>"

inductive live_step :: "live_options \<Rightarrow> live_hub \<Rightarrow> live_hub \<Rightarrow> bool" for opt where
  live_open: "open_stream opt u h = (r, h') \<Longrightarrow> live_step opt h h'"
| live_release: "live_step opt h (release_stream c ends h)"
| live_keep_alive: "lv_keepAlive h \<Longrightarrow> live_step opt h (writeAll Keep_alive h)"
| live_changed: "lv_clock h \<le> now \<Longrightarrow> changed_first opt now previousStatus newStatus (at_time now h) = (go_on, h') \<Longrightarrow> live_step opt h h'"
| live_read: "live_step opt h (changed_then orderId version who h)"
| live_board_timer: "lv_pendingBoard h = Some due \<Longrightarrow> due \<le> now \<Longrightarrow> lv_clock h \<le> now \<Longrightarrow>
     live_step opt h (board_timer now (at_time now h))"
| live_stop: "live_step opt h (live_destroy h)"

definition live_start :: "live_hub \<Rightarrow> bool" where
  "live_start h \<longleftrightarrow> lv_streams h = [] \<and> lv_user h = Map.empty \<and> lv_byUser h = Map.empty \<and> \<not> lv_keepAlive h \<and>
     lv_lastBoardAt h = None \<and> lv_pendingBoard h = None \<and> lv_boards h = []"

definition streams_ok :: "live_options \<Rightarrow> live_hub \<Rightarrow> bool" where
  "streams_ok opt h \<longleftrightarrow>
     distinct (lv_streams h) \<and> (\<forall>c. c \<in> set (lv_streams h) \<longleftrightarrow> lv_user h c \<noteq> None) \<and> index_exact (lv_user h) (lv_byUser h) \<and>
     (lv_keepAlive h \<longleftrightarrow> lv_streams h \<noteq> []) \<and> (\<forall>c. lv_user h c \<noteq> None \<longrightarrow> c < lv_next h) \<and>
     length (lv_streams h) \<le> lo_perInstance opt \<and> (\<forall>u. length (own (lv_byUser h) u) \<le> lo_perUser opt)"

definition boards_ok :: "live_options \<Rightarrow> live_hub \<Rightarrow> bool" where
  "boards_ok opt h \<longleftrightarrow>
     sorted_wrt (\<lambda>a b. a + lo_boardIntervalMs opt \<le> b) (lv_boards h) \<and>
     (case lv_lastBoardAt h of
        None \<Rightarrow> lv_boards h = [] \<and> lv_pendingBoard h = None
      | Some prev \<Rightarrow> lv_boards h \<noteq> [] \<and> last (lv_boards h) = prev \<and> prev \<le> lv_clock h \<and>
          (case lv_pendingBoard h of None \<Rightarrow> True | Some due \<Rightarrow> due = prev + lo_boardIntervalMs opt))"

definition live_ok :: "live_options \<Rightarrow> live_hub \<Rightarrow> bool" where
  "live_ok opt h \<longleftrightarrow> streams_ok opt h \<and> boards_ok opt h"

section \<open>What operations keep\<close>

lemma write_to_parts [simp]:
  "streams_ok opt (write_to f cs h) = streams_ok opt h" "boards_ok opt (write_to f cs h) = boards_ok opt h"
  by (simp_all add: write_to_def streams_ok_def boards_ok_def split: option.splits)

lemma boards_ok_cong:
  "lv_boards h' = lv_boards h \<Longrightarrow> lv_lastBoardAt h' = lv_lastBoardAt h \<Longrightarrow> lv_pendingBoard h' = lv_pendingBoard h \<Longrightarrow>
   lv_clock h' = lv_clock h \<Longrightarrow> boards_ok opt h' = boards_ok opt h"
  by (simp add: boards_ok_def split: option.splits)

lemma at_time_ok: "live_ok opt h \<Longrightarrow> lv_clock h \<le> now \<Longrightarrow> live_ok opt (at_time now h)"
  by (auto simp: live_ok_def streams_ok_def boards_ok_def at_time_def split: option.splits)

lemma stream_open_ok:
  assumes "live_ok opt h" and "open_stream opt u h = (r, h')"
  shows "live_ok opt h'"
proof (cases "live_refused opt u h")
  case (Some x)
  with assms show ?thesis by (simp add: open_stream_def)
next
  case None
  let ?c = "lv_next h"
  let ?h = "h\<lparr> lv_next := Suc ?c, lv_user := (lv_user h)(?c := Some u),
     lv_streams := set_add ?c (lv_streams h), lv_byUser := index_add u ?c (lv_byUser h), lv_keepAlive := True \<rparr>"
  have h': "h' = write_to Live_ready [?c] ?h" using assms(2) None by (simp add: open_stream_def Let_def)
  have ok: "streams_ok opt h" "boards_ok opt h" using assms(1) by (simp_all add: live_ok_def)
  then have new: "lv_user h ?c = None" "?c \<notin> set (lv_streams h)" by (auto simp: streams_ok_def)
  have "index_exact (lv_user ?h) (lv_byUser ?h)"
    using ok(1) new index_add_exact [of "lv_user h" "lv_byUser h" ?c u] by (simp add: streams_ok_def)
  moreover have "length (lv_streams h) < lo_perInstance opt" "length (own (lv_byUser h) u) < lo_perUser opt"
    using None by (auto simp: live_refused_def split: if_splits)
  then have "length (lv_streams ?h) \<le> lo_perInstance opt" "length (own (lv_byUser ?h) v) \<le> lo_perUser opt" for v
    using ok(1) new by (auto simp: set_add_def own_index_add streams_ok_def)
  moreover have "x < Suc ?c" if "lv_user h x \<noteq> None" for x using that ok(1) by (auto simp: streams_ok_def less_Suc_eq)
  ultimately have "streams_ok opt ?h" using ok(1) new unfolding streams_ok_def by auto
  moreover have "boards_ok opt ?h" using ok(2) boards_ok_cong [of ?h h] by simp
  ultimately show ?thesis by (simp add: live_ok_def h')
qed

lemma release_ok:
  assumes "live_ok opt h"
  shows "live_ok opt (release_stream c ends h)"
proof (cases "c \<in> set (lv_streams h)")
  case False
  with assms show ?thesis by (simp add: release_stream_def)
next
  case True
  have ok: "streams_ok opt h" "boards_ok opt h" using assms by (simp_all add: live_ok_def)
  with True obtain u where u: "lv_user h c = Some u" by (auto simp: streams_ok_def)
  let ?h = "h\<lparr> lv_streams := set_delete c (lv_streams h), lv_user := (lv_user h)(c := None), lv_byUser := index_remove u c (lv_byUser h),
     lv_keepAlive := lv_keepAlive h \<and> set_delete c (lv_streams h) \<noteq> [] \<rparr>"
  have "index_exact (lv_user ?h) (lv_byUser ?h)"
    using ok(1) u index_remove_exact [of "lv_user h" "lv_byUser h" c u] by (simp add: streams_ok_def)
  moreover have "length (lv_streams ?h) \<le> lo_perInstance opt" "length (own (lv_byUser ?h) v) \<le> lo_perUser opt" for v
    using ok(1) length_set_delete [of c "lv_streams h"] length_set_delete [of c "own (lv_byUser h) u"]
    by (auto simp: own_index_remove streams_ok_def intro: le_trans)
  moreover have "lv_keepAlive h" using ok(1) True by (auto simp: streams_ok_def)
  ultimately have "streams_ok opt ?h" using ok(1) unfolding streams_ok_def by auto
  moreover have "boards_ok opt ?h" using ok(2) boards_ok_cong [of ?h h] by simp
  moreover have "release_stream c ends h = (if ends then write_to Stream_end [c] ?h else ?h)"
    using True u by (auto simp: release_stream_def Let_def)
  ultimately show ?thesis by (simp add: live_ok_def)
qed

lemma sendBoard_ok:
  assumes "streams_ok opt h" and "boards_ok opt h" and "now = lv_clock h" and "lv_pendingBoard h = None"
    and "0 \<le> lo_boardIntervalMs opt"
    and "case lv_lastBoardAt h of None \<Rightarrow> True | Some prev \<Rightarrow> prev + lo_boardIntervalMs opt \<le> now"
  shows "live_ok opt (sendBoard now h)"
proof -
  have "a + lo_boardIntervalMs opt \<le> now" if "a \<in> set (lv_boards h)" for a
  proof (cases "lv_lastBoardAt h")
    case None
    with assms(2) that show ?thesis by (simp add: boards_ok_def)
  next
    case (Some prev)
    then have l: "lv_boards h \<noteq> []" "last (lv_boards h) = prev" "sorted_wrt (\<lambda>a b. a + lo_boardIntervalMs opt \<le> b) (lv_boards h)"
      using assms(2) by (simp_all add: boards_ok_def)
    then have "lv_boards h = butlast (lv_boards h) @ [prev]" by (metis append_butlast_last_id)
    then have "a = prev \<or> a + lo_boardIntervalMs opt \<le> prev"
      using that l(3) by (metis Un_iff empty_iff empty_set insert_iff list.simps(15) set_append sorted_wrt_append)
    then show ?thesis using Some assms(5,6) by auto
  qed
  then have "boards_ok opt (sendBoard now h)"
    using assms(2,3,4) by (auto simp: sendBoard_def writeAll_def write_to_def boards_ok_def sorted_wrt_append)
  moreover have "streams_ok opt (sendBoard now h)" using assms(1) by (simp add: sendBoard_def writeAll_def write_to_def streams_ok_def)
  ultimately show ?thesis by (simp add: live_ok_def)
qed

lemma board_ok:
  assumes "live_ok opt h" and "now = lv_clock h" and "0 \<le> lo_boardIntervalMs opt"
  shows "live_ok opt (board opt now h)"
proof (cases "lv_pendingBoard h")
  case (Some due)
  with assms show ?thesis by (simp add: board_def)
next
  case None
  have ok: "streams_ok opt h" "boards_ok opt h" using assms(1) by (simp_all add: live_ok_def)
  show ?thesis
  proof (cases "lv_lastBoardAt h")
    case none: None
    with None ok assms show ?thesis by (simp add: board_def sendBoard_ok)
  next
    case (Some prev)
    show ?thesis
    proof (cases "prev + lo_boardIntervalMs opt - now \<le> 0")
      case True
      with Some None ok assms show ?thesis by (simp add: board_def sendBoard_ok)
    next
      case False
      have "boards_ok opt (h\<lparr> lv_pendingBoard := Some (prev + lo_boardIntervalMs opt) \<rparr>)"
        using ok(2) Some by (simp add: boards_ok_def)
      moreover have "streams_ok opt (h\<lparr> lv_pendingBoard := Some (prev + lo_boardIntervalMs opt) \<rparr>)"
        using ok(1) by (simp add: streams_ok_def)
      ultimately show ?thesis using False Some None by (simp add: board_def Let_def live_ok_def)
    qed
  qed
qed

lemma fold_release_ok: "live_ok opt h \<Longrightarrow> live_ok opt (fold (\<lambda>c. release_stream c True) cs h)"
  by (induction cs arbitrary: h) (auto simp: release_ok)

lemma live_step_ok:
  assumes "live_step opt h h'" and "live_ok opt h" and "0 \<le> lo_boardIntervalMs opt"
  shows "live_ok opt h'"
  using assms(1)
proof cases
  case (live_open u r)
  then show ?thesis using assms(2) stream_open_ok by blast
next
  case (live_release c ends)
  then show ?thesis using assms(2) release_ok by simp
next
  case live_keep_alive
  then show ?thesis using assms(2) by (simp add: live_ok_def writeAll_def)
next
  case (live_changed now previousStatus newStatus go_on)
  have "live_ok opt (at_time now h)" using at_time_ok assms(2) live_changed(1) by simp
  moreover from this have "live_ok opt (board opt now (at_time now h))" using assms(3) by (intro board_ok) (simp_all add: at_time_def)
  ultimately show ?thesis using live_changed(2) by (auto simp: changed_first_def split: if_splits)
next
  case (live_read orderId version who)
  then show ?thesis using assms(2) by (auto simp: changed_then_def live_ok_def split: option.splits)
next
  case (live_board_timer due now)
  let ?h = "(at_time now h)\<lparr> lv_pendingBoard := None \<rparr>"
  have ok: "streams_ok opt (at_time now h)" "boards_ok opt (at_time now h)"
    using at_time_ok [OF assms(2)] live_board_timer by (simp_all add: live_ok_def)
  have last: "case lv_lastBoardAt ?h of None \<Rightarrow> True | Some prev \<Rightarrow> prev + lo_boardIntervalMs opt \<le> now"
    using ok(2) live_board_timer by (auto simp: boards_ok_def at_time_def split: option.splits)
  have "streams_ok opt ?h" using ok(1) by (simp add: streams_ok_def)
  moreover have "boards_ok opt ?h" using ok(2) by (auto simp: boards_ok_def split: option.splits)
  ultimately show ?thesis
    unfolding live_board_timer(1) board_timer_def using last assms(3) by (intro sendBoard_ok) (simp_all add: at_time_def)
next
  case live_stop
  have "live_ok opt (h\<lparr> lv_stopping := True \<rparr>)"
    using assms(2) boards_ok_cong [of "h\<lparr> lv_stopping := True \<rparr>" h] by (simp add: live_ok_def streams_ok_def)
  then have ok: "live_ok opt (fold (\<lambda>c. release_stream c True) (lv_streams h) (h\<lparr> lv_stopping := True \<rparr>))" (is "live_ok opt ?h")
    by (rule fold_release_ok)
  then have "streams_ok opt (?h\<lparr> lv_pendingBoard := None \<rparr>)" by (simp add: live_ok_def streams_ok_def)
  moreover have "boards_ok opt (?h\<lparr> lv_pendingBoard := None \<rparr>)" using ok by (auto simp: live_ok_def boards_ok_def split: option.splits)
  ultimately show ?thesis unfolding live_stop live_destroy_def by (simp add: live_ok_def)
qed

text \<open>The interval is never negative; with another the hub would only be as it starts.\<close>

interpretation live: inductive_invariant live_start "live_step opt" "\<lambda>h. 0 \<le> lo_boardIntervalMs opt \<longrightarrow> live_ok opt h" for opt
proof
  show "0 \<le> lo_boardIntervalMs opt \<longrightarrow> live_ok opt h" if "live_start h" for h
    using that by (simp add: live_start_def live_ok_def streams_ok_def boards_ok_def index_exact_def own_def)
  show "0 \<le> lo_boardIntervalMs opt \<longrightarrow> live_ok opt h'" if "0 \<le> lo_boardIntervalMs opt \<longrightarrow> live_ok opt h" "live_step opt h h'" for h h'
    using that live_step_ok by blast
qed

section \<open>Properties\<close>

text \<open>A change that moves the board is announced at once or at the end of the interval.\<close>

lemma board_change_announced:
  assumes "lv_streams h \<noteq> []" and "previousStatus = ''OPEN'' \<or> newStatus = ''OPEN''"
    and "changed_first opt now previousStatus newStatus h = (go_on, h')"
  shows "go_on \<and> (lv_pendingBoard h' \<noteq> None \<or> lv_boards h' = lv_boards h @ [now] \<and>
    lv_written h' = lv_written h @ map (\<lambda>c. (c, Board)) (lv_streams h))"
  using assms by (auto simp: changed_first_def board_def Let_def sendBoard_def writeAll_def write_to_def split: option.splits if_splits)

text \<open>An errand's nudge goes to the streams of its requester and its courier, each once, and to no other.\<close>

interpretation live_users: indexed_hub "live_ok opt" lv_user lv_byUser for opt
  by unfold_locales (simp add: live_ok_def streams_ok_def)

lemma errand_nudge_reaches_participants:
  assumes "live_ok opt h"
  shows "\<exists>cs. changed_then orderId version (Some (requesterId, courierId)) h = write_to (Errand orderId version) cs h \<and> distinct cs \<and>
    set cs = {c. \<exists>u. lv_user h c = Some u \<and> u \<noteq> [] \<and> (u = requesterId \<or> Some u = courierId)}"
proof -
  let ?us = "if courierId = Some requesterId then [Some requesterId] else [Some requesterId, courierId]"
  have "distinct (conns_of (lv_byUser h) ?us) \<and>
      set (conns_of (lv_byUser h) ?us) = {c. lv_user h c \<in> set ?us \<and> lv_user h c \<noteq> None \<and> lv_user h c \<noteq> Some []}"
    by (rule live_users.reaches [OF assms]) auto
  moreover have "{c. lv_user h c \<in> set ?us \<and> lv_user h c \<noteq> None \<and> lv_user h c \<noteq> Some []} =
      {c. \<exists>u. lv_user h c = Some u \<and> u \<noteq> [] \<and> (u = requesterId \<or> Some u = courierId)}" by auto
  ultimately show ?thesis by (intro exI [of _ "conns_of (lv_byUser h) ?us"]) (simp add: changed_then_def)
qed

text \<open>
  C40. In every reachable state of the live updates, whatever streams come and go and errands change,
  two announcements of the board are at least the interval apart; the instance and each user hold no
  more streams than they may, a user's entry is exactly that user's streams, and the keep-alive runs
  exactly while there is a stream.
\<close>

theorem boards_are_spaced_and_streams_bounded:
  assumes "reachable live_start (live_step opt) h" and "0 \<le> lo_boardIntervalMs opt"
  shows "sorted_wrt (\<lambda>a b. a + lo_boardIntervalMs opt \<le> b) (lv_boards h) \<and>
    length (lv_streams h) \<le> lo_perInstance opt \<and>
    (\<forall>u. length (own (lv_byUser h) u) \<le> lo_perUser opt \<and> set (own (lv_byUser h) u) = {c \<in> set (lv_streams h). lv_user h c = Some u}) \<and>
    (lv_keepAlive h \<longleftrightarrow> lv_streams h \<noteq> [])"
proof -
  have "live_ok opt h" using live.holds [OF assms(1)] assms(2) by blast
  then have "streams_ok opt h" "boards_ok opt h" by (simp_all add: live_ok_def)
  then show ?thesis by (auto simp: streams_ok_def boards_ok_def index_exact_def)
qed

definition demo_live :: live_hub where
  "demo_live = \<lparr> lv_clock = 0, lv_next = 0, lv_user = Map.empty, lv_streams = [], lv_byUser = Map.empty, lv_keepAlive = False,
     lv_lastBoardAt = None, lv_pendingBoard = None, lv_stopping = False, lv_written = [], lv_boards = [] \<rparr>"

definition demo_live_options :: live_options where
  "demo_live_options = \<lparr> lo_enabled = True, lo_perUser = 2, lo_perInstance = 5, lo_boardIntervalMs = 1000 \<rparr>"

theorem boards_are_spaced_and_streams_bounded_witness:
  "\<exists>h. reachable live_start (live_step demo_live_options) h \<and> lv_boards h = [5] \<and> length (lv_streams h) \<le> 5"
proof -
  let ?h1 = "snd (open_stream demo_live_options ''alice'' demo_live)"
  let ?h2 = "snd (changed_first demo_live_options 5 ''OPEN'' ''ACCEPTED'' (at_time 5 ?h1))"
  have "reachable live_start (live_step demo_live_options) demo_live" by (rule reachable_init) (simp add: live_start_def demo_live_def)
  then have "reachable live_start (live_step demo_live_options) ?h1"
    by (rule reachable_step) (rule live_open [of _ "''alice''" _ "fst (open_stream demo_live_options ''alice'' demo_live)"], simp)
  then have r: "reachable live_start (live_step demo_live_options) ?h2"
  proof (rule reachable_step)
    have "lv_clock ?h1 \<le> 5" by (simp add: open_stream_def live_refused_def demo_live_def demo_live_options_def own_def Let_def write_to_def)
    then show "live_step demo_live_options ?h1 ?h2"
      by (rule live_changed [of _ _ _ "''OPEN''" "''ACCEPTED''" "fst (changed_first demo_live_options 5 ''OPEN'' ''ACCEPTED'' (at_time 5 ?h1))"]) simp
  qed
  have "lv_boards ?h2 = [5]"
    by (simp add: open_stream_def live_refused_def demo_live_def demo_live_options_def own_def Let_def write_to_def at_time_def
        changed_first_def board_def sendBoard_def writeAll_def)
  moreover from boards_are_spaced_and_streams_bounded [OF r] have "length (lv_streams ?h2) \<le> 5" by (simp add: demo_live_options_def)
  ultimately show ?thesis using r by blast
qed

end
