(* ===== verification/Spec2Isabelle.thy ===== *)
theory Spec2Isabelle
  imports Saga_Properties User_Properties Dead_Letters Auth_Freshness Identity Chat_Properties
    Supplier_Properties Socket_Hub Live_Hub
begin

text \<open>
  Friend on Campus: a verification development for the services of a campus errand platform. The
  program is in TypeScript under src/; names in parentheses are its files and functions.

  The program. Five services each own a PostgreSQL database: the User Service (accounts, sessions,
  administration), the Order Service (the life of an errand), the Credit Service (wallets and a
  double-entry ledger in a closed economy), the Supplier Service (pickup points) and the Chat
  Service. They exchange events through RabbitMQ with the platform package (src/platform): an event
  is written to the outbox table in the transaction that causes it, a relay publishes the table in
  order, a consumer delivers at least once with bounded retry, and an inbox table makes a repeated
  delivery harmless. An errand's credits are moved by a saga over these events: the Order Service
  asks Credit to reserve, transfer or release the reward, and moves the errand on when Credit answers.

  How the model is laid out. A service's database is a record of tables, a table a list of rows; a
  statement's constraints, keys and triggers are branches that give an error. A transaction is one
  step from a database to an error, which rolls back, or to a result and a new database
  (\<open>Foc_Prelude.transaction\<close>); locks only order transactions, which are steps anyway. A method that
  reads before its transaction takes the database it read apart from the one its transaction
  finds, and one that reads twice outside a transaction (\<open>introspect\<close>) takes two databases. Within a
  transaction every statement sees the same database: what another transaction commits between two
  statements under READ COMMITTED, or between a statement's snapshot and its row locks, is left out,
  as is the order in which concurrent transactions draw outbox sequence numbers. Times are integers of microseconds and arguments of the step, so that nothing is assumed
  of clocks; UUIDs and tokens drawn are arguments too, and a repeated one meets the table's key.

  The theories:
  \<^item> \<open>Foc_Prelude\<close>: results, transactions, tables as lists, sums over rows, reachable states, and the
    interface of an inductive invariant (locale \<open>inductive_invariant\<close>).
  \<^item> \<open>Event_Catalogue\<close> (platform/src/events/catalogue.ts, envelope.ts): event types, payload schemas,
    the envelope and its parser. \<open>Event_Tables\<close> (outbox.ts, inbox.ts, retention.ts): the two tables,
    writing, \<open>processOnce\<close>, pruning; locale \<open>exactly_once\<close>. \<open>Outbox_Relay\<close> (outbox.ts, publisher.ts): claims,
    backoff, the tick. \<open>Event_Consumer\<close> (consumer.ts, sender.ts, topology.ts): admission, retry levels,
    dead-lettering, whom a message comes from, and a queue at the broker as a step relation over the
    handler, with confirmations and acknowledgements that get lost. \<open>Dead_Letters\<close> (dead-letters.ts): parking, listing and
    redriving what was set aside.
  \<^item> \<open>Credit_Store\<close>, \<open>Credit_Repository\<close>, \<open>Credit_Service\<close> (credit-service/src): tables with constraints
    and triggers, every operation, the consumers and the service as a step relation. \<open>Credit_Effects\<close>
    is the abstract specification of the economy and the proof that operations refine it;
    \<open>Credit_Invariants\<close> the program's own audit checks and why they never fire; \<open>Credit_Replies\<close> that
    every event told is true; \<open>Credit_Alerts\<close> when an alert is raised.
  \<^item> \<open>Order_State_Machine\<close>, \<open>Order_Store\<close>, \<open>Order_Repository\<close>, \<open>Order_Service\<close>, \<open>Order_Consumers\<close>,
    \<open>Order_Scheduler\<close>, \<open>Order_System\<close> (order-service/src): the transition table, the tables, every
    repository operation, the request handlers, the consumers, the timers and the credit
    reconciler, and the service as a step relation; \<open>Order_Effects\<close> and \<open>Order_Invariants\<close> as for Credit.
  \<^item> \<open>Saga\<close>: the two services with every message late, repeated or lost and resent.
  \<^item> \<open>User_Store\<close>, \<open>User_Repository\<close>, \<open>User_Admin_Repository\<close>, \<open>User_Accounts\<close>, \<open>User_Sessions\<close>,
    \<open>User_Admin\<close>, \<open>User_Limits\<close> (user-service/src): tables, every repository function, registration and
    emailed links, sessions and guards, administration under the two-person rule with the
    bootstrap, and the attempt limiter. \<open>User_Effects\<close> is the specification of the accounts,
    \<open>User_Refinement\<close> the proof that every transaction is one of its movements, \<open>User_Invariants\<close> what
    every movement keeps, \<open>User_System\<close> the service as a step relation, \<open>User_Guarantees\<close> what single
    movements and whole runs guarantee; \<open>User_Demo\<close> is a run for the witnesses.
  \<^item> \<open>Auth_Client\<close> (auth-client/src): the authentication every service shares, with its cache of
    identities; \<open>Auth_Freshness\<close> how fresh the answers are, with the cache as a step relation; \<open>Identity\<close>
    the authenticator on the User Service's introspection.
  \<^item> \<open>Chat_Repository\<close>, \<open>Chat_Service\<close>, \<open>Chat_Retention\<close>, \<open>Chat_System\<close> (chat-service/src): the channels,
    messages and recorded reads with every statement on them, who may read and write by the Order
    Service's answer, the cleanup of channels past retention, and the service as a step relation.
  \<^item> \<open>User_Index\<close>: connections by user, with locale \<open>indexed_hub\<close>, for the two hubs that push news to
    browsers: \<open>Socket_Hub\<close> (chat-service/src/chat/socket/socket-hub.ts) and \<open>Live_Hub\<close>
    (order-service/src/orders/live/live-hub.ts), each a step relation with its limits and timers.
  \<^item> \<open>Supplier_Hours\<close>, \<open>Supplier_Buildings\<close>, \<open>Supplier_Validation\<close>, \<open>Supplier_Repository\<close>,
    \<open>Supplier_Service\<close>, \<open>Supplier_Seed\<close> (supplier-service/src): opening hours and their reference on the
    cyclic week, the campus list and its spellings, the schemas and headers, the tables with every
    statement, the operations and requests, and the seed. \<open>Supplier_System\<close> is the service as a step
    relation, the specification of what a step may do to the catalogue, and its invariant.
  \<^item> \<open>Credit_Properties\<close>, \<open>Order_Properties\<close>, \<open>Saga_Properties\<close>, \<open>User_Properties\<close>, \<open>Chat_Properties\<close>,
    \<open>Supplier_Properties\<close>, and the last sections of \<open>Outbox_Relay\<close>, \<open>Event_Consumer\<close>,
    \<open>Dead_Letters\<close>, \<open>Auth_Freshness\<close>, \<open>Identity\<close>, \<open>Order_State_Machine\<close>, \<open>Socket_Hub\<close> and \<open>Live_Hub\<close>: the properties, C1 and on, each with a witness where it has a hypothesis.

  What the lemmas show. Per service there is a specification (a relation with one case per kind of
  movement), a refinement lemma per operation, and an invariant proved on the specification; the
  locale \<open>inductive_invariant\<close> is interpreted for each service, for the relay and for the saga, and
  the properties rest on its instance. The saga's invariant joins the two services' invariants with
  what the messages between them say; from it come the agreement of errands and ledger, that each
  completed errand is settled once, with the ledger's entries for its requester and its courier
  (\<open>Credit_Service.ledger_posted\<close>), and that no alert is ever raised. The User Service's
  properties are about who may act: links and refresh tokens that work once, passwords that end
  every session, two people for every administrator, and a bootstrap administrator who remains.

  Parameters. Argon2, SHA-256, SHA-1, CSV parsing, Unicode normalisation and the signing of access tokens are
  functions the model is given, as is the scheme the URL parser reads of a text; nothing is assumed
  of them. The HTTP answers of one service to
  another (a supplier's snapshot, whether an account is suspended, an order's credit status) are
  arguments of the handlers that ask, with every answer and every failure possible. Characters are
  the 8-bit \<open>char\<close> of HOL: lower-casing and trimming are exact for Latin-1.

  Termination and bounds. The relay's tick and the pruning loops are recursive functions with measures
  (unpublished rows, rows left), so no fuel is used. How often a message is delivered is bounded by
  an invariant: deliveries settled and attempts its copies have left never add up to more than it
  started with, but for deliveries left unsettled. Quantities of credit are the integers the schema checks bound to what a column holds.

  Not modelled: the web app (src/web-app, pages and generated clients), the HTTP layer of the
  services (OpenAPI, and the controllers and body parsing of all but the Order, Chat and Supplier
  Services), the transport of sockets and streams, logging, metrics, health, process bootstrap and connection recovery, migrations beyond
  the constraints they leave, seeds of demo data other than the suppliers, and the load, system-test
  and observability tools: input and output with no state the properties are about. The Credit
  Service's read endpoints only read the tables modelled here.
\<close>

end
